(* ===== verification/Prelude.thy ===== *)
theory Prelude
  imports Main "HOL-Library.Char_ord" "HOL-Library.List_Lexorder" "HOL-Library.Sublist"
begin

text \<open>
  What the other theories share: the part of the Go standard library the code calls on
  strings and slices, written out on byte strings (a Go string is a byte sequence, an
  Isabelle \<^typ>\<open>string\<close> is a list of 8-bit characters), the collections of facts that the
  component proofs unfold, and a few lemmas on lists.
\<close>

named_theorems go_defs \<open>definitions of the Go library functions\<close>
named_theorems wf_simps \<open>rewrite rules for the workflow operations\<close>
named_theorems store_simps \<open>rewrite rules for the table operations\<close>

section \<open>strings.HasPrefix, HasSuffix, CutPrefix, Index, LastIndex\<close>

fun HasPrefix :: "string \<Rightarrow> string \<Rightarrow> bool" where
  "HasPrefix s [] = True"
| "HasPrefix [] (p # ps) = False"
| "HasPrefix (c # cs) (p # ps) = (c = p \<and> HasPrefix cs ps)"

lemma HasPrefix_iff: "HasPrefix s p \<longleftrightarrow> (\<exists>t. s = p @ t)"
  by (induction s p rule: HasPrefix.induct) auto

lemma HasPrefix_append [simp]: "HasPrefix (p @ t) p"
  by (auto simp: HasPrefix_iff)

lemma HasPrefix_append_append [simp]: "HasPrefix (p @ s) (p @ q) = HasPrefix s q"
  by (induction p) auto

definition HasSuffix :: "string \<Rightarrow> string \<Rightarrow> bool" where
  "HasSuffix s p = HasPrefix (rev s) (rev p)"

lemma HasSuffix_iff: "HasSuffix s p \<longleftrightarrow> (\<exists>t. s = t @ p)"
proof
  assume "HasSuffix s p"
  then obtain t where "rev s = rev p @ t" by (auto simp: HasSuffix_def HasPrefix_iff)
  then have "rev (rev s) = rev (rev p @ t)" by (rule arg_cong)
  then show "\<exists>t. s = t @ p" by auto
qed (auto simp: HasSuffix_def HasPrefix_iff)

definition CutPrefix :: "string \<Rightarrow> string \<Rightarrow> string option" where
  "CutPrefix s p = (if HasPrefix s p then Some (drop (length p) s) else None)"

lemma CutPrefix_append [simp]: "CutPrefix (p @ t) p = Some t"
  by (simp add: CutPrefix_def)

fun Index :: "string \<Rightarrow> string \<Rightarrow> nat option" where
  "Index [] p = (if p = [] then Some 0 else None)"
| "Index (c # cs) p = (if HasPrefix (c # cs) p then Some 0 else map_option Suc (Index cs p))"

lemma Index_SomeD: "Index s p = Some i \<Longrightarrow> \<exists>t. s = take i s @ p @ t"
proof (induction s p arbitrary: i rule: Index.induct)
  case (2 c cs p)
  show ?case
  proof (cases "HasPrefix (c # cs) p")
    case True
    with 2 show ?thesis by (auto simp: HasPrefix_iff)
  next
    case False
    with 2 show ?thesis by auto
  qed
qed (auto split: if_splits)

lemma Index_le: "Index s p = Some i \<Longrightarrow> i + length p \<le> length s"
proof -
  assume a: "Index s p = Some i"
  have "i \<le> length s" using a
    by (induction s p arbitrary: i rule: Index.induct) (auto split: if_splits)
  moreover obtain t where "s = take i s @ p @ t" using Index_SomeD [OF a] by blast
  then have "length s = length (take i s @ p @ t)" by (rule arg_cong)
  then have "length s = min (length s) i + length p + length t"
    unfolding length_append length_take by linarith
  ultimately show ?thesis by linarith
qed

definition LastIndex :: "string \<Rightarrow> string \<Rightarrow> nat option" where
  "LastIndex s p = map_option (\<lambda>i. length s - length p - i) (Index (rev s) (rev p))"

section \<open>strings.TrimSpace\<close>

text \<open>
  White space is \<open>unicode.IsSpace\<close>: the six ASCII characters, and U+0085, U+00A0, U+1680,
  U+2000..U+200A, U+2028, U+2029, U+202F, U+205F and U+3000 in UTF-8.
  \<open>space_len\<close> is the number of bytes of the white-space rune a string starts with (0 when
  it starts with none), \<open>space_len_rev\<close> the same at the end of the string, read backwards.
\<close>

definition ascii_space :: "char \<Rightarrow> bool" where [go_defs]:
  "ascii_space c = (c = CHR 0x09 \<or> c = CHR 0x0A \<or> c = CHR 0x0B \<or> c = CHR 0x0C
     \<or> c = CHR 0x0D \<or> c = CHR 0x20)"

definition space2 :: "char \<Rightarrow> char \<Rightarrow> bool" where [go_defs]:
  "space2 a b = (a = CHR 0xC2 \<and> (b = CHR 0x85 \<or> b = CHR 0xA0))"

definition space3 :: "char \<Rightarrow> char \<Rightarrow> char \<Rightarrow> bool" where [go_defs]:
  "space3 a b c =
     ((a = CHR 0xE1 \<and> b = CHR 0x9A \<and> c = CHR 0x80)
      \<or> (a = CHR 0xE2 \<and> b = CHR 0x80 \<and>
           (((0x80 :: nat) \<le> of_char c \<and> of_char c \<le> (0x8A :: nat))
            \<or> c = CHR 0xA8 \<or> c = CHR 0xA9 \<or> c = CHR 0xAF))
      \<or> (a = CHR 0xE2 \<and> b = CHR 0x81 \<and> c = CHR 0x9F)
      \<or> (a = CHR 0xE3 \<and> b = CHR 0x80 \<and> c = CHR 0x80))"

fun space_len :: "string \<Rightarrow> nat" where
  "space_len [] = 0"
| "space_len [a] = (if ascii_space a then 1 else 0)"
| "space_len [a, b] = (if ascii_space a then 1 else if space2 a b then 2 else 0)"
| "space_len (a # b # c # s) =
     (if ascii_space a then 1 else if space2 a b then 2 else if space3 a b c then 3 else 0)"

fun space_len_rev :: "string \<Rightarrow> nat" where
  "space_len_rev [] = 0"
| "space_len_rev [a] = (if ascii_space a then 1 else 0)"
| "space_len_rev [b, a] = (if ascii_space b then 1 else if space2 a b then 2 else 0)"
| "space_len_rev (c # b # a # s) =
     (if ascii_space c then 1 else if space2 b c then 2 else if space3 a b c then 3 else 0)"

fun trim_with :: "(string \<Rightarrow> nat) \<Rightarrow> string \<Rightarrow> string" where
  "trim_with f [] = []"
| "trim_with f (a # s) = (case f (a # s) of 0 \<Rightarrow> a # s | Suc n \<Rightarrow> trim_with f (drop n s))"

definition TrimSpace :: "string \<Rightarrow> string" where
  "TrimSpace s = rev (trim_with space_len_rev (rev (trim_with space_len s)))"

lemma trim_with_stop: "f [] = 0 \<Longrightarrow> f (trim_with f s) = 0"
  by (induction f s rule: trim_with.induct) (auto split: nat.split)

lemma trim_with_id: "f s = 0 \<Longrightarrow> trim_with f s = s"
  by (cases s) auto

lemma trim_with_suffix: "\<exists>p. s = p @ trim_with f s"
proof (induction f s rule: trim_with.induct)
  case (2 f a s)
  show ?case
  proof (cases "f (a # s)")
    case (Suc n)
    then obtain p where "drop n s = p @ trim_with f (drop n s)" using 2 by blast
    then have "a # s = (a # take n s @ p) @ trim_with f (drop n s)"
      by (metis append_Cons append_assoc append_take_drop_id)
    then show ?thesis using Suc by (metis nat.case(2) trim_with.simps(2))
  qed simp
qed simp

lemma space_len_append: "space_len (s @ t) = 0 \<Longrightarrow> space_len s = 0"
  by (cases s rule: space_len.cases; cases t rule: space_len.cases) (auto split: if_splits)

lemma TrimSpace_prefix: "\<exists>u. trim_with space_len s = TrimSpace s @ u"
proof -
  obtain p where "rev (trim_with space_len s) = p @ trim_with space_len_rev (rev (trim_with space_len s))"
    using trim_with_suffix by blast
  then have "rev (rev (trim_with space_len s)) = rev (trim_with space_len_rev (rev (trim_with space_len s))) @ rev p"
    by (metis rev_append)
  then show ?thesis by (auto simp: TrimSpace_def)
qed

lemma TrimSpace_idem [simp]: "TrimSpace (TrimSpace s) = TrimSpace s"
proof -
  obtain u where u: "trim_with space_len s = TrimSpace s @ u" using TrimSpace_prefix by blast
  have "space_len (TrimSpace s @ u) = 0" unfolding u [symmetric] by (rule trim_with_stop) simp
  then have l: "trim_with space_len (TrimSpace s) = TrimSpace s"
    by (intro trim_with_id) (rule space_len_append)
  have "space_len_rev (rev (TrimSpace s)) = 0"
    unfolding TrimSpace_def rev_rev_ident by (rule trim_with_stop) simp
  then have "trim_with space_len_rev (rev (TrimSpace s)) = rev (TrimSpace s)"
    by (rule trim_with_id)
  with l show ?thesis by (simp add: TrimSpace_def [of "TrimSpace s"])
qed

lemma TrimSpace_Nil [simp]: "TrimSpace [] = []"
  by (simp add: TrimSpace_def)

section \<open>strings.ToLower and strings.EqualFold\<close>

text \<open>
  ASCII letters are folded; other bytes compare as they are (the Unicode folding tables are
  not modelled).
\<close>

definition lower_char :: "char \<Rightarrow> char" where [go_defs]:
  "lower_char c = (let n = of_char c in if 65 \<le> n \<and> n \<le> (90 :: nat) then char_of (n + 32) else c)"

definition ToLower :: "string \<Rightarrow> string" where [go_defs]:
  "ToLower s = map lower_char s"

definition EqualFold :: "string \<Rightarrow> string \<Rightarrow> bool" where [go_defs]:
  "EqualFold s t = (ToLower s = ToLower t)"

lemma EqualFold_refl [simp]: "EqualFold s s"
  by (simp add: EqualFold_def)

lemma EqualFold_sym: "EqualFold s t \<longleftrightarrow> EqualFold t s"
  by (auto simp: EqualFold_def)

lemma EqualFold_trans: "EqualFold s t \<Longrightarrow> EqualFold t u \<Longrightarrow> EqualFold s u"
  by (simp add: EqualFold_def)

lemma lower_char_idem [simp]: "lower_char (lower_char c) = lower_char c"
  by (auto simp: lower_char_def Let_def)

lemma ToLower_idem [simp]: "ToLower (ToLower s) = ToLower s"
  by (simp add: ToLower_def)

section \<open>Folding and trimming\<close>

definition caseless :: "char \<Rightarrow> bool" where
  "caseless c \<longleftrightarrow> (let n = of_char c in n < (65 :: nat) \<or> (90 < n \<and> n < 97) \<or> 122 < n)"

lemma lower_caseless: "caseless c \<Longrightarrow> (lower_char d = c) = (d = c)"
  by (auto simp: lower_char_def caseless_def Let_def)

lemma lower_ascii_space [simp]: "ascii_space (lower_char a) = ascii_space a"
  unfolding ascii_space_def by (simp add: lower_caseless caseless_def)

lemma lower_space2 [simp]: "space2 (lower_char a) (lower_char b) = space2 a b"
  unfolding space2_def by (simp add: lower_caseless caseless_def)

lemma lower_space3 [simp]: "space3 (lower_char a) (lower_char b) (lower_char c) = space3 a b c"
proof -
  have "((0x80 :: nat) \<le> of_char (lower_char c) \<and> of_char (lower_char c) \<le> (0x8A :: nat)) = ((0x80 :: nat) \<le> of_char c \<and> of_char c \<le> (0x8A :: nat))"
    by (auto simp: lower_char_def Let_def)
  then show ?thesis unfolding space3_def by (simp add: lower_caseless caseless_def)
qed

lemma lower_space_len [simp]: "space_len (map lower_char s) = space_len s" "space_len_rev (map lower_char s) = space_len_rev s"
  by (cases s rule: space_len.cases, auto) (cases s rule: space_len_rev.cases, auto)

lemma trim_with_map:
  assumes "\<And>s. f (map g s) = f s"
  shows "trim_with f (map g s) = map g (trim_with f s)"
  using assms
proof (induction f s rule: trim_with.induct)
  case (2 f a s)
  have "f (g a # map g s) = f (a # s)" using 2(2) [of "a # s"] by simp
  then show ?case using 2(1) [OF _ 2(2)] by (cases "f (a # s)") (simp_all add: drop_map)
qed simp

lemma TrimSpace_ToLower: "TrimSpace (ToLower s) = ToLower (TrimSpace s)"
  by (simp add: TrimSpace_def ToLower_def trim_with_map rev_map)

section \<open>strings.Join\<close>

fun Join :: "string list \<Rightarrow> string \<Rightarrow> string" where
  "Join [] sep = []"
| "Join [s] sep = s"
| "Join (s # t # ss) sep = s @ sep @ Join (t # ss) sep"

section \<open>Lists\<close>

text \<open>A loop that keeps the keys seen so far accepts exactly the lists of fresh, distinct keys.\<close>

definition fresh :: "'a list \<Rightarrow> 'a set \<Rightarrow> bool" where
  "fresh ks K \<longleftrightarrow> distinct ks \<and> set ks \<inter> K = {}"

lemma fresh_simps [simp]:
  "fresh [] K"
  "fresh (k # ks) K \<longleftrightarrow> k \<notin> K \<and> fresh ks (insert k K)"
  by (auto simp: fresh_def)

lemma fresh_empty: "fresh ks {} = distinct ks"
  by (simp add: fresh_def)

lemma map_sum_Inr: "map_sum f g x = Inr y \<longleftrightarrow> (\<exists>z. x = Inr z \<and> y = g z)"
  by (cases x) auto

lemma find_SomeD: "find P xs = Some x \<Longrightarrow> x \<in> set xs \<and> P x"
  by (induction xs) (auto split: if_splits)

lemma find_append: "find P (xs @ ys) = (case find P xs of Some x \<Rightarrow> Some x | None \<Rightarrow> find P ys)"
  by (induction xs) auto

section \<open>Decimal printing (fmt, strconv) and joined keys\<close>

fun dec_nat :: "nat \<Rightarrow> string" where
  "dec_nat n = (if n < 10 then [char_of (48 + n)] else dec_nat (n div 10) @ [char_of (48 + n mod 10)])"

declare dec_nat.simps [simp del]

definition itoa :: "int \<Rightarrow> string" where
  "itoa i = (if i < 0 then CHR ''-'' # dec_nat (nat (- i)) else dec_nat (nat i))"

definition btoa :: "bool \<Rightarrow> string" where
  "btoa b = (if b then ''true'' else ''false'')"

definition is_digit :: "char \<Rightarrow> bool" where
  "is_digit c \<longleftrightarrow> (48 :: nat) \<le> of_char c \<and> of_char c \<le> (57 :: nat)"

definition digits_value :: "string \<Rightarrow> nat" where
  "digits_value s = foldl (\<lambda>a c. 10 * a + (of_char c - 48)) 0 s"

lemma of_char_digit: "d < 10 \<Longrightarrow> (of_char (char_of (48 + d :: nat)) :: nat) = 48 + d"
  by simp

lemma dec_nat_digits: "\<forall>c \<in> set (dec_nat n). is_digit c"
proof (induction n rule: dec_nat.induct)
  case (1 n)
  have "n mod 10 < 10" by simp
  then show ?case
    using 1 by (subst dec_nat.simps) (auto simp: is_digit_def)
qed

lemma dec_nat_value: "digits_value (dec_nat n) = n"
proof (induction n rule: dec_nat.induct)
  case (1 n)
  have m: "(of_char (char_of (48 + n mod 10) :: char) :: nat) = 48 + n mod 10"
    by (rule of_char_digit) simp
  show ?case
  proof (cases "n < 10")
    case True
    then show ?thesis by (subst dec_nat.simps) (simp add: digits_value_def)
  next
    case False
    then have "digits_value (dec_nat n) = 10 * digits_value (dec_nat (n div 10)) + n mod 10"
      using m by (subst dec_nat.simps) (simp add: digits_value_def)
    then show ?thesis using 1 False by simp
  qed
qed

lemma dec_nat_inj: "dec_nat m = dec_nat n \<Longrightarrow> m = n"
  by (metis dec_nat_value)

lemma dec_nat_Nil [simp]: "dec_nat n \<noteq> []"
  by (subst dec_nat.simps) simp

lemma dash_not_digit: "\<not> is_digit (CHR ''-'')" "\<not> is_digit (CHR 0x00)"
  by (simp_all add: is_digit_def)

lemma itoa_inj [simp]: "itoa i = itoa j \<longleftrightarrow> i = j"
proof
  assume e: "itoa i = itoa j"
  have d: "dec_nat m \<noteq> CHR ''-'' # dec_nat n" for m n
    using dec_nat_digits [of m] dash_not_digit by (metis list.set_intros(1))
  from e show "i = j"
    unfolding itoa_def using d d [symmetric] by (auto split: if_splits dest!: dec_nat_inj)
qed simp

lemma itoa_no_nul: "CHR 0x00 \<notin> set (itoa i)"
proof -
  have "CHR 0x00 \<notin> set (dec_nat n)" for n using dec_nat_digits [of n] dash_not_digit by blast
  then show ?thesis by (simp add: itoa_def)
qed

lemma btoa_inj [simp]: "btoa a = btoa b \<longleftrightarrow> a = b"
  by (simp add: btoa_def)

lemma btoa_no_nul: "CHR 0x00 \<notin> set (btoa b)"
  by (simp add: btoa_def)

text \<open>Splitting at the first separator: joined keys are injective on separator-free parts.\<close>

lemma append_sep_inj:
  "c \<notin> set a \<Longrightarrow> c \<notin> set b \<Longrightarrow> a @ c # x = b @ c # y \<longleftrightarrow> a = b \<and> x = y"
proof (induction a arbitrary: b)
  case Nil
  then show ?case by (cases b) auto
next
  case (Cons d a)
  then show ?case by (cases b) auto
qed

lemma Join_inj:
  assumes "length xs = length ys" and "\<forall>x \<in> set xs. c \<notin> set x" and "\<forall>y \<in> set ys. c \<notin> set y"
  shows "Join xs [c] = Join ys [c] \<longleftrightarrow> xs = ys"
  using assms
proof (induction xs ys rule: list_induct2)
  case (Cons x xs y ys)
  then show ?case by (cases xs; cases ys) (auto simp: append_sep_inj)
qed simp

end
