(* ===== verification/Frontmatter.thy ===== *)
theory Frontmatter
  imports Prelude
begin

text \<open>
  \<^verbatim>\<open>internal/frontmatter/frontmatter.go\<close>: splitting a markdown artifact into its YAML
  frontmatter and its body, seeing past the sync-identity comment that the client writes
  into materialised files. The YAML decoder (gopkg.in/yaml.v3) is the parameter \<open>yaml\<close> of
  \<open>ParseFrontmatter\<close>: it maps a block to the decoded struct, or to \<^const>\<open>None\<close> where it reports an error.
  The lemmas show that both positions of the stamp are transparent to the parser and that the
  parser inverts the layout a writer produces.
\<close>

section \<open>Data\<close>

record Frontmatter =
  fm_Tags :: "string list"
  fm_Name :: string
  fm_Description :: string
  fm_Type :: string
  fm_Headline :: string
  fm_Scope :: string
  fm_WorkspaceID :: string
  fm_ProjectID :: string
  fm_Kind :: string
  fm_AppliesTo :: "string list"
  fm_When :: string
  fm_Level :: string
  fm_Tools :: "string list"
  fm_Check :: string

definition zeroFrontmatter :: Frontmatter where
  "zeroFrontmatter = \<lparr>fm_Tags = [], fm_Name = [], fm_Description = [], fm_Type = [],
     fm_Headline = [], fm_Scope = [], fm_WorkspaceID = [], fm_ProjectID = [], fm_Kind = [],
     fm_AppliesTo = [], fm_When = [], fm_Level = [], fm_Tools = [], fm_Check = []\<rparr>"

datatype fm_error = OpeningWithoutClosing | YamlError

section \<open>Delimiters and the sync stamp\<close>

definition frontmatterDelim :: string where [go_defs]:
  "frontmatterDelim = ''---''"

definition syncStampBegin :: string where
  "syncStampBegin = ''<!-- satellites-sync:begin''"

definition syncStampEnd :: string where
  "syncStampEnd = ''satellites-sync:end -->''"

text \<open>\<open>bytes.TrimLeft(raw, " \t\r\n")\<close> drops bytes of that set.\<close>

definition stamp_space :: "char \<Rightarrow> bool" where
  "stamp_space c = (c = CHR '' '' \<or> c = CHR 0x09 \<or> c = CHR 0x0D \<or> c = CHR 0x0A)"

fun trimLeadingNewline :: "string \<Rightarrow> string" where
  "trimLeadingNewline s =
     (if HasPrefix s [CHR 0x0D, CHR 0x0A] then drop 2 s
      else if HasPrefix s [CHR 0x0A] then drop 1 s else s)"

declare trimLeadingNewline.simps [simp del]

definition StripSyncStamp :: "string \<Rightarrow> string" where
  "StripSyncStamp raw =
     (let trimmed = dropWhile stamp_space raw in
      if \<not> HasPrefix trimmed syncStampBegin then raw
      else case Index trimmed syncStampEnd of
             None \<Rightarrow> raw
           | Some endIdx \<Rightarrow> trimLeadingNewline (drop (endIdx + length syncStampEnd) trimmed))"

text \<open>
  \<open>indexClosingDelimiter\<close> walks the lines of \<open>s\<close> (the loop keeps the byte offset of the
  current line). \<open>bytes.TrimRight(line, "\r")\<close> drops all trailing carriage returns.
\<close>

definition TrimRightCR :: "string \<Rightarrow> string" where
  "TrimRightCR line = rev (dropWhile (\<lambda>c. c = CHR 0x0D) (rev line))"

function indexClosingDelimiter_from :: "nat \<Rightarrow> string \<Rightarrow> nat option" where
  "indexClosingDelimiter_from offset s =
     (if s = [] then None
      else let line = takeWhile (\<lambda>c. c \<noteq> CHR 0x0A) s; nl = length line in
        if TrimRightCR line = frontmatterDelim then Some offset
        else if nl = length s then None
        else indexClosingDelimiter_from (offset + nl + 1) (drop (nl + 1) s))"
  by pat_completeness auto
termination
  by (relation "measure (\<lambda>(offset, s). length s)") auto

declare indexClosingDelimiter_from.simps [simp del]

definition indexClosingDelimiter :: "string \<Rightarrow> nat option" where
  "indexClosingDelimiter s = indexClosingDelimiter_from 0 s"

section \<open>ParseFrontmatter\<close>

definition ParseFrontmatter :: "(string \<Rightarrow> Frontmatter option) \<Rightarrow> string \<Rightarrow> fm_error + Frontmatter \<times> string" where
  "ParseFrontmatter yaml raw0 =
     (let raw = StripSyncStamp raw0 in
      if \<not> HasPrefix raw (frontmatterDelim @ [CHR 0x0A]) \<and>
         \<not> HasPrefix raw (frontmatterDelim @ [CHR 0x0D, CHR 0x0A])
      then Inr (zeroFrontmatter, raw)
      else let rest = trimLeadingNewline (drop (length frontmatterDelim) raw) in
        case indexClosingDelimiter rest of
          None \<Rightarrow> Inl OpeningWithoutClosing
        | Some closeIdx \<Rightarrow>
            let yamlBlock = take closeIdx rest;
                body = StripSyncStamp (trimLeadingNewline (drop (closeIdx + length frontmatterDelim) rest))
            in if TrimSpace yamlBlock = [] then Inr (zeroFrontmatter, body)
               else case yaml yamlBlock of
                      None \<Rightarrow> Inl YamlError
                    | Some fm \<Rightarrow> Inr (fm, body))"

section \<open>The stamp is transparent\<close>

text \<open>A stamp as the client writes it: the begin marker, some text without the end marker,
  the end marker and a newline.\<close>

definition is_stamp :: "string \<Rightarrow> bool" where
  "is_stamp st \<longleftrightarrow> (\<exists>mid. st = syncStampBegin @ mid @ syncStampEnd @ [CHR 0x0A] \<and>
     Index (syncStampBegin @ mid @ syncStampEnd) syncStampEnd = Some (length (syncStampBegin @ mid)))"

lemma HasPrefix_extend: "HasPrefix s p \<Longrightarrow> HasPrefix (s @ t) p"
  by (auto simp: HasPrefix_iff)

lemma HasPrefix_long: "length p \<le> length s \<Longrightarrow> HasPrefix (s @ t) p = HasPrefix s p"
  by (induction s p rule: HasPrefix.induct) auto

lemma Index_append: "Index s p = Some i \<Longrightarrow> Index (s @ t) p = Some i"
proof (induction s p arbitrary: i rule: Index.induct)
  case (1 p)
  then show ?case by (cases t) (auto split: if_splits)
next
  case (2 c cs p)
  show ?case
  proof (cases "HasPrefix (c # cs) p")
    case True
    then show ?thesis using 2 HasPrefix_extend by fastforce
  next
    case False
    with "2.prems" obtain j where j: "Index cs p = Some j" "i = Suc j" by auto
    then have "length p \<le> length cs" using Index_le by fastforce
    then have "HasPrefix ((c # cs) @ t) p = HasPrefix (c # cs) p"
      by (intro HasPrefix_long) simp
    then show ?thesis using False j "2.IH" [OF False j(1)] by simp
  qed
qed

lemma StripSyncStamp_stamp:
  assumes "is_stamp st"
  shows "StripSyncStamp (st @ content) = content"
proof -
  obtain mid where st: "st = syncStampBegin @ mid @ syncStampEnd @ [CHR 0x0A]"
    and ix: "Index (syncStampBegin @ mid @ syncStampEnd) syncStampEnd = Some (length (syncStampBegin @ mid))"
    using assms by (auto simp: is_stamp_def)
  have hd: "dropWhile stamp_space (st @ content) = st @ content"
    by (simp add: st syncStampBegin_def stamp_space_def)
  have ix': "Index (st @ content) syncStampEnd = Some (length (syncStampBegin @ mid))"
    using Index_append [OF ix, of "CHR 0x0A # content"] by (simp add: st)
  have d: "drop (length (syncStampBegin @ mid) + length syncStampEnd) (st @ content) = CHR 0x0A # content"
    by (simp add: st)
  have p: "HasPrefix (st @ content) syncStampBegin" by (simp add: st)
  show ?thesis
    unfolding StripSyncStamp_def hd Let_def ix' using p
    by (simp add: d [simplified] trimLeadingNewline.simps)
qed

lemma Parse_leading_stamp:
  assumes "is_stamp st" and "StripSyncStamp content = content"
  shows "ParseFrontmatter yaml (st @ content) = ParseFrontmatter yaml content"
  using assms by (simp add: ParseFrontmatter_def StripSyncStamp_stamp)

section \<open>Parsing what a writer lays out\<close>

lemma takeWhile_line: "CHR 0x0A \<notin> set l \<Longrightarrow> takeWhile (\<lambda>c. c \<noteq> CHR 0x0A) (l @ CHR 0x0A # r) = l"
  by (induction l) auto

lemma indexClosing_lines:
  assumes "\<forall>l \<in> set ls. CHR 0x0A \<notin> set l \<and> TrimRightCR l \<noteq> frontmatterDelim"
  shows "indexClosingDelimiter_from k (concat (map (\<lambda>l. l @ [CHR 0x0A]) ls) @ frontmatterDelim @ CHR 0x0A # body)
    = Some (k + length (concat (map (\<lambda>l. l @ [CHR 0x0A]) ls)))"
  using assms
proof (induction ls arbitrary: k)
  case Nil
  show ?case
    by (subst indexClosingDelimiter_from.simps) (simp add: frontmatterDelim_def TrimRightCR_def Let_def)
next
  case (Cons l ls)
  let ?rest = "concat (map (\<lambda>l. l @ [CHR 0x0A]) ls) @ frontmatterDelim @ CHR 0x0A # body"
  have l: "CHR 0x0A \<notin> set l" "TrimRightCR l \<noteq> frontmatterDelim" using Cons.prems by auto
  note tw = takeWhile_line [OF l(1), of ?rest]
  have "indexClosingDelimiter_from k (l @ CHR 0x0A # ?rest)
      = indexClosingDelimiter_from (k + length l + 1) ?rest"
    unfolding indexClosingDelimiter_from.simps [of k "l @ CHR 0x0A # ?rest"] tw Let_def
    using l(2) by simp
  then show ?case using Cons.IH Cons.prems by simp
qed

lemma Parse_layout:
  fixes ls body
  defines "block \<equiv> concat (map (\<lambda>l. l @ [CHR 0x0A]) ls)"
  assumes ls: "\<forall>l \<in> set ls. CHR 0x0A \<notin> set l \<and> TrimRightCR l \<noteq> frontmatterDelim"
    and block: "TrimSpace block \<noteq> []"
  shows "ParseFrontmatter yaml (frontmatterDelim @ [CHR 0x0A] @ block @ frontmatterDelim @ [CHR 0x0A] @ body)
    = (case yaml block of None \<Rightarrow> Inl YamlError | Some fm \<Rightarrow> Inr (fm, StripSyncStamp body))"
proof -
  let ?raw = "frontmatterDelim @ [CHR 0x0A] @ block @ frontmatterDelim @ [CHR 0x0A] @ body"
  have raw: "StripSyncStamp ?raw = ?raw"
    by (simp add: StripSyncStamp_def frontmatterDelim_def stamp_space_def syncStampBegin_def)
  have "indexClosingDelimiter_from 0 (block @ frontmatterDelim @ CHR 0x0A # body) = Some (length block)"
    using indexClosing_lines [OF ls, of 0 body] by (simp add: block_def)
  then have ic: "indexClosingDelimiter (block @ frontmatterDelim @ CHR 0x0A # body) = Some (length block)"
    by (simp add: indexClosingDelimiter_def)
  have tr: "trimLeadingNewline (drop (length frontmatterDelim) ?raw) = block @ frontmatterDelim @ CHR 0x0A # body"
    by (simp add: trimLeadingNewline.simps)
  show ?thesis
    using block unfolding ParseFrontmatter_def raw Let_def tr ic
    by (simp add: trimLeadingNewline.simps split: option.split)
qed

section \<open>Properties\<close>

definition written_file :: "string list \<Rightarrow> string \<Rightarrow> string" where
  "written_file ls body =
     frontmatterDelim @ [CHR 0x0A] @ concat (map (\<lambda>l. l @ [CHR 0x0A]) ls) @ frontmatterDelim @ [CHR 0x0A] @ body"

lemma written_file_clean: "StripSyncStamp (written_file ls body) = written_file ls body"
  by (simp add: StripSyncStamp_def written_file_def frontmatterDelim_def stamp_space_def syncStampBegin_def)

text \<open>
  A file written as frontmatter lines and a body parses back to the decoded lines and the body,
  and the sync stamp is invisible in both of its positions, before the frontmatter and on the line
  after its close.
\<close>

theorem stamp_transparent:
  assumes "is_stamp st" and "\<forall>l \<in> set ls. CHR 0x0A \<notin> set l \<and> TrimRightCR l \<noteq> frontmatterDelim"
    and "TrimSpace (concat (map (\<lambda>l. l @ [CHR 0x0A]) ls)) \<noteq> []" and "StripSyncStamp body = body"
  shows "ParseFrontmatter yaml (written_file ls body)
      = (case yaml (concat (map (\<lambda>l. l @ [CHR 0x0A]) ls)) of None \<Rightarrow> Inl YamlError | Some fm \<Rightarrow> Inr (fm, body))
    \<and> ParseFrontmatter yaml (st @ written_file ls body) = ParseFrontmatter yaml (written_file ls body)
    \<and> ParseFrontmatter yaml (written_file ls (st @ body)) = ParseFrontmatter yaml (written_file ls body)"
proof -
  have "ParseFrontmatter yaml (written_file ls b)
      = (case yaml (concat (map (\<lambda>l. l @ [CHR 0x0A]) ls)) of
          None \<Rightarrow> Inl YamlError | Some fm \<Rightarrow> Inr (fm, StripSyncStamp b))" for b
    unfolding written_file_def using Parse_layout [OF assms(2,3)] by blast
  then show ?thesis
    using Parse_leading_stamp [OF assms(1) written_file_clean] StripSyncStamp_stamp [OF assms(1), of body] assms(4)
    by (simp split: option.split)
qed

theorem stamp_transparent_witness:
  "ParseFrontmatter (\<lambda>b. Some (zeroFrontmatter\<lparr>fm_Name := b\<rparr>))
     (written_file [''name: x''] (syncStampBegin @ '' '' @ syncStampEnd @ [CHR 0x0A] @ ''body''))
   = Inr (zeroFrontmatter\<lparr>fm_Name := ''name: x'' @ [CHR 0x0A]\<rparr>, ''body'')"
proof -
  let ?st = "syncStampBegin @ '' '' @ syncStampEnd @ [CHR 0x0A]"
  have "Index (syncStampBegin @ '' '' @ syncStampEnd) syncStampEnd = Some (length (syncStampBegin @ '' ''))"
    by code_simp
  then have st: "is_stamp ?st" unfolding is_stamp_def by (intro exI [of _ "'' ''"]) simp
  have l: "\<forall>l \<in> set [''name: x'']. CHR 0x0A \<notin> set l \<and> TrimRightCR l \<noteq> frontmatterDelim" by code_simp
  have b: "TrimSpace (concat (map (\<lambda>l. l @ [CHR 0x0A]) [''name: x''])) \<noteq> []" by code_simp
  have c: "StripSyncStamp ''body'' = ''body''" by code_simp
  show ?thesis
    using stamp_transparent [OF st l b c, of "\<lambda>b. Some (zeroFrontmatter\<lparr>fm_Name := b\<rparr>)"] by simp
qed

end
