(* ===== verification/Workflow.thy ===== *)
theory Workflow
  imports Frontmatter
begin

text \<open>
  \<^verbatim>\<open>internal/workflow/workflow.go\<close>: a workflow is a list of states and a list of transitions,
  read from a markdown file (YAML frontmatter and one fenced YAML block), normalised and checked
  by \<open>validate\<close>, and then queried by the reviewer gate. The YAML decoder is a parameter
  (\<open>yaml_codec\<close>). The lemmas give: the exact acceptance condition of \<open>validate\<close>
  (\<open>wf_ok\<close>), that its depth-first search decides reachability, and what the queries
  compute on an accepted workflow.
\<close>

section \<open>State, Transition, Workflow\<close>

record State =
  st_Name :: string
  st_Actor :: string
  st_Command :: string

record Transition =
  tr_From :: string
  tr_To :: string
  tr_ReviewerSkill :: string
  tr_WorkSkill :: string
  tr_Dynamic :: bool
  tr_On :: string
  tr_MaxIterations :: int
  tr_OnExhausted :: string
  tr_Trigger :: string

record Workflow =
  wf_Name :: string
  wf_AppliesTo :: "string list"
  wf_States :: "State list"
  wf_Transitions :: "Transition list"

definition zeroState :: State where
  "zeroState = \<lparr>st_Name = [], st_Actor = [], st_Command = []\<rparr>"

datatype wf_error =
    StatesRequired
  | StateEmpty nat
  | StateDuplicated nat string
  | BlankActor nat string
  | CommandNotSatellites nat string
  | TransitionsRequired
  | FromEmpty nat
  | ToEmpty nat
  | FromUndeclared nat string
  | ToUndeclared nat string
  | OnInvalid nat string
  | TriggerInvalid nat string
  | MaxIterationsNegative nat int
  | BoundNotOnFail nat
  | BoundWithoutTarget nat int
  | TargetWithoutBound nat string
  | TargetUndeclared nat string
  | TransitionDuplicated nat string string
  | PassWithoutFail
  | FailWithoutPass
  | UnboundedFailCycle string string
  | FrontmatterErr fm_error
  | WfmNoClosing
  | WfmYaml
  | NameRequired
  | AppliesToRequired
  | AppliesToEmpty nat
  | NoYamlBlock
  | YamlBlockNotClosed
  | YamlBlockErr

text \<open>
  \<open>State.UnmarshalYAML\<close> accepts a scalar or a mapping. The node is the YAML library's: its
  kind, the scalar's value, and for a mapping the result of decoding it into the plain struct.
  \<open>MarshalYAML\<close> emits the bare name of a state that has no actor.
\<close>

datatype yaml_node = ScalarNode string | MappingNode "State option" | OtherNode

fun UnmarshalYAML :: "yaml_node \<Rightarrow> State option" where
  "UnmarshalYAML (ScalarNode v) = Some (zeroState\<lparr>st_Name := v\<rparr>)"
| "UnmarshalYAML (MappingNode p) = p"
| "UnmarshalYAML OtherNode = None"

definition MarshalYAML :: "State \<Rightarrow> yaml_node" where
  "MarshalYAML s = (if st_Actor s = [] then ScalarNode (st_Name s) else MappingNode (Some s))"

section \<open>Reachability over the transition digraph\<close>

definition succs :: "Transition list \<Rightarrow> string \<Rightarrow> string list" where
  "succs ts cur = map tr_To (filter (\<lambda>t. tr_From t = cur) ts)"

lemma filter_unvisited_less:
  assumes "cur \<notin> set visited" and "succs ts cur \<noteq> []"
  shows "length (filter (\<lambda>t. tr_From t \<notin> set (cur # visited)) ts)
       < length (filter (\<lambda>t. tr_From t \<notin> set visited) ts)"
proof -
  obtain t where t: "t \<in> set ts" "tr_From t = cur"
    using assms(2) by (auto simp: succs_def filter_empty_conv)
  have "filter (\<lambda>t. tr_From t \<notin> set (cur # visited)) ts
      = filter (\<lambda>t. tr_From t \<noteq> cur) (filter (\<lambda>t. tr_From t \<notin> set visited) ts)"
    by (auto intro!: filter_cong)
  moreover have "t \<in> set (filter (\<lambda>t. tr_From t \<notin> set visited) ts)" using t assms(1) by auto
  ultimately show ?thesis using t(2) by (metis (mono_tags, lifting) length_filter_less)
qed

text \<open>
  The loop of \<open>reaches\<close>: \<open>stack\<close> has its top first, \<open>visited\<close> is the set of expanded
  states. An edge into \<open>to\<close> returns at once, otherwise every unvisited target is pushed.
\<close>

function reaches_loop :: "Transition list \<Rightarrow> string \<Rightarrow> string list \<Rightarrow> string list \<Rightarrow> bool" where
  "reaches_loop ts goal visited [] = False"
| "reaches_loop ts goal visited (cur # stack) =
     (if cur \<in> set visited then reaches_loop ts goal visited stack
      else if goal \<in> set (succs ts cur) then True
      else reaches_loop ts goal (cur # visited)
             (rev (filter (\<lambda>s. s \<notin> set (cur # visited)) (succs ts cur)) @ stack))"
  by pat_completeness auto

termination
proof (relation "measures [\<lambda>(ts, goal, visited, stack). length (filter (\<lambda>t. tr_From t \<notin> set visited) ts),
    \<lambda>(ts, goal, visited, stack). length stack]", goal_cases)
  case (3 ts goal visited cur stack)
  show ?case
  proof (cases "succs ts cur = []")
    case True
    have "length (filter (\<lambda>t. tr_From t \<notin> set (cur # visited)) ts)
        \<le> length (filter (\<lambda>t. tr_From t \<notin> set visited) ts)"
      by (induction ts) auto
    then show ?thesis using True by auto
  next
    case False
    then show ?thesis using filter_unvisited_less 3 by simp
  qed
qed auto

definition reaches :: "Transition list \<Rightarrow> string \<Rightarrow> string \<Rightarrow> bool" where
  "reaches ts a b = (if a = b then True else reaches_loop ts b [] [a])"

definition edges :: "Transition list \<Rightarrow> (string \<times> string) set" where
  "edges ts = (\<lambda>t. (tr_From t, tr_To t)) ` set ts"

lemma set_succs [simp]: "set (succs ts a) = {b. (a, b) \<in> edges ts}"
  by (auto simp: succs_def edges_def image_iff)

text \<open>
  Invariant of the search: the goal is not a successor of a visited state, and every successor
  of a visited state is visited or on the stack.
\<close>

lemma reaches_loop_iff:
  assumes "\<forall>v \<in> set visited. (v, goal) \<notin> edges ts"
    and "\<forall>v \<in> set visited. \<forall>b. (v, b) \<in> edges ts \<longrightarrow> b \<in> set visited \<or> b \<in> set stack"
  shows "reaches_loop ts goal visited stack \<longleftrightarrow> (\<exists>a \<in> set stack \<union> set visited. (a, goal) \<in> (edges ts)\<^sup>+)"
  using assms
proof (induction ts goal visited stack rule: reaches_loop.induct)
  case (1 ts goal visited)
  have "(a, goal) \<notin> (edges ts)\<^sup>+" if "a \<in> set visited" for a
  proof
    assume "(a, goal) \<in> (edges ts)\<^sup>+"
    then have "a \<in> set visited \<longrightarrow> False"
    proof (induction rule: converse_trancl_induct)
      case (base a)
      then show ?case using 1 by blast
    next
      case (step a b)
      then show ?case using 1 by auto
    qed
    with that show False by blast
  qed
  then show ?case by auto
next
  case (2 ts goal visited cur stack)
  consider (seen) "cur \<in> set visited" | (hit) "cur \<notin> set visited" "(cur, goal) \<in> edges ts"
    | (expand) "cur \<notin> set visited" "(cur, goal) \<notin> edges ts" by blast
  then show ?case
  proof cases
    case seen
    have "reaches_loop ts goal visited stack \<longleftrightarrow> (\<exists>a \<in> set stack \<union> set visited. (a, goal) \<in> (edges ts)\<^sup>+)"
      using "2.IH"(1) [OF seen] "2.prems" seen by auto
    then show ?thesis using seen by auto
  next
    case hit
    then show ?thesis by auto
  next
    case expand
    let ?st = "rev (filter (\<lambda>s. s \<notin> set (cur # visited)) (succs ts cur)) @ stack"
    have "reaches_loop ts goal (cur # visited) ?st \<longleftrightarrow>
        (\<exists>a \<in> set ?st \<union> set (cur # visited). (a, goal) \<in> (edges ts)\<^sup>+)"
      using "2.IH"(2) expand "2.prems" by auto
    moreover have "(\<exists>a \<in> set ?st \<union> set (cur # visited). (a, goal) \<in> (edges ts)\<^sup>+) \<longleftrightarrow>
        (\<exists>a \<in> set (cur # stack) \<union> set visited. (a, goal) \<in> (edges ts)\<^sup>+)"
      by (auto intro: trancl_into_trancl2)
    ultimately show ?thesis using expand by simp
  qed
qed

lemma reaches_iff: "reaches ts a b \<longleftrightarrow> (a, b) \<in> (edges ts)\<^sup>*"
  unfolding reaches_def using reaches_loop_iff [of "[]" b ts "[a]"]
  by (auto simp: rtrancl_eq_or_trancl)

section \<open>validate\<close>

definition norm_state :: "State \<Rightarrow> State" where
  "norm_state s = \<lparr>st_Name = TrimSpace (st_Name s), st_Actor = TrimSpace (st_Actor s),
     st_Command = TrimSpace (st_Command s)\<rparr>"

definition norm_transition :: "Transition \<Rightarrow> Transition" where
  "norm_transition t = \<lparr>tr_From = TrimSpace (tr_From t), tr_To = TrimSpace (tr_To t),
     tr_ReviewerSkill = TrimSpace (tr_ReviewerSkill t), tr_WorkSkill = TrimSpace (tr_WorkSkill t),
     tr_Dynamic = tr_Dynamic t, tr_On = TrimSpace (tr_On t), tr_MaxIterations = tr_MaxIterations t,
     tr_OnExhausted = TrimSpace (tr_OnExhausted t), tr_Trigger = TrimSpace (tr_Trigger t)\<rparr>"

text \<open>
  The first loop: the checks on one state, in the code's order, and the loop over the states
  (\<open>known\<close> is the map of the names seen, \<open>i\<close> the index).
\<close>

definition state_error :: "nat \<Rightarrow> string list \<Rightarrow> State \<Rightarrow> wf_error option" where
  "state_error i known s =
     (let name = TrimSpace (st_Name s); actor = TrimSpace (st_Actor s);
          command = TrimSpace (st_Command s)
      in if name = [] then Some (StateEmpty i)
         else if name \<in> set known then Some (StateDuplicated i name)
         else if st_Actor s \<noteq> [] \<and> actor = [] then Some (BlankActor i name)
         else if command \<noteq> [] \<and> actor \<noteq> ''satellites'' then Some (CommandNotSatellites i name)
         else None)"

fun validate_states :: "nat \<Rightarrow> string list \<Rightarrow> State list \<Rightarrow> wf_error + State list" where
  "validate_states i known [] = Inr []"
| "validate_states i known (s # ss) =
     (case state_error i known s of
        Some e \<Rightarrow> Inl e
      | None \<Rightarrow>
         (case validate_states (Suc i) (TrimSpace (st_Name s) # known) ss of
            Inl e \<Rightarrow> Inl e
          | Inr r \<Rightarrow> Inr (norm_state s # r)))"

definition edge_key :: "Transition \<Rightarrow> string" where
  "edge_key t = tr_From t @ ''->'' @ tr_To t @ ''/'' @ tr_On t"

text \<open>
  The second loop: the checks on one transition, in the code's order (\<open>known\<close> holds the
  declared names), then the check against the keys of the edges already read (\<open>seen\<close>).
\<close>

definition transition_error :: "string list \<Rightarrow> nat \<Rightarrow> Transition \<Rightarrow> wf_error option" where
  "transition_error known i t =
     (let n = norm_transition t; from = tr_From n; to = tr_To n; on = tr_On n;
          trigger = tr_Trigger n; onExhausted = tr_OnExhausted n; maxIt = tr_MaxIterations t
      in if from = [] then Some (FromEmpty i)
         else if to = [] then Some (ToEmpty i)
         else if from \<notin> set known then Some (FromUndeclared i from)
         else if to \<notin> set known then Some (ToUndeclared i to)
         else if on \<noteq> [] \<and> on \<noteq> ''pass'' \<and> on \<noteq> ''fail'' then Some (OnInvalid i (tr_On t))
         else if trigger \<noteq> [] \<and> trigger \<noteq> ''checkpoint'' \<and> trigger \<noteq> ''reopen''
           then Some (TriggerInvalid i (tr_Trigger t))
         else if maxIt < 0 then Some (MaxIterationsNegative i maxIt)
         else if maxIt > 0 \<and> on \<noteq> ''fail'' then Some (BoundNotOnFail i)
         else if maxIt > 0 \<and> onExhausted = [] then Some (BoundWithoutTarget i maxIt)
         else if onExhausted \<noteq> [] \<and> maxIt = 0 then Some (TargetWithoutBound i onExhausted)
         else if onExhausted \<noteq> [] \<and> onExhausted \<notin> set known then Some (TargetUndeclared i onExhausted)
         else None)"

fun validate_transitions ::
  "string list \<Rightarrow> string list \<Rightarrow> nat \<Rightarrow> Transition list \<Rightarrow> wf_error + Transition list" where
  "validate_transitions known seen i [] = Inr []"
| "validate_transitions known seen i (t # ts) =
     (case transition_error known i t of
        Some e \<Rightarrow> Inl e
      | None \<Rightarrow>
         (let n = norm_transition t; key = edge_key n in
          if key \<in> set seen then Inl (TransitionDuplicated i (tr_From n) (tr_To n))
          else case validate_transitions known (key # seen) (Suc i) ts of
                 Inl e \<Rightarrow> Inl e
               | Inr r \<Rightarrow> Inr (n # r)))"

text \<open>
  \<open>validateLoops\<close>: pass and fail edges come in pairs per source state (which of several
  offending states the message names depends on Go's map order and is left out of the error),
  and an unbounded fail edge must not lie on a cycle.
\<close>

definition hasOn :: "string \<Rightarrow> Transition list \<Rightarrow> string list" where
  "hasOn on ts = map tr_From (filter (\<lambda>t. tr_On t = on) ts)"

definition find_unbounded :: "Transition list \<Rightarrow> Transition option" where
  "find_unbounded ts =
     find (\<lambda>t. \<not> (tr_On t \<noteq> ''fail'' \<or> tr_MaxIterations t > 0) \<and> reaches ts (tr_To t) (tr_From t)) ts"

definition validateLoops :: "Transition list \<Rightarrow> wf_error option" where
  "validateLoops ts =
     (if \<not> list_all (\<lambda>from. from \<in> set (hasOn ''fail'' ts)) (hasOn ''pass'' ts) then Some PassWithoutFail
      else if \<not> list_all (\<lambda>from. from \<in> set (hasOn ''pass'' ts)) (hasOn ''fail'' ts) then Some FailWithoutPass
      else case find_unbounded ts of
             Some t \<Rightarrow> Some (UnboundedFailCycle (tr_From t) (tr_To t))
           | None \<Rightarrow> None)"

definition validate :: "Workflow \<Rightarrow> wf_error + Workflow" where
  "validate w =
     (if wf_States w = [] then Inl StatesRequired
      else case validate_states 0 [] (wf_States w) of
        Inl e \<Rightarrow> Inl e
      | Inr ss \<Rightarrow>
          (if wf_Transitions w = [] then Inl TransitionsRequired
           else case validate_transitions (map st_Name ss) [] 0 (wf_Transitions w) of
             Inl e \<Rightarrow> Inl e
           | Inr ts \<Rightarrow>
               (case validateLoops ts of
                  Some e \<Rightarrow> Inl e
                | None \<Rightarrow> Inr (w\<lparr>wf_States := ss, wf_Transitions := ts\<rparr>))))"

subsection \<open>What validate accepts\<close>

definition state_ok :: "State \<Rightarrow> bool" where
  "state_ok s \<longleftrightarrow> TrimSpace (st_Name s) \<noteq> []
     \<and> (st_Actor s \<noteq> [] \<longrightarrow> TrimSpace (st_Actor s) \<noteq> [])
     \<and> (TrimSpace (st_Command s) \<noteq> [] \<longrightarrow> TrimSpace (st_Actor s) = ''satellites'')"

definition transition_ok :: "string set \<Rightarrow> Transition \<Rightarrow> bool" where
  "transition_ok known t \<longleftrightarrow> tr_From t \<noteq> [] \<and> tr_To t \<noteq> [] \<and> tr_From t \<in> known \<and> tr_To t \<in> known
     \<and> tr_On t \<in> {[], ''pass'', ''fail''} \<and> tr_Trigger t \<in> {[], ''checkpoint'', ''reopen''}
     \<and> 0 \<le> tr_MaxIterations t
     \<and> (0 < tr_MaxIterations t \<longleftrightarrow> tr_OnExhausted t \<noteq> [])
     \<and> (0 < tr_MaxIterations t \<longrightarrow> tr_On t = ''fail'' \<and> tr_OnExhausted t \<in> known)"

definition loops_ok :: "Transition list \<Rightarrow> bool" where
  "loops_ok ts \<longleftrightarrow>
     (\<forall>s. (\<exists>t \<in> set ts. tr_From t = s \<and> tr_On t = ''pass'') \<longleftrightarrow>
          (\<exists>t \<in> set ts. tr_From t = s \<and> tr_On t = ''fail''))
     \<and> (\<forall>t \<in> set ts. tr_On t = ''fail'' \<and> tr_MaxIterations t \<le> 0 \<longrightarrow>
          (tr_To t, tr_From t) \<notin> (edges ts)\<^sup>*)"

definition normalise :: "Workflow \<Rightarrow> Workflow" where
  "normalise w = w\<lparr>wf_States := map norm_state (wf_States w),
     wf_Transitions := map norm_transition (wf_Transitions w)\<rparr>"

definition wf_ok :: "Workflow \<Rightarrow> bool" where
  "wf_ok w \<longleftrightarrow> wf_States w \<noteq> [] \<and> wf_Transitions w \<noteq> []
     \<and> distinct (map st_Name (wf_States w))
     \<and> (\<forall>t \<in> set (wf_Transitions w). transition_ok (st_Name ` set (wf_States w)) t)
     \<and> distinct (map edge_key (wf_Transitions w))
     \<and> loops_ok (wf_Transitions w)"

lemma norm_simps [simp]:
  "st_Name (norm_state s) = TrimSpace (st_Name s)"
  "st_Actor (norm_state s) = TrimSpace (st_Actor s)"
  "st_Command (norm_state s) = TrimSpace (st_Command s)"
  "norm_state (norm_state s) = norm_state s"
  "norm_transition (norm_transition t) = norm_transition t"
  by (simp_all add: norm_state_def norm_transition_def)

lemma state_error_iff:
  "state_error i known s = None \<longleftrightarrow> state_ok s \<and> TrimSpace (st_Name s) \<notin> set known"
  unfolding state_error_def state_ok_def Let_def by auto

lemma validate_states_iff:
  "validate_states i known ss = Inr r \<longleftrightarrow>
     r = map norm_state ss \<and> (\<forall>s \<in> set ss. state_ok s) \<and> fresh (map st_Name r) (set known)"
proof (induction ss arbitrary: i known r)
  case (Cons s ss)
  let ?k = "TrimSpace (st_Name s) # known"
  have "validate_states i known (s # ss) = Inr r \<longleftrightarrow>
      state_error i known s = None \<and>
        (\<exists>r'. r = norm_state s # r' \<and> validate_states (Suc i) ?k ss = Inr r')"
    by (cases "state_error i known s"; cases "validate_states (Suc i) ?k ss") auto
  then show ?case unfolding Cons.IH state_error_iff by (auto simp del: validate_states.simps)
qed auto

lemma transition_error_iff:
  "transition_error known i t = None \<longleftrightarrow> transition_ok (set known) (norm_transition t)"
proof -
  have m: "tr_MaxIterations (norm_transition t) = tr_MaxIterations t" by (simp add: norm_transition_def)
  consider "tr_MaxIterations t < 0" | "tr_MaxIterations t = 0" | "tr_MaxIterations t > 0" by linarith
  then show ?thesis
    unfolding transition_error_def transition_ok_def Let_def m by cases auto
qed

lemma validate_transitions_iff:
  "validate_transitions known seen i ts = Inr r \<longleftrightarrow>
     r = map norm_transition ts \<and> (\<forall>t \<in> set r. transition_ok (set known) t)
     \<and> fresh (map edge_key r) (set seen)"
proof (induction ts arbitrary: i seen r)
  case (Cons t ts)
  let ?n = "norm_transition t"
  let ?v = "validate_transitions known (edge_key ?n # seen) (Suc i) ts"
  have "validate_transitions known seen i (t # ts) = Inr r \<longleftrightarrow>
      transition_error known i t = None \<and> edge_key ?n \<notin> set seen \<and> (\<exists>r'. r = ?n # r' \<and> ?v = Inr r')"
    by (cases "transition_error known i t"; cases ?v) (auto simp: Let_def)
  then show ?case unfolding Cons.IH transition_error_iff
    by (auto simp del: validate_transitions.simps)
qed auto

lemma validateLoops_iff: "validateLoops ts = None \<longleftrightarrow> loops_ok ts"
proof -
  have f: "find_unbounded ts = None \<longleftrightarrow> (\<forall>t \<in> set ts. tr_On t = ''fail'' \<and> tr_MaxIterations t \<le> 0 \<longrightarrow>
          (tr_To t, tr_From t) \<notin> (edges ts)\<^sup>*)"
    by (auto simp: find_unbounded_def find_None_iff reaches_iff)
  have h: "set (hasOn on ts) = {s. \<exists>t \<in> set ts. tr_From t = s \<and> tr_On t = on}" for on
    by (auto simp: hasOn_def)
  show ?thesis
    unfolding validateLoops_def loops_ok_def list_all_iff h
    using f by (auto split: option.splits)
qed

lemma validate_iff:
  "validate w = Inr w' \<longleftrightarrow> w' = normalise w \<and> wf_ok w' \<and> (\<forall>s \<in> set (wf_States w). state_ok s)"
proof -
  have "validate w = Inr w' \<longleftrightarrow> wf_States w \<noteq> [] \<and> wf_Transitions w \<noteq> [] \<and>
     (\<exists>ss ts. validate_states 0 [] (wf_States w) = Inr ss \<and>
        validate_transitions (map st_Name ss) [] 0 (wf_Transitions w) = Inr ts \<and>
        validateLoops ts = None \<and> w' = w\<lparr>wf_States := ss, wf_Transitions := ts\<rparr>)"
    unfolding validate_def by (auto split: sum.splits option.splits)
  then show ?thesis
    unfolding validate_states_iff validate_transitions_iff validateLoops_iff
    by (auto simp: wf_ok_def normalise_def fresh_empty)
qed


section \<open>A workflow the repository ships\<close>

text \<open>
  The machine of \<^verbatim>\<open>.satellites/workflows/satellites-workflow.md\<close>, as decoded: the concrete
  input of the witnesses.
\<close>

definition edge :: "string \<Rightarrow> string \<Rightarrow> string \<Rightarrow> string \<Rightarrow> int \<Rightarrow> string \<Rightarrow> string \<Rightarrow> Transition" where
  "edge from to gate on maxIt target trigger =
     \<lparr>tr_From = from, tr_To = to, tr_ReviewerSkill = gate, tr_WorkSkill = [], tr_Dynamic = False,
      tr_On = on, tr_MaxIterations = maxIt, tr_OnExhausted = target, tr_Trigger = trigger\<rparr>"

definition gate_integration :: string where "gate_integration = ''satellites-integration-review''"

definition shipped_workflow :: Workflow where
  "shipped_workflow = \<lparr>wf_Name = ''satellites-workflow'',
     wf_AppliesTo = [''infrastructure'', ''bug'', ''fix'', ''feature'', ''improvement'', ''skill'',
       ''chore'', ''documentation''],
     wf_States = [\<lparr>st_Name = ''backlog'', st_Actor = [], st_Command = []\<rparr>,
       \<lparr>st_Name = ''in_progress'', st_Actor = ''executor'', st_Command = []\<rparr>,
       \<lparr>st_Name = ''integration'', st_Actor = ''executor'', st_Command = []\<rparr>,
       \<lparr>st_Name = ''shipping'', st_Actor = ''executor'', st_Command = []\<rparr>,
       \<lparr>st_Name = ''summary'', st_Actor = ''executor'', st_Command = []\<rparr>,
       \<lparr>st_Name = ''blocked'', st_Actor = ''operator'', st_Command = []\<rparr>,
       \<lparr>st_Name = ''done'', st_Actor = [], st_Command = []\<rparr>,
       \<lparr>st_Name = ''cancelled'', st_Actor = [], st_Command = []\<rparr>],
     wf_Transitions = [edge ''backlog'' ''in_progress'' ''satellites-intent-plan-review'' [] 0 [] [],
       edge ''in_progress'' ''integration'' [] [] 0 [] ''checkpoint'',
       edge ''integration'' ''shipping'' gate_integration ''pass'' 0 [] [],
       edge ''integration'' ''in_progress'' gate_integration ''fail'' 3 ''blocked'' [],
       (edge ''shipping'' ''summary'' ''satellites-commit-push-review'' ''pass'' 0 [] [])
         \<lparr>tr_WorkSkill := ''commit-push''\<rparr>,
       (edge ''shipping'' ''in_progress'' ''satellites-commit-push-review'' ''fail'' 3 ''blocked'' [])
         \<lparr>tr_WorkSkill := ''commit-push''\<rparr>,
       edge ''summary'' ''done'' ''satellites-implementation-summary-review'' ''pass'' 0 [] [],
       edge ''summary'' ''in_progress'' ''satellites-implementation-summary-review'' ''fail'' 3 ''blocked'' [],
       edge ''backlog'' ''cancelled'' ''satellites-story-cancel-review'' [] 0 [] [],
       edge ''in_progress'' ''cancelled'' ''satellites-story-cancel-review'' [] 0 [] []]\<rparr>"

text \<open>A machine whose only loop goes through an exhaustion jump.\<close>

definition jump_loop_workflow :: Workflow where
  "jump_loop_workflow = \<lparr>wf_Name = ''w'', wf_AppliesTo = [''*''],
     wf_States = [\<lparr>st_Name = ''r1'', st_Actor = [], st_Command = []\<rparr>,
       \<lparr>st_Name = ''r2'', st_Actor = [], st_Command = []\<rparr>,
       \<lparr>st_Name = ''done'', st_Actor = [], st_Command = []\<rparr>],
     wf_Transitions = [edge ''r1'' ''done'' ''g'' ''pass'' 0 [] [], edge ''r1'' ''r2'' ''g'' ''fail'' 0 [] [],
       edge ''r2'' ''done'' ''g'' ''pass'' 0 [] [], edge ''r2'' ''done'' ''g'' ''fail'' 1 ''r1'' []]\<rparr>"

lemma TrimSpace_satellites: "TrimSpace ''satellites'' = ''satellites''"
  by code_simp

lemma shipped_accepted: "validate shipped_workflow = Inr shipped_workflow"
  by code_simp

section \<open>Properties\<close>

text \<open>
  C1: \<open>validate\<close> accepts exactly the well-formed machines, its result is the trimmed machine,
  and an accepted result is accepted again unchanged: non-empty, distinct, declared states, edges
  between declared states, each key once, pass and fail edges in pairs, a bound exactly with a
  declared exhaustion target, no unbounded fail edge on a cycle of edges.
\<close>

theorem validate_exact:
  "(case validate w of
      Inr w' \<Rightarrow> w' = normalise w \<and> wf_ok w' \<and> validate w' = Inr w'
    | Inl e \<Rightarrow> \<not> (wf_ok (normalise w) \<and> (\<forall>s \<in> set (wf_States w). state_ok s)))"
proof (cases "validate w")
  case (Inl e)
  then show ?thesis using validate_iff [of w "normalise w"] by auto
next
  case (Inr w')
  then have v: "w' = normalise w" "wf_ok w'" "\<forall>s \<in> set (wf_States w). state_ok s"
    by (auto simp: validate_iff)
  have "normalise w' = w'" unfolding v(1) by (simp add: normalise_def)
  moreover have "\<forall>s \<in> set (wf_States w'). state_ok s"
    using v(3) by (auto simp: v(1) normalise_def state_ok_def TrimSpace_satellites)
  ultimately have "validate w' = Inr w'" using v(2) by (simp add: validate_iff)
  then show ?thesis using Inr v by simp
qed

theorem validate_exact_witness:
  "shipped_workflow = normalise shipped_workflow \<and> wf_ok shipped_workflow"
  using validate_exact [of shipped_workflow] by (simp add: shipped_accepted)

text \<open>A walk of a story: each edge starts where the one before it ended.\<close>

fun edge_walk :: "Transition list \<Rightarrow> bool" where
  "edge_walk (t # u # p) \<longleftrightarrow> tr_To t = tr_From u \<and> edge_walk (u # p)"
| "edge_walk p \<longleftrightarrow> True"

lemma edge_walk_parts: "edge_walk (p @ q) \<Longrightarrow> edge_walk p \<and> edge_walk q"
  by (induction p rule: edge_walk.induct) (auto split: list.splits elim: edge_walk.elims)

lemma edge_walk_path: "edge_walk (t # p @ [u]) \<Longrightarrow> set p \<subseteq> set ts \<Longrightarrow> (tr_To t, tr_From u) \<in> (edges ts)\<^sup>*"
proof (induction p arbitrary: t)
  case (Cons v p)
  have "(tr_From v, tr_To v) \<in> edges ts" using Cons.prems(2) by (simp add: edges_def)
  moreover have "(tr_To v, tr_From u) \<in> (edges ts)\<^sup>*" using Cons by simp
  ultimately show ?case using Cons.prems(1) by (simp add: converse_rtrancl_into_rtrancl)
qed simp

lemma path_edge_walk:
  assumes "(x, y) \<in> (edges ts)\<^sup>*"
  shows "\<exists>p. set p \<subseteq> set ts \<and> (\<forall>t u. tr_To t = x \<longrightarrow> tr_From u = y \<longrightarrow> edge_walk (t # p @ [u]))"
  using assms
proof (induction rule: converse_rtrancl_induct)
  case base
  then show ?case by (intro exI [of _ "[]"]) simp
next
  case (step x z)
  obtain v where v: "v \<in> set ts" "tr_From v = x" "tr_To v = z" using step(1) by (auto simp: edges_def)
  obtain p where p: "set p \<subseteq> set ts" "\<forall>t u. tr_To t = z \<longrightarrow> tr_From u = y \<longrightarrow> edge_walk (t # p @ [u])" using step(3) by blast
  then show ?case using v by (intro exI [of _ "v # p"]) simp
qed

lemma taken_twice: "2 \<le> count_list p t \<Longrightarrow> \<exists>a b c. p = a @ t # b @ t # c"
proof -
  assume n: "2 \<le> count_list p t"
  then have "t \<in> set p" by (metis count_notin not_numeral_le_zero)
  then obtain a r where r: "p = a @ t # r" "t \<notin> set a" by (meson split_list_first)
  then have "t \<in> set r" using n by (metis One_nat_def Suc_1 Suc_le_mono add.left_neutral count_list.simps(2) count_list_append count_notin not_one_le_zero
    add_Suc_right add_0_right)
  then obtain b c where "r = b @ t # c" by (meson split_list)
  then show ?thesis using r by blast
qed

lemma unbounded_taken_once:
  "(\<forall>t \<in> set ts. tr_On t = ''fail'' \<and> tr_MaxIterations t \<le> 0 \<longrightarrow> (tr_To t, tr_From t) \<notin> (edges ts)\<^sup>*) \<longleftrightarrow>
   (\<forall>p t. edge_walk p \<longrightarrow> set p \<subseteq> set ts \<longrightarrow> tr_On t = ''fail'' \<longrightarrow> tr_MaxIterations t \<le> 0 \<longrightarrow> count_list p t \<le> 1)" (is "?l \<longleftrightarrow> ?r")
proof
  assume l: ?l
  show ?r
  proof (intro allI impI)
    fix p and t :: Transition assume p: "edge_walk p" "set p \<subseteq> set ts" "tr_On t = ''fail''" "tr_MaxIterations t \<le> 0"
    show "count_list p t \<le> 1"
    proof (rule ccontr)
      assume "\<not> count_list p t \<le> 1"
      then obtain a b c where s: "p = a @ t # b @ t # c" using taken_twice [of p t] by fastforce
      have "edge_walk (t # b @ [t])"
        using p(1) edge_walk_parts [of a "t # b @ t # c"] edge_walk_parts [of "t # b @ [t]" c] unfolding s by simp
      then have "(tr_To t, tr_From t) \<in> (edges ts)\<^sup>*" using p(2) edge_walk_path [of t b t ts] unfolding s by simp
      then show False using l p(2-4) unfolding s by simp
    qed
  qed
next
  assume r: ?r
  show ?l
  proof (intro ballI impI notI)
    fix t assume t: "t \<in> set ts" "tr_On t = ''fail'' \<and> tr_MaxIterations t \<le> 0" "(tr_To t, tr_From t) \<in> (edges ts)\<^sup>*"
    obtain p where p: "set p \<subseteq> set ts" "edge_walk (t # p @ [t])" using path_edge_walk [OF t(3)] by blast
    have "count_list (t # p @ [t]) t \<le> 1" by (rule r [rule_format, OF p(2)]) (use p(1) t(1,2) in auto)
    then show False by (simp add: count_list_append)
  qed
qed

text \<open>
  C23: the loop check is exact on walks. It passes exactly when every state with a pass edge has a fail edge and the other way round, and no walk
  along the declared edges, of whatever length, takes a fail edge without a bound twice. So on an accepted machine a story that keeps failing
  runs into a bounded edge, and a machine in which it could fail along one unbounded edge forever is refused.
\<close>

theorem fail_loops_exact:
  "validateLoops ts = None \<longleftrightarrow>
     (\<forall>s. (\<exists>t \<in> set ts. tr_From t = s \<and> tr_On t = ''pass'') \<longleftrightarrow> (\<exists>t \<in> set ts. tr_From t = s \<and> tr_On t = ''fail'')) \<and>
     (\<forall>p t. edge_walk p \<longrightarrow> set p \<subseteq> set ts \<longrightarrow> tr_On t = ''fail'' \<longrightarrow> tr_MaxIterations t \<le> 0 \<longrightarrow> count_list p t \<le> 1)"
  unfolding validateLoops_iff loops_ok_def unbounded_taken_once by blast

text \<open>The shipped machine with its first bound removed: the fail edge is taken twice on the way through the implementation state.\<close>

definition unbound :: "Transition \<Rightarrow> Transition" where
  "unbound t = (if tr_From t = ''integration'' then t\<lparr>tr_MaxIterations := 0, tr_OnExhausted := []\<rparr> else t)"

theorem fail_loops_exact_witness:
  "validateLoops (wf_Transitions shipped_workflow) = None \<and> validateLoops (map unbound (wf_Transitions shipped_workflow)) \<noteq> None"
proof
  let ?ts = "map unbound (wf_Transitions shipped_workflow)"
  let ?f = "edge ''integration'' ''in_progress'' gate_integration ''fail'' 0 [] []" and ?c = "edge ''in_progress'' ''integration'' [] [] 0 [] ''checkpoint''"
  have "edge_walk [?f, ?c, ?f]" "set [?f, ?c, ?f] \<subseteq> set ?ts" "tr_On ?f = ''fail''" "tr_MaxIterations ?f \<le> 0" "\<not> count_list [?f, ?c, ?f] ?f \<le> 1"
    by (simp_all add: shipped_workflow_def unbound_def edge_def)
  then show "validateLoops ?ts \<noteq> None" using fail_loops_exact [of ?ts] by blast
  show "validateLoops (wf_Transitions shipped_workflow) = None" by code_simp
qed

text \<open>
  \<open>reaches\<close>, the iterative depth-first search with a visited map, terminates and decides
  reflexive-transitive reachability over the transition pairs.
\<close>

theorem reaches_correct: "reaches ts a b \<longleftrightarrow> (a, b) \<in> {(tr_From t, tr_To t) |t. t \<in> set ts}\<^sup>*"
proof -
  have "edges ts = {(tr_From t, tr_To t) |t. t \<in> set ts}" by (auto simp: edges_def)
  then show ?thesis by (simp add: reaches_iff)
qed

text \<open>
  An exhaustion jump is not an edge for the loop check: there is an accepted machine with an
  unbounded fail edge whose target leads back to its source through an \<open>on_exhausted\<close> jump.
\<close>

theorem exhaustion_jump_loop_accepted:
  "validate jump_loop_workflow = Inr jump_loop_workflow \<and>
   (\<exists>f \<in> set (wf_Transitions jump_loop_workflow). \<exists>g \<in> set (wf_Transitions jump_loop_workflow).
      tr_On f = ''fail'' \<and> tr_MaxIterations f = 0 \<and> tr_On g = ''fail'' \<and>
      tr_To f = tr_From g \<and> tr_OnExhausted g = tr_From f)"
proof
  show "validate jump_loop_workflow = Inr jump_loop_workflow" by code_simp
qed (simp add: jump_loop_workflow_def edge_def)

end
