(* ===== verification/Lifecycle.thy ===== *)
theory Lifecycle
  imports Workflow "HOL-Library.Multiset"
begin

text \<open>
  The queries of \<^verbatim>\<open>internal/workflow/workflow.go\<close> on a parsed workflow: outgoing edges,
  entry, terminal and editable states, the lifecycle check, the choice of the transition a gate
  runs, and the comparison of two machines that detects drift.
\<close>

section \<open>Edges and states\<close>

definition TransitionsFrom :: "Workflow \<Rightarrow> string \<Rightarrow> Transition list" where [wf_simps]:
  "TransitionsFrom w state = filter (\<lambda>t. tr_From t = state) (wf_Transitions w)"

definition FindTransition :: "Workflow \<Rightarrow> string \<Rightarrow> string \<Rightarrow> Transition option" where
  "FindTransition w from to = find (\<lambda>t. tr_From t = from \<and> tr_To t = to) (wf_Transitions w)"

definition StateOf :: "Workflow \<Rightarrow> string \<Rightarrow> State option" where [wf_simps]:
  "StateOf w state = find (\<lambda>s. st_Name s = state) (wf_States w)"

definition ActorOf :: "Workflow \<Rightarrow> string \<Rightarrow> string" where
  "ActorOf w state = (case StateOf w state of None \<Rightarrow> [] | Some s \<Rightarrow> st_Actor s)"

definition hasState :: "Workflow \<Rightarrow> string \<Rightarrow> bool" where [wf_simps]:
  "hasState w s = list_ex (\<lambda>st. st_Name st = s) (wf_States w)"

definition isReopen :: "Transition \<Rightarrow> bool" where
  "isReopen t = (TrimSpace (tr_Trigger t) = ''reopen'')"

text \<open>The keys of the map \<open>hasIncoming\<close>: reopen edges do not count, exhaustion targets do.\<close>

definition hasIncoming :: "Transition list \<Rightarrow> string list" where
  "hasIncoming ts = concat (map (\<lambda>t. if isReopen t then []
     else tr_To t # (if tr_OnExhausted t \<noteq> [] then [tr_OnExhausted t] else [])) ts)"

definition InitialState :: "Workflow \<Rightarrow> string" where
  "InitialState w =
     (case find (\<lambda>s. st_Name s \<notin> set (hasIncoming (wf_Transitions w))) (wf_States w) of
        Some s \<Rightarrow> st_Name s
      | None \<Rightarrow> (case wf_States w of [] \<Rightarrow> [] | s # _ \<Rightarrow> st_Name s))"

definition IsTerminal :: "Workflow \<Rightarrow> string \<Rightarrow> bool" where
  "IsTerminal w state = list_all isReopen (TransitionsFrom w state)"

definition TerminalStates :: "Workflow \<Rightarrow> string list" where
  "TerminalStates w = map st_Name (filter (\<lambda>s. IsTerminal w (st_Name s)) (wf_States w))"

definition IsEditable :: "Workflow \<Rightarrow> string \<Rightarrow> bool" where
  "IsEditable w state =
     (let s = TrimSpace state in
      if s = [] \<or> \<not> hasState w s then False
      else s \<noteq> InitialState w \<and> \<not> IsTerminal w s)"

definition EditableStates :: "Workflow \<Rightarrow> string list" where
  "EditableStates w = map st_Name (filter (\<lambda>s. IsEditable w (st_Name s)) (wf_States w))"

datatype lifecycle_error = NoStates | NoTerminal | NoInitial | InitialIsTerminal string

definition ValidateLifecycle :: "Workflow \<Rightarrow> lifecycle_error option" where
  "ValidateLifecycle w =
     (if wf_States w = [] then Some NoStates
      else if TerminalStates w = [] then Some NoTerminal
      else let init = InitialState w in
        if init = [] then Some NoInitial
        else if IsTerminal w init then Some (InitialIsTerminal init)
        else None)"

section \<open>PickTransition\<close>

datatype pick_error = NoOutgoing | NoGated | ManyGated

definition PickTransition :: "Workflow \<Rightarrow> string \<Rightarrow> pick_error + Transition \<times> string \<times> bool" where
  "PickTransition w currentStatus =
     (let outgoing = TransitionsFrom w currentStatus in
      if outgoing = [] then Inl NoOutgoing
      else case find tr_Dynamic outgoing of
        Some t \<Rightarrow> Inr (t, wf_Name w, True)
      | None \<Rightarrow>
          (case filter (\<lambda>t. TrimSpace (tr_ReviewerSkill t) \<noteq> []) outgoing of
             [] \<Rightarrow> Inl NoGated
           | [t] \<Rightarrow> Inr (t, tr_ReviewerSkill t, False)
           | _ \<Rightarrow> Inl ManyGated))"

section \<open>Equivalent\<close>

definition stateKey :: "State \<Rightarrow> string" where
  "stateKey s = st_Name s @ [CHR 0x00] @ st_Actor s @ [CHR 0x00] @ st_Command s"

definition transKey :: "Transition \<Rightarrow> string" where
  "transKey t = Join [tr_From t, tr_To t, tr_ReviewerSkill t, tr_On t, tr_Trigger t, tr_OnExhausted t,
     itoa (tr_MaxIterations t), btoa (tr_Dynamic t)] [CHR 0x00]"

text \<open>\<open>sameSet\<close> counts the keys of one list and counts them down over the other.\<close>

fun countdown :: "(string \<Rightarrow> int) \<Rightarrow> string list \<Rightarrow> bool" where
  "countdown m [] = True"
| "countdown m (k # ks) = (let m' = m(k := m k - 1) in if m' k < 0 then False else countdown m' ks)"

definition sameSet :: "string list \<Rightarrow> string list \<Rightarrow> bool" where
  "sameSet a b = (if length a \<noteq> length b then False else countdown (\<lambda>k. int (count_list a k)) b)"

definition equivalent_machines :: "Workflow \<Rightarrow> Workflow \<Rightarrow> bool" where
  "equivalent_machines w other =
     (if \<not> sameSet (map stateKey (wf_States w)) (map stateKey (wf_States other)) then False
      else sameSet (map transKey (wf_Transitions w)) (map transKey (wf_Transitions other)))"

fun Equivalent :: "Workflow option \<Rightarrow> Workflow option \<Rightarrow> bool" where
  "Equivalent (Some w) (Some other) = equivalent_machines w other"
| "Equivalent None None = True"
| "Equivalent _ _ = False"

subsection \<open>sameSet is equality of multisets\<close>

lemma countdown_iff: "countdown m ks \<longleftrightarrow> (\<forall>k. int (count_list ks k) \<le> max 0 (m k))"
proof (induction ks arbitrary: m)
  case (Cons k ks)
  show ?case
  proof (cases "m k < 1")
    case True
    then show ?thesis by (auto intro!: exI [of _ k])
  next
    case False
    have "(\<forall>x. int (count_list ks x) \<le> max 0 ((m(k := m k - 1)) x))
        \<longleftrightarrow> (\<forall>x. int (count_list (k # ks) x) \<le> max 0 (m x))"
      using False by (intro all_cong1) auto
    then show ?thesis using Cons False by (simp add: Let_def)
  qed
qed simp

lemma sameSet_iff: "sameSet a b \<longleftrightarrow> mset a = mset b"
proof
  assume s: "sameSet a b"
  then have len: "length a = length b" and "\<forall>k. count (mset b) k \<le> count (mset a) k"
    by (auto simp: sameSet_def countdown_iff count_mset split: if_splits)
  then have "mset b \<subseteq># mset a" by (simp add: subseteq_mset_def)
  moreover have "size (mset b) = size (mset a)" using len by simp
  ultimately show "mset a = mset b"
    by (metis mset_subset_size nless_le subset_mset.nless_le)
next
  assume e: "mset a = mset b"
  then have "length a = length b" by (metis size_mset)
  moreover have "count_list a k = count_list b k" for k by (metis count_mset e)
  ultimately show "sameSet a b" by (simp add: sameSet_def countdown_iff)
qed


subsection \<open>The keys are injective on NUL-free fields\<close>

definition nul_free :: "string \<Rightarrow> bool" where "nul_free s \<longleftrightarrow> CHR 0x00 \<notin> set s"

definition state_nul_free :: "State \<Rightarrow> bool" where
  "state_nul_free s \<longleftrightarrow> nul_free (st_Name s) \<and> nul_free (st_Actor s)"

definition trans_nul_free :: "Transition \<Rightarrow> bool" where
  "trans_nul_free t \<longleftrightarrow> list_all nul_free [tr_From t, tr_To t, tr_ReviewerSkill t, tr_On t,
     tr_Trigger t, tr_OnExhausted t]"

definition compared :: "Transition \<Rightarrow> Transition" where
  "compared t = t\<lparr>tr_WorkSkill := []\<rparr>"

lemma stateKey_inj:
  "state_nul_free s \<Longrightarrow> state_nul_free t \<Longrightarrow> stateKey s = stateKey t \<longleftrightarrow> s = t"
  by (auto simp: stateKey_def state_nul_free_def nul_free_def append_sep_inj)

lemma transKey_inj:
  assumes "trans_nul_free s" and "trans_nul_free t"
  shows "transKey s = transKey t \<longleftrightarrow> compared s = compared t"
proof -
  have "transKey s = transKey t \<longleftrightarrow>
     [tr_From s, tr_To s, tr_ReviewerSkill s, tr_On s, tr_Trigger s, tr_OnExhausted s,
        itoa (tr_MaxIterations s), btoa (tr_Dynamic s)]
   = [tr_From t, tr_To t, tr_ReviewerSkill t, tr_On t, tr_Trigger t, tr_OnExhausted t,
        itoa (tr_MaxIterations t), btoa (tr_Dynamic t)]"
    unfolding transKey_def using assms
    by (intro Join_inj) (auto simp: trans_nul_free_def nul_free_def itoa_no_nul btoa_no_nul)
  then show ?thesis by (cases s; cases t) (auto simp: compared_def)
qed

lemma mset_map_key:
  assumes "\<And>x y. x \<in> set xs \<union> set ys \<Longrightarrow> y \<in> set xs \<union> set ys \<Longrightarrow> f x = f y \<longleftrightarrow> g x = g y"
  shows "mset (map f xs) = mset (map f ys) \<longleftrightarrow> mset (map g xs) = mset (map g ys)"
proof -
  define h where "h k = g (SOME x. x \<in> set xs \<union> set ys \<and> f x = k)" for k
  define h' where "h' k = f (SOME x. x \<in> set xs \<union> set ys \<and> g x = k)" for k
  have h: "h (f x) = g x" if "x \<in> set xs \<union> set ys" for x
    unfolding h_def using someI [of "\<lambda>y. y \<in> set xs \<union> set ys \<and> f y = f x" x] that assms by blast
  have h': "h' (g x) = f x" if "x \<in> set xs \<union> set ys" for x
    unfolding h'_def using someI [of "\<lambda>y. y \<in> set xs \<union> set ys \<and> g y = g x" x] that assms by blast
  have m: "map g zs = map h (map f zs)" "map f zs = map h' (map g zs)" if "set zs \<subseteq> set xs \<union> set ys" for zs
    using that h h' by (auto simp: subset_iff)
  show ?thesis
    using m [of xs] m [of ys] by (metis Un_upper1 Un_upper2 mset_map)
qed

subsection \<open>Position of a declared state\<close>

lemma InitialState_declared: "wf_States w \<noteq> [] \<Longrightarrow> InitialState w \<in> st_Name ` set (wf_States w)"
  by (cases "wf_States w") (auto simp: InitialState_def find_Some_iff split: option.splits)

lemma accepted_trimmed:
  "validate w0 = Inr w \<Longrightarrow> s \<in> st_Name ` set (wf_States w) \<Longrightarrow> TrimSpace s = s \<and> s \<noteq> []"
  by (auto simp: validate_iff normalise_def state_ok_def)

lemma hasState_iff: "hasState w s \<longleftrightarrow> s \<in> st_Name ` set (wf_States w)"
  by (auto simp: hasState_def list_ex_iff)

lemma IsEditable_accepted:
  assumes "validate w0 = Inr w" and "s \<in> st_Name ` set (wf_States w)"
  shows "IsEditable w s \<longleftrightarrow> s \<noteq> InitialState w \<and> \<not> IsTerminal w s"
  using assms accepted_trimmed [OF assms] by (simp add: IsEditable_def hasState_iff)

section \<open>Properties\<close>

text \<open>
  With the lifecycle check passed, the declared states of an accepted workflow fall into
  exactly one of three parts: the entry state, the terminal states (at least one) and the
  editable states.
\<close>

theorem lifecycle_partition:
  assumes "validate w0 = Inr w" and "ValidateLifecycle w = None"
  shows "InitialState w \<in> st_Name ` set (wf_States w) \<and> TerminalStates w \<noteq> [] \<and>
    st_Name ` set (wf_States w) = {InitialState w} \<union> set (TerminalStates w) \<union> set (EditableStates w) \<and>
    InitialState w \<notin> set (TerminalStates w) \<and> InitialState w \<notin> set (EditableStates w) \<and>
    set (TerminalStates w) \<inter> set (EditableStates w) = {}"
proof -
  have ne: "wf_States w \<noteq> []" and tm: "TerminalStates w \<noteq> []" and it: "\<not> IsTerminal w (InitialState w)"
    using assms(2) by (auto simp: ValidateLifecycle_def Let_def split: if_splits)
  have decl: "InitialState w \<in> st_Name ` set (wf_States w)" using InitialState_declared [OF ne] .
  have T: "set (TerminalStates w) = {s \<in> st_Name ` set (wf_States w). IsTerminal w s}"
    by (auto simp: TerminalStates_def)
  have E: "set (EditableStates w)
      = {s \<in> st_Name ` set (wf_States w). s \<noteq> InitialState w \<and> \<not> IsTerminal w s}"
    using IsEditable_accepted [OF assms(1)] by (auto simp: EditableStates_def)
  show ?thesis using decl tm it unfolding T E by auto
qed

theorem lifecycle_partition_witness:
  "InitialState shipped_workflow = ''backlog'' \<and>
   ''backlog'' \<notin> set (TerminalStates shipped_workflow)"
proof -
  have i: "InitialState shipped_workflow = ''backlog''" by code_simp
  have "ValidateLifecycle shipped_workflow = None" by code_simp
  then show ?thesis using lifecycle_partition [OF shipped_accepted] i by auto
qed

text \<open>
  \<open>PickTransition\<close> on every branch: the first dynamic edge hands the judgement to the
  workflow, otherwise the one gated edge is chosen with its gate, and no edge, no gated edge and
  several gated edges are the three errors.
\<close>

theorem PickTransition_spec:
  "(let out = filter (\<lambda>t. tr_From t = s) (wf_Transitions w);
        gated = filter (\<lambda>t. TrimSpace (tr_ReviewerSkill t) \<noteq> []) out
    in case PickTransition w s of
         Inl NoOutgoing \<Rightarrow> out = []
       | Inl NoGated \<Rightarrow> out \<noteq> [] \<and> (\<forall>t \<in> set out. \<not> tr_Dynamic t) \<and> gated = []
       | Inl ManyGated \<Rightarrow> (\<forall>t \<in> set out. \<not> tr_Dynamic t) \<and> 2 \<le> length gated
       | Inr (t, skill, True) \<Rightarrow> t \<in> set out \<and> tr_Dynamic t \<and> skill = wf_Name w
       | Inr (t, skill, False) \<Rightarrow>
           (\<forall>t \<in> set out. \<not> tr_Dynamic t) \<and> gated = [t] \<and> skill = tr_ReviewerSkill t)"
proof -
  let ?out = "filter (\<lambda>t. tr_From t = s) (wf_Transitions w)"
  show ?thesis
  proof (cases "find tr_Dynamic ?out")
    case None
    then have "\<forall>t \<in> set ?out. \<not> tr_Dynamic t" by (auto simp: find_None_iff)
    with None show ?thesis
      by (simp add: PickTransition_def TransitionsFrom_def Let_def split: list.split)
  next
    case (Some t)
    then have t: "t \<in> set ?out" "tr_Dynamic t" using find_SomeD by fast+
    have "?out \<noteq> []" using length_pos_if_in_set [OF t(1)] by simp
    with t show ?thesis using Some by (simp add: PickTransition_def TransitionsFrom_def Let_def)
  qed
qed

theorem PickTransition_spec_witness:
  "PickTransition shipped_workflow ''backlog'' = Inl ManyGated \<and>
   2 \<le> length (filter (\<lambda>t. TrimSpace (tr_ReviewerSkill t) \<noteq> [])
     (filter (\<lambda>t. tr_From t = ''backlog'') (wf_Transitions shipped_workflow)))"
proof -
  have p: "PickTransition shipped_workflow ''backlog'' = Inl ManyGated" by code_simp
  then show ?thesis using PickTransition_spec [of "''backlog''" shipped_workflow] by (simp add: Let_def)
qed

text \<open>
  On machines whose fields hold no NUL byte \<open>Equivalent\<close> is equality of the multisets of
  states and of transitions, the work skill of a transition left out: order, name and categories do
  not matter, multiplicity does.
\<close>

theorem Equivalent_iff:
  assumes "\<forall>s \<in> set (wf_States w) \<union> set (wf_States v). state_nul_free s"
    and "\<forall>t \<in> set (wf_Transitions w) \<union> set (wf_Transitions v). trans_nul_free t"
  shows "Equivalent (Some w) (Some v) \<longleftrightarrow>
     mset (wf_States w) = mset (wf_States v) \<and>
     mset (map compared (wf_Transitions w)) = mset (map compared (wf_Transitions v))"
proof -
  have "mset (map stateKey (wf_States w)) = mset (map stateKey (wf_States v)) \<longleftrightarrow>
      mset (map id (wf_States w)) = mset (map id (wf_States v))"
    using assms(1) by (intro mset_map_key) (auto simp: stateKey_inj)
  moreover have "mset (map transKey (wf_Transitions w)) = mset (map transKey (wf_Transitions v)) \<longleftrightarrow>
      mset (map compared (wf_Transitions w)) = mset (map compared (wf_Transitions v))"
    using assms(2) by (intro mset_map_key) (auto simp: transKey_inj)
  ultimately show ?thesis by (simp add: equivalent_machines_def sameSet_iff)
qed

theorem Equivalent_iff_witness:
  "Equivalent (Some shipped_workflow)
     (Some (shipped_workflow\<lparr>wf_Transitions := rev (wf_Transitions shipped_workflow)\<rparr>))"
proof -
  have "list_all state_nul_free (wf_States shipped_workflow)" by code_simp
  moreover have "list_all trans_nul_free (wf_Transitions shipped_workflow)" by code_simp
  ultimately show ?thesis
    by (subst Equivalent_iff) (auto simp: list_all_iff rev_map [symmetric])
qed

end
