(* ===== verification/WorkflowParse.thy ===== *)
theory WorkflowParse
  imports Lifecycle
begin

text \<open>
  Reading a workflow file: \<open>Parse\<close>, \<open>ParseBody\<close>, \<open>parseWorkflowFrontmatter\<close> and
  \<open>extractYAMLBlock\<close> of \<^verbatim>\<open>internal/workflow/workflow.go\<close>. The YAML library is the
  parameter \<open>yaml_codec\<close>: its three decoders map a block to the decoded value, or to
  \<^const>\<open>None\<close> for an error.
\<close>

record yaml_codec =
  yaml_frontmatter :: "string \<Rightarrow> Frontmatter option"
  yaml_workflow_fm :: "string \<Rightarrow> (string \<times> string list) option"
  yaml_machine :: "string \<Rightarrow> (State list \<times> Transition list) option"

section \<open>Fenced blocks and the workflow frontmatter\<close>

definition yaml_open :: string where [go_defs]: "yaml_open = ''```yaml''"

definition yaml_fence :: string where [go_defs]: "yaml_fence = ''```''"

definition drop_char :: "char \<Rightarrow> string \<Rightarrow> string" where
  "drop_char c s = (case s of [] \<Rightarrow> [] | d # r \<Rightarrow> (if d = c then r else s))"

definition extractYAMLBlock :: "string \<Rightarrow> wf_error + string" where
  "extractYAMLBlock body =
     (case (if HasPrefix body yaml_open then Some 0
            else map_option Suc (Index body (CHR 0x0A # yaml_open))) of
        None \<Rightarrow> Inl NoYamlBlock
      | Some idx \<Rightarrow>
         (let rest = drop_char (CHR 0x0A) (drop_char (CHR 0x0D) (drop (idx + length yaml_open) body)) in
          case Index rest (CHR 0x0A # yaml_fence) of
            None \<Rightarrow> Inl YamlBlockNotClosed
          | Some closeIdx \<Rightarrow> Inr (take closeIdx rest)))"

definition parseWorkflowFrontmatter :: "yaml_codec \<Rightarrow> string \<Rightarrow> wf_error + string \<times> string list" where
  "parseWorkflowFrontmatter yaml raw =
     (if \<not> HasPrefix raw (frontmatterDelim @ [CHR 0x0A]) \<and>
         \<not> HasPrefix raw (frontmatterDelim @ [CHR 0x0D, CHR 0x0A])
      then Inr ([], [])
      else let rest = drop_char (CHR 0x0A) (drop_char (CHR 0x0D) (drop (length frontmatterDelim) raw)) in
        case Index rest (CHR 0x0A # frontmatterDelim) of
          None \<Rightarrow> Inl WfmNoClosing
        | Some closeIdx \<Rightarrow>
            (case yaml_workflow_fm yaml (take closeIdx rest) of
               None \<Rightarrow> Inl WfmYaml
             | Some wfm \<Rightarrow> Inr wfm))"

section \<open>ParseBody and Parse\<close>

definition ParseBody :: "yaml_codec \<Rightarrow> string \<Rightarrow> wf_error + Workflow" where
  "ParseBody yaml body =
     (case extractYAMLBlock body of
        Inl e \<Rightarrow> Inl e
      | Inr block \<Rightarrow>
         (case yaml_machine yaml block of
            None \<Rightarrow> Inl YamlBlockErr
          | Some (ss, ts) \<Rightarrow>
              validate \<lparr>wf_Name = [], wf_AppliesTo = [], wf_States = ss, wf_Transitions = ts\<rparr>))"

fun empty_index :: "nat \<Rightarrow> string list \<Rightarrow> nat option" where
  "empty_index i [] = None"
| "empty_index i (t # ts) = (if TrimSpace t = [] then Some i else empty_index (Suc i) ts)"

definition ParseWorkflow :: "yaml_codec \<Rightarrow> string \<Rightarrow> wf_error + Workflow" where
  "ParseWorkflow yaml raw0 =
     (let raw = StripSyncStamp raw0 in
      case ParseFrontmatter (yaml_frontmatter yaml) raw of
        Inl e \<Rightarrow> Inl (FrontmatterErr e)
      | Inr (fm, body) \<Rightarrow>
         (case parseWorkflowFrontmatter yaml raw of
            Inl e \<Rightarrow> Inl e
          | Inr (wname, appliesTo) \<Rightarrow>
             (let name = (if TrimSpace wname = [] then TrimSpace (fm_Name fm) else TrimSpace wname) in
              if name = [] then Inl NameRequired
              else if appliesTo = [] then Inl AppliesToRequired
              else case empty_index 0 appliesTo of
                Some i \<Rightarrow> Inl (AppliesToEmpty i)
              | None \<Rightarrow>
                 (case extractYAMLBlock body of
                    Inl e \<Rightarrow> Inl e
                  | Inr block \<Rightarrow>
                     (case yaml_machine yaml block of
                        None \<Rightarrow> Inl YamlBlockErr
                      | Some (ss, ts) \<Rightarrow>
                          validate \<lparr>wf_Name = name, wf_AppliesTo = appliesTo,
                            wf_States = ss, wf_Transitions = ts\<rparr>)))))"

section \<open>What a parsed workflow satisfies\<close>

lemma empty_index_None: "empty_index i ts = None \<longleftrightarrow> (\<forall>t \<in> set ts. TrimSpace t \<noteq> [])"
  by (induction i ts rule: empty_index.induct) auto

lemma ParseBody_wf_ok: "ParseBody yaml body = Inr w \<Longrightarrow> wf_ok w \<and> normalise w = w"
  by (auto simp: ParseBody_def validate_iff normalise_def split: sum.splits option.splits)

lemma ParseWorkflow_validate:
  assumes "ParseWorkflow yaml raw = Inr w"
  obtains w0 where "validate w0 = Inr w" and "TrimSpace (wf_Name w) = wf_Name w" and "wf_Name w \<noteq> []"
    and "wf_AppliesTo w \<noteq> []" and "\<forall>a \<in> set (wf_AppliesTo w). TrimSpace a \<noteq> []"
proof -
  from assms obtain name ap ss ts where v:
      "validate \<lparr>wf_Name = name, wf_AppliesTo = ap, wf_States = ss, wf_Transitions = ts\<rparr> = Inr w"
    and n: "TrimSpace name = name" "name \<noteq> []" "ap \<noteq> []" "\<forall>a \<in> set ap. TrimSpace a \<noteq> []"
    unfolding ParseWorkflow_def Let_def empty_index_None [where i = 0, symmetric]
    by (auto split: sum.splits option.splits if_splits prod.splits)
  from v have "wf_Name w = name" "wf_AppliesTo w = ap" by (auto simp: validate_iff normalise_def)
  with v n show ?thesis by (intro that) auto
qed

text \<open>The fenced block is found again where a writer puts it.\<close>

lemma Index_skip:
  assumes "\<And>i. i < length pre \<Longrightarrow> \<not> HasPrefix (drop i pre @ p @ s) p"
  shows "Index (pre @ p @ s) p = Some (length pre)"
  using assms
proof (induction pre)
  case Nil
  have "HasPrefix (p @ s) p" by simp
  then show ?case by (cases "p @ s") auto
next
  case (Cons c pre)
  have "\<not> HasPrefix (c # pre @ p @ s) p" using Cons.prems [of 0] by simp
  moreover have "Index (pre @ p @ s) p = Some (length pre)"
    using Cons.prems [of "Suc i" for i] by (intro Cons.IH) auto
  ultimately show ?case by simp
qed

lemma extractYAMLBlock_fenced:
  assumes "\<And>i. i < length block \<Longrightarrow>
      \<not> HasPrefix (drop i block @ (CHR 0x0A # yaml_fence) @ post) (CHR 0x0A # yaml_fence)"
    and "block = [] \<or> hd block \<noteq> CHR 0x0D \<and> hd block \<noteq> CHR 0x0A"
  shows "extractYAMLBlock (yaml_open @ CHR 0x0A # block @ CHR 0x0A # yaml_fence @ post) = Inr block"
proof -
  have "Index (block @ (CHR 0x0A # yaml_fence) @ post) (CHR 0x0A # yaml_fence) = Some (length block)"
    using assms(1) by (rule Index_skip)
  then show ?thesis by (simp add: extractYAMLBlock_def drop_char_def)
qed

end
