(* ===== verification/V2Edges.thy ===== *)
theory V2Edges
  imports WorkflowParse
begin

text \<open>
  \<^verbatim>\<open>internal/verb/v2_edges.go\<close>: the edges a review state offers, the plan a reviewer's
  decision maps to (the ledger rows the client appends, the status it enacts), and the count of
  rejects that bounds a fail loop. Payloads are association lists of scalars; a ledger row is
  viewed with its decoded payload.
\<close>

section \<open>Ledger rows and payloads\<close>

datatype jval = JStr string | JBool bool | JInt int | JNull | JOther

type_synonym payload = "(string \<times> jval) list"

record PlannedRow =
  pr_Kind :: string
  pr_Body :: string
  pr_Payload :: payload

record LedgerEntryView =
  lev_Kind :: string
  lev_Payload :: payload

definition PayloadField :: "LedgerEntryView \<Rightarrow> string \<Rightarrow> string" where
  "PayloadField v name = (case map_of (lev_Payload v) name of Some (JStr s) \<Rightarrow> s | _ \<Rightarrow> [])"

definition PayloadBool :: "LedgerEntryView \<Rightarrow> string \<Rightarrow> bool" where
  "PayloadBool v name = (case map_of (lev_Payload v) name of Some (JBool b) \<Rightarrow> b | _ \<Rightarrow> False)"

text \<open>A row as the ledger lists it again after it was appended.\<close>

definition view_of_row :: "PlannedRow \<Rightarrow> LedgerEntryView" where
  "view_of_row r = \<lparr>lev_Kind = pr_Kind r, lev_Payload = pr_Payload r\<rparr>"

section \<open>The edge set of a state\<close>

record V2Edges =
  v2_IsV2 :: bool
  v2_Actor :: string
  v2_Command :: string
  v2_PassTo :: string
  v2_FailTo :: string
  v2_MaxIterations :: int
  v2_OnExhausted :: string
  v2_ReviewerSkill :: string

definition zeroEdges :: V2Edges where
  "zeroEdges = \<lparr>v2_IsV2 = False, v2_Actor = [], v2_Command = [], v2_PassTo = [], v2_FailTo = [],
     v2_MaxIterations = 0, v2_OnExhausted = [], v2_ReviewerSkill = []\<rparr>"

definition GateMatches :: "V2Edges \<Rightarrow> string \<Rightarrow> bool" where
  "GateMatches e skill =
     (if TrimSpace (v2_ReviewerSkill e) = [] then True
      else EqualFold (TrimSpace skill) (TrimSpace (v2_ReviewerSkill e)))"

definition set_reviewer :: "Transition \<Rightarrow> V2Edges \<Rightarrow> V2Edges" where
  "set_reviewer t e =
     (if v2_ReviewerSkill e = [] then e\<lparr>v2_ReviewerSkill := TrimSpace (tr_ReviewerSkill t)\<rparr> else e)"

definition add_edge :: "Transition \<Rightarrow> V2Edges \<Rightarrow> V2Edges" where
  "add_edge t e =
     (if tr_On t = ''pass'' then set_reviewer t (e\<lparr>v2_IsV2 := True, v2_PassTo := tr_To t\<rparr>)
      else if tr_On t = ''fail'' then
        set_reviewer t (e\<lparr>v2_IsV2 := True, v2_FailTo := tr_To t,
          v2_MaxIterations := tr_MaxIterations t, v2_OnExhausted := tr_OnExhausted t\<rparr>)
      else e)"

definition edgesFromWorkflow :: "Workflow \<Rightarrow> string \<Rightarrow> V2Edges" where
  "edgesFromWorkflow w status =
     (case StateOf w (TrimSpace status) of
        None \<Rightarrow> zeroEdges
      | Some st \<Rightarrow> fold add_edge (TransitionsFrom w (st_Name st))
          (zeroEdges\<lparr>v2_Actor := st_Actor st, v2_Command := st_Command st\<rparr>))"

definition ResolveV2Edges :: "yaml_codec \<Rightarrow> string \<Rightarrow> string \<Rightarrow> V2Edges" where
  "ResolveV2Edges yaml storyBody status =
     (case ParseBody yaml storyBody of
        Inl e \<Rightarrow> zeroEdges
      | Inr w \<Rightarrow> edgesFromWorkflow w status)"

text \<open>The checkpoint loop: any \<open>on\<close> edge refuses, otherwise the last checkpoint edge and the
  number of them.\<close>

fun checkpoint_loop :: "string \<Rightarrow> nat \<Rightarrow> Transition list \<Rightarrow> string option" where
  "checkpoint_loop to n [] = (if n = 1 then Some to else None)"
| "checkpoint_loop to n (t # ts) =
     (if tr_On t \<noteq> [] then None
      else if tr_Trigger t = ''checkpoint'' \<and> tr_ReviewerSkill t = []
        then checkpoint_loop (tr_To t) (Suc n) ts
        else checkpoint_loop to n ts)"

definition CheckpointEdge :: "yaml_codec \<Rightarrow> string \<Rightarrow> string \<Rightarrow> string option" where
  "CheckpointEdge yaml storyBody status =
     (case ParseBody yaml storyBody of
        Inl e \<Rightarrow> None
      | Inr w \<Rightarrow> checkpoint_loop [] 0 (TransitionsFrom w (TrimSpace status)))"

section \<open>The plan of a decision\<close>

definition GateDecisionAccept :: string where "GateDecisionAccept = ''accept''"

definition GateDecisionReject :: string where "GateDecisionReject = ''reject''"

lemma decisions_differ [simp]: "GateDecisionReject \<noteq> GateDecisionAccept" "GateDecisionAccept \<noteq> GateDecisionReject"
  by (simp_all add: GateDecisionAccept_def GateDecisionReject_def)

record V2Plan =
  vp_ToStatus :: string
  vp_Exhausted :: bool
  vp_Rows :: "PlannedRow list"

datatype plan_error =
    NotV2 string | NoPassEdge string | NoFailEdge string | NoExhaustionTarget string
  | UnmappedDecision string

definition arrow :: string where
  "arrow = '' '' @ [CHR 0xE2, CHR 0x86, CHR 0x92] @ '' ''"

definition accept_rows :: "string \<Rightarrow> string \<Rightarrow> string \<Rightarrow> string \<Rightarrow> PlannedRow list" where
  "accept_rows gate fromStatus notes to =
     [\<lparr>pr_Kind = ''review_accept'', pr_Body = notes,
        pr_Payload = [(''from_status'', JStr fromStatus), (''to_status'', JStr to),
                      (''gate'', JStr gate), (''on'', JStr ''pass'')]\<rparr>,
      \<lparr>pr_Kind = ''status_transition'', pr_Body = fromStatus @ arrow @ to,
        pr_Payload = [(''from_status'', JStr fromStatus), (''to_status'', JStr to),
                      (''on'', JStr ''pass''), (''gate'', JStr gate)]\<rparr>]"

definition reject_row :: "string \<Rightarrow> string \<Rightarrow> string \<Rightarrow> PlannedRow" where
  "reject_row gate fromStatus notes =
     \<lparr>pr_Kind = ''review_reject'', pr_Body = notes,
       pr_Payload = [(''from_status'', JStr fromStatus), (''gate'', JStr gate), (''on'', JStr ''fail'')]\<rparr>"

definition exhausted_row :: "string \<Rightarrow> string \<Rightarrow> string \<Rightarrow> int \<Rightarrow> int \<Rightarrow> PlannedRow" where
  "exhausted_row gate fromStatus target rejects maxIt =
     \<lparr>pr_Kind = ''status_transition'',
       pr_Body = ''exhausted: '' @ itoa rejects @ ''/'' @ itoa maxIt @ '' rejects on '' @ fromStatus @
         '' '' @ [CHR 0xE2, CHR 0x80, CHR 0x94] @ '' escalating to '' @ target,
       pr_Payload = [(''from_status'', JStr fromStatus), (''to_status'', JStr target),
         (''exhausted'', JBool True), (''rejects'', JInt rejects), (''max_iterations'', JInt maxIt),
         (''gate'', JStr gate)]\<rparr>"

definition fail_row :: "string \<Rightarrow> string \<Rightarrow> string \<Rightarrow> PlannedRow" where
  "fail_row gate fromStatus to =
     \<lparr>pr_Kind = ''status_transition'', pr_Body = fromStatus @ arrow @ to @ '' (fail edge)'',
       pr_Payload = [(''from_status'', JStr fromStatus), (''to_status'', JStr to),
                     (''on'', JStr ''fail''), (''gate'', JStr gate)]\<rparr>"

definition PlanV2Enactment ::
  "string \<Rightarrow> string \<Rightarrow> string \<Rightarrow> string \<Rightarrow> V2Edges \<Rightarrow> int \<Rightarrow> plan_error + V2Plan" where
  "PlanV2Enactment decision gate fromStatus notes e priorRejects =
     (if \<not> v2_IsV2 e then Inl (NotV2 fromStatus)
      else if decision = GateDecisionAccept then
        (if v2_PassTo e = [] then Inl (NoPassEdge fromStatus)
         else Inr \<lparr>vp_ToStatus = v2_PassTo e, vp_Exhausted = False,
                   vp_Rows = accept_rows gate fromStatus notes (v2_PassTo e)\<rparr>)
      else if decision = GateDecisionReject then
        (if v2_FailTo e = [] then Inl (NoFailEdge fromStatus)
         else if v2_MaxIterations e > 0 \<and> priorRejects + 1 \<ge> v2_MaxIterations e then
           (if v2_OnExhausted e = [] then Inl (NoExhaustionTarget fromStatus)
            else Inr \<lparr>vp_ToStatus = v2_OnExhausted e, vp_Exhausted = True,
              vp_Rows = [reject_row gate fromStatus notes,
                exhausted_row gate fromStatus (v2_OnExhausted e) (priorRejects + 1) (v2_MaxIterations e)]\<rparr>)
         else Inr \<lparr>vp_ToStatus = v2_FailTo e, vp_Exhausted = False,
           vp_Rows = [reject_row gate fromStatus notes, fail_row gate fromStatus (v2_FailTo e)]\<rparr>)
      else Inl (UnmappedDecision decision))"

section \<open>Counting rejects\<close>

fun count_rejects :: "int \<Rightarrow> LedgerEntryView list \<Rightarrow> string \<Rightarrow> int" where
  "count_rejects n [] status = n"
| "count_rejects n (e # es) status =
     count_rejects
       (if lev_Kind e = ''review_reject'' then
          (if PayloadField e ''from_status'' = status then n + 1 else n)
        else if lev_Kind e = ''status_transition'' then (if PayloadBool e ''exhausted'' then 0 else n)
        else n) es status"

definition CountEdgeRejects :: "LedgerEntryView list \<Rightarrow> string \<Rightarrow> int" where
  "CountEdgeRejects entries status = count_rejects 0 entries status"

text \<open>
  Rejects enacted one after the other at the same review state, each with the count read from
  the rows the earlier ones appended: the statuses enacted and the rows at the end.
\<close>

fun enact_rejects ::
  "string \<Rightarrow> string \<Rightarrow> string \<Rightarrow> V2Edges \<Rightarrow> nat \<Rightarrow> LedgerEntryView list \<Rightarrow> string list \<times> LedgerEntryView list" where
  "enact_rejects gate s notes e 0 es = ([], es)"
| "enact_rejects gate s notes e (Suc k) es =
     (case PlanV2Enactment GateDecisionReject gate s notes e (CountEdgeRejects es s) of
        Inl err \<Rightarrow> ([], es)
      | Inr p \<Rightarrow>
         (let (ss, es') = enact_rejects gate s notes e k (es @ map view_of_row (vp_Rows p))
          in (vp_ToStatus p # ss, es')))"

section \<open>Lemmas\<close>

lemma count_rejects_append:
  "count_rejects c (xs @ ys) status = count_rejects (count_rejects c xs status) ys status"
  by (induction c xs status rule: count_rejects.induct) auto

lemma CountEdgeRejects_append:
  "CountEdgeRejects (xs @ ys) status = count_rejects (CountEdgeRejects xs status) ys status"
  by (simp add: CountEdgeRejects_def count_rejects_append)

lemma count_rejects_nonneg: "0 \<le> c \<Longrightarrow> 0 \<le> count_rejects c es status"
  by (induction c es status rule: count_rejects.induct) auto

lemma count_accept_rows [simp]:
  "count_rejects c (map view_of_row (accept_rows gate from notes to)) status = c"
  by (simp add: accept_rows_def view_of_row_def PayloadBool_def)

lemma count_fail_rows [simp]:
  "count_rejects c (map view_of_row [reject_row gate from notes, fail_row gate from to]) status
     = (if from = status then c + 1 else c)"
  by (simp add: reject_row_def fail_row_def view_of_row_def PayloadBool_def PayloadField_def)

lemma count_exhausted_rows [simp]:
  "count_rejects c (map view_of_row [reject_row gate from notes, exhausted_row gate from to n m]) status = 0"
  by (simp add: reject_row_def exhausted_row_def view_of_row_def PayloadBool_def PayloadField_def)

text \<open>The projection of an accepted workflow: each field comes from the one edge that sets it.\<close>

lemma fold_add_edge_IsV2:
  "v2_IsV2 (fold add_edge ts e) \<longleftrightarrow> v2_IsV2 e \<or> (\<exists>t \<in> set ts. tr_On t = ''pass'' \<or> tr_On t = ''fail'')"
  by (induction ts arbitrary: e) (auto simp: add_edge_def set_reviewer_def)

lemma fold_add_edge_actor [simp]:
  "v2_Actor (fold add_edge ts e) = v2_Actor e" "v2_Command (fold add_edge ts e) = v2_Command e"
  by (induction ts arbitrary: e) (auto simp: add_edge_def set_reviewer_def)

lemma fold_add_edge_PassTo:
  "(\<exists>t \<in> set ts. tr_On t = ''pass'' \<and> v2_PassTo (fold add_edge ts e) = tr_To t)
   \<or> (\<forall>t \<in> set ts. tr_On t \<noteq> ''pass'') \<and> v2_PassTo (fold add_edge ts e) = v2_PassTo e"
proof (induction ts arbitrary: e)
  case (Cons t ts)
  show ?case using Cons.IH [of "add_edge t e"]
    by (cases "tr_On t = ''pass''") (auto simp: add_edge_def set_reviewer_def)
qed simp

lemma fold_add_edge_Fail:
  "(\<exists>t \<in> set ts. tr_On t = ''fail'' \<and> v2_FailTo (fold add_edge ts e) = tr_To t
      \<and> v2_MaxIterations (fold add_edge ts e) = tr_MaxIterations t
      \<and> v2_OnExhausted (fold add_edge ts e) = tr_OnExhausted t)
   \<or> (\<forall>t \<in> set ts. tr_On t \<noteq> ''fail'') \<and> v2_FailTo (fold add_edge ts e) = v2_FailTo e
      \<and> v2_MaxIterations (fold add_edge ts e) = v2_MaxIterations e
      \<and> v2_OnExhausted (fold add_edge ts e) = v2_OnExhausted e"
proof (induction ts arbitrary: e)
  case (Cons t ts)
  show ?case using Cons.IH [of "add_edge t e"]
    by (cases "tr_On t = ''fail''") (auto simp: add_edge_def set_reviewer_def)
qed simp

lemma StateOf_Some: "StateOf w s = Some st \<Longrightarrow> st_Name st = s \<and> st \<in> set (wf_States w)"
  by (auto simp: StateOf_def find_Some_iff)

text \<open>
  On an accepted workflow a review state has both edges, and its projection is complete: the
  decision always has an edge to enact and a bound comes with a target.
\<close>

lemma edgesFromWorkflow_review:
  assumes "wf_ok w" and "v2_IsV2 (edgesFromWorkflow w status)"
  obtains p f where "p \<in> set (TransitionsFrom w (TrimSpace status))" and "tr_On p = ''pass''"
    and "f \<in> set (TransitionsFrom w (TrimSpace status))" and "tr_On f = ''fail''"
    and "v2_PassTo (edgesFromWorkflow w status) = tr_To p"
    and "v2_FailTo (edgesFromWorkflow w status) = tr_To f"
    and "v2_MaxIterations (edgesFromWorkflow w status) = tr_MaxIterations f"
    and "v2_OnExhausted (edgesFromWorkflow w status) = tr_OnExhausted f"
proof -
  let ?s = "TrimSpace status"
  let ?ts = "TransitionsFrom w ?s"
  obtain st where st: "StateOf w ?s = Some st"
    using assms(2) by (auto simp: edgesFromWorkflow_def zeroEdges_def split: option.splits)
  then have name: "st_Name st = ?s" by (auto dest: StateOf_Some)
  let ?e0 = "zeroEdges\<lparr>v2_Actor := st_Actor st, v2_Command := st_Command st\<rparr>"
  have e: "edgesFromWorkflow w status = fold add_edge ?ts ?e0"
    using st name by (simp add: edgesFromWorkflow_def)
  have some: "\<exists>t \<in> set ?ts. tr_On t = ''pass'' \<or> tr_On t = ''fail''"
    using assms(2) unfolding e fold_add_edge_IsV2 by (simp add: zeroEdges_def)
  have pair: "(\<exists>t \<in> set ?ts. tr_On t = ''pass'') \<longleftrightarrow> (\<exists>t \<in> set ?ts. tr_On t = ''fail'')"
    using assms(1) by (auto simp: wf_ok_def loops_ok_def TransitionsFrom_def)
  show ?thesis
    using some pair fold_add_edge_PassTo [of ?ts ?e0] fold_add_edge_Fail [of ?ts ?e0] that
    unfolding e by blast
qed


lemma count_after_plan:
  assumes "PlanV2Enactment d gate s notes e (CountEdgeRejects es s) = Inr p"
  shows "CountEdgeRejects (es @ map view_of_row (vp_Rows p)) s =
    (if d = GateDecisionAccept then CountEdgeRejects es s
     else if vp_Exhausted p then 0 else CountEdgeRejects es s + 1)"
  using assms unfolding PlanV2Enactment_def
  by (auto simp: CountEdgeRejects_append simp del: list.map split: if_splits)

lemma plan_reject_bounded:
  assumes "v2_IsV2 e" and "v2_FailTo e \<noteq> []" and "v2_OnExhausted e \<noteq> []" and "0 < v2_MaxIterations e"
  shows "\<exists>p. PlanV2Enactment GateDecisionReject gate s notes e n = Inr p \<and>
    vp_Exhausted p = (v2_MaxIterations e \<le> n + 1) \<and>
    vp_ToStatus p = (if v2_MaxIterations e \<le> n + 1 then v2_OnExhausted e else v2_FailTo e)"
  using assms by (auto simp: PlanV2Enactment_def)

lemma enact_rejects_from:
  assumes "v2_IsV2 e" and "v2_FailTo e \<noteq> []" and "v2_OnExhausted e \<noteq> []"
    and "v2_MaxIterations e = CountEdgeRejects es s + int (Suc k)"
  shows "fst (enact_rejects gate s notes e (Suc k) es) = replicate k (v2_FailTo e) @ [v2_OnExhausted e]
    \<and> CountEdgeRejects (snd (enact_rejects gate s notes e (Suc k) es)) s = 0"
  using assms(4)
proof (induction k arbitrary: es)
  case (0 es)
  have pos: "0 < v2_MaxIterations e"
    using 0 count_rejects_nonneg [of 0 es s] by (simp add: CountEdgeRejects_def)
  obtain p where p: "PlanV2Enactment GateDecisionReject gate s notes e (CountEdgeRejects es s) = Inr p"
      "vp_Exhausted p" "vp_ToStatus p = v2_OnExhausted e"
    using plan_reject_bounded [OF assms(1-3) pos, of gate s "notes" "CountEdgeRejects es s"] 0 by auto
  then show ?case using count_after_plan [OF p(1)] by simp
next
  case (Suc k es)
  have pos: "0 < v2_MaxIterations e"
    using Suc.prems count_rejects_nonneg [of 0 es s] by (simp add: CountEdgeRejects_def)
  obtain p where p: "PlanV2Enactment GateDecisionReject gate s notes e (CountEdgeRejects es s) = Inr p"
      "\<not> vp_Exhausted p" "vp_ToStatus p = v2_FailTo e"
    using plan_reject_bounded [OF assms(1-3) pos, of gate s "notes" "CountEdgeRejects es s"] Suc.prems by auto
  let ?es = "es @ map view_of_row (vp_Rows p)"
  have "v2_MaxIterations e = CountEdgeRejects ?es s + int (Suc k)"
    using count_after_plan [OF p(1)] p(2) Suc.prems by simp
  from Suc.IH [OF this] p show ?case by (simp add: Let_def split_beta)
qed

section \<open>Properties\<close>

text \<open>
  C2: at a review state of an accepted workflow both decisions have an enactment: the plan never
  fails, it lands in a declared state, its first row records the verdict and its last row is the
  status transition to the state it enacts.
\<close>

theorem plan_total:
  assumes "validate w0 = Inr w" and "v2_IsV2 (edgesFromWorkflow w status)"
    and "d = GateDecisionAccept \<or> d = GateDecisionReject"
  shows "\<exists>p. PlanV2Enactment d gate status notes (edgesFromWorkflow w status) n = Inr p \<and>
    vp_ToStatus p \<in> st_Name ` set (wf_States w) \<and>
    pr_Kind (hd (vp_Rows p)) = (if d = GateDecisionAccept then ''review_accept'' else ''review_reject'') \<and>
    pr_Kind (last (vp_Rows p)) = ''status_transition'' \<and>
    map_of (pr_Payload (last (vp_Rows p))) ''to_status'' = Some (JStr (vp_ToStatus p))"
proof -
  let ?e = "edgesFromWorkflow w status"
  have ok: "wf_ok w" using assms(1) unfolding validate_iff by blast
  from ok assms(2) obtain p f where pf: "p \<in> set (TransitionsFrom w (TrimSpace status))"
      "f \<in> set (TransitionsFrom w (TrimSpace status))" "v2_PassTo ?e = tr_To p" "v2_FailTo ?e = tr_To f"
      "v2_MaxIterations ?e = tr_MaxIterations f" "v2_OnExhausted ?e = tr_OnExhausted f"
    by (rule edgesFromWorkflow_review)
  have t: "transition_ok (st_Name ` set (wf_States w)) p" "transition_ok (st_Name ` set (wf_States w)) f"
    using ok pf(1,2) by (auto simp: wf_ok_def TransitionsFrom_def)
  have e: "v2_PassTo ?e \<noteq> []" "v2_FailTo ?e \<noteq> []"
      "v2_PassTo ?e \<in> st_Name ` set (wf_States w)" "v2_FailTo ?e \<in> st_Name ` set (wf_States w)"
      "0 < v2_MaxIterations ?e \<Longrightarrow> v2_OnExhausted ?e \<noteq> [] \<and> v2_OnExhausted ?e \<in> st_Name ` set (wf_States w)"
    using t unfolding pf(3-) transition_ok_def by blast+
  show ?thesis
  proof (cases "d = GateDecisionAccept")
    case True
    then show ?thesis using assms(2) e by (simp add: PlanV2Enactment_def accept_rows_def)
  next
    case False
    then have d: "d = GateDecisionReject" using assms(3) by simp
    show ?thesis
    proof (cases "0 < v2_MaxIterations ?e \<and> n + 1 \<ge> v2_MaxIterations ?e")
      case True
      then show ?thesis using assms(2) e d
        by (simp add: PlanV2Enactment_def reject_row_def exhausted_row_def)
    next
      case False
      then show ?thesis using assms(2) e d
        by (auto simp: PlanV2Enactment_def reject_row_def fail_row_def)
    qed
  qed
qed

theorem plan_total_witness:
  "\<exists>p. PlanV2Enactment GateDecisionReject gate_integration ''integration'' ''no''
     (edgesFromWorkflow shipped_workflow ''integration'') 2 = Inr p"
proof -
  have "v2_IsV2 (edgesFromWorkflow shipped_workflow ''integration'')" by code_simp
  then show ?thesis using plan_total [OF shipped_accepted, of "''integration''" GateDecisionReject] by blast
qed

text \<open>
  C3: a bounded fail loop of bound m: from a ledger whose window is empty, m rejects in a row enact
  the fail edge m - 1 times and then the exhaustion target, and the window is empty again.
\<close>

theorem exhausts_at_bound:
  assumes "v2_IsV2 e" and "v2_FailTo e \<noteq> []" and "v2_OnExhausted e \<noteq> []"
    and "v2_MaxIterations e = int (Suc k)" and "CountEdgeRejects es s = 0"
  shows "fst (enact_rejects gate s notes e (Suc k) es) = replicate k (v2_FailTo e) @ [v2_OnExhausted e]
    \<and> CountEdgeRejects (snd (enact_rejects gate s notes e (Suc k) es)) s = 0"
  by (rule enact_rejects_from) (use assms in simp_all)

theorem exhausts_at_bound_witness:
  "fst (enact_rejects gate_integration ''integration'' ''no'' (edgesFromWorkflow shipped_workflow ''integration'')
     (Suc 2) []) = [''in_progress'', ''in_progress'', ''blocked'']"
proof -
  have e: "v2_IsV2 (edgesFromWorkflow shipped_workflow ''integration'')
     \<and> v2_FailTo (edgesFromWorkflow shipped_workflow ''integration'') = ''in_progress''
     \<and> v2_OnExhausted (edgesFromWorkflow shipped_workflow ''integration'') = ''blocked''
     \<and> v2_MaxIterations (edgesFromWorkflow shipped_workflow ''integration'') = 3"
    by code_simp
  have c: "CountEdgeRejects [] s = 0" for s by (simp add: CountEdgeRejects_def)
  show ?thesis
    using exhausts_at_bound [of "edgesFromWorkflow shipped_workflow ''integration''" 2 "[]" "''integration''"] e c
    by (simp add: numeral_2_eq_2)
qed

end
