(* ===== verification/WorkflowResolve.thy ===== *)
theory WorkflowResolve
  imports V2Edges
begin

text \<open>
  \<^verbatim>\<open>internal/verb/workflow_resolve.go\<close>: which workflow governs a story. A workflow named by
  the story's selector tag comes first, then the first source whose \<open>applies_to\<close> covers the
  category (an exact match before a wildcard), then the copy embedded in the story. Messages are
  values of a datatype, with the data the code formats into them.
\<close>

section \<open>Sources, selector, category match\<close>

record WorkflowSource =
  ws_Name :: string
  ws_Body :: string

definition WorkflowSelectorTag :: string where "WorkflowSelectorTag = ''workflow:''"

fun WorkflowSelector :: "string list \<Rightarrow> string" where
  "WorkflowSelector [] = []"
| "WorkflowSelector (t # ts) =
     (case CutPrefix (TrimSpace t) WorkflowSelectorTag of
        Some v \<Rightarrow> TrimSpace v
      | None \<Rightarrow> WorkflowSelector ts)"

definition appliesToCovers :: "Workflow \<Rightarrow> string \<Rightarrow> bool" where
  "appliesToCovers w category0 =
     (let category = TrimSpace category0 in
      list_ex (\<lambda>at0. let at = TrimSpace at0 in
        at = ''*'' \<or> (category \<noteq> [] \<and> EqualFold at category)) (wf_AppliesTo w))"

text \<open>The result of \<open>ResolveByName\<close>: \<^const>\<open>None\<close> for a dangling name, else the workflow and
  whether it covers the category.\<close>

fun resolve_name_loop ::
  "yaml_codec \<Rightarrow> string \<Rightarrow> string \<Rightarrow> WorkflowSource list \<Rightarrow> (Workflow \<times> bool) option" where
  "resolve_name_loop yaml name category [] = None"
| "resolve_name_loop yaml name category (s # ss) =
     (case ParseWorkflow yaml (ws_Body s) of
        Inl e \<Rightarrow> resolve_name_loop yaml name category ss
      | Inr parsed \<Rightarrow>
          (if \<not> EqualFold (TrimSpace (ws_Name s)) name \<and> \<not> EqualFold (TrimSpace (wf_Name parsed)) name
           then resolve_name_loop yaml name category ss
           else Some (parsed, appliesToCovers parsed category)))"

definition ResolveByName ::
  "yaml_codec \<Rightarrow> string \<Rightarrow> string \<Rightarrow> WorkflowSource list \<Rightarrow> (Workflow \<times> bool) option" where
  "ResolveByName yaml name0 category sources =
     (let name = TrimSpace name0 in
      if name = [] then None else resolve_name_loop yaml name category sources)"

text \<open>The inner loop over \<open>applies_to\<close> returns at an exact match, else records the wildcard.\<close>

fun scan_applies ::
  "string \<Rightarrow> Workflow \<Rightarrow> string \<Rightarrow> string list \<Rightarrow> (Workflow \<times> string) option \<Rightarrow>
   (Workflow \<times> string) + (Workflow \<times> string) option" where
  "scan_applies category w name [] wildcard = Inr wildcard"
| "scan_applies category w name (at # ats) wildcard =
     (let t = TrimSpace at in
      if t = ''*'' then
        scan_applies category w name ats (if wildcard = None then Some (w, name) else wildcard)
      else if category \<noteq> [] \<and> EqualFold t category then Inl (w, name)
      else scan_applies category w name ats wildcard)"

fun resolve_loop ::
  "yaml_codec \<Rightarrow> string \<Rightarrow> (Workflow \<times> string) option \<Rightarrow> WorkflowSource list \<Rightarrow> (Workflow \<times> string) option" where
  "resolve_loop yaml category wildcard [] = wildcard"
| "resolve_loop yaml category wildcard (s # ss) =
     (case ParseWorkflow yaml (ws_Body s) of
        Inl e \<Rightarrow> resolve_loop yaml category wildcard ss
      | Inr w \<Rightarrow>
          (case scan_applies category w (ws_Name s) (wf_AppliesTo w) wildcard of
             Inl r \<Rightarrow> Some r
           | Inr wildcard' \<Rightarrow> resolve_loop yaml category wildcard' ss))"

definition ResolveGoverningWorkflow ::
  "yaml_codec \<Rightarrow> string \<Rightarrow> WorkflowSource list \<Rightarrow> (Workflow \<times> string) option" where
  "ResolveGoverningWorkflow yaml category sources = resolve_loop yaml (TrimSpace category) None sources"

section \<open>The edges that are enacted\<close>

datatype drift =
    NoDrift
  | SelectorDangling string
  | SelectorNotCovering string string
  | EmbeddedDiverges string string

text \<open>The embedded copy, when it parses, differs from the governing machine.\<close>

definition embedded_diverges :: "yaml_codec \<Rightarrow> Workflow \<Rightarrow> string \<Rightarrow> bool" where
  "embedded_diverges yaml auth storyBody =
     (case ParseBody yaml storyBody of
        Inl e \<Rightarrow> False
      | Inr embedded \<Rightarrow> \<not> Equivalent (Some auth) (Some embedded))"

definition GoverningReconcile ::
  "yaml_codec \<Rightarrow> string \<Rightarrow> string \<Rightarrow> string \<Rightarrow> string \<Rightarrow> WorkflowSource list \<Rightarrow> V2Edges \<times> string \<times> drift" where
  "GoverningReconcile yaml selector storyBody status category sources =
     (if selector \<noteq> [] then
        (case ResolveByName yaml selector category sources of
           None \<Rightarrow> (zeroEdges, [], SelectorDangling selector)
         | Some (w, covers) \<Rightarrow>
             (if \<not> covers then (zeroEdges, selector, SelectorNotCovering selector category)
              else (edgesFromWorkflow w status, selector, NoDrift)))
      else case ResolveGoverningWorkflow yaml category sources of
        None \<Rightarrow> (ResolveV2Edges yaml storyBody status, [], NoDrift)
      | Some (auth, name) \<Rightarrow>
          (edgesFromWorkflow auth status, name,
           if embedded_diverges yaml auth storyBody then EmbeddedDiverges name category else NoDrift))"

text \<open>
  The authority as the other functions resolve it: a covering selector, else the category's
  workflow, else the embedded copy. (\<open>GoverningCheckpoint\<close> splits off the last case.)
\<close>

definition selected :: "yaml_codec \<Rightarrow> string \<Rightarrow> string \<Rightarrow> WorkflowSource list \<Rightarrow> Workflow option" where
  "selected yaml selector category sources =
     (if selector = [] then None
      else case ResolveByName yaml selector category sources of
        Some (w, covers) \<Rightarrow> (if covers then Some w else None)
      | None \<Rightarrow> None)"

definition authority ::
  "yaml_codec \<Rightarrow> string \<Rightarrow> string \<Rightarrow> string \<Rightarrow> WorkflowSource list \<Rightarrow> Workflow option" where
  "authority yaml selector storyBody category sources =
     (case selected yaml selector category sources of
        Some w \<Rightarrow> Some w
      | None \<Rightarrow>
         (case ResolveGoverningWorkflow yaml category sources of
            Some (w, name) \<Rightarrow> Some w
          | None \<Rightarrow> (case ParseBody yaml storyBody of Inl e \<Rightarrow> None | Inr w \<Rightarrow> Some w)))"

datatype hint = HintGate string string | HintCheckpoint string | HintPlain string

definition edge_hint :: "Transition \<Rightarrow> hint" where
  "edge_hint t =
     (if TrimSpace (tr_ReviewerSkill t) \<noteq> [] then HintGate (tr_To t) (TrimSpace (tr_ReviewerSkill t))
      else if tr_Trigger t = ''checkpoint'' then HintCheckpoint (tr_To t)
      else HintPlain (tr_To t))"

text \<open>The empty list stands for the empty hint.\<close>

definition GoverningEdgesHint ::
  "yaml_codec \<Rightarrow> string \<Rightarrow> string \<Rightarrow> string \<Rightarrow> string \<Rightarrow> WorkflowSource list \<Rightarrow> hint list" where
  "GoverningEdgesHint yaml selector storyBody status category sources =
     (case authority yaml selector storyBody category sources of
        None \<Rightarrow> []
      | Some auth \<Rightarrow> map edge_hint (TransitionsFrom auth (TrimSpace status)))"

definition GoverningCheckpoint ::
  "yaml_codec \<Rightarrow> string \<Rightarrow> string \<Rightarrow> string \<Rightarrow> string \<Rightarrow> WorkflowSource list \<Rightarrow> string option" where
  "GoverningCheckpoint yaml selector storyBody status category sources =
     (case selected yaml selector category sources of
        Some auth \<Rightarrow> checkpoint_loop [] 0 (TransitionsFrom auth (TrimSpace status))
      | None \<Rightarrow>
         (case ResolveGoverningWorkflow yaml category sources of
            None \<Rightarrow> CheckpointEdge yaml storyBody status
          | Some (w, name) \<Rightarrow> checkpoint_loop [] 0 (TransitionsFrom w (TrimSpace status))))"

definition gatedEdgeFrom :: "Workflow \<Rightarrow> string \<Rightarrow> string \<Rightarrow> string option" where
  "gatedEdgeFrom w status skill0 =
     (let skill = TrimSpace skill0 in
      map_option tr_To (find (\<lambda>t. tr_On t = [] \<and> tr_Trigger t = [] \<and>
        EqualFold (TrimSpace (tr_ReviewerSkill t)) skill) (TransitionsFrom w (TrimSpace status))))"

definition GoverningGatedEdge ::
  "yaml_codec \<Rightarrow> string \<Rightarrow> string \<Rightarrow> string \<Rightarrow> string \<Rightarrow> string \<Rightarrow> WorkflowSource list \<Rightarrow> string option" where
  "GoverningGatedEdge yaml selector storyBody status category gateSkill0 sources =
     (let gateSkill = TrimSpace gateSkill0 in
      if gateSkill = [] then None
      else case authority yaml selector storyBody category sources of
        None \<Rightarrow> None
      | Some auth \<Rightarrow> gatedEdgeFrom auth status gateSkill)"

definition GoverningUngatedAdvance ::
  "yaml_codec \<Rightarrow> string \<Rightarrow> string \<Rightarrow> string \<Rightarrow> string \<Rightarrow> string \<Rightarrow> WorkflowSource list \<Rightarrow> bool" where
  "GoverningUngatedAdvance yaml selector storyBody status category target0 sources =
     (let froms = (case authority yaml selector storyBody category sources of
                     None \<Rightarrow> []
                   | Some w \<Rightarrow> TransitionsFrom w (TrimSpace status));
          target = TrimSpace target0
      in list_ex (\<lambda>t. tr_To t = target \<and> TrimSpace (tr_ReviewerSkill t) = [] \<and> tr_On t = []) froms)"

definition EntryReviewer :: "yaml_codec \<Rightarrow> string \<Rightarrow> string \<Rightarrow> string \<Rightarrow> WorkflowSource list \<Rightarrow> string" where
  "EntryReviewer yaml selector storyBody category sources =
     (case authority yaml selector storyBody category sources of
        None \<Rightarrow> []
      | Some auth \<Rightarrow>
         (case find (\<lambda>t. TrimSpace (tr_ReviewerSkill t) \<noteq> [] \<and> \<not> IsTerminal auth (tr_To t))
                 (TransitionsFrom auth (InitialState auth)) of
            None \<Rightarrow> []
          | Some t \<Rightarrow> TrimSpace (tr_ReviewerSkill t)))"

section \<open>Lifecycle position by category\<close>

text \<open>The sources are those of the embedded configuration (\<open>SystemWorkflowSources\<close>).\<close>

definition governing_with_state ::
  "yaml_codec \<Rightarrow> string \<Rightarrow> string \<Rightarrow> WorkflowSource list \<Rightarrow> Workflow option" where
  "governing_with_state yaml s category sources =
     (case ResolveGoverningWorkflow yaml category sources of
        Some (w, name) \<Rightarrow> (if hasState w s then Some w else None)
      | None \<Rightarrow> None)"

definition isTerminalForCategoryIn :: "yaml_codec \<Rightarrow> string \<Rightarrow> string \<Rightarrow> WorkflowSource list \<Rightarrow> bool" where
  "isTerminalForCategoryIn yaml status category sources =
     (let s = TrimSpace status in
      case governing_with_state yaml s category sources of
        Some w \<Rightarrow> IsTerminal w s
      | None \<Rightarrow> s = ''done'' \<or> s = ''cancelled'')"

definition isInitialForCategoryIn :: "yaml_codec \<Rightarrow> string \<Rightarrow> string \<Rightarrow> WorkflowSource list \<Rightarrow> bool" where
  "isInitialForCategoryIn yaml status category sources =
     (let s = TrimSpace status in
      case governing_with_state yaml s category sources of
        Some w \<Rightarrow> InitialState w = s
      | None \<Rightarrow> s = ''backlog'' \<or> s = ''ready'')"

definition isEditableForCategoryIn :: "yaml_codec \<Rightarrow> string \<Rightarrow> string \<Rightarrow> WorkflowSource list \<Rightarrow> bool" where
  "isEditableForCategoryIn yaml status category sources =
     (let s = TrimSpace status in
      case governing_with_state yaml s category sources of
        Some w \<Rightarrow> IsEditable w s
      | None \<Rightarrow>
          \<not> (s = [] \<or> s = ''backlog'' \<or> s = ''ready'' \<or> s = ''done'' \<or> s = ''cancelled''))"

section \<open>ExplainTransition\<close>

datatype edge_model = V2ClientEnact | V1ClientEnact | CheckpointModel | Ungated

record ExplainEdge =
  ee_To :: string
  ee_On :: string
  ee_Trigger :: string
  ee_Gate :: string
  ee_Model :: edge_model

datatype verdict =
    VerdictNone
  | NothingResolves
  | StatusTerminal string
  | NoSkillNamed
  | EnactsV2 string string string
  | EnactsV1 string string string
  | OperatorState string
  | AdvancesByCheckpoint string string string
  | OtherGateGoverns string string string
  | GovernsNoEdge string string

record ExplainResult =
  er_Governing :: string
  er_Drift :: drift
  er_Status :: string
  er_Actor :: string
  er_Edges :: "ExplainEdge list"
  er_Gate :: string
  er_Verdict :: verdict

definition explain_edge :: "Transition \<Rightarrow> ExplainEdge" where
  "explain_edge t =
     (let on = TrimSpace (tr_On t); trigger = TrimSpace (tr_Trigger t); gate = TrimSpace (tr_ReviewerSkill t)
      in \<lparr>ee_To = tr_To t, ee_On = on, ee_Trigger = trigger, ee_Gate = gate,
          ee_Model = (if on = ''pass'' \<or> on = ''fail'' then V2ClientEnact
                      else if gate \<noteq> [] then V1ClientEnact
                      else if trigger = ''checkpoint'' then CheckpointModel
                      else Ungated)\<rparr>)"

text \<open>\<open>matched\<close> is the last edge of the named gate, \<open>otherGate\<close> the first other gate.\<close>

definition matched_edge :: "string \<Rightarrow> ExplainEdge list \<Rightarrow> ExplainEdge option" where
  "matched_edge gate es =
     (if gate = [] then None
      else find (\<lambda>e. ee_Gate e \<noteq> [] \<and> EqualFold (ee_Gate e) gate) (rev es))"

definition other_gate :: "string \<Rightarrow> ExplainEdge list \<Rightarrow> string" where
  "other_gate gate es =
     (if gate = [] then []
      else case find (\<lambda>e. ee_Gate e \<noteq> [] \<and> \<not> EqualFold (ee_Gate e) gate) es of
        None \<Rightarrow> []
      | Some e \<Rightarrow> ee_Gate e)"

definition verdict_tail :: "ExplainResult \<Rightarrow> string \<Rightarrow> verdict" where
  "verdict_tail res otherGate =
     (if er_Actor res = ''operator'' then OperatorState (er_Status res)
      else case find (\<lambda>e. ee_Model e = CheckpointModel) (er_Edges res) of
        Some e \<Rightarrow> AdvancesByCheckpoint (er_Status res) (ee_To e) (er_Gate res)
      | None \<Rightarrow>
          (if otherGate \<noteq> [] then OtherGateGoverns (er_Gate res) (er_Status res) otherGate
           else GovernsNoEdge (er_Gate res) (er_Status res)))"

definition explainVerdict :: "ExplainResult \<Rightarrow> ExplainEdge option \<Rightarrow> string \<Rightarrow> verdict" where
  "explainVerdict res matched otherGate =
     (if er_Edges res = [] then StatusTerminal (er_Status res)
      else if er_Gate res = [] then NoSkillNamed
      else case matched of
        Some m \<Rightarrow>
          (case ee_Model m of
             V2ClientEnact \<Rightarrow> EnactsV2 (er_Gate res) (er_Status res) (ee_To m)
           | V1ClientEnact \<Rightarrow> EnactsV1 (er_Gate res) (er_Status res) (ee_To m)
           | _ \<Rightarrow> verdict_tail res otherGate)
      | None \<Rightarrow> verdict_tail res otherGate)"

definition explain_in :: "ExplainResult \<Rightarrow> Workflow \<Rightarrow> ExplainResult" where
  "explain_in res0 auth =
     (let status = er_Status res0;
          es = map explain_edge (TransitionsFrom auth status);
          res = res0\<lparr>er_Actor := ActorOf auth status, er_Edges := es\<rparr>
      in res\<lparr>er_Verdict := explainVerdict res (matched_edge (er_Gate res) es) (other_gate (er_Gate res) es)\<rparr>)"

definition ExplainTransition ::
  "yaml_codec \<Rightarrow> string \<Rightarrow> string \<Rightarrow> string \<Rightarrow> string \<Rightarrow> string \<Rightarrow> WorkflowSource list \<Rightarrow> ExplainResult" where
  "ExplainTransition yaml selector storyBody status category gateSkill sources =
     (let res = \<lparr>er_Governing = [], er_Drift = NoDrift, er_Status = TrimSpace status, er_Actor = [],
                 er_Edges = [], er_Gate = TrimSpace gateSkill, er_Verdict = VerdictNone\<rparr>
      in if selector \<noteq> [] then
           (case ResolveByName yaml selector category sources of
              None \<Rightarrow> res\<lparr>er_Drift := SelectorDangling selector\<rparr>
            | Some (w, covers) \<Rightarrow>
                (if \<not> covers then
                   res\<lparr>er_Governing := selector, er_Drift := SelectorNotCovering selector category\<rparr>
                 else explain_in (res\<lparr>er_Governing := selector\<rparr>) w))
         else case ResolveGoverningWorkflow yaml category sources of
           Some (w, name) \<Rightarrow>
             explain_in (res\<lparr>er_Governing := name, er_Drift :=
               (if embedded_diverges yaml w storyBody then EmbeddedDiverges name category else NoDrift)\<rparr>) w
         | None \<Rightarrow>
            (case ParseBody yaml storyBody of
               Inr embedded \<Rightarrow> explain_in res embedded
             | Inl e \<Rightarrow> res\<lparr>er_Verdict := NothingResolves\<rparr>))"


section \<open>Specification of the resolution\<close>

text \<open>The sources that parse, in order, with their names.\<close>

definition loaded :: "yaml_codec \<Rightarrow> WorkflowSource list \<Rightarrow> (Workflow \<times> string) list" where
  "loaded yaml sources = List.map_filter (\<lambda>s.
     case ParseWorkflow yaml (ws_Body s) of Inl e \<Rightarrow> None | Inr w \<Rightarrow> Some (w, ws_Name s)) sources"

definition covers_exactly :: "string \<Rightarrow> Workflow \<Rightarrow> bool" where
  "covers_exactly category w =
     list_ex (\<lambda>a. TrimSpace a \<noteq> ''*'' \<and> category \<noteq> [] \<and> EqualFold (TrimSpace a) category) (wf_AppliesTo w)"

definition covers_all :: "Workflow \<Rightarrow> bool" where
  "covers_all w = list_ex (\<lambda>a. TrimSpace a = ''*'') (wf_AppliesTo w)"

text \<open>A codec that decodes every machine block to the shipped machine, and a story body with a block.\<close>

definition sample_yaml :: yaml_codec where
  "sample_yaml = \<lparr>yaml_frontmatter = (\<lambda>s. None), yaml_workflow_fm = (\<lambda>s. None),
     yaml_machine = (\<lambda>s. Some (wf_States shipped_workflow, wf_Transitions shipped_workflow))\<rparr>"

definition sample_body :: string where
  "sample_body = yaml_open @ [CHR 0x0A, CHR 0x0A] @ yaml_fence"

text \<open>A codec that also decodes every frontmatter, and a source with frontmatter and a block.\<close>

definition source_yaml :: yaml_codec where
  "source_yaml = sample_yaml\<lparr>yaml_frontmatter := (\<lambda>s. Some zeroFrontmatter),
     yaml_workflow_fm := (\<lambda>s. Some (''w'', [''*'']))\<rparr>"

definition sample_source :: WorkflowSource where
  "sample_source = \<lparr>ws_Name = ''w'',
     ws_Body = ''---'' @ [CHR 0x0A] @ ''name: w'' @ [CHR 0x0A] @ ''---'' @ [CHR 0x0A] @ sample_body\<rparr>"

lemma sample_ParseBody:
  "ParseBody sample_yaml sample_body = Inr (shipped_workflow\<lparr>wf_Name := [], wf_AppliesTo := []\<rparr>)"
  by code_simp

lemma scan_applies_eq:
  "scan_applies category w name ats wildcard =
     (if list_ex (\<lambda>a. TrimSpace a \<noteq> ''*'' \<and> category \<noteq> [] \<and> EqualFold (TrimSpace a) category) ats
      then Inl (w, name)
      else Inr (if wildcard = None \<and> list_ex (\<lambda>a. TrimSpace a = ''*'') ats then Some (w, name) else wildcard))"
  by (induction category w name ats wildcard rule: scan_applies.induct) (auto simp: Let_def)

lemma scan_covers:
  "scan_applies category w name (wf_AppliesTo w) wildcard =
     (if covers_exactly category w then Inl (w, name)
      else Inr (if wildcard = None \<and> covers_all w then Some (w, name) else wildcard))"
  by (simp add: scan_applies_eq covers_exactly_def covers_all_def)

lemma loaded_simps [simp]:
  "loaded yaml [] = []"
  "loaded yaml (s # ss) = (case ParseWorkflow yaml (ws_Body s) of
     Inl e \<Rightarrow> loaded yaml ss | Inr w \<Rightarrow> (w, ws_Name s) # loaded yaml ss)"
  by (auto simp: loaded_def List.map_filter_simps split: sum.split)

lemma resolve_loop_eq:
  "resolve_loop yaml category wildcard ss =
     (case find (covers_exactly category \<circ> fst) (loaded yaml ss) of
        Some r \<Rightarrow> Some r
      | None \<Rightarrow> (if wildcard = None then find (covers_all \<circ> fst) (loaded yaml ss) else wildcard))"
proof (induction yaml category wildcard ss rule: resolve_loop.induct)
  case (2 yaml category wildcard s ss)
  show ?case
  proof (cases "ParseWorkflow yaml (ws_Body s)")
    case (Inl e)
    then have l: "loaded yaml (s # ss) = loaded yaml ss" by simp
    show ?thesis unfolding l using 2(1) [OF Inl] Inl by simp
  next
    case (Inr w)
    then have l: "loaded yaml (s # ss) = (w, ws_Name s) # loaded yaml ss" by simp
    show ?thesis unfolding l
      using 2(2) [OF Inr, of "if wildcard = None \<and> covers_all w then Some (w, ws_Name s) else wildcard"] Inr
      by (cases "covers_exactly category w"; cases "covers_all w"; cases wildcard)
        (simp_all add: scan_covers comp_def split: option.split)
  qed
qed (simp split: option.split)

lemma covers_exactly_not_wild:
  "appliesToCovers w category \<longleftrightarrow> covers_exactly (TrimSpace category) w \<or> covers_all w"
  by (auto simp: appliesToCovers_def covers_exactly_def covers_all_def list_ex_iff Let_def)

section \<open>Properties\<close>

text \<open>
  The category resolution returns the first parsing source with an exact (case-insensitive)
  category match, and only when there is none the first with a wildcard; sources that do not parse
  are skipped.
\<close>

theorem ResolveGoverningWorkflow_spec:
  "ResolveGoverningWorkflow yaml category sources =
     (case find (covers_exactly (TrimSpace category) \<circ> fst) (loaded yaml sources) of
        Some r \<Rightarrow> Some r
      | None \<Rightarrow> find (covers_all \<circ> fst) (loaded yaml sources))"
  by (simp add: ResolveGoverningWorkflow_def resolve_loop_eq)

text \<open>
  C19: when a source covers the category, nothing that is enacted depends on the copy of the workflow
  embedded in the story: neither the review edges, nor the gated edge, nor the checkpoint, nor the
  ungated advance, nor the entry reviewer. A divergent copy is reported.
\<close>

theorem embedded_copy_not_honoured:
  assumes "ResolveGoverningWorkflow yaml category sources = Some (auth, name)"
  shows "fst (GoverningReconcile yaml sel body status category sources)
           = fst (GoverningReconcile yaml sel body' status category sources)
    \<and> GoverningGatedEdge yaml sel body status category gate sources
           = GoverningGatedEdge yaml sel body' status category gate sources
    \<and> GoverningCheckpoint yaml sel body status category sources
           = GoverningCheckpoint yaml sel body' status category sources
    \<and> GoverningUngatedAdvance yaml sel body status category target sources
           = GoverningUngatedAdvance yaml sel body' status category target sources
    \<and> EntryReviewer yaml sel body category sources = EntryReviewer yaml sel body' category sources
    \<and> (sel = [] \<and> embedded_diverges yaml auth body \<longrightarrow>
         snd (snd (GoverningReconcile yaml sel body status category sources)) = EmbeddedDiverges name category)"
proof -
  have a: "authority yaml sel body category sources = authority yaml sel body' category sources"
    using assms by (simp add: authority_def split: option.split)
  have "fst (GoverningReconcile yaml sel body status category sources)
           = fst (GoverningReconcile yaml sel body' status category sources)"
    using assms by (simp add: GoverningReconcile_def split: option.split)
  moreover have "GoverningCheckpoint yaml sel body status category sources
           = GoverningCheckpoint yaml sel body' status category sources"
    using assms by (simp add: GoverningCheckpoint_def split: option.split)
  moreover have "sel = [] \<and> embedded_diverges yaml auth body \<longrightarrow>
         snd (snd (GoverningReconcile yaml sel body status category sources)) = EmbeddedDiverges name category"
    using assms by (simp add: GoverningReconcile_def)
  ultimately show ?thesis
    unfolding GoverningGatedEdge_def GoverningUngatedAdvance_def EntryReviewer_def a by blast
qed

theorem embedded_copy_not_honoured_witness:
  "fst (GoverningReconcile source_yaml [] sample_body ''integration'' ''bug'' [sample_source])
     = fst (GoverningReconcile source_yaml [] ''no workflow'' ''integration'' ''bug'' [sample_source])
   \<and> v2_PassTo (fst (GoverningReconcile source_yaml [] ''no workflow'' ''integration'' ''bug'' [sample_source])) = ''shipping''"
proof
  have "map_option snd (ResolveGoverningWorkflow source_yaml ''bug'' [sample_source]) = Some ''w''" by code_simp
  then obtain auth name where r: "ResolveGoverningWorkflow source_yaml ''bug'' [sample_source] = Some (auth, name)"
    by (cases "ResolveGoverningWorkflow source_yaml ''bug'' [sample_source]") auto
  show "fst (GoverningReconcile source_yaml [] sample_body ''integration'' ''bug'' [sample_source])
     = fst (GoverningReconcile source_yaml [] ''no workflow'' ''integration'' ''bug'' [sample_source])"
    using embedded_copy_not_honoured [OF r] by blast
  show "v2_PassTo (fst (GoverningReconcile source_yaml [] ''no workflow'' ''integration'' ''bug'' [sample_source])) = ''shipping''"
    by code_simp
qed

text \<open>
  A selector that names no source fails closed for the review edges only: the gated edge and
  the checkpoint are resolved as if the story had no selector, from the category's workflow or
  the embedded copy, although the dry run reports that nothing is enacted.
\<close>

theorem dangling_selector_gated_edge_open:
  assumes "ResolveByName yaml sel category sources = None" and "sel \<noteq> []"
  shows "GoverningReconcile yaml sel body status category sources = (zeroEdges, [], SelectorDangling sel)
    \<and> er_Edges (ExplainTransition yaml sel body status category gate sources) = []
    \<and> GoverningGatedEdge yaml sel body status category gate sources
        = GoverningGatedEdge yaml [] body status category gate sources
    \<and> GoverningCheckpoint yaml sel body status category sources
        = GoverningCheckpoint yaml [] body status category sources"
proof -
  have "selected yaml sel category sources = None" "selected yaml [] category sources = None"
    using assms by (simp_all add: selected_def)
  then show ?thesis using assms
    by (simp add: GoverningReconcile_def ExplainTransition_def Let_def GoverningGatedEdge_def
        authority_def GoverningCheckpoint_def)
qed

theorem dangling_selector_gated_edge_open_witness:
  "GoverningReconcile sample_yaml ''nope'' sample_body ''backlog'' ''bug'' [] = (zeroEdges, [], SelectorDangling ''nope'')
   \<and> GoverningGatedEdge sample_yaml ''nope'' sample_body ''backlog'' ''bug'' ''satellites-intent-plan-review'' []
      = Some ''in_progress''"
proof -
  have "ResolveByName sample_yaml ''nope'' ''bug'' [] = None" by code_simp
  moreover have "GoverningGatedEdge sample_yaml [] sample_body ''backlog'' ''bug'' ''satellites-intent-plan-review'' []
      = Some ''in_progress''" by code_simp
  ultimately show ?thesis
    using dangling_selector_gated_edge_open [of sample_yaml "''nope''" "''bug''" "[]" sample_body "''backlog''"
        "''satellites-intent-plan-review''"] by simp
qed

text \<open>
  At a review state whose fail edge follows its pass edge with the same gate, the dry run names
  the target of the fail edge as what an accept enacts, while the plan of an accept enacts the pass
  edge.
\<close>

theorem explain_names_fail_target:
  assumes "TransitionsFrom w (er_Status res) = [p, f]" and "tr_On p = ''pass''" and "tr_On f = ''fail''"
    and "TrimSpace (tr_ReviewerSkill f) \<noteq> []" and "EqualFold (TrimSpace (tr_ReviewerSkill f)) (er_Gate res)"
    and "er_Gate res \<noteq> []" and "StateOf w (er_Status res) = Some st" and "tr_To p \<noteq> []"
    and "TrimSpace (er_Status res) = er_Status res"
  shows "er_Verdict (explain_in res w) = EnactsV2 (er_Gate res) (er_Status res) (tr_To f)
    \<and> (\<exists>pl. PlanV2Enactment GateDecisionAccept (er_Gate res) (er_Status res) notes
          (edgesFromWorkflow w (er_Status res)) n = Inr pl \<and> vp_ToStatus pl = tr_To p)"
proof -
  have tf: "TrimSpace ''pass'' = ''pass''" "TrimSpace ''fail'' = ''fail''" by code_simp+
  have "er_Verdict (explain_in res w) = EnactsV2 (er_Gate res) (er_Status res) (tr_To f)"
    using assms by (simp add: explain_in_def explain_edge_def matched_edge_def explainVerdict_def Let_def tf)
  moreover have "st_Name st = er_Status res" using assms(7) by (auto dest: StateOf_Some)
  then have "v2_IsV2 (edgesFromWorkflow w (er_Status res)) \<and> v2_PassTo (edgesFromWorkflow w (er_Status res)) = tr_To p"
    using assms by (simp add: edgesFromWorkflow_def add_edge_def set_reviewer_def)
  ultimately show ?thesis using assms(8) by (simp add: PlanV2Enactment_def)
qed

theorem explain_names_fail_target_witness:
  "er_Verdict (ExplainTransition sample_yaml [] sample_body ''integration'' ''bug'' gate_integration [])
     = EnactsV2 gate_integration ''integration'' ''in_progress''
   \<and> v2_PassTo (edgesFromWorkflow shipped_workflow ''integration'') = ''shipping''"
proof -
  let ?res = "\<lparr>er_Governing = [], er_Drift = NoDrift, er_Status = ''integration'', er_Actor = [],
                 er_Edges = [], er_Gate = gate_integration, er_Verdict = VerdictNone\<rparr>"
  let ?w = "shipped_workflow\<lparr>wf_Name := [], wf_AppliesTo := []\<rparr>"
  have t: "TrimSpace ''integration'' = ''integration''" "TrimSpace gate_integration = gate_integration" by code_simp+
  have "ExplainTransition sample_yaml [] sample_body ''integration'' ''bug'' gate_integration [] = explain_in ?res ?w"
    by (simp add: ExplainTransition_def ResolveGoverningWorkflow_def sample_ParseBody t)
  moreover have "TransitionsFrom ?w ''integration'' =
      [edge ''integration'' ''shipping'' gate_integration ''pass'' 0 [] [],
       edge ''integration'' ''in_progress'' gate_integration ''fail'' 3 ''blocked'' []]" by code_simp
  moreover have "StateOf ?w ''integration'' = Some \<lparr>st_Name = ''integration'', st_Actor = ''executor'', st_Command = []\<rparr>"
    by code_simp
  moreover have "gate_integration \<noteq> []" by (simp add: gate_integration_def)
  moreover have "v2_PassTo (edgesFromWorkflow shipped_workflow ''integration'') = ''shipping''" by code_simp
  ultimately show ?thesis
    using explain_names_fail_target [of ?w ?res
      "edge ''integration'' ''shipping'' gate_integration ''pass'' 0 [] []"
      "edge ''integration'' ''in_progress'' gate_integration ''fail'' 3 ''blocked'' []"] t
    by (simp add: edge_def)
qed

text \<open>
  The three category predicates put every non-empty status into exactly one of entry,
  terminal and editable, whether the governing workflow declares the status or the fixed fallback
  sets decide, when the governing workflow passes the lifecycle check.
\<close>

theorem category_classification:
  assumes "\<And>w name. ResolveGoverningWorkflow yaml category sources = Some (w, name) \<Longrightarrow> ValidateLifecycle w = None"
    and "TrimSpace status \<noteq> []"
    and "i = isInitialForCategoryIn yaml status category sources"
    and "t = isTerminalForCategoryIn yaml status category sources"
    and "e = isEditableForCategoryIn yaml status category sources"
  shows "(i \<and> \<not> t \<and> \<not> e) \<or> (\<not> i \<and> t \<and> \<not> e) \<or> (\<not> i \<and> \<not> t \<and> e)"
proof (cases "governing_with_state yaml (TrimSpace status) category sources")
  case None
  let ?s = "TrimSpace status"
  have i: "i = (?s = ''backlog'' \<or> ?s = ''ready'')" unfolding assms(3) isInitialForCategoryIn_def Let_def None by simp
  have t: "t = (?s = ''done'' \<or> ?s = ''cancelled'')" unfolding assms(4) isTerminalForCategoryIn_def Let_def None by simp
  have "e = (\<not> i \<and> \<not> t)" unfolding assms(5) isEditableForCategoryIn_def Let_def None i t using assms(2) by simp
  moreover have "\<not> (i \<and> t)" unfolding i t by (intro notI) (elim conjE disjE; simp)
  ultimately show ?thesis by blast
next
  case (Some w)
  then have h: "hasState w (TrimSpace status)" and "ValidateLifecycle w = None"
    using assms(1) by (auto simp: governing_with_state_def split: option.splits if_splits)
  then have "\<not> IsTerminal w (InitialState w)" by (auto simp: ValidateLifecycle_def Let_def split: if_splits)
  moreover have "i = (InitialState w = TrimSpace status)" "t = IsTerminal w (TrimSpace status)"
    unfolding assms(3,4) isInitialForCategoryIn_def isTerminalForCategoryIn_def Let_def Some by simp_all
  moreover have "e = (TrimSpace status \<noteq> InitialState w \<and> \<not> IsTerminal w (TrimSpace status))"
    unfolding assms(5) isEditableForCategoryIn_def Let_def Some using h assms(2) by (simp add: IsEditable_def Let_def)
  ultimately show ?thesis by metis
qed

theorem category_classification_witness:
  "isTerminalForCategoryIn sample_yaml ''done'' ''bug'' [] \<and> \<not> isEditableForCategoryIn sample_yaml ''done'' ''bug'' []"
proof -
  have r: "ResolveGoverningWorkflow sample_yaml ''bug'' [] = None" by code_simp
  have "isTerminalForCategoryIn sample_yaml ''done'' ''bug'' []" by code_simp
  moreover have "TrimSpace ''done'' \<noteq> []" by code_simp
  ultimately show ?thesis
    using category_classification [of sample_yaml "''bug''" "[]" "''done''", OF _ _ refl refl refl] r by auto
qed

end
