(* ===== verification/GateOutput.thy ===== *)
theory GateOutput
  imports WorkflowParse V2Edges
begin

text \<open>
  \<^verbatim>\<open>internal/verb/request_review_dispatcher.go\<close>: how a gate skill is found, how it is run and how
  its verdict is read from what it prints. The file system, the embedded files, the server, the
  check command, the \<^verbatim>\<open>claude\<close> subprocess and the JSON decoder are parameters; what is executed
  is returned as a trace.
\<close>

record GateDecisionOutput =
  go_Decision :: string
  go_Notes :: string

datatype gate_error =
    SkillNameRequired
  | GateAbsent
  | GateReadFailed
  | GateParseFailed fm_error
  | FetchFailed
  | NoSource
  | SubprocessFailed
  | InvalidDecision string
  | NoDecisionObject

section \<open>The verdict in the output\<close>

text \<open>
  The inner loop of \<open>balancedObjects\<close>: from an opening brace, the number of characters up to the
  brace that balances it, with braces inside JSON strings not counted.
\<close>

fun scan_block :: "nat \<Rightarrow> bool \<Rightarrow> bool \<Rightarrow> string \<Rightarrow> nat option" where
  "scan_block depth inStr esc [] = None"
| "scan_block depth inStr esc (c # cs) =
     (if inStr then
        map_option Suc
          (if esc then scan_block depth True False cs
           else if c = CHR 0x5C then scan_block depth True True cs
           else if c = CHR 0x22 then scan_block depth False False cs
           else scan_block depth True False cs)
      else if c = CHR 0x22 then map_option Suc (scan_block depth True False cs)
      else if c = CHR ''{'' then map_option Suc (scan_block (Suc depth) False False cs)
      else if c = CHR ''}'' then
        (if depth - 1 = 0 then Some 1 else map_option Suc (scan_block (depth - 1) False False cs))
      else map_option Suc (scan_block depth False False cs))"

lemma scan_block_bounds: "scan_block depth inStr esc s = Some n \<Longrightarrow> 1 \<le> n \<and> n \<le> length s"
  by (induction depth inStr esc s arbitrary: n rule: scan_block.induct) (auto split: if_splits)

function balancedObjects :: "string \<Rightarrow> string list" where
  "balancedObjects [] = []"
| "balancedObjects (c # cs) =
     (if c \<noteq> CHR ''{'' then balancedObjects cs
      else case scan_block 0 False False (c # cs) of
        None \<Rightarrow> balancedObjects cs
      | Some n \<Rightarrow> take n (c # cs) # balancedObjects (drop n (c # cs)))"
  by pat_completeness auto

termination
  by (relation "measure length") (auto dest: scan_block_bounds)

definition fence :: string where "fence = ''```''"

text \<open>A fenced output: the rest of the opening line and everything from the last fence on are dropped.\<close>

definition strip_fence :: "string \<Rightarrow> string" where
  "strip_fence s =
     (if HasPrefix s fence then
        (let s1 = (case Index s [CHR 0x0A] of Some nl \<Rightarrow> drop (nl + 1) s | None \<Rightarrow> s);
             s2 = (case LastIndex s1 fence of Some e \<Rightarrow> take e s1 | None \<Rightarrow> s1)
         in TrimSpace s2)
      else s)"

fun pick_decision ::
  "(string \<Rightarrow> GateDecisionOutput option) \<Rightarrow> GateDecisionOutput option \<Rightarrow> string \<Rightarrow> string list \<Rightarrow>
   GateDecisionOutput option \<times> string" where
  "pick_decision unmarshal found bad [] = (found, bad)"
| "pick_decision unmarshal found bad (b # bs) =
     (case unmarshal b of
        None \<Rightarrow> pick_decision unmarshal found bad bs
      | Some out \<Rightarrow>
          (if go_Decision out = GateDecisionAccept \<or> go_Decision out = GateDecisionReject
             then pick_decision unmarshal (Some out) bad bs
           else if go_Decision out \<noteq> [] then pick_decision unmarshal found (go_Decision out) bs
           else pick_decision unmarshal found bad bs))"

definition ParseGateOutput ::
  "(string \<Rightarrow> GateDecisionOutput option) \<Rightarrow> string \<Rightarrow> gate_error + GateDecisionOutput" where
  "ParseGateOutput unmarshal raw =
     (let s = strip_fence (TrimSpace raw);
          (found, bad) = pick_decision unmarshal None [] (balancedObjects s)
      in case found of
           Some out \<Rightarrow> Inr out
         | None \<Rightarrow> (if bad \<noteq> [] then Inl (InvalidDecision bad) else Inl NoDecisionObject))"

section \<open>Finding a gate\<close>

datatype file_result = FileOk string | FileAbsent | FileError
datatype fetch_result = Fetched string | NotHeld | TransportError

record skill_sources =
  ss_yaml :: "string \<Rightarrow> Frontmatter option"
  ss_local :: "string \<Rightarrow> file_result"
  ss_embed :: "string \<Rightarrow> string option"
  ss_fetch :: "(string \<Rightarrow> fetch_result) option"

definition parse_gate :: "skill_sources \<Rightarrow> string \<Rightarrow> gate_error + Frontmatter \<times> string" where
  "parse_gate src raw = (case ParseFrontmatter (ss_yaml src) raw of
     Inl e \<Rightarrow> Inl (GateParseFailed e) | Inr r \<Rightarrow> Inr r)"

definition resolveGateSkill :: "skill_sources \<Rightarrow> string \<Rightarrow> gate_error + Frontmatter \<times> string" where
  "resolveGateSkill src skillName =
     (case ss_local src skillName of
        FileOk raw \<Rightarrow> parse_gate src raw
      | FileError \<Rightarrow> Inl GateReadFailed
      | FileAbsent \<Rightarrow>
          (case ss_embed src skillName of
             Some eraw \<Rightarrow> parse_gate src eraw
           | None \<Rightarrow> Inl GateAbsent))"

definition resolveSkillEmbedLocalServer :: "skill_sources \<Rightarrow> string \<Rightarrow> gate_error + Frontmatter \<times> string" where
  "resolveSkillEmbedLocalServer src skillName =
     (case resolveGateSkill src skillName of
        Inr r \<Rightarrow> Inr r
      | Inl e \<Rightarrow>
          (if e \<noteq> GateAbsent then Inl e
           else case ss_fetch src of
             None \<Rightarrow> Inl e
           | Some fetch \<Rightarrow>
              (case fetch skillName of
                 TransportError \<Rightarrow> Inl FetchFailed
               | NotHeld \<Rightarrow> Inl NoSource
               | Fetched raw \<Rightarrow> parse_gate src raw)))"

definition GateResolvable :: "skill_sources \<Rightarrow> string \<Rightarrow> bool" where
  "GateResolvable src skillName =
     (case resolveSkillEmbedLocalServer src skillName of Inl e \<Rightarrow> False | Inr r \<Rightarrow> True)"

text \<open>\<^const>\<open>None\<close>: the skill resolves from no source.\<close>

definition IsReviewer :: "skill_sources \<Rightarrow> string \<Rightarrow> bool option" where
  "IsReviewer src skillName =
     (case resolveSkillEmbedLocalServer src skillName of
        Inl e \<Rightarrow> None
      | Inr (fm, body) \<Rightarrow>
          (if EqualFold (TrimSpace (fm_Kind fm)) ''reviewer'' then Some True
           else Some (list_ex (\<lambda>t. EqualFold (TrimSpace t) ''kind:reviewer'') (fm_Tags fm))))"

section \<open>Running a gate\<close>

definition gateAllowedTools :: string where "gateAllowedTools = ''Bash Read Grep Glob''"

definition readOnlyGateAllowedTools :: string where "readOnlyGateAllowedTools = ''Read Grep Glob''"

text \<open>The directive appended to a read-only gate's prompt; its wording is data.\<close>

definition validateOnlyDirective :: string where
  "validateOnlyDirective = [CHR 0x0A, CHR 0x0A] @ ''--- VALIDATE-ONLY (read-only) ---'' @ [CHR 0x0A] @
     ''This is a READ-ONLY validation. Do NOT enact: run no `satellites exec`, '' @
     ''`ledger_append`, `status_transition`, git, or file mutation. Judge the '' @
     ''input and emit ONLY the final {'' @ [CHR 0x22] @ ''decision'' @ [CHR 0x22, CHR 0x2C, CHR 0x22] @ ''notes'' @
     [CHR 0x22] @ ''} JSON.''"

definition claudeArgs :: "string \<Rightarrow> string \<Rightarrow> string \<Rightarrow> string list" where
  "claudeArgs systemPrompt allowedTools model =
     [''-p'', ''--allowedTools'', allowedTools, ''--append-system-prompt'', systemPrompt] @
     (if TrimSpace model \<noteq> [] then [''--model'', TrimSpace model] else [])"

text \<open>The time bound of a dispatch: the call's, else the default; zero and less is no bound.\<close>

definition withClaudeTimeout :: "int \<Rightarrow> int \<Rightarrow> int option" where
  "withClaudeTimeout timeout defaultTimeout =
     (let t = (if timeout = 0 then defaultTimeout else timeout) in if t > 0 then Some t else None)"

text \<open>How a command ended, with its output: success, an exit error with its code (negative when a
  signal killed it), or any other failure.\<close>

datatype proc_result = ProcOk string | ProcExit int string | ProcFailed string

fun runGateCheck :: "proc_result \<Rightarrow> int \<times> string" where
  "runGateCheck (ProcOk out) = (0, TrimSpace out)"
| "runGateCheck (ProcExit c out) = (if c \<ge> 0 then c else 1, TrimSpace out)"
| "runGateCheck (ProcFailed out) = (1, TrimSpace out)"

definition appendFunctionalCheck :: "string \<Rightarrow> string \<Rightarrow> int \<Rightarrow> string \<Rightarrow> string" where
  "appendFunctionalCheck systemPrompt check exitCode out =
     systemPrompt @ [CHR 0x0A, CHR 0x0A] @ ''## Functional check (deterministic)'' @ [CHR 0x0A, CHR 0x0A] @
     ''The harness ran this gate'' @ [CHR 0x27] @ ''s functional check; fold its result into your verdict per your decision rule:'' @
     [CHR 0x0A, CHR 0x0A] @ ''`'' @ check @ ''`'' @ [CHR 0x0A, CHR 0x0A] @ ''exit code: '' @ itoa exitCode @ [CHR 0x0A] @
     (if TrimSpace out \<noteq> [] then
        [CHR 0x0A] @ ''output:'' @ [CHR 0x0A] @ fence @ [CHR 0x0A] @ out @ [CHR 0x0A] @ fence @ [CHR 0x0A]
      else [])"

datatype gate_event = RanCheck string | RanClaude "string list" string

record gate_env =
  ge_sources :: skill_sources
  ge_check :: "string \<Rightarrow> proc_result"
  ge_claude :: "string list \<Rightarrow> string \<Rightarrow> string option"
  ge_json :: "string \<Rightarrow> GateDecisionOutput option"

record dispatcher =
  dp_Model :: string
  dp_ReadOnly :: bool

definition run_claude ::
  "gate_env \<Rightarrow> string list \<Rightarrow> string \<Rightarrow> gate_event list \<times> (gate_error + GateDecisionOutput)" where
  "run_claude env args stdin =
     ([RanClaude args stdin],
      case ge_claude env args stdin of
        None \<Rightarrow> Inl SubprocessFailed
      | Some out \<Rightarrow> ParseGateOutput (ge_json env) out)"

definition Dispatch ::
  "gate_env \<Rightarrow> dispatcher \<Rightarrow> string \<Rightarrow> string \<Rightarrow> gate_event list \<times> (gate_error + GateDecisionOutput)" where
  "Dispatch env c skillName payload =
     (if TrimSpace skillName = [] then ([], Inl SkillNameRequired)
      else case resolveSkillEmbedLocalServer (ge_sources env) skillName of
        Inl e \<Rightarrow> ([], Inl e)
      | Inr (fm, systemPrompt) \<Rightarrow>
          (let check = TrimSpace (fm_Check fm) in
           if dp_ReadOnly c then
             run_claude env (claudeArgs (systemPrompt @ validateOnlyDirective) readOnlyGateAllowedTools (dp_Model c)) payload
           else if check \<noteq> [] then
             (let (code, out) = runGateCheck (ge_check env check);
                  (tr, r) = run_claude env (claudeArgs (appendFunctionalCheck systemPrompt check code out)
                              gateAllowedTools (dp_Model c)) payload
              in (RanCheck check # tr, r))
           else run_claude env (claudeArgs systemPrompt gateAllowedTools (dp_Model c)) payload))"

definition ReviewContent ::
  "gate_env \<Rightarrow> dispatcher \<Rightarrow> string \<Rightarrow> (string \<Rightarrow> string) \<Rightarrow> string \<Rightarrow> gate_event list \<times> (gate_error + GateDecisionOutput)" where
  "ReviewContent env c skillName wrap content =
     (if TrimSpace skillName = [] then ([], Inl SkillNameRequired)
      else case resolveSkillEmbedLocalServer (ge_sources env) skillName of
        Inl e \<Rightarrow> ([], Inl e)
      | Inr (fm, systemPrompt) \<Rightarrow>
          run_claude env (claudeArgs systemPrompt gateAllowedTools (dp_Model c)) (wrap content))"

section \<open>Lemmas\<close>

text \<open>Where the blocks lie: in order, disjoint, each from an opening to the balancing brace.\<close>

fun interleave :: "string list \<Rightarrow> string list \<Rightarrow> string" where
  "interleave (g # gs) (b # bs) = g @ b @ interleave gs bs"
| "interleave (g # gs) [] = g"
| "interleave [] bs = concat bs"

definition is_block :: "string \<Rightarrow> bool" where
  "is_block b \<longleftrightarrow> b \<noteq> [] \<and> hd b = CHR ''{'' \<and> scan_block 0 False False b = Some (length b)"

lemma scan_block_take: "scan_block d q e s = Some n \<Longrightarrow> scan_block d q e (take n s) = Some n"
  by (induction d q e s arbitrary: n rule: scan_block.induct) (auto split: if_splits)

lemma scan_block_append: "scan_block d q e s = Some n \<Longrightarrow> scan_block d q e (s @ t) = Some n"
  by (induction d q e s arbitrary: n rule: scan_block.induct) (auto split: if_splits)

lemma balanced_interleave:
  "\<exists>gs. length gs = Suc (length (balancedObjects s)) \<and> s = interleave gs (balancedObjects s) \<and>
     (\<forall>b \<in> set (balancedObjects s). is_block b)"
proof (induction s rule: balancedObjects.induct)
  case 1
  show ?case by (intro exI [of _ "[[]]"]) simp
next
  case (2 c cs)
  have skip: ?case if "balancedObjects (c # cs) = balancedObjects cs" and
    "\<exists>gs. length gs = Suc (length (balancedObjects cs)) \<and> cs = interleave gs (balancedObjects cs) \<and>
       (\<forall>b \<in> set (balancedObjects cs). is_block b)"
  proof -
    from that(2) obtain gs where gs: "length gs = Suc (length (balancedObjects cs))"
      "cs = interleave gs (balancedObjects cs)" "\<forall>b \<in> set (balancedObjects cs). is_block b" by blast
    then obtain g gs' where g: "gs = g # gs'" by (cases gs) auto
    have "c # cs = interleave ((c # g) # gs') (balancedObjects cs)"
      using gs(2) unfolding g by (cases "balancedObjects cs") auto
    then show ?thesis using gs g unfolding that(1) by (intro exI [of _ "(c # g) # gs'"]) simp
  qed
  show ?case
  proof (cases "c = CHR ''{''")
    case False
    then show ?thesis using skip 2(1) by simp
  next
    case brace: True
    show ?thesis
    proof (cases "scan_block 0 False False (c # cs)")
      case None
      then show ?thesis using skip brace 2(2) by simp
    next
      case (Some n)
      let ?r = "balancedObjects (drop n (c # cs))"
      obtain gs where gs: "length gs = Suc (length ?r)" "drop n (c # cs) = interleave gs ?r"
        "\<forall>b \<in> set ?r. is_block b"
        using 2(3) [OF _ Some] brace by auto
      have b: "balancedObjects (c # cs) = take n (c # cs) # ?r"
        using brace Some by (simp del: scan_block.simps)
      have n: "1 \<le> n" "n \<le> length (c # cs)" using scan_block_bounds [OF Some] by auto
      have "is_block (take n (c # cs))"
        using scan_block_take [OF Some] n brace by (auto simp: is_block_def hd_take min_def)
      moreover have "c # cs = interleave ([] # gs) (take n (c # cs) # ?r)"
        using gs(2) by (simp del: take_Suc_Cons drop_Suc_Cons)
      ultimately show ?thesis unfolding b using gs by (intro exI [of _ "[] # gs"]) simp
    qed
  qed
qed

lemma balanced_prose: "CHR ''{'' \<notin> set g \<Longrightarrow> balancedObjects (g @ s) = balancedObjects s"
  by (induction g) auto

lemma balanced_block: "is_block b \<Longrightarrow> balancedObjects (b @ s) = b # balancedObjects s"
proof -
  assume b: "is_block b"
  then obtain cs where c: "b = CHR ''{'' # cs" by (cases b) (auto simp: is_block_def)
  have "scan_block 0 False False (b @ s) = Some (length b)"
    using b scan_block_append by (simp add: is_block_def)
  then show ?thesis unfolding c by (simp del: scan_block.simps)
qed

definition valid_out :: "(string \<Rightarrow> GateDecisionOutput option) \<Rightarrow> string \<Rightarrow> GateDecisionOutput option" where
  "valid_out unmarshal b = (case unmarshal b of
     Some out \<Rightarrow> (if go_Decision out = GateDecisionAccept \<or> go_Decision out = GateDecisionReject then Some out else None)
   | None \<Rightarrow> None)"

lemma pick_decision_found:
  "fst (pick_decision unmarshal found bad bs) =
     (case List.map_filter (valid_out unmarshal) bs of [] \<Rightarrow> found | outs \<Rightarrow> Some (last outs))"
proof (induction unmarshal found bad bs rule: pick_decision.induct)
  case (2 unmarshal found bad b bs)
  show ?case
  proof (cases "unmarshal b")
    case None
    then show ?thesis using 2(1) by (simp add: List.map_filter_simps valid_out_def)
  next
    case (Some out)
    then show ?thesis using 2(2-4) by (auto simp: List.map_filter_simps valid_out_def split: list.splits)
  qed
qed (simp add: List.map_filter_simps)

lemma ParseGateOutput_eq:
  "(\<exists>out. ParseGateOutput unmarshal raw = Inr out) \<longleftrightarrow>
     List.map_filter (valid_out unmarshal) (balancedObjects (strip_fence (TrimSpace raw))) \<noteq> []"
  "ParseGateOutput unmarshal raw = Inr out \<Longrightarrow>
     out = last (List.map_filter (valid_out unmarshal) (balancedObjects (strip_fence (TrimSpace raw))))"
  using pick_decision_found [of unmarshal None "[]" "balancedObjects (strip_fence (TrimSpace raw))"]
  by (auto simp: ParseGateOutput_def Let_def split_beta split: list.splits option.splits if_splits)

lemma interleave_block:
  "length gs = Suc (length bs) \<Longrightarrow> b \<in> set bs \<Longrightarrow> \<exists>x y. interleave gs bs = x @ b @ y"
proof (induction gs bs rule: interleave.induct)
  case (1 g gs b' bs)
  show ?case
  proof (cases "b = b'")
    case True
    then show ?thesis by (intro exI [of _ g] exI [of _ "interleave gs bs"]) simp
  next
    case False
    then obtain x y where "interleave gs bs = x @ b @ y" using 1 by auto
    then show ?thesis by (intro exI [of _ "g @ b' @ x"] exI [of _ y]) simp
  qed
qed auto

lemma last_map_filter:
  "List.map_filter f xs \<noteq> [] \<Longrightarrow>
   \<exists>pre x post. xs = pre @ x # post \<and> f x = Some (last (List.map_filter f xs)) \<and> (\<forall>z \<in> set post. f z = None)"
proof (induction xs rule: rev_induct)
  case (snoc x xs)
  have a: "List.map_filter f (xs @ [x]) = List.map_filter f xs @ (case f x of None \<Rightarrow> [] | Some y \<Rightarrow> [y])"
    by (simp add: List.map_filter_def split: option.split)
  show ?case
  proof (cases "f x")
    case None
    then obtain pre z post where "xs = pre @ z # post" "f z = Some (last (List.map_filter f xs))" "\<forall>u \<in> set post. f u = None"
      using snoc a by auto
    then show ?thesis using a None by (intro exI [of _ pre] exI [of _ z] exI [of _ "post @ [x]"]) auto
  next
    case (Some y)
    then show ?thesis using a by (intro exI [of _ xs] exI [of _ x] exI [of _ "[]"]) auto
  qed
qed (simp add: List.map_filter_simps)

section \<open>Properties\<close>

text \<open>A decoder of the two verdict objects, for the witnesses.\<close>

definition reject_object :: string where
  "reject_object = ''{'' @ [CHR 0x22] @ ''decision'' @ [CHR 0x22] @ '':'' @ [CHR 0x22] @ ''reject}'' @ [CHR 0x22] @ ''}''"

definition sample_json :: "string \<Rightarrow> GateDecisionOutput option" where
  "sample_json b = (if b = reject_object then Some \<lparr>go_Decision = ''reject'', go_Notes = []\<rparr> else None)"

text \<open>The judged text stands in the output.\<close>

lemma trim_with_tail: "\<exists>u. s = u @ trim_with f s"
proof (induction f s rule: trim_with.induct)
  case (2 f c cs)
  then show ?case by (auto split: nat.split) (metis append_Cons append_take_drop_id append.assoc)+
qed simp

lemma trim_inside: "\<exists>u v. s = u @ TrimSpace s @ v"
proof -
  obtain u where u: "s = u @ trim_with space_len s" using trim_with_tail by blast
  obtain v where "rev (trim_with space_len s) = v @ trim_with space_len_rev (rev (trim_with space_len s))" using trim_with_tail by blast
  then have "trim_with space_len s = TrimSpace s @ rev v" unfolding TrimSpace_def by (metis rev_append rev_rev_ident)
  then show ?thesis using u by metis
qed

lemma judged_inside: "\<exists>u v. raw = u @ strip_fence (TrimSpace raw) @ v"
proof (cases "HasPrefix (TrimSpace raw) fence")
  case True
  let ?s = "TrimSpace raw"
  let ?s1 = "(case Index ?s [CHR 0x0A] of Some nl \<Rightarrow> drop (nl + 1) ?s | None \<Rightarrow> ?s)"
  let ?s2 = "(case LastIndex ?s1 fence of Some e \<Rightarrow> take e ?s1 | None \<Rightarrow> ?s1)"
  obtain u v where r: "raw = u @ ?s @ v" using trim_inside by blast
  obtain u1 where s: "?s = u1 @ ?s1" by (cases "Index ?s [CHR 0x0A]") (auto intro: append_take_drop_id [symmetric])
  obtain v1 where s1: "?s1 = ?s2 @ v1" by (cases "LastIndex ?s1 fence") (auto intro: append_take_drop_id [symmetric])
  obtain u2 v2 where s2: "?s2 = u2 @ TrimSpace ?s2 @ v2" using trim_inside by blast
  have "strip_fence ?s = TrimSpace ?s2" using True by (simp add: strip_fence_def Let_def)
  then show ?thesis using r s s1 s2 by (metis append.assoc)
next
  case False
  then show ?thesis using trim_inside [of raw] by (simp add: strip_fence_def)
qed

text \<open>
  C24: a verdict is never made up. What is judged is the trimmed output, or, when it opens with a code fence, what stands between the opening line
  and the last fence. The verdict that is returned is the decoded content of a balanced object that stands in that text, and so in the output; its
  decision is accept or reject, and no later object of that text decodes to a decision. What follows the last fence is not judged.
\<close>

theorem verdict_sound:
  assumes "ParseGateOutput unmarshal raw = Inr out"
  shows "(strip_fence (TrimSpace raw) = TrimSpace raw \<or> HasPrefix (TrimSpace raw) fence) \<and>
   (\<exists>pre b post x y u v. balancedObjects (strip_fence (TrimSpace raw)) = pre @ b # post \<and>
     strip_fence (TrimSpace raw) = x @ b @ y \<and> raw = u @ b @ v \<and> is_block b \<and> unmarshal b = Some out \<and>
     (go_Decision out = ''accept'' \<or> go_Decision out = ''reject'') \<and>
     (\<forall>b' \<in> set post. valid_out unmarshal b' = None))"
proof -
  let ?s = "strip_fence (TrimSpace raw)"
  have ne: "List.map_filter (valid_out unmarshal) (balancedObjects ?s) \<noteq> []"
    using ParseGateOutput_eq(1) assms by blast
  obtain pre b post where b: "balancedObjects ?s = pre @ b # post"
    "valid_out unmarshal b = Some out" "\<forall>z \<in> set post. valid_out unmarshal z = None"
    using last_map_filter [OF ne] ParseGateOutput_eq(2) [OF assms] by auto
  obtain gs where gs: "length gs = Suc (length (balancedObjects ?s))" "?s = interleave gs (balancedObjects ?s)"
    "\<forall>b \<in> set (balancedObjects ?s). is_block b" using balanced_interleave by blast
  have "b \<in> set (balancedObjects ?s)" using b(1) by simp
  then obtain x y where xy: "?s = x @ b @ y" using interleave_block [OF gs(1)] gs(2) by metis
  obtain u v where uv: "raw = u @ ?s @ v" using judged_inside by blast
  have "raw = u @ (x @ b @ y) @ v" using uv unfolding xy .
  then have "raw = (u @ x) @ b @ (y @ v)" by (simp only: append.assoc)
  moreover have "?s = TrimSpace raw \<or> HasPrefix (TrimSpace raw) fence" by (simp add: strip_fence_def)
  moreover have "is_block b" using gs(3) b(1) by simp
  moreover have "unmarshal b = Some out" "go_Decision out = ''accept'' \<or> go_Decision out = ''reject''"
    using b(2) by (auto simp: valid_out_def GateDecisionAccept_def GateDecisionReject_def split: option.splits if_splits)
  ultimately show ?thesis using b(1,3) xy by blast
qed

theorem verdict_sound_witness:
  "\<exists>pre b post. balancedObjects (strip_fence (TrimSpace (''see {a,b} '' @ reject_object))) = pre @ b # post \<and>
     sample_json b = Some \<lparr>go_Decision = ''reject'', go_Notes = []\<rparr>"
proof -
  have "ParseGateOutput sample_json (''see {a,b} '' @ reject_object) = Inr \<lparr>go_Decision = ''reject'', go_Notes = []\<rparr>"
    by code_simp
  from verdict_sound [OF this] show ?thesis by blast
qed

text \<open>
  A reject behind the fence is lost: when the output opens with a fenced accept and goes on with a reject, the verdict is accept, although the
  reject is the last object of the output.
\<close>

definition accept_object :: string where
  "accept_object = ''{'' @ [CHR 0x22] @ ''decision'' @ [CHR 0x22] @ '':'' @ [CHR 0x22] @ ''accept'' @ [CHR 0x22] @ ''}''"

definition both_json :: "string \<Rightarrow> GateDecisionOutput option" where
  "both_json b = (if b = reject_object then Some \<lparr>go_Decision = ''reject'', go_Notes = []\<rparr>
     else if b = accept_object then Some \<lparr>go_Decision = ''accept'', go_Notes = []\<rparr> else None)"

lemma reject_behind_fence_lost:
  "ParseGateOutput both_json (fence @ [CHR 0x0A] @ accept_object @ [CHR 0x0A] @ fence @ [CHR 0x0A] @ reject_object) =
     Inr \<lparr>go_Decision = ''accept'', go_Notes = []\<rparr>"
  "last (balancedObjects (fence @ [CHR 0x0A] @ accept_object @ [CHR 0x0A] @ fence @ [CHR 0x0A] @ reject_object)) = reject_object"
  by code_simp+

text \<open>
  A verdict is never lost in prose: an object that decodes to a decision is found between prose
  without an opening brace, also when the object's strings hold braces.
\<close>

theorem verdict_found:
  assumes "TrimSpace raw = g @ b @ h" and "\<not> HasPrefix (g @ b @ h) fence" and "CHR ''{'' \<notin> set g"
    and "CHR ''{'' \<notin> set h" and "is_block b" and "unmarshal b = Some out"
    and "go_Decision out = ''accept'' \<or> go_Decision out = ''reject''"
  shows "ParseGateOutput unmarshal raw = Inr out"
proof -
  have "balancedObjects h = []" using balanced_prose [OF assms(4), of "[]"] by simp
  then have bl: "balancedObjects (strip_fence (TrimSpace raw)) = [b]"
    using balanced_prose [OF assms(3)] balanced_block [OF assms(5), of h] assms(1,2) by (simp add: strip_fence_def)
  have "List.map_filter (valid_out unmarshal) [b] = [out]"
    using assms(6,7)
    by (auto simp: List.map_filter_simps valid_out_def GateDecisionAccept_def GateDecisionReject_def)
  then show ?thesis using ParseGateOutput_eq [of unmarshal raw] unfolding bl by fastforce
qed

theorem verdict_found_witness:
  "ParseGateOutput sample_json (''I think: '' @ reject_object @ '' done.'') = Inr \<lparr>go_Decision = ''reject'', go_Notes = []\<rparr>"
proof -
  have "TrimSpace (''I think: '' @ reject_object @ '' done.'') = ''I think: '' @ reject_object @ '' done.''"
    "\<not> HasPrefix (''I think: '' @ reject_object @ '' done.'') fence"
    "CHR ''{'' \<notin> set ''I think: ''" "CHR ''{'' \<notin> set '' done.''"
    "sample_json reject_object = Some \<lparr>go_Decision = ''reject'', go_Notes = []\<rparr>"
    by code_simp+
  moreover have "is_block reject_object" unfolding is_block_def by code_simp
  ultimately show ?thesis using verdict_found [of _ "''I think: ''" reject_object "'' done.''"] by simp
qed

text \<open>
  A validate-only dispatch cannot enact: whatever the gate's file declares, no check command is
  run and the subprocess is started at most once, with the tool list that leaves out Bash.
\<close>

theorem read_only_dispatch:
  assumes "dp_ReadOnly c"
  shows "fst (Dispatch env c skillName payload) = [] \<or>
    (\<exists>prompt. fst (Dispatch env c skillName payload) =
       [RanClaude (claudeArgs prompt ''Read Grep Glob'' (dp_Model c)) payload])"
  using assms
  by (auto simp: Dispatch_def run_claude_def readOnlyGateAllowedTools_def Let_def split: sum.splits)

definition sample_env :: gate_env where
  "sample_env = \<lparr>ge_sources = \<lparr>ss_yaml = (\<lambda>b. Some (zeroFrontmatter\<lparr>fm_Check := ''make''\<rparr>)), ss_local = (\<lambda>n. FileAbsent),
      ss_embed = (\<lambda>n. Some ''judge''), ss_fetch = None\<rparr>, ge_check = (\<lambda>c. ProcOk []),
     ge_claude = (\<lambda>a s. Some reject_object), ge_json = sample_json\<rparr>"

theorem read_only_dispatch_witness:
  "\<exists>prompt. fst (Dispatch sample_env \<lparr>dp_Model = [], dp_ReadOnly = True\<rparr> ''g'' []) =
     [RanClaude (claudeArgs prompt ''Read Grep Glob'' []) []]"
proof -
  have "fst (Dispatch sample_env \<lparr>dp_Model = [], dp_ReadOnly = True\<rparr> ''g'' []) \<noteq> []" by code_simp
  then show ?thesis using read_only_dispatch [of "\<lparr>dp_Model = [], dp_ReadOnly = True\<rparr>" sample_env "''g''" "[]"] by simp
qed

text \<open>
  The source chain of a gate: a local copy decides alone (also when it is unreadable or does not
  parse), else the embedded copy decides alone, and the server is asked only for a name that neither
  holds; a validator finds a gate resolvable exactly when the dispatcher resolves it.
\<close>

theorem gate_resolution_order:
  "resolveSkillEmbedLocalServer src n =
     (case ss_local src n of
        FileOk raw \<Rightarrow> parse_gate src raw
      | FileError \<Rightarrow> Inl GateReadFailed
      | FileAbsent \<Rightarrow>
          (case (ss_embed src n, ss_fetch src) of
             (Some raw, _) \<Rightarrow> parse_gate src raw
           | (None, None) \<Rightarrow> Inl GateAbsent
           | (None, Some fetch) \<Rightarrow>
               (case fetch n of Fetched raw \<Rightarrow> parse_gate src raw | NotHeld \<Rightarrow> Inl NoSource
                              | TransportError \<Rightarrow> Inl FetchFailed)))
   \<and> GateResolvable src n = (IsReviewer src n \<noteq> None)"
proof -
  have "parse_gate src raw \<noteq> Inl GateAbsent" for raw
    by (simp add: parse_gate_def split: sum.split)
  then have p: "(case parse_gate src raw of Inl e \<Rightarrow> if e \<noteq> GateAbsent then Inl e else f e | Inr r \<Rightarrow> Inr r)
      = parse_gate src raw" for raw f
    by (cases "parse_gate src raw") auto
  show ?thesis
    by (cases "ss_local src n"; cases "ss_embed src n"; cases "ss_fetch src")
      (auto simp: resolveSkillEmbedLocalServer_def resolveGateSkill_def p GateResolvable_def IsReviewer_def
        split: sum.splits fetch_result.splits)
qed

end
