(* ===== verification/Tables.thy ===== *)
theory Tables
  imports Prelude
begin

text \<open>
  The database tables the stores read and write: a table is the list of its rows, with a key
  function. The statements the stores issue are the generic operations here: the select of a
  key, the upsert (\<open>ON CONFLICT DO UPDATE\<close>), the update of the matching rows with the
  number of rows affected, the delete, and the ordered select.
\<close>

definition row_at :: "('r \<Rightarrow> 'k) \<Rightarrow> 'k \<Rightarrow> 'r list \<Rightarrow> 'r option" where
  "row_at key k rows = find (\<lambda>r. key r = k) rows"

definition upsert_row :: "('r \<Rightarrow> 'k) \<Rightarrow> ('r \<Rightarrow> 'r) \<Rightarrow> 'r \<Rightarrow> 'r list \<Rightarrow> 'r list" where
  "upsert_row key f r rows =
     (if list_ex (\<lambda>x. key x = key r) rows then map (\<lambda>x. if key x = key r then f x else x) rows
      else rows @ [r])"

definition update_rows :: "('r \<Rightarrow> bool) \<Rightarrow> ('r \<Rightarrow> 'r) \<Rightarrow> 'r list \<Rightarrow> 'r list \<times> nat" where
  "update_rows P f rows = (map (\<lambda>x. if P x then f x else x) rows, length (filter P rows))"

definition delete_rows :: "('r \<Rightarrow> bool) \<Rightarrow> 'r list \<Rightarrow> 'r list \<times> nat" where
  "delete_rows P rows = (filter (\<lambda>x. \<not> P x) rows, length (filter P rows))"

definition unique_key :: "('r \<Rightarrow> 'k) \<Rightarrow> 'r list \<Rightarrow> bool" where
  "unique_key key rows = distinct (map key rows)"

lemma row_at_simps [simp]:
  "row_at key k [] = None"
  "row_at key k (r # rs) = (if key r = k then Some r else row_at key k rs)"
  by (auto simp: row_at_def)

lemma row_at_append [simp]:
  "row_at key k (rs @ ss) = (case row_at key k rs of Some r \<Rightarrow> Some r | None \<Rightarrow> row_at key k ss)"
  by (induction rs) auto

lemma row_at_Some: "row_at key k rows = Some r \<Longrightarrow> r \<in> set rows \<and> key r = k"
  by (induction rows) (auto split: if_splits)

lemma row_at_None: "row_at key k rows = None \<longleftrightarrow> (\<forall>r \<in> set rows. key r \<noteq> k)"
  by (induction rows) auto

lemma row_at_map_keep:
  "(\<And>r. key (f r) = key r) \<Longrightarrow>
     row_at key k (map (\<lambda>x. if P x then f x else x) rows)
       = map_option (\<lambda>x. if P x then f x else x) (row_at key k rows)"
  by (induction rows) auto

lemma row_at_filter_other:
  "(\<And>r. r \<in> set rows \<Longrightarrow> key r = k \<Longrightarrow> P r) \<Longrightarrow> row_at key k (filter P rows) = row_at key k rows"
  by (induction rows) auto

lemma row_at_map_other:
  "(\<And>x. key x = k' \<Longrightarrow> key (f x) = k') \<Longrightarrow> k \<noteq> k' \<Longrightarrow>
     row_at key k (map (\<lambda>x. if key x = k' then f x else x) rows) = row_at key k rows"
  by (induction rows) auto

lemma row_at_map_at:
  "(\<And>x. key x = k \<Longrightarrow> key (f x) = k) \<Longrightarrow>
     row_at key k (map (\<lambda>x. if key x = k then f x else x) rows) = map_option f (row_at key k rows)"
  by (induction rows) auto

lemma row_at_upsert:
  assumes "\<And>x. key x = key r \<Longrightarrow> key (f x) = key r"
  shows "row_at key k (upsert_row key f r rows) =
    (if k = key r then Some (case row_at key k rows of None \<Rightarrow> r | Some x \<Rightarrow> f x) else row_at key k rows)"
proof (cases "list_ex (\<lambda>x. key x = key r) rows")
  case True
  then have "row_at key (key r) rows \<noteq> None" by (auto simp: row_at_None list_ex_iff)
  with True show ?thesis
    using row_at_map_other [of key "key r" f k rows] row_at_map_at [of key "key r" f rows] assms
    by (auto simp: upsert_row_def)
next
  case False
  then have "row_at key (key r) rows = None" by (auto simp: row_at_None list_ex_iff)
  with False show ?thesis
    by (cases "row_at key k rows"; cases "k = key r") (simp_all add: upsert_row_def)
qed

lemma row_at_update:
  assumes "\<And>r. key (f r) = key r"
  shows "row_at key k (fst (update_rows P f rows)) = map_option (\<lambda>x. if P x then f x else x) (row_at key k rows)"
  by (simp add: update_rows_def row_at_map_keep assms)

lemma update_rows_count: "0 < snd (update_rows P f rows) \<longleftrightarrow> (\<exists>r \<in> set rows. P r)"
  by (auto simp: update_rows_def filter_empty_conv length_greater_0_conv simp del: length_greater_0_conv)

lemma row_at_delete:
  "row_at key k (fst (delete_rows (\<lambda>r. key r = k') rows)) = (if k = k' then None else row_at key k rows)"
  by (induction rows) (auto simp: delete_rows_def)

lemma delete_rows_count: "0 < snd (delete_rows P rows) \<longleftrightarrow> (\<exists>r \<in> set rows. P r)"
  by (auto simp: delete_rows_def filter_empty_conv)

lemma set_upsert:
  "r' \<in> set (upsert_row key f r rows) \<Longrightarrow> r' = r \<or> r' \<in> set rows \<or> (\<exists>x \<in> set rows. key x = key r \<and> r' = f x)"
  by (auto simp: upsert_row_def split: if_splits)

lemma unique_key_upsert:
  assumes "unique_key key rows" and "\<And>x. key x = key r \<Longrightarrow> key (f x) = key r"
  shows "unique_key key (upsert_row key f r rows)"
proof (cases "list_ex (\<lambda>x. key x = key r) rows")
  case True
  have "map key (map (\<lambda>x. if key x = key r then f x else x) rows) = map key rows" using assms(2) by simp
  then show ?thesis using True assms(1) by (simp only: upsert_row_def unique_key_def if_True)
next
  case False
  then show ?thesis using assms(1) by (auto simp: upsert_row_def unique_key_def list_ex_iff)
qed

lemma unique_key_filter: "unique_key key rows \<Longrightarrow> unique_key key (filter P rows)"
  by (simp add: unique_key_def distinct_map_filter)

lemma unique_key_update:
  "(\<And>r. key (f r) = key r) \<Longrightarrow> unique_key key rows \<Longrightarrow> unique_key key (fst (update_rows P f rows))"
  by (simp add: unique_key_def update_rows_def comp_def if_distrib cong: if_cong)

lemma unique_key_Cons: "unique_key key (x # xs) \<longleftrightarrow> (\<forall>y \<in> set xs. key y \<noteq> key x) \<and> unique_key key xs"
  unfolding unique_key_def by (simp add: image_iff) metis

text \<open>A row is found at its key.\<close>

lemma row_at_unique: "unique_key key rows \<Longrightarrow> r \<in> set rows \<Longrightarrow> row_at key (key r) rows = Some r"
  by (induction rows) (auto simp: unique_key_def)

text \<open>With a unique key, a count over the rows changes by what happens at one key.\<close>

lemma filter_single_key:
  assumes "unique_key key rows" and "row_at key k rows = Some r" and "Q r"
  shows "length (filter Q (filter (\<lambda>x. key x \<noteq> k) rows)) + 1 = length (filter Q rows)"
  using assms
proof (induction rows)
  case (Cons x xs)
  show ?case
  proof (cases "key x = k")
    case True
    have "k \<notin> key ` set xs" using True Cons.prems(1) by (simp add: unique_key_def)
    then have "filter (\<lambda>y. key y \<noteq> k) xs = xs" by (intro filter_True) blast
    then show ?thesis using True Cons.prems by simp
  next
    case False
    then show ?thesis using Cons by (auto simp: unique_key_def)
  qed
qed simp

lemma filter_no_key: "row_at key k rows = None \<Longrightarrow> filter (\<lambda>x. key x \<noteq> k) rows = rows"
  by (auto simp: row_at_None filter_id_conv)

lemma count_split:
  assumes "unique_key key rows"
  shows "length (filter Q rows) = length (filter Q (filter (\<lambda>x. key x \<noteq> k) rows)) +
    (case row_at key k rows of Some r \<Rightarrow> (if Q r then 1 else 0) | None \<Rightarrow> 0)"
proof (cases "row_at key k rows")
  case (Some r)
  show ?thesis
  proof (cases "Q r")
    case False
    have "Q x \<longrightarrow> key x \<noteq> k" if "x \<in> set rows" for x
      using row_at_unique [OF assms that] Some False by auto
    then have "filter Q (filter (\<lambda>x. key x \<noteq> k) rows) = filter Q rows"
      by (auto intro!: filter_cong)
    then show ?thesis using Some False by simp
  qed (use Some filter_single_key [OF assms Some] in simp)
qed (simp add: filter_no_key)

lemma filter_update_other:
  "(\<And>r. key (f r) = key r) \<Longrightarrow>
   filter (\<lambda>x. key x \<noteq> k) (fst (update_rows (\<lambda>r. key r = k) f rows)) = filter (\<lambda>x. key x \<noteq> k) rows"
  by (induction rows) (auto simp: update_rows_def)

lemma filter_upsert_other:
  assumes "\<And>x. key x = key r \<Longrightarrow> key (f x) = key r"
  shows "filter (\<lambda>x. key x \<noteq> key r) (upsert_row key f r rows) = filter (\<lambda>x. key x \<noteq> key r) rows"
proof -
  have "filter (\<lambda>x. key x \<noteq> key r) (map (\<lambda>x. if key x = key r then f x else x) rows)
      = filter (\<lambda>x. key x \<noteq> key r) rows"
    using assms by (induction rows) auto
  then show ?thesis by (simp add: upsert_row_def)
qed

lemma filter_delete_key: "fst (delete_rows (\<lambda>r. key r = k) rows) = filter (\<lambda>x. key x \<noteq> k) rows"
  by (simp add: delete_rows_def)

section \<open>Logs\<close>

text \<open>
  A log that only grows: whatever operation is run, the rows of the log stay where they are and new
  rows come after them with larger sequence numbers. A reader that has read up to a mark finds
  behind the mark exactly what was appended since.
\<close>

locale append_only_log =
  fixes step :: "'op \<Rightarrow> 's \<Rightarrow> 's" and log :: "'s \<Rightarrow> (int \<times> 'r) list" and ok :: "'s \<Rightarrow> bool"
  assumes ok_step: "ok s \<Longrightarrow> ok (step op s)"
    and grows: "ok s \<Longrightarrow> \<exists>new. log (step op s) = log s @ new"
    and ordered: "ok s \<Longrightarrow> sorted_wrt (<) (map fst (log s))"
begin

lemma ok_run: "ok s \<Longrightarrow> ok (fold step ops s)"
  by (induction ops arbitrary: s) (auto intro: ok_step)

lemma run_grows: "ok s \<Longrightarrow> \<exists>new. log (fold step ops s) = log s @ new"
proof (induction ops arbitrary: s)
  case (Cons op ops)
  obtain n where "log (step op s) = log s @ n" using grows Cons.prems by blast
  moreover obtain m where "log (fold step ops (step op s)) = log (step op s) @ m"
    using Cons.IH [OF ok_step] Cons.prems by blast
  ultimately show ?case by simp
qed simp

lemma kept: "ok s \<Longrightarrow> set (log s) \<subseteq> set (log (fold step ops s))"
proof -
  assume "ok s"
  from run_grows [OF this, of ops] obtain new where "log (fold step ops s) = log s @ new" by blast
  then show ?thesis by simp
qed

lemma behind_mark:
  assumes "ok s" and "log s = pre @ [(q, r)]"
  shows "\<exists>new. log (fold step ops s) = log s @ new \<and> filter (\<lambda>x. q < fst x) (log (fold step ops s)) = new"
proof -
  obtain new where n: "log (fold step ops s) = log s @ new" using run_grows [OF assms(1)] by blast
  have "sorted_wrt (<) (map fst (log s @ new))" using ordered [OF ok_run [OF assms(1)], of ops] n by simp
  then have "\<forall>x \<in> set new. q < fst x" "\<forall>x \<in> set (log s). \<not> q < fst x"
    using assms(2) by (auto simp: sorted_wrt_append not_less less_imp_le)
  then have "filter (\<lambda>x. q < fst x) (log s @ new) = new" by (simp add: filter_id_conv)
  then show ?thesis using n by auto
qed

lemma seq_names_row: "ok s \<Longrightarrow> (q, r) \<in> set (log s) \<Longrightarrow> (q, r') \<in> set (log s) \<Longrightarrow> r = r'"
  using ordered [of s] unfolding strict_sorted_iff distinct_map by (metis fst_conv inj_onD snd_conv)

end

end
