(* ===== verification/Workstate.thy ===== *)
theory Workstate
  imports Tables
begin

text \<open>
  The per-repository engagement store (\<^verbatim>\<open>internal/workstate\<close>): the append-only event log with
  its \<open>current\<close> projection and flush mark (\<^verbatim>\<open>store.go\<close>), the reviewer loop's inbox and claim
  (\<^verbatim>\<open>inbox.go\<close>), the evidence trail (\<^verbatim>\<open>evidence.go\<close>), the context budget (\<^verbatim>\<open>budget.go\<close>)
  and the marker of a running gate. Each operation is one transaction of the store. A time is the
  number of nanoseconds since the epoch, \<^const>\<open>None\<close> the zero time; a time stored as RFC 3339 text
  keeps whole seconds, and \<^const>\<open>None\<close> is the empty text. A failing database is not modelled; the
  clock read by an operation is its argument \<open>clock\<close>.
\<close>

type_synonym gotime = "int option"

definition second :: int where "second = 1000000000"

definition rfc3339OrEmpty :: "gotime \<Rightarrow> int option" where
  "rfc3339OrEmpty t = map_option (\<lambda>n. n div second) t"

definition parseRFC3339 :: "int option \<Rightarrow> gotime" where
  "parseRFC3339 s = map_option (\<lambda>n. n * second) s"

definition or_clock :: "int \<Rightarrow> gotime \<Rightarrow> int" where
  "or_clock clock t = (case t of None \<Rightarrow> clock | Some n \<Rightarrow> n)"

section \<open>Tables with an autoincrement key\<close>

text \<open>\<open>ai_last\<close> is the largest key ever given: a key is not given again after its row is deleted.\<close>

record 'r autoinc =
  ai_rows :: "(int \<times> 'r) list"
  ai_last :: int

definition ai_empty :: "'r autoinc" where
  "ai_empty = \<lparr>ai_rows = [], ai_last = 0\<rparr>"

definition ai_insert :: "'r \<Rightarrow> 'r autoinc \<Rightarrow> int \<times> 'r autoinc" where
  "ai_insert r t = (ai_last t + 1, \<lparr>ai_rows = ai_rows t @ [(ai_last t + 1, r)], ai_last = ai_last t + 1\<rparr>)"

definition ai_delete :: "('r \<Rightarrow> bool) \<Rightarrow> 'r autoinc \<Rightarrow> 'r autoinc" where
  "ai_delete P t = t\<lparr>ai_rows := filter (\<lambda>(q, r). \<not> P r) (ai_rows t)\<rparr>"

definition ai_update :: "('r \<Rightarrow> 'r) \<Rightarrow> 'r autoinc \<Rightarrow> 'r autoinc" where
  "ai_update f t = t\<lparr>ai_rows := map (\<lambda>(q, r). (q, f r)) (ai_rows t)\<rparr>"

definition ai_ok :: "'r autoinc \<Rightarrow> bool" where
  "ai_ok t \<longleftrightarrow> sorted_wrt (<) (map fst (ai_rows t)) \<and> (\<forall>x \<in> set (ai_rows t). 0 < fst x \<and> fst x \<le> ai_last t) \<and>
     0 \<le> ai_last t"

lemma ai_ok_empty [simp]: "ai_ok ai_empty"
  by (simp add: ai_ok_def ai_empty_def)

lemma ai_ok_insert: "ai_ok t \<Longrightarrow> ai_ok (snd (ai_insert r t))"
  by (fastforce simp: ai_ok_def ai_insert_def sorted_wrt_append)

lemma sorted_wrt_map_filter: "sorted_wrt R (map f xs) \<Longrightarrow> sorted_wrt R (map f (filter P xs))"
  by (induction xs) auto

lemma ai_ok_delete: "ai_ok t \<Longrightarrow> ai_ok (ai_delete P t)"
  by (auto simp: ai_ok_def ai_delete_def intro: sorted_wrt_map_filter)

lemma ai_ok_update: "ai_ok t \<Longrightarrow> ai_ok (ai_update f t)"
  by (auto simp: ai_ok_def ai_update_def comp_def case_prod_beta)

section \<open>The state\<close>

record Event =
  ev_Session :: string
  ev_Story :: string
  ev_Phase :: string
  ev_Kind :: string
  ev_Tags :: "string list"
  ev_LeaseUntil :: gotime
  ev_Editable :: bool
  ev_CommitReady :: bool
  ev_TS :: gotime

record event_row =
  er_session :: string
  er_story :: string
  er_phase :: string
  er_kind :: string
  er_tags :: "string list"
  er_lease :: "int option"
  er_ts :: int

record current_row =
  cu_session :: string
  cu_story :: string
  cu_phase :: string
  cu_lease :: "int option"
  cu_editable :: bool
  cu_commit_ready :: bool
  cu_updated :: int

record Engagement =
  en_Session :: string
  en_Story :: string
  en_Phase :: string
  en_LeaseUntil :: gotime
  en_Editable :: bool
  en_CommitReady :: bool
  en_UpdatedAt :: gotime

record inbox_row =
  ib_story :: string
  ib_kind :: string
  ib_body :: string
  ib_payload :: string
  ib_created :: int

record InboxMessage =
  im_Seq :: int
  im_Kind :: string
  im_Body :: string
  im_Payload :: "string option"
  im_CreatedAt :: int

record WorkClaim =
  wc_StoryID :: string
  wc_Status :: string
  wc_ClaimedBy :: string
  wc_LeaseUntil :: "int option"
  wc_LastSeq :: int

record Evidence =
  qe_Story :: string
  qe_Kind :: string
  qe_Label :: string
  qe_Decision :: string
  qe_Notes :: string
  qe_FromStatus :: string
  qe_ToStatus :: string
  qe_Ref :: string
  qe_TS :: gotime

record ContextSample =
  cs_TS :: gotime
  cs_Bytes :: int
  cs_Tokens :: int
  cs_IsBaseline :: bool
  cs_Components :: string

record ActiveGate =
  ag_Story :: string
  ag_Gate :: string
  ag_StartedAt :: int

record workstate =
  st_events :: "event_row autoinc"
  st_current :: "current_row list"
  st_flushed :: "int option"
  st_inbox :: "inbox_row autoinc"
  st_claims :: "WorkClaim list"
  st_evidence :: "Evidence autoinc"
  st_budget :: "ContextSample autoinc"
  st_gates :: "ActiveGate list"

definition migrate :: workstate where
  "migrate = \<lparr>st_events = ai_empty, st_current = [], st_flushed = None, st_inbox = ai_empty, st_claims = [],
     st_evidence = ai_empty, st_budget = ai_empty, st_gates = []\<rparr>"

datatype ws_error =
    NeedsSessionAndStory
  | NeedsKind
  | NeedsStory
  | NeedsStoryAndKind
  | NegativeBytes
  | WorkClaimed string "int option"

section \<open>Events and the projection\<close>

definition KindClose :: string where "KindClose = ''close''"

definition cu_key :: "current_row \<Rightarrow> string \<times> string" where
  "cu_key r = (cu_session r, cu_story r)"

definition upsert_current :: "current_row \<Rightarrow> current_row list \<Rightarrow> current_row list" where
  "upsert_current r = upsert_row cu_key
     (\<lambda>x. x\<lparr>cu_phase := cu_phase r, cu_lease := cu_lease r, cu_editable := cu_editable r,
            cu_commit_ready := cu_commit_ready r, cu_updated := cu_updated r\<rparr>) r"

definition WsAppend :: "int \<Rightarrow> Event \<Rightarrow> workstate \<Rightarrow> ws_error + int \<times> workstate" where
  "WsAppend clock ev s =
     (if TrimSpace (ev_Session ev) = [] \<or> TrimSpace (ev_Story ev) = [] then Inl NeedsSessionAndStory
      else if TrimSpace (ev_Kind ev) = [] then Inl NeedsKind
      else
        let ts = or_clock clock (ev_TS ev) div second;
            lease = rfc3339OrEmpty (ev_LeaseUntil ev);
            (seq, evs) = ai_insert \<lparr>er_session = ev_Session ev, er_story = ev_Story ev, er_phase = ev_Phase ev,
              er_kind = ev_Kind ev, er_tags = ev_Tags ev, er_lease = lease, er_ts = ts\<rparr> (st_events s);
            cur = (if ev_Kind ev = KindClose
                   then fst (delete_rows (\<lambda>r. cu_key r = (ev_Session ev, ev_Story ev)) (st_current s))
                   else upsert_current \<lparr>cu_session = ev_Session ev, cu_story = ev_Story ev, cu_phase = ev_Phase ev,
                     cu_lease = lease, cu_editable = ev_Editable ev, cu_commit_ready = ev_CommitReady ev,
                     cu_updated = ts\<rparr> (st_current s))
        in Inr (seq, s\<lparr>st_events := evs, st_current := cur\<rparr>))"

definition scanEngagement :: "current_row \<Rightarrow> Engagement" where
  "scanEngagement r = \<lparr>en_Session = cu_session r, en_Story = cu_story r, en_Phase = cu_phase r,
     en_LeaseUntil = parseRFC3339 (cu_lease r), en_Editable = cu_editable r,
     en_CommitReady = cu_commit_ready r, en_UpdatedAt = parseRFC3339 (Some (cu_updated r))\<rparr>"

definition WsCurrent :: "workstate \<Rightarrow> string \<Rightarrow> string \<Rightarrow> Engagement option" where
  "WsCurrent s session story = map_option scanEngagement (row_at cu_key (session, story) (st_current s))"

text \<open>Rows with the same \<open>updated_at\<close> come in table order; the query leaves their order open.\<close>

definition ListCurrent :: "workstate \<Rightarrow> Engagement list" where
  "ListCurrent s = map scanEngagement (sort_key (\<lambda>r. - cu_updated r) (st_current s))"

definition LiveEngagement :: "workstate \<Rightarrow> string \<Rightarrow> Engagement list" where
  "LiveEngagement s session =
     map scanEngagement (sort_key (\<lambda>r. - cu_updated r) (filter (\<lambda>r. cu_session r = session) (st_current s)))"

record LoggedEvent =
  le_Seq :: int
  le_Event :: Event

definition logged :: "int \<times> event_row \<Rightarrow> LoggedEvent" where
  "logged x = (case x of (q, r) \<Rightarrow> \<lparr>le_Seq = q, le_Event =
     \<lparr>ev_Session = er_session r, ev_Story = er_story r, ev_Phase = er_phase r, ev_Kind = er_kind r,
      ev_Tags = er_tags r, ev_LeaseUntil = parseRFC3339 (er_lease r), ev_Editable = False, ev_CommitReady = False,
      ev_TS = parseRFC3339 (Some (er_ts r))\<rparr>\<rparr>)"

definition EventsSince :: "workstate \<Rightarrow> int \<Rightarrow> LoggedEvent list" where
  "EventsSince s seq = map logged (filter (\<lambda>(q, r). seq < q) (ai_rows (st_events s)))"

definition LastFlushedSeq :: "workstate \<Rightarrow> int" where
  "LastFlushedSeq s = (case st_flushed s of None \<Rightarrow> 0 | Some n \<Rightarrow> n)"

definition SetLastFlushedSeq :: "int \<Rightarrow> workstate \<Rightarrow> workstate" where
  "SetLastFlushedSeq seq s = s\<lparr>st_flushed := Some seq\<rparr>"

definition IsLeaseFresh :: "Engagement \<Rightarrow> int \<Rightarrow> bool" where
  "IsLeaseFresh e now = (case en_LeaseUntil e of None \<Rightarrow> False | Some until \<Rightarrow> now < until)"

section \<open>The marker of a running gate\<close>

definition SetActiveGate :: "int \<Rightarrow> string \<Rightarrow> string \<Rightarrow> gotime \<Rightarrow> workstate \<Rightarrow> ws_error + workstate" where
  "SetActiveGate clock story gate now s =
     (if TrimSpace story = [] then Inl NeedsStory
      else let t = or_clock clock now in
        Inr (s\<lparr>st_gates := upsert_row ag_Story (\<lambda>x. x\<lparr>ag_Gate := gate, ag_StartedAt := t\<rparr>)
                 \<lparr>ag_Story = story, ag_Gate = gate, ag_StartedAt = t\<rparr> (st_gates s)\<rparr>))"

definition ClearActiveGate :: "string \<Rightarrow> workstate \<Rightarrow> workstate" where
  "ClearActiveGate story s = s\<lparr>st_gates := fst (delete_rows (\<lambda>r. ag_Story r = story) (st_gates s))\<rparr>"

definition GetActiveGate :: "workstate \<Rightarrow> string \<Rightarrow> ActiveGate option" where
  "GetActiveGate s story = row_at ag_Story story (st_gates s)"

section \<open>The inbox and the claim\<close>

definition InboxAppend ::
  "int \<Rightarrow> string \<Rightarrow> string \<Rightarrow> string \<Rightarrow> string \<Rightarrow> gotime \<Rightarrow> workstate \<Rightarrow> ws_error + int \<times> workstate" where
  "InboxAppend clock story kind body payload now s =
     (if TrimSpace story = [] \<or> TrimSpace kind = [] then Inl NeedsStoryAndKind
      else
        let (seq, t) = ai_insert \<lparr>ib_story = story, ib_kind = kind, ib_body = body, ib_payload = payload,
              ib_created = or_clock clock now div second\<rparr> (st_inbox s)
        in Inr (seq, s\<lparr>st_inbox := t\<rparr>))"

definition inbox_message :: "int \<times> inbox_row \<Rightarrow> InboxMessage" where
  "inbox_message x = (case x of (q, r) \<Rightarrow> \<lparr>im_Seq = q, im_Kind = ib_kind r, im_Body = ib_body r,
     im_Payload = (if TrimSpace (ib_payload r) \<noteq> [] then Some (ib_payload r) else None),
     im_CreatedAt = ib_created r\<rparr>)"

definition InboxReadAll :: "workstate \<Rightarrow> string \<Rightarrow> InboxMessage list" where
  "InboxReadAll s story = map inbox_message (filter (\<lambda>(q, r). ib_story r = story) (ai_rows (st_inbox s)))"

definition InboxReadRecent :: "workstate \<Rightarrow> string \<Rightarrow> int \<Rightarrow> InboxMessage list" where
  "InboxReadRecent s story n =
     (let msgs = InboxReadAll s story in
      if n > 0 \<and> int (length msgs) > n then drop (length msgs - nat n) msgs else msgs)"

definition noClaim :: WorkClaim where
  "noClaim = \<lparr>wc_StoryID = [], wc_Status = [], wc_ClaimedBy = [], wc_LeaseUntil = None, wc_LastSeq = 0\<rparr>"

definition ReadWorkClaim :: "workstate \<Rightarrow> string \<Rightarrow> WorkClaim" where
  "ReadWorkClaim s story = (case row_at wc_StoryID story (st_claims s) of None \<Rightarrow> noClaim | Some wc \<Rightarrow> wc)"

definition ClaimWork :: "string \<Rightarrow> string \<Rightarrow> string \<Rightarrow> int \<Rightarrow> int \<Rightarrow> workstate \<Rightarrow> ws_error + workstate" where
  "ClaimWork story claimedBy status lease now s =
     (if TrimSpace story = [] then Inl NeedsStory
      else
        let existing = ReadWorkClaim s story;
            held = wc_ClaimedBy existing \<noteq> [] \<and> wc_ClaimedBy existing \<noteq> claimedBy \<and>
              (case parseRFC3339 (wc_LeaseUntil existing) of None \<Rightarrow> False | Some until \<Rightarrow> now < until);
            newLease = Some ((now + lease) div second)
        in if held then Inl (WorkClaimed (wc_ClaimedBy existing) (wc_LeaseUntil existing))
           else Inr (s\<lparr>st_claims := upsert_row wc_StoryID
             (\<lambda>x. x\<lparr>wc_Status := status, wc_ClaimedBy := claimedBy, wc_LeaseUntil := newLease\<rparr>)
             \<lparr>wc_StoryID = story, wc_Status = status, wc_ClaimedBy = claimedBy, wc_LeaseUntil = newLease,
              wc_LastSeq = wc_LastSeq existing\<rparr> (st_claims s)\<rparr>))"

definition AdvanceInboxFlush :: "string \<Rightarrow> int \<Rightarrow> workstate \<Rightarrow> ws_error + workstate" where
  "AdvanceInboxFlush story seq s =
     (if TrimSpace story = [] then Inl NeedsStory
      else Inr (s\<lparr>st_claims := upsert_row wc_StoryID (\<lambda>x. x\<lparr>wc_LastSeq := max (wc_LastSeq x) seq\<rparr>)
        (noClaim\<lparr>wc_StoryID := story, wc_LastSeq := seq\<rparr>) (st_claims s)\<rparr>))"

definition CleanupWork :: "string \<Rightarrow> workstate \<Rightarrow> workstate" where
  "CleanupWork story s = s\<lparr>st_inbox := ai_delete (\<lambda>r. ib_story r = story) (st_inbox s),
     st_claims := fst (delete_rows (\<lambda>r. wc_StoryID r = story) (st_claims s))\<rparr>"

section \<open>Evidence and the context budget\<close>

definition RecordEvidence :: "int \<Rightarrow> Evidence \<Rightarrow> workstate \<Rightarrow> ws_error + int \<times> workstate" where
  "RecordEvidence clock e s =
     (if TrimSpace (qe_Story e) = [] \<or> TrimSpace (qe_Kind e) = [] then Inl NeedsStoryAndKind
      else
        let (seq, t) = ai_insert (e\<lparr>qe_TS := parseRFC3339 (Some (or_clock clock (qe_TS e) div second))\<rparr>)
              (st_evidence s)
        in Inr (seq, s\<lparr>st_evidence := t\<rparr>))"

definition ListEvidence :: "workstate \<Rightarrow> string \<Rightarrow> (int \<times> Evidence) list" where
  "ListEvidence s story = filter (\<lambda>(q, e). qe_Story e = story) (ai_rows (st_evidence s))"

definition RecordContextSample ::
  "int \<Rightarrow> ContextSample \<Rightarrow> bool \<Rightarrow> workstate \<Rightarrow> ws_error + int \<times> workstate" where
  "RecordContextSample clock sample asBaseline s =
     (if cs_Bytes sample < 0 then Inl NegativeBytes
      else
        let ts = parseRFC3339 (Some (or_clock clock (cs_TS sample) div second));
            cleared = (if asBaseline then ai_update (\<lambda>r. r\<lparr>cs_IsBaseline := False\<rparr>) (st_budget s) else st_budget s);
            (seq, t) = ai_insert (sample\<lparr>cs_TS := ts, cs_IsBaseline := asBaseline\<rparr>) cleared
        in Inr (seq, s\<lparr>st_budget := t\<rparr>))"

definition ContextBaseline :: "workstate \<Rightarrow> (int \<times> ContextSample) option" where
  "ContextBaseline s = find (\<lambda>(q, r). cs_IsBaseline r) (rev (ai_rows (st_budget s)))"

definition ContextSamples :: "workstate \<Rightarrow> int \<Rightarrow> (int \<times> ContextSample) list" where
  "ContextSamples s limit =
     (let rows = rev (ai_rows (st_budget s)) in if limit > 0 then take (nat limit) rows else rows)"

section \<open>The store as a machine\<close>

datatype ws_op =
    OpAppend int Event
  | OpMark int
  | OpSetGate int string string gotime
  | OpClearGate string
  | OpInbox int string string string string gotime
  | OpClaim string string string int int
  | OpAdvance string int
  | OpCleanup string
  | OpEvidence int Evidence
  | OpSample int ContextSample bool

definition kept_unless :: "workstate \<Rightarrow> ws_error + workstate \<Rightarrow> workstate" where
  "kept_unless s r = (case r of Inl e \<Rightarrow> s | Inr s' \<Rightarrow> s')"

fun ws_exec :: "ws_op \<Rightarrow> workstate \<Rightarrow> workstate" where
  "ws_exec (OpAppend clock ev) s = kept_unless s (map_sum id snd (WsAppend clock ev s))"
| "ws_exec (OpMark seq) s = SetLastFlushedSeq seq s"
| "ws_exec (OpSetGate clock story gate now) s = kept_unless s (SetActiveGate clock story gate now s)"
| "ws_exec (OpClearGate story) s = ClearActiveGate story s"
| "ws_exec (OpInbox clock story kind body payload now) s =
     kept_unless s (map_sum id snd (InboxAppend clock story kind body payload now s))"
| "ws_exec (OpClaim story claimedBy status lease now) s = kept_unless s (ClaimWork story claimedBy status lease now s)"
| "ws_exec (OpAdvance story seq) s = kept_unless s (AdvanceInboxFlush story seq s)"
| "ws_exec (OpCleanup story) s = CleanupWork story s"
| "ws_exec (OpEvidence clock e) s = kept_unless s (map_sum id snd (RecordEvidence clock e s))"
| "ws_exec (OpSample clock sample base) s = kept_unless s (map_sum id snd (RecordContextSample clock sample base s))"

definition baselines :: "workstate \<Rightarrow> (int \<times> ContextSample) list" where
  "baselines s = filter (\<lambda>(q, r). cs_IsBaseline r) (ai_rows (st_budget s))"

definition ws_ok :: "workstate \<Rightarrow> bool" where
  "ws_ok s \<longleftrightarrow> ai_ok (st_events s) \<and> ai_ok (st_inbox s) \<and> ai_ok (st_evidence s) \<and> ai_ok (st_budget s) \<and>
     unique_key cu_key (st_current s) \<and> unique_key wc_StoryID (st_claims s) \<and> unique_key ag_Story (st_gates s) \<and>
     length (baselines s) \<le> 1"

named_theorems ws_defs \<open>the operations of the store\<close>

declare WsAppend_def [ws_defs] SetLastFlushedSeq_def [ws_defs] SetActiveGate_def [ws_defs]
  ClearActiveGate_def [ws_defs] InboxAppend_def [ws_defs] ClaimWork_def [ws_defs]
  AdvanceInboxFlush_def [ws_defs] CleanupWork_def [ws_defs] RecordEvidence_def [ws_defs]
  RecordContextSample_def [ws_defs] kept_unless_def [ws_defs] Let_def [ws_defs] split_beta [ws_defs]

lemma unique_current_upsert: "unique_key cu_key rows \<Longrightarrow> unique_key cu_key (upsert_current r rows)"
  unfolding upsert_current_def by (intro unique_key_upsert) (auto simp: cu_key_def)

lemma unique_key_delete: "unique_key key rows \<Longrightarrow> unique_key key (fst (delete_rows P rows))"
  by (simp add: delete_rows_def unique_key_filter)

lemma ws_ok_migrate [simp]: "ws_ok migrate"
  by (simp add: ws_ok_def migrate_def baselines_def ai_empty_def ai_ok_def unique_key_def)

lemma baselines_insert:
  "filter (\<lambda>(q, r). cs_IsBaseline r) (ai_rows (snd (ai_insert r t))) =
     filter (\<lambda>(q, r). cs_IsBaseline r) (ai_rows t) @ (if cs_IsBaseline r then [(ai_last t + 1, r)] else [])"
  by (simp add: ai_insert_def)

lemma baselines_cleared:
  "filter (\<lambda>(q, r). cs_IsBaseline r) (ai_rows (ai_update (\<lambda>r. r\<lparr>cs_IsBaseline := False\<rparr>) t)) = []"
  by (auto simp: ai_update_def filter_empty_conv)

lemma ws_ok_sample:
  assumes "ws_ok s" and "RecordContextSample clock sample base s = Inr (q, s')"
  shows "ws_ok s'"
proof -
  let ?t = "if base then ai_update (\<lambda>r. r\<lparr>cs_IsBaseline := False\<rparr>) (st_budget s) else st_budget s"
  let ?r = "sample\<lparr>cs_TS := parseRFC3339 (Some (or_clock clock (cs_TS sample) div second)), cs_IsBaseline := base\<rparr>"
  have s': "s' = s\<lparr>st_budget := snd (ai_insert ?r ?t)\<rparr>"
    using assms(2) by (auto simp: ws_defs split: if_splits)
  have "ai_ok (snd (ai_insert ?r ?t))"
    using assms(1) by (intro ai_ok_insert) (auto simp: ws_ok_def ai_ok_update)
  moreover have "length (baselines s') \<le> 1"
    using assms(1) unfolding s' baselines_def ws_ok_def by (simp add: baselines_insert baselines_cleared)
  ultimately show ?thesis using assms(1) by (simp add: ws_ok_def s')
qed

lemma ws_ok_exec: "ws_ok s \<Longrightarrow> ws_ok (ws_exec op s)"
proof (cases op)
  case (OpSample clock sample base)
  assume "ws_ok s"
  with OpSample ws_ok_sample [of s clock sample base] show ?thesis
    by (cases "RecordContextSample clock sample base s") (auto simp: kept_unless_def)
next
  case (OpAppend clock ev)
  assume "ws_ok s"
  with OpAppend show ?thesis
    by (simp add: ws_defs ws_ok_def baselines_def ai_ok_insert unique_current_upsert unique_key_delete)
qed (auto simp: ws_defs ws_ok_def baselines_def ai_ok_insert ai_ok_delete unique_key_delete noClaim_def
      intro!: unique_key_upsert)

text \<open>The event log and the evidence trail are append-only, whatever is run on the store.\<close>

interpretation evlog: append_only_log ws_exec "\<lambda>s. ai_rows (st_events s)" ws_ok
proof
  fix op s assume ok: "ws_ok s"
  show "\<exists>new. ai_rows (st_events (ws_exec op s)) = ai_rows (st_events s) @ new"
    by (cases op) (auto simp: ws_defs ai_insert_def)
  show "ws_ok (ws_exec op s)" using ok by (rule ws_ok_exec)
  show "sorted_wrt (<) (map fst (ai_rows (st_events s)))" using ok by (simp add: ws_ok_def ai_ok_def)
qed

interpretation qalog: append_only_log ws_exec "\<lambda>s. ai_rows (st_evidence s)" ws_ok
proof
  fix op s assume ok: "ws_ok s"
  show "\<exists>new. ai_rows (st_evidence (ws_exec op s)) = ai_rows (st_evidence s) @ new"
    by (cases op) (auto simp: ws_defs ai_insert_def)
  show "ws_ok (ws_exec op s)" using ok by (rule ws_ok_exec)
  show "sorted_wrt (<) (map fst (ai_rows (st_evidence s)))" using ok by (simp add: ws_ok_def ai_ok_def)
qed

section \<open>Lemmas on the claim and the projection\<close>

lemma row_at_claim_upsert:
  "(\<And>x. wc_StoryID (f x) = wc_StoryID x) \<Longrightarrow> row_at wc_StoryID k (upsert_row wc_StoryID f r rows) =
     (if k = wc_StoryID r then Some (case row_at wc_StoryID k rows of None \<Rightarrow> r | Some x \<Rightarrow> f x)
      else row_at wc_StoryID k rows)"
  by (rule row_at_upsert) simp

lemma read_claim_other:
  assumes "op \<noteq> OpCleanup story" and "\<And>b st l now. op \<noteq> OpClaim story b st l now" and "\<And>q. op \<noteq> OpAdvance story q"
  shows "ReadWorkClaim (ws_exec op s) story = ReadWorkClaim s story"
  using assms
  by (cases op) (auto simp: ws_defs ReadWorkClaim_def row_at_claim_upsert row_at_delete noClaim_def)

lemma read_claim_advance:
  "ReadWorkClaim (ws_exec (OpAdvance story q) s) story =
     (if TrimSpace story = [] then ReadWorkClaim s story
      else case row_at wc_StoryID story (st_claims s) of
        None \<Rightarrow> noClaim\<lparr>wc_StoryID := story, wc_LastSeq := q\<rparr>
      | Some x \<Rightarrow> x\<lparr>wc_LastSeq := max (wc_LastSeq x) q\<rparr>)"
  by (auto simp: ws_defs ReadWorkClaim_def row_at_claim_upsert split: option.split)

definition held_by :: "WorkClaim \<Rightarrow> string \<Rightarrow> int \<Rightarrow> bool" where
  "held_by wc a until \<longleftrightarrow> wc_ClaimedBy wc = a \<and> wc_LeaseUntil wc = Some until"

lemma ClaimWork_granted:
  "ClaimWork story a st lease now s = Inr s1 \<Longrightarrow>
     TrimSpace story \<noteq> [] \<and> held_by (ReadWorkClaim s1 story) a ((now + lease) div second) \<and>
     wc_LastSeq (ReadWorkClaim s1 story) = wc_LastSeq (ReadWorkClaim s story)"
  by (auto simp: ClaimWork_def Let_def held_by_def ReadWorkClaim_def row_at_claim_upsert noClaim_def
      split: if_splits option.splits)

lemma ClaimWork_refused:
  "TrimSpace story \<noteq> [] \<Longrightarrow> held_by (ReadWorkClaim s story) a until \<Longrightarrow> a \<noteq> [] \<Longrightarrow> b \<noteq> a \<Longrightarrow>
   now < until * second \<Longrightarrow> ClaimWork story b st lease now s = Inl (WorkClaimed a (Some until))"
  by (simp add: ClaimWork_def Let_def held_by_def parseRFC3339_def)

lemma held_exec:
  assumes "TrimSpace story \<noteq> []" and "held_by (ReadWorkClaim s story) a until" and "a \<noteq> []" and "op \<noteq> OpCleanup story"
    and "\<And>b st l now. op = OpClaim story b st l now \<Longrightarrow> b \<noteq> a \<and> now < until * second"
  shows "held_by (ReadWorkClaim (ws_exec op s) story) a until"
proof (cases "\<exists>b st l now. op = OpClaim story b st l now")
  case True
  then obtain b st l now where op: "op = OpClaim story b st l now" by blast
  show ?thesis using ClaimWork_refused [OF assms(1,2,3), of b now st l] assms(2) assms(5) [OF op] op
    by (simp add: kept_unless_def)
next
  case False
  show ?thesis
  proof (cases "\<exists>q. op = OpAdvance story q")
    case True
    then obtain q where op: "op = OpAdvance story q" by blast
    show ?thesis unfolding op read_claim_advance
      using assms(1,2,3) by (auto simp: ReadWorkClaim_def held_by_def noClaim_def split: option.splits)
  next
    case noadv: False
    show ?thesis using assms(2,4) False noadv by (subst read_claim_other) auto
  qed
qed

lemma held_run:
  assumes "TrimSpace story \<noteq> []" and "held_by (ReadWorkClaim s story) a until" and "a \<noteq> []"
    and "\<forall>op \<in> set ops. op \<noteq> OpCleanup story \<and>
      (\<forall>b st l now. op = OpClaim story b st l now \<longrightarrow> b \<noteq> a \<and> now < until * second)"
  shows "held_by (ReadWorkClaim (fold ws_exec ops s) story) a until"
  using assms(2,4)
proof (induction ops arbitrary: s)
  case (Cons op ops)
  have "held_by (ReadWorkClaim (ws_exec op s) story) a until"
    using Cons.prems by (intro held_exec assms(1,3)) auto
  then show ?case using Cons by simp
qed simp

definition accepted :: "Event \<Rightarrow> bool" where
  "accepted e \<longleftrightarrow> TrimSpace (ev_Session e) \<noteq> [] \<and> TrimSpace (ev_Story e) \<noteq> [] \<and> TrimSpace (ev_Kind e) \<noteq> []"

definition ev_key :: "Event \<Rightarrow> string \<times> string" where
  "ev_key e = (ev_Session e, ev_Story e)"

definition shown :: "int \<Rightarrow> Event \<Rightarrow> Engagement" where
  "shown clock e = \<lparr>en_Session = ev_Session e, en_Story = ev_Story e, en_Phase = ev_Phase e,
     en_LeaseUntil = parseRFC3339 (rfc3339OrEmpty (ev_LeaseUntil e)), en_Editable = ev_Editable e,
     en_CommitReady = ev_CommitReady e, en_UpdatedAt = Some (or_clock clock (ev_TS e) div second * second)\<rparr>"

text \<open>The engagement a sequence of operations leaves: the last event of the pair decides.\<close>

fun latest :: "ws_op list \<Rightarrow> string \<times> string \<Rightarrow> Engagement option" where
  "latest [] k = None"
| "latest (OpAppend clock e # later_first) k =
     (if accepted e \<and> ev_key e = k then (if ev_Kind e = KindClose then None else Some (shown clock e))
      else latest later_first k)"
| "latest (op # later_first) k = latest later_first k"

lemma cu_key_row [simp]:
  "cu_key \<lparr>cu_session = a, cu_story = b, cu_phase = p, cu_lease = l, cu_editable = e, cu_commit_ready = c, cu_updated = u\<rparr> = (a, b)"
  by (simp add: cu_key_def)

lemma row_at_cu_key: "row_at cu_key (a, b) rows = Some x \<Longrightarrow> cu_session x = a \<and> cu_story x = b"
  by (auto simp: cu_key_def dest: row_at_Some)

lemma row_at_current_upsert:
  "row_at cu_key k (upsert_current r rows) = (if k = cu_key r then Some (case row_at cu_key k rows of None \<Rightarrow> r |
      Some x \<Rightarrow> x\<lparr>cu_phase := cu_phase r, cu_lease := cu_lease r, cu_editable := cu_editable r,
            cu_commit_ready := cu_commit_ready r, cu_updated := cu_updated r\<rparr>) else row_at cu_key k rows)"
  unfolding upsert_current_def by (rule row_at_upsert) (simp add: cu_key_def)

lemma WsCurrent_append:
  "WsCurrent (ws_exec (OpAppend clock e) s) session story =
     (if accepted e \<and> ev_key e = (session, story)
      then (if ev_Kind e = KindClose then None else Some (shown clock e))
      else WsCurrent s session story)"
proof -
  consider "\<not> accepted e" | "accepted e" "ev_Kind e = KindClose" | "accepted e" "ev_Kind e \<noteq> KindClose" by blast
  then show ?thesis
  proof cases
    case 2
    then show ?thesis by (simp add: ws_defs accepted_def WsCurrent_def row_at_delete ev_key_def eq_commute)
  next
    case 3
    then show ?thesis
      by (auto simp: ws_defs accepted_def WsCurrent_def row_at_current_upsert ev_key_def shown_def scanEngagement_def
          parseRFC3339_def dest: row_at_cu_key split: option.split)
  qed (auto simp: ws_defs accepted_def)
qed

lemma WsCurrent_other: "(\<And>c e. op \<noteq> OpAppend c e) \<Longrightarrow> WsCurrent (ws_exec op s) session story = WsCurrent s session story"
  by (cases op) (auto simp: ws_defs WsCurrent_def)

lemma WsCurrent_run:
  "WsCurrent (fold ws_exec ops migrate) session story = latest (rev ops) (session, story)"
proof (induction ops rule: rev_induct)
  case (snoc op ops)
  show ?case
  proof (cases "\<exists>c e. op = OpAppend c e")
    case True
    then obtain c e where "op = OpAppend c e" by blast
    then show ?thesis using snoc by (simp add: WsCurrent_append del: ws_exec.simps)
  next
    case False
    then have "latest (op # rev ops) (session, story) = latest (rev ops) (session, story)"
      by (cases op) auto
    then show ?thesis using snoc False by (simp add: WsCurrent_other del: ws_exec.simps)
  qed
qed (simp add: WsCurrent_def migrate_def)

section \<open>Properties\<close>

text \<open>
  C25: whatever sequence of operations is run on a new store, the state is consistent: every
  autoincrement table has increasing keys (a key names one row for good), a pair of session and
  story has one projection row, a story one claim and one gate marker, and at most one sample of
  the context budget is the baseline.
\<close>

theorem store_invariant:
  "ws_ok (fold ws_exec ops migrate)"
  by (rule evlog.ok_run) simp

text \<open>
  C26: the projection is the fold of the log: after any operations the engagement read for a pair
  of session and story is that of its last accepted event, nothing when that event closes it, with
  times to the second; no other operation changes it.
\<close>

theorem projection_correct:
  "WsCurrent (fold ws_exec ops migrate) session story = latest (rev ops) (session, story)"
  by (rule WsCurrent_run)

text \<open>
  The event log and the evidence trail of a story are append-only under every operation (the
  clean-up of a finished story included), and a reader that has read up to the last event finds
  behind its mark exactly the events appended since, each once and in order.
\<close>

theorem trails_append_only:
  assumes "s = fold ws_exec ops migrate" and "ai_rows (st_events s) = pre @ [(q, r)]"
  shows "(\<exists>new. ListEvidence (fold ws_exec later s) story = ListEvidence s story @ new) \<and>
    (\<exists>new. ai_rows (st_events (fold ws_exec later s)) = ai_rows (st_events s) @ new \<and>
       EventsSince (fold ws_exec later s) q = map logged new)"
proof -
  have ok: "ws_ok s" unfolding assms(1) by (rule evlog.ok_run) simp
  have since: "EventsSince u q = map logged (filter (\<lambda>x. q < fst x) (ai_rows (st_events u)))" for u
    unfolding EventsSince_def by (intro arg_cong [where f = "map logged"] filter_cong) auto
  obtain new where "ai_rows (st_evidence (fold ws_exec later s)) = ai_rows (st_evidence s) @ new"
    using qalog.run_grows [OF ok, of later] by blast
  then have "\<exists>new. ListEvidence (fold ws_exec later s) story = ListEvidence s story @ new"
    by (simp add: ListEvidence_def)
  then show ?thesis using evlog.behind_mark [OF ok assms(2), of later] unfolding since by metis
qed

definition ev1 :: Event where
  "ev1 = \<lparr>ev_Session = ''s'', ev_Story = ''y'', ev_Phase = ''p'', ev_Kind = ''engage'', ev_Tags = [],
     ev_LeaseUntil = Some 5000000000, ev_Editable = True, ev_CommitReady = False, ev_TS = Some 1500000000\<rparr>"

theorem trails_append_only_witness:
  "\<exists>new. ai_rows (st_events (fold ws_exec [OpAppend 0 ev1, OpCleanup ''y''] (ws_exec (OpAppend 0 ev1) migrate)))
       = ai_rows (st_events (ws_exec (OpAppend 0 ev1) migrate)) @ new \<and>
     EventsSince (fold ws_exec [OpAppend 0 ev1, OpCleanup ''y''] (ws_exec (OpAppend 0 ev1) migrate)) 1 = map logged new"
proof -
  have a: "ws_exec (OpAppend 0 ev1) migrate = fold ws_exec [OpAppend 0 ev1] migrate" by simp
  have b: "ai_rows (st_events (ws_exec (OpAppend 0 ev1) migrate)) = [] @ [(1, \<lparr>er_session = ''s'', er_story = ''y'',
      er_phase = ''p'', er_kind = ''engage'', er_tags = [], er_lease = Some 5, er_ts = 1\<rparr>)]" by code_simp
  show ?thesis using trails_append_only [OF a b] by blast
qed

text \<open>
  C27: two reviewers cannot hold the work of a story at once: after a claim was granted, and until
  its lease (to the second) expires, every claim by anyone else is refused with the holder's name,
  whatever else is run on the store but the clean-up of the story and claims of the holder.
\<close>

theorem claim_exclusive:
  assumes "ClaimWork story a st lease t s = Inr s1" and "a \<noteq> []"
    and "\<forall>op \<in> set ops. op \<noteq> OpCleanup story \<and>
      (\<forall>b st l now. op = OpClaim story b st l now \<longrightarrow> b \<noteq> a \<and> now < (t + lease) div second * second)"
    and "b \<noteq> a" and "now < (t + lease) div second * second"
  shows "ClaimWork story b st' l now (fold ws_exec ops s1) = Inl (WorkClaimed a (Some ((t + lease) div second)))"
  using ClaimWork_granted [OF assms(1)] held_run [OF _ _ assms(2,3)] assms(2,4,5)
  by (intro ClaimWork_refused) auto

theorem claim_exclusive_witness:
  "ClaimWork ''y'' ''b@h'' ''review'' 60000000000 59000000000
     (fold ws_exec [OpClaim ''y'' ''b@h'' ''review'' 60000000000 1, OpAdvance ''y'' 7]
        (ws_exec (OpClaim ''y'' ''a@h'' ''review'' 60000000000 0) migrate))
   = Inl (WorkClaimed ''a@h'' (Some 60))"
proof -
  have "ClaimWork ''y'' ''a@h'' ''review'' 60000000000 0 migrate =
      Inr (ws_exec (OpClaim ''y'' ''a@h'' ''review'' 60000000000 0) migrate)" by code_simp
  from claim_exclusive [OF this, of "[OpClaim ''y'' ''b@h'' ''review'' 60000000000 1, OpAdvance ''y'' 7]" "''b@h''" 59000000000]
  show ?thesis by (simp add: second_def)
qed

end
