(* ===== verification/Engagement.thy ===== *)
theory Engagement
  imports Workstate WorkflowParse Lifecycle
begin

text \<open>
  The engagement commands and hooks over the store: engaging and closing a story, the heartbeat,
  the access trigger and the collision check (\<^verbatim>\<open>cmd_work.go\<close>, \<^verbatim>\<open>worktick.go\<close>,
  \<^verbatim>\<open>cmd_hook_access.go\<close>), the edit door (\<^verbatim>\<open>engagementOutcome\<close> of \<^verbatim>\<open>cmd_hook.go\<close>), the stop
  check (\<^verbatim>\<open>cmd_hook_stopcheck.go\<close>) and the flush of events to the server
  (\<^verbatim>\<open>cmd_work_sync.go\<close>). A session and a story are named by strings; the story's parent, the
  number of commits since a time and the sending of an event are parameters.
\<close>

definition phaseCandidate :: string where "phaseCandidate = ''candidate''"

definition engageLeaseTTL :: int where "engageLeaseTTL = 2 * 60 * 60 * second"

definition engagementTickThrottle :: int where "engagementTickThrottle = 30 * second"

definition activeGateStaleAfter :: int where "activeGateStaleAfter = (15 + 5 + 5) * 60 * second"

definition resolveSession :: "string \<Rightarrow> string \<Rightarrow> string" where
  "resolveSession env flag =
     (if TrimSpace flag \<noteq> [] then TrimSpace flag else if TrimSpace env \<noteq> [] then TrimSpace env else ''local'')"

definition sessionKey :: "string \<Rightarrow> string \<Rightarrow> string" where
  "sessionKey session parent = (if TrimSpace parent \<noteq> [] then TrimSpace parent else TrimSpace session)"

definition workClaimant :: "string \<Rightarrow> string \<Rightarrow> string" where
  "workClaimant host userID =
     (if TrimSpace userID = [] then ''local'' else TrimSpace userID) @ ''@'' @ (if host = [] then ''host'' else host)"

section \<open>Engaging and closing\<close>

text \<open>The work tree's state: the store, and the legacy record file (story, status, time).\<close>

record worktree =
  wt_store :: workstate
  wt_legacy :: "(string \<times> string \<times> int) option"

datatype work_error =
    StoryIdRequired
  | AlreadyOpen string string
  | RecordFailed ws_error
  | AbandonsWork string int

definition isOpen :: "Engagement \<Rightarrow> int \<Rightarrow> bool" where
  "isOpen e now \<longleftrightarrow> en_Phase e \<noteq> phaseCandidate \<and> IsLeaseFresh e now"

definition engage_event :: "string \<Rightarrow> string \<Rightarrow> string \<Rightarrow> string \<Rightarrow> bool \<Rightarrow> bool \<Rightarrow> int \<Rightarrow> Event" where
  "engage_event kind session story phase editable commitReady now =
     \<lparr>ev_Session = session, ev_Story = story, ev_Phase = phase, ev_Kind = kind, ev_Tags = [],
      ev_LeaseUntil = Some (now + engageLeaseTTL), ev_Editable = editable, ev_CommitReady = commitReady,
      ev_TS = Some now\<rparr>"

definition runWorkInit ::
  "string \<Rightarrow> string \<Rightarrow> string \<Rightarrow> bool \<Rightarrow> bool \<Rightarrow> int \<Rightarrow> worktree \<Rightarrow> work_error + worktree" where
  "runWorkInit storyID0 status session editable commitReady now wt =
     (let storyID = TrimSpace storyID0 in
      if storyID = [] then Inl StoryIdRequired
      else case find (\<lambda>e. en_Story e \<noteq> storyID \<and> isOpen e now) (LiveEngagement (wt_store wt) session) of
        Some e \<Rightarrow> Inl (AlreadyOpen (en_Story e) (en_Phase e))
      | None \<Rightarrow>
          (case WsAppend now (engage_event ''engage'' session storyID (TrimSpace status) editable commitReady now)
                  (wt_store wt) of
             Inl err \<Rightarrow> Inl (RecordFailed err)
           | Inr (seq, s) \<Rightarrow> Inr \<lparr>wt_store = s, wt_legacy = Some (storyID, TrimSpace status, now div second)\<rparr>))"

text \<open>The engagement of an already engaged pair is stamped anew; \<^const>\<open>False\<close>: nothing was written.\<close>

definition refreshEngagementPhase ::
  "string \<Rightarrow> string \<Rightarrow> string \<Rightarrow> bool \<Rightarrow> bool \<Rightarrow> int \<Rightarrow> workstate \<Rightarrow> ws_error + bool \<times> workstate" where
  "refreshEngagementPhase session storyID phase editable commitReady now s =
     (if TrimSpace session = [] \<or> TrimSpace storyID = [] then Inr (False, s)
      else case WsCurrent s session storyID of
        None \<Rightarrow> Inr (False, s)
      | Some e \<Rightarrow>
          map_sum id (\<lambda>(q, s'). (True, s'))
            (WsAppend now (engage_event ''phase'' session storyID (TrimSpace phase) editable commitReady now) s))"

text \<open>Whether a phase is terminal, \<^const>\<open>None\<close> when no governing workflow declares it.\<close>

fun phase_terminal_in :: "string \<Rightarrow> (wf_error + Workflow) list \<Rightarrow> bool option" where
  "phase_terminal_in phase [] = None"
| "phase_terminal_in phase (Inl e # ws) = phase_terminal_in phase ws"
| "phase_terminal_in phase (Inr w # ws) =
     (if hasState w phase then Some (IsTerminal w phase) else phase_terminal_in phase ws)"

definition phaseIsTerminal :: "yaml_codec \<Rightarrow> string list \<Rightarrow> string \<Rightarrow> bool option" where
  "phaseIsTerminal yaml bodies phase =
     (if TrimSpace phase = [] then None
      else phase_terminal_in (TrimSpace phase) (map (ParseWorkflow yaml) bodies))"

definition close_guard ::
  "(string \<Rightarrow> bool option) \<Rightarrow> (gotime \<Rightarrow> int) \<Rightarrow> string \<Rightarrow> string \<Rightarrow> workstate \<Rightarrow> work_error option" where
  "close_guard terminal commitsSince storyID session s =
     (case WsCurrent s session storyID of
        None \<Rightarrow> None
      | Some eng \<Rightarrow>
          (if terminal (en_Phase eng) = Some False \<and> commitsSince (en_UpdatedAt eng) > 0
           then Some (AbandonsWork (en_Phase eng) (commitsSince (en_UpdatedAt eng))) else None))"

definition close_event :: "string \<Rightarrow> string \<Rightarrow> int \<Rightarrow> Event" where
  "close_event session story now = \<lparr>ev_Session = session, ev_Story = story, ev_Phase = [], ev_Kind = KindClose,
     ev_Tags = [], ev_LeaseUntil = None, ev_Editable = False, ev_CommitReady = False, ev_TS = Some now\<rparr>"

definition runWorkClose ::
  "(string \<Rightarrow> bool option) \<Rightarrow> (gotime \<Rightarrow> int) \<Rightarrow> string \<Rightarrow> string \<Rightarrow> bool \<Rightarrow> int \<Rightarrow> worktree \<Rightarrow> work_error + worktree" where
  "runWorkClose terminal commitsSince storyID0 session force now wt =
     (let storyID = TrimSpace storyID0 in
      if storyID = [] then Inl StoryIdRequired
      else case (if force then None else close_guard terminal commitsSince storyID session (wt_store wt)) of
        Some err \<Rightarrow> Inl err
      | None \<Rightarrow>
          (case WsAppend now (close_event session storyID now) (wt_store wt) of
             Inl err \<Rightarrow> Inl (RecordFailed err)
           | Inr (seq, s) \<Rightarrow>
               Inr \<lparr>wt_store = s,
                 wt_legacy = (case wt_legacy wt of
                   Some (story, status, t) \<Rightarrow> (if TrimSpace story = storyID then None else wt_legacy wt)
                 | None \<Rightarrow> None)\<rparr>))"

definition readEngagement :: "worktree \<Rightarrow> (string \<times> string \<times> int) option" where
  "readEngagement wt = (case wt_legacy wt of
     Some (story, status, t) \<Rightarrow> (if TrimSpace story = [] then None else wt_legacy wt) | None \<Rightarrow> None)"

section \<open>Heartbeat, access and collisions\<close>

fun tick_loop :: "int \<Rightarrow> Engagement list \<Rightarrow> bool \<Rightarrow> workstate \<Rightarrow> (bool \<times> ws_error option) \<times> workstate" where
  "tick_loop now [] ticked s = ((ticked, None), s)"
| "tick_loop now (e # es) ticked s =
     (if en_Phase e = phaseCandidate \<or> \<not> IsLeaseFresh e now then tick_loop now es ticked s
      else if now - or_clock 0 (en_UpdatedAt e) < engagementTickThrottle then tick_loop now es ticked s
      else case WsAppend now (engage_event ''tick'' (en_Session e) (en_Story e) (en_Phase e) (en_Editable e)
                  (en_CommitReady e) now) s of
        Inl err \<Rightarrow> ((ticked, Some err), s)
      | Inr (q, s') \<Rightarrow> tick_loop now es True s')"

definition tickEngagement :: "string \<Rightarrow> int \<Rightarrow> workstate \<Rightarrow> (bool \<times> ws_error option) \<times> workstate" where
  "tickEngagement session now s = tick_loop now (LiveEngagement s session) False s"

definition isLiveEngagement :: "Engagement \<Rightarrow> bool" where
  "isLiveEngagement e \<longleftrightarrow> TrimSpace (en_Phase e) \<noteq> [] \<and> TrimSpace (en_Phase e) \<noteq> phaseCandidate"

definition candidate_event :: "string \<Rightarrow> string \<Rightarrow> int \<Rightarrow> Event" where
  "candidate_event session story now = \<lparr>ev_Session = session, ev_Story = story, ev_Phase = phaseCandidate,
     ev_Kind = ''candidate'', ev_Tags = [], ev_LeaseUntil = None, ev_Editable = False, ev_CommitReady = False,
     ev_TS = Some now\<rparr>"

text \<open>The result says whether the agent is reminded to engage the story.\<close>

definition assessAccess :: "string \<Rightarrow> string \<Rightarrow> int \<Rightarrow> workstate \<Rightarrow> bool \<times> workstate" where
  "assessAccess session0 story now s =
     (let session = (if TrimSpace session0 = [] then ''unknown'' else session0) in
      if (case WsCurrent s session story of Some eng \<Rightarrow> isLiveEngagement eng | None \<Rightarrow> False) then (False, s)
      else (True, kept_unless s (map_sum id snd (WsAppend now (candidate_event session story now) s))))"

definition findEpicCollisions ::
  "string \<Rightarrow> string \<Rightarrow> string \<Rightarrow> Engagement list \<Rightarrow> (string \<Rightarrow> string) \<Rightarrow> int \<Rightarrow> Engagement list" where
  "findEpicCollisions mySession myStory myParent engs parentOf now =
     (if TrimSpace myParent = [] then []
      else filter (\<lambda>e. \<not> (en_Session e = mySession \<or> en_Story e = myStory) \<and> IsLeaseFresh e now \<and>
        parentOf (en_Story e) = myParent) engs)"

text \<open>The engagements warned about, and whether the engagement is blocked.\<close>

definition checkEpicCollision ::
  "string \<Rightarrow> (string \<Rightarrow> string) \<Rightarrow> string \<Rightarrow> string \<Rightarrow> int \<Rightarrow> workstate \<Rightarrow> Engagement list \<times> bool" where
  "checkEpicCollision collision resolveParent storyID session now s =
     (let mode = TrimSpace (ToLower collision); myParent = resolveParent storyID in
      if mode = ''off'' \<or> myParent = [] then ([], False)
      else
        let collisions = findEpicCollisions session storyID myParent (ListCurrent s) resolveParent now
        in (collisions, collisions \<noteq> [] \<and> mode = ''block''))"

section \<open>The edit door and the stop check\<close>

datatype door =
    Allow Engagement
  | DenyUnavailable
  | DenyNone
  | DenyStale
  | DenyNotEditable

fun door_loop :: "int \<Rightarrow> Engagement list \<Rightarrow> bool \<Rightarrow> bool \<Rightarrow> door" where
  "door_loop now [] sawEngagement sawFresh =
     (if \<not> sawEngagement then DenyNone else if \<not> sawFresh then DenyStale else DenyNotEditable)"
| "door_loop now (e # es) sawEngagement sawFresh =
     (if en_Phase e = phaseCandidate then door_loop now es sawEngagement sawFresh
      else if \<not> IsLeaseFresh e now then door_loop now es True sawFresh
      else if en_Editable e then Allow e
      else door_loop now es True True)"

text \<open>\<^const>\<open>None\<close>: the store cannot be opened.\<close>

definition engagementOutcome :: "workstate option \<Rightarrow> string \<Rightarrow> int \<Rightarrow> door" where
  "engagementOutcome store session now =
     (case store of None \<Rightarrow> DenyUnavailable
      | Some s \<Rightarrow> door_loop now (LiveEngagement s session) False False)"

datatype stop_note =
    GateInProgress string string int
  | Unreachable string string
  | GoalNotMet string string int

definition stopGoalDecision :: "string \<Rightarrow> string \<Rightarrow> int \<Rightarrow> bool \<Rightarrow> bool \<times> stop_note" where
  "stopGoalDecision story phase commits governed =
     (if \<not> governed then (False, Unreachable story phase)
      else (True, GoalNotMet story phase (if commits > 0 then commits else 0)))"

fun stop_loop ::
  "(string \<Rightarrow> bool option) \<Rightarrow> (gotime \<Rightarrow> int) \<Rightarrow> bool \<Rightarrow> int \<Rightarrow> workstate \<Rightarrow> Engagement list \<Rightarrow> bool \<times> stop_note list" where
  "stop_loop terminal commitsSince governed now s [] = (False, [])"
| "stop_loop terminal commitsSince governed now s (e # es) =
     (let (block, msgs) = stop_loop terminal commitsSince governed now s es in
      if en_Phase e = phaseCandidate \<or> \<not> IsLeaseFresh e now \<or> terminal (en_Phase e) = Some True then (block, msgs)
      else case (case GetActiveGate s (en_Story e) of
          Some ag \<Rightarrow> (if now - ag_StartedAt ag < activeGateStaleAfter then Some ag else None) | None \<Rightarrow> None) of
        Some ag \<Rightarrow> (block, GateInProgress (en_Story e) (ag_Gate ag) (now - ag_StartedAt ag) # msgs)
      | None \<Rightarrow>
          (let (b, m) = stopGoalDecision (en_Story e) (en_Phase e) (commitsSince (en_UpdatedAt e)) governed
           in (b \<or> block, m # msgs)))"

definition runHookStopCheck ::
  "(string \<Rightarrow> bool option) \<Rightarrow> (gotime \<Rightarrow> int) \<Rightarrow> bool \<Rightarrow> int \<Rightarrow> string \<Rightarrow> string \<Rightarrow> workstate option \<Rightarrow> bool \<times> stop_note list" where
  "runHookStopCheck terminal commitsSince governed now sessionID parentID store =
     (let session = sessionKey sessionID parentID in
      if TrimSpace session = [] then (False, [])
      else case store of None \<Rightarrow> (False, [])
        | Some s \<Rightarrow> stop_loop terminal commitsSince governed now s (LiveEngagement s session))"

section \<open>The flush to the server\<close>

text \<open>
  Sending one event returns whether the client saw it succeed and the server's new state: a send whose reply is lost has failed,
  and the row may be there all the same.
\<close>

fun flush_loop ::
  "(LoggedEvent \<Rightarrow> 'srv \<Rightarrow> bool \<times> 'srv) \<Rightarrow> LoggedEvent list \<Rightarrow> nat \<Rightarrow> int \<Rightarrow> 'srv \<Rightarrow> nat \<times> int \<times> 'srv" where
  "flush_loop send [] flushed maxSeq srv = (flushed, maxSeq, srv)"
| "flush_loop send (ev # evs) flushed maxSeq srv =
     (case send ev srv of
        (False, srv') \<Rightarrow> (flushed, maxSeq, srv')
      | (True, srv') \<Rightarrow> flush_loop send evs (Suc flushed) (if le_Seq ev > maxSeq then le_Seq ev else maxSeq) srv')"

text \<open>\<open>marks\<close> says whether the store takes the new mark; when it does not the command fails after the sends.\<close>

datatype sync_reply = Flushed nat | MarkFailed

definition runWorkSync ::
  "(LoggedEvent \<Rightarrow> 'srv \<Rightarrow> bool \<times> 'srv) \<Rightarrow> bool \<Rightarrow> workstate \<Rightarrow> 'srv \<Rightarrow> sync_reply \<times> workstate \<times> 'srv" where
  "runWorkSync send marks s srv =
     (let last = LastFlushedSeq s;
          (flushed, maxSeq, srv') = flush_loop send (EventsSince s last) 0 last srv
      in if maxSeq > last
         then (if marks then (Flushed flushed, SetLastFlushedSeq maxSeq s, srv') else (MarkFailed, s, srv'))
         else (Flushed flushed, s, srv'))"

section \<open>Lemmas\<close>

lemma live_iff:
  assumes "ws_ok s"
  shows "e \<in> set (LiveEngagement s session) \<longleftrightarrow> WsCurrent s session (en_Story e) = Some e"
proof
  assume "e \<in> set (LiveEngagement s session)"
  then obtain r where r: "r \<in> set (st_current s)" "cu_session r = session" "e = scanEngagement r"
    by (auto simp: LiveEngagement_def)
  have "row_at cu_key (cu_key r) (st_current s) = Some r"
    using assms r(1) by (intro row_at_unique) (auto simp: ws_ok_def)
  then show "WsCurrent s session (en_Story e) = Some e"
    using r by (simp add: WsCurrent_def cu_key_def scanEngagement_def)
next
  assume "WsCurrent s session (en_Story e) = Some e"
  then obtain r where "row_at cu_key (session, en_Story e) (st_current s) = Some r" "e = scanEngagement r"
    by (auto simp: WsCurrent_def)
  then show "e \<in> set (LiveEngagement s session)"
    by (auto simp: LiveEngagement_def dest: row_at_Some row_at_cu_key)
qed

lemma WsCurrent_story: "WsCurrent s session story = Some e \<Longrightarrow> en_Story e = story \<and> en_Session e = session"
  by (auto simp: WsCurrent_def scanEngagement_def dest: row_at_cu_key)

lemma WsAppend_exec:
  "WsAppend clock e s = Inr (q, s') \<Longrightarrow> s' = ws_exec (OpAppend clock e) s \<and> accepted e"
  "WsAppend clock e s = Inl err \<Longrightarrow> \<not> accepted e"
  by (auto simp: ws_defs accepted_def split: if_splits)

lemma kept_append: "kept_unless s (map_sum id snd (WsAppend clock e s)) = ws_exec (OpAppend clock e) s"
  by simp

lemma assessAccess_state:
  "\<exists>u. snd (assessAccess session story now s) = s \<or>
     snd (assessAccess session story now s) = ws_exec (OpAppend now (candidate_event u story now)) s"
  unfolding assessAccess_def Let_def kept_append by (simp del: ws_exec.simps) blast

lemma event_simps [simp]:
  "ev_key (engage_event kind session story phase editable commitReady now) = (session, story)"
  "ev_Kind (engage_event kind session story phase editable commitReady now) = kind"
  "ev_key (close_event session story now) = (session, story)"
  "ev_Kind (close_event session story now) = KindClose"
  "en_Phase (shown clock e) = ev_Phase e" "en_Editable (shown clock e) = ev_Editable e"
  "en_Story (shown clock e) = ev_Story e" "en_Session (shown clock e) = ev_Session e"
  by (auto simp: engage_event_def close_event_def ev_key_def shown_def)

definition opens :: "workstate \<Rightarrow> string \<Rightarrow> int \<Rightarrow> string set" where
  "opens s session now = {story. \<exists>e. WsCurrent s session story = Some e \<and> isOpen e now}"

lemma opens_later: "t \<le> t' \<Longrightarrow> opens s session t' \<subseteq> opens s session t"
  by (auto simp: opens_def isOpen_def IsLeaseFresh_def split: option.splits)

lemma opens_append_other:
  "fst (ev_key e) \<noteq> session \<Longrightarrow> opens (ws_exec (OpAppend c e) s) session now = opens s session now"
  unfolding opens_def WsCurrent_append by (cases "ev_key e") auto

lemma opens_append:
  "opens (ws_exec (OpAppend c e) s) session now \<subseteq> insert (ev_Story e) (opens s session now)"
  unfolding opens_def WsCurrent_append by (auto simp: ev_key_def split: if_splits)

lemma opens_append_not_open:
  "ev_Kind e = KindClose \<or> ev_Phase e = phaseCandidate \<Longrightarrow>
   opens (ws_exec (OpAppend c e) s) session now \<subseteq> opens s session now"
  unfolding opens_def WsCurrent_append by (auto simp: isOpen_def split: if_splits)

lemma tick_loop_ok: "ws_ok s \<Longrightarrow> ws_ok (snd (tick_loop now es ticked s))"
proof (induction now es ticked s rule: tick_loop.induct)
  case (2 now e es ticked s)
  show ?case
  proof (cases "WsAppend now (engage_event ''tick'' (en_Session e) (en_Story e) (en_Phase e) (en_Editable e)
      (en_CommitReady e) now) s")
    case (Inl err)
    then show ?thesis using 2 by simp
  next
    case (Inr x)
    then have "ws_ok (snd x)" using WsAppend_exec(1) [of _ _ s "fst x" "snd x"] ws_ok_exec [OF 2(4)] by (metis prod.collapse)
    then show ?thesis using 2 Inr by (auto split: prod.splits)
  qed
qed simp

lemma tick_loop_opens:
  "\<forall>e \<in> set es. isOpen e now \<longrightarrow> en_Story e \<in> opens s (en_Session e) now \<Longrightarrow>
   opens (snd (tick_loop now es ticked s)) session now \<subseteq> opens s session now"
proof (induction now es ticked s rule: tick_loop.induct)
  case (2 now e es ticked s)
  let ?ev = "engage_event ''tick'' (en_Session e) (en_Story e) (en_Phase e) (en_Editable e) (en_CommitReady e) now"
  show ?case
  proof (cases "\<not> isOpen e now \<or> now - or_clock 0 (en_UpdatedAt e) < engagementTickThrottle")
    case True
    then show ?thesis using 2 by (auto simp: isOpen_def)
  next
    case False
    show ?thesis
    proof (cases "WsAppend now ?ev s")
      case (Inr x)
      then have x: "snd x = ws_exec (OpAppend now ?ev) s" "accepted ?ev"
        using WsAppend_exec(1) [of now ?ev s "fst x" "snd x"] by auto
      have sub: "opens s u now \<subseteq> opens (snd x) u now" for u
      proof
        fix k assume "k \<in> opens s u now"
        then show "k \<in> opens (snd x) u now"
          using False x unfolding opens_def x(1) WsCurrent_append
          by (auto simp: KindClose_def isOpen_def IsLeaseFresh_def shown_def parseRFC3339_def rfc3339OrEmpty_def
              engage_event_def engageLeaseTTL_def second_def)
      qed
      have le: "opens (snd x) session now \<subseteq> opens s session now"
      proof (cases "en_Session e = session")
        case True
        have "en_Story e \<in> opens s (en_Session e) now" using 2(4) False by auto
        then show ?thesis using opens_append [of now ?ev s session now] True unfolding x(1)
          by (auto simp: engage_event_def)
      next
        case other: False
        show ?thesis using opens_append_other [of ?ev session now s now] other unfolding x(1) by auto
      qed
      have "opens (snd (tick_loop now es True (snd x))) session now \<subseteq> opens (snd x) session now"
        using 2(3) [of x "fst x" "snd x"] False Inr 2(4) sub by (cases x) (auto simp: isOpen_def)
      then show ?thesis using False Inr le by (cases x) (auto simp: isOpen_def)
    qed (use 2 False in \<open>auto simp: isOpen_def\<close>)
  qed
qed simp

text \<open>What the door decides, over the engagements of the session.\<close>

lemma door_loop_spec:
  "case door_loop now es saw fr of
     Allow e \<Rightarrow> e \<in> set es \<and> isOpen e now \<and> en_Editable e
   | DenyUnavailable \<Rightarrow> False
   | DenyNone \<Rightarrow> \<not> saw \<and> \<not> (\<exists>e \<in> set es. en_Phase e \<noteq> phaseCandidate)
   | DenyStale \<Rightarrow> (saw \<or> (\<exists>e \<in> set es. en_Phase e \<noteq> phaseCandidate)) \<and> \<not> fr \<and> \<not> (\<exists>e \<in> set es. isOpen e now)
   | DenyNotEditable \<Rightarrow> (saw \<and> fr \<or> fr \<and> (\<exists>e \<in> set es. en_Phase e \<noteq> phaseCandidate) \<or> (\<exists>e \<in> set es. isOpen e now)) \<and>
       \<not> (\<exists>e \<in> set es. isOpen e now \<and> en_Editable e)"
proof (induction now es saw fr rule: door_loop.induct)
  case (2 now e es saw fr)
  consider "en_Phase e = phaseCandidate" | "en_Phase e \<noteq> phaseCandidate" "\<not> IsLeaseFresh e now"
    | "isOpen e now" "en_Editable e" | "isOpen e now" "\<not> en_Editable e"
    by (auto simp: isOpen_def)
  then show ?case
  proof cases
    case 1
    with 2(1) [OF 1] show ?thesis by (auto simp: isOpen_def split: door.splits)
  next
    case 2
    with "2.IH"(2) [OF 2] show ?thesis by (auto simp: isOpen_def split: door.splits)
  next
    case 3
    then show ?thesis by (auto simp: isOpen_def)
  next
    case 4
    with "2.IH"(3) show ?thesis by (auto simp: isOpen_def split: door.splits)
  qed
qed auto

lemma live_story: "ws_ok s \<Longrightarrow> e \<in> set (LiveEngagement s session) \<Longrightarrow> en_Session e = session"
  using live_iff WsCurrent_story by blast

lemma live_current: "ws_ok s \<Longrightarrow> WsCurrent s session story = Some e \<Longrightarrow> e \<in> set (LiveEngagement s session)"
  by (metis live_iff WsCurrent_story)

lemma door_allow_iff:
  assumes "ws_ok s"
  shows "(\<exists>e. engagementOutcome (Some s) session now = Allow e) \<longleftrightarrow>
    (\<exists>story e. WsCurrent s session story = Some e \<and> isOpen e now \<and> en_Editable e)" (is "?l \<longleftrightarrow> ?r")
proof -
  note spec = door_loop_spec [where now = now and es = "LiveEngagement s session" and saw = False and fr = False]
  have "?l \<longleftrightarrow> (\<exists>e \<in> set (LiveEngagement s session). isOpen e now \<and> en_Editable e)"
  proof (cases "door_loop now (LiveEngagement s session) False False")
    case (Allow e)
    then show ?thesis using spec by (auto simp: engagementOutcome_def)
  next
    case DenyNone
    then have "\<not> (\<exists>e \<in> set (LiveEngagement s session). en_Phase e \<noteq> phaseCandidate)" using spec by simp
    then show ?thesis using DenyNone by (simp add: engagementOutcome_def isOpen_def)
  next
    case DenyUnavailable
    then show ?thesis using spec by simp
  next
    case DenyStale
    then have "\<not> (\<exists>e \<in> set (LiveEngagement s session). isOpen e now)" using spec by simp
    then show ?thesis using DenyStale by (simp add: engagementOutcome_def)
  next
    case DenyNotEditable
    then have "\<not> (\<exists>e \<in> set (LiveEngagement s session). isOpen e now \<and> en_Editable e)" using spec by simp
    then show ?thesis using DenyNotEditable by (simp add: engagementOutcome_def)
  qed
  moreover have "(\<exists>e \<in> set (LiveEngagement s session). isOpen e now \<and> en_Editable e) \<longleftrightarrow> ?r"
    using live_iff [OF assms] live_current [OF assms] by blast
  ultimately show ?thesis by blast
qed

section \<open>Sessions as a machine\<close>

text \<open>
  What the sessions of a work tree do over time: engage, close, tick, look at a story, and every
  other write to the store. A refused command changes nothing.
\<close>

inductive agent_step :: "int \<times> worktree \<Rightarrow> int \<times> worktree \<Rightarrow> bool" where
  wait: "t \<le> t' \<Longrightarrow> agent_step (t, wt) (t', wt)"
| engage: "runWorkInit story status session editable commitReady t wt = Inr wt' \<Longrightarrow> agent_step (t, wt) (t, wt')"
| close: "runWorkClose terminal commitsSince story session force t wt = Inr wt' \<Longrightarrow> agent_step (t, wt) (t, wt')"
| tick: "agent_step (t, wt) (t, wt\<lparr>wt_store := snd (tickEngagement session t (wt_store wt))\<rparr>)"
| look: "agent_step (t, wt) (t, wt\<lparr>wt_store := snd (assessAccess session story t (wt_store wt))\<rparr>)"
| store: "(\<And>c e. op \<noteq> OpAppend c e) \<Longrightarrow> agent_step (t, wt) (t, wt\<lparr>wt_store := ws_exec op (wt_store wt)\<rparr>)"

definition one_open :: "int \<times> worktree \<Rightarrow> bool" where
  "one_open st \<longleftrightarrow> ws_ok (wt_store (snd st)) \<and>
     (\<forall>session. \<forall>x \<in> opens (wt_store (snd st)) session (fst st). \<forall>y \<in> opens (wt_store (snd st)) session (fst st). x = y)"

lemma one_open_shrink:
  "one_open (t, wt) \<Longrightarrow> ws_ok s \<Longrightarrow> (\<And>session. opens s session t' \<subseteq> opens (wt_store wt) session t) \<Longrightarrow>
   wt_store wt' = s \<Longrightarrow> one_open (t', wt')"
  unfolding one_open_def by (metis fst_conv snd_conv subsetD)

lemma find_None_D: "find P xs = None \<Longrightarrow> x \<in> set xs \<Longrightarrow> \<not> P x"
  by (simp add: find_None_iff)

lemma runWorkInit_opens:
  assumes "runWorkInit story0 status session editable commitReady t wt = Inr wt'" and "ws_ok (wt_store wt)"
  shows "ws_ok (wt_store wt')" and "opens (wt_store wt') session t \<subseteq> {TrimSpace story0}"
    and "u \<noteq> session \<Longrightarrow> opens (wt_store wt') u t = opens (wt_store wt) u t"
proof -
  let ?ev = "engage_event ''engage'' session (TrimSpace story0) (TrimSpace status) editable commitReady t"
  have f: "find (\<lambda>e. en_Story e \<noteq> TrimSpace story0 \<and> isOpen e t) (LiveEngagement (wt_store wt) session) = None"
    and w: "wt_store wt' = ws_exec (OpAppend t ?ev) (wt_store wt)"
    using assms(1) WsAppend_exec(1) [of t ?ev "wt_store wt"]
    by (auto simp: runWorkInit_def Let_def split: if_splits option.splits sum.splits)
  show "ws_ok (wt_store wt')" unfolding w by (rule ws_ok_exec [OF assms(2)])
  have "opens (wt_store wt) session t \<subseteq> {TrimSpace story0}"
  proof
    fix k assume "k \<in> opens (wt_store wt) session t"
    then obtain e where e: "WsCurrent (wt_store wt) session k = Some e" "isOpen e t" by (auto simp: opens_def)
    then have "e \<in> set (LiveEngagement (wt_store wt) session)"
      using live_iff [OF assms(2)] WsCurrent_story by metis
    then show "k \<in> {TrimSpace story0}" using find_None_D [OF f] e WsCurrent_story by blast
  qed
  then show "opens (wt_store wt') session t \<subseteq> {TrimSpace story0}"
    unfolding w using opens_append [of t ?ev "wt_store wt" session t] by (auto simp: engage_event_def)
  show "u \<noteq> session \<Longrightarrow> opens (wt_store wt') u t = opens (wt_store wt) u t"
    unfolding w by (rule opens_append_other) (auto simp: ev_key_def engage_event_def)
qed

lemma one_open_step: "agent_step st st' \<Longrightarrow> one_open st \<Longrightarrow> one_open st'"
proof (induction rule: agent_step.induct)
  case (wait t t' wt)
  then show ?case using opens_later by (intro one_open_shrink [OF wait(2)]) (auto simp: one_open_def)
next
  case (engage story status session editable commitReady t wt wt')
  have ok: "ws_ok (wt_store wt)" using engage(2) by (simp add: one_open_def)
  note o = runWorkInit_opens [OF engage(1) ok]
  show ?case unfolding one_open_def fst_conv snd_conv
  proof (intro conjI allI)
    show "ws_ok (wt_store wt')" by (rule o(1))
    fix u show "\<forall>x \<in> opens (wt_store wt') u t. \<forall>y \<in> opens (wt_store wt') u t. x = y"
    proof (cases "u = session")
      case False
      then show ?thesis using o(3) engage(2) by (simp add: one_open_def)
    qed (use o(2) in auto)
  qed
next
  case (close terminal commitsSince story session force t wt wt')
  then have ok: "ws_ok (wt_store wt)" by (simp add: one_open_def)
  have w: "wt_store wt' = ws_exec (OpAppend t (close_event session (TrimSpace story) t)) (wt_store wt)"
    using close(1) WsAppend_exec(1) [of t "close_event session (TrimSpace story) t" "wt_store wt"]
    by (auto simp: runWorkClose_def Let_def split: if_splits option.splits sum.splits)
  show ?case unfolding w
    by (rule one_open_shrink [OF close(2) ws_ok_exec [OF ok] opens_append_not_open w]) simp
next
  case (tick t wt session)
  then have ok: "ws_ok (wt_store wt)" by (simp add: one_open_def)
  have "\<forall>e \<in> set (LiveEngagement (wt_store wt) session). isOpen e t \<longrightarrow> en_Story e \<in> opens (wt_store wt) (en_Session e) t"
  proof (intro ballI impI)
    fix e assume e: "e \<in> set (LiveEngagement (wt_store wt) session)" "isOpen e t"
    then show "en_Story e \<in> opens (wt_store wt) (en_Session e) t"
      using live_iff [OF ok] live_story [OF ok e(1)] by (auto simp: opens_def)
  qed
  from tick_loop_opens [OF this] show ?case
    by (intro one_open_shrink [OF tick tick_loop_ok [OF ok]]) (auto simp: tickEngagement_def)
next
  case (look t wt session story)
  then have ok: "ws_ok (wt_store wt)" by (simp add: one_open_def)
  have sub: "opens (snd (assessAccess session story t (wt_store wt))) u t \<subseteq> opens (wt_store wt) u t" for u
  proof -
    have "opens (ws_exec (OpAppend t (candidate_event k story t)) (wt_store wt)) u t \<subseteq> opens (wt_store wt) u t" for k
      by (rule opens_append_not_open) (simp add: candidate_event_def)
    then show ?thesis using assessAccess_state [of session story t "wt_store wt"] by (metis order_refl)
  qed
  have "ws_ok (snd (assessAccess session story t (wt_store wt)))"
    using assessAccess_state [of session story t "wt_store wt"] ws_ok_exec [OF ok] ok by metis
  then show ?case by (rule one_open_shrink [OF look _ sub]) simp
next
  case (store op t wt)
  then have ok: "ws_ok (wt_store wt)" by (simp add: one_open_def)
  have "opens (ws_exec op (wt_store wt)) u t = opens (wt_store wt) u t" for u
    unfolding opens_def using WsCurrent_other store(1) by simp
  then show ?case by (intro one_open_shrink [OF store(2) ws_ok_exec [OF ok, of op]]) auto
qed

lemma one_open_reach: "agent_step\<^sup>*\<^sup>* st st' \<Longrightarrow> one_open st \<Longrightarrow> one_open st'"
  by (induction rule: rtranclp_induct) (auto intro: one_open_step)

section \<open>The flush\<close>

text \<open>The list without its repetitions, in the order of the first occurrences.\<close>

definition firsts :: "'a list \<Rightarrow> 'a list" where
  "firsts xs = rev (remdups (rev xs))"

lemma firsts_simps [simp]: "firsts [] = []" "set (firsts xs) = set xs" "distinct (firsts xs)"
  "firsts (xs @ [x]) = (if x \<in> set xs then firsts xs else firsts xs @ [x])"
  by (simp_all add: firsts_def)

text \<open>What becomes of a send: the row is stored and acknowledged, stored and the reply lost, or not stored.\<close>

datatype fate = Acknowledged | ReplyLost | NotStored

definition fated :: "(LoggedEvent \<Rightarrow> LoggedEvent list \<Rightarrow> fate) \<Rightarrow> LoggedEvent \<Rightarrow> LoggedEvent list \<Rightarrow> bool \<times> LoggedEvent list" where
  "fated fate ev d = (case fate ev d of
     Acknowledged \<Rightarrow> (True, d @ [ev]) | ReplyLost \<Rightarrow> (False, d @ [ev]) | NotStored \<Rightarrow> (False, d))"

lemma fated_simps:
  "fate ev d = Acknowledged \<Longrightarrow> fated fate ev d = (True, d @ [ev])" "fate ev d = ReplyLost \<Longrightarrow> fated fate ev d = (False, d @ [ev])"
  "fate ev d = NotStored \<Longrightarrow> fated fate ev d = (False, d)"
  by (simp_all add: fated_def)

text \<open>The first event past a number, in a log whose numbers grow.\<close>

lemma first_past:
  assumes "filter (\<lambda>v. c < le_Seq v) log = ev # evs" and "sorted_wrt (<) (map le_Seq log)"
  shows "c < le_Seq ev \<and> ev \<in> set log \<and> evs = filter (\<lambda>v. le_Seq ev < le_Seq v) log \<and>
    (\<forall>v \<in> set log. c < le_Seq v \<longrightarrow> v = ev \<or> le_Seq ev < le_Seq v) \<and>
    filter (\<lambda>v. le_Seq v \<le> c) log @ [ev] = filter (\<lambda>v. le_Seq v \<le> le_Seq ev) log"
  using assms
proof (induction log)
  case (Cons x log)
  show ?case
  proof (cases "c < le_Seq x")
    case True
    then have e: "x = ev" "filter (\<lambda>v. c < le_Seq v) log = evs" using Cons.prems(1) by auto
    have g: "\<forall>v \<in> set log. le_Seq x < le_Seq v" using Cons.prems(2) by auto
    have "filter (\<lambda>v. c < le_Seq v) log = log" "filter (\<lambda>v. le_Seq x < le_Seq v) log = log"
      using g True by (simp_all add: filter_id_conv) fastforce
    moreover have "filter (\<lambda>v. le_Seq v \<le> c) log = []" "filter (\<lambda>v. le_Seq v \<le> le_Seq x) log = []"
      using g True by (fastforce simp: filter_empty_conv)+
    ultimately show ?thesis using e g True by auto
  next
    case False
    then show ?thesis using Cons by force
  qed
qed simp

lemma filter_between:
  "(\<And>v. v \<in> set log \<Longrightarrow> le_Seq v \<le> c \<longleftrightarrow> le_Seq v \<le> h) \<Longrightarrow> filter (\<lambda>v. le_Seq v \<le> c) log = filter (\<lambda>v. le_Seq v \<le> h) log"
  by (auto intro: filter_cong)

text \<open>One flush keeps the received events, without repetitions, a prefix of the log that covers the mark.\<close>

lemma flush_loop_resends:
  assumes "sorted_wrt (<) (map le_Seq log)"
  shows "flush_loop (fated fate) evs n c d = (n', m', d') \<Longrightarrow> evs = filter (\<lambda>v. c < le_Seq v) log \<Longrightarrow> c \<le> h \<Longrightarrow>
    firsts d = filter (\<lambda>v. le_Seq v \<le> h) log \<Longrightarrow>
    c \<le> m' \<and> (\<exists>h'. m' \<le> h' \<and> (h' = h \<or> h' \<in> le_Seq ` set log) \<and> firsts d' = filter (\<lambda>v. le_Seq v \<le> h') log)"
proof (induction evs arbitrary: n c d h)
  case (Cons ev evs)
  note p = first_past [OF Cons.prems(2) [symmetric] assms]
  have d: "set d = {v \<in> set log. le_Seq v \<le> h}" using arg_cong [OF Cons.prems(4), of set] by auto
  have stored: "\<exists>h'. le_Seq ev \<le> h' \<and> (h' = h \<or> h' \<in> le_Seq ` set log) \<and> firsts (d @ [ev]) = filter (\<lambda>v. le_Seq v \<le> h') log"
  proof (cases "le_Seq ev \<le> h")
    case True
    then show ?thesis using p d Cons.prems(4) by (intro exI [of _ h]) simp
  next
    case False
    then have "filter (\<lambda>v. le_Seq v \<le> h) log = filter (\<lambda>v. le_Seq v \<le> c) log"
      using p Cons.prems(3) by (intro filter_between) (smt (verit))
    then show ?thesis using p d Cons.prems(4) False by (intro exI [of _ "le_Seq ev"]) auto
  qed
  show ?case
  proof (cases "fate ev d")
    case Acknowledged
    obtain h1 where h1: "le_Seq ev \<le> h1" "h1 = h \<or> h1 \<in> le_Seq ` set log" "firsts (d @ [ev]) = filter (\<lambda>v. le_Seq v \<le> h1) log"
      using stored by blast
    have "flush_loop (fated fate) evs (Suc n) (le_Seq ev) (d @ [ev]) = (n', m', d')"
      using Cons.prems(1) p Acknowledged by (simp add: fated_simps)
    from Cons.IH [OF this _ h1(1,3)] p h1(2) show ?thesis by fastforce
  next
    case ReplyLost
    then have m: "m' = c" "d' = d @ [ev]" using Cons.prems(1) by (auto simp: fated_simps)
    obtain h1 where "le_Seq ev \<le> h1" "h1 = h \<or> h1 \<in> le_Seq ` set log" "firsts (d @ [ev]) = filter (\<lambda>v. le_Seq v \<le> h1) log"
      using stored by blast
    moreover have "c < le_Seq ev" using p by simp
    ultimately show ?thesis unfolding m by (intro conjI exI [of _ h1]) simp_all
  next
    case NotStored
    then have "m' = c" "d' = d" using Cons.prems(1) by (simp_all add: fated_simps)
    then show ?thesis using Cons.prems(3,4) by auto
  qed
qed auto

lemma exec_events:
  "st_events (ws_exec op s) = st_events s \<or> (\<exists>r. st_events (ws_exec op s) = snd (ai_insert r (st_events s)))"
  by (cases op) (auto simp: ws_defs)

text \<open>The store is written by its operations, and flushed to a server that keeps what arrives, with any fate of a send and of the mark.\<close>

inductive sync_step :: "workstate \<times> LoggedEvent list \<Rightarrow> workstate \<times> LoggedEvent list \<Rightarrow> bool" where
  put: "(\<And>q. op \<noteq> OpMark q) \<Longrightarrow> sync_step (s, d) (ws_exec op s, d)"
| flush: "runWorkSync (fated fate) marks s d = (r, s', d') \<Longrightarrow> sync_step (s, d) (s', d')"

definition event_log :: "workstate \<Rightarrow> LoggedEvent list" where
  "event_log s = map logged (ai_rows (st_events s))"

definition synced :: "workstate \<times> LoggedEvent list \<Rightarrow> bool" where
  "synced st \<longleftrightarrow> ws_ok (fst st) \<and> (\<exists>h. LastFlushedSeq (fst st) \<le> h \<and> h \<le> ai_last (st_events (fst st)) \<and>
     firsts (snd st) = filter (\<lambda>v. le_Seq v \<le> h) (event_log (fst st)))"

lemma seq_logged [simp]: "le_Seq (logged x) = fst x"
  by (cases x) (simp add: logged_def)

lemma EventsSince_filter: "EventsSince s q = filter (\<lambda>ev. q < le_Seq ev) (map logged (ai_rows (st_events s)))"
  unfolding EventsSince_def filter_map by (intro arg_cong [where f = "map logged"] filter_cong) auto

lemma EventsSince_sorted: "ws_ok s \<Longrightarrow> sorted_wrt (<) (map le_Seq (EventsSince s q))"
  unfolding EventsSince_filter
  by (rule sorted_wrt_map_filter) (simp add: ws_ok_def ai_ok_def comp_def)

lemma log_sorted: "ws_ok s \<Longrightarrow> sorted_wrt (<) (map le_Seq (event_log s))"
  by (simp add: event_log_def ws_ok_def ai_ok_def comp_def)

lemma log_last: "ws_ok s \<Longrightarrow> v \<in> set (event_log s) \<Longrightarrow> le_Seq v \<le> ai_last (st_events s)"
  by (auto simp: event_log_def ws_ok_def ai_ok_def)

lemma synced_step: "sync_step st st' \<Longrightarrow> synced st \<Longrightarrow> synced st'"
proof (induction rule: sync_step.induct)
  case (put op s d)
  then obtain h where ok: "ws_ok s" and h: "LastFlushedSeq s \<le> h" "h \<le> ai_last (st_events s)" "firsts d = filter (\<lambda>v. le_Seq v \<le> h) (event_log s)"
    by (auto simp: synced_def)
  have mark: "LastFlushedSeq (ws_exec op s) = LastFlushedSeq s"
    using put(1) by (cases op) (auto simp: ws_defs LastFlushedSeq_def)
  consider "st_events (ws_exec op s) = st_events s" | r where "st_events (ws_exec op s) = snd (ai_insert r (st_events s))"
    using exec_events [of op s] by blast
  then have "h \<le> ai_last (st_events (ws_exec op s)) \<and>
      filter (\<lambda>v. le_Seq v \<le> h) (event_log (ws_exec op s)) = filter (\<lambda>v. le_Seq v \<le> h) (event_log s)"
    by cases (use h(2) in \<open>simp_all add: event_log_def ai_insert_def\<close>)
  then show ?case using ws_ok_exec [OF ok, of op] h(1,3) mark by (auto simp: synced_def)
next
  case (flush fate marks s d r s' d')
  then obtain h where ok: "ws_ok s" and h: "LastFlushedSeq s \<le> h" "h \<le> ai_last (st_events s)" "firsts d = filter (\<lambda>v. le_Seq v \<le> h) (event_log s)"
    by (auto simp: synced_def)
  let ?m = "LastFlushedSeq s"
  obtain n' m' d'' where f: "flush_loop (fated fate) (EventsSince s ?m) 0 ?m d = (n', m', d'')"
    by (rule prod_cases3)
  have e: "EventsSince s ?m = filter (\<lambda>v. ?m < le_Seq v) (event_log s)" by (simp add: EventsSince_filter event_log_def)
  obtain h' where h': "?m \<le> m'" "m' \<le> h'" "h' = h \<or> h' \<in> le_Seq ` set (event_log s)" "firsts d'' = filter (\<lambda>v. le_Seq v \<le> h') (event_log s)"
    using flush_loop_resends [OF log_sorted [OF ok] f e h(1,3)] by blast
  have s': "s' = s \<or> s' = SetLastFlushedSeq m' s" "d' = d''"
    using flush(1) f by (auto simp: runWorkSync_def Let_def split: if_splits)
  have "LastFlushedSeq s' \<le> h'" "st_events s' = st_events s" "ws_ok s'"
    using s'(1) h' ok by (auto simp: SetLastFlushedSeq_def LastFlushedSeq_def ws_ok_def baselines_def)
  moreover have "h' \<le> ai_last (st_events s)" using h'(3) h(2) log_last [OF ok] by auto
  ultimately show ?case using h'(4) s'(2) by (auto simp: synced_def event_log_def)
qed

lemma synced_reach: "sync_step\<^sup>*\<^sup>* st st' \<Longrightarrow> synced st \<Longrightarrow> synced st'"
  by (induction rule: rtranclp_induct) (auto intro: synced_step)

section \<open>The heartbeat and the guards\<close>

definition stamped :: "int \<Rightarrow> string \<Rightarrow> Engagement \<Rightarrow> workstate \<Rightarrow> bool" where
  "stamped now session e s \<longleftrightarrow> (\<exists>e'. WsCurrent s session (en_Story e) = Some e' \<and> en_Phase e' = en_Phase e \<and>
     en_UpdatedAt e' = Some (now div second * second))"

lemma accepted_engage:
  "accepted (engage_event kind session story phase editable commitReady now) \<longleftrightarrow>
     TrimSpace session \<noteq> [] \<and> TrimSpace story \<noteq> [] \<and> TrimSpace kind \<noteq> []"
  by (simp add: accepted_def engage_event_def)

lemma WsAppend_accepted:
  "accepted e \<Longrightarrow> \<exists>q. WsAppend clock e s = Inr (q, ws_exec (OpAppend clock e) s)"
  by (cases "WsAppend clock e s") (use WsAppend_exec in \<open>fastforce simp del: ws_exec.simps\<close>)+

lemma tick_trims [simp]: "TrimSpace ''tick'' \<noteq> []" "TrimSpace ''engage'' \<noteq> []" "TrimSpace ''phase'' \<noteq> []"
  "TrimSpace KindClose \<noteq> []" "TrimSpace ''candidate'' \<noteq> []" "''tick'' \<noteq> KindClose" "''phase'' \<noteq> KindClose"
  by code_simp+

abbreviation tick_of :: "int \<Rightarrow> Engagement \<Rightarrow> Event" where
  "tick_of now e \<equiv> engage_event ''tick'' (en_Session e) (en_Story e) (en_Phase e) (en_Editable e) (en_CommitReady e) now"

lemma tick_loop_stamps:
  assumes "\<forall>x \<in> set es. en_Session x = session \<and> TrimSpace (en_Story x) \<noteq> [] \<and> (en_Story x = en_Story e \<longrightarrow> x = e)"
    and "TrimSpace session \<noteq> []" and "isOpen e now" and "now - or_clock 0 (en_UpdatedAt e) \<ge> engagementTickThrottle"
    and "e \<in> set es \<or> stamped now session e s"
  shows "stamped now session e (snd (tick_loop now es ticked s))"
  using assms(1,5)
proof (induction es arbitrary: s ticked)
  case (Cons x es)
  show ?case
  proof (cases "\<not> isOpen x now \<or> now - or_clock 0 (en_UpdatedAt x) < engagementTickThrottle")
    case True
    then have "x \<noteq> e" using assms(3,4) by auto
    then show ?thesis using Cons True by (auto simp: isOpen_def)
  next
    case False
    have "accepted (tick_of now x)" using Cons.prems(1) assms(2) by (simp add: accepted_engage)
    then obtain q where q: "WsAppend now (tick_of now x) s = Inr (q, ws_exec (OpAppend now (tick_of now x)) s)"
      using WsAppend_accepted by blast
    have st: "stamped now session e (ws_exec (OpAppend now (tick_of now x)) s)" if "x = e \<or> stamped now session e s"
      using that Cons.prems(1) \<open>accepted (tick_of now x)\<close> unfolding stamped_def WsCurrent_append
      by (auto simp: shown_def engage_event_def or_clock_def ev_key_def)
    have "stamped now session e (snd (tick_loop now es True (ws_exec (OpAppend now (tick_of now x)) s)))"
      using Cons.prems st by (intro Cons.IH) auto
    then show ?thesis using False q by (simp add: isOpen_def del: ws_exec.simps)
  qed
qed simp

lemma latest_accepted: "latest ops (session, story) = Some e \<Longrightarrow> TrimSpace session \<noteq> [] \<and> TrimSpace story \<noteq> []"
  by (induction ops "(session, story)" rule: latest.induct) (auto simp: accepted_def ev_key_def split: if_splits)

lemma current_named:
  "s = fold ws_exec ops migrate \<Longrightarrow> WsCurrent s session story = Some e \<Longrightarrow> TrimSpace session \<noteq> [] \<and> TrimSpace story \<noteq> []"
  using WsCurrent_run latest_accepted by metis

lemma tick_stamps:
  assumes "s = fold ws_exec ops migrate" and "WsCurrent s session story = Some e" and "isOpen e now"
    and "now - or_clock 0 (en_UpdatedAt e) \<ge> engagementTickThrottle"
  shows "stamped now session e (snd (tickEngagement session now s))"
proof -
  have ok: "ws_ok s" unfolding assms(1) by (rule evlog.ok_run) simp
  have "en_Session x = session \<and> TrimSpace (en_Story x) \<noteq> [] \<and> (en_Story x = en_Story e \<longrightarrow> x = e)"
    if x: "x \<in> set (LiveEngagement s session)" for x
  proof -
    have c: "WsCurrent s session (en_Story x) = Some x" using x live_iff [OF ok] by blast
    have "en_Story x = en_Story e \<longrightarrow> x = e" using c WsCurrent_story [OF assms(2)] assms(2) by (metis option.inject)
    then show ?thesis using current_named [OF assms(1) c] WsCurrent_story [OF c] by blast
  qed
  then show ?thesis unfolding tickEngagement_def
    using current_named [OF assms(1,2)] assms(3,4) live_current [OF ok assms(2)]
    by (intro tick_loop_stamps) auto
qed

lemma refreshed_open:
  "phase \<noteq> phaseCandidate \<Longrightarrow>
   isOpen (shown now (engage_event kind session story phase True c now)) now \<and>
   en_Editable (shown now (engage_event kind session story phase True c now))"
  by (auto simp: isOpen_def IsLeaseFresh_def shown_def engage_event_def parseRFC3339_def rfc3339OrEmpty_def
      engageLeaseTTL_def second_def)

section \<open>Properties\<close>

text \<open>
  A session has at most one open story: however sessions engage, close, tick, look at stories
  and let time pass (and whatever else is written to the store), two engagements of one session
  that are both fresh and not mere candidates are of the same story.
\<close>

theorem single_open:
  assumes "agent_step\<^sup>*\<^sup>* (t0, \<lparr>wt_store = migrate, wt_legacy = None\<rparr>) (t, wt)"
    and "e1 \<in> set (LiveEngagement (wt_store wt) session)" and "isOpen e1 t"
    and "e2 \<in> set (LiveEngagement (wt_store wt) session)" and "isOpen e2 t"
  shows "e1 = e2"
proof -
  have none: "WsCurrent migrate u v = None" for u v by (simp add: WsCurrent_def migrate_def)
  have "one_open (t0, \<lparr>wt_store = migrate, wt_legacy = None\<rparr>)" by (simp add: one_open_def opens_def none)
  from one_open_reach [OF assms(1) this] have one: "one_open (t, wt)" .
  then have ok: "ws_ok (wt_store wt)" by (simp add: one_open_def)
  have cur: "WsCurrent (wt_store wt) session (en_Story e1) = Some e1" "WsCurrent (wt_store wt) session (en_Story e2) = Some e2"
    using live_iff [OF ok] assms(2,4) by auto
  then have "en_Story e1 \<in> opens (wt_store wt) session t" "en_Story e2 \<in> opens (wt_store wt) session t"
    using assms(3,5) by (auto simp: opens_def)
  then have "en_Story e1 = en_Story e2" using one by (auto simp: one_open_def)
  then show ?thesis using cur by (metis option.inject)
qed

definition engaged_a :: worktree where
  "engaged_a = (case runWorkInit ''a'' ''in_progress'' ''s'' True False 0 \<lparr>wt_store = migrate, wt_legacy = None\<rparr> of
     Inr wt \<Rightarrow> wt | Inl e \<Rightarrow> \<lparr>wt_store = migrate, wt_legacy = None\<rparr>)"

theorem single_open_witness:
  "\<exists>e. LiveEngagement (wt_store engaged_a) ''s'' = [e] \<and> isOpen e 1 \<and>
     (\<forall>e' \<in> set (LiveEngagement (wt_store engaged_a) ''s''). isOpen e' 1 \<longrightarrow> e' = e)"
proof -
  have "agent_step (0, \<lparr>wt_store = migrate, wt_legacy = None\<rparr>) (0, engaged_a)"
    by (rule agent_step.engage [where story = "''a''" and status = "''in_progress''" and session = "''s''" and
        editable = True and commitReady = False]) code_simp
  moreover have "agent_step (0, engaged_a) (1, engaged_a)" by (rule agent_step.wait) simp
  ultimately have r: "agent_step\<^sup>*\<^sup>* (0, \<lparr>wt_store = migrate, wt_legacy = None\<rparr>) (1, engaged_a)" by simp
  have l: "LiveEngagement (wt_store engaged_a) ''s'' = [\<lparr>en_Session = ''s'', en_Story = ''a'', en_Phase = ''in_progress'',
      en_LeaseUntil = Some 7200000000000, en_Editable = True, en_CommitReady = False, en_UpdatedAt = Some 0\<rparr>]"
    by code_simp
  moreover have "isOpen (hd (LiveEngagement (wt_store engaged_a) ''s'')) 1" by code_simp
  ultimately show ?thesis using single_open [OF r] by (metis list.sel(1) list.set_intros(1))
qed

text \<open>
  C28: the edit door opens only under the log: when an edit is allowed, the last event of that
  session and story is not a close, was not a mere access, permits edits, and carries a lease that
  (to the second) has not expired; and when the door stays shut, no engagement of the session is
  open and editable.
\<close>

theorem door_sound:
  assumes "s = fold ws_exec ops migrate"
  shows "case engagementOutcome (Some s) session now of
      Allow e \<Rightarrow> \<exists>clock ev. OpAppend clock ev \<in> set ops \<and> latest (rev ops) (session, en_Story e) = Some (shown clock ev) \<and>
        ev_Kind ev \<noteq> KindClose \<and> ev_Phase ev \<noteq> phaseCandidate \<and> ev_Editable ev \<and>
        (\<exists>l. ev_LeaseUntil ev = Some l \<and> now < l div second * second)
    | _ \<Rightarrow> \<not> (\<exists>story e. latest (rev ops) (session, story) = Some e \<and> isOpen e now \<and> en_Editable e)"
proof -
  have ok: "ws_ok s" unfolding assms by (rule evlog.ok_run) simp
  have cur: "WsCurrent s session story = latest (rev ops) (session, story)" for story
    unfolding assms by (rule WsCurrent_run)
  have from_log: "latest ops' k = Some e \<Longrightarrow> \<exists>clock ev. OpAppend clock ev \<in> set ops' \<and> e = shown clock ev \<and> ev_Kind ev \<noteq> KindClose"
    for ops' k e by (induction ops' k rule: latest.induct) (auto split: if_splits)
  show ?thesis
  proof (cases "\<exists>e. engagementOutcome (Some s) session now = Allow e")
    case False
    then have "\<not> (\<exists>story e. latest (rev ops) (session, story) = Some e \<and> isOpen e now \<and> en_Editable e)"
      using door_allow_iff [OF ok, of session now] by (simp add: cur)
    then show ?thesis using False by (simp split: door.splits)
  next
    case True
    then obtain e where e: "engagementOutcome (Some s) session now = Allow e" by blast
    then have d: "e \<in> set (LiveEngagement s session)" "isOpen e now" "en_Editable e"
      using door_loop_spec [where now = now and es = "LiveEngagement s session" and saw = False and fr = False]
      by (auto simp: engagementOutcome_def)
    then have l: "latest (rev ops) (session, en_Story e) = Some e" using live_iff [OF ok] cur by metis
    obtain clock ev where ev: "OpAppend clock ev \<in> set ops" "e = shown clock ev" "ev_Kind ev \<noteq> KindClose"
      using from_log [OF l] by auto
    have "ev_Phase ev \<noteq> phaseCandidate \<and> ev_Editable ev \<and> (\<exists>l. ev_LeaseUntil ev = Some l \<and> now < l div second * second)"
      using d(2,3) unfolding ev(2)
      by (auto simp: isOpen_def IsLeaseFresh_def shown_def parseRFC3339_def rfc3339OrEmpty_def split: option.splits)
    then show ?thesis using e ev l by auto
  qed
qed

theorem door_sound_witness:
  "\<exists>clock ev. OpAppend clock ev \<in> set [OpAppend 0 ev1] \<and>
     latest (rev [OpAppend 0 ev1]) (''s'', ''y'') = Some (shown clock ev) \<and> ev_Editable ev"
proof -
  have "engagementOutcome (Some (fold ws_exec [OpAppend 0 ev1] migrate)) ''s'' 4999999999 =
      Allow \<lparr>en_Session = ''s'', en_Story = ''y'', en_Phase = ''p'', en_LeaseUntil = Some 5000000000, en_Editable = True,
        en_CommitReady = False, en_UpdatedAt = Some 1000000000\<rparr>" by code_simp
  with door_sound [OF refl, of "[OpAppend 0 ev1]" "''s''" 4999999999] show ?thesis by auto
qed

text \<open>
  C29: the flush loses nothing and invents nothing. Whatever is written to the store and however often the flush runs, with any
  sends that fail, any replies that are lost after the server has stored the row, and any marks that are not written: what the server
  received, each event counted where it first arrived, is the event log in its order up to some number that is not below the mark. So
  an event at or below the mark is there, one that is not there is read by the next flush, and events arrive again but never out of order.
\<close>

theorem flush_loses_nothing:
  assumes "sync_step\<^sup>*\<^sup>* (migrate, []) (s, d)"
  shows "\<exists>h. LastFlushedSeq s \<le> h \<and> firsts d = filter (\<lambda>v. le_Seq v \<le> h) (event_log s) \<and>
    set (event_log s) = set d \<union> set (EventsSince s (LastFlushedSeq s))"
proof -
  have "synced (migrate, [])"
    unfolding synced_def by (auto simp: event_log_def migrate_def ai_empty_def LastFlushedSeq_def intro!: exI [of _ 0])
      (simp add: ws_ok_migrate [unfolded migrate_def ai_empty_def])
  from synced_reach [OF assms this] obtain h where h: "LastFlushedSeq s \<le> h" "firsts d = filter (\<lambda>v. le_Seq v \<le> h) (event_log s)"
    by (auto simp: synced_def)
  have "set d = {v \<in> set (event_log s). le_Seq v \<le> h}" using arg_cong [OF h(2), of set] by auto
  then show ?thesis using h by (intro exI [of _ h]) (auto simp: EventsSince_filter event_log_def)
qed

text \<open>
  Two events are logged; the reply to the second is lost and the mark is not written, and the next flush sends both again.
\<close>

definition two_logged :: workstate where
  "two_logged = ws_exec (OpAppend 1 ev1) (ws_exec (OpAppend 0 ev1) migrate)"

definition lossy :: "LoggedEvent \<Rightarrow> LoggedEvent list \<Rightarrow> fate" where
  "lossy ev d = (if d = [] then Acknowledged else ReplyLost)"

definition after_loss :: "sync_reply \<times> workstate \<times> LoggedEvent list" where
  "after_loss = runWorkSync (fated lossy) False two_logged []"

definition after_retry :: "sync_reply \<times> workstate \<times> LoggedEvent list" where
  "after_retry = runWorkSync (fated (\<lambda>ev d. Acknowledged)) True (fst (snd after_loss)) (snd (snd after_loss))"

lemma flush_reaches: "runWorkSync (fated f) m s d = x \<Longrightarrow> sync_step (s, d) (fst (snd x), snd (snd x))"
  by (cases x) (auto intro: sync_step.flush)

theorem flush_loses_nothing_witness:
  "fst after_loss = MarkFailed \<and> map le_Seq (snd (snd after_loss)) = [1, 2] \<and> map le_Seq (snd (snd after_retry)) = [1, 2, 1, 2] \<and>
   LastFlushedSeq (fst (snd after_retry)) = 2 \<and> (\<exists>h \<ge> 2. firsts (snd (snd after_retry)) = filter (\<lambda>v. le_Seq v \<le> h) (event_log two_logged))"
proof -
  have "sync_step (migrate, []) (ws_exec (OpAppend 0 ev1) migrate, [])" "sync_step (ws_exec (OpAppend 0 ev1) migrate, []) (two_logged, [])"
    unfolding two_logged_def by (rule sync_step.put, simp)+
  moreover have "sync_step (two_logged, []) (fst (snd after_loss), snd (snd after_loss))"
    by (rule flush_reaches [of lossy False]) (simp add: after_loss_def)
  moreover have "sync_step (fst (snd after_loss), snd (snd after_loss)) (fst (snd after_retry), snd (snd after_retry))"
    by (rule flush_reaches [of "\<lambda>ev d. Acknowledged" True]) (simp add: after_retry_def)
  ultimately have "sync_step\<^sup>*\<^sup>* (migrate, []) (fst (snd after_retry), snd (snd after_retry))"
    by (meson converse_rtranclp_into_rtranclp rtranclp.rtrancl_refl)
  from flush_loses_nothing [OF this] obtain h where h: "LastFlushedSeq (fst (snd after_retry)) \<le> h"
    "firsts (snd (snd after_retry)) = filter (\<lambda>v. le_Seq v \<le> h) (event_log (fst (snd after_retry)))" by blast
  have c: "fst after_loss = MarkFailed" "map le_Seq (snd (snd after_loss)) = [1, 2]" "map le_Seq (snd (snd after_retry)) = [1, 2, 1, 2]"
    "LastFlushedSeq (fst (snd after_retry)) = 2" "event_log (fst (snd after_retry)) = event_log two_logged" by code_simp+
  show ?thesis using h c by auto
qed

text \<open>
  The heartbeat that runs before every command defeats the guard of the close: where the close
  of an engaged story is refused because commits were made since it was stamped, the same close is
  granted once the tick has stamped it anew (no commit lies after the current second), although
  nothing was finished.
\<close>

theorem close_guard_defeated:
  assumes "s = fold ws_exec ops migrate" and "WsCurrent s session story = Some e" and "isOpen e now"
    and "now - or_clock 0 (en_UpdatedAt e) \<ge> engagementTickThrottle" and "TrimSpace story = story"
    and "terminal (en_Phase e) = Some False" and "commitsSince (en_UpdatedAt e) > 0"
    and "commitsSince (Some (now div second * second)) = 0"
  shows "runWorkClose terminal commitsSince story session False now \<lparr>wt_store = s, wt_legacy = l\<rparr> =
      Inl (AbandonsWork (en_Phase e) (commitsSince (en_UpdatedAt e))) \<and>
    (\<exists>wt. runWorkClose terminal commitsSince story session False now
       \<lparr>wt_store = snd (tickEngagement session now s), wt_legacy = l\<rparr> = Inr wt \<and>
       WsCurrent (wt_store wt) session story = None)"
proof -
  let ?s = "snd (tickEngagement session now s)" and ?ev = "close_event session story now"
  have n: "TrimSpace session \<noteq> []" "story \<noteq> []" using current_named [OF assms(1,2)] assms(5) by auto
  have st: "en_Story e = story" using WsCurrent_story [OF assms(2)] by simp
  obtain e' where e': "WsCurrent ?s session story = Some e'" "en_UpdatedAt e' = Some (now div second * second)"
    using tick_stamps [OF assms(1-4)] unfolding stamped_def st by blast
  then have "close_guard terminal commitsSince story session ?s = None"
    by (simp add: close_guard_def assms(8))
  moreover have "accepted ?ev" using n assms(5) by (simp add: accepted_def close_event_def)
  then obtain q where "WsAppend now ?ev ?s = Inr (q, ws_exec (OpAppend now ?ev) ?s)" using WsAppend_accepted by blast
  moreover have "WsCurrent (ws_exec (OpAppend now ?ev) ?s) session story = None"
    unfolding WsCurrent_append using \<open>accepted ?ev\<close> by simp
  moreover have "close_guard terminal commitsSince story session s =
      Some (AbandonsWork (en_Phase e) (commitsSince (en_UpdatedAt e)))"
    by (simp add: close_guard_def assms(2,6,7))
  ultimately show ?thesis using n assms(5) by (simp add: runWorkClose_def Let_def del: ws_exec.simps)
qed

theorem close_guard_defeated_witness:
  "\<exists>wt. runWorkClose (\<lambda>p. Some False) (\<lambda>t. if t = Some 0 then 3 else 0) ''a'' ''s'' False (40 * second)
     \<lparr>wt_store = snd (tickEngagement ''s'' (40 * second) (wt_store engaged_a)), wt_legacy = None\<rparr> = Inr wt"
proof -
  let ?e = "\<lparr>en_Session = ''s'', en_Story = ''a'', en_Phase = ''in_progress'', en_LeaseUntil = Some 7200000000000,
      en_Editable = True, en_CommitReady = False, en_UpdatedAt = Some 0\<rparr>"
  have "wt_store engaged_a = fold ws_exec [OpAppend 0 (engage_event ''engage'' ''s'' ''a'' ''in_progress'' True False 0)] migrate"
    "WsCurrent (wt_store engaged_a) ''s'' ''a'' = Some ?e" "isOpen ?e (40 * second)"
    "40 * second - or_clock 0 (en_UpdatedAt ?e) \<ge> engagementTickThrottle" "TrimSpace ''a'' = ''a''"
    by code_simp+
  from close_guard_defeated [OF this, of "\<lambda>p. Some False" "\<lambda>t. if t = Some 0 then 3 else 0" None]
  show ?thesis unfolding second_def by simp blast
qed

text \<open>
  Looking at a story can take the engagement away: an engagement recorded without a phase (what
  the engage command records when no status is given) is replaced by a candidate without a lease as
  soon as the session reads the story, and then no longer authorises edits.
\<close>

theorem access_demotes:
  assumes "s = fold ws_exec ops migrate" and "WsCurrent s session story = Some e" and "TrimSpace (en_Phase e) = []"
  shows "fst (assessAccess session story now s) \<and>
    (\<exists>e'. WsCurrent (snd (assessAccess session story now s)) session story = Some e' \<and>
       en_Phase e' = phaseCandidate \<and> en_LeaseUntil e' = None \<and> \<not> en_Editable e')"
proof -
  have n: "TrimSpace session \<noteq> []" "TrimSpace story \<noteq> []" using current_named [OF assms(1,2)] by auto
  let ?ev = "candidate_event session story now"
  have "assessAccess session story now s = (True, ws_exec (OpAppend now ?ev) s)"
    using n assms(2,3) unfolding assessAccess_def Let_def kept_append by (simp add: isLiveEngagement_def del: ws_exec.simps)
  moreover have "WsCurrent (ws_exec (OpAppend now ?ev) s) session story = Some (shown now ?ev)"
    unfolding WsCurrent_append using n
    by (simp add: accepted_def candidate_event_def ev_key_def KindClose_def)
  ultimately show ?thesis
    by (simp add: candidate_event_def shown_def parseRFC3339_def rfc3339OrEmpty_def del: ws_exec.simps)
qed

definition engaged_unset :: workstate where
  "engaged_unset = (case runWorkInit ''a'' [] ''s'' True False 0 \<lparr>wt_store = migrate, wt_legacy = None\<rparr> of
     Inr wt \<Rightarrow> wt_store wt | Inl e \<Rightarrow> migrate)"

theorem access_demotes_witness:
  "(\<exists>e. engagementOutcome (Some engaged_unset) ''s'' 1 = Allow e) \<and>
   (\<exists>e'. WsCurrent (snd (assessAccess ''s'' ''a'' 1 engaged_unset)) ''s'' ''a'' = Some e' \<and> en_LeaseUntil e' = None)"
proof -
  let ?e = "\<lparr>en_Session = ''s'', en_Story = ''a'', en_Phase = [], en_LeaseUntil = Some 7200000000000,
      en_Editable = True, en_CommitReady = False, en_UpdatedAt = Some 0\<rparr>"
  have "engaged_unset = fold ws_exec [OpAppend 0 (engage_event ''engage'' ''s'' ''a'' [] True False 0)] migrate"
    "WsCurrent engaged_unset ''s'' ''a'' = Some ?e" "TrimSpace (en_Phase ?e) = []" by code_simp+
  from access_demotes [OF this, of 1]
  have "\<exists>e'. WsCurrent (snd (assessAccess ''s'' ''a'' 1 engaged_unset)) ''s'' ''a'' = Some e' \<and> en_LeaseUntil e' = None" by blast
  moreover have "engagementOutcome (Some engaged_unset) ''s'' 1 = Allow ?e" by code_simp
  ultimately show ?thesis by blast
qed

text \<open>
  The refresh after a review does fabricate an engagement: for a session that has no engagement
  and merely read a story, the refresh of that story's phase opens the edit door.
\<close>

theorem refresh_fabricates:
  assumes "s = fold ws_exec ops migrate" and "LiveEngagement s session = []" and "TrimSpace session \<noteq> []"
    and "TrimSpace story \<noteq> []" and "TrimSpace phase \<noteq> phaseCandidate"
  shows "\<exists>s2. refreshEngagementPhase session story phase True False now (snd (assessAccess session story now s)) = Inr (True, s2) \<and>
    engagementOutcome (Some (snd (assessAccess session story now s))) session now = DenyNone \<and>
    (\<exists>e. engagementOutcome (Some s2) session now = Allow e)"
proof -
  let ?c = "candidate_event session story now" and ?p = "engage_event ''phase'' session story (TrimSpace phase) True False now"
  have ok: "ws_ok s" unfolding assms(1) by (rule evlog.ok_run) simp
  have none: "WsCurrent s session k = None" for k using live_current [OF ok, of session k] assms(2) by (cases "WsCurrent s session k") auto
  let ?s1 = "ws_exec (OpAppend now ?c) s"
  have s1: "assessAccess session story now s = (True, ?s1)"
    using assms(3) none unfolding assessAccess_def Let_def kept_append by (simp del: ws_exec.simps)
  have acc: "accepted ?c" "ev_key ?c = (session, story)" "ev_Kind ?c \<noteq> KindClose" "ev_Phase ?c = phaseCandidate"
    using assms(3,4) by (auto simp: accepted_def candidate_event_def ev_key_def KindClose_def)
  have cur: "WsCurrent ?s1 session k = (if k = story then Some (shown now ?c) else None)" for k
    unfolding WsCurrent_append using acc none by auto
  have ok1: "ws_ok ?s1" by (rule ws_ok_exec [OF ok])
  have "en_Phase x = phaseCandidate" if "x \<in> set (LiveEngagement ?s1 session)" for x
  proof -
    have "WsCurrent ?s1 session (en_Story x) = Some x" using that live_iff [OF ok1] by blast
    then have "x = shown now ?c" unfolding cur by (simp split: if_splits)
    then show ?thesis using acc(4) by simp
  qed
  then have "engagementOutcome (Some ?s1) session now = DenyNone"
    using door_loop_spec [where now = now and es = "LiveEngagement ?s1 session" and saw = False and fr = False]
    by (auto simp: engagementOutcome_def isOpen_def split: door.splits simp del: ws_exec.simps)
  moreover have accp: "accepted ?p" using assms(3,4) by (simp add: accepted_engage)
  then obtain q where "WsAppend now ?p ?s1 = Inr (q, ws_exec (OpAppend now ?p) ?s1)" using WsAppend_accepted by blast
  then have "refreshEngagementPhase session story phase True False now ?s1 = Inr (True, ws_exec (OpAppend now ?p) ?s1)"
    using assms(3,4) cur [of story] by (simp add: refreshEngagementPhase_def del: ws_exec.simps)
  moreover have "WsCurrent (ws_exec (OpAppend now ?p) ?s1) session story = Some (shown now ?p)"
    unfolding WsCurrent_append [of now ?p] using accp by simp
  then have "\<exists>e. engagementOutcome (Some (ws_exec (OpAppend now ?p) ?s1)) session now = Allow e"
    using door_allow_iff [OF ws_ok_exec [OF ok1], of "OpAppend now ?p" session now] refreshed_open [OF assms(5)] by blast
  ultimately show ?thesis unfolding s1 by (simp del: ws_exec.simps)
qed

theorem refresh_fabricates_witness:
  "\<exists>e s2. refreshEngagementPhase ''s'' ''a'' ''in_progress'' True False 0 (snd (assessAccess ''s'' ''a'' 0 migrate)) = Inr (True, s2) \<and>
     engagementOutcome (Some s2) ''s'' 0 = Allow e"
proof -
  have "migrate = fold ws_exec [] migrate" "LiveEngagement migrate ''s'' = []" by code_simp+
  moreover have "TrimSpace ''s'' \<noteq> []" "TrimSpace ''a'' \<noteq> []" "TrimSpace ''in_progress'' \<noteq> phaseCandidate" by code_simp+
  ultimately show ?thesis using refresh_fabricates by blast
qed

end
