(* ===== verification/Kvtag.thy ===== *)
theory Kvtag
  imports Prelude
begin

text \<open>
  \<^verbatim>\<open>internal/kvtag/kvtag.go\<close>: key:value tags in a tag list. A nil slice and an empty one are
  the same list.
\<close>

definition SingleValued :: "string list" where
  "SingleValued = [''type'', ''phase'']"

definition colon :: string where "colon = '':''"

definition kv_split :: "string \<Rightarrow> (string \<times> string) option" where
  "kv_split tag =
     (case Index tag colon of
        None \<Rightarrow> None
      | Some i \<Rightarrow>
          (if i = 0 \<or> i = length tag - 1 then None else Some (take i tag, drop (i + 1) tag)))"

definition has_key :: "string \<Rightarrow> string \<Rightarrow> bool" where
  "has_key key t = (case kv_split t of Some (k, v) \<Rightarrow> k = key | None \<Rightarrow> False)"

fun kvValue :: "string list \<Rightarrow> string \<Rightarrow> string" where
  "kvValue [] key = []"
| "kvValue (t # ts) key =
     (case kv_split t of
        Some (k, v) \<Rightarrow> (if k = key then v else kvValue ts key)
      | None \<Rightarrow> kvValue ts key)"

definition kvHas :: "string list \<Rightarrow> string \<Rightarrow> bool" where
  "kvHas tags key = list_ex (has_key key) tags"

definition kvRemove :: "string list \<Rightarrow> string \<Rightarrow> string list" where
  "kvRemove tags key = filter (\<lambda>t. \<not> has_key key t) tags"

definition kvSet :: "string list \<Rightarrow> string \<Rightarrow> string \<Rightarrow> string list" where
  "kvSet tags key value = filter (\<lambda>t. \<not> has_key key t) tags @ [key @ colon @ value]"

definition isSingleValued :: "string \<Rightarrow> bool" where
  "isSingleValued key = list_ex (\<lambda>k. k = key) SingleValued"

text \<open>\<open>Normalize\<close>: the map from a single-valued key to the index of its last tag, then the copy
  of the tags that are not earlier duplicates.\<close>

fun last_index :: "nat \<Rightarrow> string list \<Rightarrow> (string \<Rightarrow> nat) \<Rightarrow> string \<Rightarrow> nat" where
  "last_index i [] m = m"
| "last_index i (t # ts) m =
     last_index (Suc i) ts
       (case kv_split t of Some (k, v) \<Rightarrow> (if isSingleValued k then m(k := i) else m) | None \<Rightarrow> m)"

fun keep_last :: "nat \<Rightarrow> (string \<Rightarrow> nat) \<Rightarrow> string list \<Rightarrow> string list" where
  "keep_last i lst [] = []"
| "keep_last i lst (t # ts) =
     (case kv_split t of
        Some (k, v) \<Rightarrow>
          (if isSingleValued k \<and> lst k \<noteq> i then keep_last (Suc i) lst ts
           else t # keep_last (Suc i) lst ts)
      | None \<Rightarrow> t # keep_last (Suc i) lst ts)"

definition kvNormalize :: "string list \<Rightarrow> string list" where
  "kvNormalize tags = keep_last 0 (last_index 0 tags (\<lambda>k. 0)) tags"

section \<open>A reference definition\<close>

text \<open>A single-valued tag is kept when no later tag has its key.\<close>

fun norm_ref :: "string list \<Rightarrow> string list" where
  "norm_ref [] = []"
| "norm_ref (t # ts) =
     (case kv_split t of
        Some (k, v) \<Rightarrow> (if isSingleValued k \<and> kvHas ts k then norm_ref ts else t # norm_ref ts)
      | None \<Rightarrow> t # norm_ref ts)"

lemma kvHas_simps [simp]:
  "kvHas [] k = False" "kvHas (t # ts) k = (has_key k t \<or> kvHas ts k)"
  "kvHas (ts @ us) k = (kvHas ts k \<or> kvHas us k)"
  by (simp_all add: kvHas_def)

lemma last_index_miss: "\<not> kvHas ts k \<or> \<not> isSingleValued k \<Longrightarrow> last_index i ts m k = m k"
  by (induction i ts m rule: last_index.induct) (auto simp: has_key_def split: option.splits)

lemma last_index_hit: "isSingleValued k \<Longrightarrow> kvHas ts k \<Longrightarrow> i \<le> last_index i ts m k"
proof (induction i ts m rule: last_index.induct)
  case (2 i t ts m)
  let ?m = "case kv_split t of Some (k, v) \<Rightarrow> (if isSingleValued k then m(k := i) else m) | None \<Rightarrow> m"
  show ?case
  proof (cases "kvHas ts k")
    case True
    then show ?thesis using 2(1) [OF 2(2) True] by simp
  next
    case False
    then have "has_key k t" using 2 by simp
    then have "?m k = i" using 2(2) by (auto simp: has_key_def split: option.splits)
    then show ?thesis using last_index_miss [of ts k "Suc i" ?m] False by simp
  qed
qed simp

lemma keep_last_ref:
  "(\<And>k. isSingleValued k \<Longrightarrow> kvHas ts k \<Longrightarrow> lst k = last_index i ts m k) \<Longrightarrow>
   keep_last i lst ts = norm_ref ts"
proof (induction ts arbitrary: i m)
  case (Cons t ts)
  let ?m = "case kv_split t of Some (k, v) \<Rightarrow> (if isSingleValued k then m(k := i) else m) | None \<Rightarrow> m"
  have rest: "keep_last (Suc i) lst ts = norm_ref ts"
    using Cons.prems by (intro Cons.IH [of "Suc i" ?m]) simp
  show ?case
  proof (cases "\<exists>k v. kv_split t = Some (k, v) \<and> isSingleValued k")
    case False
    then show ?thesis using rest by (auto split: option.split)
  next
    case True
    then obtain k v where t: "kv_split t = Some (k, v)" "isSingleValued k" by blast
    then have "has_key k t" by (simp add: has_key_def)
    then have l: "lst k = last_index (Suc i) ts ?m k" using Cons.prems [OF t(2)] by simp
    show ?thesis
    proof (cases "kvHas ts k")
      case True
      then have "lst k \<noteq> i" using last_index_hit [OF t(2) True, of "Suc i" ?m] l by simp
      then show ?thesis using t rest True by simp
    next
      case False
      then have "lst k = i" using last_index_miss [of ts k "Suc i" ?m] l t by simp
      then show ?thesis using t rest False by simp
    qed
  qed
qed simp

lemma kvNormalize_ref: "kvNormalize tags = norm_ref tags"
  unfolding kvNormalize_def by (rule keep_last_ref [where m = "\<lambda>k. 0"]) simp

lemma kvHas_norm_ref [simp]: "kvHas (norm_ref ts) k = kvHas ts k"
  by (induction ts) (auto simp: has_key_def split: option.splits)

lemma norm_ref_idem: "norm_ref (norm_ref ts) = norm_ref ts"
  by (induction ts) (auto split: option.splits)

lemma norm_ref_once:
  "isSingleValued k \<Longrightarrow> length (filter (has_key k) (norm_ref ts)) \<le> 1"
proof (induction ts)
  case (Cons t ts)
  show ?case
  proof (cases "kv_split t")
    case (Some p)
    obtain k' v where p: "p = (k', v)" by (cases p)
    show ?thesis
    proof (cases "k' = k \<and> \<not> kvHas ts k")
      case True
      then have "filter (has_key k) (norm_ref ts) = []"
        using kvHas_norm_ref [of ts k] by (auto simp: kvHas_def list_ex_iff filter_empty_conv simp del: kvHas_norm_ref)
      then show ?thesis using Some p True Cons.prems by simp
    next
      case False
      then show ?thesis using Some p Cons by (auto simp: has_key_def)
    qed
  next
    case None
    then show ?thesis using Cons by (simp add: has_key_def)
  qed
qed simp

lemma norm_ref_other:
  "\<not> isSingleValued k \<Longrightarrow> filter (has_key k) (norm_ref ts) = filter (has_key k) ts"
  by (induction ts) (auto simp: has_key_def split: option.splits)

lemma kvValue_norm_last:
  "isSingleValued k \<Longrightarrow> \<not> kvHas ts k \<Longrightarrow> kv_split t = Some (k, v) \<Longrightarrow> kvValue (norm_ref (ps @ t # ts)) k = v"
  by (induction ps) (auto simp: has_key_def split: option.splits)

lemma Index_colon_no: "CHR '':'' \<notin> set k \<Longrightarrow> Index (k @ CHR '':'' # v) colon = Some (length k)"
  by (induction k) (auto simp: colon_def)

lemma kv_split_make:
  "k \<noteq> [] \<Longrightarrow> CHR '':'' \<notin> set k \<Longrightarrow> v \<noteq> [] \<Longrightarrow> kv_split (k @ colon @ v) = Some (k, v)"
  using Index_colon_no [of k v] by (cases v) (auto simp: kv_split_def colon_def)

lemma kvValue_filter: "kvValue (filter (\<lambda>t. \<not> has_key k t) ts @ us) k = kvValue us k"
  by (induction ts) (auto simp: has_key_def split: option.splits)

lemma kvValue_filter_other:
  "k' \<noteq> k \<Longrightarrow> kvValue (filter (\<lambda>t. \<not> has_key k t) ts @ us) k' = kvValue (ts @ us) k'"
  by (induction ts) (auto simp: has_key_def split: option.splits)

lemma kvValue_append_miss: "\<not> has_key k t \<Longrightarrow> kvValue (ts @ [t]) k = kvValue ts k"
  by (induction ts) (auto simp: has_key_def split: option.splits)

section \<open>Properties\<close>

text \<open>
  The two-pass \<open>Normalize\<close> keeps exactly the tags that the reference definition keeps; the
  result holds at most one tag of each single-valued key (the last one), keeps every tag of any
  other key, and is a fixed point.
\<close>

theorem kvNormalize_correct:
  "kvNormalize tags = norm_ref tags
   \<and> kvNormalize (kvNormalize tags) = kvNormalize tags
   \<and> (if isSingleValued k then length (filter (has_key k) (kvNormalize tags)) \<le> 1
      else filter (has_key k) (kvNormalize tags) = filter (has_key k) tags)"
  using norm_ref_once [of k tags] by (simp add: kvNormalize_ref norm_ref_idem norm_ref_other)

text \<open>
  \<open>Set\<close> then \<open>Value\<close> returns the value set and leaves the value of every other key as it was.
\<close>

theorem kvSet_Value:
  assumes "key \<noteq> []" and "CHR '':'' \<notin> set key" and "value \<noteq> []"
  shows "kvValue (kvSet tags key value) k = (if k = key then value else kvValue tags k)"
proof (cases "k = key")
  case True
  then show ?thesis using kvValue_filter [of key tags] kv_split_make [OF assms] by (simp add: kvSet_def)
next
  case False
  then have "\<not> has_key k (key @ colon @ value)" using kv_split_make [OF assms] by (simp add: has_key_def)
  then have "kvValue (tags @ [key @ colon @ value]) k = kvValue tags k" by (rule kvValue_append_miss)
  then show ?thesis using False kvValue_filter_other [of k key tags] by (simp add: kvSet_def)
qed

theorem kvSet_Value_witness: "kvValue (kvSet [''area:cli''] ''phase'' ''build'') ''phase'' = ''build''"
  using kvSet_Value [of "''phase''" "''build''" "[''area:cli'']" "''phase''"] by simp

end
