(* ===== verification/Paging.thy ===== *)
theory Paging
  imports Prelude "HOL-Library.Multiset" "HOL-Library.Char_ord" "HOL-Library.List_Lexorder" "HOL-Library.Product_Lexorder"
begin

text \<open>
  Keyset pagination, the contract the list operations of the stores share: a page is the first
  \<open>limit\<close> rows of the ordered listing behind the cursor, and the next cursor is that of the
  page's last row, empty when no row is left. Walking the cursors visits the listing once.
\<close>

definition cut :: "('r \<Rightarrow> 'c) \<Rightarrow> nat \<Rightarrow> 'r list \<Rightarrow> 'r list \<times> 'c option" where
  "cut cur limit xs = (take limit xs, if length xs > limit then Some (cur (xs ! (limit - 1))) else None)"

text \<open>Following the cursors for at most \<open>fuel\<close> pages: the pages read and whether the end was reached.\<close>

fun walk :: "('c option \<Rightarrow> 'r list \<times> 'c option) \<Rightarrow> nat \<Rightarrow> 'c option \<Rightarrow> 'r list list \<times> bool" where
  "walk page 0 c = ([], False)"
| "walk page (Suc n) c = (case page c of
     (rows, None) \<Rightarrow> ([rows], True)
   | (rows, Some c') \<Rightarrow> (case walk page n (Some c') of (ps, done) \<Rightarrow> (rows # ps, done)))"

locale keyset_pages =
  fixes ok :: "'s \<Rightarrow> bool" and listing :: "'s \<Rightarrow> 'q \<Rightarrow> 'r list" and page :: "'s \<Rightarrow> 'q \<Rightarrow> 'c option \<Rightarrow> 'r list \<times> 'c option"
    and limit :: "'q \<Rightarrow> nat" and cur :: "'r \<Rightarrow> 'c"
  assumes limit_pos: "0 < limit q"
    and first: "ok s \<Longrightarrow> page s q None = cut cur (limit q) (listing s q)"
    and behind: "ok s \<Longrightarrow> listing s q = pre @ r # post \<Longrightarrow> page s q (Some (cur r)) = cut cur (limit q) post"
begin

lemma page_size: "ok s \<Longrightarrow> length (fst (page s q None)) \<le> limit q"
  by (simp add: first cut_def)

lemma walk_from:
  assumes "ok s" and "length post < n * limit q" and "listing s q = pre @ post"
    and "c = None \<and> pre = [] \<or> (\<exists>p r. pre = p @ [r] \<and> c = Some (cur r))"
  shows "concat (fst (walk (page s q) n c)) = post \<and> snd (walk (page s q) n c)"
  using assms(2-4)
proof (induction n arbitrary: pre post c)
  case (Suc n)
  have p: "page s q c = cut cur (limit q) post"
    using Suc.prems(3)
  proof (elim disjE exE conjE)
    assume "c = None" "pre = []"
    then show ?thesis using first [OF assms(1)] Suc.prems(2) by simp
  next
    fix p r assume "pre = p @ [r]" "c = Some (cur r)"
    then show ?thesis using behind [OF assms(1), of q p r post] Suc.prems(2) by simp
  qed
  show ?case
  proof (cases "length post > limit q")
    case False
    then show ?thesis using p by (simp add: cut_def)
  next
    case True
    let ?l = "limit q" and ?r = "post ! (limit q - 1)"
    have tk: "take ?l post = take (?l - 1) post @ [?r]"
      using True limit_pos [of q] take_Suc_conv_app_nth [of "?l - 1" post] by simp
    have "concat (fst (walk (page s q) n (Some (cur ?r)))) = drop ?l post \<and> snd (walk (page s q) n (Some (cur ?r)))"
    proof (rule Suc.IH)
      show "length (drop ?l post) < n * ?l" using Suc.prems(1) True by (simp add: algebra_simps)
      show "listing s q = (pre @ take ?l post) @ drop ?l post" using Suc.prems(2) by simp
      show "Some (cur ?r) = None \<and> pre @ take ?l post = [] \<or>
          (\<exists>p r. pre @ take ?l post = p @ [r] \<and> Some (cur ?r) = Some (cur r))"
        using tk by (metis append.assoc)
    qed
    then show ?thesis using p True
      by (cases "walk (page s q) n (Some (cur ?r))") (simp add: cut_def)
  qed
qed simp

lemma walk_all:
  "ok s \<Longrightarrow> length (listing s q) < n * limit q \<Longrightarrow>
     concat (fst (walk (page s q) n None)) = listing s q \<and> snd (walk (page s q) n None)"
  by (rule walk_from [where pre = "[]"]) auto

end

text \<open>The rows behind a cursor of a strictly ordered listing.\<close>

lemma behind_ascending:
  fixes key :: "'r \<Rightarrow> 'k :: linorder"
  shows "sorted_wrt (<) (map key (pre @ r # post)) \<Longrightarrow> filter (\<lambda>x. key r < key x) (pre @ r # post) = post"
proof -
  assume s: "sorted_wrt (<) (map key (pre @ r # post))"
  then have "filter (\<lambda>x. key r < key x) pre = []" "filter (\<lambda>x. key r < key x) post = post"
    by (auto simp: sorted_wrt_append filter_empty_conv filter_id_conv not_less less_imp_le)
  then show ?thesis by simp
qed

lemma behind_descending:
  fixes key :: "'r \<Rightarrow> 'k :: linorder"
  shows "sorted_wrt (>) (map key (pre @ r # post)) \<Longrightarrow> filter (\<lambda>x. key x < key r) (pre @ r # post) = post"
proof -
  assume s: "sorted_wrt (>) (map key (pre @ r # post))"
  then have "filter (\<lambda>x. key x < key r) pre = []" "filter (\<lambda>x. key x < key r) post = post"
    by (auto simp: sorted_wrt_append filter_empty_conv filter_id_conv not_less less_imp_le)
  then show ?thesis by simp
qed

lemma sort_key_strict:
  fixes key :: "'r \<Rightarrow> 'k :: linorder"
  assumes "distinct (map key xs)"
  shows "sorted_wrt (<) (map key (sort_key key xs))"
proof -
  have "distinct (map key (sort_key key xs))"
    using assms by (metis mset_map mset_sort mset_eq_imp_distinct_iff)
  then show ?thesis by (simp add: strict_sorted_iff)
qed

lemma filter_sort_key: "filter P (sort_key key xs) = sort_key key (filter P xs)"
  by (rule filter_sort)

text \<open>Fetching one row more than the limit tells whether there is a next page.\<close>

lemma cut_fetch:
  "0 < limit \<Longrightarrow>
   (let out = take (limit + 1) xs in
      if length out > limit then (take limit out, Some (cur (take limit out ! (limit - 1)))) else (out, None))
   = cut cur limit xs"
  by (auto simp: cut_def Let_def min_def)

section \<open>Pattern matching in queries\<close>

text \<open>
  \<open>LIKE\<close>: a percent sign stands for any text, an underscore for one character, a backslash makes the
  next character literal. A pattern that ends in a backslash, an error of the database, matches
  nothing here. \<open>ILIKE\<close> folds case.
\<close>

fun like :: "string \<Rightarrow> string \<Rightarrow> bool" where
  "like s [] = (s = [])"
| "like s (p # ps) =
     (if p = CHR ''%'' then like s ps \<or> (case s of [] \<Rightarrow> False | c # cs \<Rightarrow> like cs (p # ps))
      else if p = CHR ''_'' then (case s of [] \<Rightarrow> False | c # cs \<Rightarrow> like cs ps)
      else if p = CHR 0x5C then (case ps of [] \<Rightarrow> False | q # qs \<Rightarrow> (case s of [] \<Rightarrow> False | c # cs \<Rightarrow> c = q \<and> like cs qs))
      else (case s of [] \<Rightarrow> False | c # cs \<Rightarrow> c = p \<and> like cs ps))"

definition ilike :: "string \<Rightarrow> string \<Rightarrow> bool" where
  "ilike s pat = like (ToLower s) (ToLower pat)"

definition plain :: "string \<Rightarrow> bool" where
  "plain p \<longleftrightarrow> CHR ''%'' \<notin> set p \<and> CHR ''_'' \<notin> set p \<and> CHR 0x5C \<notin> set p"

lemmas like_Cons = like.simps(2)
declare like.simps(2) [simp del]

lemma like_any: "like s ''%''"
  by (induction s) (subst like_Cons, simp)+

lemma like_prefix: "plain p \<Longrightarrow> like s (p @ ''%'') \<longleftrightarrow> HasPrefix s p"
proof (induction p arbitrary: s)
  case Nil
  then show ?case by (cases s) (auto simp: like_any)
next
  case (Cons a p)
  then show ?case by (cases s) (auto simp: plain_def like_Cons)
qed

end
