(* ===== verification/Documents.thy ===== *)
theory Documents
  imports Tables Kvtag Lifecycle Paging
begin

text \<open>
  The document store (\<^verbatim>\<open>internal/document\<close>): the \<open>documents\<close> rows, with stories, tasks, skills
  and changelogs told apart by their type, and their \<open>document_versions\<close>. Every operation is one
  transaction: an error leaves both tables as they were. A nullable column holds the empty string
  for NULL, as the reads coalesce it and the writes store NULL for it; fresh ids and the clock are
  arguments; a failing database is not modelled. A cursor is the pair of time and id it encodes, or
  text that encodes none.
\<close>

definition ScopeSystem :: string where "ScopeSystem = ''system''"
definition ScopeWorkspace :: string where "ScopeWorkspace = ''workspace''"
definition ScopeProject :: string where "ScopeProject = ''project''"
definition ScopeUser :: string where "ScopeUser = ''user''"
definition ScopeLibrary :: string where "ScopeLibrary = ''library''"

definition StatusActive :: string where "StatusActive = ''active''"
definition StatusDeleted :: string where "StatusDeleted = ''deleted''"

definition TypeDocument :: string where "TypeDocument = ''document''"
definition TypeStory :: string where "TypeStory = ''story''"
definition TypeTask :: string where "TypeTask = ''task''"
definition TypeSkill :: string where "TypeSkill = ''skill''"
definition TypeChangelog :: string where "TypeChangelog = ''changelog''"

lemmas scope_defs = ScopeSystem_def ScopeWorkspace_def ScopeProject_def ScopeUser_def ScopeLibrary_def
lemmas type_defs = TypeDocument_def TypeStory_def TypeTask_def TypeSkill_def TypeChangelog_def
lemmas status_defs = StatusActive_def StatusDeleted_def

record Document =
  dc_ID :: string
  dc_Type :: string
  dc_Scope :: string
  dc_WorkspaceID :: string
  dc_ProjectID :: string
  dc_UserID :: string
  dc_Name :: string
  dc_LatestVersion :: int
  dc_Tags :: "string list"
  dc_Status :: string
  dc_Priority :: string
  dc_Category :: string
  dc_ParentID :: string
  dc_AcceptanceCriteria :: string
  dc_Headline :: string
  dc_Audience :: string
  dc_Summary :: string
  dc_SummaryUpdatedAt :: "int option"
  dc_CreatedAt :: int
  dc_UpdatedAt :: int

record Version =
  vn_DocumentID :: string
  vn_Version :: int
  vn_Body :: string
  vn_Status :: string
  vn_CreatedAt :: int
  vn_CreatedBy :: string

record Key =
  ky_Scope :: string
  ky_WorkspaceID :: string
  ky_ProjectID :: string
  ky_UserID :: string
  ky_Name :: string

record docdb =
  dd_Documents :: "Document list"
  dd_Versions :: "Version list"

datatype doc_error =
    NameRequired
  | ScopeMismatch
  | UnknownScope string
  | ScopeReadonly
  | UnsupportedType string
  | TypeMismatch string string
  | DocNotFound
  | IdTaken
  | ProjectIdRequired
  | WorkspaceIdRequired
  | TitleRequired
  | TitleCleared
  | NotStoryOrTask
  | WrongType string
  | ParentNotFound
  | ParentNotStory string
  | ParentOtherProject
  | MalformedCursor

section \<open>Keys\<close>

definition KeyValidate :: "Key \<Rightarrow> doc_error option" where
  "KeyValidate k =
     (let ws = ky_WorkspaceID k; pj = ky_ProjectID k; us = ky_UserID k; sc = ky_Scope k in
      if ky_Name k = [] then Some NameRequired
      else if sc = ScopeSystem then (if ws \<noteq> [] \<or> pj \<noteq> [] \<or> us \<noteq> [] then Some ScopeMismatch else None)
      else if sc = ScopeWorkspace then (if ws = [] \<or> pj \<noteq> [] \<or> us \<noteq> [] then Some ScopeMismatch else None)
      else if sc = ScopeProject then (if ws = [] \<or> pj = [] \<or> us \<noteq> [] then Some ScopeMismatch else None)
      else if sc = ScopeUser then (if us = [] \<or> ws \<noteq> [] \<or> pj \<noteq> [] then Some ScopeMismatch else None)
      else if sc = ScopeLibrary then (if pj = [] \<or> ws \<noteq> [] \<or> us \<noteq> [] then Some ScopeMismatch else None)
      else Some (UnknownScope sc))"

definition resolveKey :: "Key \<Rightarrow> Key" where
  "resolveKey k = (if ky_Scope k = ScopeProject then k\<lparr>ky_WorkspaceID := []\<rparr> else k)"

definition named_type :: "Document \<Rightarrow> bool" where
  "named_type d \<longleftrightarrow> dc_Type d \<in> {TypeDocument, TypeSkill, TypeChangelog} \<or>
     (dc_Type d = TypeTask \<and> dc_Scope d = ScopeLibrary)"

definition at_key :: "Key \<Rightarrow> Document \<Rightarrow> bool" where
  "at_key key d \<longleftrightarrow> dc_Scope d = ky_Scope key \<and> dc_WorkspaceID d = ky_WorkspaceID key \<and>
     dc_ProjectID d = ky_ProjectID key \<and> dc_UserID d = ky_UserID key \<and> dc_Name d = ky_Name key \<and> named_type d"

definition lookupDocument :: "docdb \<Rightarrow> Key \<Rightarrow> Document option" where
  "lookupDocument db key = find (at_key (resolveKey key)) (dd_Documents db)"

definition GetByID :: "docdb \<Rightarrow> string \<Rightarrow> Document option" where
  "GetByID db docID = row_at dc_ID docID (dd_Documents db)"

section \<open>Versions\<close>

definition versions_of :: "docdb \<Rightarrow> string \<Rightarrow> Version list" where
  "versions_of db docID = filter (\<lambda>v. vn_DocumentID v = docID) (dd_Versions db)"

definition listVersions :: "docdb \<Rightarrow> string \<Rightarrow> Version list" where
  "listVersions db docID = sort_key vn_Version (versions_of db docID)"

definition newest :: "Version list \<Rightarrow> Version option" where
  "newest vs = (case sort_key (\<lambda>v. - vn_Version v) vs of [] \<Rightarrow> None | v # rest \<Rightarrow> Some v)"

definition latestVersionInTx :: "docdb \<Rightarrow> string \<Rightarrow> Version option" where
  "latestVersionInTx db docID = newest (versions_of db docID)"

definition LatestVersionStatus :: "docdb \<Rightarrow> string \<Rightarrow> doc_error + string" where
  "LatestVersionStatus db docID =
     (case latestVersionInTx db docID of None \<Rightarrow> Inl DocNotFound | Some v \<Rightarrow> Inr (vn_Status v))"

definition getVersion :: "docdb \<Rightarrow> string \<Rightarrow> int \<Rightarrow> bool \<Rightarrow> doc_error + Version" where
  "getVersion db docID version includeDeleted =
     (if version = 0 then
        (case latestVersionInTx db docID of
           None \<Rightarrow> Inl DocNotFound
         | Some v \<Rightarrow> (if vn_Status v = StatusDeleted \<and> \<not> includeDeleted then Inl DocNotFound else Inr v))
      else
        (case find (\<lambda>v. vn_Version v = version) (versions_of db docID) of None \<Rightarrow> Inl DocNotFound | Some v \<Rightarrow> Inr v))"

definition GetByIDWithLatestBody :: "docdb \<Rightarrow> string \<Rightarrow> doc_error + Document \<times> string" where
  "GetByIDWithLatestBody db docID =
     (case GetByID db docID of
        None \<Rightarrow> Inl DocNotFound
      | Some d \<Rightarrow> Inr (d, case newest (filter (\<lambda>v. vn_Status v = StatusActive) (versions_of db docID)) of
          None \<Rightarrow> [] | Some v \<Rightarrow> vn_Body v))"

record GetOptions =
  gt_Version :: int
  gt_AllVersions :: bool
  gt_IncludeDeleted :: bool

definition DocGet :: "docdb \<Rightarrow> Key \<Rightarrow> GetOptions \<Rightarrow> doc_error + Document \<times> Version list" where
  "DocGet db key opts =
     (case KeyValidate key of
        Some e \<Rightarrow> Inl e
      | None \<Rightarrow>
          (case lookupDocument db key of
             None \<Rightarrow> Inl DocNotFound
           | Some d \<Rightarrow>
               (if gt_AllVersions opts then Inr (d, listVersions db (dc_ID d))
                else map_sum id (\<lambda>v. (d, [v])) (getVersion db (dc_ID d) (gt_Version opts) (gt_IncludeDeleted opts)))))"

section \<open>Writing\<close>

definition update_doc :: "string \<Rightarrow> (Document \<Rightarrow> Document) \<Rightarrow> docdb \<Rightarrow> docdb" where
  "update_doc docID f db = db\<lparr>dd_Documents := fst (update_rows (\<lambda>d. dc_ID d = docID) f (dd_Documents db))\<rparr>"

text \<open>The row, with its new version, and the tables after one more version.\<close>

definition appendVersion ::
  "docdb \<Rightarrow> Document \<Rightarrow> string \<Rightarrow> string \<Rightarrow> int \<Rightarrow> string \<Rightarrow> Document \<times> Version \<times> docdb" where
  "appendVersion db doc body by now status =
     (let nxt = dc_LatestVersion doc + 1;
          v = \<lparr>vn_DocumentID = dc_ID doc, vn_Version = nxt, vn_Body = body, vn_Status = status,
               vn_CreatedAt = now, vn_CreatedBy = by\<rparr>;
          db1 = db\<lparr>dd_Versions := dd_Versions db @ [v]\<rparr>
      in (doc\<lparr>dc_LatestVersion := nxt, dc_UpdatedAt := now\<rparr>, v,
          update_doc (dc_ID doc) (\<lambda>d. d\<lparr>dc_LatestVersion := nxt, dc_UpdatedAt := now\<rparr>) db1))"

definition new_document :: "string \<Rightarrow> Key \<Rightarrow> string \<Rightarrow> int \<Rightarrow> Document" where
  "new_document newID key docType now = \<lparr>dc_ID = newID, dc_Type = docType, dc_Scope = ky_Scope key,
     dc_WorkspaceID = ky_WorkspaceID key, dc_ProjectID = ky_ProjectID key, dc_UserID = ky_UserID key,
     dc_Name = ky_Name key, dc_LatestVersion = 0, dc_Tags = [], dc_Status = StatusActive, dc_Priority = [],
     dc_Category = [], dc_ParentID = [], dc_AcceptanceCriteria = [], dc_Headline = [], dc_Audience = ''all'',
     dc_Summary = [], dc_SummaryUpdatedAt = None, dc_CreatedAt = now, dc_UpdatedAt = now\<rparr>"

definition insert_doc :: "Document \<Rightarrow> docdb \<Rightarrow> doc_error + docdb" where
  "insert_doc d db = (if GetByID db (dc_ID d) \<noteq> None then Inl IdTaken
     else Inr (db\<lparr>dd_Documents := dd_Documents db @ [d]\<rparr>))"

definition lockOrInsertDocument ::
  "docdb \<Rightarrow> string \<Rightarrow> Key \<Rightarrow> string \<Rightarrow> int \<Rightarrow> doc_error + Document \<times> docdb" where
  "lockOrInsertDocument db newID key0 docType now =
     (let key = resolveKey key0 in
      case lookupDocument db key of
        Some d \<Rightarrow> Inr (d, db)
      | None \<Rightarrow>
          (case insert_doc (new_document newID key docType now) db of
             Inl e \<Rightarrow> Inl e
           | Inr db1 \<Rightarrow> (case lookupDocument db1 key of None \<Rightarrow> Inl DocNotFound | Some d \<Rightarrow> Inr (d, db1))))"

record UpsertInput =
  up_Key :: Key
  up_Type :: string
  up_Body :: string
  up_CreatedBy :: string
  up_SystemWriteAllowed :: bool

definition upsert_type :: "UpsertInput \<Rightarrow> string" where
  "upsert_type u = (if up_Type u = [] then TypeDocument else up_Type u)"

definition upsert_refused :: "UpsertInput \<Rightarrow> doc_error option" where
  "upsert_refused u =
     (case KeyValidate (up_Key u) of
        Some e \<Rightarrow> Some e
      | None \<Rightarrow>
          (let docType = upsert_type u;
               libraryTask = docType = TypeTask \<and> ky_Scope (up_Key u) = ScopeLibrary
           in if ky_Scope (up_Key u) = ScopeSystem \<and> \<not> up_SystemWriteAllowed u then Some ScopeReadonly
              else if docType \<noteq> TypeDocument \<and> docType \<noteq> TypeSkill \<and> docType \<noteq> TypeChangelog \<and> \<not> libraryTask
                then Some (UnsupportedType docType)
              else None))"

text \<open>The write once the row is held: nothing when the active latest version has this body already.\<close>

definition upsert_body :: "docdb \<Rightarrow> Document \<Rightarrow> string \<Rightarrow> string \<Rightarrow> int \<Rightarrow> doc_error + Document \<times> Version \<times> docdb" where
  "upsert_body db doc body by now =
     (let write = (let (doc', v, db') = appendVersion db doc body by now StatusActive
                   in if dc_Status doc' \<noteq> StatusActive
                      then (doc'\<lparr>dc_Status := StatusActive\<rparr>, v,
                            update_doc (dc_ID doc') (\<lambda>d. d\<lparr>dc_Status := StatusActive\<rparr>) db')
                      else (doc', v, db'))
      in if dc_LatestVersion doc > 0 then
           (case latestVersionInTx db (dc_ID doc) of
              None \<Rightarrow> Inl DocNotFound
            | Some existing \<Rightarrow>
                (if dc_Status doc = StatusActive \<and> vn_Status existing = StatusActive \<and> vn_Body existing = body
                 then Inr (doc, existing, db)
                 else Inr write))
         else Inr write)"

definition DocUpsert :: "string \<Rightarrow> UpsertInput \<Rightarrow> int \<Rightarrow> docdb \<Rightarrow> doc_error + Document \<times> Version \<times> docdb" where
  "DocUpsert newID u now db =
     (case upsert_refused u of
        Some e \<Rightarrow> Inl e
      | None \<Rightarrow>
          (case lockOrInsertDocument db newID (up_Key u) (upsert_type u) now of
             Inl e \<Rightarrow> Inl e
           | Inr (doc, db1) \<Rightarrow>
               (if dc_Type doc \<noteq> upsert_type u then Inl (TypeMismatch (dc_Type doc) (upsert_type u))
                else upsert_body db1 doc (up_Body u) (up_CreatedBy u) now)))"

text \<open>The tombstone: a version without a body and with the status deleted, and the row's status.\<close>

definition tombstone :: "docdb \<Rightarrow> Document \<Rightarrow> string \<Rightarrow> int \<Rightarrow> Document \<times> Version \<times> docdb" where
  "tombstone db doc by now =
     (let (doc', v, db') = appendVersion db doc [] by now StatusDeleted
      in (doc'\<lparr>dc_Status := StatusDeleted\<rparr>, v, update_doc (dc_ID doc') (\<lambda>d. d\<lparr>dc_Status := StatusDeleted\<rparr>) db'))"

definition DocDelete :: "Key \<Rightarrow> string \<Rightarrow> bool \<Rightarrow> int \<Rightarrow> docdb \<Rightarrow> doc_error + Document \<times> Version \<times> docdb" where
  "DocDelete key by viaInternalSeed now db =
     (case KeyValidate key of
        Some e \<Rightarrow> Inl e
      | None \<Rightarrow>
          (if ky_Scope key = ScopeSystem \<and> \<not> viaInternalSeed then Inl ScopeReadonly
           else case lookupDocument db key of None \<Rightarrow> Inl DocNotFound | Some doc \<Rightarrow> Inr (tombstone db doc by now)))"

definition TombstoneByID :: "string \<Rightarrow> string \<Rightarrow> int \<Rightarrow> docdb \<Rightarrow> doc_error + Document \<times> Version \<times> docdb" where
  "TombstoneByID docID by now db =
     (case GetByID db docID of
        None \<Rightarrow> Inl DocNotFound
      | Some doc \<Rightarrow> (if dc_Scope doc = ScopeSystem then Inl ScopeReadonly else Inr (tombstone db doc by now)))"

text \<open>The foreign keys: the versions go with the row, and its children lose their parent; only stories and tasks have one.\<close>

definition orphaned :: "string \<Rightarrow> Document \<Rightarrow> Document" where
  "orphaned docID d = (if dc_ParentID d = docID \<and> dc_Type d \<in> {TypeStory, TypeTask} then d\<lparr>dc_ParentID := []\<rparr> else d)"

definition HardDelete :: "string \<Rightarrow> docdb \<Rightarrow> doc_error + docdb" where
  "HardDelete docID db =
     (let (rows, n) = delete_rows (\<lambda>d. dc_ID d = docID) (dd_Documents db) in
      if n = 0 then Inl DocNotFound
      else Inr \<lparr>dd_Documents = map (orphaned docID) rows, dd_Versions = filter (\<lambda>v. vn_DocumentID v \<noteq> docID) (dd_Versions db)\<rparr>)"

section \<open>Stories and tasks\<close>

definition or_default :: "string \<Rightarrow> string \<Rightarrow> string" where
  "or_default s d = (if s = [] then d else s)"

record CreateInput =
  ci_ProjectID :: string
  ci_WorkspaceID :: string
  ci_ParentID :: string
  ci_Title :: string
  ci_Body :: string
  ci_AcceptanceCriteria :: string
  ci_Status :: string
  ci_Priority :: string
  ci_Category :: string
  ci_Tags :: "string list"
  ci_CreatedBy :: string

definition create_refused :: "CreateInput \<Rightarrow> doc_error option" where
  "create_refused c =
     (if ci_ProjectID c = [] then Some ProjectIdRequired
      else if ci_WorkspaceID c = [] then Some WorkspaceIdRequired
      else if ci_Title c = [] then Some TitleRequired else None)"

definition created_row :: "string \<Rightarrow> string \<Rightarrow> string \<Rightarrow> string \<Rightarrow> string \<Rightarrow> CreateInput \<Rightarrow> int \<Rightarrow> Document" where
  "created_row newID docType status category ac c now = \<lparr>dc_ID = newID, dc_Type = docType, dc_Scope = ScopeProject,
     dc_WorkspaceID = ci_WorkspaceID c, dc_ProjectID = ci_ProjectID c, dc_UserID = [], dc_Name = ci_Title c,
     dc_LatestVersion = 1, dc_Tags = ci_Tags c, dc_Status = status,
     dc_Priority = or_default (ci_Priority c) ''medium'', dc_Category = category,
     dc_ParentID = ci_ParentID c, dc_AcceptanceCriteria = ac, dc_Headline = [], dc_Audience = ''all'',
     dc_Summary = [], dc_SummaryUpdatedAt = None, dc_CreatedAt = now, dc_UpdatedAt = now\<rparr>"

definition insert_created :: "Document \<Rightarrow> string \<Rightarrow> string \<Rightarrow> int \<Rightarrow> docdb \<Rightarrow> doc_error + Document \<times> docdb" where
  "insert_created d body by now db =
     (case insert_doc d db of
        Inl e \<Rightarrow> Inl e
      | Inr db1 \<Rightarrow> Inr (d, db1\<lparr>dd_Versions := dd_Versions db1 @ [\<lparr>vn_DocumentID = dc_ID d, vn_Version = 1,
          vn_Body = body, vn_Status = StatusActive, vn_CreatedAt = now, vn_CreatedBy = by\<rparr>]\<rparr>))"

definition CreateStory :: "string \<Rightarrow> CreateInput \<Rightarrow> int \<Rightarrow> docdb \<Rightarrow> doc_error + Document \<times> docdb" where
  "CreateStory newID c now db =
     (case create_refused c of
        Some e \<Rightarrow> Inl e
      | None \<Rightarrow> insert_created
          (created_row newID TypeStory (or_default (ci_Status c) ''backlog'') (or_default (ci_Category c) ''feature'')
             (ci_AcceptanceCriteria c) c now)
          (ci_Body c) (ci_CreatedBy c) now db)"

text \<open>The row returned for a new task; the category is \<^verbatim>\<open>task\<close> whatever the caller says.\<close>

definition task_parent_refused :: "docdb \<Rightarrow> CreateInput \<Rightarrow> doc_error option" where
  "task_parent_refused db c =
     (if ci_ParentID c = [] then None
      else case GetByID db (ci_ParentID c) of
        None \<Rightarrow> Some ParentNotFound
      | Some p \<Rightarrow> (if dc_Type p \<noteq> TypeStory then Some (ParentNotStory (dc_Type p))
          else if dc_ProjectID p \<noteq> ci_ProjectID c then Some ParentOtherProject else None))"

definition CreateTask :: "string \<Rightarrow> CreateInput \<Rightarrow> int \<Rightarrow> docdb \<Rightarrow> doc_error + Document \<times> docdb" where
  "CreateTask newID c now db =
     (case create_refused c of
        Some e \<Rightarrow> Inl e
      | None \<Rightarrow>
          (case task_parent_refused db c of
             Some e \<Rightarrow> Inl e
           | None \<Rightarrow> insert_created
               (created_row newID TypeTask (or_default (ci_Status c) ''ready'') ''task'' [] c now)
               (ci_Body c) (ci_CreatedBy c) now db))"

record UpdateStoryPatch =
  us_ParentID :: "string option"
  us_Title :: "string option"
  us_Body :: "string option"
  us_AcceptanceCriteria :: "string option"
  us_Status :: "string option"
  us_Priority :: "string option"
  us_Category :: "string option"
  us_Tags :: "string list option"
  us_CreatedBy :: string

definition noPatch :: UpdateStoryPatch where
  "noPatch = \<lparr>us_ParentID = None, us_Title = None, us_Body = None, us_AcceptanceCriteria = None, us_Status = None,
     us_Priority = None, us_Category = None, us_Tags = None, us_CreatedBy = []\<rparr>"

definition or_keep :: "'a option \<Rightarrow> 'a \<Rightarrow> 'a" where
  "or_keep x old = (case x of None \<Rightarrow> old | Some y \<Rightarrow> y)"

definition patched :: "UpdateStoryPatch \<Rightarrow> int \<Rightarrow> Document \<Rightarrow> Document" where
  "patched p now d = d\<lparr>dc_Name := or_keep (us_Title p) (dc_Name d), dc_ParentID := or_keep (us_ParentID p) (dc_ParentID d),
     dc_AcceptanceCriteria := or_keep (us_AcceptanceCriteria p) (dc_AcceptanceCriteria d),
     dc_Status := or_keep (us_Status p) (dc_Status d), dc_Priority := or_keep (us_Priority p) (dc_Priority d),
     dc_Category := or_keep (us_Category p) (dc_Category d), dc_Tags := or_keep (us_Tags p) (dc_Tags d),
     dc_LatestVersion := (if us_Body p = None then dc_LatestVersion d else dc_LatestVersion d + 1),
     dc_UpdatedAt := now\<rparr>"

definition UpdateStory :: "string \<Rightarrow> UpdateStoryPatch \<Rightarrow> int \<Rightarrow> docdb \<Rightarrow> doc_error + Document \<times> docdb" where
  "UpdateStory docID p now db =
     (case GetByID db docID of
        None \<Rightarrow> Inl DocNotFound
      | Some doc \<Rightarrow>
          (if dc_Type doc \<noteq> TypeStory \<and> dc_Type doc \<noteq> TypeTask then Inl NotStoryOrTask
           else if us_Title p = Some [] then Inl TitleCleared
           else
             let db1 = (case us_Body p of
                   None \<Rightarrow> db
                 | Some body \<Rightarrow> db\<lparr>dd_Versions := dd_Versions db @ [\<lparr>vn_DocumentID = docID,
                     vn_Version = dc_LatestVersion doc + 1, vn_Body = body, vn_Status = StatusActive,
                     vn_CreatedAt = now, vn_CreatedBy = us_CreatedBy p\<rparr>]\<rparr>)
             in Inr (patched p now doc, update_doc docID (patched p now) db1)))"

section \<open>Tags, headline, summary\<close>

definition stringSlicesEqualUnordered :: "string list \<Rightarrow> string list \<Rightarrow> bool" where
  "stringSlicesEqualUnordered a b =
     (if length a \<noteq> length b then False else countdown (\<lambda>k. int (count_list a k)) b)"

definition tagsSettableForType :: "string \<Rightarrow> bool" where
  "tagsSettableForType t \<longleftrightarrow> t = TypeDocument \<or> t = TypeSkill \<or> t = TypeChangelog"

definition SetDocumentTags :: "string \<Rightarrow> string list \<Rightarrow> int \<Rightarrow> docdb \<Rightarrow> doc_error + Document \<times> docdb" where
  "SetDocumentTags docID tags0 now db =
     (let tags = kvNormalize tags0 in
      case GetByID db docID of
        None \<Rightarrow> Inl DocNotFound
      | Some doc \<Rightarrow>
          (let libraryTask = dc_Type doc = TypeTask \<and> dc_Scope doc = ScopeLibrary in
           if \<not> tagsSettableForType (dc_Type doc) \<and> \<not> libraryTask then Inl (WrongType (dc_Type doc))
           else if stringSlicesEqualUnordered (dc_Tags doc) tags then Inr (doc, db)
           else Inr (doc\<lparr>dc_Tags := tags, dc_UpdatedAt := now\<rparr>,
                     update_doc docID (\<lambda>d. d\<lparr>dc_Tags := tags, dc_UpdatedAt := now\<rparr>) db)))"

definition SetDocumentHeadline :: "string \<Rightarrow> string \<Rightarrow> int \<Rightarrow> docdb \<Rightarrow> doc_error + Document \<times> docdb" where
  "SetDocumentHeadline docID headline now db =
     (case GetByID db docID of
        None \<Rightarrow> Inl DocNotFound
      | Some doc \<Rightarrow>
          (if dc_Type doc \<noteq> TypeDocument then Inl (WrongType (dc_Type doc))
           else if dc_Headline doc = headline then Inr (doc, db)
           else Inr (doc\<lparr>dc_Headline := headline, dc_UpdatedAt := now\<rparr>,
                     update_doc docID (\<lambda>d. d\<lparr>dc_Headline := headline, dc_UpdatedAt := now\<rparr>) db)))"

definition SetSummary :: "string \<Rightarrow> string \<Rightarrow> int \<Rightarrow> docdb \<Rightarrow> doc_error + docdb" where
  "SetSummary docID summary now db =
     (let (rows, n) = update_rows (\<lambda>d. dc_ID d = docID)
            (\<lambda>d. d\<lparr>dc_Summary := summary, dc_SummaryUpdatedAt := Some now\<rparr>) (dd_Documents db)
      in if n = 0 then Inl DocNotFound else Inr (db\<lparr>dd_Documents := rows\<rparr>))"

section \<open>Lists\<close>

definition status_rank :: "string \<Rightarrow> int" where
  "status_rank s = (if s = ''in_progress'' then 0 else if s = ''ready'' then 1 else if s = ''review'' then 2
     else if s = ''backlog'' then 3 else if s = ''done'' then 4 else if s = ''cancelled'' then 5 else 6)"

definition priority_rank :: "string \<Rightarrow> int" where
  "priority_rank s = (if s = ''critical'' then 0 else if s = ''high'' then 1 else if s = ''medium'' then 2
     else if s = ''low'' then 3 else 4)"

definition ListStoriesByProject :: "docdb \<Rightarrow> string \<Rightarrow> string list \<Rightarrow> Document list" where
  "ListStoriesByProject db projectID tags =
     sort_key (\<lambda>d. (status_rank (dc_Status d), priority_rank (dc_Priority d), - dc_UpdatedAt d, dc_ID d))
       (filter (\<lambda>d. dc_Type d = TypeStory \<and> dc_ProjectID d = projectID \<and> (\<forall>t \<in> set tags. t \<in> set (dc_Tags d)))
         (dd_Documents db))"

record DocFilter =
  df_Type :: string
  df_Scope :: string
  df_WorkspaceID :: string
  df_ProjectID :: string
  df_UserID :: string
  df_Tags :: "string list"
  df_Status :: string
  df_NamePrefix :: string
  df_NameContains :: string
  df_Audience :: string

definition addScopePredicate :: "DocFilter \<Rightarrow> Document \<Rightarrow> bool" where
  "addScopePredicate f d \<longleftrightarrow>
     (if df_Scope f \<noteq> ''all'' then
        (df_Scope f \<noteq> [] \<longrightarrow> dc_Scope d = df_Scope f) \<and>
        (df_WorkspaceID f \<noteq> [] \<and> df_Scope f \<noteq> ScopeProject \<longrightarrow> dc_WorkspaceID d = df_WorkspaceID f) \<and>
        (df_ProjectID f \<noteq> [] \<longrightarrow> dc_ProjectID d = df_ProjectID f)
      else dc_Scope d = ScopeSystem \<or>
        (df_WorkspaceID f \<noteq> [] \<and> dc_Scope d = ScopeWorkspace \<and> dc_WorkspaceID d = df_WorkspaceID f) \<or>
        (df_ProjectID f \<noteq> [] \<and> dc_Scope d = ScopeProject \<and> dc_ProjectID d = df_ProjectID f))"

definition status_matches :: "DocFilter \<Rightarrow> Document \<Rightarrow> bool" where
  "status_matches f d \<longleftrightarrow>
     (if df_Status f = ''all'' then True
      else if df_Status f \<noteq> [] then dc_Status d = df_Status f
      else dc_Status d \<noteq> StatusDeleted)"

definition doc_matches :: "DocFilter \<Rightarrow> Document \<Rightarrow> bool" where
  "doc_matches f d \<longleftrightarrow>
     (df_Type f \<noteq> [] \<and> df_Type f \<noteq> ''all'' \<longrightarrow> dc_Type d = df_Type f) \<and>
     addScopePredicate f d \<and>
     (df_UserID f \<noteq> [] \<longrightarrow> dc_UserID d = df_UserID f) \<and>
     (\<forall>t \<in> set (df_Tags f). t \<in> set (dc_Tags d)) \<and>
     status_matches f d \<and>
     (df_NamePrefix f \<noteq> [] \<longrightarrow> ilike (dc_Name d) (df_NamePrefix f @ ''%'')) \<and>
     (df_NameContains f \<noteq> [] \<longrightarrow> ilike (dc_Name d) (''%'' @ df_NameContains f @ ''%'')) \<and>
     (df_Audience f \<noteq> [] \<longrightarrow> dc_Audience d = df_Audience f)"

datatype cursor = NoCursor | BadCursor | At int string

definition doc_key :: "Document \<Rightarrow> int \<times> string" where
  "doc_key d = (dc_CreatedAt d, dc_ID d)"

definition newest_first :: "Document list \<Rightarrow> Document list" where
  "newest_first ds = rev (sort_key doc_key ds)"

definition list_limit :: "int \<Rightarrow> int \<Rightarrow> int \<Rightarrow> nat" where
  "list_limit dflt most limit = nat (if limit \<le> 0 then dflt else if limit > most then most else limit)"

definition DocList :: "docdb \<Rightarrow> DocFilter \<Rightarrow> int \<Rightarrow> cursor \<Rightarrow> doc_error + Document list \<times> cursor" where
  "DocList db f lim c =
     (let limit = list_limit 50 200 lim;
          rows = filter (doc_matches f) (dd_Documents db);
          fetch = (\<lambda>rs. let out = take (limit + 1) (newest_first rs) in
             if length out > limit
             then (let lastRow = out ! (limit - 1) in (take limit out, At (dc_CreatedAt lastRow) (dc_ID lastRow)))
             else (out, NoCursor))
      in case c of
           BadCursor \<Rightarrow> Inl MalformedCursor
         | NoCursor \<Rightarrow> Inr (fetch rows)
         | At t i \<Rightarrow> Inr (fetch (filter (\<lambda>d. doc_key d < (t, i)) rows)))"

definition DocCount :: "docdb \<Rightarrow> DocFilter \<Rightarrow> nat" where
  "DocCount db f = length (filter (doc_matches f) (dd_Documents db))"

text \<open>The workspace of a project is a parameter.\<close>

definition ListProjectDocsInWorkspace ::
  "(string \<Rightarrow> string option) \<Rightarrow> docdb \<Rightarrow> string \<Rightarrow> int \<Rightarrow> doc_error + Document list" where
  "ListProjectDocsInWorkspace home db workspaceID limit =
     (if TrimSpace workspaceID = [] then Inl WorkspaceIdRequired
      else Inr (take (list_limit 50 200 limit) (newest_first (filter (\<lambda>d. dc_Type d = TypeDocument \<and>
        dc_Scope d = ScopeProject \<and> dc_Status d \<noteq> StatusDeleted \<and> home (dc_ProjectID d) = Some workspaceID)
        (dd_Documents db)))))"

section \<open>Seeds\<close>

record SystemSeed =
  sd_Name :: string
  sd_Body :: string
  sd_EmbeddedHash :: string
  sd_AppliedAt :: int

definition SeedSystemTyped ::
  "string \<Rightarrow> string \<Rightarrow> string \<Rightarrow> string \<Rightarrow> string \<Rightarrow> int \<Rightarrow> docdb \<Rightarrow> doc_error + docdb" where
  "SeedSystemTyped newID docType name body createdBy now db =
     (let key = \<lparr>ky_Scope = ScopeSystem, ky_WorkspaceID = [], ky_ProjectID = [], ky_UserID = [], ky_Name = name\<rparr>;
          upsert = map_sum id (\<lambda>(d, v, db'). db') (DocUpsert newID \<lparr>up_Key = key, up_Type = docType, up_Body = body,
            up_CreatedBy = createdBy, up_SystemWriteAllowed = True\<rparr> now db)
      in case DocGet db key \<lparr>gt_Version = 0, gt_AllVersions = False, gt_IncludeDeleted = False\<rparr> of
           Inr (d, vs) \<Rightarrow> (if map vn_Body vs = [body] then Inr db else upsert)
         | Inl e \<Rightarrow> (if e \<noteq> DocNotFound then Inl e else upsert))"

definition SeedSystem :: "string \<Rightarrow> string \<Rightarrow> string \<Rightarrow> string \<Rightarrow> int \<Rightarrow> docdb \<Rightarrow> doc_error + docdb" where
  "SeedSystem newID name body createdBy now db = SeedSystemTyped newID TypeDocument name body createdBy now db"

definition seed_at :: "string \<Rightarrow> SystemSeed list \<Rightarrow> SystemSeed option" where
  "seed_at name seeds = row_at sd_Name name seeds"

definition seed_upsert :: "string \<Rightarrow> string \<Rightarrow> string \<Rightarrow> int \<Rightarrow> SystemSeed list \<Rightarrow> SystemSeed list" where
  "seed_upsert name body hash now = upsert_row sd_Name
     (\<lambda>x. x\<lparr>sd_Body := body, sd_EmbeddedHash := hash, sd_AppliedAt := now\<rparr>)
     \<lparr>sd_Name = name, sd_Body = body, sd_EmbeddedHash = hash, sd_AppliedAt = now\<rparr>"

record seed_input =
  se_Type :: string
  se_Name :: string
  se_Body :: string
  se_Tags :: "string list option"
  se_Headline :: string
  se_CreatedBy :: string

definition hash_input :: "seed_input \<Rightarrow> string" where
  "hash_input i = se_Body i @ [CHR 0x1F] @ Join (sort (case se_Tags i of None \<Rightarrow> [] | Some ts \<Rightarrow> ts)) [CHR 0x1F] @
     [CHR 0x1F] @ se_Headline i"

text \<open>The tags and the headline are set on the mirrored row; \<^const>\<open>None\<close> tags and an empty headline set nothing.\<close>

definition seed_metadata :: "seed_input \<Rightarrow> int \<Rightarrow> docdb \<Rightarrow> doc_error option \<times> docdb" where
  "seed_metadata i now db =
     (if se_Tags i = None \<and> se_Headline i = [] then (None, db)
      else case lookupDocument db \<lparr>ky_Scope = ScopeSystem, ky_WorkspaceID = [], ky_ProjectID = [], ky_UserID = [],
            ky_Name = se_Name i\<rparr> of
        None \<Rightarrow> (Some DocNotFound, db)
      | Some d \<Rightarrow>
          (case (case se_Tags i of None \<Rightarrow> Inr db | Some ts \<Rightarrow> map_sum id snd (SetDocumentTags (dc_ID d) ts now db)) of
             Inl e \<Rightarrow> (Some e, db)
           | Inr db1 \<Rightarrow>
               (if se_Headline i = [] then (None, db1)
                else case SetDocumentHeadline (dc_ID d) (se_Headline i) now db1 of
                  Inl e \<Rightarrow> (Some e, db1) | Inr (d', db2) \<Rightarrow> (None, db2))))"

datatype reconcile_result = Unchanged | Changed bool | ReconcileFailed doc_error

text \<open>The sha256 of the contents is the parameter \<open>sha\<close>.\<close>

definition ReconcileSystemSeedTyped ::
  "(string \<Rightarrow> string) \<Rightarrow> string \<Rightarrow> seed_input \<Rightarrow> int \<Rightarrow> SystemSeed list \<times> docdb \<Rightarrow>
   reconcile_result \<times> SystemSeed list \<times> docdb" where
  "ReconcileSystemSeedTyped sha newID i now st =
     (case st of (seeds, db) \<Rightarrow>
       let hash = sha (hash_input i);
           docType = or_default (se_Type i) TypeDocument;
           existing = seed_at (se_Name i) seeds
       in if (case existing of None \<Rightarrow> False | Some x \<Rightarrow> sd_EmbeddedHash x = hash) then (Unchanged, seeds, db)
          else
            let seeds1 = seed_upsert (se_Name i) (se_Body i) hash now seeds in
            case SeedSystemTyped newID docType (se_Name i) (se_Body i) (se_CreatedBy i) now db of
              Inl e \<Rightarrow> (ReconcileFailed e, seeds1, db)
            | Inr db1 \<Rightarrow>
                (case seed_metadata i now db1 of
                   (Some e, db2) \<Rightarrow> (ReconcileFailed e, seeds1, db2)
                 | (None, db2) \<Rightarrow> (Changed (existing = None), seeds1, db2)))"

definition ReconcileSystemSeed ::
  "(string \<Rightarrow> string) \<Rightarrow> string \<Rightarrow> string \<Rightarrow> string \<Rightarrow> string list option \<Rightarrow> string \<Rightarrow> int \<Rightarrow>
   SystemSeed list \<times> docdb \<Rightarrow> reconcile_result \<times> SystemSeed list \<times> docdb" where
  "ReconcileSystemSeed sha newID name body tags createdBy now st =
     ReconcileSystemSeedTyped sha newID \<lparr>se_Type = TypeDocument, se_Name = name, se_Body = body, se_Tags = tags,
       se_Headline = [], se_CreatedBy = createdBy\<rparr> now st"

fun prune_loop ::
  "(string \<Rightarrow> bool) \<Rightarrow> string \<Rightarrow> int \<Rightarrow> SystemSeed list \<Rightarrow> SystemSeed list \<times> docdb \<Rightarrow>
   (doc_error option \<times> string list) \<times> SystemSeed list \<times> docdb" where
  "prune_loop keep by now [] st = ((None, []), st)"
| "prune_loop keep by now (r # rs) (seeds, db) =
     (if keep (sd_Name r) then prune_loop keep by now rs (seeds, db)
      else
        let res = DocDelete \<lparr>ky_Scope = ScopeSystem, ky_WorkspaceID = [], ky_ProjectID = [], ky_UserID = [],
              ky_Name = sd_Name r\<rparr> by True now db
        in case (case res of Inl e \<Rightarrow> (if e = DocNotFound then Inr db else Inl e) | Inr (d, v, db') \<Rightarrow> Inr db') of
          Inl e \<Rightarrow> ((Some e, []), (seeds, db))
        | Inr db' \<Rightarrow>
            (case prune_loop keep by now rs (fst (delete_rows (\<lambda>x. sd_Name x = sd_Name r) seeds), db') of
               ((err, names), st') \<Rightarrow> ((err, sd_Name r # names), st')))"

definition PruneSystemSeeds ::
  "(string \<Rightarrow> bool) \<Rightarrow> string \<Rightarrow> int \<Rightarrow> SystemSeed list \<times> docdb \<Rightarrow>
   (doc_error option \<times> string list) \<times> SystemSeed list \<times> docdb" where
  "PruneSystemSeeds keep by now st =
     (case prune_loop keep by now (sort_key sd_Name (fst st)) st of
        ((None, names), st') \<Rightarrow> ((None, sort names), st')
      | ((Some e, names), st') \<Rightarrow> ((Some e, names), st'))"

end
