(* ===== verification/DocFacts.thy ===== *)
theory DocFacts
  imports Documents
begin

text \<open>
  The invariant of the document tables and what follows from it: the versions of a document are
  numbered without a gap, a key names one row, and the status of a row is that of its newest
  version. The operations of the store are one datatype, so that an invariant is one case analysis.
\<close>

section \<open>The newest version\<close>

lemma insort_key_snoc: "\<forall>y \<in> set ys. f y < f x \<Longrightarrow> insort_key f x ys = ys @ [x]"
  by (induction ys) auto

lemma sort_key_reversed:
  fixes f :: "'a \<Rightarrow> int"
  shows "sorted_wrt (<) (map f xs) \<Longrightarrow> sort_key (\<lambda>x. - f x) xs = rev xs"
proof (induction xs)
  case (Cons x xs)
  then have "sort_key (\<lambda>x. - f x) xs = rev xs" by simp
  then show ?case using Cons.prems insort_key_snoc [of "rev xs" "\<lambda>x. - f x" x] by simp
qed simp

lemma newest_last:
  "sorted_wrt (<) (map vn_Version vs) \<Longrightarrow> newest vs = (if vs = [] then None else Some (last vs))"
  by (cases vs rule: rev_cases) (auto simp: newest_def sort_key_reversed)

section \<open>The invariant\<close>

definition strict_named :: "Document \<Rightarrow> bool" where
  "strict_named d \<longleftrightarrow> dc_Type d \<in> {TypeDocument, TypeSkill, TypeChangelog}"

definition key_of :: "Document \<Rightarrow> string \<times> string \<times> string \<times> string \<times> string" where
  "key_of d = (dc_Scope d, dc_WorkspaceID d, dc_ProjectID d, dc_UserID d, dc_Name d)"

definition ids_ok :: "docdb \<Rightarrow> bool" where
  "ids_ok db \<longleftrightarrow> unique_key dc_ID (dd_Documents db) \<and>
     (\<forall>v \<in> set (dd_Versions db). \<exists>d \<in> set (dd_Documents db). dc_ID d = vn_DocumentID v)"

definition numbered :: "docdb \<Rightarrow> Document \<Rightarrow> bool" where
  "numbered db d \<longleftrightarrow> map vn_Version (versions_of db (dc_ID d)) = [1..dc_LatestVersion d]"

definition status_agrees :: "docdb \<Rightarrow> Document \<Rightarrow> bool" where
  "status_agrees db d \<longleftrightarrow> (strict_named d \<longrightarrow> (\<exists>v. latestVersionInTx db (dc_ID d) = Some v \<and> vn_Status v = dc_Status d))"

definition row_ok :: "docdb \<Rightarrow> Document \<Rightarrow> bool" where
  "row_ok db d \<longleftrightarrow> numbered db d \<and> 1 \<le> dc_LatestVersion d \<and> status_agrees db d"

definition keys_ok :: "docdb \<Rightarrow> bool" where
  "keys_ok db \<longleftrightarrow> distinct (map key_of (filter strict_named (dd_Documents db)))"

definition docs_ok :: "docdb \<Rightarrow> bool" where
  "docs_ok db \<longleftrightarrow> ids_ok db \<and> keys_ok db \<and> (\<forall>d \<in> set (dd_Documents db). row_ok db d)"

lemma sorted_upto_int: "sorted_wrt (<) [i..j::int]"
  by (simp add: sorted_wrt_iff_nth_less)

lemma numbered_newest:
  "numbered db d \<Longrightarrow> latestVersionInTx db (dc_ID d) =
     (if versions_of db (dc_ID d) = [] then None else Some (last (versions_of db (dc_ID d))))"
  using sorted_upto_int [of 1 "dc_LatestVersion d"] by (simp add: latestVersionInTx_def numbered_def newest_last)

lemma numbered_empty: "numbered db d \<Longrightarrow> versions_of db (dc_ID d) = [] \<longleftrightarrow> dc_LatestVersion d < 1"
  unfolding numbered_def by (metis list.map_disc_iff upto_Nil2)

section \<open>The two ways a row changes\<close>

lemma update_doc_rows: "set (dd_Documents (update_doc i f db)) = (\<lambda>d. if dc_ID d = i then f d else d) ` set (dd_Documents db)"
  by (auto simp: update_doc_def update_rows_def)

lemma update_doc_versions [simp]: "dd_Versions (update_doc i f db) = dd_Versions db"
  "versions_of (update_doc i f db) j = versions_of db j" "latestVersionInTx (update_doc i f db) j = latestVersionInTx db j"
  by (auto simp: update_doc_def versions_of_def latestVersionInTx_def)

lemma GetByID_update: "(\<And>d. dc_ID (f d) = dc_ID d) \<Longrightarrow> GetByID (update_doc i f db) j = map_option (\<lambda>d. if dc_ID d = i then f d else d) (GetByID db j)"
  unfolding GetByID_def update_doc_def by (simp add: row_at_update)

lemma keys_ok_update:
  assumes "\<And>d. key_of (f d) = key_of d" and "\<And>d. dc_Type (f d) = dc_Type d" and "keys_ok db"
  shows "keys_ok (update_doc i f db)"
proof -
  have "map key_of (filter strict_named (map (\<lambda>d. if dc_ID d = i then f d else d) ds)) = map key_of (filter strict_named ds)" for ds
    using assms(1,2) by (induction ds) (auto simp: strict_named_def)
  then show ?thesis using assms(3) by (simp add: keys_ok_def update_doc_def update_rows_def)
qed

lemma update_doc_id:
  "(\<And>d. dc_ID (f d) = dc_ID d) \<Longrightarrow> dc_ID ` set (dd_Documents (update_doc i f db)) = dc_ID ` set (dd_Documents db)"
  unfolding update_doc_rows image_image by (intro image_cong) auto

lemma ids_ok_alt:
  "ids_ok db \<longleftrightarrow> unique_key dc_ID (dd_Documents db) \<and> vn_DocumentID ` set (dd_Versions db) \<subseteq> dc_ID ` set (dd_Documents db)"
  unfolding ids_ok_def by (auto simp: image_iff subset_iff) metis+

lemma ids_ok_update: "(\<And>d. dc_ID (f d) = dc_ID d) \<Longrightarrow> ids_ok db \<Longrightarrow> ids_ok (update_doc i f db)"
  unfolding ids_ok_alt by (simp add: update_doc_id) (simp add: update_doc_def unique_key_update)

text \<open>An update of columns that the invariant does not read.\<close>

lemma docs_ok_patch:
  assumes "docs_ok db" and "\<And>d. dc_ID (f d) = dc_ID d" and "\<And>d. dc_Type (f d) = dc_Type d"
    and "\<And>d. key_of (f d) = key_of d" and "\<And>d. dc_LatestVersion (f d) = dc_LatestVersion d"
    and "\<And>d. dc_Status (f d) = dc_Status d"
  shows "docs_ok (update_doc i f db)"
  unfolding docs_ok_def
proof (intro conjI ballI)
  show "ids_ok (update_doc i f db)" using assms(1,2) ids_ok_update by (auto simp: docs_ok_def)
  show "keys_ok (update_doc i f db)" using assms keys_ok_update by (auto simp: docs_ok_def)
  fix d assume "d \<in> set (dd_Documents (update_doc i f db))"
  then obtain e where e: "e \<in> set (dd_Documents db)" "d = (if dc_ID e = i then f e else e)"
    by (auto simp: update_doc_rows)
  have "row_ok db e" using assms(1) e(1) by (simp add: docs_ok_def)
  have "strict_named (f e) = strict_named e" using assms(3) by (simp add: strict_named_def)
  with \<open>row_ok db e\<close> show "row_ok (update_doc i f db) d" unfolding e(2)
    using assms by (auto simp: row_ok_def numbered_def status_agrees_def)
qed

text \<open>One more version of a row, with the row's columns moved on.\<close>

definition add_version :: "Version \<Rightarrow> docdb \<Rightarrow> docdb" where
  "add_version v db = db\<lparr>dd_Versions := dd_Versions db @ [v]\<rparr>"

lemma add_version_simps [simp]:
  "dd_Documents (add_version v db) = dd_Documents db" "dd_Versions (add_version v db) = dd_Versions db @ [v]"
  "versions_of (add_version v db) i = versions_of db i @ (if vn_DocumentID v = i then [v] else [])"
  "GetByID (add_version v db) i = GetByID db i" "keys_ok (add_version v db) = keys_ok db"
  by (auto simp: add_version_def versions_of_def GetByID_def keys_ok_def)

lemma row_ok_other:
  assumes "row_ok db e" and "dc_ID e \<noteq> vn_DocumentID v"
  shows "row_ok (update_doc i f (add_version v db)) e"
  using assms by (auto simp: row_ok_def numbered_def status_agrees_def latestVersionInTx_def)

lemma docs_ok_version:
  assumes ids: "ids_ok db" and keys: "keys_ok db" and d: "d \<in> set (dd_Documents db)" "numbered db d" "0 \<le> dc_LatestVersion d"
    and others: "\<And>e. e \<in> set (dd_Documents db) \<Longrightarrow> e \<noteq> d \<Longrightarrow> row_ok db e"
    and v: "vn_DocumentID v = dc_ID d" "vn_Version v = dc_LatestVersion d + 1"
    and f: "\<And>x. dc_ID (f x) = dc_ID x" "\<And>x. dc_Type (f x) = dc_Type x"
    and fk: "keys_ok (update_doc (dc_ID d) f db)"
    and fd: "dc_LatestVersion (f d) = dc_LatestVersion d + 1" "strict_named d \<Longrightarrow> dc_Status (f d) = vn_Status v"
  shows "docs_ok (update_doc (dc_ID d) f (add_version v db))"
  unfolding docs_ok_def
proof (intro conjI ballI)
  have "ids_ok (add_version v db)" using ids d(1) v(1) by (auto simp: ids_ok_def)
  then show "ids_ok (update_doc (dc_ID d) f (add_version v db))" using f(1) by (rule ids_ok_update [rotated])
  show "keys_ok (update_doc (dc_ID d) f (add_version v db))" using fk by (simp add: keys_ok_def update_doc_def)
  fix x assume "x \<in> set (dd_Documents (update_doc (dc_ID d) f (add_version v db)))"
  then obtain e where e: "e \<in> set (dd_Documents db)" "x = (if dc_ID e = dc_ID d then f e else e)"
    by (auto simp: update_doc_rows)
  show "row_ok (update_doc (dc_ID d) f (add_version v db)) x"
  proof (cases "dc_ID e = dc_ID d")
    case True
    have "e = d" using row_at_unique [of dc_ID "dd_Documents db"] ids e(1) d(1) True
      by (metis ids_ok_def option.inject)
    have num: "map vn_Version (versions_of db (dc_ID d) @ [v]) = [1..dc_LatestVersion d + 1]"
      using d(2,3) v(2) by (simp add: numbered_def upto_rec2)
    have s: "sorted_wrt (<) (map vn_Version (versions_of db (dc_ID d) @ [v]))"
      unfolding num by (rule sorted_upto_int)
    show ?thesis unfolding e(2) \<open>e = d\<close> using num newest_last [OF s] f fd v(1) d(3)
      by (auto simp: row_ok_def numbered_def status_agrees_def latestVersionInTx_def strict_named_def)
  next
    case False
    then have "row_ok db e" using others e(1) by auto
    then show ?thesis using False e(2) v(1) row_ok_other by simp
  qed
qed

section \<open>The operations\<close>

datatype doc_op =
    DUpsert string UpsertInput int
  | DDelete Key string bool int
  | DTombstone string string int
  | DHardDelete string
  | DStory string CreateInput int
  | DTask string CreateInput int
  | DPatch string UpdateStoryPatch int
  | DTags string "string list" int
  | DHeadline string string int
  | DSummary string string int

text \<open>The tables an operation leaves: those it was given when it is refused.\<close>

definition left :: "docdb \<Rightarrow> (doc_error + docdb) \<Rightarrow> docdb" where
  "left db r = (case r of Inl e \<Rightarrow> db | Inr db' \<Rightarrow> db')"

fun doc_exec :: "doc_op \<Rightarrow> docdb \<Rightarrow> docdb" where
  "doc_exec (DUpsert newID u now) db = left db (map_sum id (\<lambda>(d, v, db'). db') (DocUpsert newID u now db))"
| "doc_exec (DDelete key by seed now) db = left db (map_sum id (\<lambda>(d, v, db'). db') (DocDelete key by seed now db))"
| "doc_exec (DTombstone i by now) db = left db (map_sum id (\<lambda>(d, v, db'). db') (TombstoneByID i by now db))"
| "doc_exec (DHardDelete i) db = left db (HardDelete i db)"
| "doc_exec (DStory newID c now) db = left db (map_sum id snd (CreateStory newID c now db))"
| "doc_exec (DTask newID c now) db = left db (map_sum id snd (CreateTask newID c now db))"
| "doc_exec (DPatch i p now) db = left db (map_sum id snd (UpdateStory i p now db))"
| "doc_exec (DTags i ts now) db = left db (map_sum id snd (SetDocumentTags i ts now db))"
| "doc_exec (DHeadline i h now) db = left db (map_sum id snd (SetDocumentHeadline i h now db))"
| "doc_exec (DSummary i t now) db = left db (SetSummary i t now db)"

definition empty_db :: docdb where
  "empty_db = \<lparr>dd_Documents = [], dd_Versions = []\<rparr>"

lemma left_simps [simp]: "left db (Inl e) = db" "left db (Inr db') = db'"
  by (auto simp: left_def)

lemma docs_ok_empty [simp]: "docs_ok empty_db"
  by (simp add: docs_ok_def ids_ok_def keys_ok_def empty_db_def unique_key_def)

lemma update_doc_compose:
  "(\<And>d. dc_ID (f d) = dc_ID d) \<Longrightarrow> update_doc i g (update_doc i f db) = update_doc i (\<lambda>d. g (f d)) db"
  by (auto simp: update_doc_def update_rows_def)

lemma GetByID_in: "GetByID db i = Some d \<Longrightarrow> d \<in> set (dd_Documents db) \<and> dc_ID d = i"
  unfolding GetByID_def by (rule row_at_Some)

lemma lookup_in: "lookupDocument db key = Some d \<Longrightarrow> d \<in> set (dd_Documents db) \<and> at_key (resolveKey key) d"
  unfolding lookupDocument_def by (rule find_SomeD)

lemma key_of_patches [simp]:
  "key_of (d\<lparr>dc_LatestVersion := n, dc_UpdatedAt := t\<rparr>) = key_of d" "key_of (d\<lparr>dc_Status := st\<rparr>) = key_of d"
  "key_of (d\<lparr>dc_Tags := ts, dc_UpdatedAt := t\<rparr>) = key_of d" "key_of (d\<lparr>dc_Headline := h, dc_UpdatedAt := t\<rparr>) = key_of d"
  "key_of (d\<lparr>dc_Summary := h, dc_SummaryUpdatedAt := u\<rparr>) = key_of d"
  by (auto simp: key_of_def)

text \<open>Appending a version and setting the row's status, in one: the shape of upsert and of the tombstone.\<close>

definition new_version :: "Document \<Rightarrow> string \<Rightarrow> string \<Rightarrow> int \<Rightarrow> string \<Rightarrow> Version" where
  "new_version d body by now status = \<lparr>vn_DocumentID = dc_ID d, vn_Version = dc_LatestVersion d + 1, vn_Body = body,
     vn_Status = status, vn_CreatedAt = now, vn_CreatedBy = by\<rparr>"

definition moved_on :: "Document \<Rightarrow> int \<Rightarrow> string \<Rightarrow> Document \<Rightarrow> Document" where
  "moved_on d now status x = x\<lparr>dc_LatestVersion := dc_LatestVersion d + 1, dc_UpdatedAt := now, dc_Status := status\<rparr>"

definition versioned :: "docdb \<Rightarrow> Document \<Rightarrow> string \<Rightarrow> string \<Rightarrow> int \<Rightarrow> string \<Rightarrow> docdb" where
  "versioned db d body by now status = update_doc (dc_ID d) (moved_on d now status) (add_version (new_version d body by now status) db)"

lemma moved_on_simps [simp]:
  "dc_ID (moved_on d now status x) = dc_ID x" "dc_Type (moved_on d now status x) = dc_Type x"
  "dc_Status (moved_on d now status x) = status" "dc_LatestVersion (moved_on d now status x) = dc_LatestVersion d + 1"
  "key_of (moved_on d now status x) = key_of x" "named_type (moved_on d now status x) = named_type x"
  "at_key k (moved_on d now status x) = at_key k x"
  by (auto simp: moved_on_def key_of_def named_type_def at_key_def)

lemma new_version_simps [simp]:
  "vn_DocumentID (new_version d body by now status) = dc_ID d" "vn_Version (new_version d body by now status) = dc_LatestVersion d + 1"
  "vn_Status (new_version d body by now status) = status" "vn_Body (new_version d body by now status) = body"
  by (auto simp: new_version_def)

lemma update_doc_cong:
  "(\<And>x. x \<in> set (dd_Documents db) \<Longrightarrow> dc_ID x = i \<Longrightarrow> f x = g x) \<Longrightarrow> update_doc i f db = update_doc i g db"
  by (auto simp: update_doc_def update_rows_def intro!: docdb.equality)

lemma tombstone_eq:
  "tombstone db d by now = (moved_on d now StatusDeleted d, new_version d [] by now StatusDeleted, versioned db d [] by now StatusDeleted)"
  by (simp add: tombstone_def appendVersion_def Let_def versioned_def update_doc_compose moved_on_def [abs_def] new_version_def add_version_def)

lemma upsert_body_write:
  assumes "unique_key dc_ID (dd_Documents db)" and "d \<in> set (dd_Documents db)" and "upsert_body db d body by now = Inr (d', v, db')"
  shows "db' = db \<and> dc_Status d = StatusActive \<and> d' = d \<and> latestVersionInTx db (dc_ID d) = Some v \<and> vn_Status v = StatusActive \<and> vn_Body v = body
    \<or> d' = moved_on d now StatusActive d \<and> v = new_version d body by now StatusActive \<and> db' = versioned db d body by now StatusActive"
proof -
  let ?f = "\<lambda>x. x\<lparr>dc_LatestVersion := dc_LatestVersion d + 1, dc_UpdatedAt := now\<rparr>"
  have same: "update_doc (dc_ID d) ?f (add_version v db) = update_doc (dc_ID d) (moved_on d now StatusActive) (add_version v db)"
    if "dc_Status d = StatusActive" for v
  proof (rule update_doc_cong)
    fix x assume "x \<in> set (dd_Documents (add_version v db))" "dc_ID x = dc_ID d"
    then have "x = d" using row_at_unique [OF assms(1)] assms(2) by (metis add_version_simps(1) option.inject)
    then show "?f x = moved_on d now StatusActive x" using that by (simp add: moved_on_def)
  qed
  have act: "dc_Status d = StatusActive \<Longrightarrow> ?f d = moved_on d now StatusActive d" by (simp add: moved_on_def)
  have upd: "update_doc i (\<lambda>x. x\<lparr>dc_Status := StatusActive\<rparr>) (update_doc i ?f u) = update_doc i (moved_on d now StatusActive) u" for i u
    by (simp add: update_doc_compose moved_on_def [abs_def])
  show ?thesis
    using assms(3) same act upd
    unfolding upsert_body_def appendVersion_def Let_def new_version_def [symmetric] add_version_def [symmetric] versioned_def
    by (auto simp: moved_on_def split: if_splits option.splits)
qed

lemma docs_ok_versioned:
  assumes "ids_ok db" and "keys_ok db" and "d \<in> set (dd_Documents db)" and "numbered db d" and "0 \<le> dc_LatestVersion d"
    and "\<And>e. e \<in> set (dd_Documents db) \<Longrightarrow> e \<noteq> d \<Longrightarrow> row_ok db e"
  shows "docs_ok (versioned db d body by now status)"
  unfolding versioned_def
  by (rule docs_ok_version [OF assms(1-5)]) (auto intro: assms(6) keys_ok_update [OF _ _ assms(2)])

lemma docs_ok_tombstone: "docs_ok db \<Longrightarrow> d \<in> set (dd_Documents db) \<Longrightarrow> docs_ok (versioned db d body by now status)"
  by (rule docs_ok_versioned) (auto simp: docs_ok_def row_ok_def)

text \<open>Fresh rows.\<close>

lemma versions_of_fresh: "ids_ok db \<Longrightarrow> GetByID db i = None \<Longrightarrow> versions_of db i = []"
  unfolding ids_ok_def versions_of_def GetByID_def row_at_None by (auto simp: filter_empty_conv)

lemma insert_doc_Inr: "insert_doc d db = Inr db' \<longleftrightarrow> GetByID db (dc_ID d) = None \<and> db' = db\<lparr>dd_Documents := dd_Documents db @ [d]\<rparr>"
  by (auto simp: insert_doc_def)

lemma ids_ok_insert: "ids_ok db \<Longrightarrow> insert_doc d db = Inr db' \<Longrightarrow> ids_ok db'"
  by (auto simp: ids_ok_def insert_doc_Inr unique_key_def GetByID_def row_at_None)

lemma insert_doc_views:
  "insert_doc d db = Inr db' \<Longrightarrow> dd_Documents db' = dd_Documents db @ [d] \<and> versions_of db' = versions_of db \<and>
     latestVersionInTx db' = latestVersionInTx db \<and> dd_Versions db' = dd_Versions db"
  by (auto simp: insert_doc_Inr versions_of_def latestVersionInTx_def fun_eq_iff)

lemma row_ok_insert: "insert_doc d db = Inr db' \<Longrightarrow> row_ok db' e = row_ok db e"
  using insert_doc_views [of d db db'] by (simp add: row_ok_def numbered_def status_agrees_def)

lemma docs_ok_created:
  assumes "docs_ok db" and "insert_created d body by now db = Inr (d', db')" and "\<not> strict_named d" and "dc_LatestVersion d = 1"
  shows "docs_ok db'"
proof -
  let ?v = "\<lparr>vn_DocumentID = dc_ID d, vn_Version = 1, vn_Body = body, vn_Status = StatusActive, vn_CreatedAt = now, vn_CreatedBy = by\<rparr>"
  obtain db1 where i: "insert_doc d db = Inr db1" and db': "db' = add_version ?v db1"
    using assms(2) by (auto simp: insert_created_def add_version_def split: sum.splits)
  have ids: "ids_ok db" using assms(1) by (simp add: docs_ok_def)
  have fresh: "GetByID db (dc_ID d) = None" using i by (simp add: insert_doc_Inr)
  note views = insert_doc_views [OF i]
  show ?thesis unfolding docs_ok_def
  proof (intro conjI ballI)
    show "ids_ok db'" using ids_ok_insert [OF ids i] unfolding db' by (auto simp: ids_ok_def views)
    show "keys_ok db'" using assms(1,3) unfolding db' by (simp add: keys_ok_def docs_ok_def views)
    fix e assume "e \<in> set (dd_Documents db')"
    then consider "e \<in> set (dd_Documents db)" | "e = d" unfolding db' by (auto simp: views)
    then show "row_ok db' e"
    proof cases
      case 1
      then have "dc_ID e \<noteq> dc_ID d" using fresh by (auto simp: GetByID_def row_at_None)
      moreover have "row_ok db1 e" using 1 assms(1) row_ok_insert [OF i] by (simp add: docs_ok_def)
      ultimately show ?thesis unfolding db' by (auto simp: row_ok_def numbered_def status_agrees_def latestVersionInTx_def)
    next
      case 2
      have "versions_of db1 (dc_ID d) = []" using versions_of_fresh [OF ids fresh] by (simp add: views)
      then show ?thesis unfolding 2 db' using assms(3,4) by (simp add: row_ok_def numbered_def status_agrees_def)
    qed
  qed
qed

lemma orphaned_simps [simp]: "dc_ID (orphaned i d) = dc_ID d" "dc_Type (orphaned i d) = dc_Type d" "dc_LatestVersion (orphaned i d) = dc_LatestVersion d"
  "dc_Status (orphaned i d) = dc_Status d" "key_of (orphaned i d) = key_of d" "strict_named (orphaned i d) = strict_named d"
  by (simp_all add: orphaned_def key_of_def strict_named_def)

lemma docs_ok_hard_delete: "docs_ok db \<Longrightarrow> HardDelete i db = Inr db' \<Longrightarrow> docs_ok db'"
proof -
  assume ok: "docs_ok db" and h: "HardDelete i db = Inr db'"
  then have db': "db' = \<lparr>dd_Documents = map (orphaned i) (filter (\<lambda>d. dc_ID d \<noteq> i) (dd_Documents db)),
      dd_Versions = filter (\<lambda>v. vn_DocumentID v \<noteq> i) (dd_Versions db)\<rparr>"
    by (auto simp: HardDelete_def delete_rows_def split: if_splits)
  have vs: "versions_of db' j = versions_of db j" if "j \<noteq> i" for j
    using that unfolding db' versions_of_def by (auto simp: filter_filter intro!: filter_cong)
  show ?thesis unfolding docs_ok_def
  proof (intro conjI ballI)
    have "unique_key dc_ID (map (orphaned i) ds) = unique_key dc_ID ds" for ds by (simp add: unique_key_def comp_def)
    then show "ids_ok db'" using ok unfolding db' by (fastforce simp: docs_ok_def ids_ok_def unique_key_filter)
    have s: "map key_of (filter strict_named (map (orphaned i) ds)) = map key_of (filter strict_named ds)" for ds by (induction ds) simp_all
    have "distinct (map key_of (filter (\<lambda>d. dc_ID d \<noteq> i) (filter strict_named (dd_Documents db))))"
      by (rule distinct_map_filter) (use ok in \<open>simp add: docs_ok_def keys_ok_def\<close>)
    then show "keys_ok db'" unfolding db' keys_ok_def by (simp add: s filter_filter conj_commute)
    fix d assume "d \<in> set (dd_Documents db')"
    then obtain e where "e \<in> set (dd_Documents db)" "dc_ID e \<noteq> i" "d = orphaned i e" unfolding db' by auto
    then show "row_ok db' d" using ok vs by (auto simp: docs_ok_def row_ok_def numbered_def status_agrees_def latestVersionInTx_def)
  qed
qed

lemma docs_ok_patch_story:
  assumes "docs_ok db" and "UpdateStory i p now db = Inr (d', db')"
  shows "docs_ok db'"
proof -
  obtain d where d: "GetByID db i = Some d" "\<not> strict_named d"
    and db': "db' = update_doc i (patched p now) (case us_Body p of None \<Rightarrow> db | Some body \<Rightarrow>
        add_version \<lparr>vn_DocumentID = i, vn_Version = dc_LatestVersion d + 1, vn_Body = body, vn_Status = StatusActive,
          vn_CreatedAt = now, vn_CreatedBy = us_CreatedBy p\<rparr> db)"
    using assms(2) by (auto simp: UpdateStory_def Let_def strict_named_def type_defs add_version_def split: option.splits if_splits)
  have in_db: "d \<in> set (dd_Documents db)" "dc_ID d = i" using GetByID_in [OF d(1)] by auto
  have uk: "unique_key dc_ID (dd_Documents db)" using assms(1) by (simp add: docs_ok_def ids_ok_def)
  have strict: "strict_named (patched p now x) = strict_named x" "dc_ID (patched p now x) = dc_ID x"
    "dc_Type (patched p now x) = dc_Type x" for x by (auto simp: patched_def strict_named_def)
  have only: "x = d" if "x \<in> set (dd_Documents db)" "dc_ID x = i" for x
    using row_at_unique [OF uk that(1)] row_at_unique [OF uk in_db(1)] that(2) in_db(2) by simp
  have keys: "keys_ok (update_doc i (patched p now) db)"
  proof -
    have "map key_of (filter strict_named (map (\<lambda>x. if dc_ID x = i then patched p now x else x) ds)) = map key_of (filter strict_named ds)"
      if "set ds \<subseteq> set (dd_Documents db)" for ds
      using that only d(2) strict by (induction ds) auto
    then show ?thesis using assms(1) by (simp add: docs_ok_def keys_ok_def update_doc_def update_rows_def)
  qed
  show ?thesis
  proof (cases "us_Body p")
    case (Some body)
    let ?v = "\<lparr>vn_DocumentID = i, vn_Version = dc_LatestVersion d + 1, vn_Body = body, vn_Status = StatusActive,
          vn_CreatedAt = now, vn_CreatedBy = us_CreatedBy p\<rparr>"
    have "docs_ok (update_doc (dc_ID d) (patched p now) (add_version ?v db))"
      using assms(1) in_db keys strict d(2) Some
      by (intro docs_ok_version) (auto simp: docs_ok_def row_ok_def patched_def)
    then show ?thesis using Some in_db(2) unfolding db' by simp
  next
    case None
    show ?thesis unfolding db' None option.case docs_ok_def
    proof (intro conjI ballI keys)
      show "ids_ok (update_doc i (patched p now) db)" using assms(1) strict ids_ok_update by (simp add: docs_ok_def)
      fix x assume "x \<in> set (dd_Documents (update_doc i (patched p now) db))"
      then obtain e where e: "e \<in> set (dd_Documents db)" "x = (if dc_ID e = i then patched p now e else e)"
        by (auto simp: update_doc_rows)
      have "dc_LatestVersion (patched p now e) = dc_LatestVersion e" using None by (simp add: patched_def)
      moreover have "row_ok db e" using e(1) assms(1) by (simp add: docs_ok_def)
      ultimately show "row_ok (update_doc i (patched p now) db) x" unfolding e(2)
        using only [OF e(1)] d(2) strict by (auto simp: row_ok_def numbered_def status_agrees_def)
    qed
  qed
qed

text \<open>The row an upsert works on: the one at its key, or a new row at it.\<close>

lemma upsert_not_refused:
  "upsert_refused u = None \<Longrightarrow> upsert_type u \<in> {TypeDocument, TypeSkill, TypeChangelog} \<or>
     (upsert_type u = TypeTask \<and> ky_Scope (up_Key u) = ScopeLibrary)"
  by (auto simp: upsert_refused_def Let_def split: option.splits if_splits)

lemma resolveKey_idem [simp]: "resolveKey (resolveKey k) = resolveKey k" "ky_Scope (resolveKey k) = ky_Scope k"
  "ky_Name (resolveKey k) = ky_Name k"
  by (auto simp: resolveKey_def)

lemma lookup_resolve [simp]: "lookupDocument db (resolveKey k) = lookupDocument db k"
  by (simp add: lookupDocument_def)

lemma new_document_simps [simp]:
  "dc_ID (new_document i k t now) = i" "dc_Type (new_document i k t now) = t" "dc_LatestVersion (new_document i k t now) = 0"
  "dc_Status (new_document i k t now) = StatusActive" "dc_Scope (new_document i k t now) = ky_Scope k"
  by (auto simp: new_document_def)

lemma at_key_new: "named_type (new_document i k t now) \<Longrightarrow> at_key k (new_document i k t now)"
  by (simp add: at_key_def) (simp add: new_document_def)

lemma lock_or_insert:
  assumes "lockOrInsertDocument db newID k t now = Inr (d, db1)"
    and "t \<in> {TypeDocument, TypeSkill, TypeChangelog} \<or> (t = TypeTask \<and> ky_Scope k = ScopeLibrary)"
  shows "db1 = db \<and> lookupDocument db k = Some d
    \<or> lookupDocument db k = None \<and> d = new_document newID (resolveKey k) t now \<and> insert_doc d db = Inr db1"
proof (cases "lookupDocument db k")
  case (Some x)
  then show ?thesis using assms(1) by (simp add: lockOrInsertDocument_def Let_def)
next
  case None
  let ?n = "new_document newID (resolveKey k) t now"
  obtain db' where i: "insert_doc ?n db = Inr db'" and l: "lookupDocument db' k = Some d" "db1 = db'"
    using assms(1) None by (auto simp: lockOrInsertDocument_def Let_def split: sum.splits option.splits)
  have "named_type ?n" using assms(2) by (auto simp: named_type_def)
  then have "lookupDocument db' k = Some ?n"
    using None i at_key_new [of newID "resolveKey k" t now] unfolding lookupDocument_def insert_doc_Inr
    by (auto simp: find_append)
  then show ?thesis using i l None by simp
qed

lemma at_key_key_of: "at_key k d \<longleftrightarrow> key_of d = (ky_Scope k, ky_WorkspaceID k, ky_ProjectID k, ky_UserID k, ky_Name k) \<and> named_type d"
  by (auto simp: at_key_def key_of_def)

lemma strict_named_type: "strict_named d \<Longrightarrow> named_type d"
  by (auto simp: strict_named_def named_type_def)

lemma keys_ok_new:
  assumes "keys_ok db" and "lookupDocument db k = None" and "insert_doc (new_document i (resolveKey k) t now) db = Inr db1"
  shows "keys_ok db1"
proof -
  let ?n = "new_document i (resolveKey k) t now"
  have "\<not> at_key (resolveKey k) e" if "e \<in> set (dd_Documents db)" for e
    using assms(2) that by (auto simp: lookupDocument_def find_None_iff)
  then have "key_of ?n \<noteq> key_of e" if "e \<in> set (dd_Documents db)" "strict_named e" for e
    using that strict_named_type [OF that(2)] unfolding at_key_key_of by (auto simp: key_of_def new_document_def)
  then have "key_of ?n \<notin> set (map key_of (filter strict_named (dd_Documents db)))" by auto
  then show ?thesis using assms(1,3) unfolding keys_ok_def insert_doc_Inr by simp
qed

text \<open>The state in which an upsert writes, and what it does there.\<close>

lemma DocUpsert_cases:
  assumes "docs_ok db" and "DocUpsert newID u now db = Inr (d', v, db')"
  obtains (same) d where "lookupDocument db (up_Key u) = Some d" "db' = db" "d' = d" "dc_Status d = StatusActive"
      "latestVersionInTx db (dc_ID d) = Some v" "vn_Status v = StatusActive" "vn_Body v = up_Body u" "dc_Type d = upsert_type u"
  | (old) d where "lookupDocument db (up_Key u) = Some d" "d' = moved_on d now StatusActive d" "dc_Type d = upsert_type u"
      "v = new_version d (up_Body u) (up_CreatedBy u) now StatusActive" "db' = versioned db d (up_Body u) (up_CreatedBy u) now StatusActive"
  | (new) d db1 where "lookupDocument db (up_Key u) = None" "d = new_document newID (resolveKey (up_Key u)) (upsert_type u) now"
      "insert_doc d db = Inr db1" "d' = moved_on d now StatusActive d"
      "v = new_version d (up_Body u) (up_CreatedBy u) now StatusActive" "db' = versioned db1 d (up_Body u) (up_CreatedBy u) now StatusActive"
proof -
  have nr: "upsert_refused u = None" using assms(2) by (auto simp: DocUpsert_def split: option.splits)
  then obtain d db1 where l: "lockOrInsertDocument db newID (up_Key u) (upsert_type u) now = Inr (d, db1)"
    and b: "upsert_body db1 d (up_Body u) (up_CreatedBy u) now = Inr (d', v, db')" and t: "dc_Type d = upsert_type u"
    using assms(2) by (auto simp: DocUpsert_def split: sum.splits if_splits)
  have ids: "ids_ok db" "unique_key dc_ID (dd_Documents db)" using assms(1) by (auto simp: docs_ok_def ids_ok_def)
  from lock_or_insert [OF l upsert_not_refused [OF nr]] show ?thesis
  proof (elim disjE conjE)
    assume x: "db1 = db" "lookupDocument db (up_Key u) = Some d"
    have "d \<in> set (dd_Documents db)" using lookup_in [OF x(2)] by blast
    from upsert_body_write [OF ids(2) this b [unfolded x(1)]] show ?thesis using same old x t by blast
  next
    assume x: "lookupDocument db (up_Key u) = None" "d = new_document newID (resolveKey (up_Key u)) (upsert_type u) now"
      "insert_doc d db = Inr db1"
    have fresh: "GetByID db (dc_ID d) = None" using x(3) by (simp add: insert_doc_Inr)
    have "unique_key dc_ID (dd_Documents db1)" using ids_ok_insert [OF ids(1) x(3)] by (simp add: ids_ok_def)
    moreover have "d \<in> set (dd_Documents db1)" using insert_doc_views [OF x(3)] by simp
    moreover have "latestVersionInTx db1 (dc_ID d) = None"
      using versions_of_fresh [OF ids(1) fresh] insert_doc_views [OF x(3)] by (simp add: latestVersionInTx_def newest_def)
    ultimately have "d' = moved_on d now StatusActive d" "v = new_version d (up_Body u) (up_CreatedBy u) now StatusActive"
      "db' = versioned db1 d (up_Body u) (up_CreatedBy u) now StatusActive"
      using upsert_body_write [OF _ _ b] by (metis option.distinct(1))+
    then show ?thesis using new x by blast
  qed
qed

lemma docs_ok_upsert:
  assumes "docs_ok db" and "DocUpsert newID u now db = Inr (d', v, db')"
  shows "docs_ok db'"
  using assms
proof (cases rule: DocUpsert_cases)
  case (old d)
  then show ?thesis using docs_ok_tombstone [OF assms(1)] lookup_in by blast
next
  case (new d db1)
  have ids: "ids_ok db" using assms(1) by (simp add: docs_ok_def)
  have fresh: "GetByID db (dc_ID d) = None" using new(3) by (simp add: insert_doc_Inr)
  note views = insert_doc_views [OF new(3)]
  show ?thesis unfolding new(6)
  proof (rule docs_ok_versioned)
    show "ids_ok db1" by (rule ids_ok_insert [OF ids new(3)])
    show "keys_ok db1" by (rule keys_ok_new [OF _ new(1) new(3) [unfolded new(2)]]) (use assms(1) in \<open>simp add: docs_ok_def\<close>)
    show "d \<in> set (dd_Documents db1)" using views by simp
    show "numbered db1 d" using versions_of_fresh [OF ids fresh] views new(2) by (simp add: numbered_def)
    show "0 \<le> dc_LatestVersion d" using new(2) by simp
    fix e assume "e \<in> set (dd_Documents db1)" "e \<noteq> d"
    then show "row_ok db1 e" using assms(1) views row_ok_insert [OF new(3)] by (auto simp: docs_ok_def)
  qed
qed (use assms(1) in simp)

lemma SetDocumentTags_db: "SetDocumentTags i ts now db = Inr (d', db') \<Longrightarrow>
  db' = db \<or> db' = update_doc i (\<lambda>d. d\<lparr>dc_Tags := kvNormalize ts, dc_UpdatedAt := now\<rparr>) db"
  by (auto simp: SetDocumentTags_def Let_def split: option.splits if_splits)

lemma SetDocumentHeadline_db: "SetDocumentHeadline i h now db = Inr (d', db') \<Longrightarrow>
  db' = db \<or> db' = update_doc i (\<lambda>d. d\<lparr>dc_Headline := h, dc_UpdatedAt := now\<rparr>) db"
  by (auto simp: SetDocumentHeadline_def split: option.splits if_splits)

lemma SetSummary_db: "SetSummary i t now db = Inr db' \<Longrightarrow>
  db' = update_doc i (\<lambda>d. d\<lparr>dc_Summary := t, dc_SummaryUpdatedAt := Some now\<rparr>) db"
  by (auto simp: SetSummary_def Let_def update_doc_def split: prod.splits if_splits)

lemma docs_ok_exec: "docs_ok db \<Longrightarrow> docs_ok (doc_exec op db)"
proof (cases op)
  case (DUpsert newID u now)
  assume "docs_ok db"
  then show ?thesis using DUpsert docs_ok_upsert by (cases "DocUpsert newID u now db") auto
next
  case (DDelete key who seed now)
  assume "docs_ok db"
  then show ?thesis using DDelete docs_ok_tombstone lookup_in
    by (auto simp: DocDelete_def tombstone_eq split: option.splits)
next
  case (DTombstone i who now)
  assume "docs_ok db"
  then show ?thesis using DTombstone docs_ok_tombstone GetByID_in
    by (auto simp: TombstoneByID_def tombstone_eq split: option.splits)
next
  case (DHardDelete i)
  assume "docs_ok db"
  then show ?thesis using DHardDelete docs_ok_hard_delete by (cases "HardDelete i db") auto
next
  case (DStory newID c now)
  assume ok: "docs_ok db"
  show ?thesis
  proof (cases "CreateStory newID c now db")
    case (Inr x)
    then have "docs_ok (snd x)" using docs_ok_created [OF ok, of _ _ _ _ "fst x" "snd x"]
      by (auto simp: CreateStory_def created_row_def strict_named_def type_defs split: option.splits)
    then show ?thesis using DStory Inr by simp
  qed (use DStory ok in simp)
next
  case (DTask newID c now)
  assume ok: "docs_ok db"
  show ?thesis
  proof (cases "CreateTask newID c now db")
    case (Inr x)
    then have "docs_ok (snd x)" using docs_ok_created [OF ok, of _ _ _ _ "fst x" "snd x"]
      by (auto simp: CreateTask_def created_row_def strict_named_def type_defs split: option.splits)
    then show ?thesis using DTask Inr by simp
  qed (use DTask ok in simp)
next
  case (DPatch i p now)
  assume "docs_ok db"
  then show ?thesis using DPatch docs_ok_patch_story by (cases "UpdateStory i p now db") auto
next
  case (DTags i ts now)
  assume "docs_ok db"
  then show ?thesis using DTags docs_ok_patch SetDocumentTags_db by (cases "SetDocumentTags i ts now db") fastforce+
next
  case (DHeadline i h now)
  assume "docs_ok db"
  then show ?thesis using DHeadline docs_ok_patch SetDocumentHeadline_db by (cases "SetDocumentHeadline i h now db") fastforce+
next
  case (DSummary i t now)
  assume "docs_ok db"
  then show ?thesis using DSummary docs_ok_patch SetSummary_db by (cases "SetSummary i t now db") fastforce+
qed

lemma docs_ok_run: "docs_ok (fold doc_exec ops empty_db)"
proof -
  have "docs_ok db \<Longrightarrow> docs_ok (fold doc_exec ops db)" for db
    by (induction ops arbitrary: db) (auto intro: docs_ok_exec)
  then show ?thesis by simp
qed

end
