(* ===== verification/DocProps.thy ===== *)
theory DocProps
  imports DocFacts
begin

text \<open>
  What the document store promises: the history of a document, the round trip of an upsert, deletion
  and revival, pagination, and the agreement of the seed registry with the system documents.
\<close>

section \<open>Lemmas\<close>

lemma latest_ok:
  assumes "docs_ok db" and "d \<in> set (dd_Documents db)"
  shows "\<exists>v. latestVersionInTx db (dc_ID d) = Some v \<and> (strict_named d \<longrightarrow> vn_Status v = dc_Status d)"
proof -
  have "numbered db d" "1 \<le> dc_LatestVersion d" "status_agrees db d" using assms by (auto simp: docs_ok_def row_ok_def)
  then show ?thesis using numbered_newest [of db d] numbered_empty [of db d] by (auto simp: status_agrees_def)
qed

text \<open>A key finds the row it found before, moved on, after a version was added to that row.\<close>

lemma find_map_same:
  "(\<And>x. P (f x) = P x) \<Longrightarrow> find P (map f xs) = map_option f (find P xs)"
  by (induction xs) auto

lemma lookup_versioned:
  "lookupDocument (versioned db d body by now status) k =
     map_option (\<lambda>x. if dc_ID x = dc_ID d then moved_on d now status x else x) (lookupDocument db k)"
  unfolding lookupDocument_def versioned_def update_doc_def update_rows_def
  by (simp add: find_map_same)

lemma latest_versioned:
  assumes "numbered db d"  and "0 \<le> dc_LatestVersion d"
  shows "latestVersionInTx (versioned db d body by now status) (dc_ID d) = Some (new_version d body by now status)"
proof -
  have "map vn_Version (versions_of db (dc_ID d) @ [new_version d body by now status]) = [1..dc_LatestVersion d + 1]"
    using assms by (simp add: numbered_def upto_rec2)
  then have "sorted_wrt (<) (map vn_Version (versions_of db (dc_ID d) @ [new_version d body by now status]))"
    by (simp only: sorted_upto_int)
  from newest_last [OF this] show ?thesis by (simp add: latestVersionInTx_def versioned_def)
qed

lemma key_valid: "upsert_refused u = None \<Longrightarrow> KeyValidate (up_Key u) = None"
  by (auto simp: upsert_refused_def split: option.splits)

lemma DocUpsert_valid: "DocUpsert newID u now db = Inr r \<Longrightarrow> upsert_refused u = None"
  by (auto simp: DocUpsert_def split: option.splits)

text \<open>After an upsert the key finds the returned row, whose newest version is the returned one.\<close>

lemma DocUpsert_stored:
  assumes "docs_ok db" and "DocUpsert newID u now db = Inr (d', v, db')"
  shows "lookupDocument db' (up_Key u) = Some d' \<and> latestVersionInTx db' (dc_ID d') = Some v \<and> vn_Body v = up_Body u \<and>
    vn_Status v = StatusActive \<and> dc_Status d' = StatusActive \<and> dc_Type d' = upsert_type u \<and> 1 \<le> dc_LatestVersion d'"
  using assms
proof (cases rule: DocUpsert_cases)
  case (same d)
  have "row_ok db d" using assms(1) lookup_in [OF same(1)] by (simp add: docs_ok_def)
  then show ?thesis using same by (simp add: row_ok_def)
next
  case (old d)
  have "numbered db d" "1 \<le> dc_LatestVersion d" using assms(1) lookup_in [OF old(1)] by (auto simp: docs_ok_def row_ok_def)
  then show ?thesis using old latest_versioned [of db d] by (simp add: lookup_versioned)
next
  case (new d db1)
  have ids: "ids_ok db" using assms(1) by (simp add: docs_ok_def)
  have fresh: "GetByID db (dc_ID d) = None" using new(3) by (simp add: insert_doc_Inr)
  have num: "numbered db1 d" using versions_of_fresh [OF ids fresh] insert_doc_views [OF new(3)] new(2) by (simp add: numbered_def)
  have "named_type d" using upsert_not_refused [OF DocUpsert_valid [OF assms(2)]] unfolding new(2) by (auto simp: named_type_def)
  then have "lookupDocument db1 (up_Key u) = Some d"
    using new(1,3) at_key_new [of newID "resolveKey (up_Key u)"] unfolding new(2) lookupDocument_def insert_doc_Inr
    by (auto simp: find_append)
  then show ?thesis using new latest_versioned [OF num] by (simp add: lookup_versioned)
qed

definition latest_only :: GetOptions where
  "latest_only = \<lparr>gt_Version = 0, gt_AllVersions = False, gt_IncludeDeleted = False\<rparr>"

lemma DocGet_latest:
  assumes "KeyValidate k = None" and "lookupDocument db k = Some d" and "latestVersionInTx db (dc_ID d) = Some v"
  shows "DocGet db k latest_only = (if vn_Status v = StatusDeleted then Inl DocNotFound else Inr (d, [v]))"
  using assms by (simp add: DocGet_def latest_only_def getVersion_def)

lemma status_distinct [simp]: "StatusActive \<noteq> StatusDeleted" "StatusDeleted \<noteq> StatusActive"
  by (simp_all add: status_defs)

lemma upsert_same_body:
  assumes "lookupDocument db (up_Key u) = Some d" and "dc_Type d = upsert_type u" and "dc_Status d = StatusActive"
    and "latestVersionInTx db (dc_ID d) = Some v" and "vn_Status v = StatusActive" and "vn_Body v = up_Body u"
    and "upsert_refused u = None" and "0 < dc_LatestVersion d"
  shows "DocUpsert newID u now db = Inr (d, v, db)"
  using assms by (simp add: DocUpsert_def lockOrInsertDocument_def Let_def upsert_body_def)

text \<open>The versions of a document only grow, except by its hard removal.\<close>

lemma versions_left:
  "(\<And>db'. r = Inr db' \<Longrightarrow> \<exists>new. versions_of db' i = versions_of db i @ new) \<Longrightarrow>
   \<exists>new. versions_of (left db r) i = versions_of db i @ new"
  by (cases r) auto

lemma versions_versioned: "\<exists>new. versions_of (versioned db d body by now status) i = versions_of db i @ new"
  by (auto simp: versioned_def)

lemma versions_exec:
  assumes "docs_ok db" and "op \<noteq> DHardDelete i"
  shows "\<exists>new. versions_of (doc_exec op db) i = versions_of db i @ new"
proof (cases op)
  case (DUpsert newID u now)
  show ?thesis unfolding DUpsert doc_exec.simps
  proof (rule versions_left)
    fix db' assume "map_sum id (\<lambda>(d, v, db'). db') (DocUpsert newID u now db) = Inr db'"
    then obtain d v where "DocUpsert newID u now db = Inr (d, v, db')" by (cases "DocUpsert newID u now db") auto
    from assms(1) this show "\<exists>new. versions_of db' i = versions_of db i @ new"
    proof (cases rule: DocUpsert_cases)
      case (new d db1)
      then show ?thesis using versions_versioned insert_doc_views by metis
    qed (use versions_versioned in auto)
  qed
next
  case (DDelete key who seed now)
  then show ?thesis using versions_versioned
    by (auto simp: DocDelete_def tombstone_eq split: option.splits)
next
  case (DTombstone j who now)
  then show ?thesis using versions_versioned
    by (auto simp: TombstoneByID_def tombstone_eq split: option.splits)
next
  case (DHardDelete j)
  have "filter (\<lambda>v. vn_DocumentID v = i) (filter (\<lambda>v. vn_DocumentID v \<noteq> j) vs) = filter (\<lambda>v. vn_DocumentID v = i) vs"
    for vs :: "Version list"
    unfolding filter_filter using assms(2) DHardDelete by (intro filter_cong) auto
  then have "versions_of (doc_exec op db) i = versions_of db i"
    unfolding DHardDelete by (simp add: HardDelete_def delete_rows_def versions_of_def del: filter_filter)
  then show ?thesis by simp
next
  case (DPatch j p now)
  then show ?thesis
    by (auto simp: UpdateStory_def Let_def versions_of_def split: option.splits)
next
  case (DTags j ts now)
  then show ?thesis using SetDocumentTags_db [of j ts now db]
    by (cases "SetDocumentTags j ts now db") (auto dest: SetDocumentTags_db)
next
  case (DHeadline j h now)
  then show ?thesis by (cases "SetDocumentHeadline j h now db") (auto dest: SetDocumentHeadline_db)
next
  case (DSummary j t now)
  then show ?thesis by (cases "SetSummary j t now db") (auto dest: SetSummary_db)
qed (auto simp: CreateStory_def CreateTask_def insert_created_def insert_doc_def versions_of_def split: option.splits)

lemma versions_run:
  "docs_ok db \<Longrightarrow> DHardDelete i \<notin> set ops \<Longrightarrow> \<exists>new. versions_of (fold doc_exec ops db) i = versions_of db i @ new"
proof (induction ops arbitrary: db)
  case (Cons op ops)
  obtain n where "versions_of (doc_exec op db) i = versions_of db i @ n" using versions_exec Cons.prems by fastforce
  moreover obtain m where "versions_of (fold doc_exec ops (doc_exec op db)) i = versions_of (doc_exec op db) i @ m"
    using Cons.IH [OF docs_ok_exec] Cons.prems by fastforce
  ultimately show ?case by simp
qed simp

section \<open>Pages of documents\<close>

lemma doc_key_eq: "doc_key d = (t, i) \<longleftrightarrow> dc_CreatedAt d = t \<and> dc_ID d = i"
  by (auto simp: doc_key_def)

definition doc_listing :: "docdb \<Rightarrow> DocFilter \<times> int \<Rightarrow> Document list" where
  "doc_listing db q = newest_first (filter (doc_matches (fst q)) (dd_Documents db))"

definition to_cursor :: "(int \<times> string) option \<Rightarrow> cursor" where
  "to_cursor c = (case c of None \<Rightarrow> NoCursor | Some (t, i) \<Rightarrow> At t i)"

definition of_cursor :: "cursor \<Rightarrow> (int \<times> string) option" where
  "of_cursor c = (case c of At t i \<Rightarrow> Some (t, i) | _ \<Rightarrow> None)"

definition doc_page :: "docdb \<Rightarrow> DocFilter \<times> int \<Rightarrow> (int \<times> string) option \<Rightarrow> Document list \<times> (int \<times> string) option" where
  "doc_page db q c = (case DocList db (fst q) (snd q) (to_cursor c) of
     Inl e \<Rightarrow> ([], None) | Inr (rows, next) \<Rightarrow> (rows, of_cursor next))"

lemma list_limit_pos: "0 < d \<Longrightarrow> 0 < m \<Longrightarrow> 0 < list_limit d m x"
  by (auto simp: list_limit_def)

lemma doc_page_eq:
  "doc_page db q c = cut doc_key (list_limit 50 200 (snd q))
     (newest_first (filter (\<lambda>d. case c of None \<Rightarrow> True | Some k \<Rightarrow> doc_key d < k) (filter (doc_matches (fst q)) (dd_Documents db))))"
  using list_limit_pos [of 50 200 "snd q"]
  by (auto simp: doc_page_def DocList_def Let_def to_cursor_def of_cursor_def cut_def min_def doc_key_def split: option.splits)

lemma newest_first_sorted:
  "unique_key dc_ID ds \<Longrightarrow> sorted_wrt (>) (map doc_key (newest_first ds))"
proof -
  assume "unique_key dc_ID ds"
  then have "distinct (map doc_key ds)"
    by (induction ds) (auto simp: unique_key_def doc_key_def)
  from sort_key_strict [OF this] show ?thesis by (simp add: newest_first_def rev_map [symmetric] sorted_wrt_rev)
qed

lemma newest_first_filter: "newest_first (filter P ds) = filter P (newest_first ds)"
  by (simp add: newest_first_def filter_sort [symmetric] rev_filter)

interpretation doc_pages: keyset_pages docs_ok doc_listing doc_page "\<lambda>q. list_limit 50 200 (snd q)" doc_key
proof
  fix q :: "DocFilter \<times> int" and db pre r post
  show "0 < list_limit 50 200 (snd q)" by (simp add: list_limit_pos)
  show "doc_page db q None = cut doc_key (list_limit 50 200 (snd q)) (doc_listing db q)"
    by (simp add: doc_page_eq doc_listing_def)
  assume ok: "docs_ok db" and l: "doc_listing db q = pre @ r # post"
  have "sorted_wrt (>) (map doc_key (pre @ r # post))"
    unfolding l [symmetric] doc_listing_def
    using ok by (intro newest_first_sorted unique_key_filter) (simp add: docs_ok_def ids_ok_def)
  from behind_descending [OF this] show "doc_page db q (Some (doc_key r)) = cut doc_key (list_limit 50 200 (snd q)) post"
    unfolding doc_page_eq l [symmetric] by (simp add: newest_first_filter doc_listing_def del: filter_filter)
qed

section \<open>Properties\<close>

text \<open>
  C30: the history of a document is complete: in every reachable store its versions are numbered from
  1 to the latest without a gap; a document, skill or changelog has the status of its newest
  version, so it is deleted exactly when that is a tombstone, and no two of them share a scope, owner and name. (Of a story or task
  the status is not that of a version: one created as deleted has an active version.)
\<close>

theorem document_history:
  assumes "db = fold doc_exec ops empty_db" and "d \<in> set (dd_Documents db)"
  shows "map vn_Version (listVersions db (dc_ID d)) = [1..dc_LatestVersion d] \<and> 1 \<le> dc_LatestVersion d \<and>
    (strict_named d \<longrightarrow> LatestVersionStatus db (dc_ID d) = Inr (dc_Status d) \<and>
       filter (\<lambda>e. strict_named e \<and> key_of e = key_of d) (dd_Documents db) = [d])"
proof -
  have ok: "docs_ok db" unfolding assms(1) by (rule docs_ok_run)
  then have num: "map vn_Version (versions_of db (dc_ID d)) = [1..dc_LatestVersion d]" "1 \<le> dc_LatestVersion d"
    using assms(2) by (auto simp: docs_ok_def row_ok_def numbered_def)
  then have "sorted (map vn_Version (versions_of db (dc_ID d)))" by (simp add: sorted_upto)
  then have "listVersions db (dc_ID d) = versions_of db (dc_ID d)"
    unfolding listVersions_def by (simp add: sorted_sort_id sort_key_id_if_sorted)
  moreover have "LatestVersionStatus db (dc_ID d) = Inr (dc_Status d)" if "strict_named d"
    using latest_ok [OF ok assms(2)] that by (auto simp: LatestVersionStatus_def)
  moreover have "filter (\<lambda>e. strict_named e \<and> key_of e = key_of d) (dd_Documents db) = [d]" if "strict_named d"
  proof -
    have "filter (\<lambda>e. key_of e = key_of d) ds = [d]" if "distinct (map key_of ds)" "d \<in> set ds" for ds
      using that by (induction ds) (auto simp: filter_empty_conv image_iff)
    from this [of "filter strict_named (dd_Documents db)"] show ?thesis
      using ok assms(2) that by (simp add: docs_ok_def keys_ok_def conj_commute)
  qed
  ultimately show ?thesis using num by simp
qed

definition demo_key :: Key where
  "demo_key = \<lparr>ky_Scope = ''project'', ky_WorkspaceID = ''w'', ky_ProjectID = ''p'', ky_UserID = [], ky_Name = ''n''\<rparr>"

definition demo_up :: "string \<Rightarrow> UpsertInput" where
  "demo_up body = \<lparr>up_Key = demo_key, up_Type = [], up_Body = body, up_CreatedBy = ''u'', up_SystemWriteAllowed = False\<rparr>"

definition demo_db :: docdb where
  "demo_db = fold doc_exec [DUpsert ''d1'' (demo_up ''a'') 1, DUpsert ''d2'' (demo_up ''b'') 2, DDelete demo_key ''u'' False 3] empty_db"

theorem document_history_witness:
  "\<exists>d. dd_Documents demo_db = [d] \<and> dc_LatestVersion d = 3 \<and> map vn_Version (listVersions demo_db (dc_ID d)) = [1..3]"
proof -
  have l: "length (dd_Documents demo_db) = 1" "dc_LatestVersion (hd (dd_Documents demo_db)) = 3" by code_simp+
  then obtain d where d: "dd_Documents demo_db = [d]" by (cases "dd_Documents demo_db") auto
  then show ?thesis using document_history [OF demo_db_def, of d] l(2) by simp
qed

text \<open>
  C31: a version is never changed or lost: whatever else is done to the store, short of the hard
  removal of the document, the versions it had stay as they are and new ones come after them.
\<close>

theorem versions_immutable:
  assumes "db = fold doc_exec ops empty_db" and "DHardDelete i \<notin> set later"
  shows "\<exists>new. versions_of (fold doc_exec later db) i = versions_of db i @ new"
  using versions_run [OF _ assms(2), of db] docs_ok_run unfolding assms(1) by blast

theorem versions_immutable_witness:
  "\<exists>new. versions_of (fold doc_exec [DDelete demo_key ''u'' False 9, DHardDelete ''d2''] demo_db) ''d1'' = versions_of demo_db ''d1'' @ new"
  by (rule versions_immutable [OF demo_db_def]) simp

text \<open>
  C32: what was upserted is what is read: the default read of the key returns the row and the one
  active version with that body, at a project key whatever workspace the reader names; and the same
  upsert again writes nothing and returns the same version.
\<close>

theorem upsert_roundtrip:
  assumes "db = fold doc_exec ops empty_db" and "DocUpsert newID u now db = Inr (d, v, db')"
  shows "DocGet db' (up_Key u) latest_only = Inr (d, [v]) \<and> vn_Body v = up_Body u \<and> vn_Status v = StatusActive \<and>
    (ky_Scope (up_Key u) = ScopeProject \<and> w \<noteq> [] \<longrightarrow> DocGet db' ((up_Key u)\<lparr>ky_WorkspaceID := w\<rparr>) latest_only = Inr (d, [v])) \<and>
    DocUpsert newID' u now' db' = Inr (d, v, db')"
proof -
  have ok: "docs_ok db" unfolding assms(1) by (rule docs_ok_run)
  note st = DocUpsert_stored [OF ok assms(2)] and nr = DocUpsert_valid [OF assms(2)]
  have "DocGet db' (up_Key u) latest_only = Inr (d, [v])"
    using DocGet_latest [OF key_valid [OF nr]] st by auto
  moreover have "DocGet db' ((up_Key u)\<lparr>ky_WorkspaceID := w\<rparr>) latest_only = Inr (d, [v])"
    if "ky_Scope (up_Key u) = ScopeProject \<and> w \<noteq> []"
  proof -
    have "KeyValidate ((up_Key u)\<lparr>ky_WorkspaceID := w\<rparr>) = None"
      using key_valid [OF nr] that by (auto simp: KeyValidate_def Let_def scope_defs split: if_splits)
    moreover have "resolveKey ((up_Key u)\<lparr>ky_WorkspaceID := w\<rparr>) = resolveKey (up_Key u)"
      using that by (simp add: resolveKey_def)
    then have "lookupDocument db' ((up_Key u)\<lparr>ky_WorkspaceID := w\<rparr>) = Some d"
      using st by (simp add: lookupDocument_def)
    ultimately show ?thesis using DocGet_latest st by auto
  qed
  moreover have "DocUpsert newID' u now' db' = Inr (d, v, db')"
    using upsert_same_body [of db' u d v newID' now'] st nr by simp
  ultimately show ?thesis using st by blast
qed

theorem upsert_roundtrip_witness:
  "\<exists>d v db'. DocUpsert ''x'' (demo_up ''c'') 5 demo_db = Inr (d, v, db') \<and>
     DocGet db' (demo_key\<lparr>ky_WorkspaceID := ''w2''\<rparr>) latest_only = Inr (d, [v]) \<and> vn_Body v = ''c''"
proof -
  have "\<exists>r. DocUpsert ''x'' (demo_up ''c'') 5 demo_db = Inr r"
  proof -
    have "(case DocUpsert ''x'' (demo_up ''c'') 5 demo_db of Inl e \<Rightarrow> False | Inr r \<Rightarrow> True)" by code_simp
    then show ?thesis by (cases "DocUpsert ''x'' (demo_up ''c'') 5 demo_db") auto
  qed
  then obtain d v db' where u: "DocUpsert ''x'' (demo_up ''c'') 5 demo_db = Inr (d, v, db')" by (metis prod_cases3)
  have k: "up_Key (demo_up ''c'') = demo_key" "ky_Scope demo_key = ScopeProject" "up_Body (demo_up ''c'') = ''c''" "''w2'' \<noteq> []"
    by (simp_all add: demo_up_def demo_key_def ScopeProject_def)
  show ?thesis using upsert_roundtrip [OF demo_db_def u, of "''w2''"] u k by auto
qed

text \<open>
  Deleting and reviving: after a delete the default read of the key and the default list and
  count do not find the document, the full history is still read with the tombstone last, and the
  next upsert of the key, also with the old body, brings the row back under its id.
\<close>

theorem delete_and_revive:
  assumes "db = fold doc_exec ops empty_db" and "DocDelete k by seed t db = Inr (d, v, db1)"
    and "DocUpsert newID u now db1 = Inr (d2, v2, db2)" and "up_Key u = k"
  shows "DocGet db1 k latest_only = Inl DocNotFound \<and> dc_Status d = StatusDeleted \<and>
    \<not> doc_matches (f\<lparr>df_Status := []\<rparr>) d \<and>
    (\<exists>vs. DocGet db1 k (latest_only\<lparr>gt_AllVersions := True\<rparr>) = Inr (d, vs) \<and> last vs = v \<and> vn_Status v = StatusDeleted) \<and>
    dc_ID d2 = dc_ID d \<and> dc_LatestVersion d2 = dc_LatestVersion d + 1 \<and> DocGet db2 k latest_only = Inr (d2, [v2])"
proof -
  have ok: "docs_ok db" unfolding assms(1) by (rule docs_ok_run)
  obtain e where e: "lookupDocument db k = Some e" "d = moved_on e t StatusDeleted e" "v = new_version e [] by t StatusDeleted"
    "db1 = versioned db e [] by t StatusDeleted" and kv: "KeyValidate k = None"
    using assms(2) by (auto simp: DocDelete_def tombstone_eq split: option.splits if_splits)
  have in_db: "e \<in> set (dd_Documents db)" using lookup_in [OF e(1)] by blast
  then have num: "numbered db e" "1 \<le> dc_LatestVersion e" using ok by (auto simp: docs_ok_def row_ok_def)
  have ok1: "docs_ok db1" unfolding e(4) by (rule docs_ok_tombstone [OF ok in_db])
  have l1: "lookupDocument db1 k = Some d" unfolding e(2,4) lookup_versioned e(1) by simp
  have v1: "latestVersionInTx db1 (dc_ID d) = Some v" unfolding e(2-4) using latest_versioned [OF num(1)] num(2) by simp
  have d1: "d \<in> set (dd_Documents db1)" using lookup_in [OF l1] by blast
  have get1: "DocGet db1 k latest_only = Inl DocNotFound" using DocGet_latest [OF kv l1 v1] e(3) by simp
  have "numbered db1 d" using ok1 d1 by (auto simp: docs_ok_def row_ok_def)
  then have "sorted (map vn_Version (versions_of db1 (dc_ID d)))" by (simp add: numbered_def sorted_upto)
  then have "listVersions db1 (dc_ID d) = versions_of db1 (dc_ID d)" by (simp add: listVersions_def sort_key_id_if_sorted)
  moreover have "last (versions_of db1 (dc_ID d)) = v" unfolding e(2-4) by (simp add: versioned_def)
  ultimately have hist: "\<exists>vs. DocGet db1 k (latest_only\<lparr>gt_AllVersions := True\<rparr>) = Inr (d, vs) \<and> last vs = v \<and> vn_Status v = StatusDeleted"
    using kv l1 e(3) by (simp add: DocGet_def latest_only_def)
  have del: "dc_Status d = StatusDeleted" unfolding e(2) by simp
  have revived: "d2 = moved_on d now StatusActive d"
    using ok1 assms(3)
  proof (cases rule: DocUpsert_cases)
    case (same x)
    then show ?thesis using l1 del unfolding assms(4) by auto
  next
    case (old x)
    then show ?thesis using l1 unfolding assms(4) by simp
  next
    case (new x y)
    then show ?thesis using l1 unfolding assms(4) by simp
  qed
  have st: "DocGet db2 k latest_only = Inr (d2, [v2])"
    using DocUpsert_stored [OF ok1 assms(3)] DocGet_latest [OF kv] unfolding assms(4) by auto
  show ?thesis using get1 hist revived st e(2) by (simp add: doc_matches_def status_matches_def)
qed

definition live_db :: docdb where
  "live_db = fold doc_exec [DUpsert ''d1'' (demo_up ''a'') 1] empty_db"

theorem delete_and_revive_witness:
  "\<exists>d v db1 d2 v2 db2. DocDelete demo_key ''u'' False 3 live_db = Inr (d, v, db1) \<and>
     DocUpsert ''d3'' (demo_up ''a'') 4 db1 = Inr (d2, v2, db2) \<and>
     DocGet db1 demo_key latest_only = Inl DocNotFound \<and> DocGet db2 demo_key latest_only = Inr (d2, [v2]) \<and> dc_ID d2 = dc_ID d"
proof -
  have a: "(case DocDelete demo_key ''u'' False 3 live_db of Inl e \<Rightarrow> False
      | Inr (d, v, db1) \<Rightarrow> (case DocUpsert ''d3'' (demo_up ''a'') 4 db1 of Inl e \<Rightarrow> False | Inr r \<Rightarrow> True))" by code_simp
  then obtain d v db1 where d: "DocDelete demo_key ''u'' False 3 live_db = Inr (d, v, db1)"
    by (cases "DocDelete demo_key ''u'' False 3 live_db") auto
  then obtain d2 v2 db2 where u: "DocUpsert ''d3'' (demo_up ''a'') 4 db1 = Inr (d2, v2, db2)"
    using a by (cases "DocUpsert ''d3'' (demo_up ''a'') 4 db1") auto
  have "up_Key (demo_up ''a'') = demo_key" by (simp add: demo_up_def)
  from delete_and_revive [OF live_db_def d u this] show ?thesis using d u by blast
qed

text \<open>
  C33: pagination loses and repeats nothing: following the cursors of the list visits, newest first,
  exactly the documents that the filter matches, each once, in pages of at most the limit; their
  number is what the count returns.
\<close>

theorem list_pages_complete:
  assumes "db = fold doc_exec ops empty_db" and "DocCount db f < n * list_limit 50 200 lim"
  shows "concat (fst (walk (doc_page db (f, lim)) n None)) = newest_first (filter (doc_matches f) (dd_Documents db)) \<and>
    snd (walk (doc_page db (f, lim)) n None) \<and>
    length (concat (fst (walk (doc_page db (f, lim)) n None))) = DocCount db f \<and>
    length (fst (doc_page db (f, lim) None)) \<le> list_limit 50 200 lim"
proof -
  have ok: "docs_ok db" unfolding assms(1) by (rule docs_ok_run)
  have l: "doc_listing db (f, lim) = newest_first (filter (doc_matches f) (dd_Documents db))" by (simp add: doc_listing_def)
  then have len: "length (doc_listing db (f, lim)) = DocCount db f" by (simp add: DocCount_def newest_first_def)
  show ?thesis
    using doc_pages.walk_all [OF ok, of "(f, lim)" n] doc_pages.page_size [OF ok, of "(f, lim)"] assms(2) len l by simp
qed

definition any_doc :: DocFilter where
  "any_doc = \<lparr>df_Type = [], df_Scope = [], df_WorkspaceID = [], df_ProjectID = [], df_UserID = [], df_Tags = [],
     df_Status = [], df_NamePrefix = [], df_NameContains = [], df_Audience = []\<rparr>"

definition three_db :: docdb where
  "three_db = fold doc_exec [DUpsert ''d1'' (demo_up ''a'') 1,
     DStory ''s1'' \<lparr>ci_ProjectID = ''p'', ci_WorkspaceID = ''w'', ci_ParentID = [], ci_Title = ''t'', ci_Body = [],
       ci_AcceptanceCriteria = [], ci_Status = [], ci_Priority = [], ci_Category = [], ci_Tags = [], ci_CreatedBy = []\<rparr> 1,
     DUpsert ''d0'' ((demo_up ''b'')\<lparr>up_Key := demo_key\<lparr>ky_Name := ''m''\<rparr>\<rparr>) 2] empty_db"

theorem list_pages_complete_witness:
  "map dc_ID (concat (fst (walk (doc_page three_db (any_doc, 1)) 4 None))) = [''d0'', ''s1'', ''d1'']"
proof -
  have "DocCount three_db any_doc < 4 * list_limit 50 200 1" by code_simp
  from list_pages_complete [OF three_db_def this]
  have "concat (fst (walk (doc_page three_db (any_doc, 1)) 4 None)) = newest_first (filter (doc_matches any_doc) (dd_Documents three_db))"
    by simp
  moreover have "map dc_ID (newest_first (filter (doc_matches any_doc) (dd_Documents three_db))) = [''d0'', ''s1'', ''d1'']"
    by code_simp
  ultimately show ?thesis by simp
qed

end
