(* ===== verification/DocSeeds.thy ===== *)
theory DocSeeds
  imports DocProps
begin

text \<open>
  The boot reconciliation of the embedded artifacts (\<^verbatim>\<open>system_seed.go\<close>, \<^verbatim>\<open>seed.go\<close>): what a
  successful pass establishes between the registry and the system documents, and what a failed one
  leaves behind.
\<close>

definition sys_key :: "string \<Rightarrow> Key" where
  "sys_key name = \<lparr>ky_Scope = ScopeSystem, ky_WorkspaceID = [], ky_ProjectID = [], ky_UserID = [], ky_Name = name\<rparr>"

section \<open>Lemmas\<close>

lemma SeedSystemTyped_stored:
  assumes "docs_ok db" and "SeedSystemTyped newID docType name body createdBy now db = Inr db'"
  shows "docs_ok db' \<and> (\<exists>d v. lookupDocument db' (sys_key name) = Some d \<and> latestVersionInTx db' (dc_ID d) = Some v \<and>
    vn_Body v = body \<and> vn_Status v \<noteq> StatusDeleted \<and> KeyValidate (sys_key name) = None)"
proof -
  let ?u = "\<lparr>up_Key = sys_key name, up_Type = docType, up_Body = body, up_CreatedBy = createdBy, up_SystemWriteAllowed = True\<rparr>"
  have up: ?thesis if eq: "map_sum id (\<lambda>(d, v, db'). db') (DocUpsert newID ?u now db) = Inr db'"
  proof -
    obtain d v where u: "DocUpsert newID ?u now db = Inr (d, v, db')"
      using eq by (cases "DocUpsert newID ?u now db") auto
    show ?thesis using docs_ok_upsert [OF assms(1) u] DocUpsert_stored [OF assms(1) u] key_valid [OF DocUpsert_valid [OF u]] by auto
  qed
  show ?thesis
  proof (cases "DocGet db (sys_key name) latest_only")
    case (Inl e)
    then show ?thesis using assms(2) up
      by (auto simp: SeedSystemTyped_def sys_key_def latest_only_def split: if_splits)
  next
    case (Inr r)
    obtain d vs where r: "r = (d, vs)" by (cases r)
    show ?thesis
    proof (cases "map vn_Body vs = [body]")
      case False
      then show ?thesis using assms(2) up Inr r
        by (auto simp: SeedSystemTyped_def sys_key_def latest_only_def)
    next
      case True
      then have db': "db' = db" using assms(2) Inr r by (simp add: SeedSystemTyped_def sys_key_def latest_only_def)
      have kv: "KeyValidate (sys_key name) = None" and l: "lookupDocument db (sys_key name) = Some d"
        using Inr r by (auto simp: DocGet_def map_sum_Inr split: option.splits if_splits)
      obtain v where v: "latestVersionInTx db (dc_ID d) = Some v"
        using latest_ok [OF assms(1)] lookup_in [OF l] by blast
      then show ?thesis using DocGet_latest [OF kv l v] Inr r True db' assms(1) kv l by (auto split: if_splits)
    qed
  qed
qed

lemma GetByID_lookup: "docs_ok db \<Longrightarrow> lookupDocument db k = Some d \<Longrightarrow> GetByID db (dc_ID d) = Some d"
  unfolding GetByID_def using lookup_in [of db k d] by (intro row_at_unique) (auto simp: docs_ok_def ids_ok_def)

lemma lookup_update:
  "(\<And>x. at_key (resolveKey k) (f x) = at_key (resolveKey k) x) \<Longrightarrow>
   lookupDocument (update_doc i f db) k = map_option (\<lambda>x. if dc_ID x = i then f x else x) (lookupDocument db k)"
  unfolding lookupDocument_def update_doc_def update_rows_def by (simp add: find_map_same)

lemma at_key_patches [simp]:
  "at_key k (x\<lparr>dc_Tags := ts, dc_UpdatedAt := t\<rparr>) = at_key k x" "at_key k (x\<lparr>dc_Headline := h, dc_UpdatedAt := t\<rparr>) = at_key k x"
  by (auto simp: at_key_def named_type_def)

lemma stringSlicesEqualUnordered_iff: "stringSlicesEqualUnordered a b \<longleftrightarrow> mset a = mset b"
  using sameSet_iff [of a b] by (simp add: stringSlicesEqualUnordered_def sameSet_def)

lemma SetDocumentTags_stored:
  assumes "docs_ok db" and "lookupDocument db k = Some d" and "SetDocumentTags (dc_ID d) ts now db = Inr (d', db')"
  shows "docs_ok db' \<and> (\<exists>e. lookupDocument db' k = Some e \<and> dc_ID e = dc_ID d \<and> mset (dc_Tags e) = mset (kvNormalize ts) \<and>
    dc_Headline e = dc_Headline d) \<and> latestVersionInTx db' = latestVersionInTx db"
proof -
  have ok: "docs_ok db'" using docs_ok_exec [OF assms(1), of "DTags (dc_ID d) ts now"] assms(3) by simp
  have "db' = db \<and> mset (dc_Tags d) = mset (kvNormalize ts) \<or> db' = update_doc (dc_ID d) (\<lambda>d. d\<lparr>dc_Tags := kvNormalize ts, dc_UpdatedAt := now\<rparr>) db"
    using assms(3) GetByID_lookup [OF assms(1,2)]
    by (auto simp: SetDocumentTags_def Let_def stringSlicesEqualUnordered_iff split: if_splits)
  then show ?thesis using assms(2) ok by (auto simp: lookup_update fun_eq_iff)
qed

lemma SetDocumentHeadline_stored:
  assumes "docs_ok db" and "lookupDocument db k = Some d" and "SetDocumentHeadline (dc_ID d) h now db = Inr (d', db')"
  shows "(\<exists>e. lookupDocument db' k = Some e \<and> dc_ID e = dc_ID d \<and> dc_Tags e = dc_Tags d \<and> dc_Headline e = h) \<and>
    latestVersionInTx db' = latestVersionInTx db"
proof -
  have "db' = db \<and> dc_Headline d = h \<or> db' = update_doc (dc_ID d) (\<lambda>d. d\<lparr>dc_Headline := h, dc_UpdatedAt := now\<rparr>) db"
    using assms(3) GetByID_lookup [OF assms(1,2)]
    by (auto simp: SetDocumentHeadline_def split: if_splits)
  then show ?thesis using assms(2) by (auto simp: lookup_update fun_eq_iff)
qed

lemma seed_metadata_stored:
  assumes "docs_ok db" and "lookupDocument db (sys_key (se_Name i)) = Some d" and "seed_metadata i now db = (None, db')"
  shows "(\<exists>e. lookupDocument db' (sys_key (se_Name i)) = Some e \<and> dc_ID e = dc_ID d \<and>
      (case se_Tags i of None \<Rightarrow> dc_Tags e = dc_Tags d | Some ts \<Rightarrow> mset (dc_Tags e) = mset (kvNormalize ts)) \<and>
      dc_Headline e = (if se_Headline i = [] then dc_Headline d else se_Headline i)) \<and>
    latestVersionInTx db' = latestVersionInTx db"
proof (cases "se_Tags i = None \<and> se_Headline i = []")
  case True
  then show ?thesis using assms by (simp add: seed_metadata_def)
next
  case False
  define r where "r = (case se_Tags i of None \<Rightarrow> Inr db | Some ts \<Rightarrow> map_sum id snd (SetDocumentTags (dc_ID d) ts now db))"
  have m: "(case r of Inl e \<Rightarrow> (Some e, db) | Inr db1 \<Rightarrow> (if se_Headline i = [] then (None, db1)
      else case SetDocumentHeadline (dc_ID d) (se_Headline i) now db1 of Inl e \<Rightarrow> (Some e, db1) | Inr (d', db2) \<Rightarrow> (None, db2))) = (None, db')"
    using assms(2,3) False unfolding seed_metadata_def sys_key_def [symmetric] r_def by simp
  then obtain db1 where db1: "r = Inr db1" by (cases r) auto
  have h: "if se_Headline i = [] then db' = db1 else \<exists>d'. SetDocumentHeadline (dc_ID d) (se_Headline i) now db1 = Inr (d', db')"
    using m unfolding db1 by (auto split: sum.splits if_splits)
  have t: "docs_ok db1 \<and> (\<exists>e. lookupDocument db1 (sys_key (se_Name i)) = Some e \<and> dc_ID e = dc_ID d \<and>
      (case se_Tags i of None \<Rightarrow> dc_Tags e = dc_Tags d | Some ts \<Rightarrow> mset (dc_Tags e) = mset (kvNormalize ts)) \<and>
      dc_Headline e = dc_Headline d) \<and> latestVersionInTx db1 = latestVersionInTx db"
  proof (cases "se_Tags i")
    case None
    then show ?thesis using db1 assms(1,2) by (simp add: r_def)
  next
    case (Some ts)
    then obtain d' where "SetDocumentTags (dc_ID d) ts now db = Inr (d', db1)"
      using db1 unfolding r_def by (cases "SetDocumentTags (dc_ID d) ts now db") auto
    from SetDocumentTags_stored [OF assms(1,2) this] show ?thesis using Some by simp
  qed
  then obtain e where e: "lookupDocument db1 (sys_key (se_Name i)) = Some e" "dc_ID e = dc_ID d" "dc_Headline e = dc_Headline d"
    "case se_Tags i of None \<Rightarrow> dc_Tags e = dc_Tags d | Some ts \<Rightarrow> mset (dc_Tags e) = mset (kvNormalize ts)"
    by blast
  show ?thesis
  proof (cases "se_Headline i = []")
    case True
    then show ?thesis using h t e by simp
  next
    case False
    then obtain d' where "SetDocumentHeadline (dc_ID e) (se_Headline i) now db1 = Inr (d', db')" using h e(2) by auto
    from SetDocumentHeadline_stored [OF _ e(1) this] t show ?thesis using False e by (auto split: option.splits)
  qed
qed

lemma seed_at_upsert: "seed_at n (seed_upsert n body hash now seeds) \<noteq> None \<and>
  sd_EmbeddedHash (the (seed_at n (seed_upsert n body hash now seeds))) = hash \<and>
  sd_Body (the (seed_at n (seed_upsert n body hash now seeds))) = body"
  unfolding seed_at_def seed_upsert_def by (subst row_at_upsert; simp split: option.split)+

section \<open>Properties\<close>

text \<open>
  A successful pass brings the registry and the mirrored document into agreement: the default
  read of the system document returns the embedded body, its tags are the declared ones (the last
  of each single-valued key), its headline the declared one, and the registry holds the body and
  its hash; and the next pass over the same artifact changes nothing.
\<close>

theorem reconcile_agrees:
  assumes "db = fold doc_exec ops empty_db"
    and "ReconcileSystemSeedTyped sha newID i now (seeds, db) = (Changed c, seeds1, db1)"
  shows "(\<exists>d v. DocGet db1 (sys_key (se_Name i)) latest_only = Inr (d, [v]) \<and> vn_Body v = se_Body i \<and>
      (\<forall>ts. se_Tags i = Some ts \<longrightarrow> mset (dc_Tags d) = mset (kvNormalize ts)) \<and>
      (se_Headline i \<noteq> [] \<longrightarrow> dc_Headline d = se_Headline i)) \<and>
    map_option sd_Body (seed_at (se_Name i) seeds1) = Some (se_Body i) \<and>
    ReconcileSystemSeedTyped sha newID' i now' (seeds1, db1) = (Unchanged, seeds1, db1)"
proof -
  have ok: "docs_ok db" unfolding assms(1) by (rule docs_ok_run)
  let ?s1 = "seed_upsert (se_Name i) (se_Body i) (sha (hash_input i)) now seeds"
  obtain dbm where s: "SeedSystemTyped newID (or_default (se_Type i) TypeDocument) (se_Name i) (se_Body i) (se_CreatedBy i) now db = Inr dbm"
    and m: "seed_metadata i now dbm = (None, db1)" and s1: "seeds1 = ?s1"
    using assms(2) by (auto simp: ReconcileSystemSeedTyped_def Let_def split: if_splits sum.splits prod.splits option.splits)
  obtain d v where d: "docs_ok dbm" "lookupDocument dbm (sys_key (se_Name i)) = Some d" "latestVersionInTx dbm (dc_ID d) = Some v"
    "vn_Body v = se_Body i" "vn_Status v \<noteq> StatusDeleted" "KeyValidate (sys_key (se_Name i)) = None"
    using SeedSystemTyped_stored [OF ok s] by blast
  from seed_metadata_stored [OF d(1,2) m] obtain e where e: "lookupDocument db1 (sys_key (se_Name i)) = Some e" "dc_ID e = dc_ID d"
    "case se_Tags i of None \<Rightarrow> dc_Tags e = dc_Tags d | Some ts \<Rightarrow> mset (dc_Tags e) = mset (kvNormalize ts)"
    "dc_Headline e = (if se_Headline i = [] then dc_Headline d else se_Headline i)" "latestVersionInTx db1 = latestVersionInTx dbm"
    by blast
  have "DocGet db1 (sys_key (se_Name i)) latest_only = Inr (e, [v])"
    using DocGet_latest [OF d(6) e(1)] e(2,5) d(3,5) by simp
  moreover have "\<forall>ts. se_Tags i = Some ts \<longrightarrow> mset (dc_Tags e) = mset (kvNormalize ts)" using e(3) by auto
  moreover have "map_option sd_Body (seed_at (se_Name i) seeds1) = Some (se_Body i)"
    using seed_at_upsert [of "se_Name i" "se_Body i" "sha (hash_input i)" now seeds] unfolding s1 by (auto simp: option.map_sel)
  moreover have "ReconcileSystemSeedTyped sha newID' i now' (seeds1, db1) = (Unchanged, seeds1, db1)"
    using seed_at_upsert [of "se_Name i" "se_Body i" "sha (hash_input i)" now seeds] unfolding s1
    by (auto simp: ReconcileSystemSeedTyped_def Let_def split: option.splits)
  ultimately show ?thesis using d(4) e(4) by auto
qed

definition demo_seed :: seed_input where
  "demo_seed = \<lparr>se_Type = ''document'', se_Name = ''n'', se_Body = ''b'', se_Tags = Some [''phase:a'', ''phase:b''],
     se_Headline = ''h'', se_CreatedBy = ''boot''\<rparr>"

theorem reconcile_agrees_witness:
  "\<exists>seeds1 db1 d v. ReconcileSystemSeedTyped id ''d'' demo_seed 1 ([], fold doc_exec [] empty_db) = (Changed True, seeds1, db1) \<and>
     DocGet db1 (sys_key ''n'') latest_only = Inr (d, [v]) \<and> vn_Body v = ''b'' \<and> dc_Headline d = ''h'' \<and>
     ReconcileSystemSeedTyped id ''e'' demo_seed 2 (seeds1, db1) = (Unchanged, seeds1, db1)"
proof -
  have "fst (ReconcileSystemSeedTyped id ''d'' demo_seed 1 ([], fold doc_exec [] empty_db)) = Changed True" by code_simp
  then obtain seeds1 db1 where r: "ReconcileSystemSeedTyped id ''d'' demo_seed 1 ([], fold doc_exec [] empty_db) = (Changed True, seeds1, db1)"
    by (metis prod.collapse)
  have "se_Name demo_seed = ''n''" "se_Headline demo_seed = ''h''" "se_Body demo_seed = ''b''" by (simp_all add: demo_seed_def)
  with reconcile_agrees [OF refl r, of "''e''" 2] r show ?thesis by auto
qed

text \<open>
  A failed pass is never retried: the registry records the new hash before the document is
  written, so after a failure every later pass over the same artifact reports that nothing changed
  and leaves the document as it is.
\<close>

theorem seed_failure_sticks:
  assumes "ReconcileSystemSeedTyped sha newID i now (seeds, db) = (ReconcileFailed e, seeds1, db1)"
  shows "ReconcileSystemSeedTyped sha newID' i now' (seeds1, db1) = (Unchanged, seeds1, db1)"
proof -
  have "seeds1 = seed_upsert (se_Name i) (se_Body i) (sha (hash_input i)) now seeds"
    using assms by (auto simp: ReconcileSystemSeedTyped_def Let_def split: if_splits sum.splits prod.splits option.splits)
  then show ?thesis
    using seed_at_upsert [of "se_Name i" "se_Body i" "sha (hash_input i)" now seeds]
    by (auto simp: ReconcileSystemSeedTyped_def Let_def split: option.splits)
qed

theorem seed_failure_sticks_witness:
  "\<exists>seeds1 db1. ReconcileSystemSeedTyped id ''x'' (demo_seed\<lparr>se_Type := ''skill'', se_Body := ''new''\<rparr>) 2
       (snd (ReconcileSystemSeedTyped id ''d'' demo_seed 1 ([], empty_db))) = (ReconcileFailed (TypeMismatch ''document'' ''skill''), seeds1, db1) \<and>
     ReconcileSystemSeedTyped id ''y'' (demo_seed\<lparr>se_Type := ''skill'', se_Body := ''new''\<rparr>) 3 (seeds1, db1) = (Unchanged, seeds1, db1)"
proof -
  let ?st = "snd (ReconcileSystemSeedTyped id ''d'' demo_seed 1 ([], empty_db))"
  have "fst (ReconcileSystemSeedTyped id ''x'' (demo_seed\<lparr>se_Type := ''skill'', se_Body := ''new''\<rparr>) 2 ?st) =
      ReconcileFailed (TypeMismatch ''document'' ''skill'')" by code_simp
  then obtain seeds1 db1 where r: "ReconcileSystemSeedTyped id ''x'' (demo_seed\<lparr>se_Type := ''skill'', se_Body := ''new''\<rparr>) 2
      (fst ?st, snd ?st) = (ReconcileFailed (TypeMismatch ''document'' ''skill''), seeds1, db1)"
    by (metis prod.collapse)
  from seed_failure_sticks [OF r, of "''y''" 3] r show ?thesis by auto
qed

end
