(* ===== verification/Template.thy ===== *)
theory Template
  imports DocProps
begin

text \<open>
  The placeholders in document bodies (\<^verbatim>\<open>internal/document/template.go\<close>): a body is parsed
  into literal and placeholder segments, rendered with a resolver, and kept in a cache by document
  and version.
\<close>

datatype segment = Lit string | Hole string

fun is_hole :: "segment \<Rightarrow> bool" where
  "is_hole (Hole n) = True"
| "is_hole (Lit s) = False"

text \<open>\<open>strings.ReplaceAll\<close> of a backslash and a brace by the brace.\<close>

fun unescape_char :: "char \<Rightarrow> string \<Rightarrow> string" where
  "unescape_char b (c # d # cs) =
     (if c = CHR 0x5C \<and> d = b then b # unescape_char b cs else c # unescape_char b (d # cs))"
| "unescape_char b cs = cs"

definition unescapeBraces :: "string \<Rightarrow> string" where
  "unescapeBraces s =
     (if CHR 0x5C \<notin> set s then s else unescape_char (CHR ''}'') (unescape_char (CHR ''{'') s))"

definition name_char :: "char \<Rightarrow> bool" where
  "name_char c \<longleftrightarrow> c = CHR ''_'' \<or> (let n = (of_char c :: nat) in
     97 \<le> n \<and> n \<le> 122 \<or> 65 \<le> n \<and> n \<le> 90 \<or> 48 \<le> n \<and> n \<le> 57)"

definition isValidName :: "string \<Rightarrow> bool" where
  "isValidName name \<longleftrightarrow> name \<noteq> [] \<and> list_all name_char name"

definition lit_before :: "string \<Rightarrow> nat \<Rightarrow> segment list" where
  "lit_before body i = (if i > 0 then [Lit (unescapeBraces (take i body))] else [])"

function ParseTemplate :: "string \<Rightarrow> segment list" where
  "ParseTemplate body =
     (case Index body ''{{'' of
        None \<Rightarrow> (if body \<noteq> [] then [Lit (unescapeBraces body)] else [])
      | Some i \<Rightarrow>
          (let rest = drop (i + 2) body in
           lit_before body i @
           (case Index rest ''}}'' of
              None \<Rightarrow> [Lit (unescapeBraces (drop i body))]
            | Some close \<Rightarrow>
                (if isValidName (take close rest)
                 then Hole (take close rest) # ParseTemplate (drop (close + 2) rest)
                 else Lit ''{{'' # ParseTemplate rest))))"
  by pat_completeness auto

termination
  by (relation "measure length") (auto dest: Index_le)

declare ParseTemplate.simps [simp del]

fun hole_names :: "segment list \<Rightarrow> string list \<Rightarrow> string list" where
  "hole_names [] seen = []"
| "hole_names (Lit s # segs) seen = hole_names segs seen"
| "hole_names (Hole n # segs) seen = (if n \<in> set seen then hole_names segs seen else n # hole_names segs (n # seen))"

definition Names :: "segment list \<Rightarrow> string list" where
  "Names segs = hole_names segs []"

fun render_segment :: "(string \<Rightarrow> string option) \<Rightarrow> segment \<Rightarrow> string" where
  "render_segment r (Lit s) = s"
| "render_segment r (Hole n) = (case r n of Some v \<Rightarrow> v | None \<Rightarrow> ''{{'' @ n @ ''}}'')"

definition Render :: "segment list \<Rightarrow> (string \<Rightarrow> string option) \<Rightarrow> string \<times> string list" where
  "Render segs r = (concat (map (render_segment r) segs), filter (\<lambda>n. r n = None) (Names segs))"

section \<open>The cache\<close>

definition cacheKey :: "string \<Rightarrow> int \<Rightarrow> string" where
  "cacheKey docID version = docID @ '':'' @ itoa version"

type_synonym template_cache = "string \<rightharpoonup> segment list"

definition CacheGet :: "template_cache \<Rightarrow> string \<Rightarrow> int \<Rightarrow> string \<Rightarrow> segment list \<times> template_cache" where
  "CacheGet m docID version body =
     (case m (cacheKey docID version) of
        Some p \<Rightarrow> (p, m)
      | None \<Rightarrow> (let p = ParseTemplate body in (p, m(cacheKey docID version \<mapsto> p))))"

section \<open>Lemmas\<close>

lemma unescape_id: "CHR 0x5C \<notin> set s \<Longrightarrow> unescapeBraces s = s"
  by (simp add: unescapeBraces_def)

lemma Index_split: "Index s p = Some i \<Longrightarrow> s = take i s @ p @ drop (i + length p) s"
proof -
  assume a: "Index s p = Some i"
  obtain t where t: "s = take i s @ p @ t" using Index_SomeD [OF a] by blast
  have "i \<le> length s" using Index_le [OF a] by simp
  then have "drop (i + length p) (take i s @ p @ t) = t" by simp
  then show ?thesis using t by metis
qed

definition whole :: "segment \<Rightarrow> string" where
  "whole seg = render_segment (\<lambda>n. None) seg"

lemma whole_simps [simp]: "whole (Lit s) = s" "whole (Hole n) = ''{{'' @ n @ ''}}''"
  by (auto simp: whole_def)

lemma lit_before_whole: "CHR 0x5C \<notin> set body \<Longrightarrow> concat (map whole (lit_before body i)) = take i body"
proof -
  assume "CHR 0x5C \<notin> set body"
  then have "CHR 0x5C \<notin> set (take i body)" by (meson in_set_takeD)
  then show ?thesis by (simp add: lit_before_def unescape_id)
qed

lemma parse_whole: "CHR 0x5C \<notin> set body \<Longrightarrow> concat (map whole (ParseTemplate body)) = body"
proof (induction body rule: ParseTemplate.induct)
  case (1 body)
  show ?case
  proof (cases "Index body ''{{''")
    case None
    then show ?thesis using 1(3) by (subst ParseTemplate.simps) (simp add: unescape_id)
  next
    case (Some i)
    let ?rest = "drop (i + 2) body"
    have b: "body = take i body @ ''{{'' @ ?rest" using Index_split [OF Some] by simp
    have nb: "CHR 0x5C \<notin> set (take i body)" "CHR 0x5C \<notin> set ?rest" "CHR 0x5C \<notin> set (drop i body)"
      using 1(3) by (meson in_set_takeD in_set_dropD)+
    show ?thesis
    proof (cases "Index ?rest ''}}''")
      case None
      then show ?thesis using Some 1(3) nb
        by (subst ParseTemplate.simps) (simp add: Let_def lit_before_whole unescape_id)
    next
      case close: (Some c)
      have r: "?rest = take c ?rest @ ''}}'' @ drop (c + 2) ?rest" using Index_split [OF close] by simp
      show ?thesis
      proof (cases "isValidName (take c ?rest)")
        case True
        have "CHR 0x5C \<notin> set (drop (c + 2) ?rest)" using nb(2) by (meson in_set_dropD)
        with 1(1) [OF Some refl close True] have ih: "concat (map whole (ParseTemplate (drop (c + 2) ?rest))) = drop (c + 2) ?rest" .
        have "concat (map whole (ParseTemplate body)) = take i body @ (''{{'' @ take c ?rest @ ''}}'') @ drop (c + 2) ?rest"
          using Some close True ih 1(3) by (subst ParseTemplate.simps) (simp add: Let_def lit_before_whole)
        then show ?thesis using b r by (metis append.assoc)
      next
        case False
        from 1(2) [OF Some refl close False nb(2)] have ih: "concat (map whole (ParseTemplate ?rest)) = ?rest" .
        have "concat (map whole (ParseTemplate body)) = take i body @ ''{{'' @ ?rest"
          using Some close False ih 1(3) by (subst ParseTemplate.simps) (simp add: Let_def lit_before_whole)
        then show ?thesis using b by metis
      qed
    qed
  qed
qed

lemma render_none: "fst (Render segs (\<lambda>n. None)) = concat (map whole segs)"
  by (simp add: Render_def whole_def [abs_def])

fun esc :: "string \<Rightarrow> string" where
  "esc [] = []"
| "esc (c # cs) = (if c = CHR ''{'' \<or> c = CHR ''}'' then CHR 0x5C # c # esc cs else c # esc cs)"

lemma esc_no_brace: "\<not> HasPrefix (esc s) (CHR ''{'' # p)"
  by (cases s) auto

lemma esc_no_open: "Index (esc s) ''{{'' = None"
proof (induction s)
  case (Cons c cs)
  then show ?case using esc_no_brace [of cs "[]"] by auto
qed simp

fun esc1 :: "char \<Rightarrow> string \<Rightarrow> string" where
  "esc1 b [] = []"
| "esc1 b (c # cs) = (if c = b then CHR 0x5C # c # esc1 b cs else c # esc1 b cs)"

lemma esc_split: "esc s = esc1 (CHR ''{'') (esc1 (CHR ''}'') s)"
  by (induction s) auto

lemma unescape_esc1: "b \<noteq> CHR 0x5C \<Longrightarrow> unescape_char b (esc1 b s) = s"
proof (induction s)
  case (Cons c cs)
  then show ?case by (cases cs) auto
qed simp

lemma unescape_esc: "unescapeBraces (esc s) = s"
proof (cases "CHR 0x5C \<in> set (esc s)")
  case True
  then show ?thesis by (simp add: unescapeBraces_def esc_split unescape_esc1)
next
  case False
  have "CHR 0x5C \<notin> set (esc t) \<Longrightarrow> esc t = t" for t by (induction t) (auto split: if_splits)
  then show ?thesis using False by (simp add: unescapeBraces_def)
qed

lemma itoa_no_colon: "CHR '':'' \<notin> set (itoa i)"
proof -
  have "CHR '':'' \<notin> set (dec_nat n)" for n
    using dec_nat_digits [of n] by (auto simp: is_digit_def)
  then show ?thesis by (simp add: itoa_def)
qed

lemma cacheKey_inj: "cacheKey d v = cacheKey d' v' \<longleftrightarrow> d = d' \<and> v = v'"
proof
  assume "cacheKey d v = cacheKey d' v'"
  then have "rev (itoa v) @ CHR '':'' # rev d = rev (itoa v') @ CHR '':'' # rev d'"
    unfolding cacheKey_def by (metis append.assoc append_Cons append_Nil rev.simps rev_append)
  then show "d = d' \<and> v = v'"
    using append_sep_inj [of "CHR '':''" "rev (itoa v)" "rev (itoa v')" "rev d" "rev d'"] itoa_no_colon by simp
qed simp

section \<open>Properties\<close>

text \<open>
  A template with nothing resolved renders to itself: for a body without a backslash, whatever
  it holds in braces, complete or not, rendering with a resolver that answers nothing returns the
  body, and the unresolved names are the placeholder names.
\<close>

theorem render_unresolved:
  assumes "CHR 0x5C \<notin> set body"
  shows "Render (ParseTemplate body) (\<lambda>n. None) = (body, Names (ParseTemplate body))"
  using render_none [of "ParseTemplate body"] parse_whole [OF assms] by (simp add: Render_def)

theorem render_unresolved_witness:
  "Render (ParseTemplate ''a {{x}} {{ y}} {{x}} {{z'') (\<lambda>n. None) = (''a {{x}} {{ y}} {{x}} {{z'', [''x''])"
proof -
  have n: "Names (ParseTemplate ''a {{x}} {{ y}} {{x}} {{z'') = [''x'']" by code_simp
  show ?thesis using render_unresolved [of "''a {{x}} {{ y}} {{x}} {{z''"] unfolding n by simp
qed

text \<open>
  Escaping protects every text: with each brace preceded by a backslash, a text renders to
  itself under every resolver, and has no placeholder.
\<close>

theorem escape_protects:
  "Render (ParseTemplate (esc s)) r = (s, [])"
proof (cases "s = []")
  case False
  then have "ParseTemplate (esc s) = [Lit s]"
    using esc_no_open [of s] unescape_esc [of s] by (subst ParseTemplate.simps) (cases s; auto)
  then show ?thesis by (simp add: Render_def Names_def)
qed (simp add: ParseTemplate.simps Render_def Names_def)

definition filled :: "docdb \<Rightarrow> template_cache \<Rightarrow> bool" where
  "filled db m \<longleftrightarrow> (\<forall>i v p. m (cacheKey i v) = Some p \<longrightarrow>
     (\<exists>x \<in> set (versions_of db i). vn_Version x = v \<and> p = ParseTemplate (vn_Body x)))"

lemma version_unique:
  assumes "docs_ok db" and "x \<in> set (versions_of db i)" and "y \<in> set (versions_of db i)" and "vn_Version x = vn_Version y"
  shows "x = y"
proof -
  have "vn_DocumentID x = i" "x \<in> set (dd_Versions db)" using assms(2) by (auto simp: versions_of_def)
  then obtain d where "d \<in> set (dd_Documents db)" "dc_ID d = i" using assms(1) by (auto simp: docs_ok_def ids_ok_def)
  then have "map vn_Version (versions_of db i) = [1..dc_LatestVersion d]"
    using assms(1) by (auto simp: docs_ok_def row_ok_def numbered_def)
  then have "distinct (map vn_Version (versions_of db i))" by simp
  then show ?thesis using assms(2-4) by (auto simp: distinct_map dest: inj_onD)
qed

text \<open>
  The cache is transparent for the store: over any run of the store that does not remove a
  document for good, reading the version \<open>v\<close> of a document through a cache that was filled from an
  earlier state gives the parse of its body.
\<close>

theorem cache_transparent:
  assumes "db = fold doc_exec ops empty_db" and "filled db m" and "\<forall>j. DHardDelete j \<notin> set later"
    and "x \<in> set (versions_of (fold doc_exec later db) i)"
  shows "fst (CacheGet m i (vn_Version x) (vn_Body x)) = ParseTemplate (vn_Body x) \<and>
    filled (fold doc_exec later db) (snd (CacheGet m i (vn_Version x) (vn_Body x)))"
proof -
  let ?db = "fold doc_exec later db"
  have ok: "docs_ok db" unfolding assms(1) by (rule docs_ok_run)
  have ok2: "docs_ok ?db" using docs_ok_run [of "ops @ later"] unfolding assms(1) by simp
  have kept: "y \<in> set (versions_of ?db j)" if y: "y \<in> set (versions_of db j)" for y j
  proof -
    obtain new where "versions_of ?db j = versions_of db j @ new"
      using versions_run [OF ok, of j later] assms(3) by blast
    then show ?thesis using y by simp
  qed
  have fl: "filled ?db m" using assms(2) kept unfolding filled_def by meson
  show ?thesis
  proof (cases "m (cacheKey i (vn_Version x))")
    case None
    then show ?thesis using fl assms(4) by (auto simp: CacheGet_def Let_def filled_def cacheKey_inj)
  next
    case (Some p)
    then obtain y where "y \<in> set (versions_of ?db i)" "vn_Version y = vn_Version x" "p = ParseTemplate (vn_Body y)"
      using fl unfolding filled_def by blast
    then have "p = ParseTemplate (vn_Body x)" using version_unique [OF ok2] assms(4) by blast
    then show ?thesis using Some fl by (simp add: CacheGet_def)
  qed
qed

theorem cache_transparent_witness:
  "\<exists>x. x \<in> set (versions_of (fold doc_exec [DDelete demo_key ''u'' False 9] live_db) ''d1'') \<and>
     fst (CacheGet Map.empty ''d1'' (vn_Version x) (vn_Body x)) = ParseTemplate (vn_Body x)"
proof -
  have "versions_of (fold doc_exec [DDelete demo_key ''u'' False 9] live_db) ''d1'' \<noteq> []" by code_simp
  then obtain x where x: "x \<in> set (versions_of (fold doc_exec [DDelete demo_key ''u'' False 9] live_db) ''d1'')"
    by (meson hd_in_set)
  have "filled live_db Map.empty" by (simp add: filled_def)
  from cache_transparent [OF live_db_def this _ x] x show ?thesis by auto
qed

end
