(* ===== verification/Membership.thy ===== *)
theory Membership
  imports Tables
begin

text \<open>
  The two membership stores, \<^verbatim>\<open>internal/workspace/member.go\<close> and
  \<^verbatim>\<open>internal/project/member.go\<close>, and the readonly mounts of
  \<^verbatim>\<open>internal/workspace/mount.go\<close>. The tables are lists of rows; a database failure is not
  modelled, so an operation fails only where the code itself refuses. Times are seconds. The
  locale \<open>member_store\<close> is what the two stores promise their callers; both are
  interpretations of it.
\<close>

section \<open>Rows and roles\<close>

record WsMember =
  wm_WorkspaceID :: string
  wm_UserID :: string
  wm_Role :: string
  wm_AddedAt :: int
  wm_AddedBy :: string

record PjMember =
  pm_ProjectID :: string
  pm_UserID :: string
  pm_Role :: string
  pm_AddedAt :: int
  pm_AddedBy :: string
  pm_Source :: string

record Mount =
  mt_WorkspaceID :: string
  mt_ProjectID :: string
  mt_Access :: string
  mt_CreatedAt :: int
  mt_CreatedBy :: string

datatype member_error = IdsRequired | InvalidRole | MemberNotFound

definition WsRoleOwner :: string where [go_defs]: "WsRoleOwner = ''owner''"
definition WsRoleAdmin :: string where [go_defs]: "WsRoleAdmin = ''admin''"
definition WsRoleMember :: string where [go_defs]: "WsRoleMember = ''member''"

definition PjRoleRead :: string where [go_defs]: "PjRoleRead = ''read''"
definition PjRoleWrite :: string where [go_defs]: "PjRoleWrite = ''write''"
definition PjRoleAdmin :: string where [go_defs]: "PjRoleAdmin = ''admin''"

definition AccessRead :: string where [go_defs]: "AccessRead = ''read''"

definition IsValidRole :: "string \<Rightarrow> bool" where
  "IsValidRole r = (r = WsRoleOwner \<or> r = WsRoleAdmin \<or> r = WsRoleMember)"

definition IsValidProjectRole :: "string \<Rightarrow> bool" where
  "IsValidProjectRole r = (r = PjRoleRead \<or> r = PjRoleWrite \<or> r = PjRoleAdmin)"

section \<open>Workspace members\<close>

definition wm_key :: "WsMember \<Rightarrow> string \<times> string" where
  "wm_key m = (wm_WorkspaceID m, wm_UserID m)"

definition wsAddMember ::
  "WsMember list \<Rightarrow> string \<Rightarrow> string \<Rightarrow> string \<Rightarrow> string \<Rightarrow> int \<Rightarrow> member_error + WsMember list" where
  "wsAddMember rows workspaceID userID role addedBy now =
     (if workspaceID = [] \<or> userID = [] then Inl IdsRequired
      else if \<not> IsValidRole role then Inl InvalidRole
      else Inr (upsert_row wm_key
        (\<lambda>m. m\<lparr>wm_Role := role, wm_AddedAt := now, wm_AddedBy := addedBy\<rparr>)
        \<lparr>wm_WorkspaceID = workspaceID, wm_UserID = userID, wm_Role = role, wm_AddedAt = now,
          wm_AddedBy = addedBy\<rparr> rows))"

definition wsListMembers :: "WsMember list \<Rightarrow> string \<Rightarrow> WsMember list" where
  "wsListMembers rows workspaceID =
     sort_key wm_AddedAt (sort_key wm_UserID (filter (\<lambda>m. wm_WorkspaceID m = workspaceID) rows))"

definition wsUpdateRole ::
  "WsMember list \<Rightarrow> string \<Rightarrow> string \<Rightarrow> string \<Rightarrow> int \<Rightarrow> member_error + WsMember list" where
  "wsUpdateRole rows workspaceID userID newRole now =
     (if \<not> IsValidRole newRole then Inl InvalidRole
      else let (rows', n) = update_rows (\<lambda>m. wm_key m = (workspaceID, userID))
                 (\<lambda>m. m\<lparr>wm_Role := newRole, wm_AddedAt := now\<rparr>) rows
        in if n = 0 then Inl MemberNotFound else Inr rows')"

definition wsRemoveMember :: "WsMember list \<Rightarrow> string \<Rightarrow> string \<Rightarrow> member_error + WsMember list" where
  "wsRemoveMember rows workspaceID userID =
     (let (rows', n) = delete_rows (\<lambda>m. wm_key m = (workspaceID, userID)) rows
      in if n = 0 then Inl MemberNotFound else Inr rows')"

definition ListWorkspaceIDsForUser :: "WsMember list \<Rightarrow> string \<Rightarrow> string list" where
  "ListWorkspaceIDsForUser rows userID = map wm_WorkspaceID (filter (\<lambda>m. wm_UserID m = userID) rows)"

definition admin_role :: "string \<Rightarrow> bool" where
  "admin_role r = (r = WsRoleOwner \<or> r = WsRoleAdmin)"

definition HasAdminRole :: "WsMember list \<Rightarrow> string \<Rightarrow> bool" where
  "HasAdminRole rows userID =
     (if userID = [] then False else list_ex (\<lambda>m. wm_UserID m = userID \<and> admin_role (wm_Role m)) rows)"

definition CountAdmins :: "WsMember list \<Rightarrow> string \<Rightarrow> nat" where
  "CountAdmins rows workspaceID =
     length (filter (\<lambda>m. wm_WorkspaceID m = workspaceID \<and> admin_role (wm_Role m)) rows)"

text \<open>\<^const>\<open>None\<close> is \<open>ErrMemberNotFound\<close>.\<close>

definition wsGetRole :: "WsMember list \<Rightarrow> string \<Rightarrow> string \<Rightarrow> string option" where
  "wsGetRole rows workspaceID userID = map_option wm_Role (row_at wm_key (workspaceID, userID) rows)"

section \<open>Project members\<close>

definition pm_key :: "PjMember \<Rightarrow> string \<times> string" where
  "pm_key m = (pm_ProjectID m, pm_UserID m)"

definition pjAddMember ::
  "PjMember list \<Rightarrow> string \<Rightarrow> string \<Rightarrow> string \<Rightarrow> string \<Rightarrow> int \<Rightarrow> member_error + PjMember list" where
  "pjAddMember rows projectID userID role addedBy now =
     (if projectID = [] \<or> userID = [] then Inl IdsRequired
      else if \<not> IsValidProjectRole role then Inl InvalidRole
      else Inr (upsert_row pm_key
        (\<lambda>m. m\<lparr>pm_Role := role, pm_AddedAt := now, pm_AddedBy := addedBy\<rparr>)
        \<lparr>pm_ProjectID = projectID, pm_UserID = userID, pm_Role = role, pm_AddedAt = now,
          pm_AddedBy = addedBy, pm_Source = []\<rparr> rows))"

definition pjListMembers :: "PjMember list \<Rightarrow> string \<Rightarrow> PjMember list" where
  "pjListMembers rows projectID =
     sort_key pm_AddedAt (sort_key pm_UserID (filter (\<lambda>m. pm_ProjectID m = projectID) rows))"

definition pjUpdateRole ::
  "PjMember list \<Rightarrow> string \<Rightarrow> string \<Rightarrow> string \<Rightarrow> int \<Rightarrow> member_error + PjMember list" where
  "pjUpdateRole rows projectID userID newRole now =
     (if \<not> IsValidProjectRole newRole then Inl InvalidRole
      else let (rows', n) = update_rows (\<lambda>m. pm_key m = (projectID, userID))
                 (\<lambda>m. m\<lparr>pm_Role := newRole, pm_AddedAt := now\<rparr>) rows
        in if n = 0 then Inl MemberNotFound else Inr rows')"

definition pjRemoveMember :: "PjMember list \<Rightarrow> string \<Rightarrow> string \<Rightarrow> member_error + PjMember list" where
  "pjRemoveMember rows projectID userID =
     (let (rows', n) = delete_rows (\<lambda>m. pm_key m = (projectID, userID)) rows
      in if n = 0 then Inl MemberNotFound else Inr rows')"

definition pjGetRole :: "PjMember list \<Rightarrow> string \<Rightarrow> string \<Rightarrow> string option" where
  "pjGetRole rows projectID userID = map_option pm_Role (row_at pm_key (projectID, userID) rows)"

section \<open>Mounts\<close>

definition mt_key :: "Mount \<Rightarrow> string \<times> string" where
  "mt_key m = (mt_WorkspaceID m, mt_ProjectID m)"

definition AddMount :: "Mount list \<Rightarrow> string \<Rightarrow> string \<Rightarrow> string \<Rightarrow> int \<Rightarrow> member_error + Mount list" where
  "AddMount rows workspaceID projectID createdBy now =
     (if workspaceID = [] \<or> projectID = [] then Inl IdsRequired
      else Inr (upsert_row mt_key
        (\<lambda>m. m\<lparr>mt_Access := AccessRead, mt_CreatedAt := now, mt_CreatedBy := createdBy\<rparr>)
        \<lparr>mt_WorkspaceID = workspaceID, mt_ProjectID = projectID, mt_Access = AccessRead,
          mt_CreatedAt = now, mt_CreatedBy = createdBy\<rparr> rows))"

definition RemoveMount :: "Mount list \<Rightarrow> string \<Rightarrow> string \<Rightarrow> Mount list" where
  "RemoveMount rows workspaceID projectID =
     fst (delete_rows (\<lambda>m. mt_key m = (workspaceID, projectID)) rows)"

definition ListMounts :: "Mount list \<Rightarrow> string \<Rightarrow> Mount list" where
  "ListMounts rows workspaceID =
     sort_key (\<lambda>m. - mt_CreatedAt m) (sort_key mt_ProjectID
       (filter (\<lambda>m. mt_WorkspaceID m = workspaceID) rows))"

definition MountExists :: "Mount list \<Rightarrow> string \<Rightarrow> string \<Rightarrow> bool" where
  "MountExists rows workspaceID projectID =
     (if workspaceID = [] \<or> projectID = [] then False
      else list_ex (\<lambda>m. mt_WorkspaceID m = workspaceID \<and> mt_ProjectID m = projectID) rows)"

definition CallerHasMountAccess :: "Mount list \<Rightarrow> WsMember list \<Rightarrow> string \<Rightarrow> string \<Rightarrow> bool" where
  "CallerHasMountAccess mounts members projectID userID =
     (if projectID = [] \<or> userID = [] then False
      else list_ex (\<lambda>m. mt_ProjectID m = projectID \<and>
        list_ex (\<lambda>wm. wm_WorkspaceID wm = mt_WorkspaceID m \<and> wm_UserID wm = userID) members) mounts)"

section \<open>The interface of a membership store\<close>

datatype member_op =
    OpAdd string string string string int
  | OpUpdate string string string int
  | OpRemove string string

text \<open>A sequence of requests: a refused one leaves the table as it was.\<close>

fun apply_op ::
  "('t \<Rightarrow> string \<Rightarrow> string \<Rightarrow> string \<Rightarrow> string \<Rightarrow> int \<Rightarrow> member_error + 't) \<Rightarrow>
   ('t \<Rightarrow> string \<Rightarrow> string \<Rightarrow> string \<Rightarrow> int \<Rightarrow> member_error + 't) \<Rightarrow>
   ('t \<Rightarrow> string \<Rightarrow> string \<Rightarrow> member_error + 't) \<Rightarrow> member_op \<Rightarrow> 't \<Rightarrow> 't" where
  "apply_op add upd rem (OpAdd s u r b t) rows = (case add rows s u r b t of Inl e \<Rightarrow> rows | Inr rows' \<Rightarrow> rows')"
| "apply_op add upd rem (OpUpdate s u r t) rows = (case upd rows s u r t of Inl e \<Rightarrow> rows | Inr rows' \<Rightarrow> rows')"
| "apply_op add upd rem (OpRemove s u) rows = (case rem rows s u of Inl e \<Rightarrow> rows | Inr rows' \<Rightarrow> rows')"

locale member_store =
  fixes add :: "'t \<Rightarrow> string \<Rightarrow> string \<Rightarrow> string \<Rightarrow> string \<Rightarrow> int \<Rightarrow> member_error + 't"
    and upd :: "'t \<Rightarrow> string \<Rightarrow> string \<Rightarrow> string \<Rightarrow> int \<Rightarrow> member_error + 't"
    and rem :: "'t \<Rightarrow> string \<Rightarrow> string \<Rightarrow> member_error + 't"
    and role_of :: "'t \<Rightarrow> string \<Rightarrow> string \<Rightarrow> string option"
    and valid :: "string \<Rightarrow> bool"
  assumes add_iff: "(\<exists>t'. add t s u r b now = Inr t') \<longleftrightarrow> s \<noteq> [] \<and> u \<noteq> [] \<and> valid r"
    and upd_iff: "(\<exists>t'. upd t s u r now = Inr t') \<longleftrightarrow> valid r \<and> role_of t s u \<noteq> None"
    and rem_iff: "(\<exists>t'. rem t s u = Inr t') \<longleftrightarrow> role_of t s u \<noteq> None"
    and role_add: "add t s u r b now = Inr t' \<Longrightarrow>
      role_of t' s' u' = (if s' = s \<and> u' = u then Some r else role_of t s' u')"
    and role_upd: "upd t s u r now = Inr t' \<Longrightarrow>
      role_of t' s' u' = (if s' = s \<and> u' = u then Some r else role_of t s' u')"
    and role_rem: "rem t s u = Inr t' \<Longrightarrow>
      role_of t' s' u' = (if s' = s \<and> u' = u then None else role_of t s' u')"
begin

lemma op_valid:
  assumes "\<forall>s u r. role_of t s u = Some r \<longrightarrow> valid r"
  shows "\<forall>s u r. role_of (apply_op add upd rem x t) s u = Some r \<longrightarrow> valid r"
proof (cases x)
  case (OpAdd s u r b now)
  show ?thesis
  proof (cases "add t s u r b now")
    case (Inr t')
    then have "valid r" using add_iff by blast
    then show ?thesis using OpAdd Inr assms role_add [OF Inr] by simp
  qed (use OpAdd assms in simp)
next
  case (OpUpdate s u r now)
  show ?thesis
  proof (cases "upd t s u r now")
    case (Inr t')
    then have "valid r" using upd_iff by blast
    then show ?thesis using OpUpdate Inr assms role_upd [OF Inr] by simp
  qed (use OpUpdate assms in simp)
next
  case (OpRemove s u)
  show ?thesis
    using OpRemove assms role_rem [of t s u] by (cases "rem t s u") auto
qed

lemma run_valid:
  "\<forall>s u r. role_of t s u = Some r \<longrightarrow> valid r \<Longrightarrow>
   role_of (fold (apply_op add upd rem) ops t) s u = Some r \<Longrightarrow> valid r"
proof (induction ops arbitrary: t)
  case (Cons x ops)
  show ?case using Cons.IH [OF op_valid [OF Cons.prems(1)]] Cons.prems(2) by simp
qed simp

text \<open>A request about one member leaves the role of every other member as it is.\<close>

lemma op_frame:
  assumes "case x of OpAdd s' u' r b now \<Rightarrow> (s', u') \<noteq> (s, u)
    | OpUpdate s' u' r now \<Rightarrow> (s', u') \<noteq> (s, u) | OpRemove s' u' \<Rightarrow> (s', u') \<noteq> (s, u)"
  shows "role_of (apply_op add upd rem x t) s u = role_of t s u"
proof (cases x)
  case (OpAdd s' u' r b now)
  then show ?thesis using assms role_add [of t s' u' r b now] by (cases "add t s' u' r b now") auto
next
  case (OpUpdate s' u' r now)
  then show ?thesis using assms role_upd [of t s' u' r now] by (cases "upd t s' u' r now") auto
next
  case (OpRemove s' u')
  then show ?thesis using assms role_rem [of t s' u'] by (cases "rem t s' u'") auto
qed

lemma remove_once: "rem t s u = Inr t' \<Longrightarrow> role_of t' s u = None \<and> (\<nexists>t''. rem t' s u = Inr t'')"
  using role_rem rem_iff by simp

end

lemma wm_key_updates [simp]:
  "wm_key (m\<lparr>wm_Role := r\<rparr>) = wm_key m" "wm_key (m\<lparr>wm_AddedAt := t\<rparr>) = wm_key m"
  "wm_key (m\<lparr>wm_AddedBy := b\<rparr>) = wm_key m"
  by (simp_all add: wm_key_def)

lemma pm_key_updates [simp]:
  "pm_key (m\<lparr>pm_Role := r\<rparr>) = pm_key m" "pm_key (m\<lparr>pm_AddedAt := t\<rparr>) = pm_key m"
  "pm_key (m\<lparr>pm_AddedBy := b\<rparr>) = pm_key m"
  by (simp_all add: pm_key_def)

lemma found_iff: "(\<exists>r \<in> set rows. key r = k) \<longleftrightarrow> row_at key k rows \<noteq> None"
  by (auto simp: row_at_None)

lemma wsGetRole_add:
  "wsAddMember t s u r b now = Inr t' \<Longrightarrow>
     wsGetRole t' s' u' = (if s' = s \<and> u' = u then Some r else wsGetRole t s' u')"
  using row_at_upsert [of wm_key "\<lparr>wm_WorkspaceID = s, wm_UserID = u, wm_Role = r, wm_AddedAt = now,
      wm_AddedBy = b\<rparr>" "\<lambda>m. m\<lparr>wm_Role := r, wm_AddedAt := now, wm_AddedBy := b\<rparr>" "(s', u')" t]
  by (cases "row_at wm_key (s', u') t")
    (auto simp: wsAddMember_def wsGetRole_def wm_key_def split: if_splits)

lemma pjGetRole_add:
  "pjAddMember t s u r b now = Inr t' \<Longrightarrow>
     pjGetRole t' s' u' = (if s' = s \<and> u' = u then Some r else pjGetRole t s' u')"
  using row_at_upsert [of pm_key "\<lparr>pm_ProjectID = s, pm_UserID = u, pm_Role = r, pm_AddedAt = now,
      pm_AddedBy = b, pm_Source = []\<rparr>" "\<lambda>m. m\<lparr>pm_Role := r, pm_AddedAt := now, pm_AddedBy := b\<rparr>" "(s', u')" t]
  by (cases "row_at pm_key (s', u') t")
    (auto simp: pjAddMember_def pjGetRole_def pm_key_def split: if_splits)

lemma wsGetRole_upd:
  assumes "wsUpdateRole t s u r now = Inr t'"
  shows "wsGetRole t' s' u' = (if s' = s \<and> u' = u then Some r else wsGetRole t s' u')"
proof -
  have n: "row_at wm_key (s, u) t \<noteq> None" and
    t': "t' = fst (update_rows (\<lambda>m. wm_key m = (s, u)) (\<lambda>m. m\<lparr>wm_Role := r, wm_AddedAt := now\<rparr>) t)"
    using assms update_rows_count [of "\<lambda>m. wm_key m = (s, u)" "\<lambda>m. m\<lparr>wm_Role := r, wm_AddedAt := now\<rparr>" t]
    by (auto simp: wsUpdateRole_def split_beta found_iff split: if_splits)
  show ?thesis unfolding t' wsGetRole_def
    using n by (subst row_at_update, simp)
      (cases "row_at wm_key (s', u') t"; auto dest: row_at_Some)
qed

lemma pjGetRole_upd:
  assumes "pjUpdateRole t s u r now = Inr t'"
  shows "pjGetRole t' s' u' = (if s' = s \<and> u' = u then Some r else pjGetRole t s' u')"
proof -
  have n: "row_at pm_key (s, u) t \<noteq> None" and
    t': "t' = fst (update_rows (\<lambda>m. pm_key m = (s, u)) (\<lambda>m. m\<lparr>pm_Role := r, pm_AddedAt := now\<rparr>) t)"
    using assms update_rows_count [of "\<lambda>m. pm_key m = (s, u)" "\<lambda>m. m\<lparr>pm_Role := r, pm_AddedAt := now\<rparr>" t]
    by (auto simp: pjUpdateRole_def split_beta found_iff split: if_splits)
  show ?thesis unfolding t' pjGetRole_def
    using n by (subst row_at_update, simp)
      (cases "row_at pm_key (s', u') t"; auto dest: row_at_Some)
qed

interpretation wsm: member_store wsAddMember wsUpdateRole wsRemoveMember wsGetRole IsValidRole
proof (unfold_locales, goal_cases)
  case (2 t s u r now)
  then show ?case
    using update_rows_count [of "\<lambda>m. wm_key m = (s, u)" "\<lambda>m. m\<lparr>wm_Role := r, wm_AddedAt := now\<rparr>" t]
    by (auto simp: wsUpdateRole_def wsGetRole_def split_beta found_iff)
next
  case (3 t s u)
  then show ?case using delete_rows_count [of "\<lambda>m. wm_key m = (s, u)" t]
    by (auto simp: wsRemoveMember_def wsGetRole_def split_beta found_iff)
next
  case (6 t s u t' s' u')
  then show ?case using row_at_delete [of wm_key "(s', u')" "(s, u)" t]
    by (auto simp: wsRemoveMember_def wsGetRole_def split_beta split: if_splits)
qed (auto simp: wsAddMember_def wsGetRole_add wsGetRole_upd)

interpretation pjm: member_store pjAddMember pjUpdateRole pjRemoveMember pjGetRole IsValidProjectRole
proof (unfold_locales, goal_cases)
  case (2 t s u r now)
  then show ?case
    using update_rows_count [of "\<lambda>m. pm_key m = (s, u)" "\<lambda>m. m\<lparr>pm_Role := r, pm_AddedAt := now\<rparr>" t]
    by (auto simp: pjUpdateRole_def pjGetRole_def split_beta found_iff)
next
  case (3 t s u)
  then show ?case using delete_rows_count [of "\<lambda>m. pm_key m = (s, u)" t]
    by (auto simp: pjRemoveMember_def pjGetRole_def split_beta found_iff)
next
  case (6 t s u t' s' u')
  then show ?case using row_at_delete [of pm_key "(s', u')" "(s, u)" t]
    by (auto simp: pjRemoveMember_def pjGetRole_def split_beta split: if_splits)
qed (auto simp: pjAddMember_def pjGetRole_add pjGetRole_upd)

end
