(* ===== verification/Workspaces.thy ===== *)
theory Workspaces
  imports Membership
begin

text \<open>
  \<^verbatim>\<open>internal/workspace/workspace.go\<close> and \<^verbatim>\<open>store.go\<close>: the workspaces table with its two
  partial unique indexes (one default, one personal workspace per owner). A transaction is the
  composition of its statements; a statement that a unique index refuses rolls it back. A fresh id
  is an argument.
\<close>

record Workspace =
  wk_ID :: string
  wk_Name :: string
  wk_Description :: string
  wk_OwnerUserID :: string
  wk_Status :: string
  wk_IsDefault :: bool
  wk_IsPersonal :: bool
  wk_CreatedAt :: int
  wk_UpdatedAt :: int
  wk_SeedMD :: string
  wk_SeedUpdatedAt :: "int option"

datatype wk_error = WkNameRequired | WkIdRequired | WkUserRequired | WkNameCleared | WkNotFound | WkUniqueViolation

definition StatusActive :: string where [go_defs]: "StatusActive = ''active''"
definition StatusArchived :: string where [go_defs]: "StatusArchived = ''archived''"

text \<open>The unique indexes of migrations 0005 and 0028. The owner column of the second holds a user.\<close>

definition one_default :: "Workspace list \<Rightarrow> bool" where
  "one_default rows = (length (filter wk_IsDefault rows) \<le> 1)"

definition one_personal :: "Workspace list \<Rightarrow> bool" where
  "one_personal rows = distinct (map wk_OwnerUserID (filter (\<lambda>w. wk_IsPersonal w \<and> wk_OwnerUserID w \<noteq> []) rows))"

definition new_workspace :: "string \<Rightarrow> string \<Rightarrow> string \<Rightarrow> bool \<Rightarrow> int \<Rightarrow> Workspace" where
  "new_workspace i name owner personal now =
     \<lparr>wk_ID = i, wk_Name = name, wk_Description = [], wk_OwnerUserID = owner, wk_Status = StatusActive,
      wk_IsDefault = False, wk_IsPersonal = personal, wk_CreatedAt = now, wk_UpdatedAt = now,
      wk_SeedMD = [], wk_SeedUpdatedAt = None\<rparr>"

definition wkCreate ::
  "Workspace list \<Rightarrow> WsMember list \<Rightarrow> string \<Rightarrow> string \<Rightarrow> string \<Rightarrow> int \<Rightarrow>
   wk_error + Workspace list \<times> WsMember list \<times> Workspace" where
  "wkCreate rows members newid ownerUserID name now =
     (if name = [] then Inl WkNameRequired
      else let w = new_workspace newid name ownerUserID False now;
               members' = (if ownerUserID = [] then members
                 else upsert_row wm_key (\<lambda>m. m)
                   \<lparr>wm_WorkspaceID = newid, wm_UserID = ownerUserID, wm_Role = ''admin'', wm_AddedAt = now,
                     wm_AddedBy = ownerUserID\<rparr> members)
        in Inr (rows @ [w], members', w))"

definition wkGetByID :: "Workspace list \<Rightarrow> string \<Rightarrow> Workspace option" where
  "wkGetByID rows i = row_at wk_ID i rows"

definition GetDefault :: "Workspace list \<Rightarrow> Workspace option" where
  "GetDefault rows = find wk_IsDefault rows"

definition wkList :: "Workspace list \<Rightarrow> Workspace list" where
  "wkList rows = sort_key (\<lambda>w. - wk_CreatedAt w) (sort_key wk_ID rows)"

definition reread :: "Workspace list \<times> nat \<Rightarrow> string \<Rightarrow> wk_error + Workspace list \<times> Workspace" where
  "reread res i =
     (if snd res = 0 then Inl WkNotFound
      else case wkGetByID (fst res) i of None \<Rightarrow> Inl WkNotFound | Some w \<Rightarrow> Inr (fst res, w))"

definition wkUpdate ::
  "Workspace list \<Rightarrow> string \<Rightarrow> string option \<Rightarrow> string option \<Rightarrow> int \<Rightarrow> wk_error + Workspace list \<times> Workspace" where
  "wkUpdate rows i name description now =
     (if i = [] then Inl WkIdRequired
      else if name = Some [] then Inl WkNameCleared
      else reread (update_rows (\<lambda>w. wk_ID w = i)
        (\<lambda>w. w\<lparr>wk_UpdatedAt := now,
               wk_Name := (case name of Some n \<Rightarrow> n | None \<Rightarrow> wk_Name w),
               wk_Description := (case description of Some d \<Rightarrow> d | None \<Rightarrow> wk_Description w)\<rparr>) rows) i)"

definition SetStatus ::
  "Workspace list \<Rightarrow> string \<Rightarrow> string \<Rightarrow> int \<Rightarrow> wk_error + Workspace list \<times> Workspace" where
  "SetStatus rows i status now =
     (if i = [] then Inl WkIdRequired
      else reread (update_rows (\<lambda>w. wk_ID w = i) (\<lambda>w. w\<lparr>wk_Status := status, wk_UpdatedAt := now\<rparr>) rows) i)"

definition SetDefault :: "Workspace list \<Rightarrow> string \<Rightarrow> int \<Rightarrow> wk_error + Workspace list \<times> Workspace" where
  "SetDefault rows i now =
     (let rows1 = fst (update_rows (\<lambda>w. wk_IsDefault w \<and> wk_ID w \<noteq> i)
            (\<lambda>w. w\<lparr>wk_IsDefault := False, wk_UpdatedAt := now\<rparr>) rows);
          res = update_rows (\<lambda>w. wk_ID w = i) (\<lambda>w. w\<lparr>wk_IsDefault := True, wk_UpdatedAt := now\<rparr>) rows1
      in if \<not> one_default (fst res) then Inl WkUniqueViolation else reread res i)"

definition GetPersonalForUser :: "Workspace list \<Rightarrow> string \<Rightarrow> Workspace option" where
  "GetPersonalForUser rows userID =
     (if userID = [] then None
      else find (\<lambda>w. wk_OwnerUserID w = userID \<and> wk_IsPersonal w) rows)"

definition EnsurePersonalWorkspace ::
  "Workspace list \<Rightarrow> WsMember list \<Rightarrow> string \<Rightarrow> string \<Rightarrow> string \<Rightarrow> int \<Rightarrow>
   wk_error + Workspace list \<times> WsMember list \<times> Workspace" where
  "EnsurePersonalWorkspace rows members newid userID name0 now =
     (if userID = [] then Inl WkUserRequired
      else case GetPersonalForUser rows userID of
        Some w \<Rightarrow> Inr (rows, members, w)
      | None \<Rightarrow>
         (let name = (if name0 = [] then ''Personal'' else name0);
              w = new_workspace newid name userID True now
          in if \<not> one_personal (rows @ [w]) then Inl WkUniqueViolation
             else Inr (rows @ [w],
               upsert_row wm_key (\<lambda>m. m\<lparr>wm_Role := ''owner''\<rparr>)
                 \<lparr>wm_WorkspaceID = newid, wm_UserID = userID, wm_Role = ''owner'', wm_AddedAt = now,
                   wm_AddedBy = userID\<rparr> members, w)))"

definition wkApplySeed ::
  "Workspace list \<Rightarrow> string \<Rightarrow> string \<Rightarrow> int \<Rightarrow> wk_error + Workspace list \<times> Workspace \<times> bool" where
  "wkApplySeed rows i body now =
     (case wkGetByID rows i of
        None \<Rightarrow> Inl WkNotFound
      | Some w \<Rightarrow>
          (if wk_SeedMD w = body then Inr (rows, w, False)
           else Inr (fst (update_rows (\<lambda>r. wk_ID r = i)
                  (\<lambda>r. r\<lparr>wk_SeedMD := body, wk_SeedUpdatedAt := Some now, wk_UpdatedAt := now\<rparr>) rows),
                w\<lparr>wk_SeedMD := body, wk_SeedUpdatedAt := Some now, wk_UpdatedAt := now\<rparr>, True)))"

section \<open>Properties\<close>

lemma find_filter: "find P xs = (case filter P xs of [] \<Rightarrow> None | x # _ \<Rightarrow> Some x)"
  by (induction xs) auto

lemma filter_default_set:
  assumes "unique_key wk_ID rows" and "row_at wk_ID i rows = Some w0" and "\<And>x. wk_ID (f x) = wk_ID x"
    and "\<And>x. wk_IsDefault (f x)" and "\<And>x. wk_ID (g x) = wk_ID x" and "\<And>x. \<not> wk_IsDefault (g x)"
  shows "filter wk_IsDefault (map (\<lambda>x. if wk_ID x = i then f x else x)
           (map (\<lambda>x. if wk_IsDefault x \<and> wk_ID x \<noteq> i then g x else x) rows)) = [f w0]"
  using assms(1,2)
proof (induction rows)
  case (Cons x xs)
  show ?case
  proof (cases "wk_ID x = i")
    case True
    then have w: "w0 = x" using Cons.prems by simp
    have no: "\<forall>y \<in> set xs. wk_ID y \<noteq> i" using True Cons.prems(1) by (simp add: unique_key_Cons)
    then have "filter wk_IsDefault (map (\<lambda>x. if wk_ID x = i then f x else x)
        (map (\<lambda>x. if wk_IsDefault x \<and> wk_ID x \<noteq> i then g x else x) xs)) = []"
      using assms(5,6) by (auto simp: filter_empty_conv)
    then show ?thesis using True w assms(4) by simp
  next
    case False
    then show ?thesis using Cons assms(5,6) by (auto simp: unique_key_def)
  qed
qed simp

text \<open>
  Flipping the default onto an existing workspace never meets the unique index: it succeeds,
  the workspace named is afterwards the only default, and \<open>GetDefault\<close> returns it.
\<close>

theorem SetDefault_exact:
  assumes "unique_key wk_ID rows" and "wkGetByID rows i = Some w0"
  shows "\<exists>rows' w. SetDefault rows i now = Inr (rows', w) \<and> filter wk_IsDefault rows' = [w] \<and>
    wk_ID w = i \<and> GetDefault rows' = Some w \<and> map wk_ID rows' = map wk_ID rows"
proof -
  let ?f = "\<lambda>w. w\<lparr>wk_IsDefault := True, wk_UpdatedAt := now\<rparr>"
  let ?g = "\<lambda>w. w\<lparr>wk_IsDefault := False, wk_UpdatedAt := now\<rparr>"
  let ?rows1 = "map (\<lambda>x. if wk_IsDefault x \<and> wk_ID x \<noteq> i then ?g x else x) rows"
  let ?rows2 = "map (\<lambda>x. if wk_ID x = i then ?f x else x) ?rows1"
  have w0: "row_at wk_ID i rows = Some w0" using assms(2) by (simp add: wkGetByID_def)
  then have id0: "wk_ID w0 = i" and in0: "w0 \<in> set rows" using row_at_Some [OF w0] by auto
  have fd: "filter wk_IsDefault ?rows2 = [?f w0]"
    by (rule filter_default_set [OF assms(1) w0]) simp_all
  have ids: "map wk_ID ?rows2 = map wk_ID rows" by (simp add: comp_def)
  have mem: "?f w0 \<in> set ?rows2"
    using fd by (metis (no_types, lifting) filter_is_subset list.set_intros(1) subsetD)
  have u2: "unique_key wk_ID ?rows2" using assms(1) unfolding unique_key_def ids .
  have at: "row_at wk_ID i ?rows2 = Some (?f w0)"
    using row_at_unique [OF u2 mem] id0 by simp
  have cnt: "snd (update_rows (\<lambda>w. wk_ID w = i) ?f ?rows1) \<noteq> 0"
    using update_rows_count [of "\<lambda>w. wk_ID w = i" ?f ?rows1] in0 id0 by (auto simp: update_rows_def)
  have od: "one_default ?rows2" unfolding one_default_def fd by simp
  have "SetDefault rows i now = reread (update_rows (\<lambda>w. wk_ID w = i) ?f ?rows1) i"
    using od by (simp only: SetDefault_def Let_def update_rows_def fst_conv not_True_eq_False if_False)
  also have "\<dots> = Inr (?rows2, ?f w0)"
    using cnt at by (simp only: reread_def wkGetByID_def update_rows_def fst_conv snd_conv if_False option.case)
  finally have "SetDefault rows i now = Inr (?rows2, ?f w0)" .
  moreover have "GetDefault ?rows2 = Some (?f w0)" unfolding GetDefault_def find_filter fd by simp
  ultimately show ?thesis using fd id0 ids by (intro exI [of _ ?rows2] exI [of _ "?f w0"]) simp
qed

theorem SetDefault_exact_witness:
  "\<exists>rows' w. SetDefault [(new_workspace ''a'' ''n'' [] False 0)\<lparr>wk_IsDefault := True\<rparr>,
      new_workspace ''b'' ''n'' [] False 0] ''b'' 5 = Inr (rows', w) \<and> wk_ID w = ''b'' \<and> GetDefault rows' = Some w"
proof -
  let ?rows = "[(new_workspace ''a'' ''n'' [] False 0)\<lparr>wk_IsDefault := True\<rparr>, new_workspace ''b'' ''n'' [] False 0]"
  have "unique_key wk_ID ?rows" by code_simp
  moreover have "wkGetByID ?rows ''b'' = Some (new_workspace ''b'' ''n'' [] False 0)"
    by (simp add: wkGetByID_def new_workspace_def)
  ultimately show ?thesis using SetDefault_exact [of ?rows "''b''" "new_workspace ''b'' ''n'' [] False 0" 5] by blast
qed

text \<open>
  A user gets one personal workspace: the first call mints it with an owner membership, every
  later call, with whatever name and id, returns the same row and changes nothing.
\<close>

theorem EnsurePersonal_once:
  assumes "EnsurePersonalWorkspace rows members i u n t = Inr (rows', members', w)"
  shows "EnsurePersonalWorkspace rows' members'' i' u n' t' = Inr (rows', members'', w) \<and>
    GetPersonalForUser rows' u = Some w \<and> wk_OwnerUserID w = u \<and> wk_IsPersonal w \<and>
    (rows' \<noteq> rows \<longrightarrow> wsGetRole members' (wk_ID w) u = Some ''owner'')"
proof -
  have u: "u \<noteq> []" using assms by (auto simp: EnsurePersonalWorkspace_def)
  show ?thesis
  proof (cases "GetPersonalForUser rows u")
    case (Some v)
    then have "rows' = rows" "w = v" using assms u by (simp_all add: EnsurePersonalWorkspace_def)
    moreover have "wk_OwnerUserID v = u \<and> wk_IsPersonal v"
      using Some u find_SomeD by (fastforce simp: GetPersonalForUser_def)
    ultimately show ?thesis using Some u by (simp add: EnsurePersonalWorkspace_def)
  next
    case None
    let ?w = "new_workspace i (if n = [] then ''Personal'' else n) u True t"
    let ?m = "\<lparr>wm_WorkspaceID = i, wm_UserID = u, wm_Role = ''owner'', wm_AddedAt = t, wm_AddedBy = u\<rparr>"
    have r: "rows' = rows @ [?w]" "w = ?w"
      "members' = upsert_row wm_key (\<lambda>m. m\<lparr>wm_Role := ''owner''\<rparr>) ?m members"
      using assms u None by (auto simp: EnsurePersonalWorkspace_def Let_def split: if_splits)
    have g: "GetPersonalForUser rows' u = Some w"
      using None u by (simp add: r GetPersonalForUser_def find_append new_workspace_def)
    have k: "wm_key ?m = (i, u)" by (simp add: wm_key_def)
    have "row_at wm_key (i, u) members' =
        Some (case row_at wm_key (i, u) members of None \<Rightarrow> ?m | Some x \<Rightarrow> x\<lparr>wm_Role := ''owner''\<rparr>)"
      unfolding r(3) using row_at_upsert [of wm_key ?m "\<lambda>m. m\<lparr>wm_Role := ''owner''\<rparr>" "(i, u)" members]
      by (simp add: k)
    then have "wsGetRole members' i u = Some ''owner''"
      by (cases "row_at wm_key (i, u) members") (simp_all add: wsGetRole_def)
    moreover have "wk_ID w = i" "wk_OwnerUserID w = u" "wk_IsPersonal w" by (simp_all add: r new_workspace_def)
    ultimately show ?thesis using g u by (simp add: EnsurePersonalWorkspace_def)
  qed
qed

theorem EnsurePersonal_once_witness:
  "EnsurePersonalWorkspace [new_workspace ''i'' ''Personal'' ''u'' True 0] [] ''j'' ''u'' ''x'' 9
     = Inr ([new_workspace ''i'' ''Personal'' ''u'' True 0], [], new_workspace ''i'' ''Personal'' ''u'' True 0)"
proof -
  have "EnsurePersonalWorkspace [] [] ''i'' ''u'' [] 0 =
     Inr ([new_workspace ''i'' ''Personal'' ''u'' True 0],
       [\<lparr>wm_WorkspaceID = ''i'', wm_UserID = ''u'', wm_Role = ''owner'', wm_AddedAt = 0, wm_AddedBy = ''u''\<rparr>],
       new_workspace ''i'' ''Personal'' ''u'' True 0)"
    by code_simp
  from EnsurePersonal_once [OF this] show ?thesis by blast
qed

end
