(* ===== verification/Projects.thy ===== *)
theory Projects
  imports Kvtag Tables
begin

text \<open>
  \<^verbatim>\<open>internal/project\<close>: the canonical form of a git remote (\<^verbatim>\<open>giturl.go\<close>) and the projects
  table (\<^verbatim>\<open>project.go\<close>, \<^verbatim>\<open>store.go\<close>), with the unique index of migration 0006 on the pair of
  workspace and canonical URL. A fresh id is an argument of \<open>Create\<close>.
\<close>

section \<open>CanonicaliseGitRemote\<close>

definition slash :: char where "slash = CHR ''/''"

definition TrimRightSlash :: "string \<Rightarrow> string" where
  "TrimRightSlash s = rev (dropWhile (\<lambda>c. c = slash) (rev s))"

definition contains :: "string \<Rightarrow> string \<Rightarrow> bool" where
  "contains s p = (Index s p \<noteq> None)"

definition https :: string where "https = ''https://''"

text \<open>The first half: every form is rewritten to one with the prefix \<open>https://\<close>.\<close>

definition to_https :: "string \<Rightarrow> string option" where
  "to_https s =
     (if HasPrefix s ''git@'' \<and> \<not> contains s ''://'' then
        (case Index s '':'' of
           None \<Rightarrow> None
         | Some i \<Rightarrow>
             (if i \<le> length ''git@'' then None
              else Some (https @ drop (length ''git@'') (take i s) @ ''/'' @ drop (i + 1) s)))
      else if HasPrefix s ''ssh://git@'' then Some (https @ drop (length ''ssh://git@'') s)
      else if HasPrefix s ''ssh://'' then Some (https @ drop (length ''ssh://'') s)
      else if HasPrefix s ''git://'' then Some (https @ drop (length ''git://'') s)
      else if HasPrefix (ToLower s) https then Some (https @ drop (length https) s)
      else if HasPrefix (ToLower s) ''http://'' then Some (https @ drop (length ''http://'') s)
      else (case Index s '':'' of
              Some i \<Rightarrow>
                (if i > 0 \<and> \<not> contains (take i s) ''/'' then Some (https @ drop (i + 1) s)
                 else Some (https @ s))
            | None \<Rightarrow> Some (https @ s)))"

definition strip_git :: "string \<Rightarrow> string" where
  "strip_git path0 =
     (let path = TrimRightSlash path0;
          path' = (if HasSuffix path ''.git'' then take (length path - length ''.git'') path else path)
      in TrimRightSlash path')"

definition CanonicaliseGitRemote :: "string \<Rightarrow> string option" where
  "CanonicaliseGitRemote input =
     (let s = TrimSpace input in
      if s = [] then Some []
      else case to_https s of
        None \<Rightarrow> None
      | Some u \<Rightarrow>
         (let rest = drop (length https) u in
          case Index rest ''/'' of
            None \<Rightarrow> None
          | Some i \<Rightarrow>
             (if i = 0 then None
              else let host = ToLower (take i rest); path = strip_git (drop (i + 1) rest)
                in if path = [] then None else Some (https @ host @ ''/'' @ path))))"

section \<open>The projects table\<close>

record Project =
  pj_ID :: string
  pj_WorkspaceID :: string
  pj_Name :: string
  pj_Description :: string
  pj_Type :: string
  pj_GitURLCanonical :: string
  pj_Tags :: "string list"
  pj_Phase :: string
  pj_OwnerUserID :: string
  pj_Status :: string
  pj_CreatedAt :: int
  pj_UpdatedAt :: int
  pj_SeedMD :: string
  pj_SeedUpdatedAt :: "int option"
  pj_NonRepo :: bool

datatype pj_error =
  PjWorkspaceRequired | PjNameRequired | PjInvalidGitRemote | PjNameCleared | PjNotFound
  | PjUniqueViolation | PjMoveIdsRequired

definition DeriveNonRepo :: "string \<Rightarrow> bool" where
  "DeriveNonRepo gitURLCanonical = (TrimSpace gitURLCanonical = [])"

text \<open>A row as a select returns it: the derived fields are recomputed (\<open>scanCommon\<close>).\<close>

definition scanProject :: "Project \<Rightarrow> Project" where
  "scanProject p =
     p\<lparr>pj_Type := (if kvValue (pj_Tags p) ''type'' \<noteq> [] then kvValue (pj_Tags p) ''type'' else pj_Type p),
       pj_Phase := kvValue (pj_Tags p) ''phase'',
       pj_NonRepo := DeriveNonRepo (pj_GitURLCanonical p)\<rparr>"

definition git_index_ok :: "Project list \<Rightarrow> bool" where
  "git_index_ok rows =
     distinct (map (\<lambda>p. (pj_WorkspaceID p, pj_GitURLCanonical p))
       (filter (\<lambda>p. pj_GitURLCanonical p \<noteq> []) rows))"

definition pjCreate ::
  "Project list \<Rightarrow> string \<Rightarrow> string \<Rightarrow> string \<Rightarrow> string \<Rightarrow> string \<Rightarrow> string \<Rightarrow> string list \<Rightarrow> int \<Rightarrow>
   pj_error + Project list \<times> Project" where
  "pjCreate rows newid workspaceID name description gitURL owner intags now =
     (if workspaceID = [] then Inl PjWorkspaceRequired
      else if name = [] then Inl PjNameRequired
      else case CanonicaliseGitRemote gitURL of
        None \<Rightarrow> Inl PjInvalidGitRemote
      | Some canon \<Rightarrow>
         (let tags = kvNormalize intags;
              row = \<lparr>pj_ID = newid, pj_WorkspaceID = workspaceID, pj_Name = name,
                pj_Description = description, pj_Type = [], pj_GitURLCanonical = canon, pj_Tags = tags,
                pj_Phase = [], pj_OwnerUserID = owner, pj_Status = ''active'', pj_CreatedAt = now,
                pj_UpdatedAt = now, pj_SeedMD = [], pj_SeedUpdatedAt = None, pj_NonRepo = False\<rparr>;
              rows' = rows @ [row]
          in if \<not> git_index_ok rows' then Inl PjUniqueViolation
             else Inr (rows', row\<lparr>pj_Type := kvValue tags ''type'', pj_Phase := kvValue tags ''phase'',
               pj_NonRepo := DeriveNonRepo canon\<rparr>)))"

definition pjGetByID :: "Project list \<Rightarrow> string \<Rightarrow> Project option" where
  "pjGetByID rows i = map_option scanProject (row_at pj_ID i rows)"

text \<open>\<open>QueryRow\<close> returns the first row the database delivers; \<^const>\<open>None\<close> is \<open>ErrNotFound\<close>.\<close>

definition pjGetByGitURL :: "Project list \<Rightarrow> string \<Rightarrow> pj_error + Project" where
  "pjGetByGitURL rows gitURL =
     (case CanonicaliseGitRemote gitURL of
        None \<Rightarrow> Inl PjInvalidGitRemote
      | Some canon \<Rightarrow>
          (if canon = [] then Inl PjNotFound
           else case row_at pj_GitURLCanonical canon rows of
             None \<Rightarrow> Inl PjNotFound
           | Some p \<Rightarrow> Inr (scanProject p)))"

definition ListByWorkspace :: "Project list \<Rightarrow> string \<Rightarrow> Project list" where
  "ListByWorkspace rows workspaceID =
     map scanProject (sort_key (\<lambda>p. - pj_CreatedAt p) (sort_key pj_ID
       (if workspaceID = [] then rows else filter (\<lambda>p. pj_WorkspaceID p = workspaceID) rows)))"

text \<open>\<open>UpdateInput\<close>: a field is set when it is \<^const>\<open>Some\<close>.\<close>

record UpdateInput =
  ui_Name :: "string option"
  ui_Description :: "string option"
  ui_Type :: "string option"
  ui_GitURL :: "string option"
  ui_Tags :: "string list option"

definition folded_tags :: "string list \<Rightarrow> UpdateInput \<Rightarrow> string list" where
  "folded_tags old upd =
     (let ts = (case ui_Tags upd of Some ts \<Rightarrow> ts | None \<Rightarrow> old);
          ts' = (case ui_Type upd of
                   Some v \<Rightarrow> (if v = [] then kvRemove ts ''type'' else kvSet ts ''type'' v)
                 | None \<Rightarrow> ts)
      in kvNormalize ts')"

text \<open>The columns the update statement sets.\<close>

definition patch_row ::
  "string \<Rightarrow> string \<Rightarrow> string \<Rightarrow> string \<Rightarrow> int \<Rightarrow> string list \<Rightarrow> Project \<Rightarrow> Project" where
  "patch_row name description typ canon now tags r =
     r\<lparr>pj_Name := name, pj_Description := description, pj_Type := typ, pj_GitURLCanonical := canon,
       pj_UpdatedAt := now, pj_Tags := tags\<rparr>"

lemma patch_row_keeps [simp]:
  "pj_ID (patch_row n d t c now tags r) = pj_ID r"
  "pj_WorkspaceID (patch_row n d t c now tags r) = pj_WorkspaceID r"
  by (simp_all add: patch_row_def)

definition pjUpdate ::
  "Project list \<Rightarrow> string \<Rightarrow> UpdateInput \<Rightarrow> int \<Rightarrow> pj_error + Project list \<times> Project" where
  "pjUpdate rows i upd now =
     (case pjGetByID rows i of
        None \<Rightarrow> Inl PjNotFound
      | Some p0 \<Rightarrow>
         (if ui_Name upd = Some [] then Inl PjNameCleared
          else
            let tags = folded_tags (pj_Tags p0) upd;
                p1 = p0\<lparr>pj_Name := (case ui_Name upd of Some n \<Rightarrow> n | None \<Rightarrow> pj_Name p0),
                        pj_Description := (case ui_Description upd of Some d \<Rightarrow> d | None \<Rightarrow> pj_Description p0),
                        pj_Tags := tags, pj_Type := kvValue tags ''type'', pj_Phase := kvValue tags ''phase''\<rparr>
            in case (case ui_GitURL upd of None \<Rightarrow> Some (pj_GitURLCanonical p0)
                                         | Some u \<Rightarrow> CanonicaliseGitRemote u) of
                 None \<Rightarrow> Inl PjInvalidGitRemote
               | Some canon \<Rightarrow>
                  (let p2 = p1\<lparr>pj_GitURLCanonical := canon, pj_UpdatedAt := now\<rparr>;
                       rows' = fst (update_rows (\<lambda>r. pj_ID r = i)
                         (patch_row (pj_Name p2) (pj_Description p2) (pj_Type p2) canon now tags) rows)
                   in if \<not> git_index_ok rows' then Inl PjUniqueViolation
                      else Inr (rows', p2\<lparr>pj_NonRepo := DeriveNonRepo canon\<rparr>))))"

definition SetWorkspace ::
  "Project list \<Rightarrow> string \<Rightarrow> string \<Rightarrow> int \<Rightarrow> pj_error + Project list" where
  "SetWorkspace rows i newWorkspaceID now =
     (if i = [] \<or> newWorkspaceID = [] then Inl PjMoveIdsRequired
      else let (rows', n) = update_rows (\<lambda>r. pj_ID r = i)
                 (\<lambda>r. r\<lparr>pj_WorkspaceID := newWorkspaceID, pj_UpdatedAt := now\<rparr>) rows
        in if \<not> git_index_ok rows' then Inl PjUniqueViolation
           else if n = 0 then Inl PjNotFound else Inr rows')"

definition pjApplySeed :: "Project list \<Rightarrow> string \<Rightarrow> string \<Rightarrow> int \<Rightarrow> pj_error + Project list \<times> Project \<times> bool" where
  "pjApplySeed rows i body now =
     (case pjGetByID rows i of
        None \<Rightarrow> Inl PjNotFound
      | Some p \<Rightarrow>
          (if pj_SeedMD p = body then Inr (rows, p, False)
           else Inr (fst (update_rows (\<lambda>r. pj_ID r = i)
                  (\<lambda>r. r\<lparr>pj_SeedMD := body, pj_SeedUpdatedAt := Some now, pj_UpdatedAt := now\<rparr>) rows),
                p\<lparr>pj_SeedMD := body, pj_SeedUpdatedAt := Some now, pj_UpdatedAt := now\<rparr>, True)))"

lemma pjUpdate_rows:
  assumes "pjUpdate rows i upd now = Inr (rows', q)"
  shows "\<exists>n d t c tags. rows' = fst (update_rows (\<lambda>r. pj_ID r = i) (patch_row n d t c now tags) rows) \<and> git_index_ok rows'"
proof -
  obtain p0 where p0: "pjGetByID rows i = Some p0" using assms by (auto simp: pjUpdate_def split: option.splits)
  have nc: "ui_Name upd \<noteq> Some []" using assms p0 by (auto simp: pjUpdate_def)
  obtain c where c: "(case ui_GitURL upd of None \<Rightarrow> Some (pj_GitURLCanonical p0) | Some u \<Rightarrow> CanonicaliseGitRemote u) = Some c"
    using assms p0 nc unfolding pjUpdate_def Let_def
    by (cases "case ui_GitURL upd of None \<Rightarrow> Some (pj_GitURLCanonical p0) | Some u \<Rightarrow> CanonicaliseGitRemote u") simp_all
  show ?thesis
    using assms p0 nc c unfolding pjUpdate_def Let_def by (simp split: if_splits) blast
qed

section \<open>The canonical form\<close>

lemma Index_char_skip: "c \<notin> set a \<Longrightarrow> Index (a @ c # b) [c] = Some (length a)"
  by (induction a) auto

lemma Index_char_none: "c \<notin> set a \<Longrightarrow> Index a [c] = None"
  by (induction a) auto

lemma canonical_from_https:
  assumes "TrimSpace s = s" and "s \<noteq> []" and "to_https s = Some (https @ h @ ''/'' @ p)"
    and "h \<noteq> []" and "CHR ''/'' \<notin> set h" and "strip_git p \<noteq> []"
  shows "CanonicaliseGitRemote s = Some (https @ ToLower h @ ''/'' @ strip_git p)"
  using assms Index_char_skip [of "CHR ''/''" h p]
  by (simp add: CanonicaliseGitRemote_def Let_def)

section \<open>Properties\<close>

text \<open>
  The spellings of one remote have one canonical form: scp-like, ssh with and without the user,
  git, https, http, scoped and bare inputs for a host and a path all give
  \<open>https://\<close>, the host in lower case, and the path without trailing slashes and \<open>.git\<close>.
\<close>

theorem canonical_forms_agree:
  assumes "h \<noteq> []" and "CHR ''/'' \<notin> set h" and "CHR '':'' \<notin> set h" and "strip_git p \<noteq> []"
    and "s \<in> {''git@'' @ h @ '':'' @ p, ''ssh://git@'' @ h @ ''/'' @ p, ''git://'' @ h @ ''/'' @ p,
              ''https://'' @ h @ ''/'' @ p, ''HTTPS://'' @ h @ ''/'' @ p, ''http://'' @ h @ ''/'' @ p}"
    and "TrimSpace s = s" and "\<not> contains (''git@'' @ h @ '':'' @ p) ''://''"
  shows "CanonicaliseGitRemote s = Some (https @ ToLower h @ ''/'' @ strip_git p)"
proof -
  have i: "Index (''git@'' @ h @ '':'' @ p) '':'' = Some (4 + length h)"
    using Index_char_skip [of "CHR '':''" "''git@'' @ h" p] assms(3) by simp
  have l: "ToLower (''HTTPS://'' @ x) = https @ ToLower x" "ToLower (''https://'' @ x) = https @ ToLower x"
    "ToLower (''http://'' @ x) = ''http://'' @ ToLower x" for x
  proof -
    have "ToLower ''HTTPS://'' = https" "ToLower ''https://'' = https" "ToLower ''http://'' = ''http://''"
      by code_simp+
    then show "ToLower (''HTTPS://'' @ x) = https @ ToLower x" "ToLower (''https://'' @ x) = https @ ToLower x"
      "ToLower (''http://'' @ x) = ''http://'' @ ToLower x"
      by (metis ToLower_def map_append)+
  qed
  have "to_https s = Some (https @ h @ ''/'' @ p)"
    using assms(5)
  proof (elim insertE emptyE)
    assume "s = ''git@'' @ h @ '':'' @ p"
    then show ?thesis using assms(1,7) i by (simp add: to_https_def)
  next
    assume s: "s = ''HTTPS://'' @ h @ ''/'' @ p"
    show ?thesis using l(1) [of "h @ ''/'' @ p"] unfolding s by (simp add: to_https_def https_def)
  next
    assume s: "s = ''https://'' @ h @ ''/'' @ p"
    show ?thesis using l(2) [of "h @ ''/'' @ p"] unfolding s by (simp add: to_https_def https_def)
  next
    assume s: "s = ''http://'' @ h @ ''/'' @ p"
    show ?thesis using l(3) [of "h @ ''/'' @ p"] unfolding s by (simp add: to_https_def https_def)
  qed (simp_all add: to_https_def)
  moreover have "s \<noteq> []" using assms(5) by auto
  ultimately show ?thesis using canonical_from_https assms(1,2,4,6) by blast
qed

theorem canonical_forms_agree_witness:
  "CanonicaliseGitRemote ''git@GitHub.com:o/r.git'' = CanonicaliseGitRemote ''ssh://git@GitHub.com/o/r.git''"
proof -
  have a: "TrimSpace ''git@GitHub.com:o/r.git'' = ''git@GitHub.com:o/r.git''"
    "TrimSpace ''ssh://git@GitHub.com/o/r.git'' = ''ssh://git@GitHub.com/o/r.git''"
    "\<not> contains ''git@GitHub.com:o/r.git'' ''://''" "strip_git ''o/r.git'' \<noteq> []"
    by code_simp+
  show ?thesis
    using canonical_forms_agree [of "''GitHub.com''" "''o/r.git''" "''git@GitHub.com:o/r.git''"]
      canonical_forms_agree [of "''GitHub.com''" "''o/r.git''" "''ssh://git@GitHub.com/o/r.git''"] a
    by simp
qed

end
