(* ===== verification/Authz.thy ===== *)
theory Authz
  imports Workspaces Projects
begin

text \<open>
  \<^verbatim>\<open>internal/verb/authz.go\<close> and the agent-role header of \<^verbatim>\<open>internal/auth/middleware.go\<close>: the
  role a caller has on a project (the maximum over the grant paths, capped by a requested
  downscope), and the predicates the verbs ask before they act. The request context is a record,
  the stores are the tables of \<open>Tenancy\<close> with a flag each that says whether the server wired
  them. The abstract roles are a linear order; the concrete functions refine it.
\<close>

section \<open>The caller and the stores\<close>

record User =
  us_ID :: string
  us_Role :: string

record AgentRoleCap =
  cap_Role :: string
  cap_Projects :: "string list"

record Ctx =
  cx_User :: "User option"
  cx_APIKeyProject :: string
  cx_APIKeyRole :: string
  cx_AgentRole :: "AgentRoleCap option"

record Tenancy =
  tn_AuthStore :: bool
  tn_WorkspaceStore :: bool
  tn_ProjectStore :: bool
  tn_Workspaces :: "Workspace list"
  tn_Members :: "WsMember list"
  tn_Mounts :: "Mount list"
  tn_Projects :: "Project list"
  tn_ProjectMembers :: "PjMember list"

definition UserRoleAdmin :: string where [go_defs]: "UserRoleAdmin = ''admin''"

definition MCPRoleWorkspaceAdmin :: string where "MCPRoleWorkspaceAdmin = ''workspace-admin''"

fun split_comma :: "string \<Rightarrow> string \<Rightarrow> string list" where
  "split_comma acc [] = [rev acc]"
| "split_comma acc (c # cs) = (if c = CHR '','' then rev acc # split_comma [] cs else split_comma (c # acc) cs)"

definition agentRoleFromHeader :: "Ctx \<Rightarrow> string \<Rightarrow> string \<Rightarrow> Ctx" where
  "agentRoleFromHeader ctx roleHeader projectsHeader =
     (let role = ToLower (TrimSpace roleHeader) in
      if role \<noteq> ''read'' \<and> role \<noteq> ''write'' \<and> role \<noteq> ''admin'' then ctx
      else let p = TrimSpace projectsHeader;
               projects = (if p = [] then [] else filter (\<lambda>s. s \<noteq> []) (map TrimSpace (split_comma [] p)))
        in ctx\<lparr>cx_AgentRole := Some \<lparr>cap_Role = role, cap_Projects = projects\<rparr>\<rparr>)"

section \<open>Project roles\<close>

definition projectRoleRank :: "string \<Rightarrow> nat" where
  "projectRoleRank role =
     (if role = PjRoleAdmin then 3 else if role = PjRoleWrite then 2 else if role = PjRoleRead then 1 else 0)"

definition rankToProjectRole :: "nat \<Rightarrow> string" where
  "rankToProjectRole rank =
     (if rank \<ge> 3 then PjRoleAdmin else if rank = 2 then PjRoleWrite else if rank = 1 then PjRoleRead else [])"

definition raise_to :: "nat \<Rightarrow> nat \<Rightarrow> nat" where
  "raise_to r best = (if r > best then r else best)"

text \<open>The workspace whose membership decides: the one given, else the project's home.\<close>

definition home_workspace :: "Tenancy \<Rightarrow> string \<Rightarrow> string \<Rightarrow> string" where
  "home_workspace db wsID projectID =
     (if wsID = [] \<and> tn_ProjectStore db then
        (case pjGetByID (tn_Projects db) projectID of Some p \<Rightarrow> pj_WorkspaceID p | None \<Rightarrow> wsID)
      else wsID)"

text \<open>The role the caller holds in that workspace, when there is a caller, a store and a row.\<close>

definition workspace_grant :: "Tenancy \<Rightarrow> string \<Rightarrow> string \<Rightarrow> string \<Rightarrow> string option" where
  "workspace_grant db caller wsID projectID =
     (if caller \<noteq> [] \<and> tn_WorkspaceStore db then
        (let w = home_workspace db wsID projectID in
         if w \<noteq> [] then wsGetRole (tn_Members db) w caller else None)
      else None)"

definition member_grant :: "Tenancy \<Rightarrow> string \<Rightarrow> string \<Rightarrow> nat" where
  "member_grant db caller projectID =
     (if caller \<noteq> [] \<and> tn_ProjectStore db then
        (case pjGetRole (tn_ProjectMembers db) projectID caller of Some r \<Rightarrow> projectRoleRank r | None \<Rightarrow> 0)
      else 0)"

definition apikey_grant :: "Ctx \<Rightarrow> string \<Rightarrow> nat" where
  "apikey_grant ctx projectID =
     (if cx_APIKeyProject ctx = projectID \<and> cx_APIKeyRole ctx \<noteq> [] then projectRoleRank PjRoleWrite else 0)"

definition caller_id :: "Ctx \<Rightarrow> string" where
  "caller_id ctx = (case cx_User ctx of Some u \<Rightarrow> us_ID u | None \<Rightarrow> [])"

definition callerIsGlobalAdmin :: "Ctx \<Rightarrow> bool" where
  "callerIsGlobalAdmin ctx = (case cx_User ctx of Some u \<Rightarrow> us_Role u = UserRoleAdmin | None \<Rightarrow> False)"

definition actualProjectRoleWS :: "Tenancy \<Rightarrow> Ctx \<Rightarrow> string \<Rightarrow> string \<Rightarrow> string" where
  "actualProjectRoleWS db ctx wsID projectID =
     (if projectID = [] then []
      else if callerIsGlobalAdmin ctx then PjRoleAdmin
      else let caller = caller_id ctx; grant = workspace_grant db caller wsID projectID in
        if (case grant of Some role \<Rightarrow> admin_role role | None \<Rightarrow> False) then PjRoleAdmin
        else let best0 = (case grant of Some role \<Rightarrow> raise_to (projectRoleRank PjRoleRead) 0 | None \<Rightarrow> 0);
                 best1 = raise_to (member_grant db caller projectID) best0;
                 best2 = raise_to (apikey_grant ctx projectID) best1;
                 best3 = (if caller \<noteq> [] \<and> tn_WorkspaceStore db \<and> best2 < projectRoleRank PjRoleRead \<and>
                             CallerHasMountAccess (tn_Mounts db) (tn_Members db) projectID caller
                          then projectRoleRank PjRoleRead else best2)
             in rankToProjectRole best3)"

definition sliceContains :: "string list \<Rightarrow> string \<Rightarrow> bool" where
  "sliceContains xs v = list_ex (\<lambda>x. x = v) xs"

definition effectiveProjectRoleWS :: "Tenancy \<Rightarrow> Ctx \<Rightarrow> string \<Rightarrow> string \<Rightarrow> string" where
  "effectiveProjectRoleWS db ctx wsID projectID =
     (let actual = actualProjectRoleWS db ctx wsID projectID in
      case cx_AgentRole ctx of
        None \<Rightarrow> actual
      | Some cap \<Rightarrow>
          (if cap_Projects cap \<noteq> [] \<and> \<not> sliceContains (cap_Projects cap) projectID then []
           else if projectRoleRank (cap_Role cap) < projectRoleRank actual then cap_Role cap
           else actual))"

definition effectiveProjectRole :: "Tenancy \<Rightarrow> Ctx \<Rightarrow> string \<Rightarrow> string" where
  "effectiveProjectRole db ctx projectID = effectiveProjectRoleWS db ctx [] projectID"

definition effectiveProjectRoleAtLeast :: "Tenancy \<Rightarrow> Ctx \<Rightarrow> string \<Rightarrow> string \<Rightarrow> bool" where
  "effectiveProjectRoleAtLeast db ctx projectID want =
     (projectRoleRank want \<le> projectRoleRank (effectiveProjectRole db ctx projectID))"

datatype scope_error = ProjectIDRequired | NoAccess string | RoleInsufficient string string

definition enforceProjectScope :: "Tenancy \<Rightarrow> Ctx \<Rightarrow> string \<Rightarrow> string \<Rightarrow> string \<Rightarrow> scope_error option" where
  "enforceProjectScope db ctx wsID projectID need =
     (if projectID = [] then Some ProjectIDRequired
      else let have_role = effectiveProjectRoleWS db ctx wsID projectID in
        if projectRoleRank have_role < projectRoleRank need then
          (if have_role = [] then Some (NoAccess projectID) else Some (RoleInsufficient have_role need))
        else None)"

section \<open>Workspace predicates\<close>

definition workspaceRoleRank :: "string \<Rightarrow> nat" where
  "workspaceRoleRank role =
     (if role = WsRoleOwner then 3 else if role = WsRoleAdmin then 2 else if role = WsRoleMember then 1 else 0)"

definition callerWorkspaceRoleCeilingOK :: "Tenancy \<Rightarrow> Ctx \<Rightarrow> string \<Rightarrow> string \<Rightarrow> bool" where
  "callerWorkspaceRoleCeilingOK db ctx wsID want =
     (if callerIsGlobalAdmin ctx then True
      else case cx_User ctx of
        None \<Rightarrow> False
      | Some u \<Rightarrow>
          (if \<not> tn_WorkspaceStore db then False
           else case wsGetRole (tn_Members db) wsID (us_ID u) of
             None \<Rightarrow> False
           | Some role \<Rightarrow> workspaceRoleRank want \<le> workspaceRoleRank role))"

definition callerProjectRoleCeilingOK :: "Tenancy \<Rightarrow> Ctx \<Rightarrow> string \<Rightarrow> string \<Rightarrow> bool" where
  "callerProjectRoleCeilingOK db ctx projectID want =
     (if callerIsGlobalAdmin ctx then True
      else projectRoleRank want \<le> projectRoleRank (effectiveProjectRole db ctx projectID))"

text \<open>A session capped below admin, or scoped to projects, is not acting as an administrator.\<close>

definition downscoped :: "Ctx \<Rightarrow> bool" where
  "downscoped ctx =
     (case cx_AgentRole ctx of
        None \<Rightarrow> False
      | Some cap \<Rightarrow> projectRoleRank (cap_Role cap) < projectRoleRank PjRoleAdmin \<or> cap_Projects cap \<noteq> [])"

definition canManageWorkspace :: "Tenancy \<Rightarrow> Ctx \<Rightarrow> string \<Rightarrow> bool" where
  "canManageWorkspace db ctx wsID =
     (case cx_User ctx of
        None \<Rightarrow> False
      | Some u \<Rightarrow>
         (let admin0 = (us_Role u = UserRoleAdmin);
              admin = (if \<not> admin0 \<and> tn_WorkspaceStore db \<and> wsID \<noteq> [] then
                         (case wsGetRole (tn_Members db) wsID (us_ID u) of
                            Some role \<Rightarrow> admin_role role | None \<Rightarrow> admin0)
                       else admin0)
          in if \<not> admin then False else \<not> downscoped ctx))"

definition CallerMeetsMCPRole :: "Tenancy \<Rightarrow> Ctx \<Rightarrow> string \<Rightarrow> bool" where
  "CallerMeetsMCPRole db ctx required =
     (if required = [] then True
      else if required = MCPRoleWorkspaceAdmin then
        (if downscoped ctx then False
         else if callerIsGlobalAdmin ctx then True
         else case cx_User ctx of
           None \<Rightarrow> False
         | Some u \<Rightarrow> (if \<not> tn_WorkspaceStore db then False else HasAdminRole (tn_Members db) (us_ID u)))
      else False)"

definition canPatchWorkspace :: "Ctx \<Rightarrow> Workspace \<Rightarrow> bool" where
  "canPatchWorkspace ctx w =
     (if downscoped ctx then False
      else if callerIsGlobalAdmin ctx then True
      else case cx_User ctx of
        None \<Rightarrow> False
      | Some u \<Rightarrow> wk_OwnerUserID w \<noteq> [] \<and> wk_OwnerUserID w = us_ID u)"

definition isWorkspaceMember :: "Tenancy \<Rightarrow> Ctx \<Rightarrow> string \<Rightarrow> bool" where
  "isWorkspaceMember db ctx wsID =
     (if callerIsGlobalAdmin ctx then True
      else case cx_User ctx of
        None \<Rightarrow> False
      | Some u \<Rightarrow>
          (if \<not> tn_WorkspaceStore db \<or> wsID = [] then False
           else wsGetRole (tn_Members db) wsID (us_ID u) \<noteq> None))"

definition canListWorkspaceProjects :: "Tenancy \<Rightarrow> Ctx \<Rightarrow> string \<Rightarrow> bool" where
  "canListWorkspaceProjects db ctx wsID =
     (if callerIsGlobalAdmin ctx then True
      else case cx_User ctx of
        None \<Rightarrow> False
      | Some u \<Rightarrow>
          (if \<not> tn_WorkspaceStore db \<or> wsID = [] then False
           else wsGetRole (tn_Members db) wsID (us_ID u) \<noteq> None))"

section \<open>The order of roles\<close>

datatype proj_role = NoRole | ReadRole | WriteRole | AdminRole

fun role_level :: "proj_role \<Rightarrow> nat" where
  "role_level NoRole = 0"
| "role_level ReadRole = 1"
| "role_level WriteRole = 2"
| "role_level AdminRole = 3"

instantiation proj_role :: linorder
begin

definition less_eq_proj_role :: "proj_role \<Rightarrow> proj_role \<Rightarrow> bool" where
  "less_eq_proj_role a b = (role_level a \<le> role_level b)"

definition less_proj_role :: "proj_role \<Rightarrow> proj_role \<Rightarrow> bool" where
  "less_proj_role a b = (role_level a < role_level b)"

instance
proof
  fix a b :: proj_role
  show "a \<le> b \<Longrightarrow> b \<le> a \<Longrightarrow> a = b"
    by (cases a; cases b) (simp_all add: less_eq_proj_role_def)
qed (auto simp: less_eq_proj_role_def less_proj_role_def)

end

definition abs_role :: "string \<Rightarrow> proj_role" where
  "abs_role r = (if r = PjRoleAdmin then AdminRole else if r = PjRoleWrite then WriteRole
     else if r = PjRoleRead then ReadRole else NoRole)"

lemma role_names [simp]: "PjRoleAdmin \<noteq> PjRoleWrite" "PjRoleAdmin \<noteq> PjRoleRead" "PjRoleWrite \<noteq> PjRoleRead"
  "PjRoleWrite \<noteq> PjRoleAdmin" "PjRoleRead \<noteq> PjRoleAdmin" "PjRoleRead \<noteq> PjRoleWrite"
  "PjRoleAdmin \<noteq> []" "PjRoleWrite \<noteq> []" "PjRoleRead \<noteq> []" "[] \<noteq> PjRoleAdmin" "[] \<noteq> PjRoleWrite" "[] \<noteq> PjRoleRead"
  by (simp_all add: PjRoleAdmin_def PjRoleWrite_def PjRoleRead_def)

lemma rank_level: "projectRoleRank r = role_level (abs_role r)"
  by (simp add: projectRoleRank_def abs_role_def)

lemma rank_le_iff: "projectRoleRank a \<le> projectRoleRank b \<longleftrightarrow> abs_role a \<le> abs_role b"
  by (simp add: rank_level less_eq_proj_role_def)

lemma rank_less_iff: "projectRoleRank a < projectRoleRank b \<longleftrightarrow> abs_role a < abs_role b"
  by (simp add: rank_level less_proj_role_def)

lemma rank_values [simp]: "projectRoleRank PjRoleRead = 1" "projectRoleRank PjRoleWrite = 2"
  "projectRoleRank PjRoleAdmin = 3" "projectRoleRank [] = 0"
  by (simp_all add: projectRoleRank_def)

lemma rank_bound: "projectRoleRank r \<le> 3"
  by (simp add: projectRoleRank_def)

lemma rank_of_rank [simp]: "r \<le> 3 \<Longrightarrow> projectRoleRank (rankToProjectRole r) = r"
  by (auto simp: rankToProjectRole_def)

lemma raise_to_max [simp]: "raise_to a b = max a b"
  by (simp add: raise_to_def max_def)

lemma level_inj: "role_level a = role_level b \<longleftrightarrow> a = b"
  by (cases a; cases b) auto

lemma abs_role_rank: "r \<le> 3 \<Longrightarrow> role_level (abs_role (rankToProjectRole r)) = r"
  by (simp add: rank_level [symmetric])

text \<open>The grants of a caller on a project, as roles.\<close>

definition grants :: "Tenancy \<Rightarrow> Ctx \<Rightarrow> string \<Rightarrow> string \<Rightarrow> proj_role list" where
  "grants db ctx wsID projectID =
     [if callerIsGlobalAdmin ctx then AdminRole else NoRole,
      (case workspace_grant db (caller_id ctx) wsID projectID of
         Some role \<Rightarrow> (if admin_role role then AdminRole else ReadRole) | None \<Rightarrow> NoRole),
      (if caller_id ctx \<noteq> [] \<and> tn_ProjectStore db then
         (case pjGetRole (tn_ProjectMembers db) projectID (caller_id ctx) of Some r \<Rightarrow> abs_role r | None \<Rightarrow> NoRole)
       else NoRole),
      (if cx_APIKeyProject ctx = projectID \<and> cx_APIKeyRole ctx \<noteq> [] then WriteRole else NoRole),
      (if caller_id ctx \<noteq> [] \<and> tn_WorkspaceStore db \<and>
          CallerHasMountAccess (tn_Mounts db) (tn_Members db) projectID (caller_id ctx) then ReadRole else NoRole)]"

lemma max_level: "role_level (max a b) = max (role_level a) (role_level b)"
  by (cases a; cases b) (simp_all add: max_def less_eq_proj_role_def)

lemma fold_max_level: "role_level (fold max xs a) = fold max (map role_level xs) (role_level a)"
  by (induction xs arbitrary: a) (simp_all add: max_level)

lemma fold_max_ge: "x \<in> set xs \<or> x \<le> a \<Longrightarrow> x \<le> fold max xs (a :: nat)"
  by (induction xs arbitrary: a) (auto simp: le_max_iff_disj)

lemma fold_max_le: "(\<forall>x \<in> set xs. x \<le> b) \<and> a \<le> b \<Longrightarrow> fold max xs (a :: nat) \<le> b"
  by (induction xs arbitrary: a) auto

text \<open>The same grants as ranks, and the maximum written out.\<close>

definition ws_level :: "string option \<Rightarrow> nat" where
  "ws_level g = (case g of Some role \<Rightarrow> (if admin_role role then 3 else 1) | None \<Rightarrow> 0)"

definition mounted :: "Tenancy \<Rightarrow> Ctx \<Rightarrow> string \<Rightarrow> bool" where
  "mounted db ctx projectID = (caller_id ctx \<noteq> [] \<and> tn_WorkspaceStore db \<and>
     CallerHasMountAccess (tn_Mounts db) (tn_Members db) projectID (caller_id ctx))"

lemma grants_levels:
  "map role_level (grants db ctx wsID projectID) =
     [if callerIsGlobalAdmin ctx then 3 else 0, ws_level (workspace_grant db (caller_id ctx) wsID projectID),
      member_grant db (caller_id ctx) projectID, apikey_grant ctx projectID,
      if mounted db ctx projectID then 1 else 0]"
proof -
  have "role_level (case g of Some role \<Rightarrow> (if admin_role role then AdminRole else ReadRole) | None \<Rightarrow> NoRole)
      = ws_level g" for g
    by (cases g) (simp_all add: ws_level_def)
  moreover have "role_level (if caller_id ctx \<noteq> [] \<and> tn_ProjectStore db then
      (case pjGetRole (tn_ProjectMembers db) projectID (caller_id ctx) of Some r \<Rightarrow> abs_role r | None \<Rightarrow> NoRole)
      else NoRole) = member_grant db (caller_id ctx) projectID"
    by (cases "pjGetRole (tn_ProjectMembers db) projectID (caller_id ctx)")
      (simp_all add: member_grant_def rank_level)
  ultimately show ?thesis by (simp add: grants_def apikey_grant_def mounted_def)
qed

lemma fold_max_five: "fold max [a, b, c, d, e] (0 :: nat) = max e (max d (max c (max b a)))"
  by simp

lemma member_grant_bound: "member_grant db c p \<le> 3"
  using rank_bound by (simp add: member_grant_def split: option.split)

lemma actual_level:
  assumes "projectID \<noteq> []"
  shows "projectRoleRank (actualProjectRoleWS db ctx wsID projectID)
    = fold max (map role_level (grants db ctx wsID projectID)) 0"
proof -
  let ?g = "workspace_grant db (caller_id ctx) wsID projectID"
  let ?m = "member_grant db (caller_id ctx) projectID"
  let ?k = "apikey_grant ctx projectID"
  have m: "?m \<le> 3" by (rule member_grant_bound)
  have k: "?k \<le> 2" by (simp add: apikey_grant_def)
  show ?thesis
  proof (cases "callerIsGlobalAdmin ctx")
    case True
    moreover have "ws_level ?g \<le> 3" by (simp add: ws_level_def split: option.split)
    ultimately show ?thesis unfolding grants_levels fold_max_five using m k assms
      by (simp add: actualProjectRoleWS_def)
  next
    case False
    consider "?g = None" | r where "?g = Some r" "admin_role r" | r where "?g = Some r" "\<not> admin_role r"
      by (cases ?g) auto
    then show ?thesis
    proof cases
      case 1
      have "actualProjectRoleWS db ctx wsID projectID = rankToProjectRole
          (if mounted db ctx projectID \<and> max ?k ?m < 1 then 1 else max ?k ?m)"
        using False 1 assms by (simp add: actualProjectRoleWS_def Let_def mounted_def conj_ac)
      then show ?thesis unfolding grants_levels fold_max_five using False 1 m k
        by (simp add: ws_level_def max_def)
    next
      case 2
      then show ?thesis unfolding grants_levels fold_max_five using False m k assms
        by (simp add: actualProjectRoleWS_def ws_level_def)
    next
      case 3
      have "actualProjectRoleWS db ctx wsID projectID = rankToProjectRole (max ?k (max ?m 1))"
        using False 3 assms by (simp add: actualProjectRoleWS_def Let_def)
      then show ?thesis unfolding grants_levels fold_max_five using False 3 m k
        by (simp add: ws_level_def)
    qed
  qed
qed

section \<open>Properties\<close>

text \<open>
  C4: refinement: the role a caller has on a project is the maximum, in the order of roles, of
  the five grants (global admin, workspace role, member row, bound key, readonly mount), and a
  requested downscope is a minimum with the requested role, none outside the allow-list.
\<close>

theorem effective_role_refines:
  assumes "projectID \<noteq> []"
  shows "abs_role (effectiveProjectRoleWS db ctx wsID projectID) =
    (let actual = fold max (grants db ctx wsID projectID) NoRole in
     case cx_AgentRole ctx of
       None \<Rightarrow> actual
     | Some cap \<Rightarrow>
         if cap_Projects cap \<noteq> [] \<and> projectID \<notin> set (cap_Projects cap) then NoRole
         else min actual (abs_role (cap_Role cap)))"
proof -
  have a: "abs_role (actualProjectRoleWS db ctx wsID projectID) = fold max (grants db ctx wsID projectID) NoRole"
    unfolding level_inj [symmetric] rank_level [symmetric] actual_level [OF assms] fold_max_level by simp
  have n: "abs_role [] = NoRole" by (simp add: abs_role_def)
  have s: "sliceContains xs v \<longleftrightarrow> v \<in> set xs" for xs v by (auto simp: sliceContains_def list_ex_iff)
  show ?thesis
    by (cases "cx_AgentRole ctx")
      (auto simp: effectiveProjectRoleWS_def Let_def a n s rank_less_iff min_def not_le not_less)
qed

theorem effective_role_refines_witness:
  "abs_role (effectiveProjectRoleWS \<lparr>tn_AuthStore = True, tn_WorkspaceStore = True, tn_ProjectStore = True,
      tn_Workspaces = [], tn_Members = [], tn_Mounts = [], tn_Projects = [], tn_ProjectMembers = []\<rparr>
     \<lparr>cx_User = None, cx_APIKeyProject = ''p'', cx_APIKeyRole = ''executor'',
      cx_AgentRole = Some \<lparr>cap_Role = ''read'', cap_Projects = []\<rparr>\<rparr> [] ''p'') = ReadRole"
  by (subst effective_role_refines)
    (simp_all add: grants_def callerIsGlobalAdmin_def workspace_grant_def caller_id_def abs_role_def
      PjRoleAdmin_def PjRoleWrite_def PjRoleRead_def max_def min_def less_eq_proj_role_def)

text \<open>
  No write through a mount: a caller with write access has it from a global role, an
  administering role in the home workspace, a member row of write or more, or a key bound to the
  project; whatever mounts exist, they do not change who can write.
\<close>

theorem no_write_through_mount:
  assumes "projectID \<noteq> []"
  shows "(2 \<le> projectRoleRank (actualProjectRoleWS db ctx wsID projectID) \<longleftrightarrow>
      callerIsGlobalAdmin ctx
      \<or> (\<exists>r. workspace_grant db (caller_id ctx) wsID projectID = Some r \<and> admin_role r)
      \<or> 2 \<le> member_grant db (caller_id ctx) projectID
      \<or> (cx_APIKeyProject ctx = projectID \<and> cx_APIKeyRole ctx \<noteq> []))
    \<and> (2 \<le> projectRoleRank (actualProjectRoleWS (db\<lparr>tn_Mounts := mounts\<rparr>) ctx wsID projectID) \<longleftrightarrow>
       2 \<le> projectRoleRank (actualProjectRoleWS db ctx wsID projectID))"
proof -
  have main: "2 \<le> projectRoleRank (actualProjectRoleWS db ctx wsID projectID) \<longleftrightarrow>
      callerIsGlobalAdmin ctx
      \<or> (\<exists>r. workspace_grant db (caller_id ctx) wsID projectID = Some r \<and> admin_role r)
      \<or> 2 \<le> member_grant db (caller_id ctx) projectID
      \<or> (cx_APIKeyProject ctx = projectID \<and> cx_APIKeyRole ctx \<noteq> [])" for db
  proof -
    have "2 \<le> ws_level g \<longleftrightarrow> (\<exists>r. g = Some r \<and> admin_role r)" for g
      by (cases g) (simp_all add: ws_level_def)
    then show ?thesis
      unfolding actual_level [OF assms] grants_levels fold_max_five le_max_iff_disj
      by (simp add: apikey_grant_def) blast
  qed
  have "workspace_grant (db\<lparr>tn_Mounts := mounts\<rparr>) c w p = workspace_grant db c w p"
    "member_grant (db\<lparr>tn_Mounts := mounts\<rparr>) c p = member_grant db c p" for c w p
    by (simp_all add: workspace_grant_def home_workspace_def member_grant_def Let_def)
  then show ?thesis unfolding main by simp
qed

theorem no_write_through_mount_witness:
  "\<not> 2 \<le> projectRoleRank (actualProjectRoleWS \<lparr>tn_AuthStore = True, tn_WorkspaceStore = True,
      tn_ProjectStore = True, tn_Workspaces = [], tn_Members = [], tn_Mounts = [], tn_Projects = [],
      tn_ProjectMembers = []\<rparr>
     \<lparr>cx_User = None, cx_APIKeyProject = [], cx_APIKeyRole = [], cx_AgentRole = None\<rparr> [] ''p'')"
  using no_write_through_mount [of "''p''"]
  by (simp add: callerIsGlobalAdmin_def workspace_grant_def caller_id_def member_grant_def)

end
