(* ===== verification/Ledger.thy ===== *)
theory Ledger
  imports Template Authz V2Edges
begin

text \<open>
  The evidence ledger (\<^verbatim>\<open>internal/ledger\<close>) and its verbs (\<^verbatim>\<open>internal/verb/ledger.go\<close>): append,
  the replay check of engagement rows, filtered listing by cursor, the role gate, and the projection
  of a status transition onto the story. The table is the list of its rows in the order they were
  appended. A payload is the list of the members of the JSON object it encodes, empty also when it is absent. The server reads a
  member by its name up to case (\<open>encoding/json\<close>), the database by its exact name; of several the last counts. The
  database's cast of a member to \<^verbatim>\<open>bigint\<close> is the parameter \<open>bigint\<close>: \<^const>\<open>None\<close> when it
  fails, \<open>Some None\<close> for NULL. An append is three statements without a transaction: the replay check, the insert and the projection
  of the status; \<open>invokeLedgerAppend\<close> composes them for a request nothing comes between. The document store is wired; the
  regeneration of summaries, which runs behind the reply, is not modelled.
\<close>

section \<open>The table\<close>

definition LogKindPrefix :: string where "LogKindPrefix = ''log:''"

record Entry =
  ey_ID :: string
  ey_StoryID :: string
  ey_ProjectID :: string
  ey_WorkspaceID :: string
  ey_SessionID :: string
  ey_RunID :: string
  ey_Kind :: string
  ey_Actor :: string
  ey_Body :: string
  ey_Payload :: payload
  ey_Refs :: string
  ey_CreatedAt :: int

record AppendInput =
  an_StoryID :: string
  an_ProjectID :: string
  an_WorkspaceID :: string
  an_SessionID :: string
  an_RunID :: string
  an_Kind :: string
  an_Actor :: string
  an_Body :: string
  an_Payload :: payload
  an_Refs :: string

datatype ledger_error =
    LedgerKindRequired
  | LedgerKindRequiredAt nat
  | LedgerIdTaken
  | LedgerCast
  | LedgerStoryRequired
  | LedgerUnfiltered
  | LedgerCursor
  | LedgerTime string
  | LogKindsOnly string string
  | NeedsAdminOrKey string
  | ProjectionFailed doc_error

definition entry_of :: "string \<Rightarrow> AppendInput \<Rightarrow> int \<Rightarrow> Entry" where
  "entry_of newID a now = \<lparr>ey_ID = newID, ey_StoryID = an_StoryID a, ey_ProjectID = an_ProjectID a,
     ey_WorkspaceID = an_WorkspaceID a, ey_SessionID = an_SessionID a, ey_RunID = an_RunID a, ey_Kind = an_Kind a,
     ey_Actor = an_Actor a, ey_Body = an_Body a, ey_Payload = an_Payload a, ey_Refs = or_default (an_Refs a) ''[]'',
     ey_CreatedAt = now\<rparr>"

text \<open>A blank story is stored as NULL, which is read as the empty text.\<close>

definition stored :: "Entry \<Rightarrow> Entry" where
  "stored e = (if TrimSpace (ey_StoryID e) = [] then e\<lparr>ey_StoryID := []\<rparr> else e)"

definition LedgerAppend :: "string \<Rightarrow> AppendInput \<Rightarrow> int \<Rightarrow> Entry list \<Rightarrow> ledger_error + Entry \<times> Entry list" where
  "LedgerAppend newID a now rows =
     (if TrimSpace (an_Kind a) = [] then Inl LedgerKindRequired
      else if row_at ey_ID newID rows \<noteq> None then Inl LedgerIdTaken
      else let e = entry_of newID a now in Inr (e, rows @ [stored e]))"

fun kindless :: "nat \<Rightarrow> AppendInput list \<Rightarrow> nat option" where
  "kindless i [] = None"
| "kindless i (a # as) = (if TrimSpace (an_Kind a) = [] then Some i else kindless (Suc i) as)"

definition LedgerAppendMany :: "string list \<Rightarrow> AppendInput list \<Rightarrow> int \<Rightarrow> Entry list \<Rightarrow> ledger_error + Entry list" where
  "LedgerAppendMany ids ins now rows =
     (if ins = [] then Inr rows
      else case kindless 0 ins of
        Some i \<Rightarrow> Inl (LedgerKindRequiredAt i)
      | None \<Rightarrow>
          (let new = map (\<lambda>(i, a). stored (entry_of i a now)) (zip ids ins) in
           if distinct (map ey_ID (rows @ new)) then Inr (rows @ new) else Inl LedgerIdTaken))"

definition engagement_prefix :: string where "engagement_prefix = ''engagement:''"

text \<open>\<^verbatim>\<open>payload->>'seq'\<close>: the column is \<^verbatim>\<open>jsonb\<close>, which keeps the last of several members of one name.\<close>

definition sql_field :: "payload \<Rightarrow> string \<Rightarrow> jval option" where
  "sql_field p name = map_of (rev p) name"

text \<open>The query stops at the first match; a cast that fails before it fails the query.\<close>

fun seq_scan :: "(jval \<Rightarrow> int option option) \<Rightarrow> int \<Rightarrow> Entry list \<Rightarrow> ledger_error + bool" where
  "seq_scan bigint seq [] = Inr False"
| "seq_scan bigint seq (e # es) =
     (case sql_field (ey_Payload e) ''seq'' of
        None \<Rightarrow> seq_scan bigint seq es
      | Some j \<Rightarrow>
          (case bigint j of
             None \<Rightarrow> Inl LedgerCast
           | Some q \<Rightarrow> (if q = Some seq then Inr True else seq_scan bigint seq es)))"

definition seq_rows :: "string \<Rightarrow> string \<Rightarrow> Entry list \<Rightarrow> Entry list" where
  "seq_rows sessionID storyID rows = filter (\<lambda>e. ey_SessionID e = sessionID \<and> ey_StoryID e = storyID \<and>
     like (ey_Kind e) (engagement_prefix @ ''%'')) rows"

definition EngagementSeqExists ::
  "(jval \<Rightarrow> int option option) \<Rightarrow> Entry list \<Rightarrow> string \<Rightarrow> string \<Rightarrow> int \<Rightarrow> ledger_error + bool" where
  "EngagementSeqExists bigint rows sessionID storyID seq =
     (if TrimSpace sessionID = [] \<or> TrimSpace storyID = [] then Inr False
      else seq_scan bigint seq (seq_rows sessionID storyID rows))"

section \<open>Listing\<close>

record LedgerFilter =
  lf_StoryID :: string
  lf_ProjectID :: string
  lf_WorkspaceID :: string
  lf_SessionID :: string
  lf_RunID :: string
  lf_Kind :: string
  lf_KindPrefix :: string
  lf_BodyContainsAny :: "string list"
  lf_CreatedAfter :: "int option"
  lf_CreatedBefore :: "int option"
  lf_Limit :: int

definition anyEntry :: LedgerFilter where
  "anyEntry = \<lparr>lf_StoryID = [], lf_ProjectID = [], lf_WorkspaceID = [], lf_SessionID = [], lf_RunID = [],
     lf_Kind = [], lf_KindPrefix = [], lf_BodyContainsAny = [], lf_CreatedAfter = None, lf_CreatedBefore = None,
     lf_Limit = 0\<rparr>"

definition trimNonEmpty :: "string list \<Rightarrow> string list" where
  "trimNonEmpty ss = filter (\<lambda>s. s \<noteq> []) (map TrimSpace ss)"

definition unfiltered :: "LedgerFilter \<Rightarrow> bool" where
  "unfiltered f \<longleftrightarrow> TrimSpace (lf_StoryID f) = [] \<and> TrimSpace (lf_ProjectID f) = [] \<and>
     TrimSpace (lf_WorkspaceID f) = [] \<and> TrimSpace (lf_SessionID f) = [] \<and> TrimSpace (lf_RunID f) = [] \<and>
     TrimSpace (lf_Kind f) = [] \<and> TrimSpace (lf_KindPrefix f) = [] \<and> trimNonEmpty (lf_BodyContainsAny f) = [] \<and>
     lf_CreatedAfter f = None \<and> lf_CreatedBefore f = None"

definition cond_eq :: "string \<Rightarrow> string \<Rightarrow> bool" where
  "cond_eq col val \<longleftrightarrow> TrimSpace val = [] \<or> col = val"

definition entry_matches :: "LedgerFilter \<Rightarrow> Entry \<Rightarrow> bool" where
  "entry_matches f e \<longleftrightarrow>
     cond_eq (ey_StoryID e) (lf_StoryID f) \<and> cond_eq (ey_ProjectID e) (lf_ProjectID f) \<and>
     cond_eq (ey_WorkspaceID e) (lf_WorkspaceID f) \<and> cond_eq (ey_SessionID e) (lf_SessionID f) \<and>
     cond_eq (ey_RunID e) (lf_RunID f) \<and> cond_eq (ey_Kind e) (lf_Kind f) \<and>
     (TrimSpace (lf_Kind f) = [] \<and> TrimSpace (lf_KindPrefix f) \<noteq> [] \<longrightarrow> like (ey_Kind e) (lf_KindPrefix f @ ''%'')) \<and>
     (let terms = trimNonEmpty (lf_BodyContainsAny f) in
      terms = [] \<or> (\<exists>t \<in> set terms. ilike (ey_Body e) (''%'' @ t @ ''%''))) \<and>
     (case lf_CreatedAfter f of None \<Rightarrow> True | Some t \<Rightarrow> t \<le> ey_CreatedAt e) \<and>
     (case lf_CreatedBefore f of None \<Rightarrow> True | Some t \<Rightarrow> ey_CreatedAt e \<le> t)"

definition entry_key :: "Entry \<Rightarrow> int \<times> string" where
  "entry_key e = (ey_CreatedAt e, ey_ID e)"

definition LedgerList :: "Entry list \<Rightarrow> LedgerFilter \<Rightarrow> cursor \<Rightarrow> ledger_error + Entry list \<times> cursor" where
  "LedgerList rows f c =
     (if unfiltered f then Inl LedgerUnfiltered
      else
        let limit = list_limit 200 2000 (lf_Limit f);
            matched = filter (entry_matches f) rows;
            fetch = (\<lambda>rs. let out = take (limit + 1) (sort_key entry_key rs) in
              if length out > limit
              then (let entries = take limit out; lastRow = entries ! (limit - 1)
                    in (entries, At (ey_CreatedAt lastRow) (ey_ID lastRow)))
              else (out, NoCursor))
        in case c of
             BadCursor \<Rightarrow> Inl LedgerCursor
           | NoCursor \<Rightarrow> Inr (fetch matched)
           | At t i \<Rightarrow> Inr (fetch (filter (\<lambda>e. (t, i) < entry_key e) matched)))"

definition ListByStory :: "Entry list \<Rightarrow> string \<Rightarrow> string \<Rightarrow> ledger_error + Entry list" where
  "ListByStory rows storyID kind =
     (if TrimSpace storyID = [] then Inl LedgerStoryRequired
      else map_sum id fst (LedgerList rows (anyEntry\<lparr>lf_StoryID := storyID, lf_Kind := kind, lf_Limit := 2000\<rparr>) NoCursor))"

section \<open>The verbs\<close>

definition statusTransitionKind :: string where "statusTransitionKind = ''status_transition''"

definition APIKeyRoleExecutor :: string where "APIKeyRoleExecutor = ''executor''"
definition APIKeyRoleRunner :: string where "APIKeyRoleRunner = ''runner''"

definition requireLedgerAppendRole :: "Ctx \<Rightarrow> string \<Rightarrow> ledger_error option" where
  "requireLedgerAppendRole ctx kind =
     (if (case cx_User ctx of Some u \<Rightarrow> us_Role u = UserRoleAdmin | None \<Rightarrow> False) then None
      else let role = cx_APIKeyRole ctx in
        if role = [] then None
        else if role = APIKeyRoleRunner \<or> role = APIKeyRoleExecutor
          then (if HasPrefix kind LogKindPrefix then None else Some (LogKindsOnly role kind))
        else Some (NeedsAdminOrKey role))"

definition actorFromContext :: "Ctx \<Rightarrow> string" where
  "actorFromContext ctx = (case cx_User ctx of Some u \<Rightarrow> us_ID u | None \<Rightarrow> [])"

definition int64 :: "int \<Rightarrow> bool" where
  "int64 n \<longleftrightarrow> - (2 ^ 63) \<le> n \<and> n < 2 ^ 63"

text \<open>
  The members of an object that decode into a field: \<open>encoding/json\<close> compares the names folded, where the letter s is
  also U+017F (the Kelvin sign folds to a letter neither name has). Members are decoded in order; one of another type fails the decoding,
  and null leaves a string as it was and clears a pointer.
\<close>

fun foldName :: "string \<Rightarrow> string" where
  "foldName (c # d # s) = (if c = CHR 0xC5 \<and> d = CHR 0xBF then CHR ''s'' # foldName s else ToLower [c] @ foldName (d # s))"
| "foldName s = ToLower s"

definition field_values :: "string \<Rightarrow> payload \<Rightarrow> jval list" where
  "field_values name p = map snd (filter (\<lambda>m. foldName (fst m) = foldName name) p)"

definition engagementSeq :: "payload \<Rightarrow> int option" where
  "engagementSeq p =
     (let vs = field_values ''seq'' p in
      if vs = [] \<or> list_ex (\<lambda>v. case v of JInt n \<Rightarrow> \<not> int64 n | JNull \<Rightarrow> False | _ \<Rightarrow> True) vs then None
      else case last vs of JInt n \<Rightarrow> Some n | _ \<Rightarrow> None)"

definition extractToStatus :: "payload \<Rightarrow> string" where
  "extractToStatus p =
     (let vs = field_values ''to_status'' p in
      if list_ex (\<lambda>v. case v of JStr s \<Rightarrow> False | JNull \<Rightarrow> False | _ \<Rightarrow> True) vs then []
      else TrimSpace (foldl (\<lambda>st v. case v of JStr s \<Rightarrow> s | _ \<Rightarrow> st) [] vs))"

record server =
  sv_Ledger :: "Entry list"
  sv_Docs :: docdb

datatype append_reply = Deduplicated string string int | Appended Entry

definition duplicate_seq :: "(jval \<Rightarrow> int option option) \<Rightarrow> AppendInput \<Rightarrow> Entry list \<Rightarrow> ledger_error + int option" where
  "duplicate_seq bigint req rows =
     (if \<not> HasPrefix (an_Kind req) engagement_prefix then Inr None
      else case engagementSeq (an_Payload req) of
        None \<Rightarrow> Inr None
      | Some seq \<Rightarrow> map_sum id (\<lambda>there. if there then Some seq else None)
          (EngagementSeqExists bigint rows (an_SessionID req) (an_StoryID req) seq))"

definition project_status :: "AppendInput \<Rightarrow> int \<Rightarrow> docdb \<Rightarrow> doc_error + docdb" where
  "project_status req now db =
     (let to = extractToStatus (an_Payload req) in
      if an_Kind req = statusTransitionKind \<and> TrimSpace (an_StoryID req) \<noteq> [] \<and> to \<noteq> []
      then map_sum id snd (UpdateStory (an_StoryID req) (noPatch\<lparr>us_Status := Some to\<rparr>) now db)
      else Inr db)"

text \<open>The three statements of an append: what goes on after the check, the insert, and the projection, which leaves the row when it fails.\<close>

definition append_checked ::
  "(jval \<Rightarrow> int option option) \<Rightarrow> Ctx \<Rightarrow> AppendInput \<Rightarrow> Entry list \<Rightarrow> ledger_error + append_reply option" where
  "append_checked bigint ctx req rows =
     (if TrimSpace (an_Kind req) = [] then Inl LedgerKindRequired
      else case requireLedgerAppendRole ctx (an_Kind req) of
        Some e \<Rightarrow> Inl e
      | None \<Rightarrow> map_sum id (map_option (Deduplicated (an_SessionID req) (an_StoryID req))) (duplicate_seq bigint req rows))"

definition append_inserted :: "Ctx \<Rightarrow> string \<Rightarrow> AppendInput \<Rightarrow> int \<Rightarrow> Entry list \<Rightarrow> ledger_error + Entry \<times> Entry list" where
  "append_inserted ctx newID req now rows =
     LedgerAppend newID (req\<lparr>an_Actor := (if an_Actor req = [] then actorFromContext ctx else an_Actor req)\<rparr>) now rows"

definition append_projected :: "AppendInput \<Rightarrow> int \<Rightarrow> Entry \<Rightarrow> server \<Rightarrow> (ledger_error + append_reply) \<times> server" where
  "append_projected req now e sv =
     (case project_status req now (sv_Docs sv) of
        Inl d \<Rightarrow> (Inl (ProjectionFailed d), sv)
      | Inr db \<Rightarrow> (Inr (Appended e), sv\<lparr>sv_Docs := db\<rparr>))"

definition invokeLedgerAppend ::
  "(jval \<Rightarrow> int option option) \<Rightarrow> Ctx \<Rightarrow> string \<Rightarrow> AppendInput \<Rightarrow> int \<Rightarrow> server \<Rightarrow> (ledger_error + append_reply) \<times> server" where
  "invokeLedgerAppend bigint ctx newID req now sv =
     (case append_checked bigint ctx req (sv_Ledger sv) of
        Inl e \<Rightarrow> (Inl e, sv)
      | Inr (Some r) \<Rightarrow> (Inr r, sv)
      | Inr None \<Rightarrow>
          (case append_inserted ctx newID req now (sv_Ledger sv) of
             Inl e \<Rightarrow> (Inl e, sv)
           | Inr (e, rows) \<Rightarrow> append_projected req now e (sv\<lparr>sv_Ledger := rows\<rparr>)))"

record LedgerListRequest =
  lq_Filter :: LedgerFilter
  lq_CreatedAfter :: string
  lq_CreatedBefore :: string
  lq_Cursor :: cursor

text \<open>The bounds arrive as text; \<open>parse\<close> reads RFC 3339.\<close>

definition invokeLedgerList ::
  "(string \<Rightarrow> int option) \<Rightarrow> Entry list \<Rightarrow> LedgerListRequest \<Rightarrow> ledger_error + Entry list \<times> cursor" where
  "invokeLedgerList parse rows req =
     (let bound = (\<lambda>s. if TrimSpace s = [] then Inr None else
            (case parse (TrimSpace s) of None \<Rightarrow> Inl (LedgerTime s) | Some t \<Rightarrow> Inr (Some t)))
      in case bound (lq_CreatedAfter req) of
           Inl e \<Rightarrow> Inl e
         | Inr after \<Rightarrow>
             (case bound (lq_CreatedBefore req) of
                Inl e \<Rightarrow> Inl e
              | Inr before \<Rightarrow> LedgerList rows
                  ((lq_Filter req)\<lparr>lf_CreatedAfter := after, lf_CreatedBefore := before\<rparr>) (lq_Cursor req)))"

section \<open>The whole ledger of a story\<close>

text \<open>
  The reject counter reads the pages of a story until no cursor is left; \<open>fuel\<close> bounds the pages,
  and \<^const>\<open>None\<close> says that it was not enough. A failed request ends the reading.
\<close>

fun full_views_loop ::
  "(LedgerFilter \<Rightarrow> cursor \<Rightarrow> ledger_error + Entry list \<times> cursor) \<Rightarrow> string \<Rightarrow> nat \<Rightarrow> cursor \<Rightarrow> LedgerEntryView list \<Rightarrow> LedgerEntryView list option" where
  "full_views_loop ledger_list storyID 0 c out = None"
| "full_views_loop ledger_list storyID (Suc fuel) c out =
     (case ledger_list (anyEntry\<lparr>lf_StoryID := storyID, lf_Limit := 200\<rparr>) c of
        Inl e \<Rightarrow> Some out
      | Inr (entries, next) \<Rightarrow>
          (let out' = out @ map (\<lambda>e. \<lparr>lev_Kind = ey_Kind e, lev_Payload = ey_Payload e\<rparr>) entries in
           if next = NoCursor then Some out' else full_views_loop ledger_list storyID fuel next out'))"

definition fullLedgerViews ::
  "(LedgerFilter \<Rightarrow> cursor \<Rightarrow> ledger_error + Entry list \<times> cursor) \<Rightarrow> nat \<Rightarrow> string \<Rightarrow> LedgerEntryView list option" where
  "fullLedgerViews ledger_list fuel storyID = full_views_loop ledger_list storyID fuel NoCursor []"

end
