(* ===== verification/LedgerProps.thy ===== *)
theory LedgerProps
  imports Ledger Engagement
begin

text \<open>
  The server as a machine of ledger appends and document operations; the pages of the ledger as an
  instance of \<open>keyset_pages\<close>; the flush of engagement events composed with the verb that receives
  them; the status of a story as the fold of its transitions.
\<close>

section \<open>The server\<close>

datatype server_op =
    SAppend Ctx string AppendInput int
  | SAppendMany "string list" "AppendInput list" int
  | SDoc doc_op

fun sv_exec :: "(jval \<Rightarrow> int option option) \<Rightarrow> server_op \<Rightarrow> server \<Rightarrow> server" where
  "sv_exec bigint (SAppend ctx i req now) sv = snd (invokeLedgerAppend bigint ctx i req now sv)"
| "sv_exec bigint (SAppendMany ids ins now) sv =
     (case LedgerAppendMany ids ins now (sv_Ledger sv) of Inl e \<Rightarrow> sv | Inr rows \<Rightarrow> sv\<lparr>sv_Ledger := rows\<rparr>)"
| "sv_exec bigint (SDoc op) sv = sv\<lparr>sv_Docs := doc_exec op (sv_Docs sv)\<rparr>"

definition empty_server :: server where
  "empty_server = \<lparr>sv_Ledger = [], sv_Docs = empty_db\<rparr>"

lemma stored_simps [simp]: "ey_ID (stored e) = ey_ID e" "ey_Kind (stored e) = ey_Kind e"
  "ey_SessionID (stored e) = ey_SessionID e" "ey_Payload (stored e) = ey_Payload e"
  "TrimSpace (ey_StoryID e) \<noteq> [] \<Longrightarrow> stored e = e"
  by (auto simp: stored_def)

lemma entry_of_simps [simp]: "ey_ID (entry_of i a now) = i" "ey_Kind (entry_of i a now) = an_Kind a"
  "ey_SessionID (entry_of i a now) = an_SessionID a" "ey_StoryID (entry_of i a now) = an_StoryID a"
  "ey_Payload (entry_of i a now) = an_Payload a"
  by (auto simp: entry_of_def)

lemma LedgerAppend_Inr:
  "LedgerAppend i a now rows = Inr (e, rows') \<longleftrightarrow>
     TrimSpace (an_Kind a) \<noteq> [] \<and> row_at ey_ID i rows = None \<and> e = entry_of i a now \<and> rows' = rows @ [stored e]"
  by (auto simp: LedgerAppend_def Let_def)

text \<open>The append as one expression.\<close>

lemma invokeLedgerAppend_eq:
  "invokeLedgerAppend bigint ctx newID req now sv =
     (if TrimSpace (an_Kind req) = [] then (Inl LedgerKindRequired, sv)
      else case requireLedgerAppendRole ctx (an_Kind req) of
        Some e \<Rightarrow> (Inl e, sv)
      | None \<Rightarrow>
          (case duplicate_seq bigint req (sv_Ledger sv) of
             Inl e \<Rightarrow> (Inl e, sv)
           | Inr (Some seq) \<Rightarrow> (Inr (Deduplicated (an_SessionID req) (an_StoryID req) seq), sv)
           | Inr None \<Rightarrow>
               (let actor = (if an_Actor req = [] then actorFromContext ctx else an_Actor req) in
                case LedgerAppend newID (req\<lparr>an_Actor := actor\<rparr>) now (sv_Ledger sv) of
                  Inl e \<Rightarrow> (Inl e, sv)
                | Inr (e, rows) \<Rightarrow>
                    (case project_status req now (sv_Docs sv) of
                       Inl d \<Rightarrow> (Inl (ProjectionFailed d), sv\<lparr>sv_Ledger := rows\<rparr>)
                     | Inr db \<Rightarrow> (Inr (Appended e), sv\<lparr>sv_Ledger := rows, sv_Docs := db\<rparr>)))))"
  by (simp add: invokeLedgerAppend_def append_checked_def append_inserted_def append_projected_def Let_def split: option.split sum.split)

text \<open>An append either leaves the server alone or adds one row, with the status projected or not.\<close>

lemma append_cases:
  obtains (same) "snd (invokeLedgerAppend bigint ctx i req now sv) = sv"
      "\<nexists>e. fst (invokeLedgerAppend bigint ctx i req now sv) = Inr (Appended e)"
  | (row) e db where "e = entry_of i (req\<lparr>an_Actor := if an_Actor req = [] then actorFromContext ctx else an_Actor req\<rparr>) now"
      "snd (invokeLedgerAppend bigint ctx i req now sv) = \<lparr>sv_Ledger = sv_Ledger sv @ [stored e], sv_Docs = db\<rparr>"
      "row_at ey_ID i (sv_Ledger sv) = None" "TrimSpace (an_Kind req) \<noteq> []" "requireLedgerAppendRole ctx (an_Kind req) = None"
      "duplicate_seq bigint req (sv_Ledger sv) = Inr None"
      "db = (case project_status req now (sv_Docs sv) of Inl d \<Rightarrow> sv_Docs sv | Inr db' \<Rightarrow> db')"
proof -
  define a where "a = req\<lparr>an_Actor := if an_Actor req = [] then actorFromContext ctx else an_Actor req\<rparr>"
  show ?thesis
  proof (cases "TrimSpace (an_Kind req) \<noteq> [] \<and> requireLedgerAppendRole ctx (an_Kind req) = None \<and>
      duplicate_seq bigint req (sv_Ledger sv) = Inr None \<and> row_at ey_ID i (sv_Ledger sv) = None")
    case False
    then have "snd (invokeLedgerAppend bigint ctx i req now sv) = sv \<and>
        \<not> (\<exists>e. fst (invokeLedgerAppend bigint ctx i req now sv) = Inr (Appended e))"
      by (auto simp: invokeLedgerAppend_eq Let_def LedgerAppend_def split: option.splits sum.splits)
    then show ?thesis using same by blast
  next
    case True
    have "TrimSpace (an_Kind a) \<noteq> []" using True by (simp add: a_def)
    then have "LedgerAppend i a now (sv_Ledger sv) = Inr (entry_of i a now, sv_Ledger sv @ [stored (entry_of i a now)])"
      using True LedgerAppend_Inr by metis
    then have "snd (invokeLedgerAppend bigint ctx i req now sv) =
        \<lparr>sv_Ledger = sv_Ledger sv @ [stored (entry_of i a now)],
         sv_Docs = (case project_status req now (sv_Docs sv) of Inl d \<Rightarrow> sv_Docs sv | Inr db' \<Rightarrow> db')\<rparr>"
      using True by (simp add: invokeLedgerAppend_eq Let_def a_def [symmetric] split: sum.splits)
    then show ?thesis using row [of "entry_of i a now"] True a_def by blast
  qed
qed

lemma append_many_ok:
  "LedgerAppendMany ids ins now rows = Inr rows' \<Longrightarrow> unique_key ey_ID rows \<Longrightarrow> unique_key ey_ID rows' \<and> (\<exists>new. rows' = rows @ new)"
  by (auto simp: LedgerAppendMany_def Let_def unique_key_def simp del: map_append split: if_splits option.splits)

lemma unique_key_snoc: "unique_key key rows \<Longrightarrow> row_at key (key r) rows = None \<Longrightarrow> unique_key key (rows @ [r])"
  by (auto simp: unique_key_def row_at_None)

lemma ledger_step:
  "unique_key ey_ID (sv_Ledger sv) \<Longrightarrow>
   unique_key ey_ID (sv_Ledger (sv_exec bigint op sv)) \<and> (\<exists>new. sv_Ledger (sv_exec bigint op sv) = sv_Ledger sv @ new)"
proof (cases op)
  case (SAppend ctx i req now)
  assume u: "unique_key ey_ID (sv_Ledger sv)"
  show ?thesis
  proof (cases rule: append_cases [of bigint ctx i req now sv])
    case (row e db)
    then show ?thesis using u SAppend by (auto intro!: unique_key_snoc)
  qed (use u SAppend in simp)
next
  case (SAppendMany ids ins now)
  assume "unique_key ey_ID (sv_Ledger sv)"
  then show ?thesis using SAppendMany append_many_ok by (auto split: sum.splits)
qed simp

lemma ledger_unique_from:
  "unique_key ey_ID (sv_Ledger sv) \<Longrightarrow> unique_key ey_ID (sv_Ledger (fold (sv_exec bigint) ops sv))"
  using ledger_step by (induction ops arbitrary: sv) auto

lemma ledger_grows_from:
  "unique_key ey_ID (sv_Ledger sv) \<Longrightarrow> \<exists>new. sv_Ledger (fold (sv_exec bigint) ops sv) = sv_Ledger sv @ new"
proof (induction ops arbitrary: sv)
  case (Cons op ops)
  obtain a where "sv_Ledger (sv_exec bigint op sv) = sv_Ledger sv @ a" "unique_key ey_ID (sv_Ledger (sv_exec bigint op sv))"
    using ledger_step [OF Cons.prems] by blast
  then show ?case using Cons.IH [of "sv_exec bigint op sv"] by auto
qed simp

lemma ledger_unique: "unique_key ey_ID (sv_Ledger (fold (sv_exec bigint) ops empty_server))"
  by (rule ledger_unique_from) (simp add: empty_server_def unique_key_def)

section \<open>Concrete instances\<close>

definition demo_bigint :: "jval \<Rightarrow> int option option" where
  "demo_bigint j = (case j of JInt n \<Rightarrow> (if int64 n then Some (Some n) else None) | JNull \<Rightarrow> Some None | _ \<Rightarrow> None)"

definition demo_admin :: Ctx where
  "demo_admin = \<lparr>cx_User = Some \<lparr>us_ID = ''a'', us_Role = ''admin''\<rparr>, cx_APIKeyProject = [], cx_APIKeyRole = [], cx_AgentRole = None\<rparr>"

definition demo_req :: "string \<Rightarrow> string \<Rightarrow> payload \<Rightarrow> AppendInput" where
  "demo_req kind story p = \<lparr>an_StoryID = story, an_ProjectID = ''p'', an_WorkspaceID = [], an_SessionID = ''s'', an_RunID = [],
     an_Kind = kind, an_Actor = [], an_Body = [], an_Payload = p, an_Refs = []\<rparr>"

definition demo_ops :: "server_op list" where
  "demo_ops = [SAppend demo_admin ''e2'' (demo_req ''comment'' ''y'' []) 5,
     SAppend demo_admin ''e3'' (demo_req ''comment'' ''z'' []) 5,
     SAppend demo_admin ''e1'' (demo_req ''engagement:tick'' ''y'' [(''seq'', JInt 7)]) 5]"

definition demo_sv :: server where
  "demo_sv = fold (sv_exec demo_bigint) demo_ops empty_server"

section \<open>Pages\<close>

definition ledger_listing :: "Entry list \<Rightarrow> LedgerFilter \<Rightarrow> Entry list" where
  "ledger_listing rows f = (if unfiltered f then [] else sort_key entry_key (filter (entry_matches f) rows))"

definition ledger_page :: "Entry list \<Rightarrow> LedgerFilter \<Rightarrow> (int \<times> string) option \<Rightarrow> Entry list \<times> (int \<times> string) option" where
  "ledger_page rows f c = (case LedgerList rows f (to_cursor c) of
     Inl e \<Rightarrow> ([], None) | Inr (es, next) \<Rightarrow> (es, of_cursor next))"

lemma ledger_page_eq:
  "ledger_page rows f c = (if unfiltered f then ([], None) else cut entry_key (list_limit 200 2000 (lf_Limit f))
     (sort_key entry_key (filter (\<lambda>e. case c of None \<Rightarrow> True | Some k \<Rightarrow> k < entry_key e) (filter (entry_matches f) rows))))"
  using list_limit_pos [of 200 2000 "lf_Limit f"]
  by (auto simp: ledger_page_def LedgerList_def Let_def to_cursor_def of_cursor_def cut_def min_def entry_key_def split: option.splits)

interpretation ledger_pages: keyset_pages "unique_key ey_ID" ledger_listing ledger_page "\<lambda>f. list_limit 200 2000 (lf_Limit f)" entry_key
proof
  fix f :: LedgerFilter and rows pre r post
  show "0 < list_limit 200 2000 (lf_Limit f)" by (simp add: list_limit_pos)
  show "ledger_page rows f None = cut entry_key (list_limit 200 2000 (lf_Limit f)) (ledger_listing rows f)"
    by (simp add: ledger_page_eq ledger_listing_def cut_def)
  assume ok: "unique_key ey_ID rows" and l: "ledger_listing rows f = pre @ r # post"
  then have f: "\<not> unfiltered f" "sort_key entry_key (filter (entry_matches f) rows) = pre @ r # post"
    by (auto simp: ledger_listing_def split: if_splits)
  have "distinct (map entry_key rows)"
    using ok by (induction rows) (auto simp: unique_key_def entry_key_def)
  then have "distinct (map entry_key (filter (entry_matches f) rows))" by (simp add: distinct_map_filter)
  from sort_key_strict [OF this] have "sorted_wrt (<) (map entry_key (pre @ r # post))" unfolding f(2) .
  from behind_ascending [OF this]
  show "ledger_page rows f (Some (entry_key r)) = cut entry_key (list_limit 200 2000 (lf_Limit f)) post"
    using f by (simp add: ledger_page_eq filter_sort_key [symmetric] del: filter_filter)
qed

lemma full_views_walk:
  "full_views_loop (LedgerList rows) story n (to_cursor c) out =
     (case walk (ledger_page rows (anyEntry\<lparr>lf_StoryID := story, lf_Limit := 200\<rparr>)) n c of
        (ps, done) \<Rightarrow> if done then Some (out @ map (\<lambda>e. \<lparr>lev_Kind = ey_Kind e, lev_Payload = ey_Payload e\<rparr>) (concat ps)) else None)"
proof (induction n arbitrary: c out)
  case (Suc n)
  let ?f = "anyEntry\<lparr>lf_StoryID := story, lf_Limit := 200\<rparr>"
  show ?case
  proof (cases "LedgerList rows ?f (to_cursor c)")
    case (Inl e)
    then show ?thesis by (simp add: ledger_page_def)
  next
    case (Inr r)
    obtain es nxt where r: "r = (es, nxt)" by fastforce
    have "nxt \<noteq> BadCursor"
      using Inr unfolding r by (auto simp: LedgerList_def Let_def split: if_splits cursor.splits)
    then have n: "to_cursor (of_cursor nxt) = nxt" "(nxt = NoCursor) = (of_cursor nxt = None)"
      by (cases nxt; simp add: to_cursor_def of_cursor_def)+
    have p: "ledger_page rows ?f c = (es, of_cursor nxt)" using Inr r by (simp add: ledger_page_def)
    show ?thesis
    proof (cases "of_cursor nxt")
      case None
      then show ?thesis using Inr r p n by simp
    next
      case (Some k)
      then have "full_views_loop (LedgerList rows) story (Suc n) (to_cursor c) out =
          full_views_loop (LedgerList rows) story n (to_cursor (Some k)) (out @ map (\<lambda>e. \<lparr>lev_Kind = ey_Kind e, lev_Payload = ey_Payload e\<rparr>) es)"
        using Inr r n by (simp add: Let_def)
      then show ?thesis using p Some unfolding Suc.IH by (auto split: prod.splits)
    qed
  qed
qed simp

text \<open>
  C38: the reject counter sees the whole ledger: on every reachable server, with fuel for more pages
  than the ledger fills, reading a story's pages ends, and returns each row of the story once and in
  the order of its time and id.
\<close>

theorem full_ledger_complete:
  assumes "sv = fold (sv_exec bigint) ops empty_server" and "length (sv_Ledger sv) < fuel * 200"
    and "TrimSpace story \<noteq> []"
  shows "fullLedgerViews (LedgerList (sv_Ledger sv)) fuel story =
    Some (map (\<lambda>e. \<lparr>lev_Kind = ey_Kind e, lev_Payload = ey_Payload e\<rparr>)
      (sort_key entry_key (filter (\<lambda>e. ey_StoryID e = story) (sv_Ledger sv))))"
proof -
  let ?f = "anyEntry\<lparr>lf_StoryID := story, lf_Limit := 200\<rparr>" and ?rows = "sv_Ledger sv"
  have "entry_matches ?f = (\<lambda>e. ey_StoryID e = story)" and "\<not> unfiltered ?f"
    using assms(3) by (auto simp: entry_matches_def anyEntry_def cond_eq_def trimNonEmpty_def unfiltered_def)
  then have l: "ledger_listing ?rows ?f = sort_key entry_key (filter (\<lambda>e. ey_StoryID e = story) ?rows)"
    by (simp add: ledger_listing_def)
  have "length (filter (\<lambda>e. ey_StoryID e = story) ?rows) < fuel * 200" using assms(2) length_filter_le by (meson le_less_trans)
  then have "length (ledger_listing ?rows ?f) < fuel * list_limit 200 2000 (lf_Limit ?f)"
    by (simp add: l list_limit_def)
  from ledger_pages.walk_all [OF _ this] ledger_unique [of bigint ops]
  have "concat (fst (walk (ledger_page ?rows ?f) fuel None)) = ledger_listing ?rows ?f \<and> snd (walk (ledger_page ?rows ?f) fuel None)"
    unfolding assms(1) by blast
  then show ?thesis
    using full_views_walk [of ?rows story fuel None "[]"] l
    by (simp add: fullLedgerViews_def to_cursor_def split: prod.splits)
qed


theorem full_ledger_complete_witness:
  "fullLedgerViews (LedgerList (sv_Ledger demo_sv)) 1 ''y'' =
     Some [\<lparr>lev_Kind = ''engagement:tick'', lev_Payload = [(''seq'', JInt 7)]\<rparr>, \<lparr>lev_Kind = ''comment'', lev_Payload = []\<rparr>]"
proof -
  have "length (sv_Ledger demo_sv) < 1 * 200" "TrimSpace ''y'' \<noteq> []" by code_simp+
  from full_ledger_complete [OF demo_sv_def this]
  have "fullLedgerViews (LedgerList (sv_Ledger demo_sv)) 1 ''y'' =
    Some (map (\<lambda>e. \<lparr>lev_Kind = ey_Kind e, lev_Payload = ey_Payload e\<rparr>)
      (sort_key entry_key (filter (\<lambda>e. ey_StoryID e = ''y'') (sv_Ledger demo_sv))))" .
  moreover have "map (\<lambda>e. \<lparr>lev_Kind = ey_Kind e, lev_Payload = ey_Payload e\<rparr>)
      (sort_key entry_key (filter (\<lambda>e. ey_StoryID e = ''y'') (sv_Ledger demo_sv))) =
    [\<lparr>lev_Kind = ''engagement:tick'', lev_Payload = [(''seq'', JInt 7)]\<rparr>, \<lparr>lev_Kind = ''comment'', lev_Payload = []\<rparr>]"
    by code_simp
  ultimately show ?thesis by simp
qed

section \<open>Replays\<close>

definition casts :: "(jval \<Rightarrow> int option option) \<Rightarrow> bool" where
  "casts bigint \<longleftrightarrow> (\<forall>n. int64 n \<longrightarrow> bigint (JInt n) = Some (Some n))"

text \<open>The number the database reads in a row, and the row that answers for an event.\<close>

definition row_seq :: "(jval \<Rightarrow> int option option) \<Rightarrow> Entry \<Rightarrow> int option" where
  "row_seq bigint e = (case sql_field (ey_Payload e) ''seq'' of None \<Rightarrow> None | Some j \<Rightarrow> (case bigint j of None \<Rightarrow> None | Some q \<Rightarrow> q))"

definition row_of :: "(jval \<Rightarrow> int option option) \<Rightarrow> string \<Rightarrow> string \<Rightarrow> int \<Rightarrow> Entry \<Rightarrow> bool" where
  "row_of bigint sessionID storyID q e \<longleftrightarrow> HasPrefix (ey_Kind e) engagement_prefix \<and> ey_SessionID e = sessionID \<and> ey_StoryID e = storyID \<and>
     row_seq bigint e = Some q"

lemma engagement_like: "like k (engagement_prefix @ ''%'') = HasPrefix k engagement_prefix"
  by (rule like_prefix) code_simp

lemma seq_scan_False: "seq_scan bigint q es = Inr False \<Longrightarrow> e \<in> set es \<Longrightarrow> row_seq bigint e \<noteq> Some q"
  by (induction es) (auto simp: row_seq_def split: option.splits if_splits)

lemma seq_scan_append:
  "seq_scan bigint q (es @ fs) = (case seq_scan bigint q es of Inr False \<Rightarrow> seq_scan bigint q fs | r \<Rightarrow> r)"
  by (induction es) (auto split: option.splits bool.splits)

lemma seq_rows_append: "seq_rows a b (xs @ ys) = seq_rows a b xs @ seq_rows a b ys"
  by (simp add: seq_rows_def)

lemma seq_exists_grows:
  "EngagementSeqExists bigint rows a b q = r \<Longrightarrow> r \<noteq> Inr False \<Longrightarrow> EngagementSeqExists bigint (rows @ new) a b q = r"
  by (auto simp: EngagementSeqExists_def seq_rows_append seq_scan_append split: sum.splits bool.splits if_splits)

lemma duplicate_numbered:
  "HasPrefix (an_Kind req) engagement_prefix \<Longrightarrow> engagementSeq (an_Payload req) = Some q \<Longrightarrow>
   duplicate_seq bigint req rows = (case EngagementSeqExists bigint rows (an_SessionID req) (an_StoryID req) q of
     Inl e \<Rightarrow> Inl e | Inr t \<Rightarrow> Inr (if t then Some q else None))"
  by (auto simp: duplicate_seq_def split: sum.splits)

text \<open>A request for a numbered event, and what its passed check saw.\<close>

definition numbers_event :: "AppendInput \<Rightarrow> int \<Rightarrow> bool" where
  "numbers_event req q \<longleftrightarrow> HasPrefix (an_Kind req) engagement_prefix \<and> TrimSpace (an_SessionID req) \<noteq> [] \<and> TrimSpace (an_StoryID req) \<noteq> [] \<and>
     engagementSeq (an_Payload req) = Some q"

lemma checked_saw_none:
  assumes "append_checked bigint ctx req rows = Inr None" and "numbers_event req q" and "e \<in> set rows"
  shows "\<not> row_of bigint (an_SessionID req) (an_StoryID req) q e"
proof
  assume r: "row_of bigint (an_SessionID req) (an_StoryID req) q e"
  have n: "HasPrefix (an_Kind req) engagement_prefix" "TrimSpace (an_SessionID req) \<noteq> []" "TrimSpace (an_StoryID req) \<noteq> []"
    "engagementSeq (an_Payload req) = Some q" using assms(2) by (simp_all add: numbers_event_def)
  have "duplicate_seq bigint req rows = Inr None" using assms(1) by (auto simp: append_checked_def map_sum_Inr split: if_splits option.splits)
  then have "EngagementSeqExists bigint rows (an_SessionID req) (an_StoryID req) q = Inr False"
    unfolding duplicate_numbered [OF n(1,4)] by (auto split: sum.splits if_splits)
  then have "seq_scan bigint q (seq_rows (an_SessionID req) (an_StoryID req) rows) = Inr False" using n(2,3) by (simp add: EngagementSeqExists_def)
  moreover have "e \<in> set (seq_rows (an_SessionID req) (an_StoryID req) rows)"
    using r assms(3) by (simp add: seq_rows_def engagement_like row_of_def)
  ultimately show False using seq_scan_False r unfolding row_of_def by blast
qed

text \<open>
  Appends under interleaving: the requests whose check has passed, with the number of rows it saw; \<open>in_seen\<close> has that number for each row of the
  table. The batches of the log handler write without a check, under kinds of their own.
\<close>

record intake =
  in_sv :: server
  in_checked :: "(Ctx \<times> AppendInput \<times> nat) list"
  in_seen :: "nat list"

inductive intake_step :: "(jval \<Rightarrow> int option option) \<Rightarrow> intake \<Rightarrow> intake \<Rightarrow> bool" for bigint where
  check: "append_checked bigint ctx req (sv_Ledger (in_sv w)) = Inr None \<Longrightarrow>
    intake_step bigint w (w\<lparr>in_checked := (ctx, req, length (sv_Ledger (in_sv w))) # in_checked w\<rparr>)"
| insert: "(ctx, req, n) \<in> set (in_checked w) \<Longrightarrow> append_inserted ctx newID req now (sv_Ledger (in_sv w)) = Inr (e, rows) \<Longrightarrow>
    intake_step bigint w (w\<lparr>in_sv := (in_sv w)\<lparr>sv_Ledger := rows\<rparr>, in_checked := remove1 (ctx, req, n) (in_checked w), in_seen := in_seen w @ [n]\<rparr>)"
| project: "append_projected req now e (in_sv w) = (r, sv) \<Longrightarrow> intake_step bigint w (w\<lparr>in_sv := sv\<rparr>)"
| batch: "(\<And>a. a \<in> set ins \<Longrightarrow> HasPrefix (an_Kind a) LogKindPrefix) \<Longrightarrow> LedgerAppendMany ids ins now (sv_Ledger (in_sv w)) = Inr rows \<Longrightarrow>
    intake_step bigint w (w\<lparr>in_sv := (in_sv w)\<lparr>sv_Ledger := rows\<rparr>,
      in_seen := in_seen w @ replicate (length rows - length (sv_Ledger (in_sv w))) 0\<rparr>)"
| document: "intake_step bigint w (w\<lparr>in_sv := (in_sv w)\<lparr>sv_Docs := doc_exec op (sv_Docs (in_sv w))\<rparr>\<rparr>)"

definition no_intake :: intake where
  "no_intake = \<lparr>in_sv = empty_server, in_checked = [], in_seen = []\<rparr>"

text \<open>A row of a numbered event, as a request for it.\<close>

definition row_numbered :: "Entry \<Rightarrow> int \<Rightarrow> bool" where
  "row_numbered e q \<longleftrightarrow> HasPrefix (ey_Kind e) engagement_prefix \<and> TrimSpace (ey_SessionID e) \<noteq> [] \<and> TrimSpace (ey_StoryID e) \<noteq> [] \<and>
     engagementSeq (ey_Payload e) = Some q"

definition saw_none :: "(jval \<Rightarrow> int option option) \<Rightarrow> Entry list \<Rightarrow> Entry \<Rightarrow> bool" where
  "saw_none bigint rows e \<longleftrightarrow> (\<forall>x \<in> set rows. \<forall>q. row_numbered e q \<longrightarrow> \<not> row_of bigint (ey_SessionID e) (ey_StoryID e) q x)"

definition intake_ok :: "(jval \<Rightarrow> int option option) \<Rightarrow> intake \<Rightarrow> bool" where
  "intake_ok bigint w \<longleftrightarrow> length (in_seen w) = length (sv_Ledger (in_sv w)) \<and>
     (\<forall>ctx req n. (ctx, req, n) \<in> set (in_checked w) \<longrightarrow> n \<le> length (sv_Ledger (in_sv w)) \<and>
        append_checked bigint ctx req (take n (sv_Ledger (in_sv w))) = Inr None) \<and>
     (\<forall>j < length (sv_Ledger (in_sv w)). in_seen w ! j \<le> j \<and> saw_none bigint (take (in_seen w ! j) (sv_Ledger (in_sv w))) (sv_Ledger (in_sv w) ! j))"

lemma intakeD:
  assumes "intake_ok bigint w"
  shows "length (in_seen w) = length (sv_Ledger (in_sv w))"
    and "\<And>ctx req n. (ctx, req, n) \<in> set (in_checked w) \<Longrightarrow> n \<le> length (sv_Ledger (in_sv w)) \<and>
      append_checked bigint ctx req (take n (sv_Ledger (in_sv w))) = Inr None"
    and "\<And>j. j < length (sv_Ledger (in_sv w)) \<Longrightarrow> in_seen w ! j \<le> j \<and>
      saw_none bigint (take (in_seen w ! j) (sv_Ledger (in_sv w))) (sv_Ledger (in_sv w) ! j)"
  using assms unfolding intake_ok_def by blast+

text \<open>New rows keep the invariant when each was checked against the rows it saw.\<close>

lemma intake_grows:
  assumes ok: "intake_ok bigint w" and rows: "sv_Ledger (in_sv w') = sv_Ledger (in_sv w) @ new" and seen: "in_seen w' = in_seen w @ ns"
    and len: "length ns = length new"
    and checked: "\<And>ctx req n. (ctx, req, n) \<in> set (in_checked w') \<Longrightarrow> (ctx, req, n) \<in> set (in_checked w) \<or>
      n = length (sv_Ledger (in_sv w)) \<and> append_checked bigint ctx req (sv_Ledger (in_sv w)) = Inr None"
    and new: "\<And>k. k < length new \<Longrightarrow> ns ! k \<le> length (sv_Ledger (in_sv w)) \<and> saw_none bigint (take (ns ! k) (sv_Ledger (in_sv w))) (new ! k)"
  shows "intake_ok bigint w'"
proof -
  let ?L = "sv_Ledger (in_sv w)"
  note d = intakeD [OF ok]
  have "n \<le> length (?L @ new) \<and> append_checked bigint ctx req (take n (?L @ new)) = Inr None" if "(ctx, req, n) \<in> set (in_checked w')" for ctx req n
    using d(2) [of ctx req n] checked [OF that] by auto
  moreover have "(in_seen w @ ns) ! j \<le> j \<and> saw_none bigint (take ((in_seen w @ ns) ! j) (?L @ new)) ((?L @ new) ! j)"
    if j: "j < length (?L @ new)" for j
  proof (cases "j < length ?L")
    case True
    then show ?thesis using d(3) [OF True] d(1) by (simp add: nth_append)
  next
    case False
    then have "j - length ?L < length new" using j by simp
    from new [OF this] show ?thesis using False d(1) by (simp add: nth_append)
  qed
  ultimately show ?thesis unfolding intake_ok_def rows seen using d(1) len by simp
qed

lemma row_numbered_stored [simp]: "row_numbered (stored e) q = row_numbered e q" "row_numbered e q \<Longrightarrow> stored e = e"
proof -
  have "TrimSpace [] = []" by code_simp
  then show "row_numbered (stored e) q = row_numbered e q" by (auto simp: row_numbered_def stored_def)
  show "row_numbered e q \<Longrightarrow> stored e = e" by (auto simp: row_numbered_def stored_def)
qed

lemma log_rows_unnumbered: "HasPrefix (ey_Kind e) LogKindPrefix \<Longrightarrow> \<not> row_numbered e q"
  by (auto simp: row_numbered_def HasPrefix_iff LogKindPrefix_def engagement_prefix_def)

lemma batch_rows:
  "LedgerAppendMany ids ins now rows = Inr rows' \<Longrightarrow> \<exists>new. rows' = rows @ new \<and> (\<forall>e \<in> set new. \<exists>a \<in> set ins. ey_Kind e = an_Kind a)"
  by (fastforce simp: LedgerAppendMany_def Let_def dest: set_zip_rightD split: if_splits option.splits)

lemma intake_step_ok:
  assumes "intake_step bigint w w'" and ok: "intake_ok bigint w"
  shows "intake_ok bigint w'"
  using assms(1)
proof (cases rule: intake_step.cases)
  case (check ctx req)
  then show ?thesis by (intro intake_grows [OF ok, where new = "[]" and ns = "[]"]) auto
next
  case (insert ctx req n newID now e rows)
  let ?e = "entry_of newID (req\<lparr>an_Actor := (if an_Actor req = [] then actorFromContext ctx else an_Actor req)\<rparr>) now"
  have r: "rows = sv_Ledger (in_sv w) @ [stored ?e]" using insert(3) by (auto simp: append_inserted_def LedgerAppend_Inr)
  note c = intakeD(2) [OF ok insert(2)]
  have s: "saw_none bigint (take n (sv_Ledger (in_sv w))) (stored ?e)"
    unfolding saw_none_def
  proof (intro ballI allI impI)
    fix x q assume x: "x \<in> set (take n (sv_Ledger (in_sv w)))" and q: "row_numbered (stored ?e) q"
    then have "numbers_event req q" "stored ?e = ?e" by (simp_all, simp add: row_numbered_def numbers_event_def)
    then show "\<not> row_of bigint (ey_SessionID (stored ?e)) (ey_StoryID (stored ?e)) q x" using checked_saw_none [OF c [THEN conjunct2] _ x] by simp
  qed
  show ?thesis by (rule intake_grows [OF ok, where new = "[stored ?e]" and ns = "[n]"])
    (use insert(1) r c s in \<open>auto intro: set_remove1_subset [THEN subsetD]\<close>)
next
  case (project req now e r sv)
  then have "sv_Ledger sv = sv_Ledger (in_sv w)" by (auto simp: append_projected_def split: sum.splits)
  then show ?thesis using project(1) by (intro intake_grows [OF ok, where new = "[]" and ns = "[]"]) auto
next
  case (batch ins ids now rows)
  obtain new where n: "rows = sv_Ledger (in_sv w) @ new" "\<forall>e \<in> set new. \<exists>a \<in> set ins. ey_Kind e = an_Kind a"
    using batch_rows [OF batch(3)] by blast
  have s: "saw_none bigint rs (new ! k)" if "k < length new" for rs k
    using n(2) batch(2) nth_mem [OF that] log_rows_unnumbered unfolding saw_none_def by metis
  show ?thesis by (rule intake_grows [OF ok, where new = new and ns = "replicate (length new) 0"]) (use batch(1) n(1) s in auto)
next
  case (document op)
  then show ?thesis by (intro intake_grows [OF ok, where new = "[]" and ns = "[]"]) auto
qed

lemma intake_reach: "(intake_step bigint)\<^sup>*\<^sup>* w w' \<Longrightarrow> intake_ok bigint w \<Longrightarrow> intake_ok bigint w'"
  by (induction rule: rtranclp_induct) (auto intro: intake_step_ok)

lemma no_intake_ok: "intake_ok bigint no_intake"
  by (simp add: intake_ok_def no_intake_def empty_server_def)

text \<open>
  C39: a replayed event adds no row. However the statements of concurrent appends, of the log handler's batches and of the document operations
  interleave: when the row \<open>j\<close> records a numbered event, and the row \<open>i\<close> is one in which the database reads the same session, story and number, then
  the check behind row \<open>j\<close> ran when row \<open>i\<close> was not there. So the rows of one event come from requests that overlapped; and a
  request for an event whose row is there changes nothing, whoever sends it and whatever else it says.
\<close>

theorem replay_adds_no_row:
  assumes "(intake_step bigint)\<^sup>*\<^sup>* no_intake w"
  shows "(\<forall>i j q. i < length (sv_Ledger (in_sv w)) \<longrightarrow> j < length (sv_Ledger (in_sv w)) \<longrightarrow> row_numbered (sv_Ledger (in_sv w) ! j) q \<longrightarrow>
      row_of bigint (ey_SessionID (sv_Ledger (in_sv w) ! j)) (ey_StoryID (sv_Ledger (in_sv w) ! j)) q (sv_Ledger (in_sv w) ! i) \<longrightarrow>
      in_seen w ! j \<le> i) \<and>
    (\<forall>e \<in> set (sv_Ledger (in_sv w)). \<forall>ctx newID req now q. numbers_event req q \<longrightarrow> row_of bigint (an_SessionID req) (an_StoryID req) q e \<longrightarrow>
      snd (invokeLedgerAppend bigint ctx newID req now (in_sv w)) = in_sv w)"
proof (intro conjI allI ballI impI)
  let ?L = "sv_Ledger (in_sv w)"
  fix i j q assume a: "i < length ?L" "j < length ?L" "row_numbered (?L ! j) q" "row_of bigint (ey_SessionID (?L ! j)) (ey_StoryID (?L ! j)) q (?L ! i)"
  show "in_seen w ! j \<le> i"
  proof (rule ccontr)
    assume "\<not> in_seen w ! j \<le> i"
    then have "?L ! i \<in> set (take (in_seen w ! j) ?L)" using a(1) by (auto simp: in_set_conv_nth intro!: exI [of _ i])
    then show False using intakeD(3) [OF intake_reach [OF assms no_intake_ok] a(2)] a(3,4) unfolding saw_none_def by blast
  qed
next
  fix e ctx newID req now q assume e: "e \<in> set (sv_Ledger (in_sv w))" "numbers_event req q" "row_of bigint (an_SessionID req) (an_StoryID req) q e"
  have "append_checked bigint ctx req (sv_Ledger (in_sv w)) \<noteq> Inr None" using checked_saw_none [OF _ e(2,1)] e(3) by blast
  then show "snd (invokeLedgerAppend bigint ctx newID req now (in_sv w)) = in_sv w"
    by (auto simp: invokeLedgerAppend_def split: sum.splits option.splits)
qed

lemma demo_casts: "casts demo_bigint"
  by (simp add: casts_def demo_bigint_def)

text \<open>Two requests for one event whose checks run before either insert: both rows are written.\<close>

definition racing :: AppendInput where
  "racing = demo_req ''engagement:engage'' ''y'' [(''seq'', JInt 7)]"

definition race_row :: "string \<Rightarrow> Entry" where
  "race_row i = stored (entry_of i (racing\<lparr>an_Actor := (if an_Actor racing = [] then actorFromContext demo_admin else an_Actor racing)\<rparr>) 5)"

definition raced :: intake where
  "raced = \<lparr>in_sv = empty_server\<lparr>sv_Ledger := [race_row ''e1'', race_row ''e2'']\<rparr>, in_checked = [], in_seen = [0, 0]\<rparr>"

lemma race_runs: "(intake_step demo_bigint)\<^sup>*\<^sup>* no_intake raced"
proof -
  let ?c = "(demo_admin, racing, 0 :: nat)"
  have c: "append_checked demo_bigint demo_admin racing [] = Inr None" by code_simp
  have k: "TrimSpace (an_Kind racing) \<noteq> []" by code_simp
  have "ey_ID (race_row ''e1'') = ''e1''" by (simp add: race_row_def)
  then have r: "append_inserted demo_admin ''e1'' racing 5 [] = Inr (entry_of ''e1'' (racing\<lparr>an_Actor := (if an_Actor racing = [] then actorFromContext demo_admin
      else an_Actor racing)\<rparr>) 5, [race_row ''e1''])"
    "append_inserted demo_admin ''e2'' racing 5 [race_row ''e1''] = Inr (entry_of ''e2'' (racing\<lparr>an_Actor := (if an_Actor racing = [] then actorFromContext demo_admin
      else an_Actor racing)\<rparr>) 5, [race_row ''e1'', race_row ''e2''])"
    using k by (simp_all add: append_inserted_def LedgerAppend_Inr race_row_def)
  have "intake_step demo_bigint no_intake (no_intake\<lparr>in_checked := [?c]\<rparr>)"
    using intake_step.check [of demo_bigint demo_admin racing no_intake] c by (simp add: no_intake_def empty_server_def)
  moreover have "intake_step demo_bigint (no_intake\<lparr>in_checked := [?c]\<rparr>) (no_intake\<lparr>in_checked := [?c, ?c]\<rparr>)"
    using intake_step.check [of demo_bigint demo_admin racing "no_intake\<lparr>in_checked := [?c]\<rparr>"] c by (simp add: no_intake_def empty_server_def)
  moreover have "intake_step demo_bigint (no_intake\<lparr>in_checked := [?c, ?c]\<rparr>)
      \<lparr>in_sv = empty_server\<lparr>sv_Ledger := [race_row ''e1'']\<rparr>, in_checked = [?c], in_seen = [0]\<rparr>" (is "intake_step _ ?v _")
    using intake_step.insert [of demo_admin racing 0 ?v "''e1''" 5 _ _ demo_bigint] r(1) by (simp add: no_intake_def empty_server_def)
  moreover have "intake_step demo_bigint \<lparr>in_sv = empty_server\<lparr>sv_Ledger := [race_row ''e1'']\<rparr>, in_checked = [?c], in_seen = [0]\<rparr> raced" (is "intake_step _ ?u _")
    using intake_step.insert [of demo_admin racing 0 ?u "''e2''" 5 _ _ demo_bigint] r(2) by (simp add: raced_def)
  ultimately show ?thesis by (meson converse_rtranclp_into_rtranclp rtranclp.rtrancl_refl)
qed

theorem replay_adds_no_row_witness:
  "length (sv_Ledger (in_sv raced)) = 2 \<and> in_seen raced ! 1 \<le> 0 \<and>
   snd (invokeLedgerAppend demo_bigint demo_admin ''e9'' (racing\<lparr>an_Body := ''again''\<rparr>) 99 (in_sv raced)) = in_sv raced"
proof -
  have l: "sv_Ledger (in_sv raced) = [race_row ''e1'', race_row ''e2'']" by (simp add: raced_def)
  have f: "row_numbered (race_row ''e2'') 7" "row_of demo_bigint (ey_SessionID (race_row ''e2'')) (ey_StoryID (race_row ''e2'')) 7 (race_row ''e1'')"
    "numbers_event (racing\<lparr>an_Body := ''again''\<rparr>) 7"
    "row_of demo_bigint (an_SessionID (racing\<lparr>an_Body := ''again''\<rparr>)) (an_StoryID (racing\<lparr>an_Body := ''again''\<rparr>)) 7 (race_row ''e1'')"
    unfolding row_numbered_def row_of_def numbers_event_def by code_simp+
  note t = replay_adds_no_row [OF race_runs, unfolded l]
  have "in_seen raced ! 1 \<le> 0" using t [THEN conjunct1, rule_format, of 0 1 7] f(1,2) by simp
  moreover have "race_row ''e1'' \<in> set [race_row ''e1'', race_row ''e2'']" by simp
  ultimately show ?thesis using t [THEN conjunct2, rule_format, OF _ f(3,4), of demo_admin "''e9''" 99] l by simp
qed

text \<open>
  A number under another spelling of its name is no key: the server reads it and the database does not, so an event with \<open>Seq\<close> for \<open>seq\<close>
  that is sent twice, one request after the other, has two rows.
\<close>

lemma misspelled_seq_repeats:
  "engagementSeq [(''Seq'', JInt 7)] = Some 7"
  "length (sv_Ledger (snd (invokeLedgerAppend demo_bigint demo_admin ''e2'' (demo_req ''engagement:tick'' ''y'' [(''Seq'', JInt 7)]) 6
     (snd (invokeLedgerAppend demo_bigint demo_admin ''e1'' (demo_req ''engagement:tick'' ''y'' [(''Seq'', JInt 7)]) 5 empty_server))))) = 2"
  by code_simp+

section \<open>The flush and the server\<close>

definition sync_request :: "(gotime \<Rightarrow> string) \<Rightarrow> string \<Rightarrow> LoggedEvent \<Rightarrow> AppendInput" where
  "sync_request fmt projectID ev = (let e = le_Event ev in
     \<lparr>an_StoryID = ev_Story e, an_ProjectID = projectID, an_WorkspaceID = [], an_SessionID = ev_Session e, an_RunID = [],
      an_Kind = engagement_prefix @ ev_Kind e, an_Actor = [], an_Body = ev_Phase e,
      an_Payload = [(''phase'', JStr (ev_Phase e)), (''seq'', JInt (le_Seq ev)), (''lease_until'', JStr (fmt (ev_LeaseUntil e)))],
      an_Refs = []\<rparr>)"

text \<open>The id and the time the server gives are functions of the server's state.\<close>

definition realLedgerAppender ::
  "(jval \<Rightarrow> int option option) \<Rightarrow> Ctx \<Rightarrow> (server \<Rightarrow> string) \<Rightarrow> (server \<Rightarrow> int) \<Rightarrow> (gotime \<Rightarrow> string) \<Rightarrow> string \<Rightarrow>
   LoggedEvent \<Rightarrow> server \<Rightarrow> bool \<times> server" where
  "realLedgerAppender bigint ctx newID now fmt projectID ev sv =
     (case invokeLedgerAppend bigint ctx (newID sv) (sync_request fmt projectID ev) (now sv) sv of
        (Inl e, sv') \<Rightarrow> (False, sv') | (Inr r, sv') \<Rightarrow> (True, sv'))"

definition delivered :: "(jval \<Rightarrow> int option option) \<Rightarrow> server \<Rightarrow> LoggedEvent \<Rightarrow> bool" where
  "delivered bigint sv ev \<longleftrightarrow>
     EngagementSeqExists bigint (sv_Ledger sv) (ev_Session (le_Event ev)) (ev_Story (le_Event ev)) (le_Seq ev) = Inr True"

definition sendable :: "LoggedEvent \<Rightarrow> bool" where
  "sendable ev \<longleftrightarrow> TrimSpace (ev_Session (le_Event ev)) \<noteq> [] \<and> TrimSpace (ev_Story (le_Event ev)) \<noteq> [] \<and> int64 (le_Seq ev)"

lemma sync_request_simps [simp]:
  "an_SessionID (sync_request fmt p ev) = ev_Session (le_Event ev)" "an_StoryID (sync_request fmt p ev) = ev_Story (le_Event ev)"
  "an_Kind (sync_request fmt p ev) = engagement_prefix @ ev_Kind (le_Event ev)"
  "int64 (le_Seq ev) \<Longrightarrow> engagementSeq (an_Payload (sync_request fmt p ev)) = Some (le_Seq ev)"
  "sql_field (an_Payload (sync_request fmt p ev)) ''seq'' = Some (JInt (le_Seq ev))"
  "HasPrefix (an_Kind (sync_request fmt p ev)) engagement_prefix"
proof -
  have "foldName ''phase'' = ''phase''" "foldName ''seq'' = ''seq''" "foldName ''lease_until'' = ''lease_until''" by code_simp+
  then show "int64 (le_Seq ev) \<Longrightarrow> engagementSeq (an_Payload (sync_request fmt p ev)) = Some (le_Seq ev)"
    by (simp add: sync_request_def Let_def engagementSeq_def field_values_def)
qed (auto simp: sync_request_def Let_def sql_field_def)

definition sent_ok :: "(jval \<Rightarrow> int option option) \<Rightarrow> Ctx \<Rightarrow> server \<Rightarrow> LoggedEvent \<Rightarrow> bool" where
  "sent_ok bigint ctx sv ev \<longleftrightarrow> sendable ev \<and> delivered bigint sv ev \<and>
     TrimSpace (engagement_prefix @ ev_Kind (le_Event ev)) \<noteq> [] \<and>
     requireLedgerAppendRole ctx (engagement_prefix @ ev_Kind (le_Event ev)) = None"

lemma seq_new_row:
  assumes "casts bigint" and "EngagementSeqExists bigint rows a b q = Inr False" and "TrimSpace a \<noteq> []" "TrimSpace b \<noteq> []"
    and "ey_SessionID e = a" "ey_StoryID e = b" "HasPrefix (ey_Kind e) engagement_prefix" "sql_field (ey_Payload e) ''seq'' = Some (JInt q)" "int64 q"
  shows "EngagementSeqExists bigint (rows @ [stored e]) a b q = Inr True"
proof -
  have "bigint (JInt q) = Some (Some q)" using assms(1,9) by (simp add: casts_def)
  then have "seq_scan bigint q (seq_rows a b [stored e]) = Inr True"
    using assms(4-8) by (simp add: seq_rows_def engagement_like)
  then show ?thesis using assms(2-4) by (simp add: EngagementSeqExists_def seq_rows_append seq_scan_append)
qed

lemma sent:
  assumes "casts bigint" and "realLedgerAppender bigint ctx newID now fmt p ev sv = (True, sv')" and "sendable ev"
  shows "sent_ok bigint ctx sv' ev \<and> (\<exists>new. sv_Ledger sv' = sv_Ledger sv @ new)"
proof -
  let ?r = "sync_request fmt p ev"
  obtain r where i: "invokeLedgerAppend bigint ctx (newID sv) ?r (now sv) sv = (Inr r, sv')"
    using assms(2) by (auto simp: realLedgerAppender_def split: prod.splits sum.splits)
  then have g: "TrimSpace (an_Kind ?r) \<noteq> []" "requireLedgerAppendRole ctx (an_Kind ?r) = None"
    by (auto simp: invokeLedgerAppend_eq split: if_splits option.splits)
  have q: "engagementSeq (an_Payload ?r) = Some (le_Seq ev)" using assms(3) by (simp add: sendable_def)
  have d: "duplicate_seq bigint ?r (sv_Ledger sv) = (case EngagementSeqExists bigint (sv_Ledger sv) (ev_Session (le_Event ev)) (ev_Story (le_Event ev)) (le_Seq ev) of
      Inl e \<Rightarrow> Inl e | Inr t \<Rightarrow> Inr (if t then Some (le_Seq ev) else None))"
    using duplicate_numbered [OF _ q] by simp
  show ?thesis
  proof (cases rule: append_cases [of bigint ctx "newID sv" ?r "now sv" sv])
    case same
    then have "duplicate_seq bigint ?r (sv_Ledger sv) \<noteq> Inr None"
      using i g by (auto simp: invokeLedgerAppend_eq Let_def split: sum.splits prod.splits option.splits)
    moreover have "duplicate_seq bigint ?r (sv_Ledger sv) \<noteq> Inl e" for e
      using i g by (auto simp: invokeLedgerAppend_eq)
    ultimately have "delivered bigint sv ev" using d by (auto simp: delivered_def split: sum.splits if_splits)
    then show ?thesis using same i g assms(3) by (simp add: sent_ok_def)
  next
    case (row e db)
    then have "EngagementSeqExists bigint (sv_Ledger sv) (ev_Session (le_Event ev)) (ev_Story (le_Event ev)) (le_Seq ev) = Inr False"
      using d by (auto split: sum.splits if_splits)
    from seq_new_row [OF assms(1) this, of e] row(1) q assms(3)
    have "EngagementSeqExists bigint (sv_Ledger sv @ [stored e]) (ev_Session (le_Event ev)) (ev_Story (le_Event ev)) (le_Seq ev) = Inr True"
      by (simp add: sendable_def)
    then show ?thesis using row(2) i g assms(3) by (simp add: sent_ok_def delivered_def)
  qed
qed

lemma resent:
  assumes "sent_ok bigint ctx sv ev"
  shows "realLedgerAppender bigint ctx newID now fmt p ev sv = (True, sv)"
proof -
  have "engagementSeq (an_Payload (sync_request fmt p ev)) = Some (le_Seq ev)" using assms by (simp add: sent_ok_def sendable_def)
  from duplicate_numbered [OF _ this] assms
  have "duplicate_seq bigint (sync_request fmt p ev) (sv_Ledger sv) = Inr (Some (le_Seq ev))"
    by (simp add: sent_ok_def delivered_def)
  then show ?thesis using assms by (simp add: realLedgerAppender_def invokeLedgerAppend_eq sent_ok_def)
qed

lemma sent_ok_grows: "sent_ok bigint ctx sv ev \<Longrightarrow> sv_Ledger sv' = sv_Ledger sv @ new \<Longrightarrow> sent_ok bigint ctx sv' ev"
  using seq_exists_grows by (auto simp: sent_ok_def delivered_def)

lemma flush_loop_count: "flush_loop send evs n m sv = (n', m', sv') \<Longrightarrow> n' \<le> n + length evs"
  by (induction evs arbitrary: n m sv) (fastforce split: prod.splits bool.splits)+

lemma flush_all_sent:
  assumes "casts bigint"
  shows "flush_loop (realLedgerAppender bigint ctx newID now fmt p) evs n m sv = (n + length evs, m', sv') \<Longrightarrow>
    \<forall>ev \<in> set evs. sendable ev \<Longrightarrow> (\<exists>new. sv_Ledger sv' = sv_Ledger sv @ new) \<and> (\<forall>ev \<in> set evs. sent_ok bigint ctx sv' ev)"
proof (induction evs arbitrary: n m sv)
  case (Cons ev evs)
  show ?case
  proof (cases "fst (realLedgerAppender bigint ctx newID now fmt p ev sv)")
    case True
    then obtain sv1 where ok: "realLedgerAppender bigint ctx newID now fmt p ev sv = (True, sv1)" by (cases "realLedgerAppender bigint ctx newID now fmt p ev sv") simp
    then obtain m1 where "flush_loop (realLedgerAppender bigint ctx newID now fmt p) evs (Suc n) m1 sv1 = (Suc n + length evs, m', sv')"
      using Cons.prems(1) by auto
    from Cons.IH [OF this] Cons.prems(2)
    have ih: "(\<exists>new. sv_Ledger sv' = sv_Ledger sv1 @ new)" "\<forall>ev \<in> set evs. sent_ok bigint ctx sv' ev" by auto
    have one: "sent_ok bigint ctx sv1 ev" "\<exists>new. sv_Ledger sv1 = sv_Ledger sv @ new"
      using sent [OF assms ok] Cons.prems(2) by auto
    then show ?thesis using ih sent_ok_grows [OF one(1)] by fastforce
  qed (use Cons.prems(1) in \<open>auto split: prod.splits bool.splits\<close>)
qed simp

lemma flush_again:
  "\<forall>ev \<in> set evs. sent_ok bigint ctx sv ev \<Longrightarrow>
   \<exists>m'. flush_loop (realLedgerAppender bigint ctx newID now fmt p) evs n m sv = (n + length evs, m', sv)"
proof (induction evs arbitrary: n m)
  case (Cons ev evs)
  then have "realLedgerAppender bigint ctx newID now fmt p ev sv = (True, sv)" using resent by simp
  then show ?case using Cons.IH [of "Suc n"] Cons.prems by simp
qed simp

lemma exec_events_named:
  "st_events (ws_exec op s) = st_events s \<or> (\<exists>r. st_events (ws_exec op s) = snd (ai_insert r (st_events s)) \<and>
     TrimSpace (er_session r) \<noteq> [] \<and> TrimSpace (er_story r) \<noteq> [])"
  by (cases op) (auto simp: ws_defs)

lemma events_named:
  "\<forall>x \<in> set (ai_rows (st_events (fold ws_exec ops migrate))). TrimSpace (er_session (snd x)) \<noteq> [] \<and> TrimSpace (er_story (snd x)) \<noteq> []"
proof -
  define P where "P s \<longleftrightarrow> (\<forall>x \<in> set (ai_rows (st_events s)). TrimSpace (er_session (snd x)) \<noteq> [] \<and> TrimSpace (er_story (snd x)) \<noteq> [])" for s :: workstate
  have step: "P s \<Longrightarrow> P (ws_exec op s)" for op s
    using exec_events_named [of op s] by (auto simp: P_def ai_insert_def simp del: ws_exec.simps)
  have "P s \<Longrightarrow> P (fold ws_exec ops s)" for s
    by (induction ops arbitrary: s) (simp_all add: step del: ws_exec.simps)
  moreover have "P migrate" by (simp add: P_def migrate_def ai_empty_def)
  ultimately have "P (fold ws_exec ops migrate)" by blast
  then show ?thesis unfolding P_def .
qed

lemma events_sendable:
  assumes "ai_last (st_events (fold ws_exec ops migrate)) < 2 ^ 63"
  shows "\<forall>ev \<in> set (EventsSince (fold ws_exec ops migrate) q). sendable ev"
proof -
  let ?s = "fold ws_exec ops migrate"
  have "ws_ok s \<Longrightarrow> ws_ok (fold ws_exec ops s)" for s
    by (induction ops arbitrary: s) (simp_all add: ws_ok_exec del: ws_exec.simps)
  then have "ws_ok ?s" by simp
  then have "\<forall>x \<in> set (ai_rows (st_events ?s)). int64 (fst x)"
    using assms by (fastforce simp: ws_ok_def ai_ok_def int64_def)
  then show ?thesis using events_named [of ops] by (fastforce simp: EventsSince_def sendable_def logged_def)
qed

text \<open>
  A lost mark does no harm: when the flush has sent every event of a store and its mark is lost
  (the client dies before it is written), flushing the same store again sends every event again and
  leaves the server exactly as it was, with other ids and at another time.
\<close>

theorem flush_replay_harmless:
  assumes "casts bigint" and "s = fold ws_exec ops migrate" and "ai_last (st_events s) < 2 ^ 63"
    and "flush_loop (realLedgerAppender bigint ctx newID now fmt p) (EventsSince s (LastFlushedSeq s)) 0 (LastFlushedSeq s) sv =
      (length (EventsSince s (LastFlushedSeq s)), m, sv')"
  shows "snd (snd (runWorkSync (realLedgerAppender bigint ctx newID now fmt p) marks s sv)) = sv' \<and>
    snd (snd (runWorkSync (realLedgerAppender bigint ctx newID' now' fmt' p') marks' s sv')) = sv'"
proof -
  let ?q = "LastFlushedSeq s"
  have f: "flush_loop (realLedgerAppender bigint ctx newID now fmt p) (EventsSince s ?q) 0 ?q sv = (0 + length (EventsSince s ?q), m, sv')"
    using assms(4) by simp
  have "\<forall>ev \<in> set (EventsSince s ?q). sendable ev"
    using assms(3) events_sendable [of ops] unfolding assms(2) by blast
  then have "\<forall>ev \<in> set (EventsSince s ?q). sent_ok bigint ctx sv' ev" using flush_all_sent [OF assms(1) f] by blast
  from flush_again [OF this, of newID' now' fmt' p' 0 ?q] show ?thesis
    using f by (auto simp: runWorkSync_def Let_def)
qed

theorem flush_replay_harmless_witness:
  "\<exists>sv'. snd (snd (runWorkSync (realLedgerAppender demo_bigint demo_admin (\<lambda>s. ''e1'') (\<lambda>s. 5) (\<lambda>t. []) ''p'') False (fold ws_exec [OpAppend 0 ev1] migrate) empty_server)) = sv' \<and>
     snd (snd (runWorkSync (realLedgerAppender demo_bigint demo_admin (\<lambda>s. ''e2'') (\<lambda>s. 6) (\<lambda>t. []) ''p'') True (fold ws_exec [OpAppend 0 ev1] migrate) sv')) = sv'"
proof -
  let ?s = "fold ws_exec [OpAppend 0 ev1] migrate"
  obtain n m sv' where r: "flush_loop (realLedgerAppender demo_bigint demo_admin (\<lambda>s. ''e1'') (\<lambda>s. 5) (\<lambda>t. []) ''p'') (EventsSince ?s (LastFlushedSeq ?s)) 0
      (LastFlushedSeq ?s) empty_server = (n, m, sv')"
    by (rule prod_cases3)
  have "fst (flush_loop (realLedgerAppender demo_bigint demo_admin (\<lambda>s. ''e1'') (\<lambda>s. 5) (\<lambda>t. []) ''p'') (EventsSince ?s (LastFlushedSeq ?s)) 0
      (LastFlushedSeq ?s) empty_server) = length (EventsSince ?s (LastFlushedSeq ?s))" by code_simp
  then have n: "n = length (EventsSince ?s (LastFlushedSeq ?s))" using r by simp
  have l: "ai_last (st_events ?s) < 2 ^ 63" by code_simp
  show ?thesis using flush_replay_harmless [OF demo_casts refl l r [unfolded n]] by blast
qed

section \<open>The status as a projection\<close>

text \<open>
  The operations that leave the status of a story to the ledger: every append, every batch without a transition, and every operation
  on documents but a patch of its status, its removal, and the writing of library tasks by key.
\<close>

fun keeps_status :: "string \<Rightarrow> server_op \<Rightarrow> bool" where
  "keeps_status story (SAppend ctx i req now) = True"
| "keeps_status story (SAppendMany ids ins now) = (statusTransitionKind \<notin> an_Kind ` set ins)"
| "keeps_status story (SDoc (DPatch i p now)) = (i \<noteq> story \<or> us_Status p = None)"
| "keeps_status story (SDoc (DTombstone i by now)) = (i \<noteq> story)"
| "keeps_status story (SDoc (DHardDelete i)) = (i \<noteq> story)"
| "keeps_status story (SDoc (DUpsert newID u now)) = (upsert_type u \<noteq> TypeTask)"
| "keeps_status story (SDoc (DDelete key by seed now)) = (ky_Scope (resolveKey key) \<noteq> ScopeLibrary)"
| "keeps_status story (SDoc op) = True"

definition moved :: "Entry \<Rightarrow> string \<Rightarrow> string" where
  "moved e st = (if ey_Kind e = statusTransitionKind \<and> extractToStatus (ey_Payload e) \<noteq> []
     then extractToStatus (ey_Payload e) else st)"

definition story_or_task :: "Document \<Rightarrow> bool" where
  "story_or_task d \<longleftrightarrow> dc_Type d = TypeStory \<or> dc_Type d = TypeTask"

lemma GetByID_versions [simp]: "GetByID (db\<lparr>dd_Versions := v\<rparr>) i = GetByID db i"
  by (simp add: GetByID_def)

lemma patched_simps [simp]: "dc_ID (patched p now d) = dc_ID d" "dc_Type (patched p now d) = dc_Type d"
  "dc_Status (patched p now d) = or_keep (us_Status p) (dc_Status d)"
  by (auto simp: patched_def)

lemma UpdateStory_Get:
  "UpdateStory j p now db = Inr (x, db') \<Longrightarrow>
   GetByID db' i = map_option (\<lambda>d. if dc_ID d = j then patched p now d else d) (GetByID db i)"
  by (auto simp: UpdateStory_def Let_def GetByID_update split: option.splits if_splits)

lemma UpdateStory_ok:
  "GetByID db i = Some d \<Longrightarrow> story_or_task d \<Longrightarrow> \<exists>x db'. UpdateStory i (noPatch\<lparr>us_Status := Some to\<rparr>) now db = Inr (x, db')"
  by (auto simp: UpdateStory_def Let_def noPatch_def story_or_task_def)

lemma status_patch: "or_keep (us_Status (noPatch\<lparr>us_Status := Some to\<rparr>)) st = to"
  by (simp add: noPatch_def or_keep_def)

text \<open>What such an operation on documents leaves of the row.\<close>

definition same_status :: "docdb \<Rightarrow> string \<Rightarrow> Document \<Rightarrow> bool" where
  "same_status db story d \<longleftrightarrow> (\<exists>d'. GetByID db story = Some d' \<and> story_or_task d' \<and> dc_Status d' = dc_Status d)"

lemma same_status_refl: "GetByID db story = Some d \<Longrightarrow> story_or_task d \<Longrightarrow> same_status db story d"
  by (simp add: same_status_def)

lemma same_status_update:
  assumes "GetByID db story = Some d" and "story_or_task d" and "\<And>d. dc_ID (f d) = dc_ID d" and "dc_Type (f d) = dc_Type d"
    and "i = story \<Longrightarrow> dc_Status (f d) = dc_Status d"
  shows "same_status (update_doc i f db) story d"
  using assms GetByID_in [OF assms(1)] by (auto simp: same_status_def GetByID_update story_or_task_def)

lemma same_status_left: "same_status db story d \<Longrightarrow> (\<And>db'. r = Inr db' \<Longrightarrow> same_status db' story d) \<Longrightarrow> same_status (left db r) story d"
  by (cases r) auto

lemma same_status_created:
  "GetByID db story = Some d \<Longrightarrow> story_or_task d \<Longrightarrow> insert_created c body by now db = Inr (x, db') \<Longrightarrow> same_status db' story d"
  by (auto simp: insert_created_def insert_doc_Inr same_status_def GetByID_def split: sum.splits)

lemma same_status_versioned:
  assumes "GetByID db story = Some d" and "story_or_task d" and "dc_ID x \<noteq> story"
  shows "same_status (versioned db x body by now st) story d"
  unfolding versioned_def by (rule same_status_update) (use assms in auto)

lemma named_other_id:
  assumes "unique_key dc_ID (dd_Documents db)" and "GetByID db story = Some d" and "x \<in> set (dd_Documents db)" and "x \<noteq> d"
  shows "dc_ID x \<noteq> story"
  using row_at_unique [OF assms(1)] assms(2-4) unfolding GetByID_def by (metis option.inject)

lemma upsert_keeps_status:
  assumes ok: "docs_ok db" and g: "GetByID db story = Some d" "story_or_task d" and u: "DocUpsert newID u now db = Inr (x, v, db')"
    and t: "upsert_type u \<noteq> TypeTask"
  shows "same_status db' story d"
  using ok u
proof (cases rule: DocUpsert_cases)
  case (same e)
  then show ?thesis using same_status_refl [OF g] by simp
next
  case (old e)
  have r: "upsert_refused u = None" using u by (auto simp: DocUpsert_def split: option.splits)
  then have "upsert_type u \<noteq> TypeStory" by (auto simp: upsert_refused_def Let_def type_defs split: option.splits if_splits)
  then have "e \<noteq> d" using old(3) g(2) t by (auto simp: story_or_task_def)
  then have "dc_ID e \<noteq> story" using named_other_id [OF _ g(1)] ok lookup_in [OF old(1)] by (auto simp: docs_ok_def ids_ok_def)
  then show ?thesis unfolding old(5) by (rule same_status_versioned [OF g])
next
  case (new e db1)
  have "dc_ID e \<noteq> story" "GetByID db1 story = Some d" using new(3) g(1) by (auto simp: insert_doc_Inr GetByID_def)
  then show ?thesis unfolding new(6) using same_status_versioned g(2) by blast
qed

lemma delete_keeps_status:
  assumes ok: "docs_ok db" and g: "GetByID db story = Some d" "story_or_task d" and u: "DocDelete key by seed now db = Inr (x, v, db')"
    and t: "ky_Scope (resolveKey key) \<noteq> ScopeLibrary"
  shows "same_status db' story d"
proof -
  obtain e where e: "lookupDocument db key = Some e" "db' = versioned db e [] by now StatusDeleted"
    using u by (auto simp: DocDelete_def tombstone_eq split: option.splits if_splits)
  have "e \<noteq> d" using lookup_in [OF e(1)] t g(2) by (auto simp: at_key_def named_type_def story_or_task_def type_defs)
  then have "dc_ID e \<noteq> story" using named_other_id [OF _ g(1)] ok lookup_in [OF e(1)] by (auto simp: docs_ok_def ids_ok_def)
  then show ?thesis unfolding e(2) by (rule same_status_versioned [OF g])
qed

lemma patch_keeps_status:
  assumes g: "GetByID db story = Some d" "story_or_task d" and u: "UpdateStory i p now db = Inr (x, db')" and t: "i \<noteq> story \<or> us_Status p = None"
  shows "same_status db' story d"
  using UpdateStory_Get [OF u, of story] g t GetByID_in [OF g(1)] by (auto simp: same_status_def story_or_task_def or_keep_def)

lemma hard_delete_keeps_status:
  assumes g: "GetByID db story = Some d" "story_or_task d" and u: "HardDelete i db = Inr db'" and t: "i \<noteq> story"
  shows "same_status db' story d"
proof -
  have "dd_Documents db' = map (orphaned i) (filter (\<lambda>d. dc_ID d \<noteq> i) (dd_Documents db))"
    using u by (auto simp: HardDelete_def delete_rows_def split: if_splits)
  moreover have "row_at dc_ID story (map (orphaned i) ds) = map_option (orphaned i) (row_at dc_ID story ds)" for ds
    by (induction ds) auto
  ultimately have "GetByID db' story = Some (orphaned i d)" using g(1) t by (simp add: GetByID_def row_at_filter_other)
  then show ?thesis using g(2) by (simp add: same_status_def story_or_task_def)
qed

lemma doc_keeps_status:
  assumes "docs_ok db" and g: "GetByID db story = Some d" "story_or_task d" and k: "keeps_status story (SDoc op)"
  shows "same_status (doc_exec op db) story d"
proof (cases op)
  case (DUpsert newID u now)
  then show ?thesis using k same_status_refl [OF g] upsert_keeps_status [OF assms(1) g] by (cases "DocUpsert newID u now db") auto
next
  case (DDelete key who seed now)
  then show ?thesis using k same_status_refl [OF g] delete_keeps_status [OF assms(1) g] by (cases "DocDelete key who seed now db") auto
next
  case (DTombstone i who now)
  have "same_status db' story d" if t: "TombstoneByID i who now db = Inr (x, v, db')" for x v db'
  proof -
    obtain e where "GetByID db i = Some e" "db' = versioned db e [] who now StatusDeleted"
      using t by (auto simp: TombstoneByID_def tombstone_eq split: option.splits if_splits)
    then show ?thesis using same_status_versioned [OF g] GetByID_in [of db i e] k DTombstone by auto
  qed
  then show ?thesis using DTombstone same_status_refl [OF g] by (cases "TombstoneByID i who now db") auto
next
  case (DHardDelete i)
  then show ?thesis using k same_status_refl [OF g] hard_delete_keeps_status [OF g] by (cases "HardDelete i db") auto
next
  case (DStory newID c now)
  then show ?thesis using same_status_refl [OF g] same_status_created [OF g]
    by (cases "CreateStory newID c now db") (auto simp: CreateStory_def split: option.splits)
next
  case (DTask newID c now)
  then show ?thesis using same_status_refl [OF g] same_status_created [OF g]
    by (cases "CreateTask newID c now db") (auto simp: CreateTask_def split: option.splits)
next
  case (DPatch i p now)
  then show ?thesis using k same_status_refl [OF g] patch_keeps_status [OF g] by (cases "UpdateStory i p now db") auto
next
  case (DTags i ts now)
  have u: "same_status (update_doc i (\<lambda>d. d\<lparr>dc_Tags := kvNormalize ts, dc_UpdatedAt := now\<rparr>) db) story d"
    by (rule same_status_update [OF g]) simp_all
  show ?thesis using DTags same_status_refl [OF g] u SetDocumentTags_db [of i ts now db] by (cases "SetDocumentTags i ts now db") fastforce+
next
  case (DHeadline i h now)
  have u: "same_status (update_doc i (\<lambda>d. d\<lparr>dc_Headline := h, dc_UpdatedAt := now\<rparr>) db) story d"
    by (rule same_status_update [OF g]) simp_all
  show ?thesis using DHeadline same_status_refl [OF g] u SetDocumentHeadline_db [of i h now db] by (cases "SetDocumentHeadline i h now db") fastforce+
next
  case (DSummary i t now)
  have u: "same_status (update_doc i (\<lambda>d. d\<lparr>dc_Summary := t, dc_SummaryUpdatedAt := Some now\<rparr>) db) story d"
    by (rule same_status_update [OF g]) simp_all
  show ?thesis using DSummary same_status_refl [OF g] u SetSummary_db [of i t now db] by (cases "SetSummary i t now db") auto
qed

lemma docs_ok_server: "docs_ok (sv_Docs sv) \<Longrightarrow> docs_ok (sv_Docs (sv_exec bigint op sv))"
proof (cases op)
  case (SAppend ctx i req now)
  assume ok: "docs_ok (sv_Docs sv)"
  show ?thesis
  proof (cases rule: append_cases [of bigint ctx i req now sv])
    case (row e db)
    then have "docs_ok db" using ok docs_ok_patch_story by (fastforce simp: project_status_def Let_def map_sum_Inr split: sum.splits if_splits)
    then show ?thesis using row(2) SAppend by simp
  qed (use ok SAppend in simp)
qed (auto intro: docs_ok_exec split: sum.splits)

lemma status_step:
  assumes "docs_ok (sv_Docs sv)" and "keeps_status story op" and "GetByID (sv_Docs sv) story = Some d" and "story_or_task d" and "TrimSpace story \<noteq> []"
  shows "\<exists>new d'. sv_Ledger (sv_exec bigint op sv) = sv_Ledger sv @ new \<and>
    GetByID (sv_Docs (sv_exec bigint op sv)) story = Some d' \<and> story_or_task d' \<and>
    dc_Status d' = fold moved (filter (\<lambda>e. ey_StoryID e = story) new) (dc_Status d)"
proof (cases op)
  case (SAppend ctx i req now)
  have id: "dc_ID d = story" using GetByID_in [OF assms(3)] by simp
  show ?thesis
  proof (cases rule: append_cases [of bigint ctx i req now sv])
    case same
    then show ?thesis using assms(3,4) SAppend by simp
  next
    case (row e db)
    have b: "sv_Ledger (sv_exec bigint op sv) = sv_Ledger sv @ [stored e]" "sv_Docs (sv_exec bigint op sv) = db"
      using row(2) SAppend by auto
    show ?thesis
    proof (cases "an_StoryID req = story")
      case False
      have "ey_StoryID (stored e) \<noteq> story" using False assms(5) row(1) by (auto simp: stored_def)
      moreover have "GetByID db story = Some d"
        using row(7) assms(3) False id UpdateStory_Get
        by (auto simp: project_status_def Let_def map_sum_Inr split: sum.splits if_splits)
      ultimately show ?thesis using b assms(4) by (intro exI [of _ "[stored e]"] exI [of _ d]) simp
    next
      case True
      let ?to = "extractToStatus (an_Payload req)"
      have st: "stored e = e" "ey_StoryID e = story" "ey_Kind e = an_Kind req" "ey_Payload e = an_Payload req"
        using row(1) True assms(5) by auto
      show ?thesis
      proof (cases "an_Kind req = statusTransitionKind \<and> ?to \<noteq> []")
        case False
        then have "project_status req now (sv_Docs sv) = Inr (sv_Docs sv)" by (auto simp: project_status_def Let_def)
        then have "db = sv_Docs sv" using row(7) by simp
        then show ?thesis using b st False assms(3,4) by (intro exI [of _ "[e]"] exI [of _ d]) (auto simp: moved_def)
      next
        case t: True
        obtain x db' where u: "UpdateStory story (noPatch\<lparr>us_Status := Some ?to\<rparr>) now (sv_Docs sv) = Inr (x, db')"
          using UpdateStory_ok [OF assms(3,4)] by blast
        then have "db = db'" using row(7) t True assms(5) by (simp add: project_status_def)
        then have "GetByID db story = Some (patched (noPatch\<lparr>us_Status := Some ?to\<rparr>) now d)"
          using UpdateStory_Get [OF u, of story] assms(3) id by simp
        then show ?thesis using b st t assms(4)
          by (intro exI [of _ "[e]"] exI [of _ "patched (noPatch\<lparr>us_Status := Some ?to\<rparr>) now d"])
            (simp add: moved_def story_or_task_def status_patch or_keep_def)
      qed
    qed
  qed
next
  case (SAppendMany ids ins now)
  show ?thesis
  proof (cases "LedgerAppendMany ids ins now (sv_Ledger sv)")
    case (Inr rows)
    obtain new where n: "rows = sv_Ledger sv @ new" "\<forall>e \<in> set new. \<exists>a \<in> set ins. ey_Kind e = an_Kind a"
      using batch_rows [OF Inr] by blast
    have "statusTransitionKind \<notin> an_Kind ` set ins" using assms(2) SAppendMany by simp
    then have "ey_Kind e \<noteq> statusTransitionKind" if "e \<in> set new" for e using n(2) that by (metis image_eqI)
    then have "fold moved (filter (\<lambda>e. ey_StoryID e = story) new) st = st" for st by (induction new arbitrary: st) (auto simp: moved_def)
    then show ?thesis using SAppendMany Inr n(1) assms(3,4) by (intro exI [of _ new] exI [of _ d]) simp
  qed (use SAppendMany assms(3,4) in simp)
next
  case (SDoc dop)
  then show ?thesis using doc_keeps_status [OF assms(1,3,4)] assms(2) by (simp add: same_status_def)
qed

text \<open>
  C40: the status is a projection of the ledger. Take a well-formed server that handles appends by any callers, batches of the log handler and operations on
  documents one after the other, none of which patches the status of the story directly, removes the story, writes a library task
  by its key or stores a transition in a batch. Then the story stays, and its status is the target of the last transition the new rows record for it,
  and what it was when they record none.
\<close>

theorem status_is_last_transition:
  assumes "docs_ok (sv_Docs sv)" and "\<forall>op \<in> set ops. keeps_status story op" and "GetByID (sv_Docs sv) story = Some d" and "story_or_task d"
    and "TrimSpace story \<noteq> []"
  shows "\<exists>new d'. sv_Ledger (fold (sv_exec bigint) ops sv) = sv_Ledger sv @ new \<and>
    GetByID (sv_Docs (fold (sv_exec bigint) ops sv)) story = Some d' \<and> story_or_task d' \<and>
    dc_Status d' = fold moved (filter (\<lambda>e. ey_StoryID e = story) new) (dc_Status d)"
  using assms(1-4)
proof (induction ops arbitrary: sv d)
  case (Cons op ops)
  obtain n1 d1 where a: "sv_Ledger (sv_exec bigint op sv) = sv_Ledger sv @ n1"
      "GetByID (sv_Docs (sv_exec bigint op sv)) story = Some d1" "story_or_task d1"
      "dc_Status d1 = fold moved (filter (\<lambda>e. ey_StoryID e = story) n1) (dc_Status d)"
    using status_step [OF Cons.prems(1) _ Cons.prems(3,4) assms(5), of op bigint] Cons.prems(2) by auto
  obtain n2 d2 where b: "sv_Ledger (fold (sv_exec bigint) ops (sv_exec bigint op sv)) = (sv_Ledger sv @ n1) @ n2"
      "GetByID (sv_Docs (fold (sv_exec bigint) ops (sv_exec bigint op sv))) story = Some d2" "story_or_task d2"
      "dc_Status d2 = fold moved (filter (\<lambda>e. ey_StoryID e = story) n2) (dc_Status d1)"
    using Cons.IH [OF docs_ok_server [OF Cons.prems(1)] _ a(2,3)] Cons.prems(2) a(1) by auto
  then show ?case using a(4) by (intro exI [of _ "n1 @ n2"] exI [of _ d2]) simp
qed simp

definition demo_moves :: "server_op list" where
  "demo_moves = [SAppend demo_admin ''e1'' (demo_req ''status_transition'' ''s1'' [(''to_status'', JStr ''ready'')]) 5,
     SAppend demo_admin ''e2'' (demo_req ''status_transition'' ''s1'' [(''to_status'', JStr ''review'')]) 4,
     SDoc (DPatch ''s1'' (noPatch\<lparr>us_Title := Some ''t''\<rparr>) 6), SDoc (DHardDelete ''d1''), SDoc (DTags ''s1'' [''a''] 7)]"

theorem status_is_last_transition_witness:
  "\<exists>d'. GetByID (sv_Docs (fold (sv_exec demo_bigint) demo_moves \<lparr>sv_Ledger = [], sv_Docs = three_db\<rparr>)) ''s1'' = Some d' \<and>
     dc_Status d' = ''review''"
proof -
  let ?sv = "\<lparr>sv_Ledger = [], sv_Docs = three_db\<rparr>"
  have "map_option story_or_task (GetByID (sv_Docs ?sv) ''s1'') = Some True" by code_simp
  then obtain d where d: "GetByID (sv_Docs ?sv) ''s1'' = Some d" "story_or_task d" by auto
  have ok: "docs_ok (sv_Docs ?sv)" unfolding three_db_def by (simp only: server.simps docs_ok_run)
  have k: "\<forall>op \<in> set demo_moves. keeps_status ''s1'' op" by (simp add: demo_moves_def noPatch_def)
  have t: "TrimSpace ''s1'' \<noteq> []" by code_simp
  obtain new d' where n: "sv_Ledger (fold (sv_exec demo_bigint) demo_moves ?sv) = [] @ new"
      "GetByID (sv_Docs (fold (sv_exec demo_bigint) demo_moves ?sv)) ''s1'' = Some d'"
      "dc_Status d' = fold moved (filter (\<lambda>e. ey_StoryID e = ''s1'') new) (dc_Status d)"
    using status_is_last_transition [OF ok k d t, of demo_bigint] by auto
  have "new = sv_Ledger (fold (sv_exec demo_bigint) demo_moves ?sv)" using n(1) by simp
  moreover have "map (\<lambda>e. (ey_Kind e, ey_StoryID e, ey_Payload e)) (sv_Ledger (fold (sv_exec demo_bigint) demo_moves ?sv)) =
      [(''status_transition'', ''s1'', [(''to_status'', JStr ''ready'')]), (''status_transition'', ''s1'', [(''to_status'', JStr ''review'')])]"
    by code_simp
  ultimately obtain a b where ab: "new = [a, b]" "ey_Kind a = ''status_transition''" "ey_StoryID a = ''s1''"
      "ey_Payload a = [(''to_status'', JStr ''ready'')]" "ey_Kind b = ''status_transition''" "ey_StoryID b = ''s1''"
      "ey_Payload b = [(''to_status'', JStr ''review'')]"
    by (auto simp: map_eq_Cons_conv)
  have "extractToStatus [(''to_status'', JStr ''review'')] = ''review''" by code_simp
  then have "dc_Status d' = ''review''" using n(3) ab by (simp add: moved_def statusTransitionKind_def)
  then show ?thesis using n(2) by blast
qed

text \<open>
  A number that the database cannot read shuts a session's flush for good: once an engagement row
  whose \<open>seq\<close> does not cast is accepted, every event of that session and story that has no row yet is
  refused on every later server, and the refusal changes nothing.
\<close>

theorem unreadable_seq_poisons:
  assumes "invokeLedgerAppend bigint ctx i bad now sv = (Inr (Appended e), sv1)"
    and "HasPrefix (an_Kind bad) engagement_prefix" and "sql_field (an_Payload bad) ''seq'' = Some j" and "bigint j = None"
    and "TrimSpace (an_SessionID bad) \<noteq> []" and "TrimSpace (an_StoryID bad) \<noteq> []"
    and "EngagementSeqExists bigint (sv_Ledger sv) (an_SessionID bad) (an_StoryID bad) q \<noteq> Inr True"
    and "an_SessionID req = an_SessionID bad" and "an_StoryID req = an_StoryID bad" and "TrimSpace (an_Kind req) \<noteq> []"
    and "HasPrefix (an_Kind req) engagement_prefix" and "engagementSeq (an_Payload req) = Some q"
    and "requireLedgerAppendRole ctx' (an_Kind req) = None" and "sv = fold (sv_exec bigint) ops empty_server"
    and "sv' = fold (sv_exec bigint) later sv1"
  shows "invokeLedgerAppend bigint ctx' i' req now' sv' = (Inl LedgerCast, sv')"
proof -
  have one: "EngagementSeqExists bigint (sv_Ledger sv1) (an_SessionID bad) (an_StoryID bad) q = Inl LedgerCast"
  proof (cases rule: append_cases [of bigint ctx i bad now sv])
    case (row x db)
    then have l: "sv_Ledger sv1 = sv_Ledger sv @ [stored x]" using assms(1) by simp
    have x: "seq_scan bigint q (seq_rows (an_SessionID bad) (an_StoryID bad) [stored x]) = Inl LedgerCast"
      using row(1) assms(2-6) by (simp add: seq_rows_def engagement_like)
    have "err = LedgerCast" if "seq_scan bigint q es = Inl err" for err es
      using that by (induction es) (auto split: option.splits if_splits)
    then show ?thesis using x assms(5-7) unfolding l
      by (auto simp: EngagementSeqExists_def seq_rows_append seq_scan_append split: sum.splits bool.splits)
  qed (use assms(1) in auto)
  have "sv1 = fold (sv_exec bigint) (ops @ [SAppend ctx i bad now]) empty_server" using assms(1,14) by simp
  then obtain new where "sv_Ledger sv' = sv_Ledger sv1 @ new"
    using ledger_grows_from [OF ledger_unique] assms(15) by blast
  then have "EngagementSeqExists bigint (sv_Ledger sv') (an_SessionID req) (an_StoryID req) q = Inl LedgerCast"
    using seq_exists_grows [OF one] assms(8,9) by simp
  then have "duplicate_seq bigint req (sv_Ledger sv') = Inl LedgerCast"
    using duplicate_numbered [OF assms(11,12)] by simp
  then show ?thesis using assms(10,13) by (simp add: invokeLedgerAppend_eq)
qed


theorem unreadable_seq_poisons_witness:
  "invokeLedgerAppend demo_bigint demo_admin ''e9'' (demo_req ''engagement:tick'' ''y'' [(''seq'', JInt 8)]) 9
     (fold (sv_exec demo_bigint) demo_ops
       (snd (invokeLedgerAppend demo_bigint demo_admin ''e0'' (demo_req ''engagement:tick'' ''y'' [(''seq'', JStr ''x'')]) 1 empty_server)))
   = (Inl LedgerCast, fold (sv_exec demo_bigint) demo_ops
       (snd (invokeLedgerAppend demo_bigint demo_admin ''e0'' (demo_req ''engagement:tick'' ''y'' [(''seq'', JStr ''x'')]) 1 empty_server)))"
proof -
  let ?bad = "demo_req ''engagement:tick'' ''y'' [(''seq'', JStr ''x'')]" and ?req = "demo_req ''engagement:tick'' ''y'' [(''seq'', JInt 8)]"
  obtain r sv1 where r: "invokeLedgerAppend demo_bigint demo_admin ''e0'' ?bad 1 empty_server = (r, sv1)" by fastforce
  have "(case fst (invokeLedgerAppend demo_bigint demo_admin ''e0'' ?bad 1 empty_server) of Inr (Appended e) \<Rightarrow> True | _ \<Rightarrow> False)" by code_simp
  then obtain e where e: "invokeLedgerAppend demo_bigint demo_admin ''e0'' ?bad 1 empty_server = (Inr (Appended e), sv1)"
    using r by (auto split: sum.splits append_reply.splits)
  have f: "HasPrefix (an_Kind ?bad) engagement_prefix" "sql_field (an_Payload ?bad) ''seq'' = Some (JStr ''x'')" "demo_bigint (JStr ''x'') = None"
    "TrimSpace (an_SessionID ?bad) \<noteq> []" "TrimSpace (an_StoryID ?bad) \<noteq> []" "an_SessionID ?req = an_SessionID ?bad" "an_StoryID ?req = an_StoryID ?bad"
    "TrimSpace (an_Kind ?req) \<noteq> []" "HasPrefix (an_Kind ?req) engagement_prefix" "engagementSeq (an_Payload ?req) = Some 8"
    "requireLedgerAppendRole demo_admin (an_Kind ?req) = None" by code_simp+
  have x: "EngagementSeqExists demo_bigint (sv_Ledger empty_server) (an_SessionID ?bad) (an_StoryID ?bad) 8 \<noteq> Inr True" by code_simp
  have "empty_server = fold (sv_exec demo_bigint) [] empty_server" by simp
  from unreadable_seq_poisons [OF e f(1-5) x f(6-11) this refl] show ?thesis using e by simp
qed

lemma sync_one:
  assumes "LastFlushedSeq s = 0" and "EventsSince s 0 = [v]" and "le_Seq v = 1"
  shows "runWorkSync send True s sv = (case send v sv of (False, sv') \<Rightarrow> (Flushed 0, s, sv') | (True, sv') \<Rightarrow> (Flushed 1, SetLastFlushedSeq 1 s, sv'))"
    and "EventsSince (SetLastFlushedSeq 1 s) 1 = []"
proof -
  show "runWorkSync send True s sv = (case send v sv of (False, sv') \<Rightarrow> (Flushed 0, s, sv') | (True, sv') \<Rightarrow> (Flushed 1, SetLastFlushedSeq 1 s, sv'))"
    using assms by (auto simp: runWorkSync_def split: prod.splits bool.splits)
  have "EventsSince (SetLastFlushedSeq 1 s) 1 = filter (\<lambda>ev. 1 < le_Seq ev) (EventsSince s 0)"
    by (auto simp: EventsSince_filter SetLastFlushedSeq_def intro!: filter_cong)
  then show "EventsSince (SetLastFlushedSeq 1 s) 1 = []" using assms by simp
qed

lemma first_event:
  assumes "accepted e"
  obtains ev where "EventsSince (ws_exec (OpAppend c e) migrate) 0 = [ev]" "le_Seq ev = 1" "ev_Session (le_Event ev) = ev_Session e"
    "ev_Story (le_Event ev) = ev_Story e" "ev_Kind (le_Event ev) = ev_Kind e" "LastFlushedSeq (ws_exec (OpAppend c e) migrate) = 0"
  using assms by (auto simp: ws_defs accepted_def migrate_def ai_empty_def ai_insert_def EventsSince_def logged_def LastFlushedSeq_def)

text \<open>
  Stores that share a session lose events: two work trees without a session id flush under the
  session \<open>local\<close>; when each has logged its first event for one story, the second flush reports the
  event as sent and moves its mark, and the server is as it was, without a row for it.
\<close>

theorem shared_session_drops:
  assumes "casts bigint" and "e1 = e1'\<lparr>ev_Session := resolveSession env1 []\<rparr>" and "e2 = e2'\<lparr>ev_Session := resolveSession env2 []\<rparr>"
    and "TrimSpace env1 = []" and "TrimSpace env2 = []" and "ev_Story e1 = ev_Story e2" and "ev_Kind e1 = ev_Kind e2"
    and "accepted e1"
    and "runWorkSync (realLedgerAppender bigint ctx newID now fmt p1) True (ws_exec (OpAppend c1 e1) migrate) sv = (Flushed 1, s1, sv1)"
  shows "\<exists>s2. runWorkSync (realLedgerAppender bigint ctx newID now fmt p2) True (ws_exec (OpAppend c2 e2) migrate) sv1 = (Flushed 1, s2, sv1) \<and>
    LastFlushedSeq s2 = 1 \<and> EventsSince s2 (LastFlushedSeq s2) = []"
proof -
  have l: "ev_Session e1 = ''local''" "ev_Session e2 = ''local''" using assms(2-5) by (auto simp: resolveSession_def)
  have a2: "accepted e2" using assms(6-8) l by (simp add: accepted_def)
  obtain v1 where v1: "EventsSince (ws_exec (OpAppend c1 e1) migrate) 0 = [v1]" "le_Seq v1 = 1" "ev_Session (le_Event v1) = ev_Session e1"
      "ev_Story (le_Event v1) = ev_Story e1" "ev_Kind (le_Event v1) = ev_Kind e1" "LastFlushedSeq (ws_exec (OpAppend c1 e1) migrate) = 0"
    using first_event [OF assms(8)] by blast
  obtain v2 where v2: "EventsSince (ws_exec (OpAppend c2 e2) migrate) 0 = [v2]" "le_Seq v2 = 1" "ev_Session (le_Event v2) = ev_Session e2"
      "ev_Story (le_Event v2) = ev_Story e2" "ev_Kind (le_Event v2) = ev_Kind e2" "LastFlushedSeq (ws_exec (OpAppend c2 e2) migrate) = 0"
    using first_event [OF a2] by blast
  have s: "sendable v1" using v1 assms(8) by (simp add: sendable_def accepted_def int64_def)
  have "realLedgerAppender bigint ctx newID now fmt p1 v1 sv = (True, sv1)"
    using assms(9) unfolding sync_one(1) [OF v1(6,1,2)] by (auto split: prod.splits bool.splits)
  from sent [OF assms(1) this s] have "sent_ok bigint ctx sv1 v2"
    using v1(2-5) v2(2-5) assms(6,7) l by (simp add: sent_ok_def sendable_def delivered_def)
  then have r: "realLedgerAppender bigint ctx newID now fmt p2 v2 sv1 = (True, sv1)" by (rule resent)
  have "LastFlushedSeq (SetLastFlushedSeq 1 x) = 1" for x :: workstate by (simp add: LastFlushedSeq_def SetLastFlushedSeq_def)
  then show ?thesis using sync_one(2) [OF v2(6,1,2)] r unfolding sync_one(1) [OF v2(6,1,2)] by auto
qed


theorem shared_session_drops_witness:
  "\<exists>s1 sv1 s2. runWorkSync (realLedgerAppender demo_bigint demo_admin (\<lambda>s. ''e1'') (\<lambda>s. 5) (\<lambda>t. []) ''p1'') True
       (ws_exec (OpAppend 0 (ev1\<lparr>ev_Session := resolveSession [] []\<rparr>)) migrate) empty_server = (Flushed 1, s1, sv1) \<and>
     runWorkSync (realLedgerAppender demo_bigint demo_admin (\<lambda>s. ''e1'') (\<lambda>s. 5) (\<lambda>t. []) ''p2'') True
       (ws_exec (OpAppend 9 (ev1\<lparr>ev_Phase := ''other'', ev_Session := resolveSession [] []\<rparr>)) migrate) sv1 = (Flushed 1, s2, sv1)"
proof -
  let ?e1 = "ev1\<lparr>ev_Session := resolveSession [] []\<rparr>" and ?e2 = "ev1\<lparr>ev_Phase := ''other'', ev_Session := resolveSession [] []\<rparr>"
  let ?send = "realLedgerAppender demo_bigint demo_admin (\<lambda>s. ''e1'') (\<lambda>s. 5) (\<lambda>t. [])"
  obtain n s1 sv1 where r: "runWorkSync (?send ''p1'') True (ws_exec (OpAppend 0 ?e1) migrate) empty_server = (n, s1, sv1)" by (rule prod_cases3)
  have "fst (runWorkSync (?send ''p1'') True (ws_exec (OpAppend 0 ?e1) migrate) empty_server) = Flushed 1" by code_simp
  then have n: "n = Flushed 1" using r by simp
  have f: "TrimSpace [] = ([] :: string)" "ev_Story ?e1 = ev_Story ?e2" "ev_Kind ?e1 = ev_Kind ?e2" "accepted ?e1" by code_simp+
  have e2: "?e2 = (ev1\<lparr>ev_Phase := ''other''\<rparr>)\<lparr>ev_Session := resolveSession [] []\<rparr>" by simp
  from shared_session_drops [OF demo_casts refl e2 f(1,1,2,3,4) r [unfolded n]] show ?thesis using r unfolding n by blast
qed

end
