(* ===== verification/MemberVerbs.thy ===== *)
theory MemberVerbs
  imports Authz
begin

text \<open>
  The membership and mount verbs, \<^verbatim>\<open>internal/verb/workspace_member.go\<close>, \<^verbatim>\<open>project_member.go\<close>
  and \<^verbatim>\<open>workspace_mount.go\<close>, and the home move of \<^verbatim>\<open>project.go\<close>. A request is the decoded
  record; a verb returns an error or the new tables and its response. The clock is an argument.
  The notification that the tool list changed is not modelled. In the source a verb reads and writes with separate statements
  without a transaction; here a request is one step, so two requests that overlap are outside of what is shown.
\<close>

section \<open>Requests, responses, errors\<close>

record MemberRequest =
  mr_Scope :: string
  mr_UserID :: string
  mr_Role :: string

datatype verb_error =
    StoreNotConfigured
  | IdsMissing
  | RoleMissing
  | NotWorkspaceAdmin string
  | NotWorkspaceMember string
  | RoleAboveOwn
  | LastAdminDemoted string
  | LastAdminRemoved string
  | ProjectAdminRequired string
  | NoProjectAccess string
  | MemberFailed member_error
  | MemberLost
  | MountNotReadonly string
  | ProjectMissing
  | AlreadyHome string string
  | MoveForbidden
  | DestinationMissing string
  | DestinationMounts string
  | WorkspaceIdCleared
  | ProjectFailed pj_error

definition callerUserID :: "Ctx \<Rightarrow> string" where
  "callerUserID ctx = (case cx_User ctx of Some u \<Rightarrow> us_ID u | None \<Rightarrow> [])"

definition ids_blank :: "MemberRequest \<Rightarrow> bool" where
  "ids_blank req = (TrimSpace (mr_Scope req) = [] \<or> TrimSpace (mr_UserID req) = [])"

section \<open>Workspace members\<close>

definition invokeWorkspaceMemberAdd ::
  "Tenancy \<Rightarrow> Ctx \<Rightarrow> int \<Rightarrow> MemberRequest \<Rightarrow> verb_error + Tenancy \<times> WsMember" where
  "invokeWorkspaceMemberAdd db ctx now req =
     (if \<not> tn_WorkspaceStore db then Inl StoreNotConfigured
      else if ids_blank req then Inl IdsMissing
      else if TrimSpace (mr_Role req) = [] then Inl RoleMissing
      else if tn_AuthStore db \<and> \<not> canManageWorkspace db ctx (mr_Scope req)
        then Inl (NotWorkspaceAdmin (mr_Scope req))
      else if tn_AuthStore db \<and> \<not> callerWorkspaceRoleCeilingOK db ctx (mr_Scope req) (mr_Role req)
        then Inl RoleAboveOwn
      else case wsAddMember (tn_Members db) (mr_Scope req) (mr_UserID req) (mr_Role req) (callerUserID ctx) now of
        Inl e \<Rightarrow> Inl (MemberFailed e)
      | Inr rows \<Rightarrow>
         (case wsGetRole rows (mr_Scope req) (mr_UserID req) of
            None \<Rightarrow> Inl MemberLost
          | Some role \<Rightarrow> Inr (db\<lparr>tn_Members := rows\<rparr>,
              \<lparr>wm_WorkspaceID = mr_Scope req, wm_UserID = mr_UserID req, wm_Role = role,
               wm_AddedAt = now, wm_AddedBy = callerUserID ctx\<rparr>)))"

definition invokeWorkspaceMemberList ::
  "Tenancy \<Rightarrow> Ctx \<Rightarrow> string \<Rightarrow> verb_error + WsMember list" where
  "invokeWorkspaceMemberList db ctx wsID =
     (if \<not> tn_WorkspaceStore db then Inl StoreNotConfigured
      else if TrimSpace wsID = [] then Inl IdsMissing
      else if tn_AuthStore db \<and> \<not> isWorkspaceMember db ctx wsID then Inl (NotWorkspaceMember wsID)
      else Inr (wsListMembers (tn_Members db) wsID))"

text \<open>The guard of the last administrator: the target holds an administering role and is the only one.\<close>

definition is_last_admin :: "Tenancy \<Rightarrow> string \<Rightarrow> string \<Rightarrow> bool" where
  "is_last_admin db wsID userID =
     (case wsGetRole (tn_Members db) wsID userID of
        None \<Rightarrow> False
      | Some cur \<Rightarrow> admin_role cur \<and> CountAdmins (tn_Members db) wsID \<le> 1)"

definition invokeWorkspaceMemberUpdateRole ::
  "Tenancy \<Rightarrow> Ctx \<Rightarrow> int \<Rightarrow> MemberRequest \<Rightarrow> verb_error + Tenancy \<times> MemberRequest" where
  "invokeWorkspaceMemberUpdateRole db ctx now req =
     (if \<not> tn_WorkspaceStore db then Inl StoreNotConfigured
      else if ids_blank req then Inl IdsMissing
      else if TrimSpace (mr_Role req) = [] then Inl RoleMissing
      else if tn_AuthStore db \<and> \<not> canManageWorkspace db ctx (mr_Scope req)
        then Inl (NotWorkspaceAdmin (mr_Scope req))
      else if tn_AuthStore db \<and> \<not> callerWorkspaceRoleCeilingOK db ctx (mr_Scope req) (mr_Role req)
        then Inl RoleAboveOwn
      else if tn_AuthStore db \<and> workspaceRoleRank (mr_Role req) < workspaceRoleRank WsRoleAdmin \<and>
              is_last_admin db (mr_Scope req) (mr_UserID req)
        then Inl (LastAdminDemoted (mr_Scope req))
      else case wsUpdateRole (tn_Members db) (mr_Scope req) (mr_UserID req) (mr_Role req) now of
        Inl e \<Rightarrow> Inl (MemberFailed e)
      | Inr rows \<Rightarrow> Inr (db\<lparr>tn_Members := rows\<rparr>, req))"

definition invokeWorkspaceMemberRemove ::
  "Tenancy \<Rightarrow> Ctx \<Rightarrow> MemberRequest \<Rightarrow> verb_error + Tenancy" where
  "invokeWorkspaceMemberRemove db ctx req =
     (if \<not> tn_WorkspaceStore db then Inl StoreNotConfigured
      else if ids_blank req then Inl IdsMissing
      else if tn_AuthStore db \<and> \<not> canManageWorkspace db ctx (mr_Scope req)
        then Inl (NotWorkspaceAdmin (mr_Scope req))
      else if tn_AuthStore db \<and> is_last_admin db (mr_Scope req) (mr_UserID req)
        then Inl (LastAdminRemoved (mr_Scope req))
      else case wsRemoveMember (tn_Members db) (mr_Scope req) (mr_UserID req) of
        Inl e \<Rightarrow> Inl (MemberFailed e)
      | Inr rows \<Rightarrow> Inr (db\<lparr>tn_Members := rows\<rparr>))"

section \<open>Project members\<close>

definition requireProjectAdmin :: "Tenancy \<Rightarrow> Ctx \<Rightarrow> string \<Rightarrow> verb_error option" where
  "requireProjectAdmin db ctx projectID =
     (if \<not> tn_AuthStore db then None
      else if \<not> effectiveProjectRoleAtLeast db ctx projectID PjRoleAdmin then Some (ProjectAdminRequired projectID)
      else None)"

definition invokeProjectAccess :: "Tenancy \<Rightarrow> Ctx \<Rightarrow> string \<Rightarrow> verb_error + string" where
  "invokeProjectAccess db ctx projectID =
     (if TrimSpace projectID = [] then Inl IdsMissing else Inr (effectiveProjectRole db ctx projectID))"

definition invokeProjectMemberAdd ::
  "Tenancy \<Rightarrow> Ctx \<Rightarrow> int \<Rightarrow> MemberRequest \<Rightarrow> verb_error + Tenancy \<times> PjMember" where
  "invokeProjectMemberAdd db ctx now req =
     (if \<not> tn_ProjectStore db then Inl StoreNotConfigured
      else if ids_blank req then Inl IdsMissing
      else if TrimSpace (mr_Role req) = [] then Inl RoleMissing
      else case requireProjectAdmin db ctx (mr_Scope req) of Some e \<Rightarrow> Inl e
      | None \<Rightarrow>
         (if tn_AuthStore db \<and> \<not> callerProjectRoleCeilingOK db ctx (mr_Scope req) (mr_Role req)
          then Inl RoleAboveOwn
          else case pjAddMember (tn_ProjectMembers db) (mr_Scope req) (mr_UserID req) (mr_Role req)
                 (callerUserID ctx) now of
            Inl e \<Rightarrow> Inl (MemberFailed e)
          | Inr rows \<Rightarrow>
             (case pjGetRole rows (mr_Scope req) (mr_UserID req) of
                None \<Rightarrow> Inl MemberLost
              | Some role \<Rightarrow> Inr (db\<lparr>tn_ProjectMembers := rows\<rparr>,
                  \<lparr>pm_ProjectID = mr_Scope req, pm_UserID = mr_UserID req, pm_Role = role,
                   pm_AddedAt = now, pm_AddedBy = callerUserID ctx, pm_Source = []\<rparr>))))"

text \<open>The workspace's owners and administrators who have no explicit row, once each.\<close>

fun inherited_loop :: "string \<Rightarrow> string list \<Rightarrow> WsMember list \<Rightarrow> PjMember list" where
  "inherited_loop projectID seen [] = []"
| "inherited_loop projectID seen (wm # ms) =
     (if wm_Role wm \<noteq> WsRoleOwner \<and> wm_Role wm \<noteq> WsRoleAdmin then inherited_loop projectID seen ms
      else if wm_UserID wm \<in> set seen then inherited_loop projectID seen ms
      else \<lparr>pm_ProjectID = projectID, pm_UserID = wm_UserID wm, pm_Role = PjRoleAdmin,
            pm_AddedAt = wm_AddedAt wm, pm_AddedBy = [], pm_Source = ''workspace''\<rparr>
           # inherited_loop projectID (wm_UserID wm # seen) ms)"

definition inheritedWorkspaceAdmins :: "Tenancy \<Rightarrow> string \<Rightarrow> PjMember list \<Rightarrow> PjMember list" where
  "inheritedWorkspaceAdmins db projectID explicit =
     (if \<not> tn_ProjectStore db \<or> \<not> tn_WorkspaceStore db then []
      else case pjGetByID (tn_Projects db) projectID of
        None \<Rightarrow> []
      | Some pj \<Rightarrow>
          (if pj_WorkspaceID pj = [] then []
           else inherited_loop projectID (map pm_UserID explicit)
                  (wsListMembers (tn_Members db) (pj_WorkspaceID pj))))"

definition invokeProjectMemberList :: "Tenancy \<Rightarrow> Ctx \<Rightarrow> string \<Rightarrow> verb_error + PjMember list" where
  "invokeProjectMemberList db ctx projectID =
     (if \<not> tn_ProjectStore db then Inl StoreNotConfigured
      else if TrimSpace projectID = [] then Inl IdsMissing
      else if tn_AuthStore db \<and> \<not> effectiveProjectRoleAtLeast db ctx projectID PjRoleRead
        then Inl (NoProjectAccess projectID)
      else let ms = map (\<lambda>m. m\<lparr>pm_Source := ''project''\<rparr>) (pjListMembers (tn_ProjectMembers db) projectID)
        in Inr (ms @ inheritedWorkspaceAdmins db projectID ms))"

definition invokeProjectMemberUpdateRole ::
  "Tenancy \<Rightarrow> Ctx \<Rightarrow> int \<Rightarrow> MemberRequest \<Rightarrow> verb_error + Tenancy \<times> MemberRequest" where
  "invokeProjectMemberUpdateRole db ctx now req =
     (if \<not> tn_ProjectStore db then Inl StoreNotConfigured
      else if ids_blank req then Inl IdsMissing
      else if TrimSpace (mr_Role req) = [] then Inl RoleMissing
      else case requireProjectAdmin db ctx (mr_Scope req) of Some e \<Rightarrow> Inl e
      | None \<Rightarrow>
         (if tn_AuthStore db \<and> \<not> callerProjectRoleCeilingOK db ctx (mr_Scope req) (mr_Role req)
          then Inl RoleAboveOwn
          else case pjUpdateRole (tn_ProjectMembers db) (mr_Scope req) (mr_UserID req) (mr_Role req) now of
            Inl e \<Rightarrow> Inl (MemberFailed e)
          | Inr rows \<Rightarrow> Inr (db\<lparr>tn_ProjectMembers := rows\<rparr>, req)))"

definition invokeProjectMemberRemove :: "Tenancy \<Rightarrow> Ctx \<Rightarrow> MemberRequest \<Rightarrow> verb_error + Tenancy" where
  "invokeProjectMemberRemove db ctx req =
     (if \<not> tn_ProjectStore db then Inl StoreNotConfigured
      else if ids_blank req then Inl IdsMissing
      else case requireProjectAdmin db ctx (mr_Scope req) of Some e \<Rightarrow> Inl e
      | None \<Rightarrow>
         (case pjRemoveMember (tn_ProjectMembers db) (mr_Scope req) (mr_UserID req) of
            Inl e \<Rightarrow> Inl (MemberFailed e)
          | Inr rows \<Rightarrow> Inr (db\<lparr>tn_ProjectMembers := rows\<rparr>)))"

section \<open>Mounts\<close>

record MountView =
  mv_WorkspaceID :: string
  mv_ProjectID :: string
  mv_Access :: string
  mv_Name :: string
  mv_Status :: string
  mv_HomeWorkspaceID :: string

definition invokeWorkspaceMountAdd ::
  "Tenancy \<Rightarrow> Ctx \<Rightarrow> int \<Rightarrow> string \<Rightarrow> string \<Rightarrow> string \<Rightarrow> verb_error + Tenancy \<times> MountView" where
  "invokeWorkspaceMountAdd db ctx now workspaceID projectID access =
     (if \<not> tn_WorkspaceStore db \<or> \<not> tn_ProjectStore db then Inl StoreNotConfigured
      else let wsID = TrimSpace workspaceID; pjID = TrimSpace projectID; a = ToLower (TrimSpace access) in
        if wsID = [] \<or> pjID = [] then Inl IdsMissing
        else if a \<noteq> [] \<and> a \<noteq> AccessRead \<and> a \<noteq> ''readonly'' then Inl (MountNotReadonly access)
        else if tn_AuthStore db \<and> \<not> canManageWorkspace db ctx wsID then Inl (NotWorkspaceAdmin wsID)
        else case pjGetByID (tn_Projects db) pjID of
          None \<Rightarrow> Inl ProjectMissing
        | Some pj \<Rightarrow>
            (if pj_WorkspaceID pj = wsID then Inl (AlreadyHome pjID wsID)
             else case AddMount (tn_Mounts db) wsID pjID (callerUserID ctx) now of
               Inl e \<Rightarrow> Inl (MemberFailed e)
             | Inr rows \<Rightarrow> Inr (db\<lparr>tn_Mounts := rows\<rparr>,
                 \<lparr>mv_WorkspaceID = wsID, mv_ProjectID = pjID, mv_Access = AccessRead,
                  mv_Name = pj_Name pj, mv_Status = pj_Status pj, mv_HomeWorkspaceID = pj_WorkspaceID pj\<rparr>)))"

definition invokeWorkspaceMountRemove ::
  "Tenancy \<Rightarrow> Ctx \<Rightarrow> string \<Rightarrow> string \<Rightarrow> verb_error + Tenancy" where
  "invokeWorkspaceMountRemove db ctx workspaceID projectID =
     (if \<not> tn_WorkspaceStore db then Inl StoreNotConfigured
      else let wsID = TrimSpace workspaceID; pjID = TrimSpace projectID in
        if wsID = [] \<or> pjID = [] then Inl IdsMissing
        else if tn_AuthStore db \<and> \<not> canManageWorkspace db ctx wsID then Inl (NotWorkspaceAdmin wsID)
        else Inr (db\<lparr>tn_Mounts := RemoveMount (tn_Mounts db) wsID pjID\<rparr>))"

definition mount_view :: "Project list \<Rightarrow> Mount \<Rightarrow> MountView" where
  "mount_view projects m =
     (let v = \<lparr>mv_WorkspaceID = mt_WorkspaceID m, mv_ProjectID = mt_ProjectID m, mv_Access = mt_Access m,
               mv_Name = [], mv_Status = [], mv_HomeWorkspaceID = []\<rparr>
      in case pjGetByID projects (mt_ProjectID m) of
           None \<Rightarrow> v
         | Some pj \<Rightarrow> v\<lparr>mv_Name := pj_Name pj, mv_Status := pj_Status pj, mv_HomeWorkspaceID := pj_WorkspaceID pj\<rparr>)"

definition invokeWorkspaceMountList :: "Tenancy \<Rightarrow> Ctx \<Rightarrow> string \<Rightarrow> verb_error + MountView list" where
  "invokeWorkspaceMountList db ctx workspaceID =
     (if \<not> tn_WorkspaceStore db \<or> \<not> tn_ProjectStore db then Inl StoreNotConfigured
      else let wsID = TrimSpace workspaceID in
        if wsID = [] then Inl IdsMissing
        else if tn_AuthStore db \<and> \<not> isWorkspaceMember db ctx wsID then Inl (NotWorkspaceMember wsID)
        else Inr (map (mount_view (tn_Projects db)) (ListMounts (tn_Mounts db) wsID)))"

section \<open>The home move\<close>

definition moveProjectHome ::
  "Tenancy \<Rightarrow> Ctx \<Rightarrow> int \<Rightarrow> Project \<Rightarrow> string \<Rightarrow> verb_error + Tenancy" where
  "moveProjectHome db ctx now p destWsID =
     (if \<not> tn_WorkspaceStore db then Inl StoreNotConfigured
      else if tn_AuthStore db \<and>
        (\<not> canManageWorkspace db ctx (pj_WorkspaceID p) \<or> \<not> canManageWorkspace db ctx destWsID)
        then Inl MoveForbidden
      else case wkGetByID (tn_Workspaces db) destWsID of
        None \<Rightarrow> Inl (DestinationMissing destWsID)
      | Some w \<Rightarrow>
          (if MountExists (tn_Mounts db) destWsID (pj_ID p) then Inl (DestinationMounts destWsID)
           else case SetWorkspace (tn_Projects db) (pj_ID p) destWsID now of
             Inl e \<Rightarrow> Inl (ProjectFailed e)
           | Inr rows \<Rightarrow> Inr (db\<lparr>tn_Projects := rows\<rparr>)))"

text \<open>
  The update verb keeps the tables of a move that succeeded even when the field patch after it
  is refused, so the tables are returned beside the result.
\<close>

definition project_move_step ::
  "Tenancy \<Rightarrow> Ctx \<Rightarrow> int \<Rightarrow> string \<Rightarrow> string option \<Rightarrow> verb_error + Tenancy" where
  "project_move_step db ctx now i workspaceID =
     (case workspaceID of
        None \<Rightarrow> Inr db
      | Some dest0 \<Rightarrow>
         (case pjGetByID (tn_Projects db) i of
            None \<Rightarrow> Inl ProjectMissing
          | Some cur \<Rightarrow>
             (let dest = TrimSpace dest0 in
              if dest = [] then Inl WorkspaceIdCleared
              else if dest \<noteq> pj_WorkspaceID cur then moveProjectHome db ctx now cur dest
              else Inr db)))"

definition invokeProjectUpdate ::
  "Tenancy \<Rightarrow> Ctx \<Rightarrow> int \<Rightarrow> string \<Rightarrow> string option \<Rightarrow> UpdateInput \<Rightarrow> Tenancy \<times> (verb_error + Project)" where
  "invokeProjectUpdate db ctx now i workspaceID upd =
     (if \<not> tn_ProjectStore db then (db, Inl StoreNotConfigured)
      else if TrimSpace i = [] then (db, Inl IdsMissing)
      else if tn_AuthStore db \<and> \<not> effectiveProjectRoleAtLeast db ctx i PjRoleAdmin
        then (db, Inl (ProjectAdminRequired i))
      else case project_move_step db ctx now i workspaceID of
        Inl e \<Rightarrow> (db, Inl e)
      | Inr db1 \<Rightarrow>
         (case pjUpdate (tn_Projects db1) i upd now of
            Inl e \<Rightarrow> (db1, Inl (ProjectFailed e))
          | Inr (rows, p) \<Rightarrow> (db1\<lparr>tn_Projects := rows\<rparr>, Inr p)))"

section \<open>The single writable home\<close>

text \<open>No workspace is the home of a project and mounts it.\<close>

definition home_not_mounted :: "Tenancy \<Rightarrow> bool" where
  "home_not_mounted db = (\<forall>m \<in> set (tn_Mounts db). \<forall>p \<in> set (tn_Projects db).
     pj_ID p = mt_ProjectID m \<longrightarrow> pj_WorkspaceID p \<noteq> mt_WorkspaceID m)"

lemma home_not_mountedI:
  "(\<And>m p. m \<in> set (tn_Mounts db) \<Longrightarrow> p \<in> set (tn_Projects db) \<Longrightarrow> pj_ID p = mt_ProjectID m \<Longrightarrow>
     pj_WorkspaceID p \<noteq> mt_WorkspaceID m) \<Longrightarrow> home_not_mounted db"
  by (simp add: home_not_mounted_def)

lemma home_not_mountedD:
  "home_not_mounted db \<Longrightarrow> m \<in> set (tn_Mounts db) \<Longrightarrow> p \<in> set (tn_Projects db) \<Longrightarrow> pj_ID p = mt_ProjectID m \<Longrightarrow>
     pj_WorkspaceID p \<noteq> mt_WorkspaceID m"
  by (simp add: home_not_mounted_def)

lemma AddMount_set:
  assumes "AddMount rows w p b now = Inr rows'" and "m \<in> set rows'"
  shows "mt_key m = (w, p) \<or> (\<exists>m0 \<in> set rows. mt_key m0 = mt_key m)"
proof -
  let ?r = "\<lparr>mt_WorkspaceID = w, mt_ProjectID = p, mt_Access = AccessRead, mt_CreatedAt = now, mt_CreatedBy = b\<rparr>"
  have "m \<in> set (upsert_row mt_key
      (\<lambda>m. m\<lparr>mt_Access := AccessRead, mt_CreatedAt := now, mt_CreatedBy := b\<rparr>) ?r rows)"
    using assms by (simp add: AddMount_def split: if_splits)
  from set_upsert [OF this] show ?thesis by (auto simp: mt_key_def)
qed

lemma AddMount_reads:
  assumes "AddMount rows w p b now = Inr rows'"
  shows "\<exists>m \<in> set rows'. mt_WorkspaceID m = w \<and> mt_ProjectID m = p"
proof -
  let ?r = "\<lparr>mt_WorkspaceID = w, mt_ProjectID = p, mt_Access = AccessRead, mt_CreatedAt = now, mt_CreatedBy = b\<rparr>"
  have k: "mt_key ?r = (w, p)" by (simp add: mt_key_def)
  have "rows' = upsert_row mt_key (\<lambda>m. m\<lparr>mt_Access := AccessRead, mt_CreatedAt := now, mt_CreatedBy := b\<rparr>) ?r rows"
    using assms by (simp add: AddMount_def split: if_splits)
  then have "row_at mt_key (w, p) rows' \<noteq> None"
    using row_at_upsert [of mt_key ?r "\<lambda>m. m\<lparr>mt_Access := AccessRead, mt_CreatedAt := now, mt_CreatedBy := b\<rparr>"
        "(w, p)" rows] by (simp add: k mt_key_def)
  then show ?thesis by (auto simp: row_at_None mt_key_def)
qed

lemma SetWorkspace_set:
  assumes "SetWorkspace rows i w now = Inr rows'" and "p \<in> set rows'"
  shows "pj_ID p = i \<and> pj_WorkspaceID p = w \<or> (\<exists>p0 \<in> set rows. pj_ID p0 = pj_ID p \<and> pj_WorkspaceID p0 = pj_WorkspaceID p)"
  using assms by (auto simp: SetWorkspace_def Let_def update_rows_def split: if_splits)

lemma pjUpdate_homes:
  assumes "pjUpdate rows i upd now = Inr (rows', q)" and "p \<in> set rows'"
  shows "\<exists>p0 \<in> set rows. pj_ID p0 = pj_ID p \<and> pj_WorkspaceID p0 = pj_WorkspaceID p"
proof -
  obtain n d t c tags where "rows' = fst (update_rows (\<lambda>r. pj_ID r = i) (patch_row n d t c now tags) rows)"
    using pjUpdate_rows [OF assms(1)] by blast
  then obtain x where "x \<in> set rows" "p = (if pj_ID x = i then patch_row n d t c now tags x else x)"
    using assms(2) by (auto simp: update_rows_def)
  then show ?thesis by (intro bexI [of _ x]) auto
qed

lemma pjGetByID_home:
  assumes "pjGetByID rows i = Some q" and "unique_key pj_ID rows" and "p \<in> set rows" and "pj_ID p = i"
  shows "pj_WorkspaceID p = pj_WorkspaceID q"
  using assms row_at_unique [OF assms(2,3)] by (auto simp: pjGetByID_def scanProject_def)

lemma move_step_invariant:
  assumes "home_not_mounted db" and "project_move_step db ctx now i dest = Inr db'"
  shows "home_not_mounted db' \<and> tn_Mounts db' = tn_Mounts db"
proof (cases "db' = db")
  case False
  then obtain cur d where m: "moveProjectHome db ctx now cur d = Inr db'"
    using assms(2) by (auto simp: project_move_step_def Let_def split: option.splits if_splits)
  then obtain rows where n: "\<not> MountExists (tn_Mounts db) d (pj_ID cur)"
    and s: "SetWorkspace (tn_Projects db) (pj_ID cur) d now = Inr rows" and d: "db' = db\<lparr>tn_Projects := rows\<rparr>"
    by (auto simp: moveProjectHome_def split: option.splits if_splits sum.splits)
  have ne: "pj_ID cur \<noteq> []" "d \<noteq> []" using s by (auto simp: SetWorkspace_def split: if_splits)
  show ?thesis
  proof (intro conjI home_not_mountedI)
    fix m p assume mp: "m \<in> set (tn_Mounts db')" "p \<in> set (tn_Projects db')" "pj_ID p = mt_ProjectID m"
    have "p \<in> set rows" using mp(2) d by simp
    from SetWorkspace_set [OF s this] show "pj_WorkspaceID p \<noteq> mt_WorkspaceID m"
    proof
      assume "pj_ID p = pj_ID cur \<and> pj_WorkspaceID p = d"
      then show ?thesis using n ne mp d by (auto simp: MountExists_def list_ex_iff)
    next
      assume "\<exists>p0 \<in> set (tn_Projects db). pj_ID p0 = pj_ID p \<and> pj_WorkspaceID p0 = pj_WorkspaceID p"
      then show ?thesis using home_not_mountedD [OF assms(1)] mp(1,3) d by fastforce
    qed
  qed (simp add: d)
qed (use assms in simp)

lemma mount_add_invariant:
  assumes "home_not_mounted db" and "unique_key pj_ID (tn_Projects db)"
    and "invokeWorkspaceMountAdd db ctx now w p a = Inr (db', v)"
  shows "home_not_mounted db'"
proof -
  from assms(3) obtain pj rows where g: "pjGetByID (tn_Projects db) (TrimSpace p) = Some pj" "pj_WorkspaceID pj \<noteq> TrimSpace w"
    and r: "AddMount (tn_Mounts db) (TrimSpace w) (TrimSpace p) (callerUserID ctx) now = Inr rows"
    and d: "db' = db\<lparr>tn_Mounts := rows\<rparr>"
    unfolding invokeWorkspaceMountAdd_def by (auto simp: Let_def split: if_splits option.splits sum.splits)
  show ?thesis
  proof (rule home_not_mountedI)
    fix m q assume mq: "m \<in> set (tn_Mounts db')" "q \<in> set (tn_Projects db')" "pj_ID q = mt_ProjectID m"
    have "m \<in> set rows" using mq(1) d by simp
    from AddMount_set [OF r this] show "pj_WorkspaceID q \<noteq> mt_WorkspaceID m"
    proof
      assume "mt_key m = (TrimSpace w, TrimSpace p)"
      then show ?thesis using pjGetByID_home [OF g(1) assms(2), of q] g(2) mq d by (simp add: mt_key_def)
    next
      assume "\<exists>m0 \<in> set (tn_Mounts db). mt_key m0 = mt_key m"
      then show ?thesis using home_not_mountedD [OF assms(1)] mq(2,3) d by (fastforce simp: mt_key_def)
    qed
  qed
qed

lemma project_update_invariant:
  assumes "home_not_mounted db" and "invokeProjectUpdate db ctx now p dest upd = (db', res)"
  shows "home_not_mounted db'"
proof -
  note u = assms(2)
  show ?thesis
  proof (cases "project_move_step db ctx now p dest")
    case (Inl e)
    then have "db' = db" using u by (auto simp: invokeProjectUpdate_def split: if_splits)
    then show ?thesis using assms(1) by simp
  next
    case (Inr db1)
    have h: "home_not_mounted db1" using move_step_invariant [OF assms(1) Inr] by simp
    show ?thesis
    proof (cases "pjUpdate (tn_Projects db1) p upd now")
      case (Inl e)
      then have "db' = db \<or> db' = db1" using u Inr by (auto simp: invokeProjectUpdate_def split: if_splits)
      then show ?thesis using h assms(1) by auto
    next
      case q: (Inr q)
      then obtain rows pr where rows: "pjUpdate (tn_Projects db1) p upd now = Inr (rows, pr)" by (cases q) auto
      then have "db' = db \<or> db' = db1\<lparr>tn_Projects := rows\<rparr>"
        using u Inr by (auto simp: invokeProjectUpdate_def split: if_splits)
      moreover have "home_not_mounted (db1\<lparr>tn_Projects := rows\<rparr>)"
        using pjUpdate_homes [OF rows] home_not_mountedD [OF h]
        by (intro home_not_mountedI) fastforce
      ultimately show ?thesis using assms(1) by auto
    qed
  qed
qed

section \<open>Counting administrators\<close>

text \<open>The administrators of a workspace: those at other keys, and the one at this key.\<close>

lemma CountAdmins_split:
  assumes "unique_key wm_key rows"
  shows "CountAdmins rows w = CountAdmins (filter (\<lambda>m. wm_key m \<noteq> (s, u)) rows) w +
    (case wsGetRole rows s u of Some r \<Rightarrow> (if s = w \<and> admin_role r then 1 else 0) | None \<Rightarrow> 0)"
proof -
  have "wm_WorkspaceID m = s" if "row_at wm_key (s, u) rows = Some m" for m
    using row_at_Some [OF that] by (simp add: wm_key_def)
  then show ?thesis
    unfolding CountAdmins_def count_split [OF assms, of _ "(s, u)"]
    by (auto simp: wsGetRole_def split: option.split)
qed

lemma CountAdmins_upd:
  assumes "unique_key wm_key rows" and "wsUpdateRole rows s u r now = Inr rows'"
  shows "CountAdmins rows' w = CountAdmins (filter (\<lambda>m. wm_key m \<noteq> (s, u)) rows) w +
    (if s = w \<and> admin_role r then 1 else 0)"
proof -
  have r: "rows' = fst (update_rows (\<lambda>m. wm_key m = (s, u)) (\<lambda>m. m\<lparr>wm_Role := r, wm_AddedAt := now\<rparr>) rows)"
    using assms(2) by (auto simp: wsUpdateRole_def split_beta split: if_splits)
  have "unique_key wm_key rows'" unfolding r by (rule unique_key_update) (simp_all add: assms(1))
  moreover have "wsGetRole rows' s u = Some r" using wsm.role_upd [OF assms(2), of s u] by simp
  moreover have "filter (\<lambda>m. wm_key m \<noteq> (s, u)) rows' = filter (\<lambda>m. wm_key m \<noteq> (s, u)) rows"
    unfolding r by (rule filter_update_other) simp
  ultimately show ?thesis using CountAdmins_split [of rows' w s u] by simp
qed

lemma CountAdmins_add:
  assumes "unique_key wm_key rows" and "wsAddMember rows s u r b now = Inr rows'"
  shows "CountAdmins rows' w = CountAdmins (filter (\<lambda>m. wm_key m \<noteq> (s, u)) rows) w +
    (if s = w \<and> admin_role r then 1 else 0)"
proof -
  let ?row = "\<lparr>wm_WorkspaceID = s, wm_UserID = u, wm_Role = r, wm_AddedAt = now, wm_AddedBy = b\<rparr>"
  let ?f = "\<lambda>m. m\<lparr>wm_Role := r, wm_AddedAt := now, wm_AddedBy := b\<rparr>"
  have k: "wm_key ?row = (s, u)" by (simp add: wm_key_def)
  have r: "rows' = upsert_row wm_key ?f ?row rows"
    using assms(2) by (simp add: wsAddMember_def split: if_splits)
  have "unique_key wm_key rows'" unfolding r by (rule unique_key_upsert [OF assms(1)]) simp
  moreover have "wsGetRole rows' s u = Some r" using wsm.role_add [OF assms(2), of s u] by simp
  moreover have "filter (\<lambda>m. wm_key m \<noteq> (s, u)) rows' = filter (\<lambda>m. wm_key m \<noteq> (s, u)) rows"
    unfolding r using filter_upsert_other [of wm_key ?row ?f rows] by (simp add: k)
  ultimately show ?thesis using CountAdmins_split [of rows' w s u] by simp
qed

lemma rows_of_remove:
  "wsRemoveMember rows s u = Inr rows' \<Longrightarrow> rows' = filter (\<lambda>m. wm_key m \<noteq> (s, u)) rows"
  by (auto simp: wsRemoveMember_def split_beta filter_delete_key split: if_splits)

lemma admin_rank: "admin_role r \<longleftrightarrow> workspaceRoleRank WsRoleAdmin \<le> workspaceRoleRank r"
  by (simp add: admin_role_def workspaceRoleRank_def WsRoleOwner_def WsRoleAdmin_def WsRoleMember_def)

lemma remaining_admin:
  assumes "unique_key wm_key (tn_Members db)" and "1 \<le> CountAdmins (tn_Members db) w"
    and "\<not> is_last_admin db s u \<or> s \<noteq> w"
  shows "1 \<le> CountAdmins (filter (\<lambda>m. wm_key m \<noteq> (s, u)) (tn_Members db)) w"
  using assms(2,3) CountAdmins_split [OF assms(1), of w s u]
  by (auto simp: is_last_admin_def split: option.splits if_splits)

section \<open>Properties\<close>

text \<open>
  C22: with authentication wired and requests handled one after the other, changing a role and removing a member never leave a workspace
  without an owner or administrator that had one, in whatever workspace the request names.
\<close>

theorem last_admin_kept:
  assumes "unique_key wm_key (tn_Members db)" and "tn_AuthStore db" and "1 \<le> CountAdmins (tn_Members db) w"
    and "invokeWorkspaceMemberUpdateRole db ctx now req = Inr (db', resp)
       \<or> invokeWorkspaceMemberRemove db ctx req = Inr db'"
  shows "1 \<le> CountAdmins (tn_Members db') w"
  using assms(4)
proof
  assume "invokeWorkspaceMemberUpdateRole db ctx now req = Inr (db', resp)"
  then obtain rows where u: "wsUpdateRole (tn_Members db) (mr_Scope req) (mr_UserID req) (mr_Role req) now = Inr rows"
    and d: "db' = db\<lparr>tn_Members := rows\<rparr>"
    and g: "\<not> (workspaceRoleRank (mr_Role req) < workspaceRoleRank WsRoleAdmin \<and>
              is_last_admin db (mr_Scope req) (mr_UserID req))"
    using assms(2) unfolding invokeWorkspaceMemberUpdateRole_def by (auto split: if_splits sum.splits)
  show ?thesis
  proof (cases "mr_Scope req = w \<and> admin_role (mr_Role req)")
    case True
    then show ?thesis using CountAdmins_upd [OF assms(1) u, of w] d by simp
  next
    case False
    then have "\<not> is_last_admin db (mr_Scope req) (mr_UserID req) \<or> mr_Scope req \<noteq> w"
      using g by (auto simp: admin_rank)
    then show ?thesis using remaining_admin [OF assms(1,3)] CountAdmins_upd [OF assms(1) u, of w] d by simp
  qed
next
  assume "invokeWorkspaceMemberRemove db ctx req = Inr db'"
  then obtain rows where u: "wsRemoveMember (tn_Members db) (mr_Scope req) (mr_UserID req) = Inr rows"
    and d: "db' = db\<lparr>tn_Members := rows\<rparr>" and g: "\<not> is_last_admin db (mr_Scope req) (mr_UserID req)"
    using assms(2) unfolding invokeWorkspaceMemberRemove_def by (auto split: if_splits sum.splits)
  show ?thesis using remaining_admin [OF assms(1,3), of "mr_Scope req" "mr_UserID req"] g rows_of_remove [OF u] d
    by simp
qed

text \<open>Two users of one workspace: the owner, and a delegated administrator.\<close>

definition sample_member :: "string \<Rightarrow> string \<Rightarrow> WsMember" where
  "sample_member u r = \<lparr>wm_WorkspaceID = ''w'', wm_UserID = u, wm_Role = r, wm_AddedAt = 0, wm_AddedBy = []\<rparr>"

definition sample_db :: "WsMember list \<Rightarrow> Tenancy" where
  "sample_db ms = \<lparr>tn_AuthStore = True, tn_WorkspaceStore = True, tn_ProjectStore = True, tn_Workspaces = [],
     tn_Members = ms, tn_Mounts = [], tn_Projects = [\<lparr>pj_ID = ''p'', pj_WorkspaceID = ''x'', pj_Name = ''n'',
       pj_Description = [], pj_Type = [], pj_GitURLCanonical = [], pj_Tags = [], pj_Phase = [],
       pj_OwnerUserID = [], pj_Status = ''active'', pj_CreatedAt = 0, pj_UpdatedAt = 0, pj_SeedMD = [],
       pj_SeedUpdatedAt = None, pj_NonRepo = True\<rparr>], tn_ProjectMembers = []\<rparr>"

definition sample_user :: "string \<Rightarrow> Ctx" where
  "sample_user u = \<lparr>cx_User = Some \<lparr>us_ID = u, us_Role = ''user''\<rparr>, cx_APIKeyProject = [], cx_APIKeyRole = [],
     cx_AgentRole = None\<rparr>"

lemma sample_ws_ok: "unique_key wm_key [sample_member ''o'' ''owner'', sample_member ''a'' ''admin'']"
  by code_simp

theorem last_admin_kept_witness:
  "case invokeWorkspaceMemberRemove (sample_db [sample_member ''o'' ''owner'', sample_member ''a'' ''admin''])
     (sample_user ''a'') \<lparr>mr_Scope = ''w'', mr_UserID = ''o'', mr_Role = []\<rparr> of
   Inr db' \<Rightarrow> 1 \<le> CountAdmins (tn_Members db') ''w'' | Inl e \<Rightarrow> False"
proof -
  let ?db = "sample_db [sample_member ''o'' ''owner'', sample_member ''a'' ''admin'']"
  let ?req = "\<lparr>mr_Scope = ''w'', mr_UserID = ''o'', mr_Role = []\<rparr>"
  let ?db' = "sample_db [sample_member ''a'' ''admin'']"
  have r: "invokeWorkspaceMemberRemove ?db (sample_user ''a'') ?req = Inr ?db'" by code_simp
  have "unique_key wm_key (tn_Members ?db)" "tn_AuthStore ?db" "1 \<le> CountAdmins (tn_Members ?db) ''w''"
    by code_simp+
  then have "1 \<le> CountAdmins (tn_Members ?db') ''w''"
    using last_admin_kept [of ?db "''w''" "sample_user ''a''" 0 ?req ?db'] r by blast
  with r show ?thesis by simp
qed

text \<open>
  Adding a member updates an existing row without the guard of the last administrator: the last
  administrator who is added again as a plain member leaves the workspace with none.
\<close>

theorem add_orphans_workspace:
  assumes "unique_key wm_key (tn_Members db)" and "CountAdmins (tn_Members db) w = 1"
    and "wsGetRole (tn_Members db) w u = Some cur" and "admin_role cur"
    and "invokeWorkspaceMemberAdd db ctx now \<lparr>mr_Scope = w, mr_UserID = u, mr_Role = WsRoleMember\<rparr> = Inr (db', m)"
  shows "CountAdmins (tn_Members db') w = 0"
proof -
  obtain rows where r: "wsAddMember (tn_Members db) w u WsRoleMember (callerUserID ctx) now = Inr rows"
    and d: "db' = db\<lparr>tn_Members := rows\<rparr>"
    using assms(5) unfolding invokeWorkspaceMemberAdd_def
    by (auto split: if_splits sum.splits option.splits)
  have "\<not> admin_role WsRoleMember"
    by (simp add: admin_role_def WsRoleMember_def WsRoleOwner_def WsRoleAdmin_def)
  then show ?thesis
    using CountAdmins_add [OF assms(1) r, of w] CountAdmins_split [OF assms(1), of w w u] assms(2-4) d by simp
qed

theorem add_orphans_workspace_witness:
  "case invokeWorkspaceMemberAdd (sample_db [sample_member ''o'' ''owner'']) (sample_user ''o'') 1
     \<lparr>mr_Scope = ''w'', mr_UserID = ''o'', mr_Role = WsRoleMember\<rparr> of
   Inr (db', m) \<Rightarrow> CountAdmins (tn_Members db') ''w'' = 0 | Inl e \<Rightarrow> False"
proof -
  let ?db = "sample_db [sample_member ''o'' ''owner'']"
  let ?req = "\<lparr>mr_Scope = ''w'', mr_UserID = ''o'', mr_Role = WsRoleMember\<rparr>"
  let ?m = "\<lparr>wm_WorkspaceID = ''w'', wm_UserID = ''o'', wm_Role = ''member'', wm_AddedAt = 1, wm_AddedBy = ''o''\<rparr>"
  have r: "invokeWorkspaceMemberAdd ?db (sample_user ''o'') 1 ?req = Inr (sample_db [?m], ?m)" by code_simp
  have "unique_key wm_key (tn_Members ?db)" "CountAdmins (tn_Members ?db) ''w'' = 1"
    "wsGetRole (tn_Members ?db) ''w'' ''o'' = Some ''owner''" "admin_role ''owner''"
    by code_simp+
  then have "CountAdmins (tn_Members (sample_db [?m])) ''w'' = 0"
    using add_orphans_workspace [of ?db "''w''" "''o''" "''owner''" "sample_user ''o''" 1 "sample_db [?m]" ?m] r
    by blast
  with r show ?thesis by simp
qed

text \<open>
  The writable home stays single: adding a mount, removing a mount and updating (or moving) a
  project, whether it succeeds or is refused, keep every project out of its home's mounts.
\<close>

theorem home_not_mounted_kept:
  assumes "home_not_mounted db" and "unique_key pj_ID (tn_Projects db)"
    and "invokeWorkspaceMountAdd db ctx now w p a = Inr (db', v)
       \<or> invokeWorkspaceMountRemove db ctx w p = Inr db'
       \<or> invokeProjectUpdate db ctx now p dest upd = (db', res)"
  shows "home_not_mounted db'"
  using assms(3)
proof (elim disjE)
  assume "invokeWorkspaceMountAdd db ctx now w p a = Inr (db', v)"
  then show ?thesis by (rule mount_add_invariant [OF assms(1,2)])
next
  assume "invokeWorkspaceMountRemove db ctx w p = Inr db'"
  then have "db' = db\<lparr>tn_Mounts := RemoveMount (tn_Mounts db) (TrimSpace w) (TrimSpace p)\<rparr>"
    unfolding invokeWorkspaceMountRemove_def by (auto simp: Let_def split: if_splits)
  then show ?thesis using assms(1) by (auto simp: home_not_mounted_def RemoveMount_def delete_rows_def)
next
  assume "invokeProjectUpdate db ctx now p dest upd = (db', res)"
  then show ?thesis by (rule project_update_invariant [OF assms(1)])
qed

theorem home_not_mounted_kept_witness:
  "case invokeWorkspaceMountAdd (sample_db [sample_member ''o'' ''owner'']) (sample_user ''o'') 1 ''w'' ''p'' [] of
     Inr (db', v) \<Rightarrow> home_not_mounted db' \<and> length (tn_Mounts db') = 1 | Inl e \<Rightarrow> False"
proof -
  let ?db = "sample_db [sample_member ''o'' ''owner'']"
  let ?mt = "\<lparr>mt_WorkspaceID = ''w'', mt_ProjectID = ''p'', mt_Access = ''read'', mt_CreatedAt = 1, mt_CreatedBy = ''o''\<rparr>"
  let ?v = "\<lparr>mv_WorkspaceID = ''w'', mv_ProjectID = ''p'', mv_Access = ''read'', mv_Name = ''n'',
    mv_Status = ''active'', mv_HomeWorkspaceID = ''x''\<rparr>"
  have r: "invokeWorkspaceMountAdd ?db (sample_user ''o'') 1 ''w'' ''p'' [] = Inr (?db\<lparr>tn_Mounts := [?mt]\<rparr>, ?v)"
    by code_simp
  have "home_not_mounted ?db" by (simp add: home_not_mounted_def sample_db_def)
  moreover have "unique_key pj_ID (tn_Projects ?db)" by code_simp
  ultimately have "home_not_mounted (?db\<lparr>tn_Mounts := [?mt]\<rparr>)"
    using home_not_mounted_kept [of ?db "sample_user ''o''" 1 "''w''" "''p''" "[]" "?db\<lparr>tn_Mounts := [?mt]\<rparr>" ?v] r
    by blast
  with r show ?thesis by simp
qed

text \<open>
  Mounting asks only for the administration of the mounting workspace: whoever administers any
  workspace can mount any existing project that has another home, and every member of the workspace
  (the caller included) can then read it, whatever role they had on it.
\<close>

theorem mount_grants_read:
  assumes "tn_WorkspaceStore db" and "tn_ProjectStore db" and "canManageWorkspace db ctx w"
    and "TrimSpace w = w" and "w \<noteq> []" and "TrimSpace p = p" and "p \<noteq> []"
    and "pjGetByID (tn_Projects db) p = Some pj" and "pj_WorkspaceID pj \<noteq> w"
    and "wsGetRole (tn_Members db) w u = Some r" and "u \<noteq> []"
    and "cx_User reader = Some \<lparr>us_ID = u, us_Role = ur\<rparr>"
  shows "\<exists>db' v. invokeWorkspaceMountAdd db ctx now w p [] = Inr (db', v) \<and>
    1 \<le> projectRoleRank (actualProjectRoleWS db' reader [] p)"
proof -
  obtain rows where r: "AddMount (tn_Mounts db) w p (callerUserID ctx) now = Inr rows"
    using assms(5,7) by (simp add: AddMount_def)
  let ?db' = "db\<lparr>tn_Mounts := rows\<rparr>"
  obtain v where v: "invokeWorkspaceMountAdd db ctx now w p [] = Inr (?db', v)"
    using assms r by (simp add: invokeWorkspaceMountAdd_def Let_def ToLower_def)
  obtain m where m: "m \<in> set rows" "mt_WorkspaceID m = w" "mt_ProjectID m = p" using AddMount_reads [OF r] by blast
  obtain wm where wm: "wm \<in> set (tn_Members db)" "wm_WorkspaceID wm = w" "wm_UserID wm = u"
    using assms(10) row_at_Some by (fastforce simp: wsGetRole_def wm_key_def)
  have "CallerHasMountAccess rows (tn_Members db) p u"
    using m wm assms(7,11) by (auto simp: CallerHasMountAccess_def list_ex_iff)
  then have "mounted ?db' reader p" using assms(1,11,12) by (simp add: mounted_def caller_id_def)
  then have "1 \<le> projectRoleRank (actualProjectRoleWS ?db' reader [] p)"
    unfolding actual_level [OF assms(7)] grants_levels fold_max_five by simp
  with v show ?thesis by blast
qed

theorem mount_grants_read_witness:
  "actualProjectRoleWS (sample_db [sample_member ''o'' ''owner'']) (sample_user ''o'') [] ''p'' = [] \<and>
   (\<exists>db' v. invokeWorkspaceMountAdd (sample_db [sample_member ''o'' ''owner'']) (sample_user ''o'') 1 ''w'' ''p'' []
      = Inr (db', v) \<and> 1 \<le> projectRoleRank (actualProjectRoleWS db' (sample_user ''o'') [] ''p''))"
proof
  let ?db = "sample_db [sample_member ''o'' ''owner'']"
  show "actualProjectRoleWS ?db (sample_user ''o'') [] ''p'' = []" by code_simp
  have t: "TrimSpace ''w'' = ''w''" "TrimSpace ''p'' = ''p''" by code_simp+
  have c: "canManageWorkspace ?db (sample_user ''o'') ''w''" by code_simp
  have g: "wsGetRole (tn_Members ?db) ''w'' ''o'' = Some ''owner''" by code_simp
  have "map_option pj_WorkspaceID (pjGetByID (tn_Projects ?db) ''p'') = Some ''x''" by code_simp
  then obtain pj where pj: "pjGetByID (tn_Projects ?db) ''p'' = Some pj" "pj_WorkspaceID pj = ''x''" by auto
  show "\<exists>db' v. invokeWorkspaceMountAdd ?db (sample_user ''o'') 1 ''w'' ''p'' [] = Inr (db', v) \<and>
     1 \<le> projectRoleRank (actualProjectRoleWS db' (sample_user ''o'') [] ''p'')"
    using mount_grants_read [OF _ _ c t(1) _ t(2) _ pj(1) _ g, of "sample_user ''o''" "''user''" 1] pj(2)
    by (simp add: sample_db_def sample_user_def)
qed

text \<open>
  An update that moves a project and is then refused its field patch reports an error although
  the move has been made.
\<close>

theorem project_update_not_atomic:
  assumes "project_move_step db ctx now i (Some dest) = Inr db1" and "tn_ProjectStore db" and "TrimSpace i \<noteq> []"
    and "tn_AuthStore db \<longrightarrow> effectiveProjectRoleAtLeast db ctx i PjRoleAdmin"
    and "pjGetByID (tn_Projects db1) i \<noteq> None"
  shows "invokeProjectUpdate db ctx now i (Some dest)
     \<lparr>ui_Name = Some [], ui_Description = None, ui_Type = None, ui_GitURL = None, ui_Tags = None\<rparr>
     = (db1, Inl (ProjectFailed PjNameCleared))"
  using assms by (auto simp: invokeProjectUpdate_def pjUpdate_def)

theorem project_update_not_atomic_witness:
  "let db = (sample_db [])\<lparr>tn_Workspaces := [new_workspace ''y'' ''n'' [] False 0], tn_AuthStore := False\<rparr>;
       (db', r) = invokeProjectUpdate db (sample_user ''o'') 1 ''p'' (Some ''y'')
         \<lparr>ui_Name = Some [], ui_Description = None, ui_Type = None, ui_GitURL = None, ui_Tags = None\<rparr>
   in r = Inl (ProjectFailed PjNameCleared) \<and> map pj_WorkspaceID (tn_Projects db') = [''y'']"
proof -
  let ?db = "(sample_db [])\<lparr>tn_Workspaces := [new_workspace ''y'' ''n'' [] False 0], tn_AuthStore := False\<rparr>"
  let ?ps = "map (\<lambda>p. p\<lparr>pj_WorkspaceID := ''y'', pj_UpdatedAt := 1\<rparr>) (tn_Projects ?db)"
  have m: "project_move_step ?db (sample_user ''o'') 1 ''p'' (Some ''y'') = Inr (?db\<lparr>tn_Projects := ?ps\<rparr>)"
    by code_simp
  have t: "TrimSpace ''p'' \<noteq> []" by code_simp
  have g: "pjGetByID ?ps ''p'' \<noteq> None" by code_simp
  have w: "map pj_WorkspaceID ?ps = [''y'']" by code_simp
  show ?thesis using project_update_not_atomic [OF m] t g w by (simp add: Let_def sample_db_def)
qed

end
