(* ===== verification/DocVerbs.thy ===== *)
theory DocVerbs
  imports LedgerProps MemberVerbs WorkflowResolve
begin

text \<open>
  The document verbs (\<^verbatim>\<open>internal/verb/document.go\<close>, \<^verbatim>\<open>story.go\<close>, \<^verbatim>\<open>task.go\<close>): the guards on who may read and
  write, the review barrier, and \<open>document_get\<close>, \<open>_upsert\<close>, \<open>_delete\<close>, \<open>_list\<close> and \<open>_count\<close> over the
  server's tables. Parameters are the YAML decoders, the sha256, the embedded workflow sources and the
  ids the server mints; the reviewers that run behind a reply, the principles attached to a story
  and the JSON decoding are not modelled, and the wording of errors is a datatype.
\<close>

section \<open>The request and its caller\<close>

record VerbCtx =
  vx_Ctx :: Ctx
  vx_MCP :: bool

record ReviewAttestation =
  ra_Decision :: string
  ra_ContentSHA256 :: string

record UpsertRequest =
  dq_ID :: string
  dq_Type :: string
  dq_Name :: string
  dq_Scope :: string
  dq_WorkspaceID :: string
  dq_ProjectID :: string
  dq_Body :: string
  dq_Tags :: "string list option"
  dq_Status :: "string option"
  dq_Priority :: "string option"
  dq_Category :: "string option"
  dq_ParentID :: "string option"
  dq_AcceptanceCriteria :: "string option"
  dq_Headline :: "string option"
  dq_Review :: "ReviewAttestation option"

record verb_env =
  ve_frontmatter :: "string \<Rightarrow> Frontmatter option"
  ve_workflow :: yaml_codec
  ve_sources :: "WorkflowSource list"
  ve_sha :: "string \<Rightarrow> string"
  ve_docID :: "server \<Rightarrow> string"
  ve_rowID :: "server \<Rightarrow> string"

datatype verb_error =
    VStore doc_error
  | VNameRequired
  | VScopeRequired
  | VUnknownScope string
  | VVersionSelector string
  | VNotWritableOverMCP string
  | VNotReadableOverMCP
  | VWorkspaceSkill
  | VReviewMissing
  | VReviewDecision string
  | VReviewStale
  | VNotPatchable string
  | VEpicFrozen string
  | VTerminalEpic string
  | VProjectIDRequired
  | VWorkspaceIDRequired
  | VProjectStore
  | VNoProject
  | VCallerRequired
  | VBearerRequired
  | VNotOwner
  | VScope scope_error
  | VNotMember string
  | VSystemReadonly
  | VNotFound

section \<open>Kinds and the review barrier\<close>

definition principleTagPrefix :: string where "principleTagPrefix = ''principles:''"

definition isWorkflowUpsert :: "verb_env \<Rightarrow> UpsertRequest \<Rightarrow> bool" where
  "isWorkflowUpsert env req \<longleftrightarrow>
     (case dq_Tags req of None \<Rightarrow> False | Some ts \<Rightarrow> list_ex (\<lambda>t. EqualFold (TrimSpace t) ''kind:workflow'') ts) \<or>
     (case ParseFrontmatter (ve_frontmatter env) (dq_Body req) of
        Inl e \<Rightarrow> False | Inr (fm, body) \<Rightarrow> EqualFold (TrimSpace (fm_Kind fm)) ''workflow'')"

definition principle_tags :: "string list option \<Rightarrow> bool" where
  "principle_tags tags = (case tags of None \<Rightarrow> False | Some ts \<Rightarrow> list_ex (\<lambda>t. HasPrefix (TrimSpace t) principleTagPrefix) ts)"

definition reviewRequiredKind :: "verb_env \<Rightarrow> UpsertRequest \<Rightarrow> bool" where
  "reviewRequiredKind env req \<longleftrightarrow>
     (let t = TrimSpace (ToLower (dq_Type req)) in
      if t = TypeSkill then True
      else if t = TypeStory \<or> t = TypeTask then False
      else isWorkflowUpsert env req \<or> principle_tags (dq_Tags req))"

definition verifyReviewAttestation :: "verb_env \<Rightarrow> UpsertRequest \<Rightarrow> verb_error option" where
  "verifyReviewAttestation env req =
     (case dq_Review req of
        None \<Rightarrow> Some VReviewMissing
      | Some r \<Rightarrow>
          (if TrimSpace (ra_Decision r) = [] then Some VReviewMissing
           else if \<not> EqualFold (TrimSpace (ra_Decision r)) ''accept'' then Some (VReviewDecision (ra_Decision r))
           else if \<not> EqualFold (TrimSpace (ra_ContentSHA256 r)) (ve_sha env (dq_Body req)) then Some VReviewStale
           else None))"

definition parseScope :: "string \<Rightarrow> verb_error + string" where
  "parseScope s = (let t = TrimSpace s in
     if t = ScopeSystem \<or> t = ScopeWorkspace \<or> t = ScopeProject \<or> t = ScopeUser \<or> t = ScopeLibrary then Inr t
     else if t = [] then Inl VScopeRequired else Inl (VUnknownScope s))"

definition request_key :: "string \<Rightarrow> UpsertRequest \<Rightarrow> Key" where
  "request_key scope req = \<lparr>ky_Scope = scope, ky_WorkspaceID = dq_WorkspaceID req, ky_ProjectID = dq_ProjectID req,
     ky_UserID = [], ky_Name = dq_Name req\<rparr>"

definition latest_active :: GetOptions where
  "latest_active = \<lparr>gt_Version = 0, gt_AllVersions = False, gt_IncludeDeleted = False\<rparr>"

definition behaviourBodyUnchanged :: "Tenancy \<Rightarrow> Ctx \<Rightarrow> UpsertRequest \<Rightarrow> docdb \<Rightarrow> bool" where
  "behaviourBodyUnchanged tn ctx req db =
     (if TrimSpace (dq_Name req) = [] then False
      else case parseScope (dq_Scope req) of
        Inl e \<Rightarrow> False
      | Inr scope \<Rightarrow>
          (let k0 = request_key scope req;
               k = (if scope = ScopeUser then k0\<lparr>ky_UserID := callerUserID ctx\<rparr>
                    else if scope = ScopeProject \<and> TrimSpace (ky_WorkspaceID k0) = [] \<and> tn_ProjectStore tn \<and>
                        TrimSpace (ky_ProjectID k0) \<noteq> []
                      then (case pjGetByID (tn_Projects tn) (ky_ProjectID k0) of
                              None \<Rightarrow> k0 | Some p \<Rightarrow> k0\<lparr>ky_WorkspaceID := pj_WorkspaceID p\<rparr>)
                    else k0)
           in case DocGet db k latest_active of
                Inl e \<Rightarrow> False
              | Inr (d, vs) \<Rightarrow> (case vs of [] \<Rightarrow> False | v # rest \<Rightarrow> vn_Body v = dq_Body req)))"

definition mcpForbidsType :: "bool \<Rightarrow> string \<Rightarrow> bool" where
  "mcpForbidsType mcp reqType =
     (if \<not> mcp then False
      else let t = TrimSpace (ToLower reqType) in \<not> (t = TypeStory \<or> t = TypeDocument))"

definition mcpReadForbiddenDoc :: "bool \<Rightarrow> string \<Rightarrow> string list \<Rightarrow> bool" where
  "mcpReadForbiddenDoc mcp docType tags =
     (if \<not> mcp then False
      else EqualFold (TrimSpace docType) TypeSkill \<or> list_ex (\<lambda>t. HasPrefix (TrimSpace t) principleTagPrefix) tags)"

definition filterMCPReadable :: "bool \<Rightarrow> Document list \<Rightarrow> Document list" where
  "filterMCPReadable mcp items =
     (if \<not> mcp then items else filter (\<lambda>d. \<not> mcpReadForbiddenDoc mcp (dc_Type d) (dc_Tags d)) items)"

definition mcpForbidsSkillList :: "bool \<Rightarrow> string \<Rightarrow> bool" where
  "mcpForbidsSkillList mcp reqType \<longleftrightarrow> mcp \<and> EqualFold (TrimSpace reqType) TypeSkill"

definition workspaceSkillRefused :: "string \<Rightarrow> string \<Rightarrow> bool" where
  "workspaceSkillRefused typ scope \<longleftrightarrow> EqualFold (TrimSpace typ) TypeSkill \<and> EqualFold (TrimSpace scope) ScopeWorkspace"

definition hasExplicitClassification :: "string list \<Rightarrow> bool" where
  "hasExplicitClassification tags = list_ex (\<lambda>t. HasPrefix t ''type:'' \<or> HasPrefix t ''principles:'') tags"

section \<open>Who may read and write\<close>

definition member_of :: "Tenancy \<Rightarrow> string \<Rightarrow> User \<Rightarrow> verb_error option" where
  "member_of tn wsID u = (case wsGetRole (tn_Members tn) wsID (us_ID u) of None \<Rightarrow> Some (VNotMember wsID) | Some r \<Rightarrow> None)"

definition scope_check :: "Tenancy \<Rightarrow> Ctx \<Rightarrow> string \<Rightarrow> string \<Rightarrow> string \<Rightarrow> verb_error option" where
  "scope_check tn ctx wsID projectID need = map_option VScope (enforceProjectScope tn ctx wsID projectID need)"

definition authorizeRead :: "Tenancy \<Rightarrow> Ctx \<Rightarrow> Key \<Rightarrow> verb_error option" where
  "authorizeRead tn ctx k =
     (if \<not> tn_AuthStore tn then None
      else if ky_Scope k = ScopeSystem then None
      else case cx_User ctx of
        None \<Rightarrow> Some VBearerRequired
      | Some u \<Rightarrow>
          (if ky_Scope k = ScopeUser then (if ky_UserID k \<noteq> us_ID u then Some VNotOwner else None)
           else if ky_Scope k = ScopeLibrary then None
           else if \<not> tn_WorkspaceStore tn then None
           else if ky_Scope k = ScopeProject then scope_check tn ctx (ky_WorkspaceID k) (ky_ProjectID k) PjRoleRead
           else if ky_WorkspaceID k = [] then Some VWorkspaceIDRequired
           else if callerIsGlobalAdmin ctx then None
           else member_of tn (ky_WorkspaceID k) u))"

definition authorizeWrite :: "Tenancy \<Rightarrow> Ctx \<Rightarrow> Key \<Rightarrow> verb_error option" where
  "authorizeWrite tn ctx k =
     (if ky_Scope k = ScopeSystem then Some VSystemReadonly
      else if \<not> tn_AuthStore tn then None
      else case cx_User ctx of
        None \<Rightarrow> Some VBearerRequired
      | Some u \<Rightarrow>
          (if ky_Scope k = ScopeUser then (if ky_UserID k \<noteq> us_ID u then Some VNotOwner else None)
           else if \<not> tn_WorkspaceStore tn then None
           else if ky_Scope k = ScopeProject then scope_check tn ctx (ky_WorkspaceID k) (ky_ProjectID k) PjRoleWrite
           else if ky_Scope k = ScopeLibrary then scope_check tn ctx [] (ky_ProjectID k) PjRoleWrite
           else if ky_WorkspaceID k = [] then Some VWorkspaceIDRequired
           else member_of tn (ky_WorkspaceID k) u))"

definition libraryAudienceFilter :: "string \<Rightarrow> string" where
  "libraryAudienceFilter scope = (if scope = ScopeLibrary then ''all'' else [])"

definition authorizeLibraryAudience :: "Tenancy \<Rightarrow> Ctx \<Rightarrow> Document \<Rightarrow> verb_error option" where
  "authorizeLibraryAudience tn ctx d =
     (if dc_Scope d \<noteq> ScopeLibrary \<or> dc_Audience d = [] \<or> dc_Audience d = ''all'' then None
      else if \<not> tn_AuthStore tn then None
      else scope_check tn ctx [] (dc_ProjectID d) PjRoleRead)"

definition requireScopeKey :: "string \<Rightarrow> string \<Rightarrow> string \<Rightarrow> verb_error option" where
  "requireScopeKey scope wsID pjID =
     (let s = TrimSpace scope in
      if s = ''project'' then
        (if TrimSpace pjID = [] then Some VProjectIDRequired
         else if TrimSpace wsID = [] then Some VWorkspaceIDRequired else None)
      else if s = ''workspace'' \<or> s = ''all'' then (if TrimSpace wsID = [] then Some VWorkspaceIDRequired else None)
      else None)"

definition authorizeListScope :: "Tenancy \<Rightarrow> Ctx \<Rightarrow> string \<Rightarrow> string \<Rightarrow> string \<Rightarrow> verb_error option" where
  "authorizeListScope tn ctx scope wsID pjID =
     (if \<not> tn_AuthStore tn then None
      else if scope = ScopeSystem \<or> scope = [] then None
      else case cx_User ctx of
        None \<Rightarrow> Some VBearerRequired
      | Some u \<Rightarrow>
          (if scope = ScopeUser then None
           else if scope = ScopeLibrary then None
           else if \<not> tn_WorkspaceStore tn then None
           else if scope = ScopeProject then scope_check tn ctx wsID pjID PjRoleRead
           else if wsID = [] then Some VWorkspaceIDRequired
           else if callerIsGlobalAdmin ctx then None
           else member_of tn wsID u))"

definition systemChangelogWriteAllowed :: "VerbCtx \<Rightarrow> string \<Rightarrow> string \<Rightarrow> bool" where
  "systemChangelogWriteAllowed vx scope reqType \<longleftrightarrow>
     scope = ScopeSystem \<and> reqType = TypeChangelog \<and> \<not> vx_MCP vx \<and> callerIsGlobalAdmin (vx_Ctx vx)"

definition upsertStatusHonoured :: "VerbCtx \<Rightarrow> bool" where
  "upsertStatusHonoured vx = (if vx_MCP vx then False else cx_APIKeyRole (vx_Ctx vx) = [])"

definition createStatus :: "VerbCtx \<Rightarrow> string option \<Rightarrow> string" where
  "createStatus vx req = (if \<not> upsertStatusHonoured vx then [] else case req of None \<Rightarrow> [] | Some s \<Rightarrow> s)"


section \<open>The hooks behind a write\<close>

record StoryEnvelope =
  sn_ID :: string
  sn_ProjectID :: string
  sn_ParentID :: string
  sn_Title :: string
  sn_Body :: string
  sn_AcceptanceCriteria :: string
  sn_Status :: string
  sn_Priority :: string
  sn_Category :: string
  sn_Tags :: "string list"
  sn_Summary :: string

definition NewStoryEnvelope :: "Document \<Rightarrow> string \<Rightarrow> StoryEnvelope" where
  "NewStoryEnvelope d body = \<lparr>sn_ID = dc_ID d, sn_ProjectID = dc_ProjectID d, sn_ParentID = dc_ParentID d,
     sn_Title = dc_Name d, sn_Body = body, sn_AcceptanceCriteria = dc_AcceptanceCriteria d, sn_Status = dc_Status d,
     sn_Priority = dc_Priority d, sn_Category = dc_Category d, sn_Tags = dc_Tags d, sn_Summary = dc_Summary d\<rparr>"

text \<open>The envelope as a payload; fields that are no scalar (tags, times) are \<^const>\<open>JOther\<close>, and an empty
  optional field is left out.\<close>

definition omit_empty :: "string \<Rightarrow> string \<Rightarrow> payload" where
  "omit_empty name v = (if v = [] then [] else [(name, JStr v)])"

definition story_payload :: "StoryEnvelope \<Rightarrow> payload" where
  "story_payload e = [(''id'', JStr (sn_ID e)), (''project_id'', JStr (sn_ProjectID e))] @ omit_empty ''parent_id'' (sn_ParentID e) @
     [(''title'', JStr (sn_Title e))] @ omit_empty ''body'' (sn_Body e) @
     omit_empty ''acceptance_criteria'' (sn_AcceptanceCriteria e) @
     [(''status'', JStr (sn_Status e)), (''priority'', JStr (sn_Priority e)), (''category'', JStr (sn_Category e)),
      (''tags'', JOther)] @ omit_empty ''summary'' (sn_Summary e) @ [(''created_at'', JOther), (''updated_at'', JOther)]"

definition computeStoryDiff :: "StoryEnvelope \<Rightarrow> StoryEnvelope \<Rightarrow> string list" where
  "computeStoryDiff a b =
     (if sn_ParentID a \<noteq> sn_ParentID b then [''parent_id''] else []) @
     (if sn_Title a \<noteq> sn_Title b then [''title''] else []) @
     (if sn_Body a \<noteq> sn_Body b then [''body''] else []) @
     (if sn_AcceptanceCriteria a \<noteq> sn_AcceptanceCriteria b then [''acceptance_criteria''] else []) @
     (if sn_Status a \<noteq> sn_Status b then [''status''] else []) @
     (if sn_Priority a \<noteq> sn_Priority b then [''priority''] else []) @
     (if sn_Category a \<noteq> sn_Category b then [''category''] else []) @
     (if sn_Tags a \<noteq> sn_Tags b then [''tags''] else [])"

definition hook_row :: "Ctx \<Rightarrow> string \<Rightarrow> string \<Rightarrow> payload \<Rightarrow> AppendInput" where
  "hook_row ctx docID kind p = \<lparr>an_StoryID = docID, an_ProjectID = [], an_WorkspaceID = [], an_SessionID = [], an_RunID = [],
     an_Kind = kind, an_Actor = actorFromContext ctx, an_Body = [], an_Payload = p, an_Refs = []\<rparr>"

text \<open>A hook's failed append is logged and forgotten.\<close>

definition hook_append :: "verb_env \<Rightarrow> Ctx \<Rightarrow> string \<Rightarrow> string \<Rightarrow> payload \<Rightarrow> int \<Rightarrow> server \<Rightarrow> server" where
  "hook_append env ctx docID kind p now sv =
     (case LedgerAppend (ve_rowID env sv) (hook_row ctx docID kind p) now (sv_Ledger sv) of
        Inl e \<Rightarrow> sv | Inr (e, rows) \<Rightarrow> sv\<lparr>sv_Ledger := rows\<rparr>)"

definition storyAfterCreate :: "verb_env \<Rightarrow> Ctx \<Rightarrow> Document \<Rightarrow> string \<Rightarrow> int \<Rightarrow> server \<Rightarrow> server" where
  "storyAfterCreate env ctx d body now sv =
     hook_append env ctx (dc_ID d) ''story_created'' (story_payload (NewStoryEnvelope d body)) now sv"

definition storyAfterUpdate :: "verb_env \<Rightarrow> Ctx \<Rightarrow> StoryEnvelope \<Rightarrow> Document \<Rightarrow> string \<Rightarrow> int \<Rightarrow> server \<Rightarrow> server" where
  "storyAfterUpdate env ctx before d body now sv =
     (let diff = computeStoryDiff before (NewStoryEnvelope d body) in
      if diff = [] then sv else hook_append env ctx (dc_ID d) ''story_updated'' (map (\<lambda>f. (f, JOther)) diff) now sv)"

definition taskPayload :: "Document \<Rightarrow> payload" where
  "taskPayload d = [(''id'', JStr (dc_ID d)), (''title'', JStr (dc_Name d)), (''status'', JStr (dc_Status d))] @
     omit_empty ''priority'' (dc_Priority d) @ omit_empty ''parent_id'' (dc_ParentID d)"

definition appendTaskLedger :: "verb_env \<Rightarrow> Ctx \<Rightarrow> string \<Rightarrow> Document \<Rightarrow> int \<Rightarrow> server \<Rightarrow> server" where
  "appendTaskLedger env ctx kind d now sv = hook_append env ctx (dc_ID d) kind (taskPayload d) now sv"

section \<open>document_upsert\<close>

definition epicReparentRefusal :: "verb_env \<Rightarrow> string \<Rightarrow> string \<Rightarrow> string \<Rightarrow> string option \<Rightarrow> verb_error option" where
  "epicReparentRefusal env currentStatus currentCategory currentParent newParent =
     (if newParent = None \<or> newParent = Some currentParent then None
      else if isInitialForCategoryIn (ve_workflow env) currentStatus currentCategory (ve_sources env) then None
      else Some (VEpicFrozen currentStatus))"

definition epicChildRefusal :: "verb_env \<Rightarrow> string \<Rightarrow> string \<Rightarrow> verb_error option" where
  "epicChildRefusal env parentStatus parentCategory =
     (if isTerminalForCategoryIn (ve_workflow env) parentStatus parentCategory (ve_sources env)
      then Some (VTerminalEpic parentStatus) else None)"

definition refuseTerminalEpicParent :: "verb_env \<Rightarrow> docdb \<Rightarrow> string \<Rightarrow> verb_error option" where
  "refuseTerminalEpicParent env db parentID =
     (if TrimSpace parentID = [] then None
      else case GetByIDWithLatestBody db parentID of
        Inl e \<Rightarrow> None | Inr (p, b) \<Rightarrow> epicChildRefusal env (dc_Status p) (dc_Category p))"

definition str_deref :: "string option \<Rightarrow> string" where
  "str_deref p = (case p of None \<Rightarrow> [] | Some s \<Rightarrow> s)"

definition nonempty_ptr :: "string \<Rightarrow> string option" where
  "nonempty_ptr s = (if s = [] then None else Some s)"

text \<open>The workspace of a new story or task: the one named, or that of the project.\<close>

definition create_workspace :: "Tenancy \<Rightarrow> UpsertRequest \<Rightarrow> verb_error + string" where
  "create_workspace tn req =
     (if TrimSpace (dq_ProjectID req) = [] then Inl VProjectIDRequired
      else if TrimSpace (dq_Name req) = [] then Inl VNameRequired
      else if dq_WorkspaceID req \<noteq> [] then Inr (dq_WorkspaceID req)
      else if \<not> tn_ProjectStore tn then Inl VProjectStore
      else case pjGetByID (tn_Projects tn) (dq_ProjectID req) of
        None \<Rightarrow> Inl VNoProject | Some p \<Rightarrow> Inr (pj_WorkspaceID p))"

definition create_input :: "VerbCtx \<Rightarrow> string \<Rightarrow> string \<Rightarrow> UpsertRequest \<Rightarrow> CreateInput" where
  "create_input vx wsID status req = \<lparr>ci_ProjectID = dq_ProjectID req, ci_WorkspaceID = wsID,
     ci_ParentID = str_deref (dq_ParentID req), ci_Title = dq_Name req, ci_Body = dq_Body req,
     ci_AcceptanceCriteria = str_deref (dq_AcceptanceCriteria req), ci_Status = status,
     ci_Priority = str_deref (dq_Priority req), ci_Category = str_deref (dq_Category req),
     ci_Tags = (case dq_Tags req of None \<Rightarrow> [] | Some ts \<Rightarrow> ts), ci_CreatedBy = callerUserID (vx_Ctx vx)\<rparr>"

definition createStory ::
  "verb_env \<Rightarrow> Tenancy \<Rightarrow> VerbCtx \<Rightarrow> UpsertRequest \<Rightarrow> int \<Rightarrow> server \<Rightarrow> (verb_error + Document) \<times> server" where
  "createStory env tn vx req now sv =
     (case create_workspace tn req of
        Inl e \<Rightarrow> (Inl e, sv)
      | Inr wsID \<Rightarrow>
          (case refuseTerminalEpicParent env (sv_Docs sv) (str_deref (dq_ParentID req)) of
             Some e \<Rightarrow> (Inl e, sv)
           | None \<Rightarrow>
               (case CreateStory (ve_docID env sv) (create_input vx wsID (createStatus vx (dq_Status req)) req) now (sv_Docs sv) of
                  Inl e \<Rightarrow> (Inl (VStore e), sv)
                | Inr (d, db) \<Rightarrow> (Inr d, storyAfterCreate env (vx_Ctx vx) d (dq_Body req) now (sv\<lparr>sv_Docs := db\<rparr>)))))"

definition routesToCreateTask :: "UpsertRequest \<Rightarrow> bool" where
  "routesToCreateTask req \<longleftrightarrow> dq_Type req = TypeTask \<and> \<not> EqualFold (TrimSpace (dq_Scope req)) ScopeLibrary"

definition createTask ::
  "verb_env \<Rightarrow> Tenancy \<Rightarrow> VerbCtx \<Rightarrow> UpsertRequest \<Rightarrow> int \<Rightarrow> server \<Rightarrow> (verb_error + Document) \<times> server" where
  "createTask env tn vx req now sv =
     (case create_workspace tn req of
        Inl e \<Rightarrow> (Inl e, sv)
      | Inr wsID \<Rightarrow>
          (case CreateTask (ve_docID env sv) (create_input vx wsID (str_deref (dq_Status req)) req) now (sv_Docs sv) of
             Inl e \<Rightarrow> (Inl (VStore e), sv)
           | Inr (d, db) \<Rightarrow> (Inr d, appendTaskLedger env (vx_Ctx vx) ''task_created'' d now (sv\<lparr>sv_Docs := db\<rparr>))))"

definition upsert_patch :: "VerbCtx \<Rightarrow> UpsertRequest \<Rightarrow> UpdateStoryPatch" where
  "upsert_patch vx req = \<lparr>us_ParentID = dq_ParentID req, us_Title = nonempty_ptr (dq_Name req),
     us_Body = nonempty_ptr (dq_Body req), us_AcceptanceCriteria = dq_AcceptanceCriteria req,
     us_Status = (if upsertStatusHonoured vx then dq_Status req else None), us_Priority = dq_Priority req,
     us_Category = dq_Category req, us_Tags = dq_Tags req, us_CreatedBy = callerUserID (vx_Ctx vx)\<rparr>"

definition latest_body :: "docdb \<Rightarrow> string \<Rightarrow> string" where
  "latest_body db docID = (case GetByIDWithLatestBody db docID of Inl e \<Rightarrow> [] | Inr (d, b) \<Rightarrow> b)"

definition upsertTaskByID ::
  "verb_env \<Rightarrow> VerbCtx \<Rightarrow> UpsertRequest \<Rightarrow> int \<Rightarrow> server \<Rightarrow> (verb_error + Document) \<times> server" where
  "upsertTaskByID env vx req now sv =
     (case UpdateStory (dq_ID req) ((upsert_patch vx req)\<lparr>us_AcceptanceCriteria := None, us_Category := None\<rparr>) now (sv_Docs sv) of
        Inl e \<Rightarrow> (Inl (VStore e), sv)
      | Inr (d2, db) \<Rightarrow> (Inr d2, appendTaskLedger env (vx_Ctx vx) ''task_updated'' d2 now (sv\<lparr>sv_Docs := db\<rparr>)))"

definition upsertByID ::
  "verb_env \<Rightarrow> VerbCtx \<Rightarrow> UpsertRequest \<Rightarrow> int \<Rightarrow> server \<Rightarrow> (verb_error + Document) \<times> server" where
  "upsertByID env vx req now sv =
     (case GetByIDWithLatestBody (sv_Docs sv) (dq_ID req) of
        Inl e \<Rightarrow> (Inl (VStore e), sv)
      | Inr (d, body0) \<Rightarrow>
          (if dc_Type d = TypeTask then upsertTaskByID env vx req now sv
           else if dc_Type d \<noteq> TypeStory then (Inl (VNotPatchable (dc_Type d)), sv)
           else case epicReparentRefusal env (dc_Status d) (dc_Category d) (dc_ParentID d) (dq_ParentID req) of
             Some e \<Rightarrow> (Inl e, sv)
           | None \<Rightarrow>
               (case (case dq_ParentID req of
                        None \<Rightarrow> None
                      | Some p \<Rightarrow> (if p \<noteq> dc_ParentID d then refuseTerminalEpicParent env (sv_Docs sv) p else None)) of
                  Some e \<Rightarrow> (Inl e, sv)
                | None \<Rightarrow>
                    (case UpdateStory (dq_ID req) (upsert_patch vx req) now (sv_Docs sv) of
                       Inl e \<Rightarrow> (Inl (VStore e), sv)
                     | Inr (d2, db) \<Rightarrow>
                         (Inr d2, storyAfterUpdate env (vx_Ctx vx)
                            (NewStoryEnvelope d (if dc_LatestVersion d > 0 then body0 else [])) d2
                            (if dc_LatestVersion d2 > 0 then latest_body db (dc_ID d2) else []) now (sv\<lparr>sv_Docs := db\<rparr>))))))"

definition upsert_key :: "Tenancy \<Rightarrow> Ctx \<Rightarrow> UpsertRequest \<Rightarrow> verb_error + Key" where
  "upsert_key tn ctx req =
     (if TrimSpace (dq_Name req) = [] then Inl VNameRequired
      else case parseScope (dq_Scope req) of
        Inl e \<Rightarrow> Inl e
      | Inr scope \<Rightarrow>
          (let k = request_key scope req in
           if scope = ScopeLibrary \<and> TrimSpace (ky_ProjectID k) = [] then Inl VProjectIDRequired
           else if scope = ScopeUser then
             (if callerUserID ctx = [] then Inl VCallerRequired else Inr (k\<lparr>ky_UserID := callerUserID ctx\<rparr>))
           else if scope = ScopeProject \<and> TrimSpace (ky_WorkspaceID k) = [] then
             (if TrimSpace (ky_ProjectID k) = [] then Inl VProjectIDRequired
              else if \<not> tn_ProjectStore tn then Inl VProjectStore
              else case pjGetByID (tn_Projects tn) (ky_ProjectID k) of
                None \<Rightarrow> Inl VNoProject | Some p \<Rightarrow> Inr (k\<lparr>ky_WorkspaceID := pj_WorkspaceID p\<rparr>))
           else Inr k))"

definition upsert_guard :: "verb_env \<Rightarrow> Tenancy \<Rightarrow> VerbCtx \<Rightarrow> UpsertRequest \<Rightarrow> Key \<Rightarrow> verb_error option" where
  "upsert_guard env tn vx req k =
     (case (if isWorkflowUpsert env req \<and> ky_Scope k = ScopeProject
            then scope_check tn (vx_Ctx vx) (ky_WorkspaceID k) (ky_ProjectID k) PjRoleAdmin else None) of
        Some e \<Rightarrow> Some e
      | None \<Rightarrow> (if systemChangelogWriteAllowed vx (ky_Scope k) (dq_Type req) then None
                 else authorizeWrite tn (vx_Ctx vx) k))"

text \<open>The tags to set after the write, if any: a plain document is stamped with its type.\<close>

definition stamped_tags :: "Document \<Rightarrow> string list option \<Rightarrow> string list option" where
  "stamped_tags d tags =
     (let tagSet = (case tags of None \<Rightarrow> dc_Tags d | Some ts \<Rightarrow> ts) in
      if dc_Type d = TypeDocument \<and> \<not> hasExplicitClassification tagSet then Some (kvSet tagSet ''type'' TypeDocument)
      else tags)"

definition upsert_metadata :: "Document \<Rightarrow> UpsertRequest \<Rightarrow> int \<Rightarrow> docdb \<Rightarrow> (verb_error + Document) \<times> docdb" where
  "upsert_metadata d req now db =
     (case (case stamped_tags d (dq_Tags req) of None \<Rightarrow> Inr (d, db) | Some ts \<Rightarrow> SetDocumentTags (dc_ID d) ts now db) of
        Inl e \<Rightarrow> (Inl (VStore e), db)
      | Inr (d1, db1) \<Rightarrow>
          (case dq_Headline req of
             None \<Rightarrow> (Inr d1, db1)
           | Some h \<Rightarrow>
               (case SetDocumentHeadline (dc_ID d1) h now db1 of
                  Inl e \<Rightarrow> (Inl (VStore e), db1) | Inr (d2, db2) \<Rightarrow> (Inr d2, db2))))"

definition upsert_by_key ::
  "verb_env \<Rightarrow> Tenancy \<Rightarrow> VerbCtx \<Rightarrow> UpsertRequest \<Rightarrow> int \<Rightarrow> server \<Rightarrow> (verb_error + Document) \<times> server" where
  "upsert_by_key env tn vx req now sv =
     (case upsert_key tn (vx_Ctx vx) req of
        Inl e \<Rightarrow> (Inl e, sv)
      | Inr k \<Rightarrow>
          (case upsert_guard env tn vx req k of
             Some e \<Rightarrow> (Inl e, sv)
           | None \<Rightarrow>
               (case DocUpsert (ve_docID env sv) \<lparr>up_Key = k, up_Type = dq_Type req, up_Body = dq_Body req,
                       up_CreatedBy = callerUserID (vx_Ctx vx),
                       up_SystemWriteAllowed = systemChangelogWriteAllowed vx (ky_Scope k) (dq_Type req)\<rparr> now (sv_Docs sv) of
                  Inl e \<Rightarrow> (Inl (VStore e), sv)
                | Inr (d, v, db) \<Rightarrow> (case upsert_metadata d req now db of (r, db') \<Rightarrow> (r, sv\<lparr>sv_Docs := db'\<rparr>)))))"

definition invokeDocumentUpsert ::
  "verb_env \<Rightarrow> Tenancy \<Rightarrow> VerbCtx \<Rightarrow> UpsertRequest \<Rightarrow> int \<Rightarrow> server \<Rightarrow> (verb_error + Document) \<times> server" where
  "invokeDocumentUpsert env tn vx req now sv =
     (if dq_ID req = [] \<and> mcpForbidsType (vx_MCP vx) (dq_Type req) then (Inl (VNotWritableOverMCP (TrimSpace (dq_Type req))), sv)
      else if workspaceSkillRefused (dq_Type req) (dq_Scope req) then (Inl VWorkspaceSkill, sv)
      else
        case (if dq_ID req = [] \<and> reviewRequiredKind env req \<and>
                \<not> behaviourBodyUnchanged tn (vx_Ctx vx) req (sv_Docs sv)
              then verifyReviewAttestation env req else None) of
          Some e \<Rightarrow> (Inl e, sv)
        | None \<Rightarrow>
            (if TrimSpace (dq_ID req) \<noteq> [] then upsertByID env vx req now sv
             else if dq_Type req = TypeStory then createStory env tn vx req now sv
             else if routesToCreateTask req then createTask env tn vx req now sv
             else upsert_by_key env tn vx req now sv))"

section \<open>document_delete\<close>

record DeleteRequest =
  xq_ID :: string
  xq_Name :: string
  xq_Scope :: string
  xq_WorkspaceID :: string
  xq_ProjectID :: string

definition row_key :: "Document \<Rightarrow> Key" where
  "row_key d = \<lparr>ky_Scope = dc_Scope d, ky_WorkspaceID = dc_WorkspaceID d, ky_ProjectID = dc_ProjectID d,
     ky_UserID = dc_UserID d, ky_Name = dc_Name d\<rparr>"

definition delete_by_id :: "Tenancy \<Rightarrow> VerbCtx \<Rightarrow> string \<Rightarrow> int \<Rightarrow> docdb \<Rightarrow> verb_error + Document \<times> docdb" where
  "delete_by_id tn vx docID now db =
     (case GetByIDWithLatestBody db docID of
        Inl e \<Rightarrow> Inl (VStore e)
      | Inr (d, body) \<Rightarrow>
          (if mcpReadForbiddenDoc (vx_MCP vx) (dc_Type d) (dc_Tags d) then Inl VNotReadableOverMCP
           else if dc_Type d = TypeStory then map_sum VStore (\<lambda>db'. (d, db')) (HardDelete docID db)
           else case authorizeWrite tn (vx_Ctx vx) (row_key d) of
             Some e \<Rightarrow> Inl e
           | None \<Rightarrow> map_sum VStore (\<lambda>(d2, v, db'). (d2, db')) (TombstoneByID docID (callerUserID (vx_Ctx vx)) now db)))"

definition invokeDocumentDelete ::
  "Tenancy \<Rightarrow> VerbCtx \<Rightarrow> DeleteRequest \<Rightarrow> int \<Rightarrow> docdb \<Rightarrow> verb_error + Document \<times> docdb" where
  "invokeDocumentDelete tn vx req now db =
     (if TrimSpace (xq_ID req) \<noteq> [] then delete_by_id tn vx (xq_ID req) now db
      else if TrimSpace (xq_Name req) = [] then Inl VNameRequired
      else case parseScope (xq_Scope req) of
        Inl e \<Rightarrow> Inl e
      | Inr scope \<Rightarrow>
          (let k0 = \<lparr>ky_Scope = scope, ky_WorkspaceID = xq_WorkspaceID req, ky_ProjectID = xq_ProjectID req,
                     ky_UserID = [], ky_Name = xq_Name req\<rparr>;
               k = (if scope = ScopeUser then k0\<lparr>ky_UserID := callerUserID (vx_Ctx vx)\<rparr> else k0)
           in if scope = ScopeUser \<and> ky_UserID k = [] then Inl VCallerRequired
              else case authorizeWrite tn (vx_Ctx vx) k of
                Some e \<Rightarrow> Inl e
              | None \<Rightarrow>
                  (if vx_MCP vx \<and> (case DocGet db k latest_active of
                        Inl e \<Rightarrow> False | Inr (d, vs) \<Rightarrow> mcpReadForbiddenDoc True (dc_Type d) (dc_Tags d))
                   then Inl VNotReadableOverMCP
                   else map_sum VStore (\<lambda>(d, v, db'). (d, db')) (DocDelete k (callerUserID (vx_Ctx vx)) False now db))))"

end
