(* ===== verification/Variables.thy ===== *)
theory Variables
  imports MemberVerbs Documents
begin

text \<open>
  Variables: the table (\<^verbatim>\<open>internal/variable\<close>), the verbs over it (\<^verbatim>\<open>internal/verb/variable.go\<close>) and
  the reader of the model configuration (\<^verbatim>\<open>internal/llmcfg\<close>). A nullable column holds the empty
  string for NULL; the computed system variables the server installs at boot are a parameter (the resolver
  and the list of its names); the scopes are the strings of the document store's constants, which
  the package declares again; a failing database is not modelled.
\<close>

section \<open>The table\<close>

record Variable =
  va_ID :: string
  va_Scope :: string
  va_WorkspaceID :: string
  va_ProjectID :: string
  va_UserID :: string
  va_Name :: string
  va_Value :: string
  va_Secret :: bool
  va_CreatedAt :: int
  va_UpdatedAt :: int

record VarKey =
  vk_Scope :: string
  vk_WorkspaceID :: string
  vk_ProjectID :: string
  vk_UserID :: string
  vk_Name :: string

datatype var_error = VarNameRequired | VarMismatch | VarUnknownScope string | VarNotFound | VarKeyRequired

definition VarKeyValidate :: "VarKey \<Rightarrow> var_error option" where
  "VarKeyValidate k =
     (let ws = vk_WorkspaceID k; pj = vk_ProjectID k; us = vk_UserID k; sc = vk_Scope k in
      if vk_Name k = [] then Some VarNameRequired
      else if sc = ScopeSystem then (if ws \<noteq> [] \<or> pj \<noteq> [] \<or> us \<noteq> [] then Some VarMismatch else None)
      else if sc = ScopeWorkspace then (if ws = [] \<or> pj \<noteq> [] \<or> us \<noteq> [] then Some VarMismatch else None)
      else if sc = ScopeProject then (if ws = [] \<or> pj = [] \<or> us \<noteq> [] then Some VarMismatch else None)
      else if sc = ScopeUser then (if us = [] \<or> ws \<noteq> [] \<or> pj \<noteq> [] then Some VarMismatch else None)
      else Some (VarUnknownScope sc))"

definition var_key :: "Variable \<Rightarrow> VarKey" where
  "var_key v = \<lparr>vk_Scope = va_Scope v, vk_WorkspaceID = va_WorkspaceID v, vk_ProjectID = va_ProjectID v,
     vk_UserID = va_UserID v, vk_Name = va_Name v\<rparr>"

definition VarGet :: "Variable list \<Rightarrow> VarKey \<Rightarrow> var_error + Variable" where
  "VarGet vars k =
     (case VarKeyValidate k of
        Some e \<Rightarrow> Inl e
      | None \<Rightarrow> (case row_at var_key k vars of None \<Rightarrow> Inl VarNotFound | Some v \<Rightarrow> Inr v))"

definition new_variable :: "string \<Rightarrow> VarKey \<Rightarrow> string \<Rightarrow> bool \<Rightarrow> int \<Rightarrow> Variable" where
  "new_variable varID k val secret now = \<lparr>va_ID = varID, va_Scope = vk_Scope k, va_WorkspaceID = vk_WorkspaceID k,
     va_ProjectID = vk_ProjectID k, va_UserID = vk_UserID k, va_Name = vk_Name k, va_Value = val, va_Secret = secret,
     va_CreatedAt = now, va_UpdatedAt = now\<rparr>"

definition VarSet ::
  "string \<Rightarrow> VarKey \<Rightarrow> string \<Rightarrow> bool \<Rightarrow> int \<Rightarrow> Variable list \<Rightarrow> var_error + Variable \<times> Variable list" where
  "VarSet varID k val secret now vars =
     (case VarKeyValidate k of
        Some e \<Rightarrow> Inl e
      | None \<Rightarrow>
          (case VarGet vars k of
             Inr v \<Rightarrow>
               (let f = (\<lambda>x. x\<lparr>va_Value := val, va_Secret := secret, va_UpdatedAt := now\<rparr>) in
                Inr (f v, fst (update_rows (\<lambda>x. va_ID x = va_ID v) f vars)))
           | Inl VarNotFound \<Rightarrow> (let v = new_variable varID k val secret now in Inr (v, vars @ [v]))
           | Inl e \<Rightarrow> Inl e))"

definition VarSeedSystem :: "string \<Rightarrow> string \<Rightarrow> string \<Rightarrow> int \<Rightarrow> Variable list \<Rightarrow> var_error + bool \<times> Variable list" where
  "VarSeedSystem varID name dflt now vars =
     (if name = [] then Inl VarNameRequired
      else if list_ex (\<lambda>v. va_Scope v = ScopeSystem \<and> va_Name v = name) vars then Inr (False, vars)
      else Inr (True, vars @ [new_variable varID
        \<lparr>vk_Scope = ScopeSystem, vk_WorkspaceID = [], vk_ProjectID = [], vk_UserID = [], vk_Name = name\<rparr> dflt False now]))"

definition VarDelete :: "VarKey \<Rightarrow> Variable list \<Rightarrow> var_error + Variable list" where
  "VarDelete k vars =
     (case VarKeyValidate k of
        Some e \<Rightarrow> Inl e
      | None \<Rightarrow> (case delete_rows (\<lambda>v. var_key v = k) vars of (vars', n) \<Rightarrow> (if n = 0 then Inl VarNotFound else Inr vars')))"

definition var_rows :: "(Variable \<Rightarrow> bool) \<Rightarrow> Variable list \<Rightarrow> Variable list" where
  "var_rows P vars = sort_key va_Name (filter P vars)"

definition VarListByScope :: "Variable list \<Rightarrow> string \<Rightarrow> string \<Rightarrow> string \<Rightarrow> var_error + Variable list" where
  "VarListByScope vars scope wsID pjID =
     (if scope = ScopeWorkspace then
        (if wsID = [] then Inl VarKeyRequired
         else Inr (var_rows (\<lambda>v. va_Scope v = ScopeWorkspace \<and> va_WorkspaceID v = wsID) vars))
      else if scope = ScopeProject then
        (if wsID = [] \<or> pjID = [] then Inl VarKeyRequired
         else Inr (var_rows (\<lambda>v. va_Scope v = ScopeProject \<and> va_WorkspaceID v = wsID \<and> va_ProjectID v = pjID) vars))
      else if scope = ScopeSystem then Inr (var_rows (\<lambda>v. va_Scope v = ScopeSystem) vars)
      else Inl (VarUnknownScope scope))"

definition VarListByUser :: "Variable list \<Rightarrow> string \<Rightarrow> var_error + Variable list" where
  "VarListByUser vars userID =
     (if userID = [] then Inl VarKeyRequired
      else Inr (var_rows (\<lambda>v. va_Scope v = ScopeUser \<and> va_UserID v = userID) vars))"

section \<open>The verbs\<close>

definition reservedSecretNames :: "string set" where
  "reservedSecretNames = {''gemini.api_key'', ''anthropic.api_key'', ''dev_login.email'', ''dev_login.password''}"

definition redactedSecretValue :: string where "redactedSecretValue = []"

datatype var_verb_error =
    WStore var_error
  | WNameRequired
  | WScopeRequired
  | WUnknownScope string
  | WRevealAdmin
  | WNotFound
  | WCallerRequired
  | WBearerRequired
  | WNotOwner
  | WWorkspaceIDRequired
  | WNotMember string
  | WComputed string
  | WReserved string
  | WSecretAdmin

record VarRequest =
  vq_Name :: string
  vq_Scope :: string
  vq_WorkspaceID :: string
  vq_ProjectID :: string

record VarGetResponse =
  vg_Name :: string
  vg_Value :: string
  vg_ResolvedScope :: string
  vg_Secret :: bool

definition parseVariableScope :: "string \<Rightarrow> var_verb_error + string" where
  "parseVariableScope s = (let t = TrimSpace s in
     if t = ScopeSystem \<or> t = ScopeWorkspace \<or> t = ScopeProject \<or> t = ScopeUser then Inr t
     else if t = [] then Inl WScopeRequired else Inl (WUnknownScope s))"

definition buildVariableResolutionChain ::
  "string \<Rightarrow> string \<Rightarrow> string \<Rightarrow> string \<Rightarrow> string \<Rightarrow> bool \<Rightarrow> VarKey list" where
  "buildVariableResolutionChain name scope wsID pjID userID inherit =
     (let key = (\<lambda>sc ws pj us. \<lparr>vk_Scope = sc, vk_WorkspaceID = ws, vk_ProjectID = pj, vk_UserID = us, vk_Name = name\<rparr>);
          base = key scope wsID pjID (if scope = ScopeUser then userID else [])
      in if \<not> inherit then [base]
         else (if userID \<noteq> [] \<and> scope \<noteq> ScopeUser then [key ScopeUser [] [] userID] else []) @ [base] @
           (if scope = ScopeProject then
              (if wsID \<noteq> [] then [key ScopeWorkspace wsID [] []] else []) @ [key ScopeSystem [] [] []]
            else if scope = ScopeWorkspace then [key ScopeSystem [] [] []]
            else []))"

definition authorizeVariableRead :: "Tenancy \<Rightarrow> Ctx \<Rightarrow> VarKey \<Rightarrow> var_verb_error option" where
  "authorizeVariableRead tn ctx k =
     (if \<not> tn_AuthStore tn then None
      else if vk_Scope k = ScopeSystem then None
      else case cx_User ctx of
        None \<Rightarrow> Some WBearerRequired
      | Some u \<Rightarrow>
          (if vk_Scope k = ScopeUser then (if vk_UserID k \<noteq> us_ID u then Some WNotOwner else None)
           else if \<not> tn_WorkspaceStore tn then None
           else if vk_WorkspaceID k = [] then Some WWorkspaceIDRequired
           else if wsGetRole (tn_Members tn) (vk_WorkspaceID k) (us_ID u) = None then Some (WNotMember (vk_WorkspaceID k))
           else None))"

definition authorizeVariableWrite :: "Tenancy \<Rightarrow> Ctx \<Rightarrow> VarKey \<Rightarrow> var_verb_error option" where
  "authorizeVariableWrite tn ctx k =
     (if vk_Scope k = ScopeSystem then
        (if \<not> tn_AuthStore tn then None else if cx_User ctx = None then Some WBearerRequired else None)
      else authorizeVariableRead tn ctx k)"

definition requireSecretWriteAdmin :: "Tenancy \<Rightarrow> Ctx \<Rightarrow> var_verb_error option" where
  "requireSecretWriteAdmin tn ctx =
     (if \<not> tn_AuthStore tn then None
      else case cx_User ctx of
        None \<Rightarrow> Some WBearerRequired
      | Some u \<Rightarrow> (if us_Role u \<noteq> UserRoleAdmin then Some WSecretAdmin else None))"

definition variableGetResponse :: "Variable \<Rightarrow> string \<Rightarrow> bool \<Rightarrow> VarGetResponse" where
  "variableGetResponse v scope reveal =
     \<lparr>vg_Name = va_Name v, vg_Value = (if va_Secret v \<and> \<not> reveal then redactedSecretValue else va_Value v),
      vg_ResolvedScope = scope, vg_Secret = va_Secret v\<rparr>"

fun get_loop ::
  "(string \<Rightarrow> string option) \<Rightarrow> Tenancy \<Rightarrow> Ctx \<Rightarrow> bool \<Rightarrow> Variable list \<Rightarrow> VarKey list \<Rightarrow> var_verb_error + VarGetResponse" where
  "get_loop sys tn ctx reveal vars [] = Inl WNotFound"
| "get_loop sys tn ctx reveal vars (k # ks) =
     (if vk_Scope k = ScopeSystem then
        (case VarGet vars k of
           Inr v \<Rightarrow> Inr (variableGetResponse v ''system'' reveal)
         | Inl e \<Rightarrow>
             (if e \<noteq> VarNotFound then Inl (WStore e)
              else case sys (vk_Name k) of
                Some s \<Rightarrow> Inr \<lparr>vg_Name = vk_Name k, vg_Value = s, vg_ResolvedScope = ''system'', vg_Secret = False\<rparr>
              | None \<Rightarrow> get_loop sys tn ctx reveal vars ks))
      else case authorizeVariableRead tn ctx k of
        Some e \<Rightarrow> Inl e
      | None \<Rightarrow>
          (case VarGet vars k of
             Inr v \<Rightarrow> Inr (variableGetResponse v (va_Scope v) reveal)
           | Inl e \<Rightarrow> (if e \<noteq> VarNotFound then Inl (WStore e) else get_loop sys tn ctx reveal vars ks)))"

definition invokeVariableGet ::
  "(string \<Rightarrow> string option) \<Rightarrow> Tenancy \<Rightarrow> Ctx \<Rightarrow> VarRequest \<Rightarrow> bool \<Rightarrow> bool \<Rightarrow> Variable list \<Rightarrow>
     var_verb_error + VarGetResponse" where
  "invokeVariableGet sys tn ctx req inherit reveal vars =
     (if TrimSpace (vq_Name req) = [] then Inl WNameRequired
      else case parseVariableScope (vq_Scope req) of
        Inl e \<Rightarrow> Inl e
      | Inr scope \<Rightarrow>
          (if reveal \<and> tn_AuthStore tn \<and> \<not> callerIsGlobalAdmin ctx then Inl WRevealAdmin
           else get_loop sys tn ctx reveal vars
             (buildVariableResolutionChain (vq_Name req) scope (vq_WorkspaceID req) (vq_ProjectID req) (callerUserID ctx) inherit)))"

text \<open>The key a write addresses: a user's own row, or the row the request names.\<close>

definition write_key :: "Ctx \<Rightarrow> VarRequest \<Rightarrow> var_verb_error + VarKey" where
  "write_key ctx req =
     (if TrimSpace (vq_Name req) = [] then Inl WNameRequired
      else case parseVariableScope (vq_Scope req) of
        Inl e \<Rightarrow> Inl e
      | Inr scope \<Rightarrow>
          (let k = \<lparr>vk_Scope = scope, vk_WorkspaceID = vq_WorkspaceID req, vk_ProjectID = vq_ProjectID req,
                    vk_UserID = [], vk_Name = vq_Name req\<rparr>
           in if scope = ScopeUser
              then (if callerUserID ctx = [] then Inl WCallerRequired else Inr (k\<lparr>vk_UserID := callerUserID ctx\<rparr>))
              else Inr k))"

definition set_refused :: "(string \<Rightarrow> string option) \<Rightarrow> Tenancy \<Rightarrow> Ctx \<Rightarrow> VarKey \<Rightarrow> bool \<Rightarrow> var_verb_error option" where
  "set_refused sys tn ctx k secret =
     (case authorizeVariableWrite tn ctx k of
        Some e \<Rightarrow> Some e
      | None \<Rightarrow>
          (if vk_Scope k = ScopeSystem \<and> sys (vk_Name k) \<noteq> None then Some (WComputed (vk_Name k))
           else if vk_Name k \<in> reservedSecretNames \<and> \<not> secret then Some (WReserved (vk_Name k))
           else if secret then requireSecretWriteAdmin tn ctx
           else None))"

definition invokeVariableSet ::
  "(string \<Rightarrow> string option) \<Rightarrow> Tenancy \<Rightarrow> Ctx \<Rightarrow> VarRequest \<Rightarrow> string \<Rightarrow> bool \<Rightarrow> string \<Rightarrow> int \<Rightarrow> Variable list \<Rightarrow>
     var_verb_error + Variable \<times> Variable list" where
  "invokeVariableSet sys tn ctx req val secret varID now vars =
     (case write_key ctx req of
        Inl e \<Rightarrow> Inl e
      | Inr k \<Rightarrow>
          (case set_refused sys tn ctx k secret of
             Some e \<Rightarrow> Inl e
           | None \<Rightarrow>
               (case VarSet varID k val secret now vars of
                  Inl e \<Rightarrow> Inl (WStore e)
                | Inr (v, vars') \<Rightarrow> Inr (if va_Secret v then v\<lparr>va_Value := redactedSecretValue\<rparr> else v, vars'))))"

definition invokeVariableDelete ::
  "Tenancy \<Rightarrow> Ctx \<Rightarrow> VarRequest \<Rightarrow> Variable list \<Rightarrow> var_verb_error + Variable list" where
  "invokeVariableDelete tn ctx req vars =
     (case write_key ctx req of
        Inl e \<Rightarrow> Inl e
      | Inr k \<Rightarrow>
          (case authorizeVariableWrite tn ctx k of
             Some e \<Rightarrow> Inl e
           | None \<Rightarrow> map_sum WStore id (VarDelete k vars)))"

text \<open>The listing: the layers are merged, the first row of a name wins, and the entries are sorted.\<close>

definition add_row :: "string \<Rightarrow> string \<Rightarrow> string \<Rightarrow> bool \<Rightarrow> VarGetResponse list \<Rightarrow> VarGetResponse list" where
  "add_row name val layer secret merged =
     (if list_ex (\<lambda>e. vg_Name e = name) merged then merged
      else merged @ [\<lparr>vg_Name = name, vg_Value = (if secret then redactedSecretValue else val),
                      vg_ResolvedScope = layer, vg_Secret = secret\<rparr>])"

definition add_rows :: "Variable list \<Rightarrow> VarGetResponse list \<Rightarrow> VarGetResponse list" where
  "add_rows vs merged = fold (\<lambda>v. add_row (va_Name v) (va_Value v) (va_Scope v) (va_Secret v)) vs merged"

definition add_computed :: "(string \<Rightarrow> string option) \<Rightarrow> string list \<Rightarrow> VarGetResponse list \<Rightarrow> VarGetResponse list" where
  "add_computed sys names merged =
     fold (\<lambda>n m. case sys n of None \<Rightarrow> m | Some s \<Rightarrow> add_row n s ScopeSystem False m) names merged"

definition list_layer ::
  "(string \<Rightarrow> string option) \<Rightarrow> string list \<Rightarrow> Variable list \<Rightarrow> VarKey \<Rightarrow> VarGetResponse list \<Rightarrow> var_error + VarGetResponse list" where
  "list_layer sys names vars k merged =
     (if vk_Scope k = ScopeUser then
        (if vk_UserID k = [] then Inr merged
         else map_sum id (\<lambda>vs. add_rows vs merged) (VarListByUser vars (vk_UserID k)))
      else if vk_Scope k = ScopeSystem then
        map_sum id (\<lambda>vs. add_computed sys names (add_rows vs merged)) (VarListByScope vars ScopeSystem [] [])
      else map_sum id (\<lambda>vs. add_rows vs merged) (VarListByScope vars (vk_Scope k) (vk_WorkspaceID k) (vk_ProjectID k)))"

fun list_loop ::
  "(string \<Rightarrow> string option) \<Rightarrow> string list \<Rightarrow> Variable list \<Rightarrow> VarKey list \<Rightarrow> VarGetResponse list \<Rightarrow>
     var_error + VarGetResponse list" where
  "list_loop sys names vars [] merged = Inr merged"
| "list_loop sys names vars (k # ks) merged =
     (case list_layer sys names vars k merged of Inl e \<Rightarrow> Inl e | Inr m \<Rightarrow> list_loop sys names vars ks m)"

fun bubble :: "VarGetResponse \<Rightarrow> VarGetResponse list \<Rightarrow> VarGetResponse list" where
  "bubble e [] = [e]"
| "bubble e (p # ps) = (if vg_Name p > vg_Name e then p # bubble e ps else e # p # ps)"

text \<open>The insertion sort in place: the sorted part, read from its right end.\<close>

definition sortVariableEntries :: "VarGetResponse list \<Rightarrow> VarGetResponse list" where
  "sortVariableEntries out = rev (foldl (\<lambda>sorted_part e. bubble e sorted_part) [] out)"

definition invokeVariableList ::
  "(string \<Rightarrow> string option) \<Rightarrow> string list \<Rightarrow> Tenancy \<Rightarrow> Ctx \<Rightarrow> VarRequest \<Rightarrow> bool \<Rightarrow> Variable list \<Rightarrow>
     var_verb_error + VarGetResponse list" where
  "invokeVariableList sys names tn ctx req inherit vars =
     (case parseVariableScope (vq_Scope req) of
        Inl e \<Rightarrow> Inl e
      | Inr scope \<Rightarrow>
          (let deepest = \<lparr>vk_Scope = scope, vk_WorkspaceID = vq_WorkspaceID req, vk_ProjectID = vq_ProjectID req,
                 vk_UserID = (if scope = ScopeUser then callerUserID ctx else []), vk_Name = ''__list__''\<rparr>
           in case (if scope \<noteq> ScopeSystem then authorizeVariableRead tn ctx deepest else None) of
                Some e \<Rightarrow> Inl e
              | None \<Rightarrow>
                  map_sum WStore sortVariableEntries
                    (list_loop sys names vars (buildVariableResolutionChain [] scope (vq_WorkspaceID req) (vq_ProjectID req)
                       (callerUserID ctx) inherit) [])))"

section \<open>The model configuration\<close>

definition systemValue :: "Variable list option \<Rightarrow> string \<Rightarrow> string option" where
  "systemValue store name =
     (case store of
        None \<Rightarrow> None
      | Some vars \<Rightarrow>
          (case VarGet vars \<lparr>vk_Scope = ScopeSystem, vk_WorkspaceID = [], vk_ProjectID = [], vk_UserID = [], vk_Name = name\<rparr> of
             Inl e \<Rightarrow> None
           | Inr v \<Rightarrow> (let s = TrimSpace (va_Value v) in if s \<noteq> [] then Some s else None)))"

definition Model :: "Variable list option \<Rightarrow> string \<Rightarrow> string \<Rightarrow> string" where
  "Model store kind dflt = (case systemValue store (kind @ ''.model'') of Some v \<Rightarrow> v | None \<Rightarrow> dflt)"

definition Secret :: "Variable list option \<Rightarrow> (string \<Rightarrow> string) \<Rightarrow> string \<Rightarrow> string \<Rightarrow> string" where
  "Secret store env name envKey =
     (case systemValue store name of
        Some v \<Rightarrow> v
      | None \<Rightarrow> (if envKey \<noteq> [] then TrimSpace (env envKey) else []))"

end
