(* ===== verification/DocReads.thy ===== *)
theory DocReads
  imports DocVerbs Variables
begin

text \<open>
  The read verbs of \<^verbatim>\<open>internal/verb/document.go\<close>: \<open>document_get\<close> by id and by key with the inherited
  layers, version selection and rendering, \<open>document_list\<close> with the effective overlay, and
  \<open>document_count\<close>. The computed system variables are a parameter; the principles loaded beside a story
  are not modelled. The id path builds a version row of its own, whose time and author are empty.
\<close>

section \<open>document_get\<close>

record GetRequest =
  gq_ID :: string
  gq_Name :: string
  gq_Scope :: string
  gq_WorkspaceID :: string
  gq_ProjectID :: string
  gq_Version :: string
  gq_Inherit :: bool

record DocumentGetResponse =
  rg_Document :: Document
  rg_Versions :: "Version list"
  rg_ResolvedScope :: string
  rg_RawBody :: string
  rg_RenderedBody :: string
  rg_UnresolvedVars :: "string list"

fun parse_digits :: "string \<Rightarrow> int \<Rightarrow> int option" where
  "parse_digits [] n = (if n = 0 then None else Some n)"
| "parse_digits (c # cs) n =
     (if \<not> is_digit c then None
      else let m = n * 10 + (of_char c - 48) in if m > 1000000 then None else parse_digits cs m)"

definition parsePositiveInt :: "string \<Rightarrow> int option" where
  "parsePositiveInt s = parse_digits s 0"

definition parseVersionSelector :: "string \<Rightarrow> verb_error + GetOptions" where
  "parseVersionSelector s =
     (let v = TrimSpace s in
      if v = [] \<or> v = ''latest'' then Inr latest_active
      else if v = ''all'' then Inr (latest_active\<lparr>gt_AllVersions := True\<rparr>)
      else case parsePositiveInt v of None \<Rightarrow> Inl (VVersionSelector v) | Some n \<Rightarrow> Inr (latest_active\<lparr>gt_Version := n\<rparr>))"

definition buildResolutionChain :: "string \<Rightarrow> string \<Rightarrow> string \<Rightarrow> string \<Rightarrow> string \<Rightarrow> bool \<Rightarrow> Key list" where
  "buildResolutionChain name scope wsID pjID userID inherit =
     (let key = (\<lambda>sc ws pj us. \<lparr>ky_Scope = sc, ky_WorkspaceID = ws, ky_ProjectID = pj, ky_UserID = us, ky_Name = name\<rparr>);
          base = key scope wsID pjID (if scope = ScopeUser then userID else [])
      in if \<not> inherit \<or> scope = ScopeLibrary then [base]
         else (if userID \<noteq> [] \<and> scope \<noteq> ScopeUser then [key ScopeUser [] [] userID] else []) @ [base] @
           (if scope = ScopeProject then
              (if wsID \<noteq> [] then [key ScopeWorkspace wsID [] []] else []) @ [key ScopeSystem [] [] []]
            else if scope = ScopeWorkspace then [key ScopeSystem [] [] []]
            else []))"

text \<open>The value of a stored variable, and the resolver of placeholders over it.\<close>

definition stored_value :: "Variable list \<Rightarrow> string \<Rightarrow> string \<Rightarrow> string \<Rightarrow> string \<Rightarrow> string option" where
  "stored_value vars scope wsID pjID name =
     (case VarGet vars \<lparr>vk_Scope = scope, vk_WorkspaceID = wsID, vk_ProjectID = pjID, vk_UserID = [], vk_Name = name\<rparr> of
        Inl e \<Rightarrow> None | Inr v \<Rightarrow> Some (va_Value v))"

definition newTemplateResolver ::
  "(string \<Rightarrow> string option) \<Rightarrow> Variable list option \<Rightarrow> Key \<Rightarrow> GetRequest \<Rightarrow> string \<Rightarrow> string option" where
  "newTemplateResolver sys store k req name =
     (let wsID = (if gq_WorkspaceID req = [] \<and> ky_Scope k \<noteq> ScopeSystem then ky_WorkspaceID k else gq_WorkspaceID req);
          pjID = (if gq_ProjectID req = [] \<and> ky_Scope k = ScopeProject then ky_ProjectID k else gq_ProjectID req)
      in case sys name of
           Some v \<Rightarrow> Some v
         | None \<Rightarrow>
             (case store of
                None \<Rightarrow> None
              | Some vars \<Rightarrow>
                  (case (if wsID \<noteq> [] \<and> pjID \<noteq> [] then stored_value vars ScopeProject wsID pjID name else None) of
                     Some v \<Rightarrow> Some v
                   | None \<Rightarrow> (if wsID \<noteq> [] then stored_value vars ScopeWorkspace wsID [] name else None))))"

definition marshalDocumentGet ::
  "(string \<Rightarrow> string option) \<Rightarrow> Variable list option \<Rightarrow> template_cache \<Rightarrow> Document \<times> Version list \<Rightarrow> Key \<Rightarrow> GetOptions \<Rightarrow>
     GetRequest \<Rightarrow> DocumentGetResponse \<times> template_cache" where
  "marshalDocumentGet sys store cache res k opts req =
     (let d = fst res; vs = snd res;
          resp = \<lparr>rg_Document = d, rg_Versions = vs, rg_ResolvedScope = ky_Scope k, rg_RawBody = [], rg_RenderedBody = [],
                  rg_UnresolvedVars = []\<rparr>
      in if \<not> gt_AllVersions opts \<and> length vs = 1
         then (let v = hd vs; (segs, cache') = CacheGet cache (dc_ID d) (vn_Version v) (vn_Body v);
                   (rendered, unresolved) = Render segs (newTemplateResolver sys store k req)
               in (resp\<lparr>rg_RawBody := vn_Body v, rg_RenderedBody := rendered, rg_UnresolvedVars := unresolved\<rparr>, cache'))
         else (resp, cache))"

definition get_by_id :: "Tenancy \<Rightarrow> VerbCtx \<Rightarrow> string \<Rightarrow> docdb \<Rightarrow> verb_error + DocumentGetResponse" where
  "get_by_id tn vx docID db =
     (case GetByIDWithLatestBody db docID of
        Inl e \<Rightarrow> Inl (VStore e)
      | Inr (d, body) \<Rightarrow>
          (if mcpReadForbiddenDoc (vx_MCP vx) (dc_Type d) (dc_Tags d) then Inl VNotReadableOverMCP
           else case authorizeRead tn (vx_Ctx vx) (row_key d) of
             Some e \<Rightarrow> Inl e
           | None \<Rightarrow>
               (case authorizeLibraryAudience tn (vx_Ctx vx) d of
                  Some e \<Rightarrow> Inl e
                | None \<Rightarrow> Inr \<lparr>rg_Document = d,
                    rg_Versions = [\<lparr>vn_DocumentID = dc_ID d, vn_Version = dc_LatestVersion d, vn_Body = body,
                      vn_Status = Documents.StatusActive, vn_CreatedAt = 0, vn_CreatedBy = []\<rparr>],
                    rg_ResolvedScope = dc_Scope d, rg_RawBody = body, rg_RenderedBody = body, rg_UnresolvedVars = []\<rparr>)))"

text \<open>The first key that holds the document, with the read gate at every key on the way.\<close>

fun cascade_loop :: "Tenancy \<Rightarrow> VerbCtx \<Rightarrow> GetOptions \<Rightarrow> docdb \<Rightarrow> Key list \<Rightarrow> verb_error + Key \<times> Document \<times> Version list" where
  "cascade_loop tn vx opts db [] = Inl VNotFound"
| "cascade_loop tn vx opts db (k # ks) =
     (case authorizeRead tn (vx_Ctx vx) k of
        Some e \<Rightarrow> Inl e
      | None \<Rightarrow>
          (case DocGet db k opts of
             Inr (d, vs) \<Rightarrow>
               (if mcpReadForbiddenDoc (vx_MCP vx) (dc_Type d) (dc_Tags d) then Inl VNotReadableOverMCP
                else case authorizeLibraryAudience tn (vx_Ctx vx) d of Some e \<Rightarrow> Inl e | None \<Rightarrow> Inr (k, d, vs))
           | Inl e \<Rightarrow> (if e \<noteq> DocNotFound then Inl (VStore e) else cascade_loop tn vx opts db ks)))"

definition invokeDocumentGet ::
  "(string \<Rightarrow> string option) \<Rightarrow> Variable list option \<Rightarrow> Tenancy \<Rightarrow> VerbCtx \<Rightarrow> GetRequest \<Rightarrow> docdb \<Rightarrow> template_cache \<Rightarrow>
     (verb_error + DocumentGetResponse) \<times> template_cache" where
  "invokeDocumentGet sys store tn vx req db cache =
     (if TrimSpace (gq_ID req) \<noteq> [] then (get_by_id tn vx (gq_ID req) db, cache)
      else if TrimSpace (gq_Name req) = [] then (Inl VNameRequired, cache)
      else case parseScope (gq_Scope req) of
        Inl e \<Rightarrow> (Inl e, cache)
      | Inr scope \<Rightarrow>
          (case parseVersionSelector (gq_Version req) of
             Inl e \<Rightarrow> (Inl e, cache)
           | Inr opts \<Rightarrow>
               (case cascade_loop tn vx opts db (buildResolutionChain (gq_Name req) scope (gq_WorkspaceID req)
                       (gq_ProjectID req) (callerUserID (vx_Ctx vx)) (gq_Inherit req)) of
                  Inl e \<Rightarrow> (Inl e, cache)
                | Inr (k, res) \<Rightarrow> (case marshalDocumentGet sys store cache res k opts req of (r, cache') \<Rightarrow> (Inr r, cache')))))"

section \<open>document_list and document_count\<close>

record ListRequest =
  lr_Type :: string
  lr_Scope :: string
  lr_WorkspaceID :: string
  lr_ProjectID :: string
  lr_Tags :: "string list"
  lr_Status :: string
  lr_NamePrefix :: string
  lr_NameContains :: string
  lr_Limit :: int
  lr_Cursor :: cursor
  lr_Effective :: bool

definition list_filter :: "ListRequest \<Rightarrow> DocFilter" where
  "list_filter req = \<lparr>df_Type = lr_Type req, df_Scope = lr_Scope req, df_WorkspaceID = lr_WorkspaceID req,
     df_ProjectID = lr_ProjectID req, df_UserID = [], df_Tags = lr_Tags req, df_Status = lr_Status req,
     df_NamePrefix = lr_NamePrefix req, df_NameContains = lr_NameContains req,
     df_Audience = libraryAudienceFilter (lr_Scope req)\<rparr>"

definition dropForeignLibraryTasks :: "ListRequest \<Rightarrow> Document list \<Rightarrow> Document list" where
  "dropForeignLibraryTasks req items =
     (if lr_Type req \<noteq> TypeTask \<or> lr_Scope req = ScopeLibrary then items
      else filter (\<lambda>d. dc_Scope d \<noteq> ScopeLibrary) items)"

text \<open>Where a name is shadowed: the index of the last base row of that name.\<close>

definition shadowed :: "Document list \<Rightarrow> string \<Rightarrow> nat option" where
  "shadowed base name = (case filter (\<lambda>i. dc_Name (base ! i) = name) [0..<length base] of [] \<Rightarrow> None | is \<Rightarrow> Some (last is))"

fun overlay_loop :: "Document list \<Rightarrow> Document list \<Rightarrow> Document list \<Rightarrow> Document list" where
  "overlay_loop base out [] = out"
| "overlay_loop base out (ov # ovs) =
     (case shadowed base (dc_Name ov) of
        Some i \<Rightarrow> overlay_loop base (out[i := ov]) ovs
      | None \<Rightarrow> overlay_loop base (out @ [ov]) ovs)"

definition effectiveList :: "VerbCtx \<Rightarrow> ListRequest \<Rightarrow> string \<Rightarrow> docdb \<Rightarrow> verb_error + Document list \<times> cursor" where
  "effectiveList vx req userID db =
     (let f = (list_filter req)\<lparr>df_Audience := []\<rparr>;
          own = f\<lparr>df_Scope := ScopeUser, df_WorkspaceID := [], df_ProjectID := [], df_UserID := userID\<rparr>
      in case DocList db f 200 NoCursor of
           Inl e \<Rightarrow> Inl (VStore e)
         | Inr (base, c) \<Rightarrow>
             (case DocList db own 200 NoCursor of
                Inl e \<Rightarrow> Inl (VStore e)
              | Inr (overrides, c') \<Rightarrow> Inr (filterMCPReadable (vx_MCP vx) (overlay_loop base base overrides), NoCursor)))"

definition invokeDocumentList :: "Tenancy \<Rightarrow> VerbCtx \<Rightarrow> ListRequest \<Rightarrow> docdb \<Rightarrow> verb_error + Document list \<times> cursor" where
  "invokeDocumentList tn vx req db =
     (case requireScopeKey (lr_Scope req) (lr_WorkspaceID req) (lr_ProjectID req) of
        Some e \<Rightarrow> Inl e
      | None \<Rightarrow>
          (case authorizeListScope tn (vx_Ctx vx) (lr_Scope req) (lr_WorkspaceID req) (lr_ProjectID req) of
             Some e \<Rightarrow> Inl e
           | None \<Rightarrow>
               (if mcpForbidsSkillList (vx_MCP vx) (lr_Type req) then Inl VNotReadableOverMCP
                else if lr_Effective req \<and> callerUserID (vx_Ctx vx) \<noteq> []
                then effectiveList vx req (callerUserID (vx_Ctx vx)) db
                else case DocList db (list_filter req) (lr_Limit req) (lr_Cursor req) of
                  Inl e \<Rightarrow> Inl (VStore e)
                | Inr (items, nextC) \<Rightarrow> Inr (dropForeignLibraryTasks req (filterMCPReadable (vx_MCP vx) items), nextC))))"

definition invokeDocumentCount :: "Tenancy \<Rightarrow> VerbCtx \<Rightarrow> ListRequest \<Rightarrow> docdb \<Rightarrow> verb_error + nat" where
  "invokeDocumentCount tn vx req db =
     (case authorizeListScope tn (vx_Ctx vx) (lr_Scope req) (lr_WorkspaceID req) (lr_ProjectID req) of
        Some e \<Rightarrow> Inl e
      | None \<Rightarrow>
          (if mcpForbidsSkillList (vx_MCP vx) (lr_Type req) then Inl VNotReadableOverMCP
           else Inr (DocCount db (list_filter req))))"

end
