(* ===== verification/VariableProps.thy ===== *)
theory VariableProps
  imports Variables
begin

text \<open>
  The variables: the table is a map from keys to values that every operation keeps, the listing agrees
  with the reads, no reply to a caller who is not an administrator depends on a secret, and the two
  ways in which such a caller still removes or replaces one.
\<close>

section \<open>The table\<close>

definition wf_vars :: "Variable list \<Rightarrow> bool" where
  "wf_vars vars \<longleftrightarrow> unique_key var_key vars \<and> unique_key va_ID vars \<and>
     list_all (\<lambda>v. VarKeyValidate (var_key v) = None) vars"

lemma var_key_simps [simp]:
  "var_key (v\<lparr>va_Value := x\<rparr>) = var_key v" "var_key (v\<lparr>va_Secret := s\<rparr>) = var_key v"
  "var_key (v\<lparr>va_UpdatedAt := t\<rparr>) = var_key v" "var_key (new_variable i k x s t) = k"
  by (simp_all add: var_key_def new_variable_def)

lemma wf_row: "wf_vars vars \<Longrightarrow> row_at var_key k vars = Some v \<Longrightarrow> VarKeyValidate k = None"
  by (auto simp: wf_vars_def list_all_iff dest: row_at_Some)

lemma unique_key_same: "unique_key key rows \<Longrightarrow> x \<in> set rows \<Longrightarrow> y \<in> set rows \<Longrightarrow> key x = key y \<Longrightarrow> x = y"
  by (auto simp: unique_key_def distinct_map dest: inj_onD)

lemma unique_row: "unique_key key rows \<Longrightarrow> x \<in> set rows \<Longrightarrow> key x = k \<Longrightarrow> row_at key k rows = Some x"
  using row_at_unique [of key rows x] by simp

lemma va_new: "va_Value (new_variable i k x s t) = x" "va_Secret (new_variable i k x s t) = s"
  by (simp_all add: new_variable_def)

definition held :: "Variable list \<Rightarrow> VarKey \<Rightarrow> (string \<times> bool) option" where
  "held vars k = map_option (\<lambda>v. (va_Value v, va_Secret v)) (row_at var_key k vars)"

lemma VarGet_held:
  "VarKeyValidate k = None \<Longrightarrow> VarGet vars k = (case row_at var_key k vars of None \<Rightarrow> Inl VarNotFound | Some v \<Rightarrow> Inr v)"
  by (simp add: VarGet_def)

lemma update_one_row:
  assumes "wf_vars vars" and "row_at var_key k vars = Some v" and "\<And>x. var_key (f x) = var_key x"
  shows "row_at var_key k' (fst (update_rows (\<lambda>x. va_ID x = va_ID v) f vars)) =
    (if k' = k then Some (f v) else row_at var_key k' vars)"
proof -
  have v: "v \<in> set vars" "var_key v = k" using row_at_Some [OF assms(2)] by auto
  have other: "va_ID x \<noteq> va_ID v" if "row_at var_key k' vars = Some x" "k' \<noteq> k" for x
    using that v assms(1) row_at_Some [OF that(1)] by (auto simp: wf_vars_def dest: unique_key_same)
  show ?thesis
    using row_at_update [where key = var_key and f = f and P = "\<lambda>x. va_ID x = va_ID v" and rows = vars and k = k', OF assms(3)]
      assms(2) v other by (cases "row_at var_key k' vars") auto
qed

lemma held_set:
  assumes "wf_vars vars" and "VarSet i k x s now vars = Inr (v, vars')"
  shows "held vars' = (held vars)(k \<mapsto> (x, s))" and "va_Secret v = s" and "va_Value v = x" and "var_key v = k"
proof -
  have val: "VarKeyValidate k = None" using assms(2) by (auto simp: VarSet_def split: option.splits)
  have "held vars' = (held vars)(k \<mapsto> (x, s)) \<and> va_Secret v = s \<and> va_Value v = x \<and> var_key v = k"
  proof (cases "row_at var_key k vars")
    case None
    then have e: "v = new_variable i k x s now" "vars' = vars @ [v]"
      using assms(2) val by (auto simp: VarSet_def VarGet_held Let_def)
    show ?thesis using None by (auto simp: e held_def fun_eq_iff va_new split: option.splits)
  next
    case (Some r)
    then have e: "v = r\<lparr>va_Value := x, va_Secret := s, va_UpdatedAt := now\<rparr>"
        "vars' = fst (update_rows (\<lambda>x. va_ID x = va_ID r) (\<lambda>r. r\<lparr>va_Value := x, va_Secret := s, va_UpdatedAt := now\<rparr>) vars)"
      using assms(2) val by (auto simp: VarSet_def VarGet_held)
    show ?thesis
      using update_one_row [OF assms(1) Some, of "\<lambda>r. r\<lparr>va_Value := x, va_Secret := s, va_UpdatedAt := now\<rparr>"]
        row_at_Some [OF Some]
      by (auto simp: e held_def fun_eq_iff)
  qed
  then show "held vars' = (held vars)(k \<mapsto> (x, s))" "va_Secret v = s" "va_Value v = x" "var_key v = k" by auto
qed

lemma wf_set:
  assumes "wf_vars vars" and "VarSet i k x s now vars = Inr (v, vars')" and "i \<notin> va_ID ` set vars"
  shows "wf_vars vars'"
proof -
  have val: "VarKeyValidate k = None" using assms(2) by (auto simp: VarSet_def split: option.splits)
  show ?thesis
  proof (cases "row_at var_key k vars")
    case None
    then have e: "v = new_variable i k x s now" "vars' = vars @ [v]"
      using assms(2) val by (auto simp: VarSet_def VarGet_held Let_def)
    have "va_ID v = i" by (simp add: e new_variable_def)
    then show ?thesis using None assms(1, 3) val
      by (auto simp: e wf_vars_def unique_key_def row_at_None image_iff)
  next
    case (Some r)
    let ?f = "\<lambda>r. r\<lparr>va_Value := x, va_Secret := s, va_UpdatedAt := now\<rparr>"
    have e: "vars' = fst (update_rows (\<lambda>y. va_ID y = va_ID r) ?f vars)"
      using assms(2) val Some by (auto simp: VarSet_def VarGet_held)
    have "unique_key var_key vars'" "unique_key va_ID vars'"
      unfolding e using assms(1) by (intro unique_key_update; simp add: wf_vars_def)+
    moreover have "list_all (\<lambda>v. VarKeyValidate (var_key v) = None) vars'"
      using assms(1) by (auto simp: e wf_vars_def list_all_iff update_rows_def)
    ultimately show ?thesis by (simp add: wf_vars_def)
  qed
qed

lemma held_delete: "VarDelete k vars = Inr vars' \<Longrightarrow> held vars' = (held vars)(k := None)"
proof -
  assume a: "VarDelete k vars = Inr vars'"
  then have "vars' = fst (delete_rows (\<lambda>v. var_key v = k) vars)"
    by (auto simp: VarDelete_def split: option.splits prod.splits if_splits)
  then show ?thesis by (auto simp: held_def fun_eq_iff row_at_delete)
qed

lemma wf_delete: "wf_vars vars \<Longrightarrow> VarDelete k vars = Inr vars' \<Longrightarrow> wf_vars vars'"
  by (auto simp: VarDelete_def wf_vars_def delete_rows_def list_all_iff split: option.splits if_splits
      intro!: unique_key_filter)

section \<open>Layers\<close>

lemma row_add_row:
  "row_at vg_Name n (add_row name val layer secret m) =
     (case row_at vg_Name n m of Some e \<Rightarrow> Some e
      | None \<Rightarrow> (if n = name then Some \<lparr>vg_Name = name, vg_Value = (if secret then redactedSecretValue else val),
                      vg_ResolvedScope = layer, vg_Secret = secret\<rparr> else None))"
  by (auto simp: add_row_def row_at_None list_ex_iff split: option.splits dest: row_at_Some)

lemma row_add_rows:
  "row_at vg_Name n (add_rows vs m) =
     (case row_at vg_Name n m of Some e \<Rightarrow> Some e
      | None \<Rightarrow> map_option (\<lambda>v. variableGetResponse v (va_Scope v) False) (find (\<lambda>v. va_Name v = n) vs))"
proof (induction vs arbitrary: m)
  case Nil
  then show ?case by (simp add: add_rows_def split: option.splits)
next
  case (Cons v vs)
  have "add_rows (v # vs) m = add_rows vs (add_row (va_Name v) (va_Value v) (va_Scope v) (va_Secret v) m)"
    by (simp add: add_rows_def)
  then show ?case
    by (auto simp: Cons.IH row_add_row variableGetResponse_def split: option.splits)
qed

lemma row_add_computed:
  "row_at vg_Name n (add_computed sys names m) =
     (case row_at vg_Name n m of Some e \<Rightarrow> Some e
      | None \<Rightarrow> (if n \<in> set names then map_option (\<lambda>s. \<lparr>vg_Name = n, vg_Value = s, vg_ResolvedScope = ScopeSystem, vg_Secret = False\<rparr>) (sys n)
                 else None))"
proof (induction names arbitrary: m)
  case Nil
  then show ?case by (simp add: add_computed_def split: option.splits)
next
  case (Cons a names)
  have "add_computed sys (a # names) m = add_computed sys names (case sys a of None \<Rightarrow> m | Some s \<Rightarrow> add_row a s ScopeSystem False m)"
    by (simp add: add_computed_def)
  then show ?case
    by (auto simp: Cons.IH row_add_row split: option.splits)
qed

lemma find_only:
  "x \<in> set xs \<Longrightarrow> P x \<Longrightarrow> (\<And>y. y \<in> set xs \<Longrightarrow> P y \<Longrightarrow> y = x) \<Longrightarrow> find P xs = Some x"
  by (metis find_None_iff find_SomeD not_None_eq)

lemma find_var_rows:
  assumes "unique_key var_key vars" and "\<And>v. v \<in> set vars \<Longrightarrow> P v \<and> va_Name v = n \<longleftrightarrow> var_key v = k"
  shows "find (\<lambda>v. va_Name v = n) (var_rows P vars) = row_at var_key k vars"
proof (cases "row_at var_key k vars")
  case None
  then have "\<forall>v \<in> set vars. var_key v \<noteq> k" by (simp add: row_at_None)
  then have "find (\<lambda>v. va_Name v = n) (var_rows P vars) = None" using assms(2) by (auto simp: find_None_iff var_rows_def)
  then show ?thesis using None by simp
next
  case (Some r)
  have r: "r \<in> set vars" "var_key r = k" using row_at_Some [OF Some] by auto
  have "find (\<lambda>v. va_Name v = n) (var_rows P vars) = Some r"
    by (rule find_only) (use r assms in \<open>auto simp: var_rows_def dest: unique_key_same\<close>)
  then show ?thesis using Some by simp
qed

text \<open>What one layer holds for a name.\<close>

definition layer_value :: "(string \<Rightarrow> string option) \<Rightarrow> Variable list \<Rightarrow> VarKey \<Rightarrow> VarGetResponse option" where
  "layer_value sys vars k =
     (case row_at var_key k vars of
        Some v \<Rightarrow> Some (variableGetResponse v (va_Scope v) False)
      | None \<Rightarrow> (if vk_Scope k = ScopeSystem
                 then map_option (\<lambda>s. \<lparr>vg_Name = vk_Name k, vg_Value = s, vg_ResolvedScope = ScopeSystem, vg_Secret = False\<rparr>) (sys (vk_Name k))
                 else None))"

fun first_value :: "(string \<Rightarrow> string option) \<Rightarrow> Variable list \<Rightarrow> VarKey list \<Rightarrow> VarGetResponse option" where
  "first_value sys vars [] = None"
| "first_value sys vars (k # ks) = (case layer_value sys vars k of Some e \<Rightarrow> Some e | None \<Rightarrow> first_value sys vars ks)"

definition with_name :: "string \<Rightarrow> VarKey \<Rightarrow> VarKey" where
  "with_name n k = k\<lparr>vk_Name := n\<rparr>"

lemma with_name_simps [simp]:
  "vk_Scope (with_name n k) = vk_Scope k" "vk_Name (with_name n k) = n" "vk_UserID (with_name n k) = vk_UserID k"
  "vk_WorkspaceID (with_name n k) = vk_WorkspaceID k" "vk_ProjectID (with_name n k) = vk_ProjectID k"
  by (simp_all add: with_name_def)

lemma var_key_eq:
  "var_key v = k \<longleftrightarrow> va_Scope v = vk_Scope k \<and> va_WorkspaceID v = vk_WorkspaceID k \<and> va_ProjectID v = vk_ProjectID k \<and>
     va_UserID v = vk_UserID k \<and> va_Name v = vk_Name k"
  by (cases k) (auto simp: var_key_def)

lemmas var_valid = VarKeyValidate_def Let_def scope_defs

lemma key_of_scope:
  assumes "VarKeyValidate k = None"
  shows "vk_Scope k = ScopeUser \<and> vk_UserID k \<noteq> [] \<and> vk_WorkspaceID k = [] \<and> vk_ProjectID k = [] \<or>
    vk_Scope k = ScopeSystem \<and> vk_UserID k = [] \<and> vk_WorkspaceID k = [] \<and> vk_ProjectID k = [] \<or>
    vk_Scope k = ScopeWorkspace \<and> vk_UserID k = [] \<and> vk_WorkspaceID k \<noteq> [] \<and> vk_ProjectID k = [] \<or>
    vk_Scope k = ScopeProject \<and> vk_UserID k = [] \<and> vk_WorkspaceID k \<noteq> [] \<and> vk_ProjectID k \<noteq> []"
  using assms by (auto simp: VarKeyValidate_def Let_def split: if_splits)

section \<open>The listing and the reads\<close>

lemma row_scope:
  "wf_vars vars \<Longrightarrow> v \<in> set vars \<Longrightarrow> VarKeyValidate (var_key v) = None"
  by (simp add: wf_vars_def list_all_iff)

lemma row_key_of_scope:
  "VarKeyValidate (var_key v) = None \<Longrightarrow>
    va_Scope v = ScopeUser \<and> va_UserID v \<noteq> [] \<and> va_WorkspaceID v = [] \<and> va_ProjectID v = [] \<or>
    va_Scope v = ScopeSystem \<and> va_UserID v = [] \<and> va_WorkspaceID v = [] \<and> va_ProjectID v = [] \<or>
    va_Scope v = ScopeWorkspace \<and> va_UserID v = [] \<and> va_WorkspaceID v \<noteq> [] \<and> va_ProjectID v = [] \<or>
    va_Scope v = ScopeProject \<and> va_UserID v = [] \<and> va_WorkspaceID v \<noteq> [] \<and> va_ProjectID v \<noteq> []"
  using key_of_scope [of "var_key v"] by (simp add: var_key_def)

lemma scope_columns:
  assumes "wf_vars vars" and "v \<in> set vars"
  shows "va_Scope v = ScopeUser \<Longrightarrow> va_WorkspaceID v = [] \<and> va_ProjectID v = []"
    and "va_Scope v = ScopeSystem \<Longrightarrow> va_WorkspaceID v = [] \<and> va_ProjectID v = [] \<and> va_UserID v = []"
    and "va_Scope v = ScopeWorkspace \<Longrightarrow> va_ProjectID v = [] \<and> va_UserID v = []"
    and "va_Scope v = ScopeProject \<Longrightarrow> va_UserID v = []"
  using row_key_of_scope [OF row_scope [OF assms]] by (auto simp: scope_defs)

lemma scope_distinct [simp]:
  "ScopeSystem \<noteq> ScopeWorkspace" "ScopeSystem \<noteq> ScopeProject" "ScopeSystem \<noteq> ScopeUser" "ScopeWorkspace \<noteq> ScopeProject"
  "ScopeWorkspace \<noteq> ScopeUser" "ScopeProject \<noteq> ScopeUser" "ScopeWorkspace \<noteq> ScopeSystem" "ScopeProject \<noteq> ScopeSystem"
  "ScopeUser \<noteq> ScopeSystem" "ScopeProject \<noteq> ScopeWorkspace" "ScopeUser \<noteq> ScopeWorkspace" "ScopeUser \<noteq> ScopeProject"
  by (simp_all add: scope_defs)

lemma layer_step:
  assumes "wf_vars vars" and "VarKeyValidate (with_name n k) = None" and "\<And>m. sys m \<noteq> None \<Longrightarrow> m \<in> set names"
    and "list_layer sys names vars k merged = Inr m"
  shows "row_at vg_Name n m = (case row_at vg_Name n merged of Some e \<Rightarrow> Some e | None \<Rightarrow> layer_value sys vars (with_name n k))"
proof -
  have u: "unique_key var_key vars" using assms(1) by (simp add: wf_vars_def)
  have eq: "va_Name v = n \<and> Q v \<longleftrightarrow> var_key v = with_name n k"
    if "v \<in> set vars" "Q v \<longleftrightarrow> va_Scope v = vk_Scope k \<and> va_WorkspaceID v = vk_WorkspaceID k \<and> va_ProjectID v = vk_ProjectID k \<and> va_UserID v = vk_UserID k"
    for v Q using that by (auto simp: var_key_eq)
  have kinds: "vk_Scope k = ScopeUser \<and> vk_UserID k \<noteq> [] \<and> vk_WorkspaceID k = [] \<and> vk_ProjectID k = [] \<or>
    vk_Scope k = ScopeSystem \<and> vk_UserID k = [] \<and> vk_WorkspaceID k = [] \<and> vk_ProjectID k = [] \<or>
    vk_Scope k = ScopeWorkspace \<and> vk_UserID k = [] \<and> vk_WorkspaceID k \<noteq> [] \<and> vk_ProjectID k = [] \<or>
    vk_Scope k = ScopeProject \<and> vk_UserID k = [] \<and> vk_WorkspaceID k \<noteq> [] \<and> vk_ProjectID k \<noteq> []"
    using key_of_scope [OF assms(2)] by simp
  have found: "find (\<lambda>v. va_Name v = n) (var_rows P vars) = row_at var_key (with_name n k) vars"
    if "\<And>v. v \<in> set vars \<Longrightarrow> P v \<longleftrightarrow> va_Scope v = vk_Scope k \<and> va_WorkspaceID v = vk_WorkspaceID k \<and>
        va_ProjectID v = vk_ProjectID k \<and> va_UserID v = vk_UserID k" for P
    by (rule find_var_rows [OF u]) (use that in \<open>auto simp: var_key_eq\<close>)
  have sysname: "sys n = None \<or> n \<in> set names" using assms(3) [of n] by blast
  from kinds consider "vk_Scope k = ScopeUser" | "vk_Scope k = ScopeSystem" | "vk_Scope k = ScopeWorkspace" | "vk_Scope k = ScopeProject"
    by blast
  then show ?thesis
  proof cases
    case 1
    then have "find (\<lambda>v. va_Name v = n) (var_rows (\<lambda>v. va_Scope v = ScopeUser \<and> va_UserID v = vk_UserID k) vars)
        = row_at var_key (with_name n k) vars"
      by (intro found) (use kinds in \<open>auto simp: scope_columns [OF assms(1)]\<close>)
    then show ?thesis using 1 kinds assms(4)
      by (auto simp: list_layer_def VarListByUser_def row_add_rows layer_value_def split: option.splits)
  next
    case 2
    then have "find (\<lambda>v. va_Name v = n) (var_rows (\<lambda>v. va_Scope v = ScopeSystem) vars) = row_at var_key (with_name n k) vars"
      by (intro found) (use kinds in \<open>auto simp: scope_columns [OF assms(1)]\<close>)
    then show ?thesis using 2 sysname assms(4)
      by (auto simp: list_layer_def VarListByScope_def row_add_rows row_add_computed layer_value_def split: option.splits)
  next
    case 3
    then have "find (\<lambda>v. va_Name v = n) (var_rows (\<lambda>v. va_Scope v = ScopeWorkspace \<and> va_WorkspaceID v = vk_WorkspaceID k) vars)
        = row_at var_key (with_name n k) vars"
      by (intro found) (use kinds in \<open>auto simp: scope_columns [OF assms(1)]\<close>)
    then show ?thesis using 3 kinds assms(4)
      by (auto simp: list_layer_def VarListByScope_def row_add_rows layer_value_def split: option.splits)
  next
    case 4
    then have "find (\<lambda>v. va_Name v = n) (var_rows (\<lambda>v. va_Scope v = ScopeProject \<and> va_WorkspaceID v = vk_WorkspaceID k \<and>
        va_ProjectID v = vk_ProjectID k) vars) = row_at var_key (with_name n k) vars"
      by (intro found) (use kinds in \<open>auto simp: scope_columns [OF assms(1)]\<close>)
    then show ?thesis using 4 kinds assms(4)
      by (auto simp: list_layer_def VarListByScope_def row_add_rows layer_value_def split: option.splits)
  qed
qed

lemma list_loop_first:
  assumes "wf_vars vars" and "\<And>m. sys m \<noteq> None \<Longrightarrow> m \<in> set names"
    and "list_all (\<lambda>k. VarKeyValidate (with_name n k) = None) ks" and "list_loop sys names vars ks merged = Inr m"
  shows "row_at vg_Name n m =
    (case row_at vg_Name n merged of Some e \<Rightarrow> Some e | None \<Rightarrow> first_value sys vars (map (with_name n) ks))"
  using assms(3, 4)
proof (induction ks arbitrary: merged)
  case (Cons k ks)
  then obtain m1 where m1: "list_layer sys names vars k merged = Inr m1" "list_loop sys names vars ks m1 = Inr m"
    by (auto split: sum.splits)
  have "row_at vg_Name n m1 = (case row_at vg_Name n merged of Some e \<Rightarrow> Some e | None \<Rightarrow> layer_value sys vars (with_name n k))"
    using layer_step [OF assms(1) _ assms(2) m1(1)] Cons.prems(1) by simp
  then show ?case using Cons.IH [OF _ m1(2)] Cons.prems(1) by (auto split: option.splits)
qed (auto split: option.splits)

lemma get_loop_first:
  assumes "list_all (\<lambda>k. VarKeyValidate k = None \<and> (vk_Scope k \<noteq> ScopeSystem \<longrightarrow> authorizeVariableRead tn ctx k = None)) ks"
  shows "get_loop sys tn ctx False vars ks = (case first_value sys vars ks of Some e \<Rightarrow> Inr e | None \<Rightarrow> Inl WNotFound)"
  using assms
proof (induction ks)
  case (Cons k ks)
  have s: "va_Scope v = ScopeSystem" if "row_at var_key k vars = Some v" "vk_Scope k = ScopeSystem" for v
    using row_at_Some [OF that(1)] that(2) by (auto simp: var_key_eq)
  show ?case using Cons s
    by (auto simp: VarGet_held layer_value_def scope_defs split: option.splits)
qed simp

lemma chain_named: "buildVariableResolutionChain n scope ws pj us inh = map (with_name n) (buildVariableResolutionChain [] scope ws pj us inh)"
  by (auto simp: buildVariableResolutionChain_def Let_def with_name_def)

lemma valid_name: "n \<noteq> [] \<Longrightarrow> VarKeyValidate (with_name n k) = None \<longleftrightarrow> VarKeyValidate (with_name ''x'' k) = None"
  by (simp add: VarKeyValidate_def Let_def)

lemma chain_readable:
  assumes "VarKeyValidate \<lparr>vk_Scope = scope, vk_WorkspaceID = ws, vk_ProjectID = pj,
      vk_UserID = (if scope = ScopeUser then callerUserID ctx else []), vk_Name = n\<rparr> = None"
    and "scope \<noteq> ScopeSystem \<Longrightarrow> authorizeVariableRead tn ctx \<lparr>vk_Scope = scope, vk_WorkspaceID = ws, vk_ProjectID = pj,
      vk_UserID = (if scope = ScopeUser then callerUserID ctx else []), vk_Name = m\<rparr> = None"
  shows "list_all (\<lambda>k. VarKeyValidate k = None \<and> (vk_Scope k \<noteq> ScopeSystem \<longrightarrow> authorizeVariableRead tn ctx k = None))
    (buildVariableResolutionChain n scope ws pj (callerUserID ctx) inherit)"
proof -
  have n: "n \<noteq> []" using assms(1) by (auto simp: VarKeyValidate_def)
  have user: "authorizeVariableRead tn ctx \<lparr>vk_Scope = ScopeUser, vk_WorkspaceID = [], vk_ProjectID = [], vk_UserID = callerUserID ctx, vk_Name = n\<rparr> = None"
    if "callerUserID ctx \<noteq> []" using that by (auto simp: authorizeVariableRead_def callerUserID_def split: option.splits)
  have same: "authorizeVariableRead tn ctx \<lparr>vk_Scope = scope', vk_WorkspaceID = ws, vk_ProjectID = pj', vk_UserID = [], vk_Name = n\<rparr> = None"
    if "scope \<noteq> ScopeSystem" "scope \<noteq> ScopeUser" "scope' = scope \<or> scope' = ScopeWorkspace" for scope' pj'
    using assms(2) [OF that(1)] that by (auto simp: authorizeVariableRead_def split: option.splits if_splits)
  have own: "authorizeVariableRead tn ctx \<lparr>vk_Scope = scope, vk_WorkspaceID = ws, vk_ProjectID = pj,
      vk_UserID = callerUserID ctx, vk_Name = n\<rparr> = None" if "scope = ScopeUser"
    using assms(2) that by (auto simp: authorizeVariableRead_def split: option.splits if_splits)
  show ?thesis
    using assms(1) n user same own
    by (auto simp: buildVariableResolutionChain_def Let_def VarKeyValidate_def split: if_splits)
qed

lemma set_bubble [simp]: "set (bubble e ps) = insert e (set ps)"
  by (induction ps) auto

lemma set_sortVariableEntries [simp]: "set (sortVariableEntries es) = set es"
proof -
  have "set (foldl (\<lambda>acc e. bubble e acc) acc es) = set acc \<union> set es" for acc
    by (induction es arbitrary: acc) auto
  then show ?thesis by (simp add: sortVariableEntries_def)
qed

lemma distinct_add_row: "unique_key vg_Name m \<Longrightarrow> unique_key vg_Name (add_row name val layer secret m)"
  by (auto simp: add_row_def unique_key_def list_ex_iff image_iff)

lemma distinct_add_rows: "unique_key vg_Name m \<Longrightarrow> unique_key vg_Name (add_rows vs m)"
  unfolding add_rows_def by (induction vs arbitrary: m) (auto intro: distinct_add_row)

lemma distinct_add_computed: "unique_key vg_Name m \<Longrightarrow> unique_key vg_Name (add_computed sys names m)"
  unfolding add_computed_def by (induction names arbitrary: m) (auto intro: distinct_add_row split: option.splits)

lemma distinct_layer: "unique_key vg_Name m \<Longrightarrow> list_layer sys names vars k m = Inr m' \<Longrightarrow> unique_key vg_Name m'"
  by (auto simp: list_layer_def map_sum_Inr split: if_splits intro: distinct_add_rows distinct_add_computed)

lemma distinct_list_loop:
  "unique_key vg_Name m \<Longrightarrow> list_loop sys names vars ks m = Inr m' \<Longrightarrow> unique_key vg_Name m'"
  by (induction ks arbitrary: m) (auto split: sum.splits dest: distinct_layer)

text \<open>
  The listing shows what the reads return. Whenever \<open>variable_list\<close> succeeds, \<open>variable_get\<close> of
  a name at the same scope (without reveal) returns an entry exactly when that entry is in the listing,
  for every name and every coherent address, with the user overlay and the inherited layers; so it
  fails exactly for the names that are not listed. The resolver's names are those the lister lists,
  as the server installs them.
\<close>

theorem list_agrees_with_get:
  assumes "wf_vars vars" and "\<And>m. sys m \<noteq> None \<Longrightarrow> m \<in> set names"
    and "invokeVariableList sys names tn ctx req inherit vars = Inr es"
    and "parseVariableScope (vq_Scope req) = Inr scope"
    and "VarKeyValidate \<lparr>vk_Scope = scope, vk_WorkspaceID = vq_WorkspaceID req, vk_ProjectID = vq_ProjectID req,
      vk_UserID = (if scope = ScopeUser then callerUserID ctx else []), vk_Name = n\<rparr> = None"
    and "TrimSpace n \<noteq> []"
  shows "invokeVariableGet sys tn ctx (req\<lparr>vq_Name := n\<rparr>) inherit False vars = Inr e \<longleftrightarrow> e \<in> set es \<and> vg_Name e = n"
proof -
  let ?chain = "\<lambda>m. buildVariableResolutionChain m scope (vq_WorkspaceID req) (vq_ProjectID req) (callerUserID ctx) inherit"
  obtain merged where m: "list_loop sys names vars (?chain []) [] = Inr merged" "es = sortVariableEntries merged"
    and auth: "scope \<noteq> ScopeSystem \<Longrightarrow> authorizeVariableRead tn ctx \<lparr>vk_Scope = scope, vk_WorkspaceID = vq_WorkspaceID req,
        vk_ProjectID = vq_ProjectID req, vk_UserID = (if scope = ScopeUser then callerUserID ctx else []), vk_Name = ''__list__''\<rparr> = None"
    using assms(3, 4) by (auto simp: invokeVariableList_def Let_def map_sum_Inr split: option.splits if_splits)
  have ready: "list_all (\<lambda>k. VarKeyValidate k = None \<and> (vk_Scope k \<noteq> ScopeSystem \<longrightarrow> authorizeVariableRead tn ctx k = None)) (?chain n)"
    by (rule chain_readable [OF assms(5)]) (rule auth)
  have valid: "list_all (\<lambda>k. VarKeyValidate (with_name n k) = None) (?chain [])"
    using ready unfolding chain_named [of n] by (simp add: list_all_iff)
  have got: "invokeVariableGet sys tn ctx (req\<lparr>vq_Name := n\<rparr>) inherit False vars =
      (case first_value sys vars (?chain n) of Some e \<Rightarrow> Inr e | None \<Rightarrow> Inl WNotFound)"
    using assms(4, 6) get_loop_first [OF ready] by (simp add: invokeVariableGet_def)
  have "row_at vg_Name n merged = first_value sys vars (?chain n)"
    using list_loop_first [OF assms(1) assms(2) valid m(1)] by (simp add: chain_named [of n])
  moreover have "row_at vg_Name n merged = Some e \<longleftrightarrow> e \<in> set es \<and> vg_Name e = n"
    using distinct_list_loop [OF _ m(1)] m(2) row_at_unique [of vg_Name merged e] row_at_Some
    by (fastforce simp: unique_key_def)
  ultimately show ?thesis using got by (auto split: option.splits)
qed

definition demo_var :: "string \<Rightarrow> string \<Rightarrow> string \<Rightarrow> string \<Rightarrow> string \<Rightarrow> string \<Rightarrow> bool \<Rightarrow> Variable" where
  "demo_var i sc ws us n x s = \<lparr>va_ID = i, va_Scope = sc, va_WorkspaceID = ws, va_ProjectID = [], va_UserID = us, va_Name = n,
     va_Value = x, va_Secret = s, va_CreatedAt = 0, va_UpdatedAt = 0\<rparr>"

definition demo_vars :: "Variable list" where
  "demo_vars = [demo_var ''v1'' ScopeSystem [] [] ''page'' ''50'' False, demo_var ''v2'' ScopeSystem [] [] ''key'' ''s3cret'' True,
     demo_var ''v3'' ScopeUser [] ''ann'' ''page'' ''20'' False, demo_var ''v4'' ScopeWorkspace ''w1'' [] ''tone'' ''dry'' False]"

definition demo_user_ctx :: "string \<Rightarrow> string \<Rightarrow> Ctx" where
  "demo_user_ctx user role = \<lparr>cx_User = Some \<lparr>us_ID = user, us_Role = role\<rparr>, cx_APIKeyProject = [], cx_APIKeyRole = [], cx_AgentRole = None\<rparr>"

definition demo_tenancy :: "WsMember list \<Rightarrow> Tenancy" where
  "demo_tenancy ms = \<lparr>tn_AuthStore = True, tn_WorkspaceStore = True, tn_ProjectStore = True, tn_Workspaces = [],
     tn_Members = ms, tn_Mounts = [], tn_Projects = [], tn_ProjectMembers = []\<rparr>"

definition demo_sys :: "string \<Rightarrow> string option" where
  "demo_sys n = (if n = ''version'' then Some ''5.0'' else None)"

definition demo_var_req :: "string \<Rightarrow> string \<Rightarrow> string \<Rightarrow> VarRequest" where
  "demo_var_req n sc ws = \<lparr>vq_Name = n, vq_Scope = sc, vq_WorkspaceID = ws, vq_ProjectID = []\<rparr>"

lemmas demo_var_defs = demo_var_def demo_vars_def demo_user_ctx_def demo_tenancy_def demo_sys_def demo_var_req_def

lemma demo_vars_wf: "wf_vars demo_vars"
  by code_simp

lemma demo_sys_names: "demo_sys m \<noteq> None \<Longrightarrow> m \<in> set [''version'']"
  by (simp add: demo_sys_def split: if_splits)

definition demo_listing :: "VarGetResponse list" where
  "demo_listing = [\<lparr>vg_Name = ''key'', vg_Value = [], vg_ResolvedScope = ScopeSystem, vg_Secret = True\<rparr>,
     \<lparr>vg_Name = ''page'', vg_Value = ''20'', vg_ResolvedScope = ScopeUser, vg_Secret = False\<rparr>,
     \<lparr>vg_Name = ''tone'', vg_Value = ''dry'', vg_ResolvedScope = ScopeWorkspace, vg_Secret = False\<rparr>,
     \<lparr>vg_Name = ''version'', vg_Value = ''5.0'', vg_ResolvedScope = ScopeSystem, vg_Secret = False\<rparr>]"

definition demo_ws_member :: "WsMember list" where
  "demo_ws_member = [\<lparr>wm_WorkspaceID = ''w1'', wm_UserID = ''ann'', wm_Role = ''member'', wm_AddedAt = 0, wm_AddedBy = []\<rparr>]"

lemma demo_listed:
  "invokeVariableList demo_sys [''version''] (demo_tenancy demo_ws_member) (demo_user_ctx ''ann'' ''user'')
     (demo_var_req [] ''workspace'' ''w1'') True demo_vars = Inr demo_listing"
  by code_simp

theorem list_agrees_with_get_witness:
  "invokeVariableGet demo_sys (demo_tenancy demo_ws_member) (demo_user_ctx ''ann'' ''user'')
     ((demo_var_req [] ''workspace'' ''w1'')\<lparr>vq_Name := ''page''\<rparr>) True False demo_vars =
   Inr \<lparr>vg_Name = ''page'', vg_Value = ''20'', vg_ResolvedScope = ScopeUser, vg_Secret = False\<rparr>"
proof -
  have valid: "VarKeyValidate \<lparr>vk_Scope = ScopeWorkspace, vk_WorkspaceID = vq_WorkspaceID (demo_var_req [] ''workspace'' ''w1''),
      vk_ProjectID = vq_ProjectID (demo_var_req [] ''workspace'' ''w1''),
      vk_UserID = (if ScopeWorkspace = ScopeUser then callerUserID (demo_user_ctx ''ann'' ''user'') else []), vk_Name = ''page''\<rparr> = None"
    by code_simp
  have scope: "parseVariableScope (vq_Scope (demo_var_req [] ''workspace'' ''w1'')) = Inr ScopeWorkspace" by code_simp
  have name: "TrimSpace ''page'' \<noteq> []" by code_simp
  have "\<lparr>vg_Name = ''page'', vg_Value = ''20'', vg_ResolvedScope = ScopeUser, vg_Secret = False\<rparr> \<in> set demo_listing"
    by (simp add: demo_listing_def)
  then show ?thesis
    using list_agrees_with_get [OF demo_vars_wf demo_sys_names demo_listed scope valid name] by simp
qed

section \<open>Secrets\<close>

text \<open>What a table shows without its secrets.\<close>

definition masked :: "Variable \<Rightarrow> Variable" where
  "masked v = (if va_Secret v then v\<lparr>va_Value := []\<rparr> else v)"

lemma masked_simps [simp]:
  "var_key (masked v) = var_key v" "va_Secret (masked v) = va_Secret v" "va_ID (masked v) = va_ID v"
  "va_Name (masked v) = va_Name v" "va_Scope (masked v) = va_Scope v" "va_WorkspaceID (masked v) = va_WorkspaceID v"
  "va_ProjectID (masked v) = va_ProjectID v" "va_UserID (masked v) = va_UserID v"
  "variableGetResponse (masked v) sc False = variableGetResponse v sc False"
  "(masked v)\<lparr>va_Value := x\<rparr> = v\<lparr>va_Value := x\<rparr>"
  "masked (masked v) = masked v"
  by (auto simp: masked_def variableGetResponse_def redactedSecretValue_def)

lemma row_at_masked: "row_at var_key k (map masked vars) = map_option masked (row_at var_key k vars)"
  by (induction vars) auto

lemma VarGet_masked: "VarGet (map masked vars) k = map_sum id masked (VarGet vars k)"
  by (auto simp: VarGet_def row_at_masked split: option.splits)

lemma get_loop_masked: "get_loop sys tn ctx False (map masked vars) ks = get_loop sys tn ctx False vars ks"
  by (induction ks) (auto simp: VarGet_masked split: sum.splits option.splits)

lemma sort_key_map_same: "(\<And>x. key (f x) = key x) \<Longrightarrow> sort_key key (map f xs) = map f (sort_key key xs)"
proof (induction xs)
  case (Cons x xs)
  have "insort_key key (f x) (map f ys) = map f (insort_key key x ys)" for ys
    using Cons.prems by (induction ys) auto
  then show ?case using Cons by simp
qed simp

lemma var_rows_masked: "(\<And>v. P (masked v) = P v) \<Longrightarrow> var_rows P (map masked vars) = map masked (var_rows P vars)"
proof -
  assume P: "\<And>v. P (masked v) = P v"
  then have "filter P (map masked vars) = map masked (filter P vars)" by (induction vars) auto
  then show ?thesis by (simp add: var_rows_def sort_key_map_same)
qed

lemma add_rows_masked: "add_rows (map masked vs) m = add_rows vs m"
  unfolding add_rows_def
  by (induction vs arbitrary: m) (auto simp: add_row_def masked_def)

lemma list_layer_masked: "list_layer sys names (map masked vars) k m = list_layer sys names vars k m"
  by (simp add: list_layer_def VarListByUser_def VarListByScope_def var_rows_masked add_rows_masked)

lemma list_loop_masked: "list_loop sys names (map masked vars) ks m = list_loop sys names vars ks m"
  by (induction ks arbitrary: m) (auto simp: list_layer_masked split: sum.splits)

lemma VarSet_masked:
  "VarSet i k x s now (map masked vars) = Inl e \<longleftrightarrow> VarSet i k x s now vars = Inl e"
  "VarSet i k x s now vars = Inr (v, vars') \<Longrightarrow>
     \<exists>vars''. VarSet i k x s now (map masked vars) = Inr (v, vars'') \<and> map masked vars'' = map masked vars'"
  by (auto simp: VarSet_def VarGet_masked Let_def update_rows_def split: option.splits sum.splits var_error.splits)

lemma VarDelete_masked: "map_sum id (map masked) (VarDelete k (map masked vars)) = map_sum id (map masked) (VarDelete k vars)"
proof -
  have "filter (\<lambda>v. var_key v \<noteq> k) (map masked vars) = map masked (filter (\<lambda>v. var_key v \<noteq> k) vars)"
    "length (filter (\<lambda>v. var_key v = k) (map masked vars)) = length (filter (\<lambda>v. var_key v = k) vars)"
    by (induction vars) auto
  then show ?thesis by (auto simp: VarDelete_def delete_rows_def split: option.splits)
qed

text \<open>Sessions: calls of any callers in any order, and what each call replies.\<close>

datatype var_op =
    OpGet VarRequest bool bool
  | OpList VarRequest bool
  | OpSet VarRequest string bool string
  | OpDelete VarRequest

datatype var_reply =
    ReplyGet "var_verb_error + VarGetResponse"
  | ReplyList "var_verb_error + VarGetResponse list"
  | ReplySet "var_verb_error + Variable"
  | ReplyDelete "var_verb_error option"

type_synonym var_call = "Ctx \<times> int \<times> var_op"

fun var_step :: "(string \<Rightarrow> string option) \<Rightarrow> string list \<Rightarrow> Tenancy \<Rightarrow> var_call \<Rightarrow> Variable list \<Rightarrow> var_reply \<times> Variable list" where
  "var_step sys names tn (ctx, now, OpGet req inherit reveal) vars = (ReplyGet (invokeVariableGet sys tn ctx req inherit reveal vars), vars)"
| "var_step sys names tn (ctx, now, OpList req inherit) vars = (ReplyList (invokeVariableList sys names tn ctx req inherit vars), vars)"
| "var_step sys names tn (ctx, now, OpSet req val secret i) vars =
     (case invokeVariableSet sys tn ctx req val secret i now vars of
        Inl e \<Rightarrow> (ReplySet (Inl e), vars) | Inr (v, vars') \<Rightarrow> (ReplySet (Inr v), vars'))"
| "var_step sys names tn (ctx, now, OpDelete req) vars =
     (case invokeVariableDelete tn ctx req vars of
        Inl e \<Rightarrow> (ReplyDelete (Some e), vars) | Inr vars' \<Rightarrow> (ReplyDelete None, vars'))"

fun var_run :: "(string \<Rightarrow> string option) \<Rightarrow> string list \<Rightarrow> Tenancy \<Rightarrow> var_call list \<Rightarrow> Variable list \<Rightarrow> (Ctx \<times> var_reply) list \<times> Variable list" where
  "var_run sys names tn [] vars = ([], vars)"
| "var_run sys names tn (c # cs) vars =
     (let (r, vars1) = var_step sys names tn c vars; (rs, vars2) = var_run sys names tn cs vars1 in ((fst c, r) # rs, vars2))"

definition seen_by_others :: "(Ctx \<times> var_reply) list \<Rightarrow> (Ctx \<times> var_reply) list" where
  "seen_by_others rs = filter (\<lambda>(ctx, r). \<not> callerIsGlobalAdmin ctx) rs"

lemma set_masked:
  "case invokeVariableSet sys tn ctx req val secret i now vars of
     Inl e \<Rightarrow> invokeVariableSet sys tn ctx req val secret i now (map masked vars) = Inl e
   | Inr (v, vars') \<Rightarrow>
       (\<exists>vars''. invokeVariableSet sys tn ctx req val secret i now (map masked vars) = Inr (v, vars'') \<and> map masked vars'' = map masked vars')"
proof (cases "write_key ctx req")
  case (Inr k)
  show ?thesis
  proof (cases "set_refused sys tn ctx k secret")
    case None
    show ?thesis
    proof (cases "VarSet i k val secret now vars")
      case (Inl e)
      then show ?thesis using None Inr VarSet_masked(1) [of i k val secret now vars e] by (simp add: invokeVariableSet_def)
    next
      case (Inr r)
      obtain v vars' where r: "r = (v, vars')" by (cases r)
      then obtain vars'' where "VarSet i k val secret now (map masked vars) = Inr (v, vars'')" "map masked vars'' = map masked vars'"
        using VarSet_masked(2) [of i k val secret now vars v vars'] Inr by auto
      then show ?thesis using Inr \<open>write_key ctx req = Inr k\<close> None r by (simp add: invokeVariableSet_def)
    qed
  qed (simp add: Inr invokeVariableSet_def)
qed (simp add: invokeVariableSet_def)

lemma step_masked:
  assumes "tn_AuthStore tn"
  shows "\<not> callerIsGlobalAdmin (fst c) \<Longrightarrow> fst (var_step sys names tn c (map masked vars)) = fst (var_step sys names tn c vars)"
    and "map masked (snd (var_step sys names tn c (map masked vars))) = map masked (snd (var_step sys names tn c vars))"
proof -
  obtain ctx now oper where c: "c = (ctx, now, oper)" by (metis prod_cases3)
  have "(\<not> callerIsGlobalAdmin (fst c) \<longrightarrow> fst (var_step sys names tn c (map masked vars)) = fst (var_step sys names tn c vars)) \<and>
    map masked (snd (var_step sys names tn c (map masked vars))) = map masked (snd (var_step sys names tn c vars))"
  proof (cases oper)
    case (OpGet req inherit reveal)
    then show ?thesis using assms
      by (cases reveal) (auto simp: c invokeVariableGet_def get_loop_masked split: sum.splits)
  next
    case (OpList req inherit)
    then show ?thesis by (auto simp: c invokeVariableList_def list_loop_masked Let_def split: sum.splits option.splits)
  next
    case (OpSet req val secret i)
    then show ?thesis
      using set_masked [of sys tn ctx req val secret i now vars]
      by (cases "invokeVariableSet sys tn ctx req val secret i now vars") (auto simp: c)
  next
    case (OpDelete req)
    show ?thesis
    proof (cases "write_key ctx req")
      case (Inr k)
      show ?thesis using VarDelete_masked [of k vars]
        by (cases "VarDelete k vars"; cases "VarDelete k (map masked vars)"; cases "authorizeVariableWrite tn ctx k")
          (auto simp: c OpDelete Inr invokeVariableDelete_def)
    qed (simp add: c OpDelete invokeVariableDelete_def)
  qed
  then show "\<not> callerIsGlobalAdmin (fst c) \<Longrightarrow> fst (var_step sys names tn c (map masked vars)) = fst (var_step sys names tn c vars)"
    "map masked (snd (var_step sys names tn c (map masked vars))) = map masked (snd (var_step sys names tn c vars))" by auto
qed

text \<open>
  C37: No variable verb tells a secret to a caller who is not an administrator. Two tables that differ
  in nothing but the values of secret rows give the same replies to all calls of such
  callers, in every interleaving of reads, reveals, listings, writes and deletes by any callers,
  administrators included; and they still differ in nothing but secrets afterwards.
\<close>

theorem secrets_not_observable:
  assumes "tn_AuthStore tn" and "map masked vars = map masked vars'"
  shows "seen_by_others (fst (var_run sys names tn cs vars)) = seen_by_others (fst (var_run sys names tn cs vars')) \<and>
    map masked (snd (var_run sys names tn cs vars)) = map masked (snd (var_run sys names tn cs vars'))"
  using assms(2)
proof (induction cs arbitrary: vars vars')
  case (Cons c cs)
  note step = step_masked [OF assms(1), where c = c and sys = sys and names = names]
  have reply: "\<not> callerIsGlobalAdmin (fst c) \<Longrightarrow> fst (var_step sys names tn c vars) = fst (var_step sys names tn c vars')"
    using step(1) [of vars] step(1) [of vars'] Cons.prems by simp
  have table: "map masked (snd (var_step sys names tn c vars)) = map masked (snd (var_step sys names tn c vars'))"
    using step(2) [of vars] step(2) [of vars'] Cons.prems by simp
  show ?case using Cons.IH [OF table] reply
    by (auto simp: seen_by_others_def Let_def split: prod.splits)
qed (simp add: seen_by_others_def)

definition demo_other_vars :: "Variable list" where
  "demo_other_vars = map (\<lambda>v. if va_Secret v then v\<lparr>va_Value := ''other''\<rparr> else v) demo_vars"

definition demo_var_calls :: "var_call list" where
  "demo_var_calls = [(demo_user_ctx ''root'' ''admin'', 1, OpGet (demo_var_req ''key'' ''system'' []) False True),
     (demo_user_ctx ''ann'' ''user'', 2, OpGet (demo_var_req ''key'' ''system'' []) True True),
     (demo_user_ctx ''ann'' ''user'', 3, OpList (demo_var_req [] ''system'' []) True)]"

theorem secrets_not_observable_witness:
  "demo_vars \<noteq> demo_other_vars \<and>
   fst (var_run demo_sys [''version''] (demo_tenancy []) demo_var_calls demo_vars) \<noteq>
     fst (var_run demo_sys [''version''] (demo_tenancy []) demo_var_calls demo_other_vars) \<and>
   seen_by_others (fst (var_run demo_sys [''version''] (demo_tenancy []) demo_var_calls demo_vars)) =
     seen_by_others (fst (var_run demo_sys [''version''] (demo_tenancy []) demo_var_calls demo_other_vars))"
proof -
  have m: "map masked demo_vars = map masked demo_other_vars" by code_simp
  have a: "tn_AuthStore (demo_tenancy [])" by code_simp
  have d: "demo_vars \<noteq> demo_other_vars" by code_simp
  have r: "fst (var_run demo_sys [''version''] (demo_tenancy []) demo_var_calls demo_vars) \<noteq>
     fst (var_run demo_sys [''version''] (demo_tenancy []) demo_var_calls demo_other_vars)" by code_simp
  show ?thesis using d r secrets_not_observable [OF a m] by blast
qed

section \<open>What the table keeps\<close>

text \<open>
  The variables table is a map from keys to a value and a secret mark. A set of a key is the
  update of the map at that key and nothing else, whether the row exists or not; a delete removes the key; a
  read returns what the map holds; and both writes keep the table well formed (one row per
  key and per id, every row at a coherent key), given a fresh id.
\<close>

theorem variables_refine_map:
  assumes "wf_vars vars" and "i \<notin> va_ID ` set vars"
  shows "(VarSet i k x s now vars = Inr (v, vars') \<longrightarrow> wf_vars vars' \<and> held vars' = (held vars)(k \<mapsto> (x, s))) \<and>
    (VarDelete k vars = Inr vars'' \<longrightarrow> wf_vars vars'' \<and> held vars'' = (held vars)(k := None) \<and> held vars k \<noteq> None) \<and>
    (VarKeyValidate k = None \<longrightarrow> map_sum id (\<lambda>v. (va_Value v, va_Secret v)) (VarGet vars k) =
       (case held vars k of None \<Rightarrow> Inl VarNotFound | Some p \<Rightarrow> Inr p))"
proof -
  have "held vars k \<noteq> None" if "VarDelete k vars = Inr vars''"
    using that by (auto simp: VarDelete_def delete_rows_def held_def row_at_None filter_empty_conv split: option.splits if_splits)
  then have del: "VarDelete k vars = Inr vars'' \<longrightarrow> wf_vars vars'' \<and> held vars'' = (held vars)(k := None) \<and> held vars k \<noteq> None"
    using wf_delete [OF assms(1)] held_delete by blast
  have set: "VarSet i k x s now vars = Inr (v, vars') \<longrightarrow> wf_vars vars' \<and> held vars' = (held vars)(k \<mapsto> (x, s))"
    using wf_set [OF assms(1) _ assms(2)] held_set(1) [OF assms(1)] by blast
  have get: "VarKeyValidate k = None \<longrightarrow> map_sum id (\<lambda>v. (va_Value v, va_Secret v)) (VarGet vars k) =
       (case held vars k of None \<Rightarrow> Inl VarNotFound | Some p \<Rightarrow> Inr p)"
    by (simp add: VarGet_held held_def split: option.splits)
  show ?thesis using set del get by blast
qed

theorem variables_refine_map_witness:
  "held (demo_vars @ [new_variable ''v9'' \<lparr>vk_Scope = ScopeSystem, vk_WorkspaceID = [], vk_ProjectID = [], vk_UserID = [], vk_Name = ''size''\<rparr> ''9'' False 4])
     = (held demo_vars)(\<lparr>vk_Scope = ScopeSystem, vk_WorkspaceID = [], vk_ProjectID = [], vk_UserID = [], vk_Name = ''size''\<rparr> \<mapsto> (''9'', False))"
proof -
  let ?k = "\<lparr>vk_Scope = ScopeSystem, vk_WorkspaceID = [], vk_ProjectID = [], vk_UserID = [], vk_Name = ''size''\<rparr>"
  have "''v9'' \<notin> va_ID ` set demo_vars" by code_simp
  moreover have "VarSet ''v9'' ?k ''9'' False 4 demo_vars = Inr (new_variable ''v9'' ?k ''9'' False 4, demo_vars @ [new_variable ''v9'' ?k ''9'' False 4])"
    by code_simp
  ultimately show ?thesis using variables_refine_map [OF demo_vars_wf] by blast
qed

definition system_key :: "string \<Rightarrow> VarKey" where
  "system_key n = \<lparr>vk_Scope = ScopeSystem, vk_WorkspaceID = [], vk_ProjectID = [], vk_UserID = [], vk_Name = n\<rparr>"

text \<open>
  Secrets are protected against reading, not against writing. Any authenticated caller, with no
  role at all, deletes a system secret through \<open>variable_delete\<close>, which never asks whether the row is
  secret; and replaces one whose name is not reserved by a plain value through \<open>variable_set\<close>, which
  asks for an administrator only when the request itself says secret.
\<close>

theorem secret_writes_unguarded:
  assumes "wf_vars vars" and "held vars (system_key n) = Some (x, True)" and "cx_User ctx = Some u" and "TrimSpace n \<noteq> []"
    and "i \<notin> va_ID ` set vars"
  shows "(\<exists>vars'. invokeVariableDelete tn ctx (demo_var_req n ''system'' []) vars = Inr vars' \<and> held vars' (system_key n) = None) \<and>
    (n \<notin> reservedSecretNames \<and> sys n = None \<longrightarrow>
       (\<exists>v vars'. invokeVariableSet sys tn ctx (demo_var_req n ''system'' []) y False i now vars = Inr (v, vars') \<and>
          held vars' (system_key n) = Some (y, False)))"
proof -
  have sc: "parseVariableScope ''system'' = Inr ScopeSystem" by code_simp
  have k: "write_key ctx (demo_var_req n ''system'' []) = Inr (system_key n)"
    using assms(4) by (simp add: write_key_def demo_var_req_def sc system_key_def Let_def)
  have auth: "authorizeVariableWrite tn ctx (system_key n) = None"
    using assms(3) by (simp add: authorizeVariableWrite_def system_key_def)
  have "n \<noteq> []" using assms(4) by auto
  then have val: "VarKeyValidate (system_key n) = None" by (simp add: VarKeyValidate_def system_key_def)
  obtain r where r: "row_at var_key (system_key n) vars = Some r" using assms(2) by (auto simp: held_def)
  have "filter (\<lambda>v. var_key v = system_key n) vars \<noteq> []" using row_at_Some [OF r] by (auto simp: filter_empty_conv)
  then obtain vars' where del: "VarDelete (system_key n) vars = Inr vars'"
    using val by (simp add: VarDelete_def delete_rows_def)
  obtain v vars2 where set: "VarSet i (system_key n) y False now vars = Inr (v, vars2)"
    using r val by (simp add: VarSet_def VarGet_held)
  show ?thesis
    using held_delete [OF del] held_set [OF assms(1) set] k auth del set
    by (auto simp: invokeVariableDelete_def invokeVariableSet_def set_refused_def system_key_def)
qed

theorem secret_writes_unguarded_witness:
  "\<exists>vars'. invokeVariableDelete (demo_tenancy []) (demo_user_ctx ''eve'' []) (demo_var_req ''key'' ''system'' []) demo_vars = Inr vars' \<and>
     held vars' (system_key ''key'') = None"
proof -
  have h: "held demo_vars (system_key ''key'') = Some (''s3cret'', True)" by code_simp
  have u: "cx_User (demo_user_ctx ''eve'' []) = Some \<lparr>us_ID = ''eve'', us_Role = []\<rparr>" by code_simp
  have n: "TrimSpace ''key'' \<noteq> []" by code_simp
  have i: "''v9'' \<notin> va_ID ` set demo_vars" by code_simp
  show ?thesis using secret_writes_unguarded [OF demo_vars_wf h u n i] by blast
qed

end
