(* ===== verification/DocGuards.thy ===== *)
theory DocGuards
  imports DocReads VariableProps
begin

text \<open>
  What the guards of the document verbs let through: the project gate trusts the workspace a request
  names, the cross-scope listing trusts the project it names, the effective listing forgets the
  audience, rendering forgets who may read a variable, and the story paths ask for no role.
\<close>

lemma latest_active_only: "latest_active = latest_only"
  by (simp add: latest_active_def latest_only_def)

section \<open>The claimed workspace\<close>

text \<open>A caller with a role of owner or administrator in a workspace of the caller's own.\<close>

definition owns_workspace :: "Tenancy \<Rightarrow> Ctx \<Rightarrow> string \<Rightarrow> bool" where
  "owns_workspace tn ctx w \<longleftrightarrow> tn_WorkspaceStore tn \<and> w \<noteq> [] \<and> cx_AgentRole ctx = None \<and>
     (case cx_User ctx of
        None \<Rightarrow> False
      | Some u \<Rightarrow> us_ID u \<noteq> [] \<and>
          (case wsGetRole (tn_Members tn) w (us_ID u) of None \<Rightarrow> False | Some r \<Rightarrow> admin_role r))"

lemma claimed_scope:
  assumes "owns_workspace tn ctx w" and "p \<noteq> []"
  shows "effectiveProjectRoleWS tn ctx w p = PjRoleAdmin"
proof -
  obtain u r where u: "cx_User ctx = Some u" "us_ID u \<noteq> []" "wsGetRole (tn_Members tn) w (us_ID u) = Some r" "admin_role r"
    using assms(1) by (auto simp: owns_workspace_def split: option.splits)
  have "workspace_grant tn (caller_id ctx) w p = Some r"
    using assms(1) u by (simp add: workspace_grant_def home_workspace_def Let_def caller_id_def owns_workspace_def)
  then show ?thesis using assms u(4) by (simp add: effectiveProjectRoleWS_def actualProjectRoleWS_def owns_workspace_def)
qed

lemma claimed_enforce: "owns_workspace tn ctx w \<Longrightarrow> p \<noteq> [] \<Longrightarrow> scope_check tn ctx w p need = None"
  by (auto simp: scope_check_def enforceProjectScope_def claimed_scope projectRoleRank_def)

definition project_key :: "string \<Rightarrow> string \<Rightarrow> string \<Rightarrow> Key" where
  "project_key w p n = \<lparr>ky_Scope = ScopeProject, ky_WorkspaceID = w, ky_ProjectID = p, ky_UserID = [], ky_Name = n\<rparr>"

lemma claimed_auth:
  assumes "owns_workspace tn ctx w" and "p \<noteq> []"
  shows "authorizeRead tn ctx (project_key w p n) = None" and "authorizeWrite tn ctx (project_key w p n) = None"
  using assms claimed_enforce [OF assms]
  by (auto simp: authorizeRead_def authorizeWrite_def project_key_def owns_workspace_def split: option.splits)

lemma project_key_lookup: "lookupDocument db (project_key w p n) = lookupDocument db (project_key w' p n)"
  by (simp add: lookupDocument_def resolveKey_def project_key_def)

lemma project_key_valid: "w \<noteq> [] \<Longrightarrow> p \<noteq> [] \<Longrightarrow> n \<noteq> [] \<Longrightarrow> KeyValidate (project_key w p n) = None"
  by (simp add: KeyValidate_def project_key_def)

lemma lookup_scope: "lookupDocument db k = Some d \<Longrightarrow> dc_Scope d = ky_Scope k"
  by (auto dest!: lookup_in simp: at_key_def)

definition get_request :: "string \<Rightarrow> string \<Rightarrow> string \<Rightarrow> string \<Rightarrow> bool \<Rightarrow> GetRequest" where
  "get_request scope w p n inherit = \<lparr>gq_ID = [], gq_Name = n, gq_Scope = scope, gq_WorkspaceID = w, gq_ProjectID = p,
     gq_Version = [], gq_Inherit = inherit\<rparr>"

definition delete_request :: "string \<Rightarrow> string \<Rightarrow> string \<Rightarrow> string \<Rightarrow> DeleteRequest" where
  "delete_request scope w p n = \<lparr>xq_ID = [], xq_Name = n, xq_Scope = scope, xq_WorkspaceID = w, xq_ProjectID = p\<rparr>"

lemma parse_known: "parseScope ''project'' = Inr ScopeProject" "parseScope ''system'' = Inr ScopeSystem"
    "parseScope ''user'' = Inr ScopeUser" "parseVersionSelector [] = Inr latest_active"
  by code_simp+

lemma TrimSpace_nil [simp]: "TrimSpace [] = []"
  by code_simp

lemma marshal_single:
  "\<exists>r c. marshalDocumentGet sys store cache (d, [v]) k latest_active req = (r, c) \<and> rg_Document r = d \<and> rg_RawBody r = vn_Body v"
  by (auto simp: marshalDocumentGet_def Let_def latest_active_def split: prod.splits)

text \<open>
  C34: Owning any workspace opens every project. The project gate takes the workspace a request
  names as the project's workspace, and the store drops it from a project key. So a caller who owns or
  administers some workspace (a personal one, which every user has) reads the latest body of any document
  of any project by naming that workspace beside the project, and deletes it, with no
  membership in the project or its home; nothing relates the workspace to the project.
\<close>

theorem claimed_workspace_opens_projects:
  assumes "owns_workspace tn (vx_Ctx vx) w" and "p \<noteq> []" and "TrimSpace n \<noteq> []"
    and "lookupDocument db (project_key home p n) = Some d" and "latestVersionInTx db (dc_ID d) = Some v"
    and "vn_Status v \<noteq> StatusDeleted" and "\<not> mcpReadForbiddenDoc (vx_MCP vx) (dc_Type d) (dc_Tags d)"
  shows "(\<exists>r c. invokeDocumentGet sys store tn vx (get_request ''project'' w p n False) db cache = (Inr r, c) \<and>
      rg_Document r = d \<and> rg_RawBody r = vn_Body v) \<and>
    (\<exists>d' db'. invokeDocumentDelete tn vx (delete_request ''project'' w p n) now db = Inr (d', db') \<and>
      dc_ID d' = dc_ID d \<and> dc_Status d' = StatusDeleted)"
proof -
  have w: "w \<noteq> []" using assms(1) by (simp add: owns_workspace_def)
  have n: "n \<noteq> []" using assms(3) by auto
  note valid = project_key_valid [OF w assms(2) n]
  have found: "lookupDocument db (project_key w p n) = Some d" using assms(4) project_key_lookup [of db w p n home] by simp
  have got: "DocGet db (project_key w p n) latest_active = Inr (d, [v])"
    using DocGet_latest [OF valid found assms(5)] assms(6) by (simp add: latest_active_only)
  have chain: "buildResolutionChain n ScopeProject w p us False = [project_key w p n]" for us
    by (simp add: buildResolutionChain_def Let_def project_key_def)
  have aud: "authorizeLibraryAudience tn (vx_Ctx vx) d = None"
    using lookup_scope [OF found] by (simp add: authorizeLibraryAudience_def project_key_def scope_defs)
  have "cascade_loop tn vx latest_active db [project_key w p n] = Inr (project_key w p n, d, [v])"
    using claimed_auth(1) [OF assms(1,2)] got aud assms(7) by simp
  then have read: "\<exists>r c. invokeDocumentGet sys store tn vx (get_request ''project'' w p n False) db cache = (Inr r, c) \<and>
      rg_Document r = d \<and> rg_RawBody r = vn_Body v"
    using marshal_single [of sys store cache d v "project_key w p n" "get_request ''project'' w p n False"] assms(3)
    by (auto simp: invokeDocumentGet_def get_request_def parse_known chain)
  have key: "\<lparr>ky_Scope = ScopeProject, ky_WorkspaceID = w, ky_ProjectID = p, ky_UserID = [], ky_Name = n\<rparr> = project_key w p n"
    by (simp add: project_key_def)
  have mcp: "\<not> (vx_MCP vx \<and> mcpReadForbiddenDoc True (dc_Type d) (dc_Tags d))" using assms(7) by (cases "vx_MCP vx") auto
  have sc: "ky_Scope (project_key w p n) = ScopeProject" by (simp add: project_key_def)
  have "invokeDocumentDelete tn vx (delete_request ''project'' w p n) now db =
      map_sum VStore (\<lambda>(d, v, db'). (d, db')) (DocDelete (project_key w p n) (callerUserID (vx_Ctx vx)) False now db)"
    using claimed_auth(2) [OF assms(1,2)] assms(3) got mcp
    by (cases "vx_MCP vx") (simp_all add: invokeDocumentDelete_def delete_request_def parse_known Let_def key)
  also have "\<dots> = Inr (moved_on d now StatusDeleted d, versioned db d [] (callerUserID (vx_Ctx vx)) now StatusDeleted)"
    using valid found by (simp add: DocDelete_def sc tombstone_eq)
  finally show ?thesis using read by simp
qed

definition demo_owner :: "WsMember list" where
  "demo_owner = [\<lparr>wm_WorkspaceID = ''w-eve'', wm_UserID = ''eve'', wm_Role = ''owner'', wm_AddedAt = 0, wm_AddedBy = []\<rparr>]"

definition demo_doc :: "string \<Rightarrow> string \<Rightarrow> string \<Rightarrow> string \<Rightarrow> string \<Rightarrow> string \<Rightarrow> Document" where
  "demo_doc i t sc p us n = (new_document i \<lparr>ky_Scope = sc, ky_WorkspaceID = [], ky_ProjectID = p, ky_UserID = us, ky_Name = n\<rparr> t 0)
     \<lparr>dc_LatestVersion := 1\<rparr>"

definition demo_version :: "string \<Rightarrow> string \<Rightarrow> Version" where
  "demo_version i body = \<lparr>vn_DocumentID = i, vn_Version = 1, vn_Body = body, vn_Status = Documents.StatusActive, vn_CreatedAt = 0, vn_CreatedBy = []\<rparr>"

definition guard_db :: docdb where
  "guard_db = \<lparr>dd_Documents = [demo_doc ''d1'' TypeDocument ScopeProject ''p1'' [] ''plan'',
       (demo_doc ''s1'' TypeStory ScopeProject ''p1'' [] ''fix it'')\<lparr>dc_Status := ''ready''\<rparr>,
       (demo_doc ''l1'' TypeTask ScopeLibrary ''p1'' [] ''deploy'')\<lparr>dc_Audience := ''team''\<rparr>,
       demo_doc ''u1'' TypeDocument ScopeUser [] ''eve'' ''probe''],
     dd_Versions = [demo_version ''d1'' ''private'', demo_version ''s1'' ''broken'', demo_version ''l1'' ''ship'',
       demo_version ''u1'' ''{{tone}}'']\<rparr>"

definition eve :: VerbCtx where
  "eve = \<lparr>vx_Ctx = demo_user_ctx ''eve'' [], vx_MCP = False\<rparr>"

lemma eve_owns: "owns_workspace (demo_tenancy demo_owner) (vx_Ctx eve) ''w-eve''"
  by code_simp

theorem claimed_workspace_opens_projects_witness:
  "\<exists>d' db'. invokeDocumentDelete (demo_tenancy demo_owner) eve (delete_request ''project'' ''w-eve'' ''p1'' ''plan'') 7 guard_db = Inr (d', db') \<and>
     dc_ID d' = ''d1'' \<and> dc_Status d' = StatusDeleted"
proof -
  let ?d = "demo_doc ''d1'' TypeDocument ScopeProject ''p1'' [] ''plan''"
  have 1: "lookupDocument guard_db (project_key ''w1'' ''p1'' ''plan'') = Some ?d" by code_simp
  have 2: "latestVersionInTx guard_db (dc_ID ?d) = Some (demo_version ''d1'' ''private'')" by code_simp
  have 3: "vn_Status (demo_version ''d1'' ''private'') \<noteq> StatusDeleted" by code_simp
  have 4: "\<not> mcpReadForbiddenDoc (vx_MCP eve) (dc_Type ?d) (dc_Tags ?d)" by code_simp
  have 5: "TrimSpace ''plan'' \<noteq> []" by code_simp
  have 6: "''p1'' \<noteq> []" "dc_ID ?d = ''d1''" by code_simp+
  show ?thesis using claimed_workspace_opens_projects [OF eve_owns 6(1) 5 1 2 3 4] 6(2) by metis
qed

section \<open>The listings\<close>

lemma set_newest_first [simp]: "set (newest_first ds) = set ds"
  by (simp add: newest_first_def)

lemma length_newest_first [simp]: "length (newest_first ds) = length ds"
  by (simp add: newest_first_def)

lemma DocList_small:
  assumes "length (dd_Documents db) \<le> list_limit 50 200 lim"
  shows "DocList db f lim NoCursor = Inr (newest_first (filter (doc_matches f) (dd_Documents db)), NoCursor)"
proof -
  have "length (filter (doc_matches f) (dd_Documents db)) \<le> list_limit 50 200 lim"
    using assms length_filter_le [of "doc_matches f" "dd_Documents db"] by linarith
  then show ?thesis by (simp add: DocList_def Let_def)
qed

definition list_request :: "string \<Rightarrow> string \<Rightarrow> string \<Rightarrow> bool \<Rightarrow> ListRequest" where
  "list_request scope w p effective = \<lparr>lr_Type = [], lr_Scope = scope, lr_WorkspaceID = w, lr_ProjectID = p, lr_Tags = [],
     lr_Status = [], lr_NamePrefix = [], lr_NameContains = [], lr_Limit = 0, lr_Cursor = NoCursor, lr_Effective = effective\<rparr>"

lemma list_limit_zero: "list_limit 50 200 0 = 50" "list_limit 50 200 200 = 200"
  by (simp_all add: list_limit_def)

lemma list_names: "TrimSpace ''all'' = ''all''" "TrimSpace ''library'' = ''library''"
  by code_simp+

lemma no_skill_list: "\<not> mcpForbidsSkillList mcp []"
  by (simp add: mcpForbidsSkillList_def EqualFold_def TypeSkill_def ToLower_def)

lemma in_filterMCPReadable: "d \<in> set (filterMCPReadable mcp ds) \<longleftrightarrow> d \<in> set ds \<and> \<not> mcpReadForbiddenDoc mcp (dc_Type d) (dc_Tags d)"
  by (auto simp: filterMCPReadable_def mcpReadForbiddenDoc_def)

text \<open>
  Two listings cross tenants. (1) A listing with scope all is authorised by membership in the
  workspace it names only: any member of any workspace, in any role, lists the live documents and
  stories of every project by naming the project beside it. (2) An effective listing of the library leaves out
  the audience filter: any caller with an identity lists the entries restricted to an
  audience, which the plain listing of the same request never shows. Stated for tables of at most one page.
\<close>

theorem listings_cross_tenants:
  assumes "length (dd_Documents db) \<le> 50" and "d \<in> set (dd_Documents db)" and "dc_Status d \<noteq> StatusDeleted"
    and "\<not> mcpReadForbiddenDoc (vx_MCP vx) (dc_Type d) (dc_Tags d)"
  shows "(dc_Scope d = ScopeProject \<and> dc_ProjectID d = p \<and> TrimSpace p \<noteq> [] \<and> TrimSpace w \<noteq> [] \<and> cx_User (vx_Ctx vx) = Some u \<and>
        wsGetRole (tn_Members tn) w (us_ID u) = Some role \<longrightarrow>
      (\<exists>items c. invokeDocumentList tn vx (list_request ''all'' w p False) db = Inr (items, c) \<and> d \<in> set items)) \<and>
    (dc_Scope d = ScopeLibrary \<and> dc_Audience d \<noteq> ''all'' \<and> callerUserID (vx_Ctx vx) \<noteq> [] \<and>
        list_all (\<lambda>e. dc_UserID e \<noteq> callerUserID (vx_Ctx vx)) (dd_Documents db) \<longrightarrow>
      (\<exists>items c. invokeDocumentList tn vx (list_request ''library'' [] [] True) db = Inr (items, c) \<and> d \<in> set items) \<and>
      (\<forall>items c. invokeDocumentList tn vx (list_request ''library'' [] [] False) db = Inr (items, c) \<longrightarrow> d \<notin> set items))"
proof (intro conjI impI)
  note small = DocList_small [of db]
  have open_live: "doc_matches f d \<longleftrightarrow> addScopePredicate f d \<and> (df_UserID f \<noteq> [] \<longrightarrow> dc_UserID d = df_UserID f) \<and>
      (df_Audience f \<noteq> [] \<longrightarrow> dc_Audience d = df_Audience f)"
    if "df_Type f = []" "df_Tags f = []" "df_Status f = []" "df_NamePrefix f = []" "df_NameContains f = []" for f
    using that assms(3) by (auto simp: doc_matches_def status_matches_def)
  show "\<exists>items c. invokeDocumentList tn vx (list_request ''all'' w p False) db = Inr (items, c) \<and> d \<in> set items"
    if a: "dc_Scope d = ScopeProject \<and> dc_ProjectID d = p \<and> TrimSpace p \<noteq> [] \<and> TrimSpace w \<noteq> [] \<and> cx_User (vx_Ctx vx) = Some u \<and>
        wsGetRole (tn_Members tn) w (us_ID u) = Some role"
  proof -
    have "w \<noteq> []" "p \<noteq> []" using a by auto
    then have auth: "authorizeListScope tn (vx_Ctx vx) ''all'' w p = None" "requireScopeKey ''all'' w p = None"
      using a list_names by (auto simp: authorizeListScope_def member_of_def scope_defs requireScopeKey_def)
    have m: "doc_matches (list_filter (list_request ''all'' w p False)) d"
      using a \<open>p \<noteq> []\<close> by (subst open_live) (auto simp: list_filter_def list_request_def addScopePredicate_def libraryAudienceFilter_def scope_defs)
    show ?thesis using auth m assms small [of 0 "list_filter (list_request ''all'' w p False)"]
      by (simp add: invokeDocumentList_def list_request_def no_skill_list list_limit_zero in_filterMCPReadable
          dropForeignLibraryTasks_def TypeTask_def)
  qed
  assume b: "dc_Scope d = ScopeLibrary \<and> dc_Audience d \<noteq> ''all'' \<and> callerUserID (vx_Ctx vx) \<noteq> [] \<and>
        list_all (\<lambda>e. dc_UserID e \<noteq> callerUserID (vx_Ctx vx)) (dd_Documents db)"
  have auth: "authorizeListScope tn (vx_Ctx vx) ''library'' [] [] = None" "requireScopeKey ''library'' [] [] = None"
    using b list_names by (auto simp: authorizeListScope_def callerUserID_def scope_defs requireScopeKey_def split: option.splits)
  let ?f = "(list_filter (list_request ''library'' [] [] True))\<lparr>df_Audience := []\<rparr>"
  let ?own = "?f\<lparr>df_Scope := ScopeUser, df_WorkspaceID := [], df_ProjectID := [], df_UserID := callerUserID (vx_Ctx vx)\<rparr>"
  show "\<exists>items c. invokeDocumentList tn vx (list_request ''library'' [] [] True) db = Inr (items, c) \<and> d \<in> set items"
  proof -
    have m: "doc_matches ?f d"
      using b by (subst open_live) (auto simp: list_filter_def list_request_def addScopePredicate_def scope_defs)
    have "filter (doc_matches ?own) (dd_Documents db) = []"
      using b by (auto simp: filter_empty_conv doc_matches_def list_all_iff)
    then have none: "DocList db ?own 200 NoCursor = Inr ([], NoCursor)"
      using assms(1) small [of 200 ?own] by (simp add: list_limit_zero newest_first_def)
    have base: "DocList db ?f 200 NoCursor = Inr (newest_first (filter (doc_matches ?f) (dd_Documents db)), NoCursor)"
      using assms(1) small [of 200 ?f] by (simp add: list_limit_zero)
    have "effectiveList vx (list_request ''library'' [] [] True) (callerUserID (vx_Ctx vx)) db =
        Inr (filterMCPReadable (vx_MCP vx) (newest_first (filter (doc_matches ?f) (dd_Documents db))), NoCursor)"
      unfolding effectiveList_def Let_def none base by simp
    then show ?thesis using auth m assms b
      by (simp add: invokeDocumentList_def list_request_def no_skill_list in_filterMCPReadable)
  qed
  show "\<forall>items c. invokeDocumentList tn vx (list_request ''library'' [] [] False) db = Inr (items, c) \<longrightarrow> d \<notin> set items"
  proof -
    have "\<not> doc_matches (list_filter (list_request ''library'' [] [] False)) d"
      using b by (subst open_live) (auto simp: list_filter_def list_request_def libraryAudienceFilter_def scope_defs)
    then show ?thesis using auth assms(1) small [of 0 "list_filter (list_request ''library'' [] [] False)"]
      by (simp add: invokeDocumentList_def list_request_def no_skill_list in_filterMCPReadable list_limit_zero
          dropForeignLibraryTasks_def TypeTask_def)
  qed
qed

theorem listings_cross_tenants_witness:
  "(\<exists>items c. invokeDocumentList (demo_tenancy demo_owner) eve (list_request ''all'' ''w-eve'' ''p1'' False) guard_db = Inr (items, c) \<and>
      demo_doc ''d1'' TypeDocument ScopeProject ''p1'' [] ''plan'' \<in> set items)"
proof -
  let ?d = "demo_doc ''d1'' TypeDocument ScopeProject ''p1'' [] ''plan''"
  have 1: "length (dd_Documents guard_db) \<le> 50" by code_simp
  have 2: "?d \<in> set (dd_Documents guard_db)" by (simp add: guard_db_def)
  have 3: "dc_Status ?d \<noteq> StatusDeleted" by code_simp
  have 4: "\<not> mcpReadForbiddenDoc (vx_MCP eve) (dc_Type ?d) (dc_Tags ?d)" by code_simp
  have 5: "dc_Scope ?d = ScopeProject \<and> dc_ProjectID ?d = ''p1'' \<and> TrimSpace ''p1'' \<noteq> [] \<and> TrimSpace ''w-eve'' \<noteq> [] \<and>
      cx_User (vx_Ctx eve) = Some \<lparr>us_ID = ''eve'', us_Role = []\<rparr> \<and>
      wsGetRole (tn_Members (demo_tenancy demo_owner)) ''w-eve'' (us_ID \<lparr>us_ID = ''eve'', us_Role = []\<rparr>) = Some ''owner''" by code_simp
  show ?thesis using listings_cross_tenants [OF 1 2 3 4] 5 by blast
qed

section \<open>Stories\<close>

lemma story_not_reviewed: "dq_Type req = TypeStory \<or> dq_Type req = TypeTask \<Longrightarrow> \<not> reviewRequiredKind env req"
proof -
  have "TrimSpace (ToLower TypeStory) = TypeStory" "TrimSpace (ToLower TypeTask) = TypeTask" "TypeStory \<noteq> TypeSkill" "TypeTask \<noteq> TypeSkill"
    by code_simp+
  then show "dq_Type req = TypeStory \<or> dq_Type req = TypeTask \<Longrightarrow> \<not> reviewRequiredKind env req"
    by (auto simp: reviewRequiredKind_def)
qed

lemma create_workspace_given: "dq_WorkspaceID req \<noteq> [] \<Longrightarrow> create_workspace tn req = create_workspace tn' req"
  by (simp add: create_workspace_def)

lemma HardDelete_gone: "HardDelete i db = Inr db' \<Longrightarrow> GetByID db' i = None \<and> versions_of db' i = []"
  by (auto simp: HardDelete_def delete_rows_def GetByID_def row_at_None versions_of_def filter_empty_conv Let_def split: if_splits)

text \<open>
  The story paths consult no membership. What a patch by id, a create of a story or task in a named workspace
  and a delete of a story do is the same under any two tenancies, so no role in any
  workspace or project is needed; and the delete by id succeeds for every caller, with or without an
  identity, and removes the row with its whole history.
\<close>

theorem story_writes_ask_no_role:
  "(TrimSpace (dq_ID req) \<noteq> [] \<longrightarrow> invokeDocumentUpsert env tn vx req now sv = invokeDocumentUpsert env tn' vx req now sv) \<and>
   (dq_Type req = TypeStory \<or> routesToCreateTask req \<longrightarrow> dq_WorkspaceID req \<noteq> [] \<longrightarrow>
      invokeDocumentUpsert env tn vx req now sv = invokeDocumentUpsert env tn' vx req now sv) \<and>
   (TrimSpace i \<noteq> [] \<and> GetByID db i = Some d \<and> dc_Type d = TypeStory \<and> \<not> mcpReadForbiddenDoc (vx_MCP vx) TypeStory (dc_Tags d) \<longrightarrow>
      (\<exists>db'. invokeDocumentDelete tn vx \<lparr>xq_ID = i, xq_Name = n, xq_Scope = sc, xq_WorkspaceID = w, xq_ProjectID = p\<rparr> now db = Inr (d, db') \<and>
         GetByID db' i = None \<and> versions_of db' i = []))"
proof (intro conjI impI)
  show "invokeDocumentUpsert env tn vx req now sv = invokeDocumentUpsert env tn' vx req now sv" if "TrimSpace (dq_ID req) \<noteq> []"
    using that by (auto simp: invokeDocumentUpsert_def)
  show "invokeDocumentUpsert env tn vx req now sv = invokeDocumentUpsert env tn' vx req now sv"
    if "dq_Type req = TypeStory \<or> routesToCreateTask req" "dq_WorkspaceID req \<noteq> []"
  proof -
    have "\<not> reviewRequiredKind env req" using that(1) story_not_reviewed by (auto simp: routesToCreateTask_def)
    moreover have "createStory env tn vx req now sv = createStory env tn' vx req now sv"
      "createTask env tn vx req now sv = createTask env tn' vx req now sv"
      using create_workspace_given [OF that(2), of tn tn'] by (simp_all add: createStory_def createTask_def)
    ultimately show ?thesis using that(1) by (auto simp: invokeDocumentUpsert_def)
  qed
next
  assume a: "TrimSpace i \<noteq> [] \<and> GetByID db i = Some d \<and> dc_Type d = TypeStory \<and> \<not> mcpReadForbiddenDoc (vx_MCP vx) TypeStory (dc_Tags d)"
  then have "d \<in> set (dd_Documents db)" "dc_ID d = i" using GetByID_in by blast+
  then have "filter (\<lambda>d. dc_ID d = i) (dd_Documents db) \<noteq> []" by (auto simp: filter_empty_conv)
  then obtain db' where "HardDelete i db = Inr db'" by (simp add: HardDelete_def delete_rows_def)
  then show "\<exists>db'. invokeDocumentDelete tn vx \<lparr>xq_ID = i, xq_Name = n, xq_Scope = sc, xq_WorkspaceID = w, xq_ProjectID = p\<rparr> now db = Inr (d, db') \<and>
         GetByID db' i = None \<and> versions_of db' i = []"
    using a HardDelete_gone by (auto simp: invokeDocumentDelete_def delete_by_id_def GetByIDWithLatestBody_def)
qed

definition anonymous :: VerbCtx where
  "anonymous = \<lparr>vx_Ctx = \<lparr>cx_User = None, cx_APIKeyProject = [], cx_APIKeyRole = [], cx_AgentRole = None\<rparr>, vx_MCP = True\<rparr>"

theorem story_writes_ask_no_role_witness:
  "\<exists>db'. invokeDocumentDelete (demo_tenancy []) anonymous \<lparr>xq_ID = ''s1'', xq_Name = [], xq_Scope = [], xq_WorkspaceID = [], xq_ProjectID = []\<rparr> 9 guard_db
     = Inr ((demo_doc ''s1'' TypeStory ScopeProject ''p1'' [] ''fix it'')\<lparr>dc_Status := ''ready''\<rparr>, db') \<and> GetByID db' ''s1'' = None"
proof -
  let ?d = "(demo_doc ''s1'' TypeStory ScopeProject ''p1'' [] ''fix it'')\<lparr>dc_Status := ''ready''\<rparr>"
  have "TrimSpace ''s1'' \<noteq> [] \<and> GetByID guard_db ''s1'' = Some ?d \<and> dc_Type ?d = TypeStory \<and>
      \<not> mcpReadForbiddenDoc (vx_MCP anonymous) TypeStory (dc_Tags ?d)" by code_simp
  then show ?thesis using story_writes_ask_no_role [where i = "''s1''" and db = guard_db and d = ?d and vx = anonymous] by blast
qed

section \<open>Rendering\<close>

text \<open>
  Rendering tells any caller any workspace variable, secrets included. The resolver behind
  \<open>document_get\<close> reads the workspace and project a request names and checks neither membership
  nor the secret mark. A caller with a one-placeholder document in the caller's own overlay, who reads it
  at scope system with inheritance and names a foreign workspace, gets the stored value as the rendered
  body, although \<open>variable_get\<close> refuses the same caller at that workspace.
\<close>

theorem rendering_reveals_variables:
  assumes "cx_User (vx_Ctx vx) = Some u" and "us_ID u \<noteq> []" and "TrimSpace n \<noteq> []"
    and "lookupDocument db \<lparr>ky_Scope = ScopeUser, ky_WorkspaceID = [], ky_ProjectID = [], ky_UserID = us_ID u, ky_Name = n\<rparr> = Some d"
    and "latestVersionInTx db (dc_ID d) = Some v" and "vn_Status v \<noteq> StatusDeleted"
    and "\<not> mcpReadForbiddenDoc (vx_MCP vx) (dc_Type d) (dc_Tags d)"
    and "ParseTemplate (vn_Body v) = [Hole x]" and "cache (cacheKey (dc_ID d) (vn_Version v)) = None"
    and "sys x = None" and "w \<noteq> []" and "TrimSpace x \<noteq> []"
    and "row_at var_key \<lparr>vk_Scope = ScopeWorkspace, vk_WorkspaceID = w, vk_ProjectID = [], vk_UserID = [], vk_Name = x\<rparr> vars = Some s"
  shows "(\<exists>r c. invokeDocumentGet sys (Some vars) tn vx (get_request ''system'' w [] n True) db cache = (Inr r, c) \<and>
      rg_RenderedBody r = va_Value s) \<and>
    (tn_AuthStore tn \<and> tn_WorkspaceStore tn \<and> wsGetRole (tn_Members tn) w (us_ID u) = None \<longrightarrow>
      invokeVariableGet sys tn (vx_Ctx vx) (demo_var_req x ''workspace'' w) False False vars = Inl (WNotMember w))"
proof
  let ?k = "\<lparr>ky_Scope = ScopeUser, ky_WorkspaceID = [], ky_ProjectID = [], ky_UserID = us_ID u, ky_Name = n\<rparr>"
  let ?req = "get_request ''system'' w [] n True"
  have n: "n \<noteq> []" "x \<noteq> []" using assms(3,12) by auto
  have valid: "KeyValidate ?k = None" using n(1) assms(2) by (simp add: KeyValidate_def)
  have got: "DocGet db ?k latest_active = Inr (d, [v])"
    using DocGet_latest [OF valid assms(4,5)] assms(6) by (simp add: latest_active_only)
  have id: "callerUserID (vx_Ctx vx) = us_ID u" using assms(1) by (simp add: callerUserID_def)
  obtain ks where chain: "buildResolutionChain n ScopeSystem w [] (us_ID u) True = ?k # ks"
    using assms(2) by (simp add: buildResolutionChain_def Let_def scope_defs)
  have aud: "authorizeLibraryAudience tn (vx_Ctx vx) d = None"
    using lookup_scope [OF assms(4)] by (simp add: authorizeLibraryAudience_def scope_defs)
  have "authorizeRead tn (vx_Ctx vx) ?k = None" using assms(1) by (simp add: authorizeRead_def scope_defs)
  then have loop: "cascade_loop tn vx latest_active db (?k # ks) = Inr (?k, d, [v])" using got aud assms(7) by simp
  have "stored_value vars ScopeWorkspace w [] x = Some (va_Value s)"
    using assms(11,13) n(2) by (simp add: stored_value_def VarGet_def VarKeyValidate_def scope_defs)
  then have val: "newTemplateResolver sys (Some vars) ?k ?req x = Some (va_Value s)"
    using assms(10,11) by (simp add: newTemplateResolver_def get_request_def)
  have "CacheGet cache (dc_ID d) (vn_Version v) (vn_Body v) =
      ([Hole x], cache(cacheKey (dc_ID d) (vn_Version v) \<mapsto> [Hole x]))"
    using assms(8,9) by (simp add: CacheGet_def Let_def)
  then have "\<exists>r c. marshalDocumentGet sys (Some vars) cache (d, [v]) ?k latest_active ?req = (r, c) \<and> rg_RenderedBody r = va_Value s"
    using val by (simp add: marshalDocumentGet_def Let_def latest_active_def Render_def)
  then show "\<exists>r c. invokeDocumentGet sys (Some vars) tn vx ?req db cache = (Inr r, c) \<and> rg_RenderedBody r = va_Value s"
    using loop chain id assms(3) by (auto simp: invokeDocumentGet_def get_request_def parse_known)
next
  have sc: "parseVariableScope ''workspace'' = Inr ScopeWorkspace" by code_simp
  show "tn_AuthStore tn \<and> tn_WorkspaceStore tn \<and> wsGetRole (tn_Members tn) w (us_ID u) = None \<longrightarrow>
      invokeVariableGet sys tn (vx_Ctx vx) (demo_var_req x ''workspace'' w) False False vars = Inl (WNotMember w)"
    using assms(1,11,12) sc
    by (simp add: invokeVariableGet_def demo_var_req_def buildVariableResolutionChain_def Let_def authorizeVariableRead_def)
qed

theorem rendering_reveals_variables_witness:
  "\<exists>r c. invokeDocumentGet demo_sys (Some [demo_var ''v5'' ScopeWorkspace ''w1'' [] ''tone'' ''s3cret'' True]) (demo_tenancy demo_owner) eve
     (get_request ''system'' ''w1'' [] ''probe'' True) guard_db (\<lambda>k. None) = (Inr r, c) \<and> rg_RenderedBody r = ''s3cret''"
proof -
  let ?u = "\<lparr>us_ID = ''eve'', us_Role = []\<rparr>"
  let ?d = "demo_doc ''u1'' TypeDocument ScopeUser [] ''eve'' ''probe''"
  let ?v = "demo_version ''u1'' ''{{tone}}''"
  let ?s = "demo_var ''v5'' ScopeWorkspace ''w1'' [] ''tone'' ''s3cret'' True"
  have 1: "cx_User (vx_Ctx eve) = Some ?u" "us_ID ?u \<noteq> []" "TrimSpace ''probe'' \<noteq> []" by code_simp+
  have 2: "lookupDocument guard_db \<lparr>ky_Scope = ScopeUser, ky_WorkspaceID = [], ky_ProjectID = [], ky_UserID = us_ID ?u, ky_Name = ''probe''\<rparr> = Some ?d"
    by code_simp
  have 3: "latestVersionInTx guard_db (dc_ID ?d) = Some ?v" "vn_Status ?v \<noteq> StatusDeleted"
    "\<not> mcpReadForbiddenDoc (vx_MCP eve) (dc_Type ?d) (dc_Tags ?d)" by code_simp+
  have 4: "ParseTemplate (vn_Body ?v) = [Hole ''tone'']" by code_simp
  have 5: "demo_sys ''tone'' = None" "''w1'' \<noteq> []" "TrimSpace ''tone'' \<noteq> []" by code_simp+
  have 6: "row_at var_key \<lparr>vk_Scope = ScopeWorkspace, vk_WorkspaceID = ''w1'', vk_ProjectID = [], vk_UserID = [], vk_Name = ''tone''\<rparr> [?s] = Some ?s"
    by code_simp
  have "va_Value ?s = ''s3cret''" by (simp add: demo_var_def)
  then show ?thesis
    using rendering_reveals_variables [where vx = eve and u = ?u and n = "''probe''" and db = guard_db and d = ?d and v = ?v and
        x = "''tone''" and cache = "\<lambda>k. None" and sys = demo_sys and w = "''w1''" and vars = "[?s]" and s = ?s and
        tn = "demo_tenancy demo_owner", OF 1 2 3 4 refl 5 6] by simp
qed

section \<open>The review barrier\<close>

lemma request_key_id [simp]: "request_key scope (req\<lparr>dq_ID := x\<rparr>) = request_key scope req"
  by (simp add: request_key_def)

lemma upsert_key_id [simp]: "upsert_key tn ctx (req\<lparr>dq_ID := x\<rparr>) = upsert_key tn ctx req"
  by (simp add: upsert_key_def cong del: sum.case_cong_weak)

lemma isWorkflowUpsert_id [simp]: "isWorkflowUpsert env (req\<lparr>dq_ID := x\<rparr>) = isWorkflowUpsert env req"
  by (simp add: isWorkflowUpsert_def)

lemma upsert_by_key_id: "upsert_by_key env tn vx (req\<lparr>dq_ID := x\<rparr>) now sv = upsert_by_key env tn vx req now sv"
  by (simp add: upsert_by_key_def upsert_guard_def upsert_metadata_def cong del: sum.case_cong_weak option.case_cong_weak)

lemma behaviourBodyUnchanged_id: "behaviourBodyUnchanged tn ctx (req\<lparr>dq_ID := x\<rparr>) db = behaviourBodyUnchanged tn ctx req db"
  by (simp add: behaviourBodyUnchanged_def cong del: sum.case_cong_weak list.case_cong_weak)

text \<open>
  A blank id passes both barriers. The refusal of skills over MCP and the review attestation are asked for
  when the id is the empty string, while the patch by id starts where the trimmed id is not
  empty. So the same unreviewed skill that is refused with an empty id is written with the
  id of one space, as the upsert by key with no barrier before it.
\<close>

theorem blank_id_skips_barriers:
  assumes "dq_Type req = TypeSkill" and "\<not> workspaceSkillRefused (dq_Type req) (dq_Scope req)"
  shows "invokeDocumentUpsert env tn vx (req\<lparr>dq_ID := '' ''\<rparr>) now sv = upsert_by_key env tn vx req now sv \<and>
    (vx_MCP vx \<longrightarrow> invokeDocumentUpsert env tn vx (req\<lparr>dq_ID := []\<rparr>) now sv = (Inl (VNotWritableOverMCP TypeSkill), sv)) \<and>
    (\<not> vx_MCP vx \<and> dq_Review req = None \<and> \<not> behaviourBodyUnchanged tn (vx_Ctx vx) req (sv_Docs sv) \<longrightarrow>
       invokeDocumentUpsert env tn vx (req\<lparr>dq_ID := []\<rparr>) now sv = (Inl VReviewMissing, sv))"
proof -
  have t: "TrimSpace '' '' = []" "TypeSkill \<noteq> TypeStory" "TypeSkill \<noteq> TypeTask" "TrimSpace TypeSkill = TypeSkill"
    "TrimSpace (ToLower TypeSkill) = TypeSkill" "TypeSkill \<noteq> TypeDocument" by code_simp+
  show ?thesis using assms t
    by (simp add: invokeDocumentUpsert_def upsert_by_key_id behaviourBodyUnchanged_id routesToCreateTask_def mcpForbidsType_def reviewRequiredKind_def
        verifyReviewAttestation_def)
qed

definition demo_upsert :: "string \<Rightarrow> string \<Rightarrow> string \<Rightarrow> string \<Rightarrow> string \<Rightarrow> string \<Rightarrow> UpsertRequest" where
  "demo_upsert t n sc w p body = \<lparr>dq_ID = [], dq_Type = t, dq_Name = n, dq_Scope = sc, dq_WorkspaceID = w, dq_ProjectID = p,
     dq_Body = body, dq_Tags = None, dq_Status = None, dq_Priority = None, dq_Category = None, dq_ParentID = None,
     dq_AcceptanceCriteria = None, dq_Headline = None, dq_Review = None\<rparr>"

definition demo_env :: verb_env where
  "demo_env = \<lparr>ve_frontmatter = (\<lambda>s. None),
     ve_workflow = \<lparr>yaml_frontmatter = (\<lambda>s. None), yaml_workflow_fm = (\<lambda>s. None), yaml_machine = (\<lambda>s. None)\<rparr>, ve_sources = [], ve_sha = id,
     ve_docID = (\<lambda>sv. ''d9''), ve_rowID = (\<lambda>sv. ''r9'')\<rparr>"

definition demo_skill :: UpsertRequest where
  "demo_skill = demo_upsert TypeSkill ''deploy'' ''project'' ''w-eve'' ''p1'' ''rm -rf /''"

definition demo_server :: server where
  "demo_server = \<lparr>sv_Ledger = [], sv_Docs = guard_db\<rparr>"

theorem blank_id_skips_barriers_witness:
  "\<exists>d sv'. invokeDocumentUpsert demo_env (demo_tenancy demo_owner) \<lparr>vx_Ctx = vx_Ctx eve, vx_MCP = True\<rparr> (demo_skill\<lparr>dq_ID := '' ''\<rparr>) 9 demo_server
     = (Inr d, sv') \<and> dc_ID d = ''d9'' \<and> dc_Type d = TypeSkill"
proof -
  let ?vx = "\<lparr>vx_Ctx = vx_Ctx eve, vx_MCP = True\<rparr>"
  have 1: "dq_Type demo_skill = TypeSkill" "\<not> workspaceSkillRefused (dq_Type demo_skill) (dq_Scope demo_skill)" by code_simp+
  have "case upsert_by_key demo_env (demo_tenancy demo_owner) ?vx demo_skill 9 demo_server of
      (Inr d, sv') \<Rightarrow> dc_ID d = ''d9'' \<and> dc_Type d = TypeSkill | (Inl e, sv') \<Rightarrow> False" by code_simp
  then show ?thesis
    using blank_id_skips_barriers [OF 1, of demo_env "demo_tenancy demo_owner" ?vx 9 demo_server]
    by (auto split: prod.splits sum.splits)
qed

end
