(* ===== verification/DocWrites.thy ===== *)
theory DocWrites
  imports DocGuards DocSeeds
begin

text \<open>
  What the write verbs keep: the rows of system scope, the reviewed skills, and the way around the
  review of principles and workflows.
\<close>

section \<open>Rows that stay\<close>

definition keeps :: "(Document \<Rightarrow> bool) \<Rightarrow> docdb \<Rightarrow> docdb \<Rightarrow> bool" where
  "keeps P db db' \<longleftrightarrow> filter P (dd_Documents db') = filter P (dd_Documents db) \<and>
     (\<forall>d \<in> set (dd_Documents db). P d \<longrightarrow> versions_of db' (dc_ID d) = versions_of db (dc_ID d))"

definition off :: "(Document \<Rightarrow> bool) \<Rightarrow> docdb \<Rightarrow> string \<Rightarrow> bool" where
  "off P db i \<longleftrightarrow> (\<forall>d \<in> set (dd_Documents db). dc_ID d = i \<longrightarrow> \<not> P d)"

lemma keeps_refl [simp]: "keeps P db db"
  by (simp add: keeps_def)

lemma filter_eq_in: "filter P xs = filter P ys \<Longrightarrow> x \<in> set xs \<Longrightarrow> P x \<Longrightarrow> x \<in> set ys"
  by (metis (mono_tags, lifting) mem_Collect_eq set_filter)

lemma keeps_rows: "keeps P db db' \<Longrightarrow> d \<in> set (dd_Documents db') \<Longrightarrow> P d \<Longrightarrow> d \<in> set (dd_Documents db)"
  unfolding keeps_def by (elim conjE) (rule filter_eq_in)

lemma keeps_trans: "keeps P db db1 \<Longrightarrow> keeps P db1 db2 \<Longrightarrow> keeps P db db2"
proof -
  assume a: "keeps P db db1" and b: "keeps P db1 db2"
  have "d \<in> set (dd_Documents db1)" if "d \<in> set (dd_Documents db)" "P d" for d
    using a that unfolding keeps_def by (blast intro: filter_eq_in [OF sym])
  then show ?thesis using a b by (simp add: keeps_def)
qed

lemma keeps_update: "off P db i \<Longrightarrow> (\<And>d. P (f d) = P d) \<Longrightarrow> keeps P db (update_doc i f db)"
proof -
  assume o: "off P db i" and f: "\<And>d. P (f d) = P d"
  have "filter P (map (\<lambda>x. if dc_ID x = i then f x else x) ds) = filter P ds"
    if "\<And>d. d \<in> set ds \<Longrightarrow> dc_ID d = i \<Longrightarrow> \<not> P d" for ds
    using that by (induction ds) (auto simp: f)
  then show ?thesis using o by (simp add: keeps_def off_def update_doc_def update_rows_def versions_of_def)
qed

lemma keeps_version: "off P db (vn_DocumentID v) \<Longrightarrow> keeps P db (add_version v db)"
  by (auto simp: keeps_def off_def)

lemma keeps_insert: "insert_doc d db = Inr db' \<Longrightarrow> \<not> P d \<Longrightarrow> keeps P db db'"
  using insert_doc_views [of d db db'] by (simp add: keeps_def)

lemma off_at: "unique_key dc_ID (dd_Documents db) \<Longrightarrow> d \<in> set (dd_Documents db) \<Longrightarrow> \<not> P d \<Longrightarrow> off P db (dc_ID d)"
  unfolding off_def by (metis unique_key_same)

lemma off_id: "unique_key dc_ID (dd_Documents db) \<Longrightarrow> GetByID db i = Some d \<Longrightarrow> \<not> P d \<Longrightarrow> off P db i"
  using off_at [of db d P] GetByID_in [of db i d] by simp

lemma off_add [simp]: "off P (add_version v db) i = off P db i"
  by (simp add: off_def)

lemma keeps_versioned:
  assumes "off P db (dc_ID d)" and "\<And>x. P (moved_on d now status x) = P x"
  shows "keeps P db (versioned db d body by now status)"
  unfolding versioned_def
  by (rule keeps_trans [OF keeps_version keeps_update]) (use assms in simp_all)

lemma ids_unique: "docs_ok db \<Longrightarrow> unique_key dc_ID (dd_Documents db)"
  by (simp add: docs_ok_def ids_ok_def)

lemma keeps_UpdateStory:
  assumes "docs_ok db" and "UpdateStory i p now db = Inr (d', db')" and "\<And>x. P (patched p now x) = P x"
    and "\<And>d. d \<in> set (dd_Documents db) \<Longrightarrow> dc_Type d = TypeStory \<or> dc_Type d = TypeTask \<Longrightarrow> \<not> P d"
  shows "keeps P db db'"
proof -
  obtain d where d: "GetByID db i = Some d" "dc_Type d = TypeStory \<or> dc_Type d = TypeTask"
    using assms(2) by (auto simp: UpdateStory_def split: option.splits if_splits)
  have o: "off P db i" using off_id [OF ids_unique [OF assms(1)] d(1)] assms(4) d GetByID_in [OF d(1)] by blast
  let ?v = "\<lambda>b. \<lparr>vn_DocumentID = i, vn_Version = dc_LatestVersion d + 1, vn_Body = b, vn_Status = Documents.StatusActive,
    vn_CreatedAt = now, vn_CreatedBy = us_CreatedBy p\<rparr>"
  let ?db1 = "case us_Body p of None \<Rightarrow> db | Some b \<Rightarrow> add_version (?v b) db"
  have db': "db' = update_doc i (patched p now) ?db1"
    using assms(2) d by (auto simp: UpdateStory_def add_version_def Let_def split: option.splits if_splits)
  have k1: "keeps P db ?db1" using o by (auto split: option.splits intro!: keeps_version)
  have o1: "off P ?db1 i" using o by (auto split: option.splits)
  show ?thesis unfolding db' by (rule keeps_trans [OF k1 keeps_update [OF o1 assms(3)]])
qed

lemma keeps_created:
  assumes "docs_ok db" and "insert_created d body by now db = Inr (d', db')" and "\<not> P d"
  shows "keeps P db db'"
proof -
  let ?v = "\<lparr>vn_DocumentID = dc_ID d, vn_Version = 1, vn_Body = body, vn_Status = Documents.StatusActive, vn_CreatedAt = now, vn_CreatedBy = by\<rparr>"
  obtain db1 where i: "insert_doc d db = Inr db1" "db' = add_version ?v db1"
    using assms(2) by (auto simp: insert_created_def add_version_def split: sum.splits)
  have "off P db1 (dc_ID d)" using i(1) assms(3) by (auto simp: off_def insert_doc_Inr GetByID_def row_at_None)
  then show ?thesis using keeps_trans [OF keeps_insert [where P = P, OF i(1) assms(3)] keeps_version] i(2) by simp
qed

lemma keeps_tags: "SetDocumentTags i ts now db = Inr (d', db') \<Longrightarrow> off P db i \<Longrightarrow>
    (\<And>d. P (d\<lparr>dc_Tags := kvNormalize ts, dc_UpdatedAt := now\<rparr>) = P d) \<Longrightarrow> keeps P db db'"
  using SetDocumentTags_db [of i ts now db d' db'] keeps_update [of P db i "\<lambda>d. d\<lparr>dc_Tags := kvNormalize ts, dc_UpdatedAt := now\<rparr>"] by auto

lemma keeps_headline: "SetDocumentHeadline i h now db = Inr (d', db') \<Longrightarrow> off P db i \<Longrightarrow>
    (\<And>d. P (d\<lparr>dc_Headline := h, dc_UpdatedAt := now\<rparr>) = P d) \<Longrightarrow> keeps P db db'"
  using SetDocumentHeadline_db [of i h now db d' db'] keeps_update [of P db i "\<lambda>d. d\<lparr>dc_Headline := h, dc_UpdatedAt := now\<rparr>"] by auto

section \<open>The write verbs\<close>

text \<open>A property of rows that no patch, version, tag or headline changes.\<close>

definition stable :: "(Document \<Rightarrow> bool) \<Rightarrow> bool" where
  "stable P \<longleftrightarrow> (\<forall>d p now status ts h x. P (patched p now d) = P d \<and> P (moved_on x now status d) = P d \<and>
     P (d\<lparr>dc_Tags := ts, dc_UpdatedAt := now\<rparr>) = P d \<and> P (d\<lparr>dc_Headline := h, dc_UpdatedAt := now\<rparr>) = P d)"

definition in_system :: "Document \<Rightarrow> bool" where
  "in_system d \<longleftrightarrow> dc_Scope d = ScopeSystem"

definition is_skill :: "Document \<Rightarrow> bool" where
  "is_skill d \<longleftrightarrow> dc_Type d = TypeSkill"

lemma stable_in_system: "stable in_system"
  by (simp add: stable_def in_system_def patched_def moved_on_def)

lemma stable_is_skill: "stable is_skill"
  by (simp add: stable_def is_skill_def patched_def moved_on_def)

lemma hooks_docs [simp]: "sv_Docs (hook_append env ctx i kind p now sv) = sv_Docs sv"
  "sv_Docs (storyAfterCreate env ctx d body now sv) = sv_Docs sv"
  "sv_Docs (storyAfterUpdate env ctx b d body now sv) = sv_Docs sv"
  "sv_Docs (appendTaskLedger env ctx kind d now sv) = sv_Docs sv"
  by (auto simp: storyAfterCreate_def storyAfterUpdate_def appendTaskLedger_def hook_append_def Let_def split: sum.splits)

definition apart :: "(Document \<Rightarrow> bool) \<Rightarrow> docdb \<Rightarrow> bool" where
  "apart P db \<longleftrightarrow> (\<forall>d \<in> set (dd_Documents db). dc_Type d = TypeStory \<or> dc_Type d = TypeTask \<longrightarrow> \<not> P d)"

lemma apart_UpdateStory:
  assumes "docs_ok db" and "stable P" and "apart P db" and "UpdateStory i p now db = Inr (d', db')"
  shows "keeps P db db'"
  by (rule keeps_UpdateStory [OF assms(1,4)]) (use assms(2,3) in \<open>auto simp: stable_def apart_def\<close>)

lemma keeps_by_id:
  assumes "docs_ok (sv_Docs sv)" and "stable P" and "apart P (sv_Docs sv)"
  shows "keeps P (sv_Docs sv) (sv_Docs (snd (upsertByID env vx req now sv)))"
proof -
  note patch = apart_UpdateStory [OF assms]
  have task: "keeps P (sv_Docs sv) (sv_Docs (snd (upsertTaskByID env vx req now sv)))"
    using patch by (auto simp: upsertTaskByID_def split: sum.splits)
  show ?thesis using patch task
    by (auto simp: upsertByID_def split: sum.splits option.splits if_splits)
qed

lemma keeps_create:
  assumes "docs_ok (sv_Docs sv)" and "\<And>i t st cat ac c now. t \<noteq> TypeSkill \<Longrightarrow> \<not> P (created_row i t st cat ac c now)"
  shows "keeps P (sv_Docs sv) (sv_Docs (snd (createStory env tn vx req now sv)))"
    and "keeps P (sv_Docs sv) (sv_Docs (snd (createTask env tn vx req now sv)))"
proof -
  have types: "TypeStory \<noteq> TypeSkill" "TypeTask \<noteq> TypeSkill" by (simp_all add: type_defs)
  have s: "keeps P (sv_Docs sv) db'" if "CreateStory i c now (sv_Docs sv) = Inr (d, db')" for i c d db'
    using that keeps_created [OF assms(1)] assms(2) types by (auto simp: CreateStory_def split: option.splits)
  have t: "keeps P (sv_Docs sv) db'" if "CreateTask i c now (sv_Docs sv) = Inr (d, db')" for i c d db'
    using that keeps_created [OF assms(1)] assms(2) types by (auto simp: CreateTask_def split: option.splits)
  show "keeps P (sv_Docs sv) (sv_Docs (snd (createStory env tn vx req now sv)))"
    using s by (auto simp: createStory_def split: sum.splits option.splits)
  show "keeps P (sv_Docs sv) (sv_Docs (snd (createTask env tn vx req now sv)))"
    using t by (auto simp: createTask_def split: sum.splits)
qed

lemma off_keeps: "keeps P db db' \<Longrightarrow> off P db i \<Longrightarrow> off P db' i"
  unfolding off_def using keeps_rows by blast

lemma SetDocumentTags_id: "SetDocumentTags i ts now db = Inr (d, db') \<Longrightarrow> dc_ID d = i"
  by (auto simp: SetDocumentTags_def Let_def split: option.splits if_splits dest: GetByID_in)

lemma keeps_metadata:
  assumes "stable P" and "off P db (dc_ID d)"
  shows "keeps P db (snd (upsert_metadata d req now db))"
proof -
  have tags: "P (d\<lparr>dc_Tags := kvNormalize ts, dc_UpdatedAt := now\<rparr>) = P d" for ts d using assms(1) by (simp add: stable_def)
  have line: "P (d\<lparr>dc_Headline := h, dc_UpdatedAt := now\<rparr>) = P d" for h d using assms(1) by (simp add: stable_def)
  show ?thesis
  proof (cases "case stamped_tags d (dq_Tags req) of None \<Rightarrow> Inr (d, db) | Some ts \<Rightarrow> SetDocumentTags (dc_ID d) ts now db")
    case (Inr r)
    obtain d1 db1 where r: "r = (d1, db1)" by (cases r)
    have k: "keeps P db db1" and i: "dc_ID d1 = dc_ID d"
      using Inr r keeps_tags [where P = P, OF _ assms(2) tags] SetDocumentTags_id by (auto split: option.splits)
    show ?thesis
    proof (cases "dq_Headline req")
      case (Some h)
      show ?thesis
      proof (cases "SetDocumentHeadline (dc_ID d1) h now db1")
        case (Inr q)
        obtain d2 db2 where q: "q = (d2, db2)" by (cases q)
        have "keeps P db1 db2"
          by (rule keeps_headline [where P = P, OF Inr [unfolded q] _ line]) (use off_keeps [OF k assms(2)] i in simp)
        then show ?thesis using keeps_trans [OF k] Some Inr q \<open>_ = Inr r\<close> r by (simp add: upsert_metadata_def)
      qed (use k Some Inr r in \<open>simp add: upsert_metadata_def\<close>)
    qed (use k Inr r in \<open>simp add: upsert_metadata_def\<close>)
  qed (simp add: upsert_metadata_def)
qed

lemma keeps_by_key_off:
  assumes "docs_ok db" and "stable P" and "DocUpsert newID u now db = Inr (d', v, db')"
    and "\<And>d. d \<in> set (dd_Documents db) \<Longrightarrow> lookupDocument db (up_Key u) = Some d \<Longrightarrow> \<not> P d"
    and "\<And>i t now. \<not> P (new_document i (resolveKey (up_Key u)) (upsert_type u) now)"
  shows "keeps P db db' \<and> off P db' (dc_ID d')"
proof -
  have move: "P (moved_on x now status d) = P d" for x now status d using assms(2) by (simp add: stable_def)
  from assms(1,3) show ?thesis
  proof (cases rule: DocUpsert_cases)
    case (same d)
    have "off P db (dc_ID d)" using off_at [OF ids_unique [OF assms(1)]] lookup_in [OF same(1)] assms(4) same(1) by blast
    then show ?thesis using same by simp
  next
    case (old d)
    have o: "off P db (dc_ID d)" using off_at [OF ids_unique [OF assms(1)]] lookup_in [OF old(1)] assms(4) old(1) by blast
    have "keeps P db db'" unfolding old(5) by (rule keeps_versioned [OF o move])
    then show ?thesis using off_keeps [OF _ o] old(2) by simp
  next
    case (new d db1)
    have nP: "\<not> P d" using assms(5) new(2) by simp
    have k1: "keeps P db db1" by (rule keeps_insert [where P = P, OF new(3) nP])
    have o: "off P db1 (dc_ID d)" using new(3) nP by (auto simp: off_def insert_doc_Inr GetByID_def row_at_None)
    have k2: "keeps P db1 db'" unfolding new(6) by (rule keeps_versioned [OF o move])
    show ?thesis using keeps_trans [OF k1 k2] off_keeps [OF k2 o] new(4) by simp
  qed
qed

text \<open>An upsert by key keeps the rows that are neither at its key nor like a row it inserts.\<close>

lemma keeps_by_key:
  assumes "docs_ok (sv_Docs sv)" and "stable P"
    and "\<And>k u d v db'. upsert_guard env tn vx req k = None \<Longrightarrow> up_Key u = k \<Longrightarrow> up_Type u = dq_Type req \<Longrightarrow>
       up_SystemWriteAllowed u = systemChangelogWriteAllowed vx (ky_Scope k) (dq_Type req) \<Longrightarrow>
       DocUpsert (ve_docID env sv) u now (sv_Docs sv) = Inr (d, v, db') \<Longrightarrow>
       (\<forall>e. lookupDocument (sv_Docs sv) k = Some e \<longrightarrow> \<not> P e) \<and> (\<forall>i t now. \<not> P (new_document i (resolveKey k) (upsert_type u) now))"
  shows "keeps P (sv_Docs sv) (sv_Docs (snd (upsert_by_key env tn vx req now sv)))"
proof (cases "upsert_key tn (vx_Ctx vx) req")
  case (Inr k)
  show ?thesis
  proof (cases "upsert_guard env tn vx req k")
    case None
    let ?u = "\<lparr>up_Key = k, up_Type = dq_Type req, up_Body = dq_Body req, up_CreatedBy = callerUserID (vx_Ctx vx),
       up_SystemWriteAllowed = systemChangelogWriteAllowed vx (ky_Scope k) (dq_Type req)\<rparr>"
    show ?thesis
    proof (cases "DocUpsert (ve_docID env sv) ?u now (sv_Docs sv)")
      case (Inr r)
      obtain d v db' where r: "r = (d, v, db')" by (cases r)
      have up: "DocUpsert (ve_docID env sv) ?u now (sv_Docs sv) = Inr (d, v, db')" using Inr r by simp
      have k: "keeps P (sv_Docs sv) db'" "off P db' (dc_ID d)"
        using keeps_by_key_off [OF assms(1,2) up] assms(3) [OF None _ _ _ up] by auto
      have "sv_Docs (snd (upsert_by_key env tn vx req now sv)) = snd (upsert_metadata d req now db')"
        using \<open>upsert_key tn (vx_Ctx vx) req = Inr k\<close> None up by (simp add: upsert_by_key_def split: prod.splits)
      then show ?thesis using keeps_trans [OF k(1) keeps_metadata [OF assms(2) k(2)]] by simp
    qed (use \<open>upsert_key tn (vx_Ctx vx) req = Inr k\<close> None in \<open>simp add: upsert_by_key_def\<close>)
  qed (use Inr in \<open>simp add: upsert_by_key_def\<close>)
qed (simp add: upsert_by_key_def)

lemma keeps_upsert:
  assumes "docs_ok (sv_Docs sv)" and "stable P" and "apart P (sv_Docs sv)"
    and "\<And>i t st cat ac c now. t \<noteq> TypeSkill \<Longrightarrow> \<not> P (created_row i t st cat ac c now)"
    and "keeps P (sv_Docs sv) (sv_Docs (snd (upsert_by_key env tn vx req now sv)))"
  shows "keeps P (sv_Docs sv) (sv_Docs (snd (invokeDocumentUpsert env tn vx req now sv)))"
  using keeps_by_id [OF assms(1-3)] keeps_create [where P = P, OF assms(1,4)] assms(5)
  by (simp add: invokeDocumentUpsert_def split: option.splits)

text \<open>What a delete keeps.\<close>

lemma keeps_HardDelete: "off P db i \<Longrightarrow> apart P db \<Longrightarrow> (\<And>d. P (orphaned i d) = P d) \<Longrightarrow> HardDelete i db = Inr db' \<Longrightarrow> keeps P db db'"
proof -
  assume o: "off P db i" and a: "apart P db" and p: "\<And>d. P (orphaned i d) = P d" and h: "HardDelete i db = Inr db'"
  then have db': "db' = \<lparr>dd_Documents = map (orphaned i) (filter (\<lambda>d. dc_ID d \<noteq> i) (dd_Documents db)), dd_Versions = filter (\<lambda>v. vn_DocumentID v \<noteq> i) (dd_Versions db)\<rparr>"
    by (auto simp: HardDelete_def delete_rows_def split: if_splits)
  have f: "filter P (map (orphaned i) (filter (\<lambda>d. dc_ID d \<noteq> i) ds)) = filter P ds"
    if "\<And>d. d \<in> set ds \<Longrightarrow> P d \<Longrightarrow> dc_ID d \<noteq> i \<and> orphaned i d = d" for ds
    using that by (induction ds) (auto simp: p)
  have "filter P (dd_Documents db') = filter P (dd_Documents db)"
    unfolding db' docdb.simps by (rule f) (use o a in \<open>auto simp: off_def apart_def orphaned_def\<close>)
  then show ?thesis using o by (auto simp: db' keeps_def off_def versions_of_def filter_filter intro!: filter_cong)
qed

lemma keeps_tombstone:
  assumes "docs_ok db" and "stable P" and "d \<in> set (dd_Documents db)" and "\<not> P d"
  shows "keeps P db (versioned db d body by now status)"
  by (rule keeps_versioned [OF off_at [where P = P, OF ids_unique [OF assms(1)] assms(3,4)]]) (use assms(2) in \<open>simp add: stable_def\<close>)

lemma keeps_delete:
  assumes "docs_ok db" and "apart in_system db" and "invokeDocumentDelete tn vx req now db = Inr (d', db')"
  shows "keeps in_system db db'"
proof -
  have named: "keeps in_system db db'" if del: "DocDelete k u False now db = Inr (d, v, db')" for k u d v
  proof -
    obtain e where "lookupDocument db k = Some e" "ky_Scope k \<noteq> ScopeSystem" "db' = versioned db e [] u now StatusDeleted"
      using del by (auto simp: DocDelete_def tombstone_eq split: option.splits if_splits)
    then show ?thesis using keeps_tombstone [OF assms(1) stable_in_system] lookup_in [of db k e] lookup_scope [of db k e]
      by (auto simp: in_system_def)
  qed
  have by_id: "keeps in_system db db'" if "TombstoneByID i u now db = Inr (d, v, db')" for i u d v
    using that keeps_tombstone [OF assms(1) stable_in_system] GetByID_in [of db i]
    by (auto simp: TombstoneByID_def tombstone_eq in_system_def split: option.splits if_splits)
  have hard: "keeps in_system db db'" if "GetByID db i = Some d" "dc_Type d = TypeStory" "HardDelete i db = Inr db'" for i d
    using keeps_HardDelete [OF off_id [OF ids_unique [OF assms(1)] that(1)] assms(2) _ that(3)] assms(2) that(2) GetByID_in [OF that(1)]
    by (auto simp: apart_def in_system_def orphaned_def)
  show ?thesis
  proof (cases "TrimSpace (xq_ID req) = []")
    case True
    then show ?thesis using assms(3) named
      by (auto simp: invokeDocumentDelete_def Let_def map_sum_Inr split: sum.splits option.splits if_splits)
  next
    case False
    then show ?thesis using assms(3) by_id hard
      by (auto simp: invokeDocumentDelete_def delete_by_id_def GetByIDWithLatestBody_def map_sum_Inr split: option.splits if_splits)
  qed
qed

text \<open>
  C35: System rows are read-only through the verbs. Except for an administrator off the MCP
  surface (the release notes), no upsert of any caller changes, adds or removes a row of system scope or one of its
  versions, and no delete of any caller does, the administrator's included. The tables are consistent and
  hold no story or task of system scope.
\<close>

theorem system_rows_read_only:
  assumes "docs_ok (sv_Docs sv)" and "apart in_system (sv_Docs sv)" and "vx_MCP vx \<or> \<not> callerIsGlobalAdmin (vx_Ctx vx)"
  shows "keeps in_system (sv_Docs sv) (sv_Docs (snd (invokeDocumentUpsert env tn vx req now sv))) \<and>
    (invokeDocumentDelete tn vx' dreq now (sv_Docs sv) = Inr (d', db') \<longrightarrow> keeps in_system (sv_Docs sv) db')"
proof -
  have scope: "ky_Scope k \<noteq> ScopeSystem" if "upsert_guard env tn vx req k = None" for k
    using that assms(3) by (auto simp: upsert_guard_def systemChangelogWriteAllowed_def authorizeWrite_def split: option.splits if_splits)
  have key: "keeps in_system (sv_Docs sv) (sv_Docs (snd (upsert_by_key env tn vx req now sv)))"
  proof (rule keeps_by_key [OF assms(1) stable_in_system])
    fix k :: Key and u :: UpsertInput and d v db'
    assume "upsert_guard env tn vx req k = None"
    then show "(\<forall>e. lookupDocument (sv_Docs sv) k = Some e \<longrightarrow> \<not> in_system e) \<and>
        (\<forall>i t now. \<not> in_system (new_document i (resolveKey k) (upsert_type u) now))"
      using scope lookup_scope by (auto simp: in_system_def)
  qed
  have "keeps in_system (sv_Docs sv) (sv_Docs (snd (invokeDocumentUpsert env tn vx req now sv)))"
    by (rule keeps_upsert [OF assms(1) stable_in_system assms(2) _ key]) (simp add: in_system_def created_row_def scope_defs)
  then show ?thesis using keeps_delete [OF assms(1,2)] by blast
qed

definition system_db :: docdb where
  "system_db = fold doc_exec
     [DUpsert ''h1'' \<lparr>up_Key = sys_key ''reviewer'', up_Type = TypeSkill, up_Body = ''read'', up_CreatedBy = [], up_SystemWriteAllowed = True\<rparr> 1,
      DUpsert ''d1'' \<lparr>up_Key = project_key ''w1'' ''p1'' ''plan'', up_Type = TypeDocument, up_Body = ''private'', up_CreatedBy = ''ann'', up_SystemWriteAllowed = False\<rparr> 2]
     empty_db"

lemma system_db_ok: "docs_ok system_db"
  unfolding system_db_def by (rule docs_ok_run)

theorem system_rows_read_only_witness:
  "keeps in_system system_db (sv_Docs (snd (invokeDocumentUpsert demo_env (demo_tenancy demo_owner) eve
     (demo_upsert TypeDocument ''plan'' ''project'' ''w-eve'' ''p1'' ''taken'') 9 \<lparr>sv_Ledger = [], sv_Docs = system_db\<rparr>))) \<and>
   fst (invokeDocumentUpsert demo_env (demo_tenancy demo_owner) eve
     (demo_upsert TypeDocument ''reviewer'' ''system'' [] [] ''approve'') 9 \<lparr>sv_Ledger = [], sv_Docs = system_db\<rparr>) = Inl VSystemReadonly"
proof -
  let ?sv = "\<lparr>sv_Ledger = [], sv_Docs = system_db\<rparr> :: server"
  have 1: "docs_ok (sv_Docs ?sv)" using system_db_ok by simp
  have 2: "apart in_system (sv_Docs ?sv)" by code_simp
  have 3: "vx_MCP eve \<or> \<not> callerIsGlobalAdmin (vx_Ctx eve)" by code_simp
  have 4: "fst (invokeDocumentUpsert demo_env (demo_tenancy demo_owner) eve
     (demo_upsert TypeDocument ''reviewer'' ''system'' [] [] ''approve'') 9 ?sv) = Inl VSystemReadonly" by code_simp
  show ?thesis using system_rows_read_only [OF 1 2 3] 4 by simp
qed

section \<open>Reviewed skills\<close>

lemma versions_versioned_in:
  "v \<in> set (versions_of (versioned db d body by now status) i) \<Longrightarrow> v \<in> set (versions_of db i) \<or> vn_Body v = body"
  by (auto simp: versioned_def split: if_splits)

lemma metadata_versions: "dd_Versions (snd (upsert_metadata d req now db)) = dd_Versions db"
proof -
  have t: "dd_Versions db' = dd_Versions db" if "SetDocumentTags i ts now db = Inr (d, db')" for i ts d db db'
    using SetDocumentTags_db [OF that] by auto
  have h: "dd_Versions db' = dd_Versions db" if "SetDocumentHeadline i x now db = Inr (d, db')" for i x d db db'
    using SetDocumentHeadline_db [OF that] by auto
  show ?thesis using t h
    by (auto simp: upsert_metadata_def split: option.splits sum.splits)
qed

lemma upsert_by_key_cases:
  obtains (refused) e where "upsert_by_key env tn vx req now sv = (Inl e, sv)"
  | (written) k d v db' where "upsert_key tn (vx_Ctx vx) req = Inr k" "upsert_guard env tn vx req k = None"
      "DocUpsert (ve_docID env sv) \<lparr>up_Key = k, up_Type = dq_Type req, up_Body = dq_Body req,
         up_CreatedBy = callerUserID (vx_Ctx vx),
         up_SystemWriteAllowed = systemChangelogWriteAllowed vx (ky_Scope k) (dq_Type req)\<rparr> now (sv_Docs sv) = Inr (d, v, db')"
      "upsert_by_key env tn vx req now sv =
         (fst (upsert_metadata d req now db'), sv\<lparr>sv_Docs := snd (upsert_metadata d req now db')\<rparr>)"
proof (cases "upsert_key tn (vx_Ctx vx) req")
  case (Inl e)
  then show ?thesis using refused by (simp add: upsert_by_key_def)
next
  case (Inr k)
  show ?thesis
  proof (cases "upsert_guard env tn vx req k")
    case (Some e)
    then show ?thesis using refused Inr by (simp add: upsert_by_key_def)
  next
    case None
    let ?up = "DocUpsert (ve_docID env sv) \<lparr>up_Key = k, up_Type = dq_Type req, up_Body = dq_Body req,
         up_CreatedBy = callerUserID (vx_Ctx vx),
         up_SystemWriteAllowed = systemChangelogWriteAllowed vx (ky_Scope k) (dq_Type req)\<rparr> now (sv_Docs sv)"
    show ?thesis
    proof (cases ?up)
      case (Inl e)
      then show ?thesis using refused \<open>upsert_key tn (vx_Ctx vx) req = Inr k\<close> None by (simp add: upsert_by_key_def)
    next
      case (Inr r)
      obtain d v db' where "r = (d, v, db')" by (cases r)
      then show ?thesis using written [of k d v db'] \<open>upsert_key tn (vx_Ctx vx) req = Inr k\<close> None Inr
        by (simp add: upsert_by_key_def split: prod.splits)
    qed
  qed
qed

lemma by_key_versions:
  assumes "docs_ok (sv_Docs sv)" and "v \<in> set (versions_of (sv_Docs (snd (upsert_by_key env tn vx req now sv))) i)"
  shows "v \<in> set (versions_of (sv_Docs sv) i) \<or> vn_Body v = dq_Body req"
proof (cases rule: upsert_by_key_cases [of env tn vx req now sv])
  case refused
  then show ?thesis using assms(2) by simp
next
  case (written k d v' db')
  have v: "v \<in> set (versions_of db' i)" using assms(2) written(4) metadata_versions [of d req now db'] by (simp add: versions_of_def)
  from assms(1) written(3) show ?thesis
  proof (cases rule: DocUpsert_cases)
    case same
    then show ?thesis using v by simp
  next
    case (old e)
    then show ?thesis using v versions_versioned_in by fastforce
  next
    case (new e db1)
    then show ?thesis using v versions_versioned_in insert_doc_views [OF new(3)] by fastforce
  qed
qed

text \<open>
  C36: No unreviewed skill. After any upsert without an id, by any caller over any transport and of any type, a version of
  a skill row either was there before, or carries the body of the request, and then
  the request has an accepting attestation for exactly this body or the body is the row's current one.
\<close>

theorem skill_versions_attested:
  assumes "docs_ok (sv_Docs sv)" and "dq_ID req = []"
    and "d \<in> set (dd_Documents (sv_Docs (snd (invokeDocumentUpsert env tn vx req now sv))))" and "dc_Type d = TypeSkill"
    and "v \<in> set (versions_of (sv_Docs (snd (invokeDocumentUpsert env tn vx req now sv))) (dc_ID d))"
  shows "v \<in> set (versions_of (sv_Docs sv) (dc_ID d)) \<or>
    vn_Body v = dq_Body req \<and>
      (verifyReviewAttestation env req = None \<or> behaviourBodyUnchanged tn (vx_Ctx vx) req (sv_Docs sv))"
proof (cases "dq_Type req = TypeSkill")
  case True
  have kind: "reviewRequiredKind env req" "dq_Type req \<noteq> TypeStory" "\<not> routesToCreateTask req"
    using True by (auto simp: reviewRequiredKind_def routesToCreateTask_def type_defs) (code_simp)?
  show ?thesis
  proof (cases "verifyReviewAttestation env req = None \<or> behaviourBodyUnchanged tn (vx_Ctx vx) req (sv_Docs sv)")
    case ok: True
    have "invokeDocumentUpsert env tn vx req now sv = upsert_by_key env tn vx req now sv \<or>
        snd (invokeDocumentUpsert env tn vx req now sv) = sv"
      using kind assms(2) by (auto simp: invokeDocumentUpsert_def split: option.splits)
    then show ?thesis using by_key_versions [OF assms(1)] assms(5) ok by metis
  next
    case False
    then have "snd (invokeDocumentUpsert env tn vx req now sv) = sv"
      using kind(1) assms(2) by (auto simp: invokeDocumentUpsert_def)
    then show ?thesis using assms(5) by simp
  qed
next
  case False
  have "keeps is_skill (sv_Docs sv) (sv_Docs (snd (upsert_by_key env tn vx req now sv)))"
  proof (rule keeps_by_key [OF assms(1) stable_is_skill])
    fix k :: Key and u :: UpsertInput and d v db'
    assume u: "up_Key u = k" "up_Type u = dq_Type req" and up: "DocUpsert (ve_docID env sv) u now (sv_Docs sv) = Inr (d, v, db')"
    have t: "upsert_type u \<noteq> TypeSkill" using u False by (auto simp: upsert_type_def type_defs)
    have "dc_Type e \<noteq> TypeSkill" if "lookupDocument (sv_Docs sv) k = Some e" for e
      using assms(1) up by (cases rule: DocUpsert_cases) (use that t u in auto)
    then show "(\<forall>e. lookupDocument (sv_Docs sv) k = Some e \<longrightarrow> \<not> is_skill e) \<and>
        (\<forall>i t now. \<not> is_skill (new_document i (resolveKey k) (upsert_type u) now))"
      using t by (auto simp: is_skill_def)
  qed
  then have "keeps is_skill (sv_Docs sv) (sv_Docs (snd (invokeDocumentUpsert env tn vx req now sv)))"
    by (intro keeps_upsert [OF assms(1) stable_is_skill])
      (auto simp: apart_def is_skill_def created_row_def type_defs)
  then show ?thesis using keeps_rows [of is_skill "sv_Docs sv" _ d] assms(3-5) by (auto simp: keeps_def is_skill_def)
qed

definition reviewed_skill :: UpsertRequest where
  "reviewed_skill = (demo_upsert TypeSkill ''deploy'' ''project'' ''w-eve'' ''p1'' ''make'')
     \<lparr>dq_Review := Some \<lparr>ra_Decision = ''accept'', ra_ContentSHA256 = ''make''\<rparr>\<rparr>"

theorem skill_versions_attested_witness:
  "\<exists>d (v :: Version). dc_Type d = TypeSkill \<and> d \<in> set (dd_Documents (sv_Docs (snd (invokeDocumentUpsert demo_env (demo_tenancy demo_owner) eve
       reviewed_skill 9 \<lparr>sv_Ledger = [], sv_Docs = system_db\<rparr>)))) \<and> dc_ID d = ''d9'' \<and> vn_Body v = dq_Body reviewed_skill \<and>
     (verifyReviewAttestation demo_env reviewed_skill = None \<or>
      behaviourBodyUnchanged (demo_tenancy demo_owner) (vx_Ctx eve) reviewed_skill system_db)"
proof -
  let ?sv = "\<lparr>sv_Ledger = [], sv_Docs = system_db\<rparr> :: server"
  let ?docs = "sv_Docs (snd (invokeDocumentUpsert demo_env (demo_tenancy demo_owner) eve reviewed_skill 9 ?sv))"
  let ?d = "last (dd_Documents ?docs)" and ?v = "hd (versions_of ?docs ''d9'')"
  have 1: "docs_ok (sv_Docs ?sv)" using system_db_ok by simp
  have 2: "dq_ID reviewed_skill = []" by code_simp
  have 3: "dd_Documents ?docs \<noteq> []" "dc_Type ?d = TypeSkill" "dc_ID ?d = ''d9''" "versions_of ?docs ''d9'' \<noteq> []"
    "versions_of (sv_Docs ?sv) ''d9'' = []" by code_simp+
  have 4: "?d \<in> set (dd_Documents ?docs)" using 3(1) by simp
  have 5: "?v \<in> set (versions_of ?docs (dc_ID ?d))" using 3(3,4) by simp
  have 6: "vn_Body ?v = dq_Body reviewed_skill \<and> (verifyReviewAttestation demo_env reviewed_skill = None \<or>
      behaviourBodyUnchanged (demo_tenancy demo_owner) (vx_Ctx eve) reviewed_skill (sv_Docs ?sv))"
    using skill_versions_attested [OF 1 2 4 3(2) 5] 3(3,5) by simp
  have "sv_Docs ?sv = system_db" by simp
  then have "dc_Type ?d = TypeSkill \<and> ?d \<in> set (dd_Documents ?docs) \<and> dc_ID ?d = ''d9'' \<and> vn_Body ?v = dq_Body reviewed_skill \<and>
     (verifyReviewAttestation demo_env reviewed_skill = None \<or>
      behaviourBodyUnchanged (demo_tenancy demo_owner) (vx_Ctx eve) reviewed_skill system_db)"
    using 3(2,3) 4 6 by presburger
  then show ?thesis by blast
qed

section \<open>Around the review\<close>

text \<open>The key of the upsert is the key the unchanged-body test reads.\<close>

lemma behaviour_key:
  assumes "upsert_key tn ctx req = Inr k"
  shows "behaviourBodyUnchanged tn ctx req db =
     (case DocGet db k latest_active of Inl e \<Rightarrow> False | Inr (d, vs) \<Rightarrow> (case vs of [] \<Rightarrow> False | v # rest \<Rightarrow> vn_Body v = dq_Body req))"
proof -
  obtain scope where n: "TrimSpace (dq_Name req) \<noteq> []" and sc: "parseScope (dq_Scope req) = Inr scope"
    using assms by (auto simp: upsert_key_def split: if_splits sum.splits)
  let ?k = "let k0 = request_key scope req in
       if scope = ScopeUser then k0\<lparr>ky_UserID := callerUserID ctx\<rparr>
       else if scope = ScopeProject \<and> TrimSpace (ky_WorkspaceID k0) = [] \<and> tn_ProjectStore tn \<and> TrimSpace (ky_ProjectID k0) \<noteq> []
         then (case pjGetByID (tn_Projects tn) (ky_ProjectID k0) of None \<Rightarrow> k0 | Some p \<Rightarrow> k0\<lparr>ky_WorkspaceID := pj_WorkspaceID p\<rparr>)
       else k0"
  have k: "k = ?k"
    using assms n sc by (auto simp: upsert_key_def Let_def split: if_splits option.splits)
  show ?thesis unfolding k behaviourBodyUnchanged_def sc sum.case Let_def using n by (simp only: if_False)
qed

lemma metadata_lookup:
  assumes "lookupDocument db k = Some e"
  shows "\<exists>e'. lookupDocument (snd (upsert_metadata d req now db)) k = Some e' \<and> dc_ID e' = dc_ID e"
proof -
  have t: "\<exists>e'. lookupDocument db2 k = Some e' \<and> dc_ID e' = dc_ID e0"
    if "SetDocumentTags i ts now db1 = Inr (d', db2)" "lookupDocument db1 k = Some e0" for i ts d' db1 db2 e0
    using SetDocumentTags_db [OF that(1)] that(2) by (auto simp: lookup_update)
  have h: "\<exists>e'. lookupDocument db2 k = Some e' \<and> dc_ID e' = dc_ID e0"
    if "SetDocumentHeadline i x now db1 = Inr (d', db2)" "lookupDocument db1 k = Some e0" for i x d' db1 db2 e0
    using SetDocumentHeadline_db [OF that(1)] that(2) by (auto simp: lookup_update)
  show ?thesis
  proof (cases "case stamped_tags d (dq_Tags req) of None \<Rightarrow> Inr (d, db) | Some ts \<Rightarrow> SetDocumentTags (dc_ID d) ts now db")
    case (Inr r)
    obtain d1 db1 where r: "r = (d1, db1)" by (cases r)
    obtain e1 where e1: "lookupDocument db1 k = Some e1" "dc_ID e1 = dc_ID e"
      using Inr r assms t [of "dc_ID d" _ db d1 db1 e] by (auto split: option.splits)
    show ?thesis
    proof (cases "dq_Headline req")
      case None
      then show ?thesis using e1 Inr r by (simp add: upsert_metadata_def)
    next
      case (Some x)
      then show ?thesis
      proof (cases "SetDocumentHeadline (dc_ID d1) x now db1")
        case (Inr r')
        then show ?thesis using e1 h [of "dc_ID d1" x db1 "fst r'" "snd r'" e1] Some \<open>_ = Inr r\<close> r
          by (cases r') (simp add: upsert_metadata_def)
      qed (use e1 Some \<open>_ = Inr r\<close> r in \<open>simp add: upsert_metadata_def\<close>)
    qed
  qed (use assms in \<open>simp add: upsert_metadata_def\<close>)
qed

lemma request_key_tags [simp]: "request_key sc (req\<lparr>dq_Tags := ts, dq_Review := rv\<rparr>) = request_key sc req"
  by (simp add: request_key_def)

lemma upsert_key_tags [simp]: "upsert_key tn ctx (req\<lparr>dq_Tags := ts, dq_Review := rv\<rparr>) = upsert_key tn ctx req"
  by (simp add: upsert_key_def cong del: sum.case_cong_weak)

lemma type_document:
  "TypeDocument \<noteq> TypeStory" "TypeDocument \<noteq> TypeTask" "mcpForbidsType mcp TypeDocument \<longleftrightarrow> False"
  "EqualFold (TrimSpace TypeDocument) TypeSkill \<longleftrightarrow> False" "TrimSpace [] = []"
proof -
  show "TypeDocument \<noteq> TypeStory" "TypeDocument \<noteq> TypeTask" "EqualFold (TrimSpace TypeDocument) TypeSkill \<longleftrightarrow> False" "TrimSpace [] = []"
    by code_simp+
  have "mcpForbidsType True TypeDocument \<longleftrightarrow> False" "mcpForbidsType False TypeDocument \<longleftrightarrow> False" by code_simp+
  then show "mcpForbidsType mcp TypeDocument \<longleftrightarrow> False" by (cases mcp) simp_all
qed

lemma upsert_document_step:
  assumes "dq_ID q = []" and "dq_Type q = TypeDocument"
  shows "invokeDocumentUpsert env tn vx q t s = (if reviewRequiredKind env q \<and> \<not> behaviourBodyUnchanged tn (vx_Ctx vx) q (sv_Docs s)
      then (case verifyReviewAttestation env q of Some e \<Rightarrow> (Inl e, s) | None \<Rightarrow> upsert_by_key env tn vx q t s)
      else upsert_by_key env tn vx q t s)"
  unfolding invokeDocumentUpsert_def routesToCreateTask_def workspaceSkillRefused_def assms
  by (simp only: type_document refl simp_thms if_False if_True option.case)
    (cases "reviewRequiredKind env q \<and> \<not> behaviourBodyUnchanged tn (vx_Ctx vx) q (sv_Docs s)"; simp only: if_True if_False simp_thms option.case)

text \<open>
  Principles and workflows need no review when they are written in two steps. The barrier reads the tags of the
  request and lets a body pass that the store holds already. So a document written plainly, and then
  again with the same body, any tags (the principle or workflow tag included) and no attestation, reaches the second time the
  upsert by key with no barrier before it, for every caller whose first write succeeded, over MCP too.
\<close>

theorem review_split_in_two:
  assumes "docs_ok (sv_Docs sv)" and "dq_ID req = []" and "dq_Type req = TypeDocument"
    and "invokeDocumentUpsert env tn vx req now sv = (Inr d, sv1)"
  shows "invokeDocumentUpsert env tn vx (req\<lparr>dq_Tags := Some ts, dq_Review := None\<rparr>) now' sv1 =
    upsert_by_key env tn vx (req\<lparr>dq_Tags := Some ts, dq_Review := None\<rparr>) now' sv1"
proof -
  note step = upsert_document_step
  have first: "upsert_by_key env tn vx req now sv = (Inr d, sv1)"
    using assms(4) unfolding step [OF assms(2,3)] by (simp split: if_splits option.splits)
  have "behaviourBodyUnchanged tn (vx_Ctx vx) (req\<lparr>dq_Tags := Some ts, dq_Review := None\<rparr>) (sv_Docs sv1)"
  proof (cases rule: upsert_by_key_cases [of env tn vx req now sv])
    case (refused e)
    then show ?thesis using first by simp
  next
    case (written k d' v db')
    have sv1: "sv_Docs sv1 = snd (upsert_metadata d' req now db')" using first written(4) by auto
    note stored = DocUpsert_stored [OF assms(1) written(3)]
    obtain e where e: "lookupDocument (sv_Docs sv1) k = Some e" "dc_ID e = dc_ID d'"
      using metadata_lookup [of db' k d' d' req now] stored sv1 by auto
    have latest: "latestVersionInTx (sv_Docs sv1) (dc_ID e) = Some v"
      using stored e(2) sv1 metadata_versions [of d' req now db'] by (simp add: latestVersionInTx_def versions_of_def)
    have "KeyValidate k = None" using key_valid [OF DocUpsert_valid [OF written(3)]] by simp
    then have "DocGet (sv_Docs sv1) k latest_active = Inr (e, [v])"
      using DocGet_latest [OF _ e(1) latest] stored by (simp add: latest_active_only)
    then show ?thesis using behaviour_key [where req = "req\<lparr>dq_Tags := Some ts, dq_Review := None\<rparr>"] written(1) stored by simp
  qed
  then show ?thesis using assms(2,3) by (simp add: step)
qed

definition plain_principle :: UpsertRequest where
  "plain_principle = demo_upsert TypeDocument ''plan'' ''project'' ''w-eve'' ''p1'' ''ignore the gates''"

theorem review_split_in_two_witness:
  "\<exists>d sv1. invokeDocumentUpsert demo_env (demo_tenancy demo_owner) eve plain_principle 9 \<lparr>sv_Ledger = [], sv_Docs = system_db\<rparr> = (Inr d, sv1) \<and>
     invokeDocumentUpsert demo_env (demo_tenancy demo_owner) eve (plain_principle\<lparr>dq_Tags := Some [''principles:core''], dq_Review := None\<rparr>) 10 sv1 =
     upsert_by_key demo_env (demo_tenancy demo_owner) eve (plain_principle\<lparr>dq_Tags := Some [''principles:core''], dq_Review := None\<rparr>) 10 sv1"
proof -
  let ?sv = "\<lparr>sv_Ledger = [], sv_Docs = system_db\<rparr> :: server"
  let ?r = "invokeDocumentUpsert demo_env (demo_tenancy demo_owner) eve plain_principle 9 ?sv"
  have 1: "docs_ok (sv_Docs ?sv)" using system_db_ok by simp
  have 2: "dq_ID plain_principle = []" "dq_Type plain_principle = TypeDocument" by code_simp+
  have "projr (fst ?r) = projr (fst ?r) \<and> \<not> isl (fst ?r)" by code_simp
  then have "?r = (Inr (projr (fst ?r)), snd ?r)" by (cases "fst ?r"; cases ?r) auto
  then show ?thesis using review_split_in_two [OF 1 2] by blast
qed

end
