(* ===== verification/Embedding.thy ===== *)
theory Embedding
  imports WorkflowResolve
begin

text \<open>
  Where workflows come from and how a story carries a copy of its own: the readers and the merged
  source list of \<^verbatim>\<open>internal/cli/clientworkflows.go\<close>, the materialised skills and
  \<open>replaceSection\<close> of \<^verbatim>\<open>cmd_workflow_design.go\<close>, the stamping of
  \<^verbatim>\<open>cmd_workflow_embed.go\<close> and the provenance report of \<^verbatim>\<open>cmd_story_review.go\<close>. A
  directory is the list of its entries in the order the system call returns them, with the content
  where the file can be read; the server is reached through two functions that write a body and
  the tags of a story.
\<close>

section \<open>Reading workflows and skills\<close>

record matSkill =
  ms_name :: string
  ms_kind :: string
  ms_scope :: string
  ms_description :: string
  ms_body :: string
  ms_raw :: string
  ms_source :: string
  ms_local :: bool

record dir_entry =
  de_Name :: string
  de_IsDir :: bool
  de_Content :: "string option"

definition md_suffix :: string where "md_suffix = ''.md''"

definition TrimSuffix :: "string \<Rightarrow> string \<Rightarrow> string" where
  "TrimSuffix s p = (if HasSuffix s p then take (length s - length p) s else s)"

definition or_else :: "string \<Rightarrow> string \<Rightarrow> string" where
  "or_else s d = (if s \<noteq> [] then s else d)"

text \<open>A file whose frontmatter does not parse is kept, named by the file.\<close>

definition read_workflow :: "(string \<Rightarrow> Frontmatter option) \<Rightarrow> string \<Rightarrow> string \<Rightarrow> string \<Rightarrow> string \<Rightarrow> string \<Rightarrow> matSkill" where
  "read_workflow yaml scope source file stripped raw =
     (case ParseFrontmatter yaml stripped of
        Inl e \<Rightarrow> \<lparr>ms_name = TrimSuffix file md_suffix, ms_kind = ''workflow'', ms_scope = scope, ms_description = [],
          ms_body = stripped, ms_raw = raw, ms_source = source, ms_local = False\<rparr>
      | Inr (fm, body) \<Rightarrow> \<lparr>ms_name = or_else (TrimSpace (fm_Name fm)) (TrimSuffix file md_suffix), ms_kind = ''workflow'',
          ms_scope = scope, ms_description = TrimSpace (fm_Description fm), ms_body = body, ms_raw = raw,
          ms_source = source, ms_local = False\<rparr>)"

definition md_files :: "dir_entry list option \<Rightarrow> (string \<times> string) list" where
  "md_files dir = (case dir of None \<Rightarrow> [] | Some es \<Rightarrow> List.map_filter
     (\<lambda>e. if de_IsDir e \<or> \<not> HasSuffix (de_Name e) md_suffix then None else map_option (Pair (de_Name e)) (de_Content e)) es)"

definition clientWorkflows :: "(string \<Rightarrow> Frontmatter option) \<Rightarrow> dir_entry list option \<Rightarrow> matSkill list" where
  "clientWorkflows yaml dir =
     map (\<lambda>(file, raw). read_workflow yaml ''project'' ''local'' file (StripSyncStamp raw) raw) (md_files dir)"

definition embeddedWorkflows :: "(string \<Rightarrow> Frontmatter option) \<Rightarrow> dir_entry list option \<Rightarrow> matSkill list" where
  "embeddedWorkflows yaml dir = map (\<lambda>(file, raw). read_workflow yaml ''system'' ''embed'' file raw raw) (md_files dir)"

definition materialisedSkills :: "(string \<Rightarrow> Frontmatter option) \<Rightarrow> dir_entry list option \<Rightarrow> matSkill list" where
  "materialisedSkills yaml dir = (case dir of None \<Rightarrow> [] | Some es \<Rightarrow> List.map_filter
     (\<lambda>e. if \<not> de_IsDir e then None
          else case de_Content e of
            None \<Rightarrow> None
          | Some raw \<Rightarrow>
              (case ParseFrontmatter yaml (StripSyncStamp raw) of
                 Inl err \<Rightarrow> None
               | Inr (fm, body) \<Rightarrow> Some \<lparr>ms_name = or_else (TrimSpace (fm_Name fm)) (de_Name e), ms_kind = TrimSpace (fm_Kind fm),
                   ms_scope = TrimSpace (fm_Scope fm), ms_description = TrimSpace (fm_Description fm), ms_body = body,
                   ms_raw = raw, ms_source = ''skill'', ms_local = False\<rparr>)) es)"

definition source_of :: "matSkill \<Rightarrow> WorkflowSource" where
  "source_of s = \<lparr>ws_Name = ms_name s, ws_Body = ms_raw s\<rparr>"

definition materialisedWorkflowSources :: "matSkill list \<Rightarrow> WorkflowSource list" where
  "materialisedWorkflowSources skills = map source_of (filter (\<lambda>s. ms_kind s = ''workflow'') skills)"

text \<open>The three tiers a workflow is looked up in, in the order of their precedence.\<close>

record tiers =
  ti_client :: "WorkflowSource list"
  ti_skill :: "WorkflowSource list"
  ti_embed :: "WorkflowSource list"

definition governingWorkflowSources :: "tiers \<Rightarrow> WorkflowSource list" where
  "governingWorkflowSources t = ti_client t @ ti_skill t @ ti_embed t"

definition withEmbeddedWorkflows :: "matSkill list \<Rightarrow> matSkill list \<Rightarrow> matSkill list" where
  "withEmbeddedWorkflows local embedded = local @ filter (\<lambda>s. ms_name s \<notin> set (map ms_name local)) embedded"

section \<open>The provenance of a workflow\<close>

definition re_space :: "char \<Rightarrow> bool" where
  "re_space c \<longleftrightarrow> c = CHR 0x09 \<or> c = CHR 0x0A \<or> c = CHR 0x0C \<or> c = CHR 0x0D \<or> c = CHR '' ''"

definition version_key :: string where
  "version_key = [CHR 0x22] @ ''version'' @ [CHR 0x22]"

text \<open>The digits after the version key, when the string starts with the key, a colon and a digit.\<close>

definition version_here :: "string \<Rightarrow> string option" where
  "version_here s =
     (case CutPrefix s version_key of
        None \<Rightarrow> None
      | Some r \<Rightarrow>
          (case dropWhile re_space r of
             [] \<Rightarrow> None
           | c # r' \<Rightarrow>
               (let ds = takeWhile is_digit (dropWhile re_space r') in
                if c = CHR '':'' \<and> ds \<noteq> [] then Some ds else None)))"

fun first_version :: "string \<Rightarrow> string option" where
  "first_version [] = None"
| "first_version (c # cs) = (case version_here (c # cs) of Some d \<Rightarrow> Some d | None \<Rightarrow> first_version cs)"

definition stamp_begin :: string where "stamp_begin = ''satellites-sync:begin''"

definition syncStampVersion :: "string \<Rightarrow> string" where
  "syncStampVersion body =
     (case Index body stamp_begin of
        None \<Rightarrow> ''-''
      | Some i \<Rightarrow>
          (case first_version (drop (i + length stamp_begin) body) of None \<Rightarrow> ''-'' | Some d \<Rightarrow> ''v'' @ d))"

definition find_source :: "string \<Rightarrow> WorkflowSource list \<Rightarrow> string option" where
  "find_source name srcs = map_option ws_Body (find (\<lambda>s. EqualFold (TrimSpace (ws_Name s)) name) srcs)"

definition workflowSourceProvenance :: "tiers \<Rightarrow> string \<Rightarrow> string \<times> string" where
  "workflowSourceProvenance t name0 =
     (let name = TrimSpace name0 in
      if name = [] then (''-'', ''-'')
      else case find_source name (ti_client t) of
        Some b \<Rightarrow> (''local'', syncStampVersion b)
      | None \<Rightarrow>
          (case find_source name (ti_skill t) of
             Some b \<Rightarrow> (''skill'', syncStampVersion b)
           | None \<Rightarrow>
               (case find_source name (ti_embed t) of
                  Some b \<Rightarrow> (''embed'', syncStampVersion b)
                | None \<Rightarrow> (''unknown'', ''-''))))"

section \<open>Replacing a section of a body\<close>

abbreviation nl :: char where "nl \<equiv> CHR 0x0A"

fun split_lines :: "string \<Rightarrow> string list" where
  "split_lines [] = [[]]"
| "split_lines (c # cs) =
     (if c = nl then [] # split_lines cs
      else case split_lines cs of [] \<Rightarrow> [[c]] | l # ls \<Rightarrow> (c # l) # ls)"

definition trim_left_nl :: "string \<Rightarrow> string" where
  "trim_left_nl = dropWhile (\<lambda>c. c = nl)"

definition trim_right_nl :: "string \<Rightarrow> string" where
  "trim_right_nl s = rev (dropWhile (\<lambda>c. c = nl) (rev s))"

definition h2 :: string where "h2 = ''## ''"

text \<open>The section runs from its heading to the next line that opens with a second-level heading.\<close>

definition replaceSection :: "string \<Rightarrow> string \<Rightarrow> string \<Rightarrow> string" where
  "replaceSection body heading replacement =
     (let ls = split_lines body; before = takeWhile (\<lambda>l. TrimSpace l \<noteq> heading) ls;
          rest = drop (length before) ls
      in case rest of
        [] \<Rightarrow>
          (let trimmed = trim_right_nl body in
           if TrimSpace replacement = [] then trimmed @ [nl]
           else trimmed @ [nl, nl] @ TrimSpace replacement @ [nl])
      | h # later \<Rightarrow>
          (let tail = Join (dropWhile (\<lambda>l. \<not> HasPrefix l h2) later) [nl];
               b0 = trim_right_nl (Join before [nl]);
               b1 = (if TrimSpace replacement \<noteq> []
                     then b0 @ (if b0 \<noteq> [] then [nl, nl] else []) @ TrimSpace replacement else b0);
               b2 = (if TrimSpace tail \<noteq> [] then b1 @ [nl, nl] @ trim_left_nl tail else b1)
           in trim_right_nl b2 @ [nl]))"

section \<open>Stamping the governing workflow into a story\<close>

definition workflow_heading :: string where "workflow_heading = ''## Workflow''"

definition workflow_section :: "string \<Rightarrow> string" where
  "workflow_section block = workflow_heading @ [nl, nl] @ yaml_open @ [nl] @ trim_right_nl block @ [nl] @ yaml_fence @ [nl]"

text \<open>The new body and whether it changed.\<close>

definition stampWorkflowSection :: "yaml_codec \<Rightarrow> string \<Rightarrow> Workflow \<Rightarrow> string \<Rightarrow> wf_error + string \<times> bool" where
  "stampWorkflowSection yaml body w srcBody =
     (case extractYAMLBlock srcBody of
        Inl e \<Rightarrow> Inl e
      | Inr block \<Rightarrow>
          (if (case ParseBody yaml body of Inl e \<Rightarrow> False | Inr embedded \<Rightarrow> Equivalent (Some w) (Some embedded)) then Inr (body, False)
           else Inr (replaceSection body workflow_heading (workflow_section block), True)))"

definition named_body :: "WorkflowSource list \<Rightarrow> string \<Rightarrow> string" where
  "named_body sources name = (case find (\<lambda>s. ws_Name s = name) sources of None \<Rightarrow> [] | Some s \<Rightarrow> ws_Body s)"

text \<open>The outer \<^const>\<open>None\<close>: no workflow covers the category. Else the name and the stamped body.\<close>

definition syncEmbeddedWorkflowBody ::
  "yaml_codec \<Rightarrow> string \<Rightarrow> string \<Rightarrow> WorkflowSource list \<Rightarrow> (string \<times> (wf_error + string \<times> bool)) option" where
  "syncEmbeddedWorkflowBody yaml body category sources =
     (case ResolveGoverningWorkflow yaml category sources of
        None \<Rightarrow> None
      | Some (w, name) \<Rightarrow> Some (name, stampWorkflowSection yaml body w (named_body sources name)))"

datatype embed_outcome =
    Ungoverned
  | Unstamped wf_error
  | EmbedCurrent string
  | WriteFailed
  | Restamped string string

definition reembedGoverningWorkflow ::
  "yaml_codec \<Rightarrow> (string \<Rightarrow> 'srv \<Rightarrow> 'srv option) \<Rightarrow> string \<Rightarrow> string \<Rightarrow> WorkflowSource list \<Rightarrow> 'srv \<Rightarrow> embed_outcome \<times> 'srv" where
  "reembedGoverningWorkflow yaml apply_body body category sources srv =
     (case syncEmbeddedWorkflowBody yaml body category sources of
        None \<Rightarrow> (Ungoverned, srv)
      | Some (name, Inl e) \<Rightarrow> (Unstamped e, srv)
      | Some (name, Inr (b, changed)) \<Rightarrow>
          (if \<not> changed then (EmbedCurrent name, srv)
           else case apply_body b srv of
             None \<Rightarrow> (WriteFailed, srv)
           | Some srv' \<Rightarrow> (Restamped name b, srv')))"

definition selector_tags :: "string list \<Rightarrow> string \<Rightarrow> string list" where
  "selector_tags tags name =
     filter (\<lambda>t. CutPrefix (TrimSpace t) WorkflowSelectorTag = None) tags @ [WorkflowSelectorTag @ name]"

text \<open>The next move out of a status; a checkpoint has precedence, and the last edge wins.\<close>

record next_move =
  nx_Gate :: string
  nx_To :: string
  nx_Work :: string
  nx_Checkpoint :: bool

definition no_move :: next_move where
  "no_move = \<lparr>nx_Gate = [], nx_To = [], nx_Work = [], nx_Checkpoint = False\<rparr>"

definition next_of :: "Workflow \<Rightarrow> string \<Rightarrow> next_move" where
  "next_of w status =
     (let ts = TransitionsFrom w status;
          cp = fold (\<lambda>t m. if tr_Trigger t = ''checkpoint'' \<and> TrimSpace (tr_ReviewerSkill t) = []
                 then m\<lparr>nx_To := tr_To t, nx_Work := TrimSpace (tr_WorkSkill t), nx_Checkpoint := True\<rparr> else m) ts no_move
      in if nx_Checkpoint cp then cp
         else fold (\<lambda>t m. if TrimSpace (tr_ReviewerSkill t) \<noteq> [] \<and> \<not> IsTerminal w (tr_To t)
                 then m\<lparr>nx_Gate := TrimSpace (tr_ReviewerSkill t), nx_To := tr_To t, nx_Work := TrimSpace (tr_WorkSkill t)\<rparr> else m) ts cp)"

datatype embed_error =
    SelectorNamesNone string
  | SelectorCoversNot string string
  | NothingCovers string
  | SelectorNotRecorded
  | StampFailed wf_error
  | BodyNotWritten

record embed_report =
  eb_Workflow :: string
  eb_Changed :: bool
  eb_Next :: next_move

text \<open>The workflow chosen for the story; a choice by category is recorded as a tag.\<close>

definition choose_workflow ::
  "yaml_codec \<Rightarrow> (string list \<Rightarrow> 'srv \<Rightarrow> 'srv option) \<Rightarrow> string list \<Rightarrow> string \<Rightarrow> WorkflowSource list \<Rightarrow> 'srv \<Rightarrow>
   (embed_error + Workflow \<times> string) \<times> 'srv" where
  "choose_workflow yaml apply_tags tags category sources srv =
     (let selector = WorkflowSelector tags in
      if selector \<noteq> [] then
        ((case ResolveByName yaml selector category sources of
            None \<Rightarrow> Inl (SelectorNamesNone selector)
          | Some (w, covers) \<Rightarrow> (if \<not> covers then Inl (SelectorCoversNot selector category) else Inr (w, selector))), srv)
      else case ResolveGoverningWorkflow yaml category sources of
        None \<Rightarrow> (Inl (NothingCovers category), srv)
      | Some (w, n) \<Rightarrow>
          (case apply_tags (selector_tags tags n) srv of
             None \<Rightarrow> (Inl SelectorNotRecorded, srv)
           | Some srv' \<Rightarrow> (Inr (w, n), srv')))"

definition runWorkflowEmbed ::
  "yaml_codec \<Rightarrow> (string \<Rightarrow> 'srv \<Rightarrow> 'srv option) \<Rightarrow> (string list \<Rightarrow> 'srv \<Rightarrow> 'srv option) \<Rightarrow> string list \<Rightarrow> string \<Rightarrow> string \<Rightarrow> string \<Rightarrow>
   WorkflowSource list \<Rightarrow> 'srv \<Rightarrow> (embed_error + embed_report) \<times> 'srv" where
  "runWorkflowEmbed yaml apply_body apply_tags tags category status body sources srv =
     (case choose_workflow yaml apply_tags tags category sources srv of
        (Inl e, srv1) \<Rightarrow> (Inl e, srv1)
      | (Inr (w, name), srv1) \<Rightarrow>
          (case stampWorkflowSection yaml body w (named_body sources name) of
             Inl e \<Rightarrow> (Inl (StampFailed e), srv1)
           | Inr (b, changed) \<Rightarrow>
               (let report = \<lparr>eb_Workflow = name, eb_Changed = changed, eb_Next = next_of w status\<rparr> in
                if \<not> changed then (Inr report, srv1)
                else case apply_body b srv1 of
                  None \<Rightarrow> (Inl BodyNotWritten, srv1)
                | Some srv2 \<Rightarrow> (Inr report, srv2))))"

section \<open>Finding a fence again\<close>

text \<open>A pattern whose first character does not occur again in it is found on one side of that character.\<close>

lemma HasPrefix_sep: "c \<notin> set q \<Longrightarrow> HasPrefix (u @ c # t) q = HasPrefix u q"
proof (induction u arbitrary: q)
  case Nil
  then show ?case by (cases q) auto
next
  case (Cons a u)
  then show ?case by (cases q) auto
qed

lemma Index_sep:
  assumes "c \<notin> set q"
  shows "Index (u @ c # t) (c # q) =
    (case Index u (c # q) of Some i \<Rightarrow> Some i | None \<Rightarrow> map_option (\<lambda>i. length u + i) (Index (c # t) (c # q)))"
proof (induction u)
  case Nil
  show ?case by (cases "Index (c # t) (c # q)") auto
next
  case (Cons a u)
  have "HasPrefix ((a # u) @ c # t) (c # q) = HasPrefix (a # u) (c # q)"
    using HasPrefix_sep [OF assms] by simp
  then show ?case using Cons by (auto simp: option.map_comp o_def split: option.splits)
qed

lemma HasPrefix_mono: "HasPrefix u p \<Longrightarrow> HasPrefix (u @ v) p"
  by (auto simp: HasPrefix_iff)

lemma Index_None_prefix: "Index (u @ v) p = None \<Longrightarrow> Index u p = None"
proof (induction u)
  case Nil
  then show ?case by (cases p; cases v) auto
next
  case (Cons a u)
  then show ?case using HasPrefix_mono [of "a # u" p v] by (auto split: if_splits)
qed

lemma Index_before: "Index s p = Some i \<Longrightarrow> p \<noteq> [] \<Longrightarrow> Index (take i s) p = None"
proof (induction s arbitrary: i)
  case Nil
  then show ?case by (cases p) auto
next
  case (Cons a s)
  show ?case
  proof (cases i)
    case 0
    then show ?thesis using Cons.prems(2) by (cases p) auto
  next
    case (Suc k)
    then have "\<not> HasPrefix (a # s) p" "Index s p = Some k" using Cons.prems(1) by (auto split: if_splits)
    moreover from this have "\<not> HasPrefix (a # take k s) p"
      using HasPrefix_mono [of "a # take k s" p "drop k s"] by auto
    ultimately show ?thesis using Suc Cons by simp
  qed
qed

section \<open>Lines\<close>

lemma split_lines_nonempty [simp]: "split_lines s \<noteq> []"
  by (induction s) (auto split: list.splits)

lemma Join_split [simp]: "Join (split_lines s) [nl] = s"
proof (induction s)
  case (Cons c s)
  obtain l ls where l: "split_lines s = l # ls" by (cases "split_lines s") auto
  show ?case
  proof (cases "c = nl")
    case True
    then show ?thesis using Cons l by simp
  next
    case False
    then show ?thesis using Cons l by (cases ls) auto
  qed
qed simp

lemma split_lines_sep: "split_lines (u @ nl # t) = split_lines u @ split_lines t"
proof (induction u)
  case (Cons c u)
  then show ?case by (cases "split_lines u") (auto simp: split_lines_nonempty [of u, simplified])
qed simp

text \<open>The text in front of a heading, all of it when the heading is absent.\<close>

definition before_heading :: "string \<Rightarrow> string \<Rightarrow> string" where
  "before_heading body heading = Join (takeWhile (\<lambda>l. TrimSpace l \<noteq> heading) (split_lines body)) [nl]"

lemma trim_right_nl_prefix: "\<exists>v. s = trim_right_nl s @ v"
proof -
  have "rev s = takeWhile (\<lambda>c. c = nl) (rev s) @ dropWhile (\<lambda>c. c = nl) (rev s)" by simp
  then have "s = trim_right_nl s @ rev (takeWhile (\<lambda>c. c = nl) (rev s))"
    unfolding trim_right_nl_def by (metis rev_append rev_rev_ident)
  then show ?thesis by blast
qed

lemma trim_right_nl_stop: "t \<noteq> [] \<Longrightarrow> last t \<noteq> nl \<Longrightarrow> trim_right_nl t = t"
  by (cases t rule: rev_cases) (auto simp: trim_right_nl_def)

lemma trim_right_nl_append: "s \<noteq> [] \<Longrightarrow> last s \<noteq> nl \<Longrightarrow> trim_right_nl (s @ t) = s @ trim_right_nl t"
  by (cases s rule: rev_cases) (auto simp: trim_right_nl_def dropWhile_append)

lemma trim_right_nl_hd: "trim_right_nl t \<noteq> [] \<Longrightarrow> hd (trim_right_nl t) = hd t"
  using trim_right_nl_prefix [of t] by (metis hd_append2)

lemma trim_right_nl_snoc [simp]: "trim_right_nl (s @ [nl]) = trim_right_nl s"
  by (simp add: trim_right_nl_def)

text \<open>What a replacement that is not blank leaves: the text before, the section, and the rest behind an empty line.\<close>

lemma replaceSection_shape:
  assumes "TrimSpace r \<noteq> []" and "last (TrimSpace r) \<noteq> nl"
  obtains sep rest where "replaceSection body heading r = trim_right_nl (before_heading body heading) @ sep @ TrimSpace r @ rest"
    and "sep = [nl, nl] \<or> sep = [] \<and> trim_right_nl (before_heading body heading) = []" and "rest \<noteq> []" "hd rest = nl"
proof -
  let ?ls = "split_lines body" and ?P = "\<lambda>l. TrimSpace l \<noteq> heading"
  show ?thesis
  proof (cases "drop (length (takeWhile ?P ?ls)) ?ls")
    case Nil
    then have "takeWhile ?P ?ls = ?ls" by (metis append_Nil2 append_take_drop_id dropWhile_eq_drop takeWhile_dropWhile_id)
    then have "before_heading body heading = body" unfolding before_heading_def by (simp only: Join_split)
    then show ?thesis using Nil assms that [of "[nl, nl]" "[nl]"] by (simp add: replaceSection_def Let_def)
  next
    case (Cons h later)
    let ?tail = "Join (dropWhile (\<lambda>l. \<not> HasPrefix l h2) later) [nl]"
    let ?b0 = "trim_right_nl (before_heading body heading)"
    let ?sep = "if ?b0 \<noteq> [] then [nl, nl] else []"
    let ?more = "if TrimSpace ?tail \<noteq> [] then [nl, nl] @ trim_left_nl ?tail else []"
    have r: "replaceSection body heading r = trim_right_nl ((?b0 @ ?sep @ TrimSpace r) @ ?more) @ [nl]"
      using Cons assms by (simp add: replaceSection_def Let_def before_heading_def)
    have v: "trim_right_nl ((?b0 @ ?sep @ TrimSpace r) @ ?more) = (?b0 @ ?sep @ TrimSpace r) @ trim_right_nl ?more"
      using assms by (intro trim_right_nl_append) auto
    have "trim_right_nl ?more = [] \<or> hd (trim_right_nl ?more) = nl"
      using trim_right_nl_hd [of ?more] by (auto simp: trim_right_nl_def)
    then show ?thesis using r v that [of ?sep "trim_right_nl ?more @ [nl]"] by (cases "trim_right_nl ?more") (auto split: if_splits)
  qed
qed

section \<open>The stamped block\<close>

definition no_fence :: "string \<Rightarrow> bool" where
  "no_fence s \<longleftrightarrow> \<not> HasPrefix s yaml_open \<and> Index s (nl # yaml_open) = None"

lemma no_fence_prefix: "no_fence (u @ v) \<Longrightarrow> no_fence u"
  using HasPrefix_mono Index_None_prefix by (auto simp: no_fence_def)

definition section_core :: "string \<Rightarrow> string" where
  "section_core block = workflow_heading @ [nl, nl] @ yaml_open @ [nl] @ trim_right_nl block @ [nl] @ yaml_fence"

lemma space_len_hash: "space_len (CHR ''#'' # s) = 0"
  by (cases s rule: remdups_adj.cases) (auto simp: ascii_space_def space2_def space3_def)

lemma space_len_rev_tick: "space_len_rev (CHR 0x60 # s) = 0"
  by (cases s rule: remdups_adj.cases) (auto simp: ascii_space_def space2_def space3_def)

lemma TrimSpace_section: "TrimSpace (workflow_section block) = section_core block"
proof -
  obtain x where x: "section_core block = CHR ''#'' # x" by (simp add: section_core_def workflow_heading_def)
  obtain y where y: "rev (section_core block) = CHR 0x60 # y" by (simp add: section_core_def yaml_fence_def)
  have "workflow_section block = section_core block @ [nl]" by (simp add: workflow_section_def section_core_def)
  moreover have "trim_with space_len (section_core block @ [nl]) = section_core block @ [nl]"
    using space_len_hash by (simp add: x)
  moreover have "trim_with space_len_rev (nl # rev (section_core block)) = rev (section_core block)"
    unfolding y using space_len_rev_tick [of y] by (cases y rule: remdups_adj.cases) (auto simp: ascii_space_def)
  ultimately show ?thesis by (simp add: TrimSpace_def)
qed

lemma extract_stamped:
  assumes "no_fence (before_heading body workflow_heading)" and "Index block (nl # yaml_fence) = None"
  shows "extractYAMLBlock (replaceSection body workflow_heading (workflow_section block)) = Inr (trim_right_nl block)"
proof -
  let ?b0 = "trim_right_nl (before_heading body workflow_heading)" and ?p = "nl # yaml_open"
  have core: "TrimSpace (workflow_section block) \<noteq> []" "last (TrimSpace (workflow_section block)) \<noteq> nl"
    by (simp_all add: TrimSpace_section section_core_def yaml_fence_def)
  obtain sep rest where b: "replaceSection body workflow_heading (workflow_section block) = ?b0 @ sep @ section_core block @ rest"
    and sep: "sep = [nl, nl] \<or> sep = [] \<and> ?b0 = []"
    using replaceSection_shape [OF core] unfolding TrimSpace_section by metis
  let ?pre = "?b0 @ sep @ workflow_heading @ [nl]"
  let ?post = "trim_right_nl block @ nl # yaml_fence @ rest"
  have all: "replaceSection body workflow_heading (workflow_section block) = ?pre @ nl # yaml_open @ nl # ?post"
    using b by (simp add: section_core_def)
  have b0: "no_fence ?b0" using assms(1) trim_right_nl_prefix no_fence_prefix by metis
  have nls: "nl \<notin> set yaml_open" "nl \<notin> set yaml_fence" by (simp_all add: yaml_open_def yaml_fence_def)
  have "\<not> HasPrefix (?pre @ nl # yaml_open @ nl # ?post) yaml_open"
  proof (cases "?b0 = []")
    case True
    then show ?thesis using sep by (auto simp: yaml_open_def workflow_heading_def)
  next
    case False
    then show ?thesis using sep b0 HasPrefix_sep [OF nls(1), of ?b0] by (simp add: no_fence_def)
  qed
  moreover have "Index ?pre ?p = None"
  proof -
    have "Index (nl # nl # workflow_heading @ [nl]) ?p = None" "Index (workflow_heading @ [nl]) ?p = None" by code_simp+
    then show ?thesis using sep b0 Index_sep [OF nls(1), of ?b0 "nl # workflow_heading @ [nl]"] by (auto simp: no_fence_def)
  qed
  then have "Index (?pre @ nl # yaml_open @ nl # ?post) ?p = Some (length ?pre)"
    using Index_sep [OF nls(1), of ?pre "yaml_open @ nl # ?post"] by (simp del: append_assoc)
  moreover have "drop (Suc (length ?pre) + length yaml_open) (?pre @ nl # yaml_open @ nl # ?post) = nl # ?post"
    by simp
  moreover have "Index (trim_right_nl block) (nl # yaml_fence) = None"
    using assms(2) trim_right_nl_prefix [of block] Index_None_prefix by metis
  then have "Index ?post (nl # yaml_fence) = Some (length (trim_right_nl block))"
    using Index_sep [OF nls(2), of "trim_right_nl block" "yaml_fence @ rest"] by simp
  ultimately show ?thesis unfolding all extractYAMLBlock_def
    by (simp add: drop_char_def del: append_assoc)
qed

lemma extracted_unfenced: "extractYAMLBlock s = Inr block \<Longrightarrow> Index block (nl # yaml_fence) = None"
  by (auto simp: extractYAMLBlock_def Let_def intro!: Index_before split: option.splits)

lemma sync_cases:
  assumes "syncEmbeddedWorkflowBody yaml body category sources = Some (name, Inr (b, True))"
  obtains w block where "ResolveGoverningWorkflow yaml category sources = Some (w, name)"
    and "extractYAMLBlock (named_body sources name) = Inr block"
    and "b = replaceSection body workflow_heading (workflow_section block)"
  using assms by (auto simp: syncEmbeddedWorkflowBody_def stampWorkflowSection_def split: option.splits sum.splits if_splits)

text \<open>A block that does not end in an empty line is stamped as it is, so the stamped body reads back as the machine in the first source of that name.\<close>

lemma ParseBody_stamped:
  assumes "no_fence (before_heading body workflow_heading)"
    and "extractYAMLBlock src = Inr block" and "trim_right_nl block = block"
  shows "ParseBody yaml (replaceSection body workflow_heading (workflow_section block)) = ParseBody yaml src"
  using assms(2,3) extract_stamped [OF assms(1) extracted_unfenced [OF assms(2)]] by (simp add: ParseBody_def)

lemma sync_again:
  assumes "ResolveGoverningWorkflow yaml category sources = Some (w, name)"
    and "extractYAMLBlock (named_body sources name) = Inr block" and "ParseBody yaml b = Inr w'"
  shows "syncEmbeddedWorkflowBody yaml b category sources =
    Some (name, Inr (if Equivalent (Some w) (Some w') then (b, False)
      else (replaceSection b workflow_heading (workflow_section block), True)))"
  using assms by (simp add: syncEmbeddedWorkflowBody_def stampWorkflowSection_def)

lemma settled_block:
  "(case extractYAMLBlock s of Inr block \<Rightarrow> trim_right_nl block = block | Inl e \<Rightarrow> False) \<Longrightarrow> \<exists>block. extractYAMLBlock s = Inr block \<and> trim_right_nl block = block"
  by (simp split: sum.splits)

lemma some_stamped:
  "(case r of Some (n, Inr (b, c)) \<Rightarrow> n = m \<and> c | _ \<Rightarrow> False) \<Longrightarrow> \<exists>b. r = Some (m, Inr (b, True))"
  by (cases r) (auto split: sum.splits)




text \<open>
  A shadowed name never settles. The governing workflow is resolved by category, but the block that is stamped is taken
  from the first source of the same name. When that source holds another machine (a local
  file that keeps the name of the workflow it was copied from and covers other categories), the stamped body diverges
  from the governing workflow: the review that has just re-stamped it finds the same drift again, and every later
  stamping writes the body anew.
\<close>

theorem shadowed_name_never_settles:
  assumes "extractYAMLBlock (named_body sources name) = Inr block" and "trim_right_nl block = block"
    and "no_fence (before_heading body workflow_heading)"
    and "syncEmbeddedWorkflowBody yaml body category sources = Some (name, Inr (b, True))"
    and "ResolveGoverningWorkflow yaml category sources = Some (w, name)"
    and "ParseBody yaml (named_body sources name) = Inr w'" and "\<not> Equivalent (Some w) (Some w')"
  shows "\<exists>b2. syncEmbeddedWorkflowBody yaml b category sources = Some (name, Inr (b2, True)) \<and>
    GoverningReconcile yaml [] b status category sources = (edgesFromWorkflow w status, name, EmbeddedDiverges name category)"
proof -
  have b: "b = replaceSection body workflow_heading (workflow_section block)"
    by (rule sync_cases [OF assms(4)]) (use assms(1) in simp)
  have parsed: "ParseBody yaml b = Inr w'" using ParseBody_stamped [OF assms(3,1,2)] assms(6) b by simp
  then show ?thesis
    using sync_again [OF assms(5,1) parsed] assms(5,7) by (simp add: GoverningReconcile_def embedded_diverges_def)
qed

text \<open>Two sources named alike: a local one for chores with a machine of two states, and the shipped one for every category.\<close>

definition chore_machine :: "State list \<times> Transition list" where
  "chore_machine = (filter (\<lambda>s. st_Name s \<in> {''backlog'', ''cancelled''}) (wf_States shipped_workflow),
     filter (\<lambda>t. tr_From t = ''backlog'' \<and> tr_To t = ''cancelled'') (wf_Transitions shipped_workflow))"

definition two_yaml :: yaml_codec where
  "two_yaml = \<lparr>yaml_frontmatter = (\<lambda>s. Some zeroFrontmatter),
     yaml_workflow_fm = (\<lambda>s. Some (''w'', [if HasPrefix s ''chore'' then ''chore'' else ''*''])),
     yaml_machine = (\<lambda>s. Some (if HasPrefix s ''c'' then chore_machine else (wf_States shipped_workflow, wf_Transitions shipped_workflow)))\<rparr>"

definition workflow_file :: "string \<Rightarrow> string \<Rightarrow> WorkflowSource" where
  "workflow_file fm block = \<lparr>ws_Name = ''w'', ws_Body = ''---'' @ [nl] @ fm @ [nl] @ ''---'' @ [nl] @ yaml_open @ [nl] @ block @ [nl] @ yaml_fence @ [nl]\<rparr>"

definition two_sources :: "WorkflowSource list" where
  "two_sources = [workflow_file ''chore'' ''c'', workflow_file ''all'' ''s'']"

lemma two_settled: "case extractYAMLBlock (named_body two_sources ''w'') of Inr block \<Rightarrow> trim_right_nl block = block | Inl e \<Rightarrow> False"
  by code_simp

theorem shadowed_name_never_settles_witness:
  "\<exists>b b2. syncEmbeddedWorkflowBody two_yaml ''Fix it'' ''bug'' two_sources = Some (''w'', Inr (b, True)) \<and>
     syncEmbeddedWorkflowBody two_yaml b ''bug'' two_sources = Some (''w'', Inr (b2, True))"
proof -
  obtain block where 1: "extractYAMLBlock (named_body two_sources ''w'') = Inr block" "trim_right_nl block = block"
    using settled_block [OF two_settled] by blast
  have 2: "no_fence (before_heading ''Fix it'' workflow_heading)" by code_simp
  have 3: "case syncEmbeddedWorkflowBody two_yaml ''Fix it'' ''bug'' two_sources of
      Some (n, Inr (b, c)) \<Rightarrow> n = ''w'' \<and> c | _ \<Rightarrow> False" by code_simp
  obtain b where b: "syncEmbeddedWorkflowBody two_yaml ''Fix it'' ''bug'' two_sources = Some (''w'', Inr (b, True))"
    using some_stamped [OF 3] by blast
  have 4: "case ResolveGoverningWorkflow two_yaml ''bug'' two_sources of Some (w, n) \<Rightarrow> n = ''w'' \<and>
      (case ParseBody two_yaml (named_body two_sources ''w'') of Inr w' \<Rightarrow> \<not> Equivalent (Some w) (Some w') | Inl e \<Rightarrow> False)
    | None \<Rightarrow> False" by code_simp
  then obtain w w' where w: "ResolveGoverningWorkflow two_yaml ''bug'' two_sources = Some (w, ''w'')"
    "ParseBody two_yaml (named_body two_sources ''w'') = Inr w'" "\<not> Equivalent (Some w) (Some w')"
    by (auto split: option.splits sum.splits)
  show ?thesis using shadowed_name_never_settles [OF 1 2 b w] b by blast
qed

end
