(* ===== verification/StoryReview.thy ===== *)
theory StoryReview
  imports Embedding Engagement GateOutput DocReads
begin

text \<open>
  \<^verbatim>\<open>satellites story status_transition\<close>: \<open>runReview\<close> of \<^verbatim>\<open>internal/cli/cmd_story_review.go\<close>
  with everything it calls in that file, and \<open>StageReview\<close> of \<^verbatim>\<open>internal/verb/summariser.go\<close>. The client
  resolves the governing workflow, claims the story in the local store, runs the gate or the command of the state,
  appends the rows of the transition to the server's ledger, reads the status back and flushes its inbox.

  The state is the pair of the local store and the server. The server is reached through the functions of
  \<open>remote\<close>, each of which may fail; the gate, the reviewers, the command of a state and the JSON
  codec are functions of \<open>review_env\<close>; \<open>now\<close> gives the successive readings of the clock. What is
  printed is not modelled, but for the outcome.
\<close>

section \<open>What the review reads\<close>

record reviewStory =
  rt_ID :: string
  rt_Type :: string
  rt_Status :: string
  rt_Category :: string
  rt_ProjectID :: string
  rt_WorkspaceID :: string
  rt_Tags :: "string list"

record reviewOpts =
  ro_StoryID :: string
  ro_Skill :: string
  ro_Checkpoint :: bool
  ro_Explain :: bool

text \<open>The calls of the server: document_get, ledger_append, document_upsert of a body, ledger_list,
  variable_get, document_get of the project's configuration, and the event append of the flush.\<close>

record 'srv remote =
  rm_get :: "'srv \<Rightarrow> string \<Rightarrow> DocumentGetResponse option"
  rm_append :: "AppendInput \<Rightarrow> 'srv \<Rightarrow> 'srv option"
  rm_body :: "string \<Rightarrow> string \<Rightarrow> 'srv \<Rightarrow> 'srv option"
  rm_list :: "'srv \<Rightarrow> LedgerFilter \<Rightarrow> cursor \<Rightarrow> ledger_error + Entry list \<times> cursor"
  rm_variable :: "'srv \<Rightarrow> string \<Rightarrow> string \<Rightarrow> string option"
  rm_config :: "'srv \<Rightarrow> string \<Rightarrow> string \<Rightarrow> DocumentGetResponse option"
  rm_event :: "LoggedEvent \<Rightarrow> 'srv \<Rightarrow> bool \<times> 'srv"

datatype recent = FromInbox "InboxMessage list" | FromLedger "Entry list"

record StageReviewOutput =
  so_Decision :: string
  so_Summary :: string
  so_Notes :: string

record review_env =
  re_yaml :: yaml_codec
  re_tiers :: tiers
  re_claimant :: string
  re_session :: string
  re_fuel :: nat
  re_gate :: gate_env
  re_model :: string
  re_gate_input :: "string \<Rightarrow> reviewStory \<Rightarrow> string \<Rightarrow> recent \<Rightarrow> string"
  re_stage_json :: "string \<Rightarrow> StageReviewOutput option"
  re_stage_input :: "string \<Rightarrow> reviewStory \<Rightarrow> string \<Rightarrow> recent \<Rightarrow> string"
  re_command :: "string \<Rightarrow> string option \<times> string"
  re_quote :: "string \<Rightarrow> string"
  re_encode :: "payload \<Rightarrow> string"
  re_decode :: "string \<Rightarrow> payload option"
  re_config :: "string \<Rightarrow> string option"
  re_system :: "WorkflowSource list"
  re_clock :: int
  re_marks :: bool

datatype review_error =
    StoryIdMissing
  | BothActions
  | NoAction
  | StoryUnresolved
  | NotStoryOrTask string
  | SelectorDangles string
  | SelectorMismatch string string
  | OperatorsTurn string
  | ClaimRefused ws_error
  | CheckpointNeeded string string string
  | NothingToCheckpoint string "hint list"
  | LoopExhausted string int int string
  | ActorNoEdges string
  | ActorNoCommand string
  | GateDispatchFailed gate_error
  | EnactmentFailed plan_error
  | NothingEnacted string string string
  | OutOfFuel

datatype review_outcome =
    Explained ExplainResult
  | CheckpointDone string
  | Reviewed string string

definition gateDispatchTimeout :: int where "gateDispatchTimeout = 15 * 60 * second"

definition summariserTimeout :: int where "summariserTimeout = 5 * 60 * second"

definition claimLeaseTTL :: int where "claimLeaseTTL = gateDispatchTimeout + summariserTimeout + 5 * 60 * second"

definition first_body :: "DocumentGetResponse \<Rightarrow> string" where
  "first_body resp = (if rg_RawBody resp = [] then (case rg_Versions resp of [] \<Rightarrow> [] | v # vs \<Rightarrow> vn_Body v) else rg_RawBody resp)"

definition reviewGetStory :: "'srv remote \<Rightarrow> string \<Rightarrow> 'srv \<Rightarrow> review_error + reviewStory \<times> string" where
  "reviewGetStory rm storyID srv =
     (case rm_get rm srv storyID of
        None \<Rightarrow> Inl StoryUnresolved
      | Some resp \<Rightarrow>
          (let d = rg_Document resp in
           if dc_Type d \<noteq> ''story'' \<and> dc_Type d \<noteq> ''task'' then Inl (NotStoryOrTask (dc_Type d))
           else Inr (\<lparr>rt_ID = dc_ID d, rt_Type = dc_Type d, rt_Status = dc_Status d, rt_Category = dc_Category d,
             rt_ProjectID = dc_ProjectID d, rt_WorkspaceID = dc_WorkspaceID d, rt_Tags = dc_Tags d\<rparr>, first_body resp)))"

definition reviewObserveStatus :: "'srv remote \<Rightarrow> string \<Rightarrow> 'srv \<Rightarrow> string" where
  "reviewObserveStatus rm storyID srv =
     (case rm_get rm srv storyID of None \<Rightarrow> [] | Some resp \<Rightarrow> dc_Status (rg_Document resp))"

definition append_row :: "reviewStory \<Rightarrow> string \<Rightarrow> string \<Rightarrow> payload \<Rightarrow> AppendInput" where
  "append_row story kind body payload =
     \<lparr>an_StoryID = rt_ID story, an_ProjectID = rt_ProjectID story, an_WorkspaceID = rt_WorkspaceID story,
      an_SessionID = [], an_RunID = [], an_Kind = kind, an_Actor = [], an_Body = body, an_Payload = payload, an_Refs = []\<rparr>"

text \<open>A failed append is printed and forgotten.\<close>

definition reviewAppendLedger :: "'srv remote \<Rightarrow> reviewStory \<Rightarrow> string \<Rightarrow> string \<Rightarrow> payload \<Rightarrow> 'srv \<Rightarrow> 'srv" where
  "reviewAppendLedger rm story kind body payload srv =
     (case rm_append rm (append_row story kind body payload) srv of None \<Rightarrow> srv | Some srv' \<Rightarrow> srv')"

text \<open>At most five rows: the tail of the inbox, else the tail of the first page of the ledger.\<close>

definition last_five :: "'a list \<Rightarrow> 'a list" where
  "last_five xs = (if length xs > 5 then drop (length xs - 5) xs else xs)"

definition recentGateLedger :: "'srv remote \<Rightarrow> string \<Rightarrow> workstate \<times> 'srv \<Rightarrow> recent" where
  "recentGateLedger rm storyID st =
     (let msgs = InboxReadRecent (fst st) storyID 5 in
      if msgs \<noteq> [] then FromInbox (last_five msgs)
      else FromLedger (last_five (case rm_list rm (snd st) (anyEntry\<lparr>lf_StoryID := storyID\<rparr>) NoCursor of
        Inl e \<Rightarrow> [] | Inr (es, c) \<Rightarrow> es)))"

section \<open>The bound of the fail loop\<close>

text \<open>\<open>strconv.Atoi\<close>: an optional sign and decimal digits in the range of 64 bits.\<close>

definition Atoi :: "string \<Rightarrow> int option" where
  "Atoi s =
     (let (neg, ds) = (case s of c # r \<Rightarrow> (if c = CHR ''-'' then (True, r) else if c = CHR ''+'' then (False, r) else (False, s))
                                | [] \<Rightarrow> (False, [])) in
      if ds = [] \<or> (\<exists>c \<in> set ds. \<not> is_digit c) then None
      else let n = (if neg then - int (digits_value ds) else int (digits_value ds)) in
        if int64 n then Some n else None)"

definition parseMaxIterations :: "string \<Rightarrow> int" where
  "parseMaxIterations v = (case Atoi (TrimSpace v) of None \<Rightarrow> 0 | Some n \<Rightarrow> (if n \<le> 0 then 0 else n))"

definition resolveWorkflowMaxIterations :: "'srv remote \<Rightarrow> reviewStory \<Rightarrow> 'srv \<Rightarrow> int" where
  "resolveWorkflowMaxIterations rm story srv =
     (if TrimSpace (rt_ProjectID story) = [] \<or> TrimSpace (rt_WorkspaceID story) = [] then 0
      else case rm_variable rm srv (rt_ProjectID story) (rt_WorkspaceID story) of
        None \<Rightarrow> 0 | Some v \<Rightarrow> parseMaxIterations v)"

definition reviewStepSummariserSkill :: "review_env \<Rightarrow> 'srv remote \<Rightarrow> reviewStory \<Rightarrow> 'srv \<Rightarrow> string" where
  "reviewStepSummariserSkill env rm story srv =
     (case rm_config rm srv (rt_ProjectID story) (rt_WorkspaceID story) of
        None \<Rightarrow> []
      | Some resp \<Rightarrow> (case re_config env (first_body resp) of None \<Rightarrow> [] | Some s \<Rightarrow> TrimSpace s))"

section \<open>Which action applies\<close>

definition checkpointDecision ::
  "bool \<Rightarrow> bool \<Rightarrow> bool \<Rightarrow> string \<Rightarrow> string \<Rightarrow> string \<Rightarrow> hint list \<Rightarrow> review_error + bool" where
  "checkpointDecision wantCheckpoint isCheckpointState gateMatchesEdge status cpTo gateSkill edgesHint =
     (if isCheckpointState \<and> \<not> wantCheckpoint \<and> gateMatchesEdge then Inr False
      else if isCheckpointState \<and> wantCheckpoint then Inr True
      else if isCheckpointState \<and> \<not> wantCheckpoint then Inl (CheckpointNeeded status cpTo gateSkill)
      else if \<not> isCheckpointState \<and> wantCheckpoint then Inl (NothingToCheckpoint status edgesHint)
      else Inr False)"

definition enactMismatch :: "string \<Rightarrow> bool \<Rightarrow> bool \<Rightarrow> string \<Rightarrow> string \<Rightarrow> string \<Rightarrow> review_error option" where
  "enactMismatch decision clientEnacted outOfBand gate workflow status =
     (if decision \<noteq> GateDecisionAccept then None
      else if clientEnacted then None
      else if outOfBand then None
      else Some (NothingEnacted gate (or_else (TrimSpace workflow) ''(category default)'') status))"

section \<open>Judging\<close>

definition ellipsis :: string where "ellipsis = [CHR 0xE2, CHR 0x80, CHR 0xA6]"

definition output_tail :: "string \<Rightarrow> string" where
  "output_tail out = (let t = TrimSpace out in if length t > 1000 then ellipsis @ drop (length t - 1000) t else t)"

text \<open>The command of a state: \<^const>\<open>None\<close> is exit code zero, else the error; the decision is the exit alone.\<close>

definition runSatellitesActorCommand :: "review_env \<Rightarrow> string \<Rightarrow> GateDecisionOutput" where
  "runSatellitesActorCommand env command =
     (case re_command env command of
        (None, out) \<Rightarrow> \<lparr>go_Decision = GateDecisionAccept,
           go_Notes = ''satellites-actor command '' @ re_quote env command @ '' exit 0'' @ [nl] @ output_tail out\<rparr>
      | (Some err, out) \<Rightarrow> \<lparr>go_Decision = GateDecisionReject,
           go_Notes = ''satellites-actor command '' @ re_quote env command @ '' failed ('' @ err @ '')'' @ [nl] @ output_tail out\<rparr>)"

definition summariserAllowedTools :: string where "summariserAllowedTools = ''Read Grep Glob''"

fun pick_stage ::
  "(string \<Rightarrow> StageReviewOutput option) \<Rightarrow> StageReviewOutput option \<Rightarrow> string \<Rightarrow> string list \<Rightarrow> StageReviewOutput option \<times> string" where
  "pick_stage unmarshal found bad [] = (found, bad)"
| "pick_stage unmarshal found bad (b # bs) =
     (case unmarshal b of
        None \<Rightarrow> pick_stage unmarshal found bad bs
      | Some out \<Rightarrow>
          (if so_Decision out = GateDecisionAccept \<or> so_Decision out = GateDecisionReject
             then pick_stage unmarshal (Some out) bad bs
           else if so_Decision out \<noteq> [] then pick_stage unmarshal found (so_Decision out) bs
           else pick_stage unmarshal found bad bs))"

definition ParseStageOutput :: "(string \<Rightarrow> StageReviewOutput option) \<Rightarrow> string \<Rightarrow> gate_error + StageReviewOutput" where
  "ParseStageOutput unmarshal raw =
     (let (found, bad) = pick_stage unmarshal None [] (balancedObjects (strip_fence (TrimSpace raw)))
      in case found of
           Some out \<Rightarrow> Inr out
         | None \<Rightarrow> (if bad \<noteq> [] then Inl (InvalidDecision bad) else Inl NoDecisionObject))"

definition StageReview :: "review_env \<Rightarrow> string \<Rightarrow> string \<Rightarrow> gate_error + StageReviewOutput" where
  "StageReview env skillName payload =
     (if TrimSpace skillName = [] then Inl SkillNameRequired
      else case resolveSkillEmbedLocalServer (ge_sources (re_gate env)) skillName of
        Inl e \<Rightarrow> Inl e
      | Inr (fm, systemPrompt) \<Rightarrow>
          (case ge_claude (re_gate env) (claudeArgs systemPrompt summariserAllowedTools (re_model env)) payload of
             None \<Rightarrow> Inl SubprocessFailed
           | Some out \<Rightarrow> ParseStageOutput (re_stage_json env) out))"

definition defaultStageReviewerSkill :: string where "defaultStageReviewerSkill = ''satellites-story-stage-summary''"

definition stage_skill :: "string \<Rightarrow> string" where
  "stage_skill summariserSkill =
     (if summariserSkill = [] \<or> summariserSkill = ''satellites-story-summary'' then defaultStageReviewerSkill else summariserSkill)"

text \<open>An accepted verdict is put before the stage reviewer, whose rejection replaces it; its failure does not.\<close>

definition stage_review ::
  "review_env \<Rightarrow> string \<Rightarrow> string \<Rightarrow> string \<Rightarrow> GateDecisionOutput \<Rightarrow> GateDecisionOutput \<times> string" where
  "stage_review env actor skill payload out =
     (if go_Decision out = GateDecisionAccept \<and> actor \<noteq> ''satellites'' \<and> skill \<noteq> [] then
        (case StageReview env skill payload of
           Inl e \<Rightarrow> (out, [])
         | Inr sr \<Rightarrow>
             (if so_Decision sr = GateDecisionReject then
                (\<lparr>go_Decision = GateDecisionReject,
                  go_Notes = (if TrimSpace (so_Notes sr) \<noteq> [] then ''stage review: '' @ TrimSpace (so_Notes sr)
                              else ''stage review: required stage data missing'')\<rparr>, [])
              else (out, so_Summary sr)))
      else (out, []))"

definition judge ::
  "review_env \<Rightarrow> V2Edges \<Rightarrow> string \<Rightarrow> string \<Rightarrow> string \<Rightarrow> review_error + GateDecisionOutput" where
  "judge env es status gateSkill payload =
     (if v2_Actor es = ''satellites'' then
        (if \<not> v2_IsV2 es then Inl (ActorNoEdges status)
         else if v2_Command es = [] then Inl (ActorNoCommand status)
         else Inr (runSatellitesActorCommand env (v2_Command es)))
      else map_sum GateDispatchFailed id
        (snd (Dispatch (re_gate env) \<lparr>dp_Model = re_model env, dp_ReadOnly = False\<rparr> gateSkill payload)))"

section \<open>Enacting\<close>

definition append_rows :: "'srv remote \<Rightarrow> reviewStory \<Rightarrow> PlannedRow list \<Rightarrow> 'srv \<Rightarrow> 'srv" where
  "append_rows rm story rows srv = fold (\<lambda>r. reviewAppendLedger rm story (pr_Kind r) (pr_Body r) (pr_Payload r)) rows srv"

definition v1_rows :: "string \<Rightarrow> string \<Rightarrow> string \<Rightarrow> GateDecisionOutput \<Rightarrow> PlannedRow list" where
  "v1_rows from_s to gate out =
     (if go_Decision out = GateDecisionAccept then
        [\<lparr>pr_Kind = ''review_accept'', pr_Body = go_Notes out,
           pr_Payload = [(''from_status'', JStr from_s), (''to_status'', JStr to), (''gate'', JStr gate)]\<rparr>,
         \<lparr>pr_Kind = ''status_transition'', pr_Body = from_s @ arrow @ to,
           pr_Payload = [(''from_status'', JStr from_s), (''to_status'', JStr to), (''gate'', JStr gate)]\<rparr>]
      else if go_Decision out = GateDecisionReject then
        [\<lparr>pr_Kind = ''review_reject'', pr_Body = go_Notes out,
           pr_Payload = [(''from_status'', JStr from_s), (''gate'', JStr gate)]\<rparr>]
      else [])"

text \<open>The rows of the verdict, and whether the client takes the edge for enacted.\<close>

definition enactment ::
  "V2Edges \<Rightarrow> bool \<Rightarrow> string option \<Rightarrow> string \<Rightarrow> string \<Rightarrow> int \<Rightarrow> GateDecisionOutput \<Rightarrow> review_error + PlannedRow list \<times> bool" where
  "enactment es enactV2 gated status gateSkill priorRejects out =
     (if enactV2 then
        (case PlanV2Enactment (go_Decision out) gateSkill status (go_Notes out) es priorRejects of
           Inl e \<Rightarrow> Inl (EnactmentFailed e)
         | Inr plan \<Rightarrow> Inr (vp_Rows plan, True))
      else if \<not> v2_IsV2 es then
        (case gated of
           None \<Rightarrow> Inr ([], False)
         | Some to \<Rightarrow> Inr (v1_rows status to gateSkill out,
             go_Decision out = GateDecisionAccept \<or> go_Decision out = GateDecisionReject))
      else Inr ([], False))"

section \<open>The inbox\<close>

definition put_field :: "payload \<Rightarrow> string \<times> jval \<Rightarrow> payload" where
  "put_field p kv = filter (\<lambda>(k, v). k \<noteq> fst kv) p @ [kv]"

definition flush_payload :: "review_env \<Rightarrow> InboxMessage \<Rightarrow> payload" where
  "flush_payload env m =
     (let p = [(''local_ref'', JInt (im_Seq m))] in
      case im_Payload m of
        None \<Rightarrow> p
      | Some raw \<Rightarrow> (case re_decode env raw of None \<Rightarrow> p | Some orig \<Rightarrow> foldl put_field p orig))"

fun flush_inbox ::
  "review_env \<Rightarrow> 'srv remote \<Rightarrow> reviewStory \<Rightarrow> int \<Rightarrow> InboxMessage list \<Rightarrow> nat \<Rightarrow> int \<Rightarrow> 'srv \<Rightarrow> nat \<times> int \<times> 'srv" where
  "flush_inbox env rm story mark [] flushed maxSeq srv = (flushed, maxSeq, srv)"
| "flush_inbox env rm story mark (m # ms) flushed maxSeq srv =
     (if im_Seq m \<le> mark then flush_inbox env rm story mark ms flushed maxSeq srv
      else flush_inbox env rm story mark ms (Suc flushed) (if im_Seq m > maxSeq then im_Seq m else maxSeq)
             (reviewAppendLedger rm story (im_Kind m) (im_Body m) (flush_payload env m) srv))"

definition flushLocalInbox :: "review_env \<Rightarrow> 'srv remote \<Rightarrow> reviewStory \<Rightarrow> workstate \<times> 'srv \<Rightarrow> workstate \<times> 'srv" where
  "flushLocalInbox env rm story st =
     (let mark = wc_LastSeq (ReadWorkClaim (fst st) (rt_ID story));
          (flushed, maxSeq, srv) = flush_inbox env rm story mark (InboxReadAll (fst st) (rt_ID story)) 0 mark (snd st)
      in if flushed > 0 then (kept_unless (fst st) (AdvanceInboxFlush (rt_ID story) maxSeq (fst st)), srv)
         else (fst st, srv))"

section \<open>The review\<close>

definition resolve_editable :: "yaml_codec \<Rightarrow> 'srv remote \<Rightarrow> string \<Rightarrow> string \<Rightarrow> 'srv \<Rightarrow> bool" where
  "resolve_editable yaml rm storyID status0 srv =
     (case rm_get rm srv (TrimSpace storyID) of
        None \<Rightarrow> True
      | Some resp \<Rightarrow>
          (let status = (if TrimSpace status0 = [] then dc_Status (rg_Document resp) else status0) in
           case ParseBody yaml (first_body resp) of
             Inl e \<Rightarrow> True
           | Inr w \<Rightarrow> (if TrimSpace status = [] \<or> \<not> hasState w status then True else IsEditable w status)))"

text \<open>A drifted copy in the story is stamped anew; a failed stamping leaves the body and the edges.\<close>

definition self_heal ::
  "review_env \<Rightarrow> 'srv remote \<Rightarrow> string \<Rightarrow> reviewStory \<Rightarrow> string \<Rightarrow> 'srv \<Rightarrow> (string \<times> V2Edges \<times> string) \<times> 'srv" where
  "self_heal env rm selector story body srv =
     (let sources = governingWorkflowSources (re_tiers env);
          (es, governing, d) = GoverningReconcile (re_yaml env) selector body (rt_Status story) (rt_Category story) sources
      in if d = NoDrift then ((body, es, governing), srv)
         else case reembedGoverningWorkflow (re_yaml env) (rm_body rm (rt_ID story)) body (rt_Category story) sources srv of
           (Restamped n b, srv') \<Rightarrow>
             (let (es', governing', d') = GoverningReconcile (re_yaml env) selector b (rt_Status story) (rt_Category story) sources
              in ((b, es', governing'), srv'))
         | (o', srv') \<Rightarrow> ((body, es, governing), srv'))"

text \<open>After the verdict: the status is read back, the engagement refreshed, the run recorded, the inbox flushed.\<close>

definition refreshed ::
  "review_env \<Rightarrow> 'srv remote \<Rightarrow> reviewStory \<Rightarrow> string \<Rightarrow> int \<Rightarrow> workstate \<times> 'srv \<Rightarrow> workstate \<times> 'srv" where
  "refreshed env rm story observed now st =
     (let editable = resolve_editable (re_yaml env) rm (rt_ID story) observed (snd st);
          ws = kept_unless (fst st) (map_sum id snd
            (refreshEngagementPhase (re_session env) (rt_ID story) observed editable False now (fst st)));
          (n, ws', srv) = runWorkSync (rm_event rm) (re_marks env) ws (snd st)
      in (ws', srv))"

definition evidence_of :: "reviewStory \<Rightarrow> string \<Rightarrow> GateDecisionOutput \<Rightarrow> string \<Rightarrow> int \<Rightarrow> Evidence" where
  "evidence_of story gateSkill out observed now = \<lparr>qe_Story = rt_ID story, qe_Kind = ''gate'', qe_Label = gateSkill,
     qe_Decision = go_Decision out, qe_Notes = go_Notes out, qe_FromStatus = rt_Status story, qe_ToStatus = observed,
     qe_Ref = [], qe_TS = Some now\<rparr>"

definition record_summary ::
  "review_env \<Rightarrow> reviewStory \<Rightarrow> string \<Rightarrow> string \<Rightarrow> GateDecisionOutput \<Rightarrow> string \<Rightarrow> int \<Rightarrow> workstate \<Rightarrow> workstate" where
  "record_summary env story gateSkill observed out summary now ws =
     (if TrimSpace summary = [] then ws
      else kept_unless ws (map_sum id snd (InboxAppend (re_clock env) (rt_ID story) ''step_summary'' summary
        (re_encode env [(''from_status'', JStr (rt_Status story)), (''to_status'', JStr (or_else observed (rt_Status story))),
           (''gate_skill'', JStr gateSkill), (''decision'', JStr (go_Decision out))]) (Some now) ws)))"

definition conclude ::
  "review_env \<Rightarrow> 'srv remote \<Rightarrow> reviewStory \<Rightarrow> string \<Rightarrow> string \<Rightarrow> GateDecisionOutput \<Rightarrow> bool \<Rightarrow> bool \<Rightarrow> string \<Rightarrow>
   (nat \<Rightarrow> int) \<Rightarrow> workstate \<times> 'srv \<Rightarrow> (review_error + review_outcome) \<times> workstate \<times> 'srv" where
  "conclude env rm story governing gateSkill out clientEnacted outOfBand summary now st =
     (let observed = reviewObserveStatus rm (rt_ID story) (snd st);
          moved = (observed \<noteq> [] \<and> observed \<noteq> rt_Status story)
      in case (if moved then None
               else enactMismatch (go_Decision out) clientEnacted outOfBand gateSkill governing (rt_Status story)) of
           Some e \<Rightarrow> (Inl e, st)
         | None \<Rightarrow>
             (let st1 = (if moved then refreshed env rm story observed (now 3) st else st);
                  ws2 = kept_unless (fst st1) (map_sum id snd
                    (RecordEvidence (re_clock env) (evidence_of story gateSkill out observed (now 4)) (fst st1)));
                  ws3 = record_summary env story gateSkill observed out summary (now 5) ws2;
                  st4 = flushLocalInbox env rm story (ws3, snd st1);
                  ws5 = (if isTerminalForCategoryIn (re_yaml env) observed (rt_Category story) (re_system env)
                         then CleanupWork (rt_ID story) (fst st4) else fst st4)
              in (Inr (Reviewed (go_Decision out) observed), (ws5, snd st4))))"

definition judge_and_enact ::
  "review_env \<Rightarrow> 'srv remote \<Rightarrow> string \<Rightarrow> string \<Rightarrow> reviewStory \<Rightarrow> string \<Rightarrow> string \<Rightarrow> V2Edges \<Rightarrow> bool \<Rightarrow> int \<Rightarrow> recent \<Rightarrow> string \<Rightarrow>
   (nat \<Rightarrow> int) \<Rightarrow> workstate \<times> 'srv \<Rightarrow> (review_error + review_outcome) \<times> workstate \<times> 'srv" where
  "judge_and_enact env rm gateSkill selector story body governing es enactV2 priorRejects recent summariser now st =
     (case judge env es (rt_Status story) gateSkill (re_gate_input env gateSkill story body recent) of
        Inl e \<Rightarrow> (Inl e, st)
      | Inr out0 \<Rightarrow>
          (let skill = stage_skill summariser;
               (out, summary) = stage_review env (v2_Actor es) skill (re_stage_input env skill story body recent) out0;
               gated = GoverningGatedEdge (re_yaml env) selector body (rt_Status story) (rt_Category story) gateSkill
                 (governingWorkflowSources (re_tiers env))
           in case enactment es enactV2 gated (rt_Status story) gateSkill priorRejects out of
                Inl e \<Rightarrow> (Inl e, st)
              | Inr (rows, clientEnacted) \<Rightarrow>
                  conclude env rm story governing gateSkill out clientEnacted (v2_IsV2 es \<and> \<not> enactV2) summary now
                    (fst st, append_rows rm story rows (snd st))))"

text \<open>The request is staged and the gate marked as running; the marker is cleared however the judgment ends.\<close>

definition marked :: "review_env \<Rightarrow> reviewStory \<Rightarrow> string \<Rightarrow> (nat \<Rightarrow> int) \<Rightarrow> workstate \<Rightarrow> workstate" where
  "marked env story gateSkill now ws =
     (let ws1 = kept_unless ws (map_sum id snd (InboxAppend (re_clock env) (rt_ID story) ''review_requested''
            (''gate '' @ gateSkill @ '': from '' @ rt_Status story)
            (re_encode env [(''gate'', JStr gateSkill), (''from_status'', JStr (rt_Status story))]) (Some (now 1)) ws))
      in kept_unless ws1 (SetActiveGate (re_clock env) (rt_ID story) (or_else gateSkill ''work-step'') (Some (now 2)) ws1))"

definition run_gate ::
  "review_env \<Rightarrow> 'srv remote \<Rightarrow> string \<Rightarrow> string \<Rightarrow> reviewStory \<Rightarrow> string \<Rightarrow> string \<Rightarrow> V2Edges \<Rightarrow> bool \<Rightarrow> int \<Rightarrow>
   (nat \<Rightarrow> int) \<Rightarrow> workstate \<times> 'srv \<Rightarrow> (review_error + review_outcome) \<times> workstate \<times> 'srv" where
  "run_gate env rm gateSkill selector story body governing es enactV2 priorRejects now st =
     (let summariser = reviewStepSummariserSkill env rm story (snd st);
          recent = recentGateLedger rm (rt_ID story) st;
          (r, ws, srv) = judge_and_enact env rm gateSkill selector story body governing es enactV2 priorRejects recent summariser now
            (marked env story gateSkill now (fst st), snd st)
      in (r, ClearActiveGate (rt_ID story) ws, srv))"

text \<open>\<^const>\<open>None\<close> for the count: the fuel was not enough for the pages of the ledger.\<close>

definition bounded :: "'srv remote \<Rightarrow> reviewStory \<Rightarrow> V2Edges \<Rightarrow> bool \<Rightarrow> 'srv \<Rightarrow> V2Edges" where
  "bounded rm story es enactV2 srv =
     (let kv = resolveWorkflowMaxIterations rm story srv in
      if enactV2 \<and> v2_MaxIterations es > 0 \<and> kv > 0 then es\<lparr>v2_MaxIterations := kv\<rparr> else es)"

definition prior_rejects :: "review_env \<Rightarrow> 'srv remote \<Rightarrow> reviewStory \<Rightarrow> V2Edges \<Rightarrow> bool \<Rightarrow> 'srv \<Rightarrow> int option" where
  "prior_rejects env rm story es enactV2 srv =
     (if enactV2 \<and> v2_MaxIterations es > 0
      then map_option (\<lambda>vs. CountEdgeRejects vs (rt_Status story)) (fullLedgerViews (rm_list rm srv) (re_fuel env) (rt_ID story))
      else Some 0)"

definition dispatch_review ::
  "review_env \<Rightarrow> 'srv remote \<Rightarrow> string \<Rightarrow> string \<Rightarrow> reviewStory \<Rightarrow> string \<Rightarrow> string \<Rightarrow> V2Edges \<Rightarrow> bool \<Rightarrow>
   (nat \<Rightarrow> int) \<Rightarrow> workstate \<times> 'srv \<Rightarrow> (review_error + review_outcome) \<times> workstate \<times> 'srv" where
  "dispatch_review env rm gateSkill selector story body governing es0 enactV2 now st =
     (let es = bounded rm story es0 enactV2 (snd st) in
      case prior_rejects env rm story es enactV2 (snd st) of
        None \<Rightarrow> (Inl OutOfFuel, st)
      | Some prior \<Rightarrow>
          (if enactV2 \<and> v2_MaxIterations es > 0 \<and> prior \<ge> v2_MaxIterations es
           then (Inl (LoopExhausted (rt_Status story) prior (v2_MaxIterations es) (v2_OnExhausted es)), st)
           else run_gate env rm gateSkill selector story body governing es enactV2 prior now st))"

definition checkpoint_row :: "string \<Rightarrow> string \<Rightarrow> payload" where
  "checkpoint_row from_s to = [(''from_status'', JStr from_s), (''to_status'', JStr to), (''trigger'', JStr ''checkpoint'')]"

definition claimed_review ::
  "review_env \<Rightarrow> 'srv remote \<Rightarrow> reviewOpts \<Rightarrow> string \<Rightarrow> string \<Rightarrow> reviewStory \<Rightarrow> string \<Rightarrow> string \<Rightarrow> V2Edges \<Rightarrow> bool \<Rightarrow>
   (nat \<Rightarrow> int) \<Rightarrow> workstate \<times> 'srv \<Rightarrow> (review_error + review_outcome) \<times> workstate \<times> 'srv" where
  "claimed_review env rm opts gateSkill selector story body governing es enactV2 now st =
     (let yaml = re_yaml env; sources = governingWorkflowSources (re_tiers env);
          status = rt_Status story; category = rt_Category story;
          cp = GoverningCheckpoint yaml selector body status category sources;
          isCheckpointState = (cp \<noteq> None \<and> \<not> v2_IsV2 es \<and> v2_Actor es \<noteq> ''operator'');
          cpTo = (case cp of None \<Rightarrow> [] | Some to \<Rightarrow> to);
          gateMatchesEdge = (GoverningGatedEdge yaml selector body status category gateSkill sources \<noteq> None)
      in case checkpointDecision (ro_Checkpoint opts) isCheckpointState gateMatchesEdge status cpTo gateSkill
            (GoverningEdgesHint yaml selector body status category sources) of
           Inl e \<Rightarrow> (Inl e, st)
         | Inr enactCheckpoint \<Rightarrow>
             (if \<not> enactCheckpoint then dispatch_review env rm gateSkill selector story body governing es enactV2 now st
              else
                let srv = reviewAppendLedger rm story ''status_transition'' (status @ arrow @ cpTo @ '' (checkpoint)'')
                      (checkpoint_row status cpTo) (snd st);
                    story' = story\<lparr>rt_Status := cpTo\<rparr>;
                    (es', g, d) = GoverningReconcile yaml selector body cpTo category sources
                in if v2_Actor es' \<noteq> ''satellites''
                   then (Inr (CheckpointDone cpTo), flushLocalInbox env rm story' (fst st, srv))
                   else dispatch_review env rm gateSkill selector story' body governing es' enactV2 now (fst st, srv)))"

definition selector_error :: "yaml_codec \<Rightarrow> string \<Rightarrow> string \<Rightarrow> WorkflowSource list \<Rightarrow> review_error option" where
  "selector_error yaml selector category sources =
     (if selector = [] then None
      else case ResolveByName yaml selector category sources of
        None \<Rightarrow> Some (SelectorDangles selector)
      | Some (w, covers) \<Rightarrow> (if \<not> covers then Some (SelectorMismatch selector category) else None))"

definition action_error :: "reviewOpts \<Rightarrow> review_error option" where
  "action_error opts =
     (let gateSkill = TrimSpace (ro_Skill opts) in
      if ro_Explain opts then None
      else if ro_Checkpoint opts \<and> gateSkill \<noteq> [] then Some BothActions
      else if \<not> ro_Checkpoint opts \<and> gateSkill = [] then Some NoAction else None)"

definition runReview ::
  "review_env \<Rightarrow> 'srv remote \<Rightarrow> reviewOpts \<Rightarrow> (nat \<Rightarrow> int) \<Rightarrow> workstate \<times> 'srv \<Rightarrow> (review_error + review_outcome) \<times> workstate \<times> 'srv" where
  "runReview env rm opts now st =
     (if ro_StoryID opts = [] then (Inl StoryIdMissing, st)
      else case action_error opts of Some e \<Rightarrow> (Inl e, st) | None \<Rightarrow>
        (case reviewGetStory rm (ro_StoryID opts) (snd st) of Inl e \<Rightarrow> (Inl e, st) | Inr (story, body0) \<Rightarrow>
          (let yaml = re_yaml env; sources = governingWorkflowSources (re_tiers env); gateSkill = TrimSpace (ro_Skill opts);
               selector = WorkflowSelector (rt_Tags story) in
           if ro_Explain opts
           then (Inr (Explained (ExplainTransition yaml selector body0 (rt_Status story) (rt_Category story) (ro_Skill opts) sources)), st)
           else case selector_error yaml selector (rt_Category story) sources of Some e \<Rightarrow> (Inl e, st) | None \<Rightarrow>
             (case self_heal env rm selector story body0 (snd st) of ((body, es, governing), srv) \<Rightarrow>
                (let enactV2 = (v2_IsV2 es \<and> GateMatches es gateSkill) in
                 if v2_Actor es = ''operator'' \<and>
                   GoverningGatedEdge yaml selector body (rt_Status story) (rt_Category story) gateSkill sources = None
                 then (Inl (OperatorsTurn (rt_Status story)), (fst st, srv))
                 else case ClaimWork (rt_ID story) (re_claimant env) (rt_Status story) claimLeaseTTL (now 0) (fst st) of
                   Inl e \<Rightarrow> (Inl (ClaimRefused e), (fst st, srv))
                 | Inr ws \<Rightarrow> claimed_review env rm opts gateSkill selector story body governing es enactV2 now (ws, srv))))))"

end
