(* ===== verification/StoryReviewProps.thy ===== *)
theory StoryReviewProps
  imports StoryReview LedgerProps
begin

text \<open>
  What a run of \<open>status_transition\<close> does to the ledger, the store and the story, for every server, every
  gate and every command. The rows that the server accepts are recorded by wrapping it (\<open>logging\<close>).
\<close>

section \<open>Recording the accepted rows\<close>

definition logging :: "'srv remote \<Rightarrow> ('srv \<times> AppendInput list) remote" where
  "logging rm = \<lparr>rm_get = (\<lambda>s. rm_get rm (fst s)),
     rm_append = (\<lambda>a s. map_option (\<lambda>s'. (s', snd s @ [a])) (rm_append rm a (fst s))),
     rm_body = (\<lambda>i b s. map_option (\<lambda>s'. (s', snd s)) (rm_body rm i b (fst s))),
     rm_list = (\<lambda>s. rm_list rm (fst s)),
     rm_variable = (\<lambda>s. rm_variable rm (fst s)),
     rm_config = (\<lambda>s. rm_config rm (fst s)),
     rm_event = (\<lambda>e s. map_prod id (\<lambda>s'. (s', snd s)) (rm_event rm e (fst s)))\<rparr>"

lemma logging_simps [simp]:
  "rm_get (logging rm) s = rm_get rm (fst s)"
  "rm_append (logging rm) a s = map_option (\<lambda>s'. (s', snd s @ [a])) (rm_append rm a (fst s))"
  "rm_body (logging rm) i b s = map_option (\<lambda>s'. (s', snd s)) (rm_body rm i b (fst s))"
  "rm_list (logging rm) s = rm_list rm (fst s)"
  "rm_variable (logging rm) s = rm_variable rm (fst s)"
  "rm_event (logging rm) e s = map_prod id (\<lambda>s'. (s', snd s)) (rm_event rm e (fst s))"
  by (simp_all add: logging_def)

text \<open>The transitions among the rows.\<close>

definition transitions :: "AppendInput list \<Rightarrow> AppendInput list" where
  "transitions rows = filter (\<lambda>a. an_Kind a = statusTransitionKind) rows"

lemma transitions_simps [simp]:
  "transitions [] = []" "transitions (xs @ ys) = transitions xs @ transitions ys"
  "transitions (a # xs) = (if an_Kind a = statusTransitionKind then a # transitions xs else transitions xs)"
  by (simp_all add: transitions_def)

lemma append_row_kind [simp]: "an_Kind (append_row story k b p) = k" "an_Payload (append_row story k b p) = p"
  "an_StoryID (append_row story k b p) = rt_ID story"
  by (simp_all add: append_row_def)

lemma append_logged:
  "snd (reviewAppendLedger (logging rm) story k b p s) = snd s \<or>
   snd (reviewAppendLedger (logging rm) story k b p s) = snd s @ [append_row story k b p]"
  by (auto simp: reviewAppendLedger_def split: option.split)

lemma append_other:
  "k \<noteq> statusTransitionKind \<Longrightarrow> transitions (snd (reviewAppendLedger (logging rm) story k b p s)) = transitions (snd s)"
  using append_logged [of rm story k b p s] by auto

section \<open>The inbox\<close>

text \<open>No transition row is staged for the story.\<close>

definition unstaged :: "string \<Rightarrow> workstate \<Rightarrow> bool" where
  "unstaged i ws \<longleftrightarrow> (\<forall>(q, r) \<in> set (ai_rows (st_inbox ws)). ib_story r = i \<longrightarrow> ib_kind r \<noteq> statusTransitionKind)"

lemma unstaged_read: "unstaged i ws \<Longrightarrow> m \<in> set (InboxReadAll ws i) \<Longrightarrow> im_Kind m \<noteq> statusTransitionKind"
  by (auto simp: unstaged_def InboxReadAll_def inbox_message_def split: prod.splits)

lemma unstaged_inbox: "st_inbox ws' = st_inbox ws \<Longrightarrow> unstaged i ws' = unstaged i ws"
  by (simp add: unstaged_def)

lemma unstaged_append:
  "InboxAppend clock i' k b p t ws = Inr (q, ws') \<Longrightarrow> unstaged i ws \<Longrightarrow> k \<noteq> statusTransitionKind \<Longrightarrow> unstaged i ws'"
  by (auto simp: InboxAppend_def ai_insert_def Let_def unstaged_def split: if_splits)

lemma flush_inbox_transitions:
  "\<forall>m \<in> set ms. im_Kind m \<noteq> statusTransitionKind \<Longrightarrow>
   transitions (snd (snd (snd (flush_inbox env (logging rm) story mark ms n q s)))) = transitions (snd s)"
  by (induction env "logging rm" story mark ms n q s rule: flush_inbox.induct) (auto simp: append_other)

lemma flush_transitions:
  assumes "unstaged (rt_ID story) (fst st)"
  shows "transitions (snd (snd (flushLocalInbox env (logging rm) story st))) = transitions (snd (snd st))"
proof -
  obtain n q s where f: "flush_inbox env (logging rm) story (wc_LastSeq (ReadWorkClaim (fst st) (rt_ID story)))
      (InboxReadAll (fst st) (rt_ID story)) 0 (wc_LastSeq (ReadWorkClaim (fst st) (rt_ID story))) (snd st) = (n, q, s)"
    by (metis prod_cases3)
  have "transitions (snd s) = transitions (snd (snd st))"
    using flush_inbox_transitions [of "InboxReadAll (fst st) (rt_ID story)" env rm story] unstaged_read [OF assms] f by (metis snd_conv)
  then show ?thesis by (simp add: flushLocalInbox_def f Let_def)
qed

section \<open>What does not touch the inbox or the rows\<close>

lemma kept_inbox:
  assumes "\<And>ws'. r = Inr ws' \<Longrightarrow> st_inbox ws' = st_inbox ws"
  shows "st_inbox (kept_unless ws r) = st_inbox ws"
  using assms by (auto simp: kept_unless_def split: sum.split)

lemma sync_inbox: "st_inbox (fst (snd (runWorkSync send m ws s))) = st_inbox ws"
  by (simp add: runWorkSync_def Let_def SetLastFlushedSeq_def split: prod.split)

lemma flush_loop_logged:
  "snd (snd (snd (flush_loop (rm_event (logging rm)) evs n q s))) = snd s"
proof (induction evs arbitrary: n q s)
  case (Cons ev evs)
  obtain ok s' where "rm_event rm ev (fst s) = (ok, s')" by fastforce
  then show ?case using Cons.IH by (cases ok) simp_all
qed simp

lemma sync_logged: "snd (snd (snd (runWorkSync (rm_event (logging rm)) m ws s))) = snd s"
  using flush_loop_logged [of rm] by (simp add: runWorkSync_def Let_def split: prod.split) (metis snd_conv)

lemma refreshed_logged:
  "st_inbox (fst (refreshed env (logging rm) story observed now st)) = st_inbox (fst st)"
  "snd (snd (refreshed env (logging rm) story observed now st)) = snd (snd st)"
proof -
  let ?ws = "kept_unless (fst st) (map_sum id snd (refreshEngagementPhase (re_session env) (rt_ID story) observed
      (resolve_editable (re_yaml env) (logging rm) (rt_ID story) observed (snd st)) False now (fst st)))"
  have ws: "st_inbox ?ws = st_inbox (fst st)"
    by (rule kept_inbox) (auto simp: refreshEngagementPhase_def WsAppend_def Let_def ai_insert_def map_sum_Inr split: if_splits option.splits)
  have r: "refreshed env (logging rm) story observed now st = (fst (snd (runWorkSync (rm_event (logging rm)) (re_marks env) ?ws (snd st))),
      snd (snd (runWorkSync (rm_event (logging rm)) (re_marks env) ?ws (snd st))))"
    by (simp add: refreshed_def Let_def split: prod.split)
  show "st_inbox (fst (refreshed env (logging rm) story observed now st)) = st_inbox (fst st)"
    "snd (snd (refreshed env (logging rm) story observed now st)) = snd (snd st)"
    unfolding r using ws by (simp_all add: sync_inbox sync_logged)
qed

section \<open>Edges\<close>

text \<open>An edge of the workflow leads from the status to the target, or a fail edge escalates to it.\<close>

definition edge_target :: "Workflow \<Rightarrow> string \<Rightarrow> string \<Rightarrow> bool" where
  "edge_target w s t \<longleftrightarrow> (\<exists>tr \<in> set (TransitionsFrom w (TrimSpace s)). tr_To tr = t \<or> tr_On tr = ''fail'' \<and> tr_OnExhausted tr = t)"

lemma edges_target:
  assumes "t \<noteq> []" and "t = v2_PassTo (edgesFromWorkflow w s) \<or> t = v2_FailTo (edgesFromWorkflow w s) \<or> t = v2_OnExhausted (edgesFromWorkflow w s)"
  shows "edge_target w s t"
proof (cases "StateOf w (TrimSpace s)")
  case None
  then show ?thesis using assms by (simp add: edgesFromWorkflow_def zeroEdges_def)
next
  case (Some st)
  let ?e0 = "zeroEdges\<lparr>v2_Actor := st_Actor st, v2_Command := st_Command st\<rparr>" and ?ts = "TransitionsFrom w (TrimSpace s)"
  have e: "edgesFromWorkflow w s = fold add_edge ?ts ?e0" using StateOf_Some [OF Some] Some by (simp add: edgesFromWorkflow_def)
  show ?thesis using assms fold_add_edge_PassTo [of ?ts ?e0] fold_add_edge_Fail [of ?ts ?e0]
    unfolding e edge_target_def by (auto simp: zeroEdges_def)
qed

lemma gated_target: "gatedEdgeFrom w s g = Some t \<Longrightarrow> edge_target w s t"
  by (auto simp: gatedEdgeFrom_def edge_target_def Let_def dest!: find_SomeD)

lemma checkpoint_target:
  "checkpoint_loop to n ts = Some t \<Longrightarrow> (n = 1 \<and> t = to) \<or> (\<exists>tr \<in> set ts. tr_To tr = t)"
  by (induction to n ts rule: checkpoint_loop.induct) (auto split: if_splits)

lemma reconcile_edges:
  "selector_error yaml sel category sources = None \<Longrightarrow>
   fst (GoverningReconcile yaml sel body status category sources) =
     (case authority yaml sel body category sources of None \<Rightarrow> zeroEdges | Some w \<Rightarrow> edgesFromWorkflow w status)"
  by (auto simp: selector_error_def GoverningReconcile_def authority_def selected_def ResolveV2Edges_def split: if_splits option.splits sum.splits)

lemma checkpoint_authority:
  "GoverningCheckpoint yaml sel body status category sources =
     (case authority yaml sel body category sources of None \<Rightarrow> None | Some w \<Rightarrow> checkpoint_loop [] 0 (TransitionsFrom w (TrimSpace status)))"
  by (auto simp: GoverningCheckpoint_def authority_def CheckpointEdge_def split: option.splits sum.splits)

lemma gated_authority:
  "GoverningGatedEdge yaml sel body status category g sources = Some t \<Longrightarrow>
     \<exists>w. authority yaml sel body category sources = Some w \<and> gatedEdgeFrom w status (TrimSpace g) = Some t"
  by (auto simp: GoverningGatedEdge_def Let_def split: if_splits option.splits)

text \<open>Stamping the story leaves the authority.\<close>

lemma drift_authority:
  assumes "selector_error yaml sel category sources = None" and "snd (snd (GoverningReconcile yaml sel body status category sources)) \<noteq> NoDrift"
  shows "authority yaml sel b category sources = authority yaml sel body category sources"
  using assms by (auto simp: selector_error_def GoverningReconcile_def authority_def selected_def split: if_splits option.splits)

lemma heal_authority:
  assumes "selector_error (re_yaml env) sel (rt_Category story) (governingWorkflowSources (re_tiers env)) = None"
    and "self_heal env rm sel story body srv = ((b, es, g), srv')"
  shows "authority (re_yaml env) sel b (rt_Category story) (governingWorkflowSources (re_tiers env)) =
      authority (re_yaml env) sel body (rt_Category story) (governingWorkflowSources (re_tiers env)) \<and>
    es = (case authority (re_yaml env) sel body (rt_Category story) (governingWorkflowSources (re_tiers env)) of
      None \<Rightarrow> zeroEdges | Some w \<Rightarrow> edgesFromWorkflow w (rt_Status story))"
proof -
  let ?rec = "\<lambda>b. GoverningReconcile (re_yaml env) sel b (rt_Status story) (rt_Category story) (governingWorkflowSources (re_tiers env))"
  let ?auth = "\<lambda>b. authority (re_yaml env) sel b (rt_Category story) (governingWorkflowSources (re_tiers env))"
  obtain e0 g0 d0 where r0: "?rec body = (e0, g0, d0)" by (cases "?rec body")
  have e0: "e0 = (case ?auth body of None \<Rightarrow> zeroEdges | Some w \<Rightarrow> edgesFromWorkflow w (rt_Status story))"
    using reconcile_edges [OF assms(1), of body "rt_Status story"] r0 by simp
  show ?thesis
  proof (cases "d0 = NoDrift")
    case True
    then show ?thesis using assms(2) r0 e0 by (auto simp: self_heal_def Let_def)
  next
    case False
    have same: "?auth b' = ?auth body" for b' using drift_authority [OF assms(1), of body "rt_Status story" b'] r0 False by simp
    obtain o' s' where o: "reembedGoverningWorkflow (re_yaml env) (rm_body rm (rt_ID story)) body (rt_Category story)
        (governingWorkflowSources (re_tiers env)) srv = (o', s')"
      by fastforce
    show ?thesis
    proof (cases "\<exists>n b0. o' = Restamped n b0")
      case True
      then obtain n b0 where b0: "o' = Restamped n b0" by blast
      obtain e1 g1 d1 where r1: "?rec b0 = (e1, g1, d1)" by (cases "?rec b0")
      have "self_heal env rm sel story body srv = ((b0, e1, g1), s')"
        using False by (simp add: self_heal_def Let_def r0 o b0 r1)
      then show ?thesis using assms(2) reconcile_edges [OF assms(1), of b0 "rt_Status story"] r1 same [of b0] by simp
    next
      case no: False
      then have "self_heal env rm sel story body srv = ((body, e0, g0), s')"
        using False by (cases o') (simp_all add: self_heal_def Let_def r0 o)
      then show ?thesis using assms(2) e0 by simp
    qed
  qed
qed

section \<open>The rows of a verdict\<close>

text \<open>A transition row along an edge of a workflow.\<close>

definition moves :: "Workflow option \<Rightarrow> string \<Rightarrow> payload \<Rightarrow> bool" where
  "moves auth status p \<longleftrightarrow> (\<exists>w to. auth = Some w \<and> edge_target w status to \<and>
     map_of p ''from_status'' = Some (JStr status) \<and> map_of p ''to_status'' = Some (JStr to))"

definition planned_transitions :: "PlannedRow list \<Rightarrow> PlannedRow list" where
  "planned_transitions rows = filter (\<lambda>r. pr_Kind r = statusTransitionKind) rows"

lemma append_rows_transitions:
  "\<exists>ys. transitions (snd (append_rows (logging rm) story rows s)) = transitions (snd s) @ ys \<and>
     length ys \<le> length (planned_transitions rows) \<and>
     (\<forall>a \<in> set ys. an_StoryID a = rt_ID story \<and> an_Payload a \<in> pr_Payload ` set (planned_transitions rows))"
proof (induction rows arbitrary: s)
  case Nil
  show ?case by (simp add: append_rows_def planned_transitions_def)
next
  case (Cons r rows)
  let ?s = "reviewAppendLedger (logging rm) story (pr_Kind r) (pr_Body r) (pr_Payload r) s"
  have step: "append_rows (logging rm) story (r # rows) s = append_rows (logging rm) story rows ?s" by (simp add: append_rows_def)
  obtain ys where ys: "transitions (snd (append_rows (logging rm) story rows ?s)) = transitions (snd ?s) @ ys"
    "length ys \<le> length (planned_transitions rows)"
    "\<forall>a \<in> set ys. an_StoryID a = rt_ID story \<and> an_Payload a \<in> pr_Payload ` set (planned_transitions rows)"
    using Cons.IH by blast
  show ?case
  proof (cases "snd ?s = snd s \<or> pr_Kind r \<noteq> statusTransitionKind")
    case True
    then have "transitions (snd ?s) = transitions (snd s)"
      using append_other [of "pr_Kind r" rm story "pr_Body r" "pr_Payload r" s] by auto
    then show ?thesis unfolding step using ys by (intro exI [of _ ys]) (auto simp: planned_transitions_def)
  next
    case False
    then have "transitions (snd ?s) = transitions (snd s) @ [append_row story (pr_Kind r) (pr_Body r) (pr_Payload r)]"
      using append_logged [of rm story "pr_Kind r" "pr_Body r" "pr_Payload r" s] by auto
    then show ?thesis unfolding step using ys False
      by (intro exI [of _ "append_row story (pr_Kind r) (pr_Body r) (pr_Payload r) # ys"]) (auto simp: planned_transitions_def)
  qed
qed

lemma plan_transitions:
  assumes "PlanV2Enactment d g s x e n = Inr plan"
  shows "\<exists>r to. planned_transitions (vp_Rows plan) = [r] \<and> to \<noteq> [] \<and> (to = v2_PassTo e \<or> to = v2_FailTo e \<or> to = v2_OnExhausted e) \<and>
    map_of (pr_Payload r) ''from_status'' = Some (JStr s) \<and> map_of (pr_Payload r) ''to_status'' = Some (JStr to)"
  using assms by (auto simp: PlanV2Enactment_def planned_transitions_def accept_rows_def reject_row_def exhausted_row_def
      fail_row_def statusTransitionKind_def split: if_splits)

lemma v1_transitions:
  "planned_transitions (v1_rows s to g out) = [] \<or>
   (\<exists>r. planned_transitions (v1_rows s to g out) = [r] \<and> map_of (pr_Payload r) ''from_status'' = Some (JStr s) \<and>
     map_of (pr_Payload r) ''to_status'' = Some (JStr to))"
  by (auto simp: v1_rows_def planned_transitions_def statusTransitionKind_def)

lemma enactment_moves:
  assumes "enactment es enactV2 gated s g n out = Inr (rows, b)"
    and "enactV2 \<Longrightarrow> \<exists>w. auth = Some w \<and> v2_PassTo es = v2_PassTo (edgesFromWorkflow w s) \<and>
      v2_FailTo es = v2_FailTo (edgesFromWorkflow w s) \<and> v2_OnExhausted es = v2_OnExhausted (edgesFromWorkflow w s)"
    and "\<And>t. gated = Some t \<Longrightarrow> \<exists>w. auth = Some w \<and> edge_target w s t"
  shows "length (planned_transitions rows) \<le> 1 \<and> (\<forall>r \<in> set (planned_transitions rows). moves auth s (pr_Payload r))"
proof (cases enactV2)
  case True
  then obtain plan where p: "PlanV2Enactment (go_Decision out) g s (go_Notes out) es n = Inr plan" "rows = vp_Rows plan"
    using assms(1) by (auto simp: enactment_def split: sum.splits)
  then show ?thesis using plan_transitions [OF p(1)] assms(2) [OF True] edges_target unfolding moves_def by fastforce
next
  case False
  show ?thesis
  proof (cases "\<not> v2_IsV2 es \<and> gated \<noteq> None")
    case True
    then obtain t where t: "gated = Some t" by auto
    then have "rows = v1_rows s t g out" using assms(1) False True by (auto simp: enactment_def)
    then show ?thesis using v1_transitions [of s t g out] assms(3) [OF t] unfolding moves_def by fastforce
  next
    case no: False
    then have "rows = []" using assms(1) False by (auto simp: enactment_def split: if_splits)
    then show ?thesis by (simp add: planned_transitions_def)
  qed
qed

section \<open>One run\<close>

lemma record_inbox: "st_inbox (kept_unless ws (map_sum id snd (RecordEvidence clock e ws))) = st_inbox ws"
  by (rule kept_inbox) (auto simp: RecordEvidence_def Let_def ai_insert_def split: if_splits)

lemma record_summary_unstaged: "unstaged i ws \<Longrightarrow> unstaged i (record_summary env story g obs out summary now ws)"
proof -
  assume u: "unstaged i ws"
  have k: "''step_summary'' \<noteq> statusTransitionKind" by (simp add: statusTransitionKind_def)
  show ?thesis using u unstaged_append [OF _ u k]
    by (auto simp: record_summary_def kept_unless_def map_sum_Inr split: sum.splits)
qed

lemma conclude_transitions:
  assumes "unstaged (rt_ID story) (fst st)"
  shows "transitions (snd (snd (snd (conclude env (logging rm) story governing g out b o' summary now st)))) = transitions (snd (snd st))"
proof -
  let ?obs = "reviewObserveStatus (logging rm) (rt_ID story) (snd st)"
  let ?st1 = "if ?obs \<noteq> [] \<and> ?obs \<noteq> rt_Status story then refreshed env (logging rm) story ?obs (now 3) st else st"
  have 1: "st_inbox (fst ?st1) = st_inbox (fst st)" "snd (snd ?st1) = snd (snd st)"
    by (simp_all add: refreshed_logged)
  have u: "unstaged (rt_ID story) (record_summary env story g ?obs out summary (now 5)
      (kept_unless (fst ?st1) (map_sum id snd (RecordEvidence (re_clock env) (evidence_of story g out ?obs (now 4)) (fst ?st1)))))"
    by (rule record_summary_unstaged) (use assms 1(1) in \<open>simp only: unstaged_def record_inbox\<close>)
  let ?ws = "record_summary env story g ?obs out summary (now 5)
      (kept_unless (fst ?st1) (map_sum id snd (RecordEvidence (re_clock env) (evidence_of story g out ?obs (now 4)) (fst ?st1))))"
  have "snd (conclude env (logging rm) story governing g out b o' summary now st) = st \<or>
    snd (snd (conclude env (logging rm) story governing g out b o' summary now st)) =
      snd (flushLocalInbox env (logging rm) story (?ws, snd ?st1))"
    unfolding conclude_def Let_def by (simp split: option.split)
  then show ?thesis using flush_transitions [of story "(?ws, snd ?st1)" env rm] u 1(2) by (elim disjE) simp_all
qed

definition adds_move :: "Workflow option \<Rightarrow> reviewStory \<Rightarrow> AppendInput list \<Rightarrow> AppendInput list \<Rightarrow> bool" where
  "adds_move auth story rows rows' \<longleftrightarrow> (\<exists>ys. transitions rows' = transitions rows @ ys \<and> length ys \<le> 1 \<and>
     (\<forall>a \<in> set ys. an_StoryID a = rt_ID story \<and> moves auth (rt_Status story) (an_Payload a)))"

lemma adds_none: "transitions rows' = transitions rows \<Longrightarrow> adds_move auth story rows rows'"
  unfolding adds_move_def by (intro exI [of _ "[]"]) simp

abbreviation gated_for :: "review_env \<Rightarrow> string \<Rightarrow> reviewStory \<Rightarrow> string \<Rightarrow> string \<Rightarrow> string option" where
  "gated_for env sel story body g \<equiv> GoverningGatedEdge (re_yaml env) sel body (rt_Status story) (rt_Category story) g
     (governingWorkflowSources (re_tiers env))"

abbreviation authority_for :: "review_env \<Rightarrow> string \<Rightarrow> reviewStory \<Rightarrow> string \<Rightarrow> Workflow option" where
  "authority_for env sel story body \<equiv> authority (re_yaml env) sel body (rt_Category story) (governingWorkflowSources (re_tiers env))"

definition edges_from :: "Workflow option \<Rightarrow> string \<Rightarrow> V2Edges \<Rightarrow> bool" where
  "edges_from auth s es \<longleftrightarrow> (\<exists>w. auth = Some w \<and> v2_PassTo es = v2_PassTo (edgesFromWorkflow w s) \<and>
     v2_FailTo es = v2_FailTo (edgesFromWorkflow w s) \<and> v2_OnExhausted es = v2_OnExhausted (edgesFromWorkflow w s))"

lemma enacted_moves:
  assumes "enactment es enactV2 (gated_for env sel story body g) (rt_Status story) g n out = Inr (rows, b)"
    and "unstaged (rt_ID story) (fst st)" and "enactV2 \<Longrightarrow> edges_from (authority_for env sel story body) (rt_Status story) es"
  shows "adds_move (authority_for env sel story body) story (snd (snd st)) (snd (snd (snd (conclude env (logging rm) story gov g out b o' summary now
      (fst st, append_rows (logging rm) story rows (snd st))))))"
proof -
  have m: "length (planned_transitions rows) \<le> 1 \<and>
      (\<forall>r \<in> set (planned_transitions rows). moves (authority_for env sel story body) (rt_Status story) (pr_Payload r))"
    using enactment_moves [OF assms(1)] assms(3) gated_authority gated_target unfolding edges_from_def by metis
  have c: "transitions (snd (snd (snd (conclude env (logging rm) story gov g out b o' summary now
      (fst st, append_rows (logging rm) story rows (snd st)))))) = transitions (snd (append_rows (logging rm) story rows (snd st)))"
    using conclude_transitions [of story "(fst st, append_rows (logging rm) story rows (snd st))" env rm gov g out b o' summary now] assms(2) by simp
  show ?thesis using append_rows_transitions [of rm story rows "snd st"] m c unfolding adds_move_def by fastforce
qed

lemma judged_moves:
  assumes "unstaged (rt_ID story) (fst st)" and "enactV2 \<Longrightarrow> edges_from (authority_for env sel story body) (rt_Status story) es"
  shows "adds_move (authority_for env sel story body) story (snd (snd st)) (snd (snd (snd (judge_and_enact env (logging rm) g sel story body gov es
      enactV2 prior recent summariser now st))))"
proof (cases "judge env es (rt_Status story) g (re_gate_input env g story body recent)")
  case (Inl e)
  then show ?thesis by (simp add: judge_and_enact_def adds_none)
next
  case (Inr out0)
  let ?skill = "stage_skill summariser"
  obtain out summary where o': "stage_review env (v2_Actor es) ?skill (re_stage_input env ?skill story body recent) out0 = (out, summary)"
    by fastforce
  show ?thesis
  proof (cases "enactment es enactV2 (gated_for env sel story body g) (rt_Status story) g prior out")
    case (Inl e)
    then show ?thesis using Inr o' by (simp add: judge_and_enact_def Let_def adds_none)
  next
    case enacted: (Inr r)
    obtain rows b where r: "r = (rows, b)" by fastforce
    show ?thesis using enacted_moves [OF enacted [unfolded r] assms, of rm gov "v2_IsV2 es \<and> \<not> enactV2" summary now] Inr o' enacted r
      by (simp add: judge_and_enact_def Let_def)
  qed
qed

text \<open>A command run without an authorised review edge moves nothing.\<close>

lemma judged_stalls:
  assumes "unstaged (rt_ID story) (fst st)" and "v2_Actor es = ''satellites''"
  shows "transitions (snd (snd (snd (judge_and_enact env (logging rm) g sel story body gov es False prior recent summariser now st)))) =
    transitions (snd (snd st))"
proof (cases "judge env es (rt_Status story) g (re_gate_input env g story body recent)")
  case (Inl e)
  then show ?thesis by (simp add: judge_and_enact_def)
next
  case (Inr out0)
  then have v2: "v2_IsV2 es" using assms(2) by (auto simp: judge_def split: if_splits)
  let ?skill = "stage_skill summariser"
  obtain out summary where o': "stage_review env (v2_Actor es) ?skill (re_stage_input env ?skill story body recent) out0 = (out, summary)"
    by fastforce
  have e: "enactment es False gated (rt_Status story) g prior out = Inr ([], False)" for gated using v2 by (simp add: enactment_def)
  show ?thesis using Inr o' v2 conclude_transitions [OF assms(1)]
    by (simp add: judge_and_enact_def Let_def e append_rows_def)
qed

lemma marked_unstaged:
  assumes "unstaged i ws"
  shows "unstaged i (marked env story g now ws)"
proof -
  have k: "''review_requested'' \<noteq> statusTransitionKind" by (simp add: statusTransitionKind_def)
  let ?ws = "kept_unless ws (map_sum id snd (InboxAppend (re_clock env) (rt_ID story) ''review_requested''
            (''gate '' @ g @ '': from '' @ rt_Status story)
            (re_encode env [(''gate'', JStr g), (''from_status'', JStr (rt_Status story))]) (Some (now 1)) ws))"
  have "unstaged i ?ws" using assms unstaged_append [OF _ assms k] by (auto simp: kept_unless_def map_sum_Inr split: sum.splits)
  moreover have "st_inbox (kept_unless ?ws (SetActiveGate (re_clock env) (rt_ID story) (or_else g ''work-step'') (Some (now 2)) ?ws)) = st_inbox ?ws"
    by (rule kept_inbox) (auto simp: SetActiveGate_def Let_def split: if_splits)
  ultimately show ?thesis unfolding marked_def Let_def by (simp only: unstaged_def)
qed

lemma run_gate_rows:
  "snd (snd (run_gate env rm g sel story body gov es enactV2 prior now st)) =
     snd (snd (judge_and_enact env rm g sel story body gov es enactV2 prior (recentGateLedger rm (rt_ID story) st)
       (reviewStepSummariserSkill env rm story (snd st)) now (marked env story g now (fst st), snd st)))"
  by (simp add: run_gate_def Let_def split: prod.split)

lemma bounded_targets [simp]:
  "v2_PassTo (bounded rm story es e srv) = v2_PassTo es" "v2_FailTo (bounded rm story es e srv) = v2_FailTo es"
  "v2_OnExhausted (bounded rm story es e srv) = v2_OnExhausted es" "v2_Actor (bounded rm story es e srv) = v2_Actor es"
  "v2_IsV2 (bounded rm story es e srv) = v2_IsV2 es" "v2_Command (bounded rm story es e srv) = v2_Command es"
  by (simp_all add: bounded_def Let_def)

lemma dispatched_moves:
  assumes "unstaged (rt_ID story) (fst st)" and "enactV2 \<Longrightarrow> edges_from (authority_for env sel story body) (rt_Status story) es"
  shows "adds_move (authority_for env sel story body) story (snd (snd st))
    (snd (snd (snd (dispatch_review env (logging rm) g sel story body gov es enactV2 now st))))"
proof -
  have e: "edges_from (authority_for env sel story body) (rt_Status story) (bounded (logging rm) story es enactV2 (snd st))" if enactV2
    using assms(2) [OF that] by (simp add: edges_from_def)
  have r: "adds_move (authority_for env sel story body) story (snd (snd st)) (snd (snd (snd (run_gate env (logging rm) g sel story body gov
      (bounded (logging rm) story es enactV2 (snd st)) enactV2 prior now st))))" for prior
    unfolding run_gate_rows using judged_moves [where st = "(marked env story g now (fst st), snd st)", OF _ e] marked_unstaged [OF assms(1)] by simp
  show ?thesis using r by (simp add: dispatch_review_def Let_def adds_none split: option.split)
qed

lemma dispatched_stalls:
  assumes "unstaged (rt_ID story) (fst st)" and "v2_Actor es = ''satellites''"
  shows "transitions (snd (snd (snd (dispatch_review env (logging rm) g sel story body gov es False now st)))) = transitions (snd (snd st))"
proof -
  have "transitions (snd (snd (snd (run_gate env (logging rm) g sel story body gov (bounded (logging rm) story es False (snd st)) False prior now st)))) =
      transitions (snd (snd st))" for prior
    unfolding run_gate_rows using judged_stalls [where st = "(marked env story g now (fst st), snd st)"] marked_unstaged [OF assms(1)] assms(2) by simp
  then show ?thesis by (simp add: dispatch_review_def Let_def split: option.split)
qed

abbreviation decision_for :: "review_env \<Rightarrow> reviewOpts \<Rightarrow> string \<Rightarrow> string \<Rightarrow> reviewStory \<Rightarrow> string \<Rightarrow> V2Edges \<Rightarrow> string option \<Rightarrow> review_error + bool" where
  "decision_for env opts g sel story body es cp \<equiv>
     checkpointDecision (ro_Checkpoint opts) (cp \<noteq> None \<and> \<not> v2_IsV2 es \<and> v2_Actor es \<noteq> ''operator'')
       (gated_for env sel story body g \<noteq> None) (rt_Status story) (case cp of None \<Rightarrow> [] | Some to \<Rightarrow> to) g
       (GoverningEdgesHint (re_yaml env) sel body (rt_Status story) (rt_Category story) (governingWorkflowSources (re_tiers env)))"

abbreviation checkpoint_for :: "review_env \<Rightarrow> string \<Rightarrow> reviewStory \<Rightarrow> string \<Rightarrow> string option" where
  "checkpoint_for env sel story body \<equiv>
     GoverningCheckpoint (re_yaml env) sel body (rt_Status story) (rt_Category story) (governingWorkflowSources (re_tiers env))"

abbreviation landing :: "review_env \<Rightarrow> string \<Rightarrow> reviewStory \<Rightarrow> string \<Rightarrow> string \<Rightarrow> V2Edges" where
  "landing env sel story body t \<equiv> fst (GoverningReconcile (re_yaml env) sel body t (rt_Category story) (governingWorkflowSources (re_tiers env)))"

abbreviation hopped :: "'srv remote \<Rightarrow> reviewStory \<Rightarrow> string \<Rightarrow> 'srv \<Rightarrow> 'srv" where
  "hopped rm story t srv \<equiv> reviewAppendLedger rm story ''status_transition'' (rt_Status story @ arrow @ t @ '' (checkpoint)'')
     (checkpoint_row (rt_Status story) t) srv"

text \<open>A checkpoint that is enacted: the row is appended and the review goes on where it landed.\<close>

lemma claimed_hop:
  assumes "checkpoint_for env sel story body = Some t" and "decision_for env opts g sel story body es (Some t) = Inr True"
  shows "claimed_review env rm opts g sel story body gov es ev now st =
    (if v2_Actor (landing env sel story body t) \<noteq> ''satellites''
     then (Inr (CheckpointDone t), flushLocalInbox env rm (story\<lparr>rt_Status := t\<rparr>) (fst st, hopped rm story t (snd st)))
     else dispatch_review env rm g sel (story\<lparr>rt_Status := t\<rparr>) body gov (landing env sel story body t) ev now
       (fst st, hopped rm story t (snd st)))"
  using assms by (simp add: claimed_review_def Let_def split_beta)

lemma claimed_moves:
  assumes "unstaged (rt_ID story) (fst st)" and "edges_from (authority_for env sel story body) (rt_Status story) es \<or> \<not> v2_IsV2 es"
    and "enactV2 \<Longrightarrow> v2_IsV2 es"
  shows "adds_move (authority_for env sel story body) story (snd (snd st))
    (snd (snd (snd (claimed_review env (logging rm) opts g sel story body gov es enactV2 now st))))"
proof (cases "decision_for env opts g sel story body es (checkpoint_for env sel story body)")
  case (Inl e)
  then show ?thesis by (simp add: claimed_review_def Let_def adds_none)
next
  case (Inr enact)
  show ?thesis
  proof (cases enact)
    case False
    have "adds_move (authority_for env sel story body) story (snd (snd st))
        (snd (snd (snd (dispatch_review env (logging rm) g sel story body gov es enactV2 now st))))"
      using assms(2,3) by (intro dispatched_moves [OF assms(1)]) blast
    then show ?thesis using Inr False by (simp add: claimed_review_def Let_def)
  next
    case True
    then obtain t where t: "checkpoint_for env sel story body = Some t" and v2: "\<not> v2_IsV2 es"
      using Inr by (auto simp: checkpointDecision_def split: if_splits)
    let ?srv = "hopped (logging rm) story t (snd st)"
    obtain w where w: "authority_for env sel story body = Some w" "checkpoint_loop [] 0 (TransitionsFrom w (TrimSpace (rt_Status story))) = Some t"
      using t unfolding checkpoint_authority by (auto split: option.splits)
    have "moves (authority_for env sel story body) (rt_Status story) (checkpoint_row (rt_Status story) t)"
      using checkpoint_target [OF w(2)] w(1) by (auto simp: moves_def edge_target_def checkpoint_row_def)
    then have hop: "adds_move (authority_for env sel story body) story (snd (snd st)) (snd ?srv)"
      using append_logged [of rm story "''status_transition''" "rt_Status story @ arrow @ t @ '' (checkpoint)''" "checkpoint_row (rt_Status story) t" "snd st"]
      unfolding adds_move_def by (auto simp: statusTransitionKind_def)
    have "transitions (snd (snd (snd (claimed_review env (logging rm) opts g sel story body gov es enactV2 now st)))) = transitions (snd ?srv)"
      using claimed_hop [OF t, where opts = opts and g = g and es = es and rm = "logging rm" and gov = gov and ev = enactV2 and now = now and st = st] Inr True t v2 assms(1,3)
        dispatched_stalls [where st = "(fst st, ?srv)" and story = "story\<lparr>rt_Status := t\<rparr>" and es = "landing env sel story body t"]
        flush_transitions [of "story\<lparr>rt_Status := t\<rparr>" "(fst st, ?srv)" env rm]
      by (cases enactV2) auto
    then show ?thesis using hop unfolding adds_move_def by simp
  qed
qed

text \<open>The story a run reads.\<close>

lemma healed_rows: "self_heal env (logging rm) sel story body srv = (x, srv') \<Longrightarrow> snd srv' = snd srv"
  by (auto simp: self_heal_def reembedGoverningWorkflow_def Let_def split: prod.splits if_splits option.splits sum.splits embed_outcome.splits)

text \<open>
  C5: One edge per run. For every server, gate, stage reviewer and command, a run appends at most one
  status transition to the ledger. It is a row of the story that was read, it leads from the status that was
  read, and along an edge (or the escalation of a fail edge) that the governing workflow declares from that status; without a
  governing workflow there is none. No transition row is staged in the inbox of the story.
\<close>

theorem review_moves_one_edge:
  assumes "reviewGetStory rm (ro_StoryID opts) srv = Inr (story, body)" and "unstaged (rt_ID story) ws"
    and "runReview env (logging rm) opts now (ws, srv, []) = (r, ws', srv', rows)"
  shows "length (transitions rows) \<le> 1 \<and> (\<forall>a \<in> set (transitions rows). an_StoryID a = rt_ID story \<and>
    (\<exists>w to. authority (re_yaml env) (WorkflowSelector (rt_Tags story)) body (rt_Category story) (governingWorkflowSources (re_tiers env)) = Some w \<and>
      edge_target w (rt_Status story) to \<and> map_of (an_Payload a) ''from_status'' = Some (JStr (rt_Status story)) \<and>
      map_of (an_Payload a) ''to_status'' = Some (JStr to)))"
proof -
  let ?sel = "WorkflowSelector (rt_Tags story)" and ?g = "TrimSpace (ro_Skill opts)"
  have "adds_move (authority_for env ?sel story body) story [] rows"
  proof (cases "transitions rows = []")
    case True
    then show ?thesis by (simp add: adds_none)
  next
    case False
    have get: "reviewGetStory (logging rm) (ro_StoryID opts) (srv, []) = Inr (story, body)"
      using assms(1) by (simp add: reviewGetStory_def)
    obtain b es gov s where h: "self_heal env (logging rm) ?sel story body (srv, []) = ((b, es, gov), s)" by (metis prod.collapse)
    have ok: "selector_error (re_yaml env) ?sel (rt_Category story) (governingWorkflowSources (re_tiers env)) = None"
      using assms(3) get False by (auto simp: runReview_def Let_def split: if_splits option.splits)
    obtain ws1 where ws1: "ClaimWork (rt_ID story) (re_claimant env) (rt_Status story) claimLeaseTTL (now 0) ws = Inr ws1"
      and run: "claimed_review env (logging rm) opts ?g ?sel story b gov es (v2_IsV2 es \<and> GateMatches es ?g) now (ws1, s) = (r, ws', srv', rows)"
      using assms(3) get False h ok healed_rows [OF h] by (auto simp: runReview_def Let_def split: if_splits option.splits sum.splits)
    have auth: "authority_for env ?sel story b = authority_for env ?sel story body"
      and es: "es = (case authority_for env ?sel story body of None \<Rightarrow> zeroEdges | Some w \<Rightarrow> edgesFromWorkflow w (rt_Status story))"
      using heal_authority [OF ok h] by auto
    have "edges_from (authority_for env ?sel story b) (rt_Status story) es \<or> \<not> v2_IsV2 es"
      unfolding auth edges_from_def es by (cases "authority_for env ?sel story body") (auto simp: zeroEdges_def)
    moreover have "st_inbox ws1 = st_inbox ws" using ws1 by (auto simp: ClaimWork_def Let_def split: if_splits)
    then have "unstaged (rt_ID story) ws1" using assms(2) by (simp only: unstaged_def)
    ultimately have "adds_move (authority_for env ?sel story b) story (snd s) rows"
      using claimed_moves [where st = "(ws1, s)" and story = story and es = es and body = b, of env ?sel "v2_IsV2 es \<and> GateMatches es ?g" rm opts ?g gov now] run by simp
    then show ?thesis using healed_rows [OF h] unfolding auth by simp
  qed
  then show ?thesis by (auto simp: adds_move_def moves_def)
qed

text \<open>A server that holds the status of one story, and a gate that accepts.\<close>

definition demo_bug :: "string \<Rightarrow> DocumentGetResponse" where
  "demo_bug status = \<lparr>rg_Document = \<lparr>dc_ID = ''y1'', dc_Type = ''story'', dc_Scope = ''project'', dc_WorkspaceID = ''w1'', dc_ProjectID = ''p1'',
       dc_UserID = [], dc_Name = ''y1'', dc_LatestVersion = 1, dc_Tags = [], dc_Status = status, dc_Priority = [], dc_Category = ''bug'',
       dc_ParentID = [], dc_AcceptanceCriteria = [], dc_Headline = [], dc_Audience = [], dc_Summary = [], dc_SummaryUpdatedAt = None,
       dc_CreatedAt = 0, dc_UpdatedAt = 0\<rparr>,
     rg_Versions = [], rg_ResolvedScope = [], rg_RawBody = ''Fix it'', rg_RenderedBody = [], rg_UnresolvedVars = []\<rparr>"

definition demo_remote :: "bool \<Rightarrow> string remote" where
  "demo_remote writable = \<lparr>rm_get = (\<lambda>s i. Some (demo_bug s)),
     rm_append = (\<lambda>a s. if \<not> writable then None
       else Some (if an_Kind a = statusTransitionKind then extractToStatus (an_Payload a) else s)),
     rm_body = (\<lambda>i b s. Some s), rm_list = (\<lambda>s f c. Inr ([], NoCursor)), rm_variable = (\<lambda>s p w. None),
     rm_config = (\<lambda>s p w. None), rm_event = (\<lambda>e s. (True, s))\<rparr>"

definition demo_review :: review_env where
  "demo_review = \<lparr>re_yaml = source_yaml, re_tiers = \<lparr>ti_client = [sample_source], ti_skill = [], ti_embed = []\<rparr>,
     re_claimant = ''ann@host'', re_session = ''s'', re_fuel = 1,
     re_gate = sample_env\<lparr>ge_claude := (\<lambda>a s. Some ''{}''), ge_json := (\<lambda>s. Some \<lparr>go_Decision = ''accept'', go_Notes = ''fine''\<rparr>)\<rparr>,
     re_model = [], re_gate_input = (\<lambda>g s b r. []),
     re_stage_json = (\<lambda>s. Some \<lparr>so_Decision = ''accept'', so_Summary = ''done'', so_Notes = []\<rparr>),
     re_stage_input = (\<lambda>g s b r. []), re_command = (\<lambda>c. (None, [])), re_quote = (\<lambda>s. s), re_encode = (\<lambda>p. ''{}''), re_decode = (\<lambda>s. None),
     re_config = (\<lambda>s. None), re_system = [], re_clock = 0, re_marks = True\<rparr>"

definition gate_request :: "string \<Rightarrow> reviewOpts" where
  "gate_request g = \<lparr>ro_StoryID = ''y1'', ro_Skill = g, ro_Checkpoint = False, ro_Explain = False\<rparr>"

definition demo_run :: "bool \<Rightarrow> string \<Rightarrow> string \<Rightarrow> (review_error + review_outcome) \<times> workstate \<times> string \<times> AppendInput list" where
  "demo_run writable g status = runReview demo_review (logging (demo_remote writable)) (gate_request g) (\<lambda>k. int k * second) (migrate, status, [])"

lemma demo_story_read: "\<exists>story. reviewGetStory (demo_remote wr) ''y1'' status = Inr (story, ''Fix it'') \<and> rt_ID story = ''y1'' \<and> rt_Status story = status"
  by (simp add: reviewGetStory_def demo_remote_def demo_bug_def first_body_def)

lemma migrate_unstaged: "unstaged i migrate"
  by (simp add: unstaged_def migrate_def ai_empty_def)

theorem review_moves_one_edge_witness:
  "fst (demo_run True gate_integration ''integration'') = Inr (Reviewed ''accept'' ''shipping'') \<and>
   map an_StoryID (transitions (snd (snd (snd (demo_run True gate_integration ''integration''))))) = [''y1'']"
proof -
  obtain story where g: "reviewGetStory (demo_remote True) ''y1'' ''integration'' = Inr (story, ''Fix it'')" "rt_ID story = ''y1''"
    using demo_story_read by blast
  obtain r ws s rows where run: "demo_run True gate_integration ''integration'' = (r, ws, s, rows)" by (metis prod.collapse)
  have "ro_StoryID (gate_request gate_integration) = ''y1''" by (simp add: gate_request_def)
  then have "length (transitions rows) \<le> 1 \<and> (\<forall>a \<in> set (transitions rows). an_StoryID a = ''y1'')"
    using review_moves_one_edge [of "demo_remote True" "gate_request gate_integration" "''integration''" story "''Fix it''" migrate
        demo_review "\<lambda>k. int k * second" r ws s rows] g migrate_unstaged run unfolding demo_run_def by auto
  moreover have "fst (demo_run True gate_integration ''integration'') = Inr (Reviewed ''accept'' ''shipping'') \<and>
      length (transitions (snd (snd (snd (demo_run True gate_integration ''integration''))))) = 1" by code_simp
  ultimately show ?thesis using run by (auto simp: length_Suc_conv)
qed

section \<open>The store\<close>

text \<open>A run works on the store through its operations; the marker of the gate aside, they are quiet.\<close>

definition is_gate_op :: "ws_op \<Rightarrow> bool" where
  "is_gate_op op \<longleftrightarrow> (case op of OpSetGate c s g t \<Rightarrow> True | OpClearGate s \<Rightarrow> True | _ \<Rightarrow> False)"

definition quiet :: "workstate \<Rightarrow> workstate \<Rightarrow> bool" where
  "quiet ws ws' \<longleftrightarrow> (\<exists>ops. ws' = fold ws_exec ops ws \<and> (\<forall>op \<in> set ops. \<not> is_gate_op op))"

lemma quiet_refl: "quiet ws ws"
  unfolding quiet_def by (intro exI [of _ "[]"]) simp

lemma quiet_trans: "quiet ws ws1 \<Longrightarrow> quiet ws1 ws2 \<Longrightarrow> quiet ws ws2"
proof -
  assume "quiet ws ws1" "quiet ws1 ws2"
  then obtain o1 o2 where "ws1 = fold ws_exec o1 ws" "\<forall>op \<in> set o1. \<not> is_gate_op op" "ws2 = fold ws_exec o2 ws1" "\<forall>op \<in> set o2. \<not> is_gate_op op"
    unfolding quiet_def by blast
  then show ?thesis unfolding quiet_def by (intro exI [of _ "o1 @ o2"]) auto
qed

lemma quiet_op: "\<not> is_gate_op op \<Longrightarrow> ws' = ws_exec op ws \<Longrightarrow> quiet ws ws'"
  unfolding quiet_def by (intro exI [of _ "[op]"]) simp

lemma quiet_gates: "quiet ws ws' \<Longrightarrow> st_gates ws' = st_gates ws"
proof -
  have step: "st_gates (ws_exec op w) = st_gates w" if "\<not> is_gate_op op" for op w
    using that by (cases op) (auto simp: ws_defs is_gate_op_def)
  have "\<forall>op \<in> set ops. \<not> is_gate_op op \<Longrightarrow> st_gates (fold ws_exec ops w) = st_gates w" for ops w
    by (induction ops arbitrary: w) (auto simp: step)
  then show "quiet ws ws' \<Longrightarrow> ?thesis" unfolding quiet_def by auto
qed

lemma quiet_inbox: "quiet ws (kept_unless ws (map_sum id snd (InboxAppend c i k b p t ws)))"
  by (rule quiet_op [of "OpInbox c i k b p t"]) (simp_all add: is_gate_op_def)

lemma quiet_evidence: "quiet ws (kept_unless ws (map_sum id snd (RecordEvidence c e ws)))"
  by (rule quiet_op [of "OpEvidence c e"]) (simp_all add: is_gate_op_def)

lemma quiet_claim: "ClaimWork i a st l now ws = Inr ws' \<Longrightarrow> quiet ws ws'"
  by (rule quiet_op [of "OpClaim i a st l now"]) (simp_all add: is_gate_op_def kept_unless_def)

lemma quiet_refresh: "quiet ws (kept_unless ws (map_sum id snd (refreshEngagementPhase session i ph ed cr now ws)))"
proof (cases "TrimSpace session = [] \<or> TrimSpace i = [] \<or> WsCurrent ws session i = None")
  case True
  then show ?thesis by (auto simp: refreshEngagementPhase_def kept_unless_def quiet_refl split: option.split)
next
  case False
  then have "kept_unless ws (map_sum id snd (refreshEngagementPhase session i ph ed cr now ws)) =
      ws_exec (OpAppend now (engage_event ''phase'' session i (TrimSpace ph) ed cr now)) ws"
    by (cases "WsAppend now (engage_event ''phase'' session i (TrimSpace ph) ed cr now) ws")
      (auto simp: refreshEngagementPhase_def kept_unless_def split: option.splits)
  then show ?thesis by (rule quiet_op [rotated]) (simp add: is_gate_op_def)
qed

lemma quiet_sync: "quiet ws (fst (snd (runWorkSync send m ws s)))"
proof (cases "fst (snd (runWorkSync send m ws s)) = ws")
  case False
  then obtain q where "fst (snd (runWorkSync send m ws s)) = ws_exec (OpMark q) ws"
    by (auto simp: runWorkSync_def Let_def split: prod.splits if_splits)
  then show ?thesis by (rule quiet_op [rotated]) (simp add: is_gate_op_def)
qed (simp add: quiet_refl)

lemma quiet_refreshed: "quiet (fst st) (fst (refreshed env rm story observed now st))"
  unfolding refreshed_def Let_def
  by (simp add: split_beta) (rule quiet_trans [OF quiet_refresh quiet_sync])

lemma quiet_summary: "quiet ws (record_summary env story g obs out summary now ws)"
  by (simp add: record_summary_def quiet_refl quiet_inbox)

lemma quiet_flush: "quiet (fst st) (fst (flushLocalInbox env rm story st))"
proof -
  have "quiet (fst st) (kept_unless (fst st) (AdvanceInboxFlush (rt_ID story) q (fst st)))" for q
    by (rule quiet_op [of "OpAdvance (rt_ID story) q"]) (simp_all add: is_gate_op_def)
  then show ?thesis by (simp add: flushLocalInbox_def Let_def quiet_refl split_beta)
qed

lemma quiet_cleanup: "quiet ws (CleanupWork i ws)"
  by (rule quiet_op [of "OpCleanup i"]) (simp_all add: is_gate_op_def)

lemma quiet_conclude: "quiet (fst st) (fst (snd (conclude env rm story gov g out b o' summary now st)))"
proof -
  let ?obs = "reviewObserveStatus rm (rt_ID story) (snd st)"
  let ?st1 = "if ?obs \<noteq> [] \<and> ?obs \<noteq> rt_Status story then refreshed env rm story ?obs (now 3) st else st"
  let ?ws2 = "kept_unless (fst ?st1) (map_sum id snd (RecordEvidence (re_clock env) (evidence_of story g out ?obs (now 4)) (fst ?st1)))"
  let ?ws3 = "record_summary env story g ?obs out summary (now 5) ?ws2"
  have 1: "quiet (fst st) (fst ?st1)" by (simp add: quiet_refreshed quiet_refl)
  have 3: "quiet (fst st) ?ws3" by (rule quiet_trans [OF quiet_trans [OF 1 quiet_evidence] quiet_summary])
  let ?ws4 = "fst (flushLocalInbox env rm story (?ws3, snd ?st1))"
  have 4: "quiet (fst st) ?ws4" using quiet_trans [OF 3] quiet_flush [of "(?ws3, snd ?st1)" env rm story] by (simp only: fst_conv)
  have "fst (snd (conclude env rm story gov g out b o' summary now st)) = fst st \<or>
      fst (snd (conclude env rm story gov g out b o' summary now st)) = ?ws4 \<or>
      fst (snd (conclude env rm story gov g out b o' summary now st)) = CleanupWork (rt_ID story) ?ws4"
    unfolding conclude_def Let_def by (simp split: option.split)
  then show ?thesis using 4 quiet_trans [OF 4 quiet_cleanup] quiet_refl by metis
qed

lemma quiet_concluded: "quiet ws (fst (snd (conclude env rm story gov g out b o' summary now (ws, srv))))"
  using quiet_conclude [where st = "(ws, srv)"] by simp

lemma quiet_judged: "quiet (fst st) (fst (snd (judge_and_enact env rm g sel story body gov es e2 prior recent summariser now st)))"
  by (simp add: judge_and_enact_def Let_def quiet_refl quiet_concluded split: sum.split prod.split)

lemma GetActiveGate_gates: "st_gates ws = st_gates ws' \<Longrightarrow> GetActiveGate ws i = GetActiveGate ws' i"
  by (simp add: GetActiveGate_def)

definition unmarked :: "workstate \<Rightarrow> workstate \<Rightarrow> bool" where
  "unmarked ws ws' \<longleftrightarrow> (\<exists>ops. ws' = fold ws_exec ops ws) \<and> (\<forall>i ag. GetActiveGate ws' i = Some ag \<longrightarrow> GetActiveGate ws i = Some ag)"

lemma quiet_unmarked: "quiet ws ws' \<Longrightarrow> unmarked ws ws'"
  using quiet_gates [of ws ws'] GetActiveGate_gates [of ws ws'] unfolding unmarked_def quiet_def by fastforce

lemma unmarked_refl: "unmarked ws ws"
  by (rule quiet_unmarked [OF quiet_refl])

lemma unmarked_trans: "unmarked ws ws1 \<Longrightarrow> unmarked ws1 ws2 \<Longrightarrow> unmarked ws ws2"
proof -
  assume a: "unmarked ws ws1" "unmarked ws1 ws2"
  then obtain o1 o2 where "ws1 = fold ws_exec o1 ws" "ws2 = fold ws_exec o2 ws1" unfolding unmarked_def by blast
  then have "ws2 = fold ws_exec (o1 @ o2) ws" by simp
  then show ?thesis using a unfolding unmarked_def by blast
qed

text \<open>The marker is set and cleared around the judgment.\<close>

lemma marked_run: "\<exists>ops. marked env story g now ws = fold ws_exec ops ws"
  "\<lbrakk>GetActiveGate (marked env story g now ws) i = Some ag; i \<noteq> rt_ID story\<rbrakk> \<Longrightarrow> GetActiveGate ws i = Some ag"
proof -
  let ?w1 = "kept_unless ws (map_sum id snd (InboxAppend (re_clock env) (rt_ID story) ''review_requested''
            (''gate '' @ g @ '': from '' @ rt_Status story)
            (re_encode env [(''gate'', JStr g), (''from_status'', JStr (rt_Status story))]) (Some (now 1)) ws))"
  have m: "marked env story g now ws = ws_exec (OpSetGate (re_clock env) (rt_ID story) (or_else g ''work-step'') (Some (now 2))) ?w1"
    by (simp add: marked_def Let_def)
  obtain ops where "?w1 = fold ws_exec ops ws" using quiet_inbox unfolding quiet_def by blast
  then show "\<exists>ops. marked env story g now ws = fold ws_exec ops ws"
    unfolding m by (intro exI [of _ "ops @ [OpSetGate (re_clock env) (rt_ID story) (or_else g ''work-step'') (Some (now 2))]"]) simp
  show "GetActiveGate ws i = Some ag" if "GetActiveGate (marked env story g now ws) i = Some ag" "i \<noteq> rt_ID story"
    using that quiet_gates [OF quiet_inbox, of ws]
    unfolding m by (auto simp: GetActiveGate_def kept_unless_def SetActiveGate_def Let_def row_at_upsert split: if_splits)
qed

lemma run_gate_unmarked: "unmarked (fst st) (fst (snd (run_gate env rm g sel story body gov es e2 prior now st)))"
proof -
  let ?m = "marked env story g now (fst st)"
  let ?j = "fst (snd (judge_and_enact env rm g sel story body gov es e2 prior (recentGateLedger rm (rt_ID story) st)
      (reviewStepSummariserSkill env rm story (snd st)) now (?m, snd st)))"
  have r: "fst (snd (run_gate env rm g sel story body gov es e2 prior now st)) = ws_exec (OpClearGate (rt_ID story)) ?j"
    by (simp add: run_gate_def Let_def split_beta)
  have q: "quiet ?m ?j" using quiet_judged [where st = "(?m, snd st)"] by simp
  obtain o1 o2 where o: "?m = fold ws_exec o1 (fst st)" "?j = fold ws_exec o2 ?m" using marked_run(1) q unfolding quiet_def by metis
  have "ws_exec (OpClearGate (rt_ID story)) ?j = fold ws_exec (o1 @ o2 @ [OpClearGate (rt_ID story)]) (fst st)" using o by simp
  moreover have "GetActiveGate (fst st) i = Some ag" if "GetActiveGate (ws_exec (OpClearGate (rt_ID story)) ?j) i = Some ag" for i ag
  proof -
    have "i \<noteq> rt_ID story" "GetActiveGate ?j i = Some ag"
      using that by (auto simp: GetActiveGate_def ClearActiveGate_def row_at_delete split: if_splits)
    then show ?thesis using marked_run(2) GetActiveGate_gates [OF quiet_gates [OF q]] by metis
  qed
  ultimately show ?thesis unfolding r unmarked_def by blast
qed

lemma dispatch_unmarked: "unmarked (fst st) (fst (snd (dispatch_review env rm g sel story body gov es e2 now st)))"
  by (simp add: dispatch_review_def Let_def unmarked_refl run_gate_unmarked split: option.split)

lemma dispatched_unmarked: "unmarked ws (fst (snd (dispatch_review env rm g sel story body gov es e2 now (ws, srv))))"
  using dispatch_unmarked [where st = "(ws, srv)"] by simp

lemma flushed_unmarked: "unmarked ws (fst (flushLocalInbox env rm story (ws, srv)))"
  using quiet_unmarked [OF quiet_flush [of "(ws, srv)" env rm story]] by simp

lemma claimed_unmarked: "unmarked ws (fst (snd (claimed_review env rm opts g sel story body gov es e2 now (ws, srv))))"
  by (simp add: claimed_review_def Let_def unmarked_refl dispatched_unmarked flushed_unmarked split_beta split: sum.split)

lemma run_unmarked: "unmarked ws (fst (snd (runReview env rm opts now (ws, srv))))"
proof -
  have c: "unmarked ws (fst (snd (claimed_review env rm opts g sel story body gov es e2 now (ws1, s))))"
    if "ClaimWork i a stt l t ws = Inr ws1" for i a stt l t ws1 g sel story body gov es e2 s
    by (rule unmarked_trans [OF quiet_unmarked [OF quiet_claim [OF that]] claimed_unmarked])
  show ?thesis by (auto simp: runReview_def Let_def unmarked_refl c split: option.split sum.split prod.split)
qed

text \<open>
  C6: A run keeps the store. Whatever the server, the gate and the command do, and however the run ends, the store is
  left as a sequence of its operations leaves it: it stays well formed, its event log and its evidence only grow, and no
  marker of a running gate is left behind that was not there before.
\<close>

theorem review_keeps_store:
  assumes "ws_ok ws" and "runReview env rm opts now (ws, srv) = (r, ws', srv')"
  shows "ws_ok ws' \<and> (\<exists>new. ai_rows (st_events ws') = ai_rows (st_events ws) @ new) \<and>
    (\<exists>new. ai_rows (st_evidence ws') = ai_rows (st_evidence ws) @ new) \<and>
    (\<forall>i ag. GetActiveGate ws' i = Some ag \<longrightarrow> GetActiveGate ws i = Some ag)"
proof -
  obtain ops where ops: "ws' = fold ws_exec ops ws" and g: "\<forall>i ag. GetActiveGate ws' i = Some ag \<longrightarrow> GetActiveGate ws i = Some ag"
    using run_unmarked [of ws env rm opts now srv] assms(2) unfolding unmarked_def by auto
  show ?thesis using evlog.ok_run [OF assms(1)] evlog.run_grows [OF assms(1)] qalog.run_grows [OF assms(1)] g unfolding ops by blast
qed

theorem review_keeps_store_witness:
  "ws_ok (fst (snd (demo_run True gate_integration ''integration''))) \<and>
   st_gates (fst (snd (demo_run True gate_integration ''integration''))) = [] \<and>
   length (ai_rows (st_evidence (fst (snd (demo_run True gate_integration ''integration''))))) = 1"
proof -
  obtain r ws s where run: "demo_run True gate_integration ''integration'' = (r, ws, s)" by (metis prod_cases3)
  have "ws_ok ws" using review_keeps_store [OF ws_ok_migrate run [unfolded demo_run_def]] by blast
  moreover have "st_gates (fst (snd (demo_run True gate_integration ''integration''))) = [] \<and>
      length (ai_rows (st_evidence (fst (snd (demo_run True gate_integration ''integration''))))) = 1" by code_simp
  ultimately show ?thesis using run by simp
qed

end
