(* ===== verification/StoryReviewCases.thy ===== *)
theory StoryReviewCases
  imports StoryReviewProps
begin

text \<open>
  The branches of \<open>status_transition\<close>: foreign claims, the bound of a fail loop, the recent context, refused
  appends, the flush of the inbox and the checkpoint into a state that runs a command.
\<close>

section \<open>Bounds\<close>

lemma Atoi_range: "Atoi s = Some n \<Longrightarrow> int64 n"
  by (auto simp: Atoi_def Let_def split: prod.splits if_splits list.splits)

text \<open>
  C8: Bounds on what is read from outside. The override of the bound read from a variable is a number
  from 0 to the largest 64-bit integer, whatever the text; it never bounds a state that is unbounded and never frees one that is
  bounded; and the notes keep at most 1003 bytes of what a command prints.
\<close>

theorem outside_bounded:
  "0 \<le> parseMaxIterations v \<and> parseMaxIterations v < 2 ^ 63 \<and>
   (0 < v2_MaxIterations (bounded rm story es e2 srv)) = (0 < v2_MaxIterations es) \<and>
   length (output_tail out) \<le> 1003"
  using Atoi_range [of "TrimSpace v"]
  by (auto simp: parseMaxIterations_def bounded_def output_tail_def ellipsis_def Let_def int64_def split: option.splits)

section \<open>Foreign claims\<close>

text \<open>
  C7: Exclusion across reviewers. While another claimant's lease on the story lives, a run sends no row and leaves the store
  as it is, whichever action it asks for: it ends with an error. (Only the copy of the workflow in the story may have
  been stamped anew before.)
\<close>

theorem foreign_claim_refuses:
  assumes "reviewGetStory rm (ro_StoryID opts) srv = Inr (story, body)" and "\<not> ro_Explain opts"
    and "held_by (ReadWorkClaim ws (rt_ID story)) a until" and "a \<noteq> []" and "re_claimant env \<noteq> a" and "now 0 < until * second"
  shows "\<exists>e s. runReview env (logging rm) opts now (ws, srv, []) = (Inl e, ws, s, [])"
proof -
  let ?sel = "WorkflowSelector (rt_Tags story)"
  have get: "reviewGetStory (logging rm) (ro_StoryID opts) (srv, []) = Inr (story, body)"
    using assms(1) by (simp add: reviewGetStory_def)
  obtain b es gov s where h: "self_heal env (logging rm) ?sel story body (srv, []) = ((b, es, gov), s)" by (metis prod.collapse)
  have s: "\<exists>x. s = (x, [])" using healed_rows [OF h] by (metis prod.collapse snd_conv)
  have "\<exists>e. ClaimWork (rt_ID story) (re_claimant env) (rt_Status story) claimLeaseTTL (now 0) ws = Inl e"
    using ClaimWork_refused [OF _ assms(3,4,5,6)] by (cases "TrimSpace (rt_ID story) = []") (auto simp: ClaimWork_def)
  then obtain e where e: "ClaimWork (rt_ID story) (re_claimant env) (rt_Status story) claimLeaseTTL (now 0) ws = Inl e" by blast
  show ?thesis using get assms(2) h s e by (auto simp: runReview_def Let_def split: option.split)
qed

definition bob_claims :: workstate where
  "bob_claims = kept_unless migrate (ClaimWork ''y1'' ''bob@host'' ''integration'' claimLeaseTTL 0 migrate)"

theorem foreign_claim_refuses_witness:
  "\<exists>e s. runReview demo_review (logging (demo_remote True)) (gate_request gate_integration) (\<lambda>k. int k * second) (bob_claims, ''integration'', []) =
     (Inl e, bob_claims, s, [])"
proof -
  obtain story where g: "reviewGetStory (demo_remote True) ''y1'' ''integration'' = Inr (story, ''Fix it'')" "rt_ID story = ''y1''"
    using demo_story_read by blast
  have o': "ro_StoryID (gate_request gate_integration) = ''y1''" "\<not> ro_Explain (gate_request gate_integration)" by (simp_all add: gate_request_def)
  have h: "held_by (ReadWorkClaim bob_claims ''y1'') ''bob@host'' 1500" unfolding held_by_def by code_simp
  have c: "re_claimant demo_review \<noteq> ''bob@host''" by code_simp
  show ?thesis
    using foreign_claim_refuses [of "demo_remote True" "gate_request gate_integration" "''integration''" story "''Fix it''" bob_claims
        "''bob@host''" 1500 demo_review "\<lambda>k. int k * second"] g o' h c by (simp add: second_def)
qed

section \<open>The recent context\<close>

text \<open>
  The recent context is not recent. Without rows in the inbox, the gate is given the tail of the first
  page of the ledger, and the ledger is listed from the oldest row on. So on a story with more than 200 rows every gate run is
  given the rows 196 to 200, and never the newest.
\<close>

theorem stale_recent_context:
  assumes "InboxReadRecent ws i 5 = []" and "rm_list rm srv = LedgerList rows" and "TrimSpace i \<noteq> []"
    and "es = sort_key entry_key (filter (entry_matches (anyEntry\<lparr>lf_StoryID := i\<rparr>)) rows)" and "200 < length es" and "distinct es"
  shows "recentGateLedger rm i (ws, srv) = FromLedger (take 5 (drop 195 es)) \<and> last es \<notin> set (take 5 (drop 195 es))"
proof -
  have u: "\<not> unfiltered (anyEntry\<lparr>lf_StoryID := i\<rparr>)" using assms(3) by (simp add: unfiltered_def)
  have l: "list_limit 200 2000 (lf_Limit anyEntry) = 200" by (simp add: list_limit_def anyEntry_def)
  have len: "length (filter (entry_matches (anyEntry\<lparr>lf_StoryID := i\<rparr>)) rows) = length es" by (simp add: assms(4))
  have "fst (projr (LedgerList rows (anyEntry\<lparr>lf_StoryID := i\<rparr>) NoCursor)) = take 200 es \<and>
      \<not> isl (LedgerList rows (anyEntry\<lparr>lf_StoryID := i\<rparr>) NoCursor)"
    using assms(5) len unfolding LedgerList_def by (simp add: u l Let_def assms(4) [symmetric] min_def)
  then obtain c where page: "LedgerList rows (anyEntry\<lparr>lf_StoryID := i\<rparr>) NoCursor = Inr (take 200 es, c)"
    by (cases "LedgerList rows (anyEntry\<lparr>lf_StoryID := i\<rparr>) NoCursor") auto
  have "recentGateLedger rm i (ws, srv) = FromLedger (drop 195 (take 200 es))"
    using assms(1,5) by (simp add: recentGateLedger_def assms(2) page last_five_def min_def)
  moreover have "drop 195 (take 200 es) = take 5 (drop 195 es)" by (simp add: drop_take)
  moreover have "last es \<notin> set (take 200 es)"
  proof -
    have "es = take 200 es @ drop 200 es" by simp
    moreover have "last es \<in> set (drop 200 es)" using assms(5) by (metis drop_eq_Nil last_drop last_in_set not_le)
    ultimately show ?thesis using assms(6) by (metis IntI distinct_append empty_iff)
  qed
  ultimately show ?thesis by (metis in_set_dropD)
qed

definition many_rows :: "Entry list" where
  "many_rows = map (\<lambda>n. \<lparr>ey_ID = itoa (int n), ey_StoryID = ''y1'', ey_ProjectID = [], ey_WorkspaceID = [], ey_SessionID = [],
     ey_RunID = [], ey_Kind = ''note'', ey_Actor = [], ey_Body = [], ey_Payload = [], ey_Refs = [], ey_CreatedAt = int n\<rparr>) [0..<201]"

theorem stale_recent_context_witness:
  "recentGateLedger ((demo_remote True)\<lparr>rm_list := (\<lambda>s. LedgerList many_rows)\<rparr>) ''y1'' (migrate, []) =
     FromLedger (take 5 (drop 195 (sort_key entry_key many_rows)))"
proof -
  have f: "filter (entry_matches (anyEntry\<lparr>lf_StoryID := ''y1''\<rparr>)) many_rows = many_rows"
    by (auto simp: many_rows_def filter_id_conv entry_matches_def cond_eq_def anyEntry_def trimNonEmpty_def Let_def)
  have d: "distinct many_rows" by (simp add: many_rows_def distinct_map inj_on_def)
  have "InboxReadRecent migrate ''y1'' 5 = []" by code_simp
  moreover have "TrimSpace ''y1'' \<noteq> []" by code_simp
  moreover have "200 < length (sort_key entry_key many_rows)" by (simp add: many_rows_def)
  ultimately show ?thesis
    using stale_recent_context [of migrate "''y1''" "(demo_remote True)\<lparr>rm_list := (\<lambda>s. LedgerList many_rows)\<rparr>" "[]" many_rows
        "sort_key entry_key many_rows"] f d by simp
qed

section \<open>The flush\<close>

lemma flush_inbox_seq:
  "flush_inbox env rm story mark ms n q srv = (n', q', srv') \<Longrightarrow>
     q \<le> q' \<and> n \<le> n' \<and> (\<forall>m \<in> set ms. im_Seq m \<le> mark \<or> im_Seq m \<le> q') \<and> (n' = n \<longrightarrow> (\<forall>m \<in> set ms. im_Seq m \<le> mark) \<and> srv' = srv)"
proof (induction env rm story mark ms n q srv rule: flush_inbox.induct)
  case (2 env rm story mark m ms n q srv)
  then show ?case by (cases "im_Seq m \<le> mark") (fastforce split: if_splits)+
qed simp

lemma flush_inbox_none: "\<forall>m \<in> set ms. im_Seq m \<le> mark \<Longrightarrow> flush_inbox env rm story mark ms n q srv = (n, q, srv)"
  by (induction ms) auto

lemma flush_nothing:
  assumes "\<forall>m \<in> set (InboxReadAll ws (rt_ID story)). im_Seq m \<le> wc_LastSeq (ReadWorkClaim ws (rt_ID story))"
  shows "flushLocalInbox env rm story (ws, srv) = (ws, srv)"
  using flush_inbox_none [OF assms, of env rm story] by (simp add: flushLocalInbox_def Let_def)

lemma flush_inbox_refused:
  "rm_append rm = (\<lambda>a s. None) \<Longrightarrow> snd (snd (flush_inbox env rm story mark ms n q srv)) = srv"
  by (induction env rm story mark ms n q srv rule: flush_inbox.induct) (auto simp: reviewAppendLedger_def)

text \<open>
  Refused rows are lost. When the server refuses the appends of a flush, the mark advances all the same:
  nothing has arrived, and no later flush, to whichever server, sends the rows again.
\<close>

theorem flush_forgets_refused_rows:
  assumes "TrimSpace (rt_ID story) \<noteq> []" and "rm_append rm = (\<lambda>a s. None)"
  shows "snd (flushLocalInbox env rm story st) = snd st \<and>
    flushLocalInbox env2 rm2 story (fst (flushLocalInbox env rm story st), srv) = (fst (flushLocalInbox env rm story st), srv)"
proof -
  let ?i = "rt_ID story" and ?ms = "InboxReadAll (fst st) (rt_ID story)"
  let ?mark = "wc_LastSeq (ReadWorkClaim (fst st) ?i)"
  obtain n q s where f: "flush_inbox env rm story ?mark ?ms 0 ?mark (snd st) = (n, q, s)" by (metis prod_cases3)
  have s: "s = snd st" using flush_inbox_refused [OF assms(2), of env story ?mark ?ms 0 ?mark "snd st"] f by simp
  show ?thesis
  proof (cases "n = 0")
    case True
    then have "flushLocalInbox env rm story st = st" using f s by (simp add: flushLocalInbox_def Let_def)
    moreover have "\<forall>m \<in> set ?ms. im_Seq m \<le> ?mark" using flush_inbox_seq [OF f] True by blast
    ultimately show ?thesis using flush_nothing [of "fst st" story env2 rm2 srv] by simp
  next
    case False
    let ?ws = "ws_exec (OpAdvance ?i q) (fst st)"
    have r: "flushLocalInbox env rm story st = (?ws, snd st)" using f s False by (simp add: flushLocalInbox_def Let_def)
    have same: "InboxReadAll ?ws ?i = ?ms" using assms(1) by (simp add: InboxReadAll_def AdvanceInboxFlush_def kept_unless_def)
    have "?mark \<le> wc_LastSeq (ReadWorkClaim ?ws ?i) \<and> q \<le> wc_LastSeq (ReadWorkClaim ?ws ?i)"
      using flush_inbox_seq [OF f] assms(1) unfolding read_claim_advance by (auto simp: ReadWorkClaim_def noClaim_def split: option.splits)
    then have "\<forall>m \<in> set (InboxReadAll ?ws ?i). im_Seq m \<le> wc_LastSeq (ReadWorkClaim ?ws ?i)"
      unfolding same using flush_inbox_seq [OF f] by fastforce
    then show ?thesis unfolding r using flush_nothing [of ?ws story env2 rm2 srv] by (simp del: ws_exec.simps)
  qed
qed

definition staged_story :: workstate where
  "staged_story = ws_exec (OpInbox 0 ''y1'' ''step_summary'' ''done'' ''{}'' (Some 0)) migrate"

definition demo_bug_story :: reviewStory where
  "demo_bug_story = \<lparr>rt_ID = ''y1'', rt_Type = ''story'', rt_Status = ''integration'', rt_Category = ''bug'', rt_ProjectID = ''p1'',
     rt_WorkspaceID = ''w1'', rt_Tags = []\<rparr>"

theorem flush_forgets_refused_rows_witness:
  "length (InboxReadAll staged_story ''y1'') = 1 \<and>
   flushLocalInbox demo_review (demo_remote True) demo_bug_story
     (fst (flushLocalInbox demo_review ((demo_remote True)\<lparr>rm_append := (\<lambda>a s. None)\<rparr>) demo_bug_story (staged_story, ''done'')), ''done'') =
   (fst (flushLocalInbox demo_review ((demo_remote True)\<lparr>rm_append := (\<lambda>a s. None)\<rparr>) demo_bug_story (staged_story, ''done'')), ''done'')"
proof -
  have 1: "TrimSpace (rt_ID demo_bug_story) \<noteq> []" by code_simp
  have 2: "length (InboxReadAll staged_story ''y1'') = 1" by code_simp
  show ?thesis using flush_forgets_refused_rows [OF 1, of "(demo_remote True)\<lparr>rm_append := (\<lambda>a s. None)\<rparr>"
        demo_review "(staged_story, ''done'')" demo_review "demo_remote True" "''done''"] 2 by simp
qed

section \<open>Refused verdicts\<close>

text \<open>The server with every append refused.\<close>

abbreviation refusing :: "'srv remote \<Rightarrow> 'srv remote" where
  "refusing rm \<equiv> rm\<lparr>rm_append := (\<lambda>a s. None)\<rparr>"

lemma refusing_append [simp]: "append_rows (refusing rm) story rows srv = srv"
  by (induction rows) (auto simp: append_rows_def reviewAppendLedger_def)

lemma conclude_reviewed:
  "fst (conclude env rm story gov g out b o' summary now st) = Inr (Reviewed d obs) \<Longrightarrow> d = go_Decision out"
  by (auto simp: conclude_def Let_def split: option.splits)

lemma conclude_enacted: "\<exists>obs. fst (conclude env rm story gov g out True o' summary now st) = Inr (Reviewed (go_Decision out) obs)"
  by (auto simp: conclude_def Let_def enactMismatch_def split: option.split)

lemma conclude_refusing: "fst (conclude env (refusing rm) story gov g out b o' summary now st) = fst (conclude env rm story gov g out b o' summary now st)"
  by (simp add: conclude_def Let_def reviewObserveStatus_def split: option.split)

lemma enactment_none: "enactment es e2 gated s g n out = Inr (rows, False) \<Longrightarrow> rows = []"
  by (auto simp: enactment_def v1_rows_def split: if_splits option.splits sum.splits)

lemma judged_refusing:
  assumes "fst (judge_and_enact env rm g sel story body gov es e2 prior recent summariser now st) = Inr (Reviewed d obs)"
  shows "\<exists>obs'. fst (judge_and_enact env (refusing rm) g sel story body gov es e2 prior recent summariser now st) = Inr (Reviewed d obs')"
proof -
  let ?skill = "stage_skill summariser"
  obtain out0 where j: "judge env es (rt_Status story) g (re_gate_input env g story body recent) = Inr out0"
    using assms by (auto simp: judge_and_enact_def split: sum.splits)
  obtain out summary where o': "stage_review env (v2_Actor es) ?skill (re_stage_input env ?skill story body recent) out0 = (out, summary)"
    by fastforce
  obtain rows b where e: "enactment es e2 (gated_for env sel story body g) (rt_Status story) g prior out = Inr (rows, b)"
    using assms j o' by (auto simp: judge_and_enact_def Let_def split: sum.splits)
  have c: "fst (conclude env rm story gov g out b (v2_IsV2 es \<and> \<not> e2) summary now (fst st, append_rows rm story rows (snd st))) = Inr (Reviewed d obs)"
    using assms j o' e by (simp add: judge_and_enact_def Let_def)
  have r: "judge_and_enact env (refusing rm) g sel story body gov es e2 prior recent summariser now st =
      conclude env (refusing rm) story gov g out b (v2_IsV2 es \<and> \<not> e2) summary now st"
    using j o' e by (simp add: judge_and_enact_def Let_def)
  show ?thesis
  proof (cases b)
    case True
    then show ?thesis unfolding r using conclude_enacted [of env "refusing rm"] conclude_reviewed [OF c] by simp
  next
    case False
    then have "rows = []" using enactment_none e by simp
    then have "append_rows rm story rows (snd st) = snd st" by (simp add: append_rows_def)
    then show ?thesis unfolding r conclude_refusing using c by simp
  qed
qed

lemma refusing_fields:
  "rm_get (refusing rm) = rm_get rm" "rm_body (refusing rm) = rm_body rm" "rm_list (refusing rm) = rm_list rm"
  "rm_variable (refusing rm) = rm_variable rm" "rm_config (refusing rm) = rm_config rm"
  by simp_all

lemma refusing_reads [simp]:
  "reviewGetStory (refusing rm) = reviewGetStory rm" "self_heal env (refusing rm) = self_heal env rm"
  "bounded (refusing rm) = bounded rm" "prior_rejects env (refusing rm) = prior_rejects env rm"
  "recentGateLedger (refusing rm) = recentGateLedger rm" "reviewStepSummariserSkill env (refusing rm) = reviewStepSummariserSkill env rm"
  by (intro ext; unfold reviewGetStory_def self_heal_def bounded_def resolveWorkflowMaxIterations_def prior_rejects_def
      recentGateLedger_def reviewStepSummariserSkill_def refusing_fields; rule refl)+

lemma fst_run_gate:
  "fst (run_gate env rm g sel story body gov es e2 prior now st) =
     fst (judge_and_enact env rm g sel story body gov es e2 prior (recentGateLedger rm (rt_ID story) st)
       (reviewStepSummariserSkill env rm story (snd st)) now (marked env story g now (fst st), snd st))"
  by (simp add: run_gate_def Let_def split_beta)

lemma dispatch_refusing:
  "fst (dispatch_review env rm g sel story body gov es e2 now st) = Inr (Reviewed d obs) \<Longrightarrow>
   \<exists>obs'. fst (dispatch_review env (refusing rm) g sel story body gov es e2 now st) = Inr (Reviewed d obs')"
  by (auto simp: dispatch_review_def Let_def fst_run_gate split: option.splits if_splits intro: judged_refusing)

lemma claimed_gate:
  assumes "\<not> ro_Checkpoint opts"
  shows "claimed_review env rm opts g sel story body gov es e2 now st =
    (case decision_for env opts g sel story body es (checkpoint_for env sel story body) of
       Inl e \<Rightarrow> (Inl e, st) | Inr enact \<Rightarrow> dispatch_review env rm g sel story body gov es e2 now st)"
  using assms by (auto simp: claimed_review_def Let_def checkpointDecision_def split: sum.split if_splits)

text \<open>
  A refused verdict is reported as done. If a gate run ends with a verdict, then with the same server
  refusing every append (an executor's API key, a lost connection after the read) it ends with the same verdict and
  without an error, although neither the verdict nor the transition was stored.
\<close>

theorem refused_verdict_succeeds:
  assumes "\<not> ro_Checkpoint opts" and "fst (runReview env rm opts now st) = Inr (Reviewed d obs)"
  shows "\<exists>obs'. fst (runReview env (refusing rm) opts now st) = Inr (Reviewed d obs')"
proof -
  have c: "fst (claimed_review env rm opts g sel story body gov es e2 now st1) = Inr (Reviewed d obs) \<Longrightarrow>
      \<exists>obs'. fst (claimed_review env (refusing rm) opts g sel story body gov es e2 now st1) = Inr (Reviewed d obs')" for g sel story body gov es e2 st1
    unfolding claimed_gate [OF assms(1)] by (auto intro: dispatch_refusing split: sum.splits)
  show ?thesis using assms(2) c
    by (auto simp: runReview_def Let_def split: if_splits option.splits sum.splits prod.splits)
qed

theorem refused_verdict_succeeds_witness:
  "\<exists>obs. fst (runReview demo_review (refusing (demo_remote True)) (gate_request gate_integration) (\<lambda>k. int k * second) (migrate, ''integration'')) =
     Inr (Reviewed ''accept'' obs)"
proof -
  have "\<not> ro_Checkpoint (gate_request gate_integration)" by code_simp
  moreover have "fst (runReview demo_review (demo_remote True) (gate_request gate_integration) (\<lambda>k. int k * second) (migrate, ''integration'')) =
      Inr (Reviewed ''accept'' ''shipping'')" by code_simp
  ultimately show ?thesis by (rule refused_verdict_succeeds)
qed

section \<open>A checkpoint into a state that runs a command\<close>

lemma conclude_out_of_band: "\<exists>obs. fst (conclude env rm story gov g out b True summary now st) = Inr (Reviewed (go_Decision out) obs)"
  by (auto simp: conclude_def Let_def enactMismatch_def split: option.split)

lemma actor_stalls:
  assumes "v2_Actor es = ''satellites''" and "v2_IsV2 es" and "v2_Command es \<noteq> []"
  shows "\<exists>obs. fst (dispatch_review env rm g sel story body gov es False now st) =
    Inr (Reviewed (go_Decision (runSatellitesActorCommand env (v2_Command es))) obs)"
proof -
  have b: "bounded rm story es False srv = es" for srv by (simp add: bounded_def Let_def)
  show ?thesis using assms conclude_out_of_band
    by (simp add: dispatch_review_def Let_def b prior_rejects_def fst_run_gate judge_and_enact_def judge_def stage_review_def enactment_def)
qed

text \<open>
  A checkpoint into a command stalls. The review that enacts a checkpoint and lands on a state with a command
  of its own runs the command, but whether that state's edges may be enacted was decided for the state
  that was left. So whatever the command returns, no pass or fail edge is enacted: the story stays where the checkpoint
  put it, and the run ends without an error, with the decision of the command.
\<close>

theorem checkpoint_into_actor_stalls:
  assumes "reviewGetStory rm (ro_StoryID opts) srv = Inr (story, body)" and "ro_StoryID opts \<noteq> []"
    and "TrimSpace (ro_Skill opts) = []" and "ro_Checkpoint opts" and "\<not> ro_Explain opts"
    and "WorkflowSelector (rt_Tags story) = []" and "unstaged (rt_ID story) ws"
    and "GoverningReconcile (re_yaml env) [] body (rt_Status story) (rt_Category story) (governingWorkflowSources (re_tiers env)) = (es, gov, NoDrift)"
    and "\<not> v2_IsV2 es" and "v2_Actor es \<noteq> ''operator''"
    and "GoverningCheckpoint (re_yaml env) [] body (rt_Status story) (rt_Category story) (governingWorkflowSources (re_tiers env)) = Some t"
    and "fst (GoverningReconcile (re_yaml env) [] body t (rt_Category story) (governingWorkflowSources (re_tiers env))) = es'"
    and "v2_Actor es' = ''satellites''" and "v2_IsV2 es'" and "v2_Command es' \<noteq> []"
    and "ClaimWork (rt_ID story) (re_claimant env) (rt_Status story) claimLeaseTTL (now 0) ws = Inr held"
    and "runReview env (logging rm) opts now (ws, srv, []) = (r, ws', srv', rows)"
  shows "(\<exists>obs. r = Inr (Reviewed (go_Decision (runSatellitesActorCommand env (v2_Command es'))) obs)) \<and>
    (\<forall>a \<in> set (transitions rows). map_of (an_Payload a) ''to_status'' = Some (JStr t))"
proof -
  let ?st = "(held, hopped (logging rm) story t (srv, []))"
  let ?d = "dispatch_review env (logging rm) [] [] (story\<lparr>rt_Status := t\<rparr>) body gov es' False now ?st"
  have dec: "decision_for env opts [] [] story body es (Some t) = Inr True" using assms(4,9,10) by (simp add: checkpointDecision_def)
  have c: "claimed_review env (logging rm) opts [] [] story body gov es False now (held, srv, []) = ?d"
    using claimed_hop [OF assms(11) dec, where rm = "logging rm" and gov = gov and ev = False and now = now and st = "(held, srv, [])"] assms(12,13) by simp
  have "reviewGetStory (logging rm) (ro_StoryID opts) (srv, []) = Inr (story, body)" using assms(1) by (simp add: reviewGetStory_def)
  moreover have "self_heal env (logging rm) [] story body (srv, []) = ((body, es, gov), (srv, []))" using assms(8) by (simp add: self_heal_def Let_def)
  moreover have "action_error opts = None" using assms(3,4) by (simp add: action_error_def)
  ultimately have run: "runReview env (logging rm) opts now (ws, srv, []) = ?d"
    using assms(2,3,5,6,9,10,16) c by (simp add: runReview_def Let_def selector_error_def)
  have "transitions (snd (snd (snd ?d))) = transitions (snd (snd ?st))"
  proof (rule dispatched_stalls)
    have "st_inbox held = st_inbox ws" using assms(16) by (auto simp: ClaimWork_def Let_def split: if_splits)
    then show "unstaged (rt_ID (story\<lparr>rt_Status := t\<rparr>)) (fst ?st)" using assms(7) by (simp add: unstaged_def)
  qed (rule assms(13))
  moreover have d: "?d = (r, ws', srv', rows)" using run assms(17) by metis
  ultimately have "transitions rows = transitions (snd (snd ?st))" by (metis snd_conv)
  moreover have "\<forall>a \<in> set (transitions (snd (snd ?st))). map_of (an_Payload a) ''to_status'' = Some (JStr t)"
    using append_logged [of rm story "''status_transition''" "rt_Status story @ arrow @ t @ '' (checkpoint)''" "checkpoint_row (rt_Status story) t" "(srv, [])"]
    by (auto simp: checkpoint_row_def append_row_def transitions_def split: if_splits)
  ultimately show ?thesis
    using actor_stalls [OF assms(13-15), of env "logging rm" "[]" "[]" "story\<lparr>rt_Status := t\<rparr>" body gov now ?st] d by (metis fst_conv)
qed

text \<open>A machine whose checkpoint lands on a state with a command, which fails.\<close>

definition command_machine :: "State list \<times> Transition list" where
  "command_machine = ([\<lparr>st_Name = ''work'', st_Actor = ''executor'', st_Command = []\<rparr>,
       \<lparr>st_Name = ''check'', st_Actor = ''satellites'', st_Command = ''make check''\<rparr>,
       \<lparr>st_Name = ''done'', st_Actor = [], st_Command = []\<rparr>, \<lparr>st_Name = ''stuck'', st_Actor = ''operator'', st_Command = []\<rparr>],
     [edge ''work'' ''check'' [] [] 0 [] ''checkpoint'', edge ''check'' ''done'' [] ''pass'' 0 [] [],
      edge ''check'' ''work'' [] ''fail'' 2 ''stuck'' []])"

definition command_env :: review_env where
  "command_env = demo_review\<lparr>re_yaml := source_yaml\<lparr>yaml_machine := (\<lambda>s. Some command_machine)\<rparr>, re_command := (\<lambda>c. (Some ''exit 2'', []))\<rparr>"

definition checkpoint_request :: reviewOpts where
  "checkpoint_request = \<lparr>ro_StoryID = ''y1'', ro_Skill = [], ro_Checkpoint = True, ro_Explain = False\<rparr>"

theorem checkpoint_into_actor_stalls_witness:
  "\<exists>obs. fst (runReview command_env (logging (demo_remote True)) checkpoint_request (\<lambda>k. int k * second) (migrate, ''work'', [])) =
     Inr (Reviewed ''reject'' obs)"
proof -
  let ?src = "governingWorkflowSources (re_tiers command_env)" and ?story = "demo_bug_story\<lparr>rt_Status := ''work''\<rparr>"
  let ?rec = "\<lambda>s. GoverningReconcile (re_yaml command_env) [] ''Fix it'' s ''bug'' ?src"
  have get: "reviewGetStory (demo_remote True) (ro_StoryID checkpoint_request) ''work'' = Inr (?story, ''Fix it'')"
    by (simp add: reviewGetStory_def demo_remote_def demo_bug_def first_body_def checkpoint_request_def demo_bug_story_def)
  have o': "ro_StoryID checkpoint_request \<noteq> []" "TrimSpace (ro_Skill checkpoint_request) = []" "ro_Checkpoint checkpoint_request"
    "\<not> ro_Explain checkpoint_request" "WorkflowSelector (rt_Tags ?story) = []" by code_simp+
  have es: "snd (snd (?rec ''work'')) = NoDrift" "\<not> v2_IsV2 (fst (?rec ''work''))" "v2_Actor (fst (?rec ''work'')) \<noteq> ''operator''" by code_simp+
  have cp: "GoverningCheckpoint (re_yaml command_env) [] ''Fix it'' ''work'' ''bug'' ?src = Some ''check''" by code_simp
  have l: "v2_Actor (fst (?rec ''check'')) = ''satellites''" "v2_IsV2 (fst (?rec ''check''))" "v2_Command (fst (?rec ''check'')) \<noteq> []" by code_simp+
  have claim: "\<not> isl (ClaimWork ''y1'' (re_claimant command_env) ''work'' claimLeaseTTL 0 migrate)" by code_simp
  then obtain held where held: "ClaimWork ''y1'' (re_claimant command_env) ''work'' claimLeaseTTL 0 migrate = Inr held"
    by (cases "ClaimWork ''y1'' (re_claimant command_env) ''work'' claimLeaseTTL 0 migrate") auto
  have d: "go_Decision (runSatellitesActorCommand command_env (v2_Command (fst (?rec ''check'')))) = ''reject''" by code_simp
  have s: "rt_ID ?story = ''y1''" "rt_Status ?story = ''work''" "rt_Category ?story = ''bug''" by (simp_all add: demo_bug_story_def)
  obtain e0 g0 where rec: "?rec ''work'' = (e0, g0, NoDrift)" using es(1) by (metis prod_cases3 snd_conv)
  obtain r w z rows where run: "runReview command_env (logging (demo_remote True)) checkpoint_request (\<lambda>k. int k * second) (migrate, ''work'', []) = (r, w, z, rows)"
    by (metis prod.collapse)
  have land: "fst (GoverningReconcile (re_yaml command_env) [] ''Fix it'' ''check'' ''bug'' ?src) = fst (?rec ''check'')" by (rule refl)
  have "(\<exists>obs. r = Inr (Reviewed (go_Decision (runSatellitesActorCommand command_env (v2_Command (fst (?rec ''check''))))) obs)) \<and>
    (\<forall>a \<in> set (transitions rows). map_of (an_Payload a) ''to_status'' = Some (JStr ''check''))"
    by (rule checkpoint_into_actor_stalls [where rm = "demo_remote True" and opts = checkpoint_request and story = ?story and body = "''Fix it''"
          and ws = migrate and env = command_env and gov = g0 and es = e0 and held = held and now = "\<lambda>k. int k * second"])
      (use get o' s rec es cp l held run migrate_unstaged in simp_all)
  then show ?thesis using run d by auto
qed

end
