(* ===== verification/WorkflowCheck.thy ===== *)
theory WorkflowCheck
  imports Embedding GateOutput "HOL-Library.AList"
begin

text \<open>
  \<open>satellites workflow check\<close> of \<^verbatim>\<open>internal/cli/cmd_workflow_check.go\<close>: every drift check over
  the materialised skills, the workflow files and the stories, their composition, the listing of the stories and the verdict.
  A Go map is an association list with distinct keys; the order in which \<open>range\<close> visits its keys is the field
  \<open>ck_range\<close> of the environment, any reordering of the keys. Texts of findings are values of
  \<open>drift_message\<close>; \<open>ck_render\<close> is their formatting, which one sort compares.
\<close>

datatype drift_message =
    NoFrontmatter | NoDescription | NotParseable | Degenerate lifecycle_error | Orphan | Missing
  | Placement string string string
  | NonAtomic string | HostCoupled string | Ungoverned string | NotContained string
  | Shallow string "string list"
  | Ambiguous string nat "string list"
  | ModelConflict "string \<times> string" "string \<times> string"

record driftFinding =
  fi_Severity :: string
  fi_Code :: string
  fi_Artifact :: string
  fi_Message :: drift_message

record storyLite =
  sl_ID :: string
  sl_Name :: string
  sl_Category :: string
  sl_Status :: string
  sl_Body :: string

record check_env =
  ck_yaml :: yaml_codec
  ck_range :: "string list \<Rightarrow> string list"
  ck_resolvable :: "string \<Rightarrow> bool"
  ck_config_skill :: "string \<Rightarrow> bool"
  ck_render :: "drift_message \<Rightarrow> string"

type_synonym workflows = "(string \<times> Workflow) list"

definition ranges :: "check_env \<Rightarrow> (string \<times> 'v) list \<Rightarrow> (string \<times> 'v) list" where
  "ranges env m = map (\<lambda>k. (k, the (map_of m k))) (ck_range env (map fst m))"

definition Contains :: "string \<Rightarrow> string \<Rightarrow> bool" where
  "Contains s p = (Index s p \<noteq> None)"

definition block_finding :: "string \<Rightarrow> string \<Rightarrow> drift_message \<Rightarrow> driftFinding" where
  "block_finding code artifact msg = \<lparr>fi_Severity = ''block'', fi_Code = code, fi_Artifact = artifact, fi_Message = msg\<rparr>"

lemma block_finding_sel [simp]: "fi_Severity (block_finding c a m) = ''block''" "fi_Code (block_finding c a m) = c"
  "fi_Artifact (block_finding c a m) = a" "fi_Message (block_finding c a m) = m"
  by (simp_all add: block_finding_def)

section \<open>Local authorship and checkpoint gates\<close>

definition markLocalAuthorship :: "dir_entry list option \<Rightarrow> matSkill list \<Rightarrow> matSkill list" where
  "markLocalAuthorship dir skills =
     (let local = (case dir of None \<Rightarrow> [] | Some es \<Rightarrow>
            map (\<lambda>e. TrimSuffix (de_Name e) md_suffix) (filter (\<lambda>e. \<not> de_IsDir e \<and> HasSuffix (de_Name e) md_suffix) es))
      in map (\<lambda>s. if ms_name s \<in> set local then s\<lparr>ms_local := True\<rparr> else s) skills)"

definition gate_char :: "char \<Rightarrow> bool" where
  "gate_char c = (let n = of_char c in (97 \<le> n \<and> n \<le> (122 :: nat)) \<or> (48 \<le> n \<and> n \<le> 57) \<or> c = CHR ''-'')"

lemma after_run_le: "length (dropWhile p (drop (Suc 0) s)) - 2 \<le> length s"
  using length_dropWhile_le [of p "drop (Suc 0) s"] by simp

text \<open>The matches of \<^verbatim>\<open>\[\[([a-z0-9-]+)\]\]\<close>, from left to right, without overlaps.\<close>

function gate_refs :: "string \<Rightarrow> string list" where
  "gate_refs [] = []"
| "gate_refs (c # s) =
     (let run = takeWhile gate_char (drop 1 s); rest = dropWhile gate_char (drop 1 s) in
      if HasPrefix (c # s) ''[['' \<and> run \<noteq> [] \<and> HasPrefix rest '']]'' then run # gate_refs (drop 2 rest)
      else gate_refs s)"
  by pat_completeness auto
termination by (relation "measure length") (auto simp: less_Suc_eq_le intro: after_run_le)

definition checkpoint_heading :: string where "checkpoint_heading = ''## Checkpoint gates''"

definition checkpointGates :: "string \<Rightarrow> string list" where
  "checkpointGates body =
     (case Index body checkpoint_heading of
        None \<Rightarrow> []
      | Some i \<Rightarrow>
          (let section = drop i body in
           gate_refs (case Index (drop 3 section) (CHR 0x0A # h2) of None \<Rightarrow> section | Some j \<Rightarrow> take (j + 3) section)))"

section \<open>Skills\<close>

definition opens_with_frontmatter :: "string \<Rightarrow> bool" where
  "opens_with_frontmatter raw = (HasPrefix raw (frontmatterDelim @ [CHR 0x0A]) \<or> HasPrefix raw (frontmatterDelim @ [CHR 0x0D, CHR 0x0A]))"

definition checkSyncedSkillUsable :: "matSkill list \<Rightarrow> driftFinding list" where
  "checkSyncedSkillUsable = List.map_filter
     (\<lambda>s. if \<not> opens_with_frontmatter (ms_raw s) then Some (block_finding ''unusable-skill'' (ms_name s) NoFrontmatter)
          else if ms_description s = [] then Some (block_finding ''unusable-skill'' (ms_name s) NoDescription)
          else None)"

fun parseWorkflows :: "yaml_codec \<Rightarrow> workflows \<Rightarrow> matSkill list \<Rightarrow> workflows \<times> driftFinding list" where
  "parseWorkflows yaml wfs [] = (wfs, [])"
| "parseWorkflows yaml wfs (s # ss) =
     (if ms_kind s \<noteq> ''workflow'' then parseWorkflows yaml wfs ss
      else case ParseWorkflow yaml (ms_raw s) of
        Inl e \<Rightarrow> map_prod id ((#) (block_finding ''workflow-lifecycle'' (ms_name s) NotParseable)) (parseWorkflows yaml wfs ss)
      | Inr w \<Rightarrow>
          (case ValidateLifecycle w of
             Some e \<Rightarrow> map_prod id ((#) (block_finding ''workflow-lifecycle'' (ms_name s) (Degenerate e))) (parseWorkflows yaml wfs ss)
           | None \<Rightarrow> parseWorkflows yaml (AList.update (ms_name s) w wfs) ss))"

definition isReviewerSkillKind :: "string \<Rightarrow> bool" where
  "isReviewerSkillKind kind = (kind = ''reviewer'' \<or> kind = ''gate'')"

section \<open>Gates\<close>

definition reviewers :: "Workflow \<Rightarrow> string list" where
  "reviewers w = filter (\<lambda>g. g \<noteq> []) (map (\<lambda>t. TrimSpace (tr_ReviewerSkill t)) (wf_Transitions w))"

definition named_gates :: "check_env \<Rightarrow> matSkill list \<Rightarrow> workflows \<Rightarrow> string list" where
  "named_gates env skills wfs = remdups (concat (map (\<lambda>(name, w).
     reviewers w @ concat (map (\<lambda>s. checkpointGates (ms_body s)) (filter (\<lambda>s. ms_name s = name) skills))) (ranges env wfs)))"

definition checkGateCoverage :: "check_env \<Rightarrow> matSkill list \<Rightarrow> workflows \<Rightarrow> driftFinding list" where
  "checkGateCoverage env skills wfs =
     (let named = named_gates env skills wfs;
        orphans = filter (\<lambda>s. isReviewerSkillKind (ms_kind s) \<and> ms_name s \<notin> set named \<and> ms_local s) skills;
        missing = filter (\<lambda>g. g \<notin> set (map ms_name skills) \<and> \<not> ck_resolvable env g) (ck_range env named)
      in sort_key fi_Artifact (map (\<lambda>s. block_finding ''orphan-gate'' (ms_name s) Orphan) orphans @
           map (\<lambda>g. block_finding ''missing-gate'' g Missing) missing))"

definition bind_commands :: "string \<times> Workflow \<Rightarrow> (string \<times> string \<times> string) list \<Rightarrow> (string \<times> string \<times> string) list" where
  "bind_commands = (\<lambda>(name, w). fold (\<lambda>st m.
     let c = TrimSpace (st_Command st) in if c \<noteq> [] then AList.update c (name, st_Name st) m else m) (wf_States w))"

definition command_table :: "check_env \<Rightarrow> workflows \<Rightarrow> (string \<times> string \<times> string) list" where
  "command_table env wfs = fold bind_commands (ranges env wfs) []"

definition checkGatePlacementConflict :: "check_env \<Rightarrow> matSkill list \<Rightarrow> workflows \<Rightarrow> driftFinding list" where
  "checkGatePlacementConflict env skills wfs =
     (let commands = command_table env wfs in
      sort_key fi_Artifact (sort_key (\<lambda>f. ck_render env (fi_Message f)) (concat (map (\<lambda>s.
        if isReviewerSkillKind (ms_kind s) \<or> ms_kind s = ''workflow'' then []
        else List.map_filter (\<lambda>(c, wf, state). if Contains (ms_body s) c
          then Some (block_finding ''gate-placement-conflict'' (ms_name s) (Placement c wf state)) else None) (ranges env commands)) skills))))"

definition nonAtomicMarkers :: "string list" where
  "nonAtomicMarkers = [''Exit 1 (BLOCKED)'',
     ''exit 1 '' @ [CHR 0xE2, CHR 0x86, CHR 0x92] @ '' **do not commit**'', ''fail closed'']"

definition checkNonAtomicCandidates :: "matSkill list \<Rightarrow> driftFinding list" where
  "checkNonAtomicCandidates = List.map_filter
     (\<lambda>s. if isReviewerSkillKind (ms_kind s) \<or> ms_kind s = ''workflow'' then None
          else map_option (\<lambda>m. \<lparr>fi_Severity = ''advise'', fi_Code = ''nonatomic-candidate'', fi_Artifact = ms_name s, fi_Message = NonAtomic m\<rparr>)
            (find (\<lambda>m. Contains (ToLower (ms_body s)) (ToLower m)) nonAtomicMarkers))"

definition hostCoupledPatterns :: "string list" where
  "hostCoupledPatterns = [''.github/workflows'', ''.version'', ''internal/cli'', ''cmd/satellites'', ''fly.dev'']"

definition checkSystemScopeCoupling :: "matSkill list \<Rightarrow> driftFinding list" where
  "checkSystemScopeCoupling = List.map_filter
     (\<lambda>s. if \<not> EqualFold (ms_scope s) ''system'' then None
          else map_option (\<lambda>p. block_finding ''host-coupled-system'' (ms_name s) (HostCoupled p))
            (find (Contains (ms_body s)) hostCoupledPatterns))"

section \<open>Stories\<close>

definition terminalStoryStatuses :: "string list" where
  "terminalStoryStatuses = [''done'', ''cancelled'', ''deleted'']"

definition covered :: "workflows \<Rightarrow> string \<Rightarrow> bool" where
  "covered wfs category = list_ex (\<lambda>(n, w). list_ex (\<lambda>at0. let at = TrimSpace at0 in
     at = ''*'' \<or> EqualFold at category) (wf_AppliesTo w)) wfs"

definition checkStoryGovernance :: "yaml_codec \<Rightarrow> storyLite list \<Rightarrow> workflows \<Rightarrow> driftFinding list" where
  "checkStoryGovernance yaml stories wfs = List.map_filter
     (\<lambda>st. if ToLower (sl_Status st) \<in> set terminalStoryStatuses then None
           else if \<not> isl (ParseBody yaml (sl_Body st)) then None
           else if \<not> covered wfs (sl_Category st) then Some (block_finding ''ungoverned-story'' (sl_ID st) (Ungoverned (sl_Category st)))
           else None) stories"

definition checkSystemContained :: "check_env \<Rightarrow> matSkill list \<Rightarrow> workflows \<Rightarrow> driftFinding list" where
  "checkSystemContained env skills wfs = concat (map (\<lambda>s.
     if ms_kind s \<noteq> ''workflow'' \<or> \<not> EqualFold (ms_scope s) ''system'' then []
     else case map_of wfs (ms_name s) of
       None \<Rightarrow> []
     | Some w \<Rightarrow> map (\<lambda>g. block_finding ''system-not-contained'' (ms_name s) (NotContained g))
         (filter (\<lambda>g. \<not> ck_config_skill env g) (reviewers w))) skills)"

section \<open>The first gate\<close>

definition firstGateLayers :: "string list" where
  "firstGateLayers = [''shape'', ''plan'', ''acceptance'', ''workflow'', ''grounding'']"

definition by_name :: "matSkill list \<Rightarrow> string \<Rightarrow> matSkill option" where
  "by_name skills = map_of (rev (map (\<lambda>s. (ms_name s, s)) skills))"

definition missing_layers :: "matSkill \<Rightarrow> string list" where
  "missing_layers gate = filter (\<lambda>l. \<not> Contains (ToLower (ms_body gate)) l) firstGateLayers"

definition entry_gate_finding :: "matSkill list \<Rightarrow> string \<Rightarrow> Workflow \<Rightarrow> Transition \<Rightarrow> driftFinding option" where
  "entry_gate_finding skills wfName w t =
     (if tr_From t \<noteq> InitialState w \<or> TrimSpace (tr_ReviewerSkill t) = [] then None
      else case by_name skills (tr_ReviewerSkill t) of
        None \<Rightarrow> None
      | Some gate \<Rightarrow>
          if \<not> list_ex (\<lambda>t2. tr_From t2 = tr_To t) (wf_Transitions w) then None
          else let missing = missing_layers gate in
            if missing \<noteq> [] then Some (block_finding ''first-gate-shallow'' (ms_name gate) (Shallow wfName missing)) else None)"

definition checkFirstGateComprehensive :: "check_env \<Rightarrow> matSkill list \<Rightarrow> workflows \<Rightarrow> driftFinding list" where
  "checkFirstGateComprehensive env skills wfs = sort_key fi_Artifact (concat (map (\<lambda>(wfName, w).
     if InitialState w = [] then [] else List.map_filter (entry_gate_finding skills wfName w) (wf_Transitions w)) (ranges env wfs)))"

section \<open>Ambiguous defaults\<close>

definition sourceRank :: "string \<Rightarrow> int" where
  "sourceRank s = (if s = ''local'' then 0 else if s = ''skill'' then 1 else if s = ''embed'' then 2 else 1)"

definition parsed_sources :: "yaml_codec \<Rightarrow> matSkill list \<Rightarrow> (matSkill \<times> Workflow) list" where
  "parsed_sources yaml = List.map_filter (\<lambda>s. if ms_kind s \<noteq> ''workflow'' then None
     else case ParseWorkflow yaml (ms_raw s) of Inl e \<Rightarrow> None | Inr w \<Rightarrow> Some (s, w))"

definition specific_categories :: "(matSkill \<times> Workflow) list \<Rightarrow> string list" where
  "specific_categories ps = remdups (concat (map (\<lambda>(s, w).
     map ToLower (filter (\<lambda>at. at \<noteq> [] \<and> at \<noteq> ''*'') (map TrimSpace (wf_AppliesTo w)))) ps))"

definition category_rank :: "string \<Rightarrow> matSkill \<Rightarrow> Workflow \<Rightarrow> int option" where
  "category_rank cat s w =
     (let ats = map TrimSpace (wf_AppliesTo w);
        specific = list_ex (\<lambda>at. at \<noteq> ''*'' \<and> EqualFold at cat) ats; wildcard = ''*'' \<in> set ats;
        sr = sourceRank (ms_source s)
      in if \<not> specific \<and> \<not> wildcard then None else Some (if specific then sr else sr + 10))"

definition keep_best :: "string \<Rightarrow> int \<Rightarrow> (string \<times> int) list \<Rightarrow> (string \<times> int) list" where
  "keep_best name r m =
     (case map_of m name of
        Some cur \<Rightarrow> if r < cur then AList.update name r m else m
      | None \<Rightarrow> AList.update name r m)"

definition rank_step :: "matSkill \<times> Workflow \<Rightarrow> string \<Rightarrow> (string \<times> (string \<times> int) list) list \<Rightarrow> (string \<times> (string \<times> int) list) list" where
  "rank_step = (\<lambda>(s, w) cat m.
     case category_rank cat s w of
       None \<Rightarrow> m
     | Some r \<Rightarrow> AList.update cat (keep_best (ms_name s) r (case map_of m cat of None \<Rightarrow> [] | Some n \<Rightarrow> n)) m)"

definition rank_table :: "check_env \<Rightarrow> (matSkill \<times> Workflow) list \<Rightarrow> (string \<times> (string \<times> int) list) list" where
  "rank_table env ps = fold (\<lambda>p. fold (rank_step p) (ck_range env (specific_categories ps))) ps []"

definition best_rank :: "(string \<times> int) list \<Rightarrow> int" where
  "best_rank names = fold (\<lambda>(n, r) best. if r < best then r else best) names (2 ^ 30)"

definition tied_names :: "(string \<times> int) list \<Rightarrow> string list" where
  "tied_names names = map fst (filter (\<lambda>(n, r). r = best_rank names) names)"

definition checkAmbiguousGovernance :: "check_env \<Rightarrow> matSkill list \<Rightarrow> driftFinding list" where
  "checkAmbiguousGovernance env wfBearing =
     sort_key fi_Artifact (List.map_filter (\<lambda>(cat, names).
       let tied = tied_names (ranges env names) in
       if length tied > 1 then Some (block_finding ''ambiguous-governance'' (Join (sort tied) '','') (Ambiguous cat (length tied) (sort tied)))
       else None) (ranges env (rank_table env (parsed_sources (ck_yaml env) wfBearing))))"

section \<open>The enactment model of a gate\<close>

definition edge_name :: "Transition \<Rightarrow> string" where
  "edge_name t = tr_From t @ [CHR 0xE2, CHR 0x86, CHR 0x92] @ tr_To t"

definition client_enacted :: "Transition \<Rightarrow> bool" where
  "client_enacted t = (tr_On t = ''pass'' \<or> tr_On t = ''fail'')"

text \<open>The uses of gates by one model, in the order they are met; the first of a gate is kept.\<close>

definition usages :: "bool \<Rightarrow> workflows \<Rightarrow> (string \<times> string \<times> string) list" where
  "usages v2 wfs = concat (map (\<lambda>n. map (\<lambda>t. (TrimSpace (tr_ReviewerSkill t), n, edge_name t))
     (filter (\<lambda>t. TrimSpace (tr_ReviewerSkill t) \<noteq> [] \<and> client_enacted t = v2) (wf_Transitions (the (map_of wfs n)))))
     (sort (map fst wfs)))"

definition checkGateEnactmentModel :: "workflows \<Rightarrow> driftFinding list" where
  "checkGateEnactmentModel wfs =
     (let v2 = map_of (usages True wfs); legacy = map_of (usages False wfs);
        conflicted = sort (filter (\<lambda>g. legacy g \<noteq> None) (remdups (map fst (usages True wfs))))
      in map (\<lambda>g. block_finding ''gate-model-conflict'' g (ModelConflict (the (v2 g)) (the (legacy g)))) conflicted)"

section \<open>The composition\<close>

definition runWorkflowChecksResolved :: "check_env \<Rightarrow> matSkill list \<Rightarrow> matSkill list \<Rightarrow> storyLite list \<Rightarrow> driftFinding list" where
  "runWorkflowChecksResolved env skills client stories =
     (let wfBearing = skills @ client; (wfs, wfFindings) = parseWorkflows (ck_yaml env) [] wfBearing
      in checkSyncedSkillUsable skills @ wfFindings @ checkAmbiguousGovernance env wfBearing @
         checkGateCoverage env wfBearing wfs @ checkGatePlacementConflict env wfBearing wfs @ checkGateEnactmentModel wfs @
         checkNonAtomicCandidates skills @ checkSystemScopeCoupling skills @ checkStoryGovernance (ck_yaml env) stories wfs @
         checkSystemContained env wfBearing wfs @ checkFirstGateComprehensive env wfBearing wfs)"

definition runWorkflowChecks :: "check_env \<Rightarrow> matSkill list \<Rightarrow> matSkill list \<Rightarrow> storyLite list \<Rightarrow> driftFinding list" where
  "runWorkflowChecks env = runWorkflowChecksResolved (env\<lparr>ck_resolvable := ck_config_skill env\<rparr>)"

definition blocking :: "driftFinding list \<Rightarrow> nat" where
  "blocking fs = length (filter (\<lambda>f. fi_Severity f = ''block'') fs)"

text \<open>The error of the command is the number of blocking findings.\<close>

definition reportWorkflowChecks :: "driftFinding list \<Rightarrow> nat option" where
  "reportWorkflowChecks fs = (if blocking fs > 0 then Some (blocking fs) else None)"

text \<open>
  The stories of the project: the scope of the repository, the reply of the listing (one page of at most 200, the error
  or the items) and the reply of each read are parameters.
\<close>

record listed_story =
  ls_ID :: string
  ls_Name :: string
  ls_Category :: string
  ls_Status :: string

definition listProjectStories ::
  "string option \<Rightarrow> (string \<Rightarrow> int \<Rightarrow> listed_story list option) \<Rightarrow> (string \<Rightarrow> string option) \<Rightarrow> storyLite list option" where
  "listProjectStories scope list_page get_body =
     (case scope of
        None \<Rightarrow> Some []
      | Some pj \<Rightarrow>
          if TrimSpace pj = [] then Some []
          else map_option (List.map_filter (\<lambda>it. if ToLower (ls_Status it) \<in> set terminalStoryStatuses then None
            else map_option (\<lambda>b. \<lparr>sl_ID = ls_ID it, sl_Name = ls_Name it, sl_Category = ls_Category it, sl_Status = ls_Status it, sl_Body = b\<rparr>)
              (get_body (ls_ID it)))) (list_page pj 200))"

text \<open>The command: the listing may fail, else the findings decide.\<close>

datatype check_outcome = ListingFailed | Clean | Blocked nat

definition workflow_check ::
  "check_env \<Rightarrow> matSkill list \<Rightarrow> dir_entry list option \<Rightarrow> matSkill list \<Rightarrow> matSkill list \<Rightarrow> storyLite list option \<Rightarrow> check_outcome" where
  "workflow_check env skills authored client embedded listed =
     (case listed of
        None \<Rightarrow> ListingFailed
      | Some stories \<Rightarrow>
          (case reportWorkflowChecks (runWorkflowChecksResolved env (markLocalAuthorship authored skills)
              (withEmbeddedWorkflows client embedded) stories) of
             None \<Rightarrow> Clean | Some n \<Rightarrow> Blocked n))"

end
