(* ===== verification/WorkflowCheckProps.thy ===== *)
theory WorkflowCheckProps
  imports WorkflowCheck
begin

text \<open>
  What \<open>workflow check\<close> decides: the command reports no blocking finding exactly when each of the declarative conditions
  below holds, and what follows for the resolver that reads the same files.
\<close>

section \<open>Maps and their order\<close>

definition any_order :: "check_env \<Rightarrow> bool" where
  "any_order env \<longleftrightarrow> (\<forall>ks. mset (ck_range env ks) = mset ks)"

lemma range_set: "any_order env \<Longrightarrow> set (ck_range env ks) = set ks"
  unfolding any_order_def by (metis set_mset_mset)

lemma ranges_set: "any_order env \<Longrightarrow> distinct (map fst m) \<Longrightarrow> set (ranges env m) = set m"
  unfolding ranges_def by (force simp: range_set)

lemma ranges_distinct:
  assumes "any_order env" and "distinct (map fst m)"
  shows "distinct (map fst (ranges env m))"
proof -
  have "map fst (ranges env m) = ck_range env (map fst m)" by (simp add: ranges_def comp_def)
  then show ?thesis using assms unfolding any_order_def by (metis mset_eq_imp_distinct_iff)
qed

lemma ranges_map_of: "any_order env \<Longrightarrow> distinct (map fst m) \<Longrightarrow> map_of (ranges env m) = map_of m"
  using map_of_inject_set [of "ranges env m" m] by (simp add: ranges_set ranges_distinct)

lemma no_ties: "any_order env \<Longrightarrow> tied_names (ranges env []) = []"
  using range_set [of env "[]"] by (simp add: ranges_def tied_names_def)

lemma map_filter_nil: "List.map_filter f xs = [] \<longleftrightarrow> (\<forall>x \<in> set xs. f x = None)"
  by (induction xs) (auto simp: map_filter_simps split: option.split)

lemma concat_map_nil: "concat (map f xs) = [] \<longleftrightarrow> (\<forall>x \<in> set xs. f x = [])"
  by auto

lemma sort_key_nil [simp]: "sort_key f xs = [] \<longleftrightarrow> xs = []"
  by (metis length_0_conv length_sort)

lemma sort_nil: "sort xs = [] \<longleftrightarrow> xs = []"
  by simp

lemma if_Some_None [simp]: "(if b then Some x else None) = None \<longleftrightarrow> \<not> b"
  by simp

section \<open>Parsed workflows\<close>

definition sound_workflow :: "yaml_codec \<Rightarrow> matSkill \<Rightarrow> Workflow \<Rightarrow> bool" where
  "sound_workflow yaml s w \<longleftrightarrow> ms_kind s = ''workflow'' \<and> ParseWorkflow yaml (ms_raw s) = Inr w \<and> ValidateLifecycle w = None"

lemma parse_findings:
  "snd (parseWorkflows yaml wfs ss) = [] \<longleftrightarrow> (\<forall>s \<in> set ss. ms_kind s = ''workflow'' \<longrightarrow> (\<exists>w. sound_workflow yaml s w))"
  by (induction yaml wfs ss rule: parseWorkflows.induct) (auto simp: sound_workflow_def map_prod_def split: sum.splits option.splits prod.splits)

lemma parse_blocks: "f \<in> set (snd (parseWorkflows yaml wfs ss)) \<Longrightarrow> fi_Severity f = ''block''"
  by (induction yaml wfs ss rule: parseWorkflows.induct) (auto simp: map_prod_def split: sum.splits option.splits prod.splits if_splits)

lemma parse_distinct: "distinct (map fst wfs) \<Longrightarrow> distinct (map fst (fst (parseWorkflows yaml wfs ss)))"
  by (induction yaml wfs ss rule: parseWorkflows.induct) (auto simp: distinct_update map_prod_def split: sum.splits option.splits prod.splits)

lemma parse_source:
  "map_of (fst (parseWorkflows yaml wfs ss)) n = Some w \<Longrightarrow>
    map_of wfs n = Some w \<or> (\<exists>s \<in> set ss. ms_name s = n \<and> sound_workflow yaml s w)"
  by (induction yaml wfs ss rule: parseWorkflows.induct)
    (auto simp: sound_workflow_def update_conv map_prod_def split: sum.splits option.splits prod.splits if_splits)

lemma parse_kept:
  "\<forall>s \<in> set ss. ms_kind s = ''workflow'' \<longrightarrow> ms_name s \<noteq> n \<Longrightarrow> map_of (fst (parseWorkflows yaml wfs ss)) n = map_of wfs n"
  by (induction yaml wfs ss rule: parseWorkflows.induct)
    (auto simp: update_conv map_prod_def split: sum.splits option.splits prod.splits if_splits)

lemma parse_named:
  assumes "distinct (map ms_name (filter (\<lambda>s. ms_kind s = ''workflow'') ss))" and "s \<in> set ss" and "sound_workflow yaml s w"
  shows "map_of (fst (parseWorkflows yaml wfs ss)) (ms_name s) = Some w"
  using assms
proof (induction yaml wfs ss rule: parseWorkflows.induct)
  case (2 yaml wfs t ss)
  show ?case
  proof (cases "s = t")
    case True
    then have "ms_kind t = ''workflow''" "ParseWorkflow yaml (ms_raw t) = Inr w" "ValidateLifecycle w = None"
      using 2(7) by (auto simp: sound_workflow_def)
    moreover have "\<forall>s \<in> set ss. ms_kind s = ''workflow'' \<longrightarrow> ms_name s \<noteq> ms_name t" using 2(5) calculation(1) by (auto simp: image_iff)
    ultimately show ?thesis using True by (simp add: parse_kept update_conv)
  next
    case False
    then show ?thesis using 2 by (auto simp: map_prod_def split: sum.splits option.splits prod.splits if_splits)
  qed
qed simp

section \<open>The conditions\<close>

definition usable :: "matSkill \<Rightarrow> bool" where
  "usable s \<longleftrightarrow> opens_with_frontmatter (ms_raw s) \<and> ms_description s \<noteq> []"

definition resolves :: "check_env \<Rightarrow> matSkill list \<Rightarrow> string \<Rightarrow> bool" where
  "resolves env skills g \<longleftrightarrow> (\<exists>s \<in> set skills. ms_name s = g) \<or> ck_resolvable env g"

text \<open>A gate some definition names: a reviewer of a transition, or a reference of the checkpoint section.\<close>

definition names_gate :: "matSkill list \<Rightarrow> workflows \<Rightarrow> string \<Rightarrow> bool" where
  "names_gate skills wfs g \<longleftrightarrow> (\<exists>(n, w) \<in> set wfs. g \<in> set (reviewers w) \<or>
     (\<exists>s \<in> set skills. ms_name s = n \<and> g \<in> set (checkpointGates (ms_body s))))"

definition plain_skill :: "matSkill \<Rightarrow> bool" where
  "plain_skill s \<longleftrightarrow> \<not> isReviewerSkillKind (ms_kind s) \<and> ms_kind s \<noteq> ''workflow''"

definition one_placement :: "matSkill list \<Rightarrow> workflows \<Rightarrow> bool" where
  "one_placement skills wfs \<longleftrightarrow> (\<forall>s \<in> set skills. plain_skill s \<longrightarrow> (\<forall>(n, w) \<in> set wfs. \<forall>st \<in> set (wf_States w).
     TrimSpace (st_Command st) \<noteq> [] \<longrightarrow> \<not> Contains (ms_body s) (TrimSpace (st_Command st))))"

definition one_model :: "workflows \<Rightarrow> bool" where
  "one_model wfs \<longleftrightarrow> (\<forall>(n, w) \<in> set wfs. \<forall>(n', w') \<in> set wfs. \<forall>t \<in> set (wf_Transitions w). \<forall>t' \<in> set (wf_Transitions w').
     TrimSpace (tr_ReviewerSkill t) \<noteq> [] \<and> TrimSpace (tr_ReviewerSkill t') = TrimSpace (tr_ReviewerSkill t) \<and> client_enacted t \<longrightarrow>
     client_enacted t')"

definition portable :: "matSkill \<Rightarrow> bool" where
  "portable s \<longleftrightarrow> (EqualFold (ms_scope s) ''system'' \<longrightarrow> (\<forall>p \<in> set hostCoupledPatterns. \<not> Contains (ms_body s) p))"

definition governed :: "yaml_codec \<Rightarrow> workflows \<Rightarrow> storyLite \<Rightarrow> bool" where
  "governed yaml wfs st \<longleftrightarrow> ToLower (sl_Status st) \<in> set terminalStoryStatuses \<or> \<not> isl (ParseBody yaml (sl_Body st)) \<or>
     covered wfs (sl_Category st)"

definition contained :: "check_env \<Rightarrow> workflows \<Rightarrow> matSkill \<Rightarrow> bool" where
  "contained env wfs s \<longleftrightarrow> (ms_kind s = ''workflow'' \<and> EqualFold (ms_scope s) ''system'' \<longrightarrow>
     (\<forall>w. map_of wfs (ms_name s) = Some w \<longrightarrow> (\<forall>g \<in> set (reviewers w). ck_config_skill env g)))"

text \<open>The entry gates that are read: those of edges that lead on, with a body among the skills.\<close>

definition entry_gate_complete :: "matSkill list \<Rightarrow> Workflow \<Rightarrow> bool" where
  "entry_gate_complete skills w \<longleftrightarrow> (\<forall>t \<in> set (wf_Transitions w). \<forall>gate.
     InitialState w \<noteq> [] \<and> tr_From t = InitialState w \<and> TrimSpace (tr_ReviewerSkill t) \<noteq> [] \<and>
     by_name skills (tr_ReviewerSkill t) = Some gate \<and> (\<exists>t2 \<in> set (wf_Transitions w). tr_From t2 = tr_To t) \<longrightarrow>
     (\<forall>l \<in> set firstGateLayers. Contains (ToLower (ms_body gate)) l))"

section \<open>Each check finds nothing exactly when its condition holds\<close>

lemma usable_exact: "checkSyncedSkillUsable skills = [] \<longleftrightarrow> (\<forall>s \<in> set skills. usable s)"
  by (auto simp: checkSyncedSkillUsable_def map_filter_nil usable_def)

lemma named_gates_set: "any_order env \<Longrightarrow> distinct (map fst wfs) \<Longrightarrow> g \<in> set (named_gates env skills wfs) \<longleftrightarrow> names_gate skills wfs g"
  by (auto simp: named_gates_def names_gate_def ranges_set)

lemma gates_exact:
  assumes "any_order env" and "distinct (map fst wfs)"
  shows "checkGateCoverage env skills wfs = [] \<longleftrightarrow>
    (\<forall>s \<in> set skills. isReviewerSkillKind (ms_kind s) \<and> ms_local s \<longrightarrow> names_gate skills wfs (ms_name s)) \<and>
    (\<forall>g. names_gate skills wfs g \<longrightarrow> resolves env skills g)"
proof -
  have r: "resolves env skills g \<longleftrightarrow> g \<in> set (map ms_name skills) \<or> ck_resolvable env g" for g by (auto simp: resolves_def)
  show ?thesis
    unfolding checkGateCoverage_def Let_def sort_key_nil append_is_Nil_conv map_is_Nil_conv filter_empty_conv range_set [OF assms(1)]
      named_gates_set [OF assms] r by (auto simp: named_gates_set [OF assms])
qed

lemma bind_commands_distinct: "distinct (map fst m) \<Longrightarrow> distinct (map fst (bind_commands p m))"
proof -
  have "distinct (map fst m) \<Longrightarrow> distinct (map fst (fold (\<lambda>st m.
      let c = TrimSpace (st_Command st) in if c \<noteq> [] then AList.update c (name, st_Name st) m else m) sts m))" for name and sts :: "State list" and m :: "(string \<times> string \<times> string) list"
    by (induction sts arbitrary: m) (auto simp: Let_def distinct_update)
  then show "distinct (map fst m) \<Longrightarrow> distinct (map fst (bind_commands p m))" by (simp add: bind_commands_def split: prod.split)
qed

lemma bind_commands_dom:
  "fst ` set (bind_commands p m) = fst ` set m \<union> {c. c \<noteq> [] \<and> (\<exists>st \<in> set (wf_States (snd p)). c = TrimSpace (st_Command st))}"
proof -
  have "fst ` set (fold (\<lambda>st m.
      let c = TrimSpace (st_Command st) in if c \<noteq> [] then AList.update c (name, st_Name st) m else m) sts m) =
     fst ` set m \<union> {c. c \<noteq> [] \<and> (\<exists>st \<in> set sts. c = TrimSpace (st_Command st))}" for name and sts :: "State list" and m :: "(string \<times> string \<times> string) list"
    by (induction sts arbitrary: m) (auto simp: Let_def dom_update)
  then show ?thesis by (simp add: bind_commands_def split: prod.split)
qed

lemma command_table_distinct: "distinct (map fst (command_table env wfs))"
proof -
  have "distinct (map fst m) \<Longrightarrow> distinct (map fst (fold bind_commands ws m))" for ws m
    by (induction ws arbitrary: m) (auto simp: bind_commands_distinct)
  then show ?thesis by (simp add: command_table_def)
qed

lemma command_table_dom:
  assumes "any_order env" and "distinct (map fst wfs)"
  shows "fst ` set (command_table env wfs) = {c. c \<noteq> [] \<and> (\<exists>p \<in> set wfs. \<exists>st \<in> set (wf_States (snd p)). c = TrimSpace (st_Command st))}"
proof -
  have "fst ` set (fold bind_commands ws m) =
      fst ` set m \<union> {c. c \<noteq> [] \<and> (\<exists>p \<in> set ws. \<exists>st \<in> set (wf_States (snd p)). c = TrimSpace (st_Command st))}" for ws m
    by (induction ws arbitrary: m) (auto simp: bind_commands_dom)
  then show ?thesis by (simp add: command_table_def ranges_set [OF assms])
qed

lemma placement_exact:
  assumes "any_order env" and "distinct (map fst wfs)"
  shows "checkGatePlacementConflict env skills wfs = [] \<longleftrightarrow> one_placement skills wfs"
proof -
  have "checkGatePlacementConflict env skills wfs = [] \<longleftrightarrow>
      (\<forall>s \<in> set skills. plain_skill s \<longrightarrow> (\<forall>c \<in> fst ` set (command_table env wfs). \<not> Contains (ms_body s) c))"
    unfolding checkGatePlacementConflict_def Let_def sort_key_nil concat_map_nil plain_skill_def
    by (auto simp: map_filter_nil ranges_set [OF assms(1) command_table_distinct] split_beta)
  then show ?thesis unfolding command_table_dom [OF assms] one_placement_def by (simp add: split_beta) blast
qed

lemma usages_set:
  assumes "distinct (map fst wfs)"
  shows "g \<in> fst ` set (usages b wfs) \<longleftrightarrow>
    (\<exists>(n, w) \<in> set wfs. \<exists>t \<in> set (wf_Transitions w). TrimSpace (tr_ReviewerSkill t) = g \<and> g \<noteq> [] \<and> client_enacted t = b)"
proof -
  have "g \<in> fst ` set (usages b wfs) \<longleftrightarrow> (\<exists>p \<in> set wfs. \<exists>t \<in> set (wf_Transitions (the (map_of wfs (fst p)))).
      TrimSpace (tr_ReviewerSkill t) = g \<and> g \<noteq> [] \<and> client_enacted t = b)"
    by (simp add: usages_def image_UN image_image) blast
  also have "\<dots> \<longleftrightarrow> (\<exists>p \<in> set wfs. \<exists>t \<in> set (wf_Transitions (snd p)). TrimSpace (tr_ReviewerSkill t) = g \<and> g \<noteq> [] \<and> client_enacted t = b)"
    using assms by (intro bex_cong refl) (auto simp: image_iff)
  finally show ?thesis by (simp add: split_beta)
qed

lemma ball_conv: "(\<forall>x \<in> A. \<not> \<not> x \<notin> B) \<longleftrightarrow> (\<forall>x. x \<in> A \<longrightarrow> x \<notin> B)"
  by blast

lemma model_exact:
  assumes "distinct (map fst wfs)"
  shows "checkGateEnactmentModel wfs = [] \<longleftrightarrow> one_model wfs"
proof -
  have "checkGateEnactmentModel wfs = [] \<longleftrightarrow> (\<forall>g. g \<in> fst ` set (usages True wfs) \<longrightarrow> g \<notin> fst ` set (usages False wfs))"
    unfolding checkGateEnactmentModel_def Let_def map_is_Nil_conv sort_nil filter_empty_conv map_of_eq_None_iff set_remdups set_map by (rule ball_conv)
  also have "\<dots> \<longleftrightarrow> one_model wfs"
    unfolding usages_set [OF assms] one_model_def
    by (simp add: split_beta, rule iffI; intro ballI allI impI; elim conjE bexE; metis)
  finally show ?thesis .
qed

lemma portable_exact: "checkSystemScopeCoupling skills = [] \<longleftrightarrow> (\<forall>s \<in> set skills. portable s)"
  by (auto simp: checkSystemScopeCoupling_def map_filter_nil portable_def find_None_iff)

lemma governed_exact: "checkStoryGovernance yaml stories wfs = [] \<longleftrightarrow> (\<forall>st \<in> set stories. governed yaml wfs st)"
  by (auto simp: checkStoryGovernance_def map_filter_nil governed_def)

lemma contained_exact: "checkSystemContained env skills wfs = [] \<longleftrightarrow> (\<forall>s \<in> set skills. contained env wfs s)"
  unfolding checkSystemContained_def concat_map_nil contained_def by (auto simp: filter_empty_conv split: option.splits)

lemma first_gate_exact:
  assumes "any_order env" and "distinct (map fst wfs)"
  shows "checkFirstGateComprehensive env skills wfs = [] \<longleftrightarrow> (\<forall>(n, w) \<in> set wfs. entry_gate_complete skills w)"
proof -
  have "entry_gate_finding skills n w t = None \<longleftrightarrow> \<not> (tr_From t = InitialState w \<and> TrimSpace (tr_ReviewerSkill t) \<noteq> [] \<and>
      (\<exists>gate. by_name skills (tr_ReviewerSkill t) = Some gate \<and> (\<exists>t2 \<in> set (wf_Transitions w). tr_From t2 = tr_To t) \<and>
        (\<exists>l \<in> set firstGateLayers. \<not> Contains (ToLower (ms_body gate)) l)))" for n w t
    by (auto simp: entry_gate_finding_def missing_layers_def list_ex_iff filter_empty_conv Let_def split: option.split)
  then have e: "entry_gate_complete skills w \<longleftrightarrow> InitialState w = [] \<or> (\<forall>t \<in> set (wf_Transitions w). entry_gate_finding skills n w t = None)" for n w
    unfolding entry_gate_complete_def by blast
  have "(case p of (n, w) \<Rightarrow> if InitialState w = [] then [] else List.map_filter (entry_gate_finding skills n w) (wf_Transitions w)) = [] \<longleftrightarrow>
      (case p of (n, w) \<Rightarrow> entry_gate_complete skills w)" for p
    by (cases p) (simp add: map_filter_nil e [of _ "fst p"])
  then show ?thesis unfolding checkFirstGateComprehensive_def sort_key_nil concat_map_nil ranges_set [OF assms] by simp
qed


section \<open>The rank of the candidates of a category\<close>

text \<open>\<open>least ps cat n r\<close>: the best rank of the sources named \<open>n\<close>, if one of them covers the category.\<close>

definition least :: "(matSkill \<times> Workflow) list \<Rightarrow> string \<Rightarrow> string \<Rightarrow> int option \<Rightarrow> bool" where
  "least ps cat n best \<longleftrightarrow> (case best of
     None \<Rightarrow> \<forall>(s, w) \<in> set ps. ms_name s = n \<longrightarrow> category_rank cat s w = None
   | Some r \<Rightarrow> (\<exists>(s, w) \<in> set ps. ms_name s = n \<and> category_rank cat s w = Some r) \<and>
       (\<forall>(s, w) \<in> set ps. \<forall>r'. ms_name s = n \<and> category_rank cat s w = Some r' \<longrightarrow> r \<le> r'))"

definition look :: "(string \<times> (string \<times> int) list) list \<Rightarrow> string \<Rightarrow> (string \<times> int) list" where
  "look m cat = (case map_of m cat of None \<Rightarrow> [] | Some names \<Rightarrow> names)"

lemma keep_best_look: "map_of (keep_best name r m) n =
    (if n = name then Some (case map_of m name of None \<Rightarrow> r | Some cur \<Rightarrow> min r cur) else map_of m n)"
  by (auto simp: keep_best_def update_conv min_def split: option.split)

lemma keep_best_distinct: "distinct (map fst m) \<Longrightarrow> distinct (map fst (keep_best name r m))"
  by (auto simp: keep_best_def distinct_update split: option.split)

lemma rank_step_look: "look (rank_step (s, w) cat m) c =
    (case category_rank cat s w of Some r \<Rightarrow> if c = cat then keep_best (ms_name s) r (look m cat) else look m c | None \<Rightarrow> look m c)"
  by (auto simp: rank_step_def look_def update_conv split: option.split)

lemma rank_steps_look:
  "distinct cats \<Longrightarrow> look (fold (rank_step (s, w)) cats m) c =
    (if c \<in> set cats then (case category_rank c s w of Some r \<Rightarrow> keep_best (ms_name s) r (look m c) | None \<Rightarrow> look m c) else look m c)"
proof (induction cats arbitrary: m)
  case (Cons cat cats)
  then show ?case by (auto simp: rank_step_look split: option.split)
qed simp

lemma least_snoc:
  assumes "least ps cat n (map_of m n)"
  shows "least (ps @ [(s, w)]) cat n (map_of (case category_rank cat s w of Some r \<Rightarrow> keep_best (ms_name s) r m | None \<Rightarrow> m) n)"
proof (cases "category_rank cat s w")
  case None
  then show ?thesis using assms by (auto simp: least_def split: option.split option.split_asm)
next
  case (Some r)
  show ?thesis
  proof (cases "n = ms_name s")
    case True
    then show ?thesis using assms Some
      by (cases "map_of m n") (force simp: least_def keep_best_look min_def)+
  next
    case False
    then show ?thesis using assms Some by (auto simp: least_def keep_best_look split: option.split option.split_asm)
  qed
qed

lemma rank_fold:
  assumes "distinct cats" and "cat \<in> set cats"
  shows "least ps cat n (map_of (look (fold (\<lambda>p. fold (rank_step p) cats) ps []) cat) n)"
proof (induction ps rule: rev_induct)
  case Nil
  then show ?case by (simp add: least_def look_def)
next
  case (snoc p ps)
  obtain s w where p: "p = (s, w)" by force
  show ?case using least_snoc [OF snoc, of s w] assms by (simp add: p rank_steps_look)
qed

lemma rank_fold_outside:
  assumes "distinct cats" and "cat \<notin> set cats"
  shows "look (fold (\<lambda>p. fold (rank_step p) cats) ps []) cat = []"
proof (induction ps rule: rev_induct)
  case (snoc p ps)
  obtain s w where p: "p = (s, w)" by force
  show ?case using snoc assms by (simp add: p rank_steps_look)
qed (simp add: look_def)

lemma rank_fold_distinct:
  assumes "distinct cats"
  shows "distinct (map fst (look (fold (\<lambda>p. fold (rank_step p) cats) ps []) cat))"
proof (induction ps rule: rev_induct)
  case (snoc p ps)
  obtain s w where p: "p = (s, w)" by force
  show ?case using snoc assms by (auto simp: p rank_steps_look keep_best_distinct split: option.split)
qed (simp add: look_def)

lemma rank_step_distinct: "distinct (map fst m) \<Longrightarrow> distinct (map fst (rank_step p cat m))"
  by (auto simp: rank_step_def distinct_update split: prod.split option.split)

lemma rank_table_distinct: "distinct (map fst (rank_table env ps))"
proof -
  have steps: "distinct (map fst m) \<Longrightarrow> distinct (map fst (fold (rank_step p) cats m))" for p cats m
    by (induction cats arbitrary: m) (auto simp: rank_step_distinct)
  have "distinct (map fst m) \<Longrightarrow> distinct (map fst (fold (\<lambda>p. fold (rank_step p) cats) ps m))" for cats ps m
    by (induction ps arbitrary: m) (auto simp: steps)
  then show ?thesis by (simp add: rank_table_def)
qed

lemma rank_small: "category_rank cat s w = Some r \<Longrightarrow> r < 2 ^ 30"
  by (auto simp: category_rank_def sourceRank_def Let_def split: if_splits)

section \<open>Ties\<close>

lemma best_fold: "fold (\<lambda>(n, r) best. if r < best then r else best) names b = (if names = [] then b else min b (Min (snd ` set names)))" for b :: int
proof (induction names arbitrary: b)
  case (Cons p names)
  then show ?case by (cases "names = []") (auto simp: min_def split: prod.split)
qed simp

lemma tied_names_exact:
  assumes "distinct (map fst names)" and "\<forall>(n, r) \<in> set names. r < 2 ^ 30"
  shows "length (tied_names names) > 1 \<longleftrightarrow> (\<exists>a b r. a \<noteq> b \<and> map_of names a = Some r \<and> map_of names b = Some r \<and>
    (\<forall>c r'. map_of names c = Some r' \<longrightarrow> r \<le> r'))"
proof (cases "names = []")
  case True
  then show ?thesis by (simp add: tied_names_def)
next
  case False
  let ?b = "Min (snd ` set names)"
  have fin: "finite (snd ` set names)" "snd ` set names \<noteq> {}" using False by auto
  have "?b \<in> snd ` set names" using fin by (rule Min_in)
  then have "?b < 2 ^ 30" using assms(2) by auto
  moreover have "best_rank names = min (2 ^ 30) ?b" using False unfolding best_rank_def best_fold by (rule if_not_P)
  ultimately have best: "best_rank names = ?b" by (simp only: min.absorb4)
  have m: "map_of names a = Some r \<longleftrightarrow> (a, r) \<in> set names" for a r using assms(1) by simp
  have least: "(\<forall>c r'. (c, r') \<in> set names \<longrightarrow> r \<le> r') \<and> (\<exists>a. (a, r) \<in> set names) \<longleftrightarrow> r = ?b" for r
  proof
    assume a: "(\<forall>c r'. (c, r') \<in> set names \<longrightarrow> r \<le> r') \<and> (\<exists>a. (a, r) \<in> set names)"
    then have "r \<in> snd ` set names" by force
    moreover have "\<forall>x \<in> snd ` set names. r \<le> x" using a by auto
    ultimately show "r = ?b" using fin by (metis Min_eqI)
  next
    assume r: "r = ?b"
    have "r \<le> r'" if "(c, r') \<in> set names" for c r' using Min_le [OF fin(1), of r'] image_eqI [of r' snd "(c, r')"] that r by simp
    moreover have "\<exists>a. (a, r) \<in> set names" using Min_in [OF fin] r by (metis imageE prod.collapse)
    ultimately show "(\<forall>c r'. (c, r') \<in> set names \<longrightarrow> r \<le> r') \<and> (\<exists>a. (a, r) \<in> set names)" by blast
  qed
  have d: "distinct (tied_names names)" using assms(1) unfolding tied_names_def by (rule distinct_map_filter)
  have "length (tied_names names) > 1 \<longleftrightarrow> (\<exists>a \<in> set (tied_names names). \<exists>b \<in> set (tied_names names). a \<noteq> b)"
    using d by (cases "tied_names names"; cases "tl (tied_names names)") auto
  also have "\<dots> \<longleftrightarrow> (\<exists>a b. a \<noteq> b \<and> (a, ?b) \<in> set names \<and> (b, ?b) \<in> set names)"
    by (force simp: tied_names_def best)
  also have "\<dots> \<longleftrightarrow> (\<exists>a b r. a \<noteq> b \<and> (a, r) \<in> set names \<and> (b, r) \<in> set names \<and> r = ?b)" by blast
  finally show ?thesis unfolding m least [symmetric] by blast
qed

text \<open>The sources that are first choice for a category, and the condition: their names agree.\<close>

definition first_choice :: "(matSkill \<times> Workflow) list \<Rightarrow> string \<Rightarrow> matSkill \<Rightarrow> bool" where
  "first_choice ps cat s \<longleftrightarrow> (\<exists>w r. (s, w) \<in> set ps \<and> category_rank cat s w = Some r \<and>
     (\<forall>(s', w') \<in> set ps. \<forall>r'. category_rank cat s' w' = Some r' \<longrightarrow> r \<le> r'))"

definition one_default :: "(matSkill \<times> Workflow) list \<Rightarrow> bool" where
  "one_default ps \<longleftrightarrow> (\<forall>cat \<in> set (specific_categories ps). \<forall>s s'. first_choice ps cat s \<and> first_choice ps cat s' \<longrightarrow> ms_name s = ms_name s')"


text \<open>The table holds the least ranks of the specific categories and nothing else.\<close>

abbreviation ranks :: "check_env \<Rightarrow> (matSkill \<times> Workflow) list \<Rightarrow> string \<Rightarrow> (string \<times> int) list" where
  "ranks env ps cat \<equiv> look (rank_table env ps) cat"

lemma ranks_of:
  assumes "any_order env"
  shows "cat \<in> set (specific_categories ps) \<Longrightarrow> least ps cat n (map_of (ranks env ps cat) n)"
    and "cat \<notin> set (specific_categories ps) \<Longrightarrow> ranks env ps cat = []"
    and "distinct (map fst (ranks env ps cat))" and "(n, r) \<in> set (ranks env ps cat) \<Longrightarrow> r < 2 ^ 30"
proof -
  let ?cats = "ck_range env (specific_categories ps)"
  have cats: "distinct ?cats" "set ?cats = set (specific_categories ps)"
    using assms(1) mset_eq_imp_distinct_iff [of ?cats "specific_categories ps"] unfolding any_order_def
    by (auto simp: specific_categories_def range_set [OF assms(1)])
  show l: "least ps cat n (map_of (ranks env ps cat) n)" if "cat \<in> set (specific_categories ps)" for n
    using rank_fold [OF cats(1)] that cats(2) unfolding rank_table_def by blast
  show out: "ranks env ps cat = []" if "cat \<notin> set (specific_categories ps)"
    using rank_fold_outside [OF cats(1)] that cats(2) unfolding rank_table_def by blast
  show dist: "distinct (map fst (ranks env ps cat))"
    using rank_fold_distinct [OF cats(1)] unfolding rank_table_def by blast
  show "r < 2 ^ 30" if "(n, r) \<in> set (ranks env ps cat)"
  proof -
    have "cat \<in> set (specific_categories ps)" using that out by force
    moreover have "map_of (ranks env ps cat) n = Some r" using that dist by simp
    ultimately show ?thesis using l [of n] rank_small by (auto simp: least_def)
  qed
qed

lemma tied_ranks:
  assumes "any_order env"
  shows "length (tied_names (ranges env (ranks env ps cat))) > 1 \<longleftrightarrow> (\<exists>a b r. a \<noteq> b \<and> map_of (ranks env ps cat) a = Some r \<and>
      map_of (ranks env ps cat) b = Some r \<and> (\<forall>c r'. map_of (ranks env ps cat) c = Some r' \<longrightarrow> r \<le> r'))"
proof -
  note dist = ranks_of(3) [OF assms(1), of ps cat]
  have "\<forall>(n, r) \<in> set (ranges env (ranks env ps cat)). r < 2 ^ 30"
    unfolding ranges_set [OF assms(1) dist] using ranks_of(4) [OF assms(1), of _ _ ps cat] by blast
  then show ?thesis
    using tied_names_exact [OF ranges_distinct [OF assms(1) dist]] unfolding ranges_map_of [OF assms(1) dist] by blast
qed

lemma tied_choices:
  assumes "any_order env" and "cat \<in> set (specific_categories ps)"
  shows "length (tied_names (ranges env (look (rank_table env ps) cat))) > 1 \<longleftrightarrow>
    (\<exists>s s'. first_choice ps cat s \<and> first_choice ps cat s' \<and> ms_name s \<noteq> ms_name s')"
    (is "?tied \<longleftrightarrow> ?two")
proof -
  let ?m = "map_of (look (rank_table env ps) cat)"
  have l: "least ps cat n (?m n)" for n using ranks_of(1) [OF assms] .
  have some: "?m (ms_name s) \<noteq> None" if "(s, w) \<in> set ps" "category_rank cat s w = Some r" for s w r
    using l [of "ms_name s"] that by (cases "?m (ms_name s)") (auto simp: least_def)
  have le: "r \<le> r'" if "?m (ms_name s) = Some r" "(s, w) \<in> set ps" "category_rank cat s w = Some r'" for s w r r'
    using l [of "ms_name s"] that by (auto simp: least_def)
  have source: "\<exists>s w. (s, w) \<in> set ps \<and> ms_name s = n \<and> category_rank cat s w = Some r" if "?m n = Some r" for n r
    using l [of n] that by (auto simp: least_def)
  have choice: "(\<exists>s. ms_name s = n \<and> first_choice ps cat s) \<longleftrightarrow> (\<exists>r. ?m n = Some r \<and> (\<forall>c r'. ?m c = Some r' \<longrightarrow> r \<le> r'))" for n
  proof
    assume "\<exists>s. ms_name s = n \<and> first_choice ps cat s"
    then obtain s w r where s: "ms_name s = n" "(s, w) \<in> set ps" "category_rank cat s w = Some r"
      and all: "\<forall>(s', w') \<in> set ps. \<forall>r'. category_rank cat s' w' = Some r' \<longrightarrow> r \<le> r'" unfolding first_choice_def by blast
    obtain q where q: "?m n = Some q" using some [OF s(2,3)] s(1) by auto
    obtain s1 w1 where "(s1, w1) \<in> set ps" "category_rank cat s1 w1 = Some q" using source [OF q] by blast
    then have "q = r" using le [of s q w r] q s all by (simp add: order_antisym case_prod_beta)
    then show "\<exists>r. ?m n = Some r \<and> (\<forall>c r'. ?m c = Some r' \<longrightarrow> r \<le> r')" using q all source by fastforce
  next
    assume "\<exists>r. ?m n = Some r \<and> (\<forall>c r'. ?m c = Some r' \<longrightarrow> r \<le> r')"
    then obtain r where r: "?m n = Some r" "\<And>c r'. ?m c = Some r' \<Longrightarrow> r \<le> r'" by blast
    obtain s w where s: "(s, w) \<in> set ps" "ms_name s = n" "category_rank cat s w = Some r" using source [OF r(1)] by blast
    have "r \<le> r'" if "(s', w') \<in> set ps" "category_rank cat s' w' = Some r'" for s' w' r'
      using some [OF that] le [OF _ that] r(2) by (metis not_None_eq order_trans)
    then show "\<exists>s. ms_name s = n \<and> first_choice ps cat s" using s unfolding first_choice_def by blast
  qed
  have "?two \<longleftrightarrow> (\<exists>a b. a \<noteq> b \<and> (\<exists>s. ms_name s = a \<and> first_choice ps cat s) \<and> (\<exists>s. ms_name s = b \<and> first_choice ps cat s))" by blast
  also have "\<dots> \<longleftrightarrow> (\<exists>a b r. a \<noteq> b \<and> ?m a = Some r \<and> ?m b = Some r \<and> (\<forall>c r'. ?m c = Some r' \<longrightarrow> r \<le> r'))"
    unfolding choice by (metis order_antisym)
  finally show ?thesis unfolding tied_ranks [OF assms(1)] by simp
qed

lemma ambiguous_exact:
  assumes "any_order env"
  shows "checkAmbiguousGovernance env b = [] \<longleftrightarrow> one_default (parsed_sources (ck_yaml env) b)"
proof -
  let ?ps = "parsed_sources (ck_yaml env) b"
  let ?t = "rank_table env ?ps"
  have "checkAmbiguousGovernance env b = [] \<longleftrightarrow> (\<forall>(cat, names) \<in> set ?t. \<not> length (tied_names (ranges env names)) > 1)"
    unfolding checkAmbiguousGovernance_def sort_key_nil map_filter_nil ranges_set [OF assms rank_table_distinct]
    by (intro ball_cong refl) (simp add: Let_def split: prod.split)
  also have "\<dots> \<longleftrightarrow> (\<forall>cat. \<not> length (tied_names (ranges env (look ?t cat))) > 1)"
    using rank_table_distinct [of env ?ps] no_ties [OF assms]
    by (auto simp: look_def split: option.split dest: map_of_SomeD)
  also have "\<dots> \<longleftrightarrow> one_default ?ps"
  proof -
    have "\<not> length (tied_names (ranges env (look ?t cat))) > 1" if "cat \<notin> set (specific_categories ?ps)" for cat
      using ranks_of(2) [OF assms that] no_ties [OF assms] by simp
    then show ?thesis using tied_choices [OF assms] unfolding one_default_def by blast
  qed
  finally show ?thesis .
qed

section \<open>The verdict\<close>

lemma set_map_filter: "x \<in> set (List.map_filter f xs) \<longleftrightarrow> (\<exists>y \<in> set xs. f y = Some x)"
  by (induction xs) (auto simp: map_filter_simps split: option.split)

lemma blocking_append [simp]: "blocking (xs @ ys) = blocking xs + blocking ys"
  by (simp add: blocking_def)

lemma all_block: "(\<And>f. f \<in> set fs \<Longrightarrow> fi_Severity f = ''block'') \<Longrightarrow> blocking fs = 0 \<longleftrightarrow> fs = []"
  by (auto simp: blocking_def filter_empty_conv neq_Nil_conv)

lemma blocks_checkSyncedSkillUsable: "blocking (checkSyncedSkillUsable skills) = 0 \<longleftrightarrow> checkSyncedSkillUsable skills = []"
  by (rule all_block, auto simp: checkSyncedSkillUsable_def set_map_filter split: if_splits)

lemma blocks_parseWorkflows: "blocking (snd (parseWorkflows yaml wfs skills)) = 0 \<longleftrightarrow> snd (parseWorkflows yaml wfs skills) = []"
  by (rule all_block, erule parse_blocks)

lemma blocks_checkAmbiguousGovernance: "blocking (checkAmbiguousGovernance env skills) = 0 \<longleftrightarrow> checkAmbiguousGovernance env skills = []"
  by (rule all_block, auto simp: checkAmbiguousGovernance_def set_map_filter Let_def split: if_splits)

lemma blocks_checkGateCoverage: "blocking (checkGateCoverage env skills wfs) = 0 \<longleftrightarrow> checkGateCoverage env skills wfs = []"
  by (rule all_block, auto simp: checkGateCoverage_def Let_def)

lemma blocks_checkGatePlacementConflict: "blocking (checkGatePlacementConflict env skills wfs) = 0 \<longleftrightarrow> checkGatePlacementConflict env skills wfs = []"
  by (rule all_block, auto simp: checkGatePlacementConflict_def set_map_filter Let_def split: if_splits)

lemma blocks_checkGateEnactmentModel: "blocking (checkGateEnactmentModel wfs) = 0 \<longleftrightarrow> checkGateEnactmentModel wfs = []"
  by (rule all_block, auto simp: checkGateEnactmentModel_def Let_def)

lemma blocks_checkSystemScopeCoupling: "blocking (checkSystemScopeCoupling skills) = 0 \<longleftrightarrow> checkSystemScopeCoupling skills = []"
  by (rule all_block, auto simp: checkSystemScopeCoupling_def set_map_filter split: if_splits)

lemma blocks_checkStoryGovernance: "blocking (checkStoryGovernance yaml stories wfs) = 0 \<longleftrightarrow> checkStoryGovernance yaml stories wfs = []"
  by (rule all_block, auto simp: checkStoryGovernance_def set_map_filter split: if_splits)

lemma blocks_checkSystemContained: "blocking (checkSystemContained env skills wfs) = 0 \<longleftrightarrow> checkSystemContained env skills wfs = []"
  by (rule all_block, auto simp: checkSystemContained_def split: if_splits option.splits)

lemma entry_gate_blocks: "entry_gate_finding skills n w t = Some f \<Longrightarrow> fi_Severity f = ''block''"
  by (auto simp: entry_gate_finding_def Let_def split: if_splits option.splits)

lemma blocks_checkFirstGateComprehensive: "blocking (checkFirstGateComprehensive env skills wfs) = 0 \<longleftrightarrow> checkFirstGateComprehensive env skills wfs = []"
  by (rule all_block) (auto simp: checkFirstGateComprehensive_def set_map_filter split: if_splits dest: entry_gate_blocks)

lemmas check_blocks = blocks_checkSyncedSkillUsable blocks_parseWorkflows blocks_checkAmbiguousGovernance blocks_checkGateCoverage blocks_checkGatePlacementConflict blocks_checkGateEnactmentModel blocks_checkSystemScopeCoupling blocks_checkStoryGovernance blocks_checkSystemContained blocks_checkFirstGateComprehensive

lemma advice_only: "blocking (checkNonAtomicCandidates skills) = 0"
  by (auto simp: blocking_def filter_empty_conv checkNonAtomicCandidates_def set_map_filter split: if_splits)

text \<open>
  C20: What CLEAN means. The check reports no error exactly when every skill is usable and portable, every workflow file
  parses to a machine with a sound lifecycle, every category has one default, every named gate resolves and every reviewer authored
  here is named, no command has a second home, no gate has two enactment models, every open story is governed, the
  system workflows stand on the binary alone, and every entry gate that is read covers all layers. The order in which maps are
  ranged has no influence.
\<close>

theorem clean_exact:
  assumes "any_order env" and "b = skills @ client" and "wfs = fst (parseWorkflows (ck_yaml env) [] b)"
  shows "reportWorkflowChecks (runWorkflowChecksResolved env skills client stories) = None \<longleftrightarrow>
    (\<forall>s \<in> set skills. usable s \<and> portable s) \<and>
    (\<forall>s \<in> set b. ms_kind s = ''workflow'' \<longrightarrow> (\<exists>w. sound_workflow (ck_yaml env) s w)) \<and>
    one_default (parsed_sources (ck_yaml env) b) \<and>
    (\<forall>s \<in> set b. isReviewerSkillKind (ms_kind s) \<and> ms_local s \<longrightarrow> names_gate b wfs (ms_name s)) \<and>
    (\<forall>g. names_gate b wfs g \<longrightarrow> resolves env b g) \<and>
    one_placement b wfs \<and> one_model wfs \<and> (\<forall>st \<in> set stories. governed (ck_yaml env) wfs st) \<and>
    (\<forall>s \<in> set b. contained env wfs s) \<and> (\<forall>(n, w) \<in> set wfs. entry_gate_complete b w)"
proof -
  have d: "distinct (map fst wfs)" unfolding assms(3) by (rule parse_distinct) simp
  have "reportWorkflowChecks (runWorkflowChecksResolved env skills client stories) = None \<longleftrightarrow>
      blocking (runWorkflowChecksResolved env skills client stories) = 0" by (simp add: reportWorkflowChecks_def)
  also have "\<dots> \<longleftrightarrow> checkSyncedSkillUsable skills = [] \<and> snd (parseWorkflows (ck_yaml env) [] b) = [] \<and> checkAmbiguousGovernance env b = [] \<and>
      checkGateCoverage env b wfs = [] \<and> checkGatePlacementConflict env b wfs = [] \<and> checkGateEnactmentModel wfs = [] \<and>
      checkSystemScopeCoupling skills = [] \<and> checkStoryGovernance (ck_yaml env) stories wfs = [] \<and> checkSystemContained env b wfs = [] \<and>
      checkFirstGateComprehensive env b wfs = []"
    using assms(2,3) by (simp add: runWorkflowChecksResolved_def split_beta Let_def check_blocks advice_only)
  finally show ?thesis
    unfolding usable_exact parse_findings ambiguous_exact [OF assms(1)] gates_exact [OF assms(1) d] placement_exact [OF assms(1) d]
      model_exact [OF d] portable_exact governed_exact contained_exact first_gate_exact [OF assms(1) d] by blast
qed

end
