(* ===== verification/WorkflowCheckGoverns.thy ===== *)
theory WorkflowCheckGoverns
  imports WorkflowCheckProps
begin

text \<open>
  What a clean check is worth to the resolver: an open story has a governing workflow, with gates that
  resolve, and the default of a category does not depend on the order of the files.
\<close>

section \<open>Sources of the resolver and of the check\<close>

definition tiers_of :: "matSkill list \<Rightarrow> matSkill list \<Rightarrow> matSkill list \<Rightarrow> tiers" where
  "tiers_of skills client embedded =
     \<lparr>ti_client = map source_of client, ti_skill = materialisedWorkflowSources skills, ti_embed = map source_of embedded\<rparr>"

lemma loaded_set: "(w, n) \<in> set (loaded yaml sources) \<longleftrightarrow> (\<exists>s \<in> set sources. ParseWorkflow yaml (ws_Body s) = Inr w \<and> ws_Name s = n)"
proof -
  have "(case ParseWorkflow yaml (ws_Body s) of Inl e \<Rightarrow> None | Inr w \<Rightarrow> Some (w, ws_Name s)) = Some (w, n) \<longleftrightarrow>
      ParseWorkflow yaml (ws_Body s) = Inr w \<and> ws_Name s = n" for s :: WorkflowSource by (cases "ParseWorkflow yaml (ws_Body s)") auto
  then show ?thesis by (simp add: loaded_def set_map_filter)
qed

lemma source_of_sel [simp]: "ws_Body (source_of s) = ms_raw s" "ws_Name (source_of s) = ms_name s"
  by (simp_all add: source_of_def)

definition mark :: "dir_entry list option \<Rightarrow> matSkill \<Rightarrow> matSkill" where
  "mark authored s = hd (markLocalAuthorship authored [s])"

lemma marked: "markLocalAuthorship authored skills = map (mark authored) skills"
  by (simp add: mark_def markLocalAuthorship_def Let_def)

lemma mark_sel [simp]: "ms_name (mark authored s) = ms_name s" "ms_kind (mark authored s) = ms_kind s"
  "ms_raw (mark authored s) = ms_raw s" "ms_source (mark authored s) = ms_source s"
  by (simp_all add: mark_def markLocalAuthorship_def Let_def)

lemma resolved_source:
  assumes "ResolveGoverningWorkflow yaml c sources = Some (w, n)"
  shows "(w, n) \<in> set (loaded yaml sources)"
  using assms find_SomeD unfolding ResolveGoverningWorkflow_spec by (auto split: option.splits dest!: find_SomeD)

lemma covered_resolves:
  assumes "covered wfs c" and "\<And>n w. (n, w) \<in> set wfs \<Longrightarrow> (w, n) \<in> set (loaded yaml sources)"
    and "\<And>n w a. (n, w) \<in> set wfs \<Longrightarrow> a \<in> set (wf_AppliesTo w) \<Longrightarrow> TrimSpace a \<noteq> []"
  shows "\<exists>w n. ResolveGoverningWorkflow yaml c sources = Some (w, n)"
proof -
  obtain n w a where w: "(n, w) \<in> set wfs" "a \<in> set (wf_AppliesTo w)" and a: "TrimSpace a = ''*'' \<or> EqualFold (TrimSpace a) c"
    using assms(1) by (auto simp: covered_def list_ex_iff Let_def)
  have "covers_exactly (TrimSpace c) w \<or> covers_all w"
  proof (cases "TrimSpace a = ''*''")
    case True
    then show ?thesis using w(2) by (auto simp: covers_all_def list_ex_iff)
  next
    case False
    then have f: "ToLower (TrimSpace a) = ToLower c" using a by (simp add: EqualFold_def)
    have "ToLower (TrimSpace c) = TrimSpace (ToLower (TrimSpace a))" unfolding f by (simp add: TrimSpace_ToLower)
    then have t: "ToLower (TrimSpace c) = ToLower (TrimSpace a)" by (simp add: TrimSpace_ToLower)
    moreover have "TrimSpace c \<noteq> []" using t assms(3) [OF w] by (auto simp: ToLower_def)
    ultimately show ?thesis using w(2) False by (auto simp: covers_exactly_def list_ex_iff EqualFold_def)
  qed
  then have "find (covers_exactly (TrimSpace c) \<circ> fst) (loaded yaml sources) \<noteq> None \<or> find (covers_all \<circ> fst) (loaded yaml sources) \<noteq> None"
    using assms(2) [OF w(1)] by (auto simp: find_None_iff)
  then show ?thesis unfolding ResolveGoverningWorkflow_spec by (auto split: option.split)
qed

lemma sources_set: "set (governingWorkflowSources (tiers_of skills client embedded)) =
    source_of ` (set client \<union> {s \<in> set skills. ms_kind s = ''workflow''} \<union> set embedded)"
  by (auto simp: governingWorkflowSources_def tiers_of_def materialisedWorkflowSources_def)

section \<open>Governance\<close>

lemma no_overrides:
  assumes "\<forall>s \<in> set (client @ embedded). ms_kind s = ''workflow''"
    and "distinct (map ms_name (filter (\<lambda>s. ms_kind s = ''workflow'') (skills @ client @ embedded)))"
  shows "withEmbeddedWorkflows client embedded = client @ embedded"
proof -
  have "filter (\<lambda>s. ms_kind s = ''workflow'') client = client" "filter (\<lambda>s. ms_kind s = ''workflow'') embedded = embedded"
    using assms(1) by (simp_all add: filter_id_conv)
  then have "\<forall>s \<in> set embedded. ms_name s \<notin> set (map ms_name client)" using assms(2) by auto
  then show ?thesis by (simp add: withEmbeddedWorkflows_def filter_id_conv)
qed

text \<open>
  C21: A clean check governs. If no two workflow files share a name and the check is clean, then for each listed
  open story without a workflow of its own the resolver finds a workflow; its lifecycle is sound and each
  of its reviewers is held or resolves, so no transition of the story fails closed for want of its gate.
\<close>

theorem clean_governs:
  assumes "any_order env" and "\<forall>s \<in> set (client @ embedded). ms_kind s = ''workflow''"
    and "distinct (map ms_name (filter (\<lambda>s. ms_kind s = ''workflow'') (skills @ client @ embedded)))"
    and "workflow_check env skills authored client embedded (Some stories) = Clean"
    and "st \<in> set stories" and "ToLower (sl_Status st) \<notin> set terminalStoryStatuses" and "isl (ParseBody (ck_yaml env) (sl_Body st))"
  shows "\<exists>w n. ResolveGoverningWorkflow (ck_yaml env) (sl_Category st) (governingWorkflowSources (tiers_of skills client embedded)) = Some (w, n) \<and>
    ValidateLifecycle w = None \<and> (\<forall>t \<in> set (wf_Transitions w). TrimSpace (tr_ReviewerSkill t) \<noteq> [] \<longrightarrow>
      resolves env (skills @ client @ embedded) (TrimSpace (tr_ReviewerSkill t)))"
proof -
  let ?yaml = "ck_yaml env" and ?src = "governingWorkflowSources (tiers_of skills client embedded)"
  let ?m = "markLocalAuthorship authored skills"
  let ?b = "?m @ client @ embedded"
  let ?wfs = "fst (parseWorkflows ?yaml [] ?b)"
  have clean: "reportWorkflowChecks (runWorkflowChecksResolved env ?m (client @ embedded) stories) = None"
    using assms(4) no_overrides [OF assms(2,3)] by (auto simp: workflow_check_def split: option.splits)
  note c = clean [unfolded clean_exact [OF assms(1) refl refl]]
  have names: "distinct (map ms_name (filter (\<lambda>s. ms_kind s = ''workflow'') ?b))"
    using assms(3) by (simp add: marked filter_map comp_def)
  have origin: "(w, n) \<in> set (loaded ?yaml ?src)" "\<And>a. a \<in> set (wf_AppliesTo w) \<Longrightarrow> TrimSpace a \<noteq> []" if "(n, w) \<in> set ?wfs" for n w
  proof -
    have "map_of ?wfs n = Some w" using that parse_distinct [of "[]" ?yaml ?b] by simp
    then obtain s where s: "s \<in> set ?b" "ms_name s = n" "sound_workflow ?yaml s w" using parse_source [of ?yaml "[]" ?b n w] by auto
    then have "\<exists>t \<in> set (skills @ client @ embedded). ms_name t = n \<and> ms_raw t = ms_raw s \<and> ms_kind t = ''workflow''"
      by (auto simp: marked sound_workflow_def)
    then obtain t where "t \<in> set (skills @ client @ embedded)" "ms_name t = n" "ms_raw t = ms_raw s" "ms_kind t = ''workflow''" by blast
    then have "source_of t \<in> set ?src" "ms_name t = n" "ParseWorkflow ?yaml (ms_raw t) = Inr w"
      using s(3) unfolding sources_set by (auto simp: sound_workflow_def)
    then show "(w, n) \<in> set (loaded ?yaml ?src)" by (auto simp: loaded_set intro: bexI [of _ "source_of t"])
    show "TrimSpace a \<noteq> []" if "a \<in> set (wf_AppliesTo w)" for a
      using s(3) that by (auto simp: sound_workflow_def elim!: ParseWorkflow_validate)
  qed
  have "covered ?wfs (sl_Category st)" using c assms(5,6,7) unfolding governed_def by blast
  then obtain w n where r: "ResolveGoverningWorkflow ?yaml (sl_Category st) ?src = Some (w, n)"
    using covered_resolves [of ?wfs _ ?yaml ?src] origin by blast
  have "\<exists>t \<in> set (skills @ client @ embedded). ms_name t = n \<and> ParseWorkflow ?yaml (ms_raw t) = Inr w \<and> ms_kind t = ''workflow''"
    using resolved_source [OF r] assms(2) unfolding loaded_set sources_set by auto
  then obtain t where t: "t \<in> set (skills @ client @ embedded)" "ms_name t = n" "ParseWorkflow ?yaml (ms_raw t) = Inr w" "ms_kind t = ''workflow''" by blast
  then obtain s where s: "s \<in> set ?b" "ms_name s = n" "ms_raw s = ms_raw t" "ms_kind s = ''workflow''"
    by (auto simp: marked intro: that [of "mark authored t"] that [of t])
  then have sound: "sound_workflow ?yaml s w" using c t(3) by (auto simp: sound_workflow_def)
  then have "(n, w) \<in> set ?wfs" using parse_named [OF names s(1) sound] s(2) by (auto dest: map_of_SomeD)
  then have "names_gate ?b ?wfs g" if "g \<in> set (reviewers w)" for g using that unfolding names_gate_def by blast
  then have "resolves env ?b g" if "g \<in> set (reviewers w)" for g using c that by blast
  then have "resolves env (skills @ client @ embedded) g" if "g \<in> set (reviewers w)" for g
    using that unfolding resolves_def by (fastforce simp: marked)
  then show ?thesis using r sound by (auto simp: reviewers_def sound_workflow_def)
qed

section \<open>One default\<close>

text \<open>Where a local workflow overrides an embedded one by name, it covers what the embedded one covers.\<close>

definition overrides_cover :: "yaml_codec \<Rightarrow> string \<Rightarrow> matSkill list \<Rightarrow> matSkill list \<Rightarrow> bool" where
  "overrides_cover yaml c client embedded \<longleftrightarrow> (\<forall>e \<in> set embedded. \<forall>s \<in> set client. \<forall>w. ms_name s = ms_name e \<and>
     ParseWorkflow yaml (ms_raw e) = Inr w \<and> covers_exactly c w \<longrightarrow>
     (\<exists>v. ParseWorkflow yaml (ms_raw s) = Inr v \<and> covers_exactly c v))"

definition specific :: "yaml_codec \<Rightarrow> string \<Rightarrow> matSkill \<Rightarrow> bool" where
  "specific yaml c s \<longleftrightarrow> (\<exists>w. ParseWorkflow yaml (ms_raw s) = Inr w \<and> covers_exactly c w)"

lemma sourceRank_range: "0 \<le> sourceRank x \<and> sourceRank x < 10"
  by (simp add: sourceRank_def)

lemma rank_specific:
  assumes "c \<noteq> []"
  shows "covers_exactly c w \<Longrightarrow> category_rank (ToLower c) s w = Some (sourceRank (ms_source s))"
    and "category_rank (ToLower c) s w = Some r \<Longrightarrow> r < 10 \<Longrightarrow> covers_exactly c w \<and> r = sourceRank (ms_source s)"
  using assms sourceRank_range [of "ms_source s"]
  by (auto simp: category_rank_def covers_exactly_def list_ex_iff EqualFold_def Let_def split: if_splits)

lemma parsed_mem: "(s, w) \<in> set (parsed_sources yaml b) \<longleftrightarrow> s \<in> set b \<and> ms_kind s = ''workflow'' \<and> ParseWorkflow yaml (ms_raw s) = Inr w"
proof -
  have "(if ms_kind t \<noteq> ''workflow'' then None else case ParseWorkflow yaml (ms_raw t) of Inl e \<Rightarrow> None | Inr w \<Rightarrow> Some (t, w)) = Some (s, w) \<longleftrightarrow>
      t = s \<and> ms_kind s = ''workflow'' \<and> ParseWorkflow yaml (ms_raw s) = Inr w" for t :: matSkill
    by (cases "ParseWorkflow yaml (ms_raw t)") auto
  then show ?thesis unfolding parsed_sources_def set_map_filter by (simp only:) blast
qed

lemma specific_choice:
  assumes "c \<noteq> []" and "s \<in> set b" and "ms_kind s = ''workflow''" and "specific yaml c s"
    and "\<And>t. t \<in> set b \<Longrightarrow> ms_kind t = ''workflow'' \<Longrightarrow> specific yaml c t \<Longrightarrow> sourceRank (ms_source s) \<le> sourceRank (ms_source t)"
  shows "first_choice (parsed_sources yaml b) (ToLower c) s"
proof -
  obtain w where w: "ParseWorkflow yaml (ms_raw s) = Inr w" "covers_exactly c w" using assms(4) by (auto simp: specific_def)
  have "sourceRank (ms_source s) \<le> r" if "(t, v) \<in> set (parsed_sources yaml b)" "category_rank (ToLower c) t v = Some r" for t v r
  proof (cases "r < 10")
    case True
    then have "specific yaml c t" "r = sourceRank (ms_source t)"
      using that rank_specific(2) [OF assms(1) that(2)] by (auto simp: parsed_mem specific_def)
    then show ?thesis using assms(5) that(1) by (simp add: parsed_mem)
  qed (simp add: sourceRank_def)
  then show ?thesis using rank_specific(1) [OF assms(1) w(2)] w assms(2,3)
    unfolding first_choice_def by (auto simp: parsed_mem)
qed

lemma specific_category:
  assumes "c \<noteq> []" and "(s, w) \<in> set ps" and "covers_exactly c w"
  shows "ToLower c \<in> set (specific_categories ps)"
proof -
  obtain a where a: "a \<in> set (wf_AppliesTo w)" "TrimSpace a \<noteq> ''*''" "ToLower (TrimSpace a) = ToLower c"
    using assms(3) by (auto simp: covers_exactly_def list_ex_iff EqualFold_def)
  moreover have "TrimSpace a \<noteq> []" using a(3) assms(1) by (auto simp: ToLower_def)
  ultimately show ?thesis using assms(2) unfolding specific_categories_def by (force simp: image_iff)
qed

text \<open>The resolver's exact match is a first choice of the check.\<close>

lemma exact_is_choice:
  assumes "c = TrimSpace category" and "c \<noteq> []"
    and client: "\<forall>s \<in> set client. ms_kind s = ''workflow'' \<and> ms_source s = ''local''"
    and skill: "\<forall>s \<in> set skills. ms_source s = ''skill''"
    and embed: "\<forall>s \<in> set embedded. ms_kind s = ''workflow'' \<and> ms_source s = ''embed''"
    and over: "overrides_cover yaml c client embedded"
    and some: "\<exists>s \<in> set (filter (\<lambda>s. ms_kind s = ''workflow'') skills @ client @ embedded). specific yaml c s"
    and r: "ResolveGoverningWorkflow yaml category (governingWorkflowSources (tiers_of skills client embedded)) = Some (w, n)"
    and b: "b = map (mark authored) skills @ withEmbeddedWorkflows client embedded"
  shows "\<exists>s. first_choice (parsed_sources yaml b) (ToLower c) s \<and> ms_name s = n"
proof -
  let ?P = "covers_exactly c \<circ> fst"
  let ?l = "\<lambda>ss. loaded yaml (map source_of ss)"
  have app: "loaded yaml (xs @ ys) = loaded yaml xs @ loaded yaml ys" for xs ys
    by (induction xs) (auto split: sum.split)
  have found: "find ?P (?l ss) = None \<longleftrightarrow> (\<forall>s \<in> set ss. \<not> specific yaml c s)" for ss
    unfolding find_None_iff by (auto simp: specific_def loaded_set)
  let ?wf = "filter (\<lambda>s. ms_kind s = ''workflow'') skills"
  have f: "find ?P (?l (client @ ?wf @ embedded)) = Some (w, n)"
  proof -
    have "find ?P (?l (client @ ?wf @ embedded)) \<noteq> None" using some unfolding found by auto
    then show ?thesis using r unfolding ResolveGoverningWorkflow_spec assms(1)
      by (auto simp: governingWorkflowSources_def tiers_of_def materialisedWorkflowSources_def)
  qed
  have hit: "\<exists>s \<in> set ss. specific yaml c s \<and> ms_name s = n" if "find ?P (?l ss) = Some (w, n)" for ss
    using find_SomeD [OF that] by (auto simp: specific_def loaded_set)
  have miss: "t \<in> set ss \<Longrightarrow> \<not> specific yaml c t" if "find ?P (?l ss) = None" for ss t using found [of ss] that by blast
  have choice: "\<exists>s. first_choice (parsed_sources yaml b) (ToLower c) s \<and> ms_name s = n"
    if "s \<in> set b" "ms_kind s = ''workflow''" "specific yaml c s" "ms_name s = n"
      "\<And>t. t \<in> set (client @ ?wf @ embedded) \<Longrightarrow> specific yaml c t \<Longrightarrow> sourceRank (ms_source s) \<le> sourceRank (ms_source t)" for s
  proof (intro exI conjI specific_choice)
    fix t assume t: "t \<in> set b" "ms_kind t = ''workflow''" "specific yaml c t"
    then have "\<exists>u \<in> set (client @ ?wf @ embedded). specific yaml c u \<and> ms_source u = ms_source t"
      unfolding b by (fastforce simp: withEmbeddedWorkflows_def specific_def)
    then show "sourceRank (ms_source s) \<le> sourceRank (ms_source t)" using that(5) by metis
  qed (use that assms(2) in auto)
  show ?thesis
  proof (cases "find ?P (?l client)")
    case (Some r)
    then have "r = (w, n)" using f by (simp add: app find_append)
    then obtain s where s: "s \<in> set client" "specific yaml c s" "ms_name s = n" using hit Some by blast
    then show ?thesis using client by (intro choice [of s]) (auto simp: b withEmbeddedWorkflows_def sourceRank_def)
  next
    case none: None
    show ?thesis
    proof (cases "find ?P (?l ?wf)")
      case (Some r)
      then have "r = (w, n)" using f none by (simp add: app find_append)
      then obtain s where s: "s \<in> set ?wf" "specific yaml c s" "ms_name s = n" using hit Some by blast
      then show ?thesis using skill embed miss [OF none] by (intro choice [of "mark authored s"]) (auto simp: b specific_def sourceRank_def)
    next
      case None
      then have "find ?P (?l embedded) = Some (w, n)" using f none by (simp add: app find_append)
      then obtain s where s: "s \<in> set embedded" "specific yaml c s" "ms_name s = n" using hit by blast
      have "ms_name s \<notin> set (map ms_name client)"
        using over s(1,2) miss [OF none] unfolding overrides_cover_def specific_def by auto
      then show ?thesis using s embed miss [OF none] miss [OF None]
        by (intro choice [of s]) (auto simp: b withEmbeddedWorkflows_def sourceRank_def)
    qed
  qed
qed

text \<open>
  One default. If the check is clean, then a category that some workflow names has one default: in whatever order the
  files of each source are listed, the resolver returns a workflow, and always one of the same name.
\<close>

theorem default_deterministic:
  assumes "any_order env" and "workflow_check env skills authored client embedded (Some stories) = Clean"
    and "c = TrimSpace category" and "c \<noteq> []"
    and "\<forall>s \<in> set client. ms_kind s = ''workflow'' \<and> ms_source s = ''local''" and "\<forall>s \<in> set skills. ms_source s = ''skill''"
    and "\<forall>s \<in> set embedded. ms_kind s = ''workflow'' \<and> ms_source s = ''embed''" and "overrides_cover (ck_yaml env) c client embedded"
    and "s \<in> set (client @ filter (\<lambda>s. ms_kind s = ''workflow'') skills)" and "specific (ck_yaml env) c s"
  shows "\<exists>n. \<forall>skills' client' embedded'. mset skills' = mset skills \<and> mset client' = mset client \<and> mset embedded' = mset embedded \<longrightarrow>
    (\<exists>w. ResolveGoverningWorkflow (ck_yaml env) category (governingWorkflowSources (tiers_of skills' client' embedded')) = Some (w, n))"
proof -
  let ?yaml = "ck_yaml env" and ?b = "map (mark authored) skills @ withEmbeddedWorkflows client embedded"
  let ?choice = "\<lambda>s. first_choice (parsed_sources ?yaml ?b) (ToLower c) s"
  let ?r = "\<lambda>skills client embedded. ResolveGoverningWorkflow ?yaml category (governingWorkflowSources (tiers_of skills client embedded))"
  have one: "one_default (parsed_sources ?yaml ?b)"
  proof -
    have "reportWorkflowChecks (runWorkflowChecksResolved env (map (mark authored) skills) (withEmbeddedWorkflows client embedded) stories) = None"
      using assms(2) by (auto simp: workflow_check_def marked split: option.splits)
    then show ?thesis unfolding clean_exact [OF assms(1) refl refl] by blast
  qed
  obtain w0 where w0: "ParseWorkflow ?yaml (ms_raw s) = Inr w0" "covers_exactly c w0" using assms(10) by (auto simp: specific_def)
  have named: "ToLower c \<in> set (specific_categories (parsed_sources ?yaml ?b))"
  proof (cases "s \<in> set client")
    case True
    then show ?thesis using specific_category [OF assms(4) _ w0(2), of s] w0(1) assms(5) by (simp add: parsed_mem withEmbeddedWorkflows_def)
  next
    case False
    then show ?thesis using specific_category [OF assms(4) _ w0(2), of "mark authored s"] w0(1) assms(9) by (simp add: parsed_mem)
  qed
  have default: "\<exists>w s. ?r skills' client' embedded' = Some (w, ms_name s) \<and> ?choice s"
    if "mset skills' = mset skills" "mset client' = mset client" "mset embedded' = mset embedded" for skills' client' embedded'
  proof -
    let ?b' = "map (mark authored) skills' @ withEmbeddedWorkflows client' embedded'"
    have e: "set skills' = set skills" "set client' = set client" "set embedded' = set embedded" using that by (metis set_mset_mset)+
    then have "set (parsed_sources ?yaml ?b') = set (parsed_sources ?yaml ?b)"
      by (auto simp: parsed_mem withEmbeddedWorkflows_def)
    then have same: "first_choice (parsed_sources ?yaml ?b') (ToLower c) s = ?choice s" for s by (simp add: first_choice_def)
    have some: "\<exists>s \<in> set (filter (\<lambda>s. ms_kind s = ''workflow'') skills' @ client' @ embedded'). specific ?yaml c s"
      using assms(9,10) e by auto
    have "\<exists>w n. ?r skills' client' embedded' = Some (w, n)"
    proof -
      have "source_of s \<in> set (governingWorkflowSources (tiers_of skills' client' embedded'))" using assms(9) e unfolding sources_set by auto
      moreover have "ParseWorkflow ?yaml (ws_Body (source_of s)) = Inr w0" using w0(1) by simp
      ultimately have "(w0, ms_name s) \<in> set (loaded ?yaml (governingWorkflowSources (tiers_of skills' client' embedded')))"
        unfolding loaded_set by (metis source_of_sel(2))
      then have "find (covers_exactly c \<circ> fst) (loaded ?yaml (governingWorkflowSources (tiers_of skills' client' embedded'))) \<noteq> None"
        using w0(2) by (auto simp: find_None_iff)
      then show ?thesis unfolding ResolveGoverningWorkflow_spec assms(3) [symmetric] by auto
    qed
    then obtain w n where r: "?r skills' client' embedded' = Some (w, n)" by blast
    have "\<exists>s. first_choice (parsed_sources ?yaml ?b') (ToLower c) s \<and> ms_name s = n"
      by (rule exact_is_choice [OF assms(3,4) _ _ _ _ some r refl]) (use assms(5-8) e in \<open>auto simp: overrides_cover_def\<close>)
    then show ?thesis using r same by blast
  qed
  obtain w s1 where s1: "?r skills client embedded = Some (w, ms_name s1)" "?choice s1" using default [OF refl refl refl] by blast
  have "ms_name s2 = ms_name s1" if "?choice s2" for s2 using one named that s1(2) unfolding one_default_def by blast
  then show ?thesis using default by (intro exI [of _ "ms_name s1"]) metis
qed

section \<open>Examples\<close>

text \<open>A file of the two-machine codec, an environment that ranges maps backwards and knows one gate, and an open story.\<close>

definition file_skill :: "string \<Rightarrow> string \<Rightarrow> string \<Rightarrow> string \<Rightarrow> matSkill" where
  "file_skill name source fm block = \<lparr>ms_name = name, ms_kind = ''workflow'', ms_scope = ''project'', ms_description = ''d'', ms_body = [],
     ms_raw = ws_Body (workflow_file fm block), ms_source = source, ms_local = False\<rparr>"

definition demo_check :: check_env where
  "demo_check = \<lparr>ck_yaml = two_yaml, ck_range = rev, ck_resolvable = (\<lambda>g. g = ''satellites-story-cancel-review''),
     ck_config_skill = (\<lambda>g. True), ck_render = (\<lambda>m. [])\<rparr>"

definition open_bug :: storyLite where
  "open_bug = \<lparr>sl_ID = ''y1'', sl_Name = ''Fix'', sl_Category = ''bug'', sl_Status = ''backlog'', sl_Body = ''Fix it''\<rparr>"

abbreviation demo_client :: "matSkill list" where
  "demo_client \<equiv> [file_skill ''w'' ''local'' ''chore'' ''c'', file_skill ''v'' ''local'' ''all'' ''c'']"

abbreviation demo_embedded :: "matSkill list" where
  "demo_embedded \<equiv> [file_skill ''x'' ''embed'' ''all'' ''c'']"

lemma demo_any_order: "any_order demo_check"
  by (simp add: any_order_def demo_check_def)

lemma demo_clean: "workflow_check demo_check [] None demo_client demo_embedded (Some [open_bug]) = Clean"
  by code_simp

theorem clean_exact_witness:
  "reportWorkflowChecks (runWorkflowChecksResolved demo_check [] (demo_client @ demo_embedded) [open_bug]) = None \<and>
   one_default (parsed_sources two_yaml (demo_client @ demo_embedded)) \<and>
   one_model (fst (parseWorkflows two_yaml [] (demo_client @ demo_embedded)))"
proof -
  have r: "reportWorkflowChecks (runWorkflowChecksResolved demo_check [] (demo_client @ demo_embedded) [open_bug]) = None" by code_simp
  have y: "ck_yaml demo_check = two_yaml" by (simp add: demo_check_def)
  show ?thesis using clean_exact [OF demo_any_order refl refl, of "[]" "demo_client @ demo_embedded" "[open_bug]"] r unfolding y append_Nil by blast
qed

theorem clean_governs_witness:
  "\<exists>w n. ResolveGoverningWorkflow two_yaml ''bug'' (governingWorkflowSources (tiers_of [] demo_client demo_embedded)) = Some (w, n) \<and>
     ValidateLifecycle w = None"
proof -
  have 1: "\<forall>s \<in> set (demo_client @ demo_embedded). ms_kind s = ''workflow''" by (simp add: file_skill_def)
  have 2: "distinct (map ms_name (filter (\<lambda>s. ms_kind s = ''workflow'') ([] @ demo_client @ demo_embedded)))" by (simp add: file_skill_def)
  have 3: "open_bug \<in> set [open_bug]" "ToLower (sl_Status open_bug) \<notin> set terminalStoryStatuses"
    "isl (ParseBody (ck_yaml demo_check) (sl_Body open_bug))" by code_simp+
  have e: "ck_yaml demo_check = two_yaml" "sl_Category open_bug = ''bug''" by (simp_all add: demo_check_def open_bug_def)
  show ?thesis using clean_governs [OF demo_any_order 1 2 demo_clean 3] unfolding e by blast
qed

theorem default_deterministic_witness:
  "\<exists>n w w'. ResolveGoverningWorkflow two_yaml ''chore'' (governingWorkflowSources (tiers_of [] demo_client demo_embedded)) = Some (w, n) \<and>
     ResolveGoverningWorkflow two_yaml ''chore'' (governingWorkflowSources (tiers_of [] (rev demo_client) demo_embedded)) = Some (w', n)"
proof -
  let ?s = "file_skill ''w'' ''local'' ''chore'' ''c''"
  have y: "ck_yaml demo_check = two_yaml" by (simp add: demo_check_def)
  have c: "''chore'' = TrimSpace ''chore''" "''chore'' \<noteq> []" by code_simp+
  have k: "\<forall>s \<in> set demo_client. ms_kind s = ''workflow'' \<and> ms_source s = ''local''" "\<forall>s \<in> set []. ms_source s = ''skill''"
    "\<forall>s \<in> set demo_embedded. ms_kind s = ''workflow'' \<and> ms_source s = ''embed''" by (simp_all add: file_skill_def)
  have o': "overrides_cover (ck_yaml demo_check) ''chore'' demo_client demo_embedded" by (simp add: overrides_cover_def file_skill_def)
  have m: "?s \<in> set (demo_client @ filter (\<lambda>s. ms_kind s = ''workflow'') [])" by simp
  have "case ParseWorkflow two_yaml (ms_raw ?s) of Inl e \<Rightarrow> False | Inr w \<Rightarrow> covers_exactly ''chore'' w" by code_simp
  then have sp: "specific (ck_yaml demo_check) ''chore'' ?s" unfolding y specific_def by (auto split: sum.splits)
  obtain n where n: "\<forall>skills' client' embedded'. mset skills' = mset [] \<and> mset client' = mset demo_client \<and> mset embedded' = mset demo_embedded \<longrightarrow>
    (\<exists>w. ResolveGoverningWorkflow (ck_yaml demo_check) ''chore'' (governingWorkflowSources (tiers_of skills' client' embedded')) = Some (w, n))"
    using default_deterministic [OF demo_any_order demo_clean c k o' m sp] by blast
  have "mset (rev demo_client) = mset demo_client" by (rule mset_rev)
  then show ?thesis using n [rule_format, of "[]" demo_client demo_embedded] n [rule_format, of "[]" "rev demo_client" demo_embedded] unfolding y by auto
qed

text \<open>
  Overridden names escape. With three workflow files, two of them named alike, the check is clean, but
  the resolver governs a bug by the one the check did not look at, and a gate of it resolves nowhere.
\<close>

theorem override_escapes_check:
  "workflow_check demo_check [file_skill ''w'' ''skill'' ''all'' ''s''] None [file_skill ''w'' ''local'' ''chore'' ''c'']
     demo_embedded (Some [open_bug]) = Clean \<and>
   (\<exists>w t. ResolveGoverningWorkflow two_yaml (sl_Category open_bug) (governingWorkflowSources (tiers_of [file_skill ''w'' ''skill'' ''all'' ''s'']
       [file_skill ''w'' ''local'' ''chore'' ''c''] demo_embedded)) = Some (w, ''w'') \<and>
     t \<in> set (wf_Transitions w) \<and> tr_ReviewerSkill t = gate_integration \<and>
     \<not> resolves demo_check ([file_skill ''w'' ''skill'' ''all'' ''s'', file_skill ''w'' ''local'' ''chore'' ''c''] @ demo_embedded) gate_integration)"
proof -
  have 1: "workflow_check demo_check [file_skill ''w'' ''skill'' ''all'' ''s''] None [file_skill ''w'' ''local'' ''chore'' ''c'']
     demo_embedded (Some [open_bug]) = Clean" by code_simp
  have 2: "case ResolveGoverningWorkflow two_yaml (sl_Category open_bug) (governingWorkflowSources (tiers_of [file_skill ''w'' ''skill'' ''all'' ''s'']
      [file_skill ''w'' ''local'' ''chore'' ''c''] demo_embedded)) of
      Some (w, n) \<Rightarrow> n = ''w'' \<and> list_ex (\<lambda>t. tr_ReviewerSkill t = gate_integration) (wf_Transitions w) | None \<Rightarrow> False" by code_simp
  have 3: "\<not> resolves demo_check ([file_skill ''w'' ''skill'' ''all'' ''s'', file_skill ''w'' ''local'' ''chore'' ''c''] @ demo_embedded) gate_integration"
    by (simp add: resolves_def file_skill_def demo_check_def gate_integration_def)
  show ?thesis using 1 2 3 by (auto simp: list_ex_iff split: option.splits)
qed

end
