(* ===== verification/Tokens.thy ===== *)
theory Tokens
  imports Prelude
begin

text \<open>
  The signed tokens of \<^verbatim>\<open>internal/auth\<close>: the access token (\<^verbatim>\<open>jwt.go\<close>), the session cookie (\<^verbatim>\<open>session.go\<close>) and
  the proof key of an authorization (\<^verbatim>\<open>pkce.go\<close>). The unpadded URL alphabet of base64 is written out; HMAC, SHA-256 and
  the JSON form of the claims are parameters. Times are seconds.
\<close>

section \<open>Unpadded base64 for URLs\<close>

definition b64_char :: "nat \<Rightarrow> char" where
  "b64_char v = char_of (if v < 26 then v + 65 else if v < 52 then v + 71 else if v < 62 then v - 4 else if v = 62 then 45 else (95 :: nat))"

definition b64_value :: "char \<Rightarrow> nat option" where
  "b64_value c = (let n = of_char c in
     if 65 \<le> n \<and> n \<le> 90 then Some (n - 65) else if 97 \<le> n \<and> n \<le> 122 then Some (n - 71)
     else if 48 \<le> n \<and> n \<le> 57 then Some (n + 4) else if n = 45 then Some 62 else if n = 95 then Some 63 else None)"

fun sextets :: "nat list \<Rightarrow> nat list" where
  "sextets [] = []"
| "sextets [a] = [a div 4, (a mod 4) * 16]"
| "sextets [a, b] = [a div 4, (a mod 4) * 16 + b div 16, (b mod 16) * 4]"
| "sextets (a # b # c # r) = a div 4 # ((a mod 4) * 16 + b div 16) # ((b mod 16) * 4 + c div 64) # c mod 64 # sextets r"

fun octets :: "nat list \<Rightarrow> nat list option" where
  "octets [] = Some []"
| "octets [w] = None"
| "octets [w, x] = Some [w * 4 + x div 16]"
| "octets [w, x, y] = Some [w * 4 + x div 16, (x mod 16) * 16 + y div 4]"
| "octets (w # x # y # z # r) = map_option (\<lambda>t. (w * 4 + x div 16) # ((x mod 16) * 16 + y div 4) # ((y mod 4) * 64 + z) # t) (octets r)"

definition b64_encode :: "string \<Rightarrow> string" where
  "b64_encode s = map b64_char (sextets (map of_char s))"

text \<open>The decoder skips line ends and ignores the unused bits of the last character.\<close>

definition b64_decode :: "string \<Rightarrow> string option" where
  "b64_decode s = (case those (map b64_value (filter (\<lambda>c. c \<noteq> CHR 0x0A \<and> c \<noteq> CHR 0x0D) s)) of
     None \<Rightarrow> None | Some vs \<Rightarrow> map_option (map char_of) (octets vs))"

lemma b64_value_char: "v < 64 \<Longrightarrow> b64_value (b64_char v) = Some v"
  by (auto simp: b64_value_def b64_char_def Let_def)

lemma b64_char_plain: "v < 64 \<Longrightarrow> b64_char v \<notin> {CHR 0x0A, CHR 0x0D, CHR ''.'', CHR ''|''}"
proof -
  assume "v < 64"
  then have "(of_char (b64_char v) :: nat) \<notin> of_char ` {CHR 0x0A, CHR 0x0D, CHR ''.'', CHR ''|''}" by (auto simp: b64_char_def)
  then show ?thesis by blast
qed

lemma sextets_small: "\<forall>x \<in> set xs. x < 256 \<Longrightarrow> v \<in> set (sextets xs) \<Longrightarrow> v < 64"
  by (induction xs rule: sextets.induct) auto

lemma pack: "b < 16 \<Longrightarrow> (a * 16 + b) div 16 = a" "b < 16 \<Longrightarrow> (a * 16 + b) mod 16 = (b :: nat)"
  "d < 4 \<Longrightarrow> (c * 4 + d) div 4 = c" "d < 4 \<Longrightarrow> (c * 4 + d) mod 4 = (d :: nat)"
  by simp_all

lemma octets_sextets: "\<forall>x \<in> set xs. x < 256 \<Longrightarrow> octets (sextets xs) = Some xs"
proof (induction xs rule: sextets.induct)
  case (3 a b)
  then have "b div 16 < 16" by auto
  then show ?case by (simp add: pack)
next
  case (4 a b c r)
  then have "b div 16 < 16" "c div 64 < 4" by auto
  then show ?case using 4 by (simp add: pack)
qed simp_all

lemma those_map: "\<forall>x \<in> set xs. f x = Some (g x) \<Longrightarrow> those (map f xs) = Some (map g xs)"
  by (induction xs) auto

lemma b64_plain: "c \<in> set (b64_encode s) \<Longrightarrow> c \<notin> {CHR 0x0A, CHR 0x0D, CHR ''.'', CHR ''|''}"
proof -
  assume "c \<in> set (b64_encode s)"
  then obtain v where "v \<in> set (sextets (map of_char s))" "c = b64_char v" by (auto simp: b64_encode_def)
  then show ?thesis using sextets_small [of "map of_char s" v] b64_char_plain [of v] by auto
qed

theorem b64_roundtrip: "b64_decode (b64_encode s) = Some s"
proof -
  let ?v = "sextets (map of_char s)"
  have small: "\<forall>x \<in> set (map of_char s). x < (256 :: nat)" by auto
  have "filter (\<lambda>c. c \<noteq> CHR 0x0A \<and> c \<noteq> CHR 0x0D) (b64_encode s) = b64_encode s"
    using b64_plain by (auto simp: filter_id_conv)
  moreover have "those (map b64_value (b64_encode s)) = Some ?v"
    using those_map [of ?v "b64_value \<circ> b64_char" id] b64_value_char sextets_small [OF small] by (simp add: b64_encode_def comp_def)
  ultimately show ?thesis using octets_sextets [OF small] by (simp add: b64_decode_def comp_def)
qed

section \<open>Splitting at a character\<close>

fun split_at_char :: "char \<Rightarrow> string \<Rightarrow> string list" where
  "split_at_char d [] = [[]]"
| "split_at_char d (c # s) = (if c = d then [] # split_at_char d s
     else (case split_at_char d s of [] \<Rightarrow> [[c]] | p # ps \<Rightarrow> (c # p) # ps))"

lemma split_nonempty [simp]: "split_at_char d s \<noteq> []"
  by (induction s) (auto split: list.split)

lemma split_plain: "d \<notin> set s \<Longrightarrow> split_at_char d s = [s]"
  by (induction s) auto

lemma split_append: "d \<notin> set s \<Longrightarrow> split_at_char d (s @ d # t) = s # split_at_char d t"
  by (induction s) auto

lemma split_parts: "p \<in> set (split_at_char d s) \<Longrightarrow> d \<notin> set p"
proof (induction s arbitrary: p)
  case (Cons c s)
  then show ?case by (cases "split_at_char d s") (auto split: if_splits)
qed simp

lemma split_join: "Join (split_at_char d s) [d] = s"
proof (induction s)
  case (Cons c s)
  obtain p ps where e: "split_at_char d s = p # ps" by (cases "split_at_char d s") auto
  show ?case
  proof (cases "c = d")
    case True
    then show ?thesis using Cons e by simp
  next
    case False
    then show ?thesis using Cons e by (cases ps) auto
  qed
qed simp

lemma split_three: "split_at_char d s = [a, b, c] \<longleftrightarrow> s = a @ d # b @ d # c \<and> d \<notin> set a \<and> d \<notin> set b \<and> d \<notin> set c"
proof
  assume e: "split_at_char d s = [a, b, c]"
  have "Join [a, b, c] [d] = s" using split_join [of d s] unfolding e .
  then show "s = a @ d # b @ d # c \<and> d \<notin> set a \<and> d \<notin> set b \<and> d \<notin> set c"
    using split_parts [of _ d s] unfolding e by auto
qed (simp add: split_append split_plain)

section \<open>Access tokens\<close>

record JWTClaims =
  jw_Sub :: string
  jw_Email :: string
  jw_Name :: string
  jw_Provider :: string
  jw_Scope :: string
  jw_ClientID :: string
  jw_Iss :: string
  jw_Iat :: int
  jw_Exp :: int

record token_codec =
  tk_hmac :: "string \<Rightarrow> string \<Rightarrow> string"
  tk_sha256 :: "string \<Rightarrow> string"
  tk_marshal :: "JWTClaims \<Rightarrow> string"
  tk_unmarshal :: "string \<Rightarrow> JWTClaims option"

definition quoted :: "string \<Rightarrow> string" where "quoted s = CHR 0x22 # s @ [CHR 0x22]"

definition jwt_header :: string where
  "jwt_header = ''{'' @ quoted ''alg'' @ '':'' @ quoted ''HS256'' @ '','' @ quoted ''typ'' @ '':'' @ quoted ''JWT'' @ ''}''"

definition CreateJWT :: "token_codec \<Rightarrow> JWTClaims \<Rightarrow> string \<Rightarrow> string" where
  "CreateJWT tk claims secret =
     (let sigInput = b64_encode jwt_header @ ''.'' @ b64_encode (tk_marshal tk claims) in
      sigInput @ ''.'' @ b64_encode (tk_hmac tk secret sigInput))"

datatype jwt_error = JwtParts | JwtSigEncoding | JwtSignature | JwtPayloadEncoding | JwtPayloadJson | JwtNoExp | JwtExpired

definition signature_error :: "token_codec \<Rightarrow> string \<Rightarrow> string \<Rightarrow> string \<Rightarrow> string \<Rightarrow> jwt_error option" where
  "signature_error tk secret h p s =
     (if secret = [] then None
      else case b64_decode s of
        None \<Rightarrow> Some JwtSigEncoding
      | Some actual \<Rightarrow> if tk_hmac tk secret (h @ ''.'' @ p) \<noteq> actual then Some JwtSignature else None)"

definition ValidateJWT :: "token_codec \<Rightarrow> int \<Rightarrow> string \<Rightarrow> string \<Rightarrow> jwt_error + JWTClaims" where
  "ValidateJWT tk now token secret =
     (case split_at_char (CHR ''.'') token of
        [h, p, s] \<Rightarrow>
          (case signature_error tk secret h p s of
             Some e \<Rightarrow> Inl e
           | None \<Rightarrow>
               (case b64_decode p of
                  None \<Rightarrow> Inl JwtPayloadEncoding
                | Some payload \<Rightarrow>
                    (case tk_unmarshal tk payload of
                       None \<Rightarrow> Inl JwtPayloadJson
                     | Some claims \<Rightarrow>
                         if jw_Exp claims = 0 then Inl JwtNoExp
                         else if jw_Exp claims < now then Inl JwtExpired else Inr claims)))
      | _ \<Rightarrow> Inl JwtParts)"

fun two_dots :: "nat \<Rightarrow> string \<Rightarrow> bool" where
  "two_dots dots [] = (dots = 2)"
| "two_dots dots (c # s) = (if c = CHR ''.'' then (if dots + 1 > 2 then False else two_dots (dots + 1) s) else two_dots dots s)"

definition LooksLikeJWT :: "string \<Rightarrow> bool" where
  "LooksLikeJWT token = (if token = [] \<or> HasPrefix token ''sk_'' then False else two_dots 0 token)"

lemma two_dots_filter: "n \<le> 2 \<Longrightarrow> two_dots n s \<longleftrightarrow> n + length (filter (\<lambda>c. c = CHR ''.'') s) = 2"
  by (induction n s rule: two_dots.induct) auto

lemma LooksLikeJWT_parts: "LooksLikeJWT token \<Longrightarrow> length (split_at_char (CHR ''.'') token) = 3"
proof -
  have "length (split_at_char (CHR ''.'') s) = Suc (length (filter (\<lambda>c. c = CHR ''.'') s))" for s
    by (induction s) (auto split: list.split)
  then show "LooksLikeJWT token \<Longrightarrow> length (split_at_char (CHR ''.'') token) = 3"
    by (simp add: LooksLikeJWT_def two_dots_filter split: if_splits)
qed

text \<open>A minted token is read back, to the second of its expiry, and is taken for a token, not for a key.\<close>

theorem jwt_roundtrip:
  assumes "tk_unmarshal tk (tk_marshal tk c) = Some c" and "jw_Exp c \<noteq> 0" and "now \<le> jw_Exp c"
  shows "ValidateJWT tk now (CreateJWT tk c secret) secret = Inr c \<and> LooksLikeJWT (CreateJWT tk c secret)"
proof -
  have dot: "CHR ''.'' \<notin> set (b64_encode s)" for s using b64_plain by blast
  let ?h = "b64_encode jwt_header" and ?p = "b64_encode (tk_marshal tk c)"
  have s: "split_at_char (CHR ''.'') (CreateJWT tk c secret) = [?h, ?p, b64_encode (tk_hmac tk secret (?h @ ''.'' @ ?p))]"
    unfolding split_three using dot by (simp add: CreateJWT_def Let_def)
  have h: "?h = CHR ''e'' # tl ?h" by code_simp
  have count: "filter (\<lambda>c. c = CHR ''.'') (b64_encode s) = []" for s using dot [of s] by (auto simp: filter_empty_conv)
  have "two_dots 0 (CreateJWT tk c secret)" by (simp add: two_dots_filter CreateJWT_def Let_def count)
  moreover have "\<not> HasPrefix (CreateJWT tk c secret) ''sk_''" unfolding CreateJWT_def Let_def by (subst h) simp
  moreover have "CreateJWT tk c secret \<noteq> []" by (simp add: CreateJWT_def Let_def)
  ultimately have "LooksLikeJWT (CreateJWT tk c secret)" by (simp add: LooksLikeJWT_def)
  then show ?thesis using assms b64_roundtrip by (simp add: ValidateJWT_def s signature_error_def)
qed

text \<open>
  C17: Accepted access tokens are signed. Under a secret a token is accepted exactly when it has three parts, its third part
  decodes to the MAC of the first two as they stand, and its payload decodes to claims with an expiry that has not passed.
\<close>

theorem jwt_exact:
  "ValidateJWT tk now token (k # ks) = Inr c \<longleftrightarrow>
    (\<exists>h p s payload. token = h @ CHR ''.'' # p @ CHR ''.'' # s \<and> CHR ''.'' \<notin> set h \<and> CHR ''.'' \<notin> set p \<and> CHR ''.'' \<notin> set s \<and>
      b64_decode s = Some (tk_hmac tk (k # ks) (h @ CHR ''.'' # p)) \<and> b64_decode p = Some payload \<and>
      tk_unmarshal tk payload = Some c \<and> jw_Exp c \<noteq> 0 \<and> now \<le> jw_Exp c)" (is "?l \<longleftrightarrow> ?r")
proof
  assume ?l
  then obtain h p s where s: "split_at_char (CHR ''.'') token = [h, p, s]"
    by (auto simp: ValidateJWT_def split: list.splits)
  have "signature_error tk (k # ks) h p s = None" using \<open>?l\<close> by (auto simp: ValidateJWT_def s split: option.splits)
  moreover obtain payload where "b64_decode p = Some payload" "tk_unmarshal tk payload = Some c" "jw_Exp c \<noteq> 0" "now \<le> jw_Exp c"
    using \<open>?l\<close> by (auto simp: ValidateJWT_def s not_less split: option.splits if_splits)
  moreover have "b64_decode s = Some (tk_hmac tk (k # ks) (h @ CHR ''.'' # p))"
    using calculation(1) by (auto simp: signature_error_def split: option.splits if_splits)
  ultimately show ?r using s unfolding split_three by blast
next
  assume ?r
  then obtain h p s payload where t: "split_at_char (CHR ''.'') token = [h, p, s]" "b64_decode s = Some (tk_hmac tk (k # ks) (h @ CHR ''.'' # p))"
    "b64_decode p = Some payload" "tk_unmarshal tk payload = Some c" "jw_Exp c \<noteq> 0" "now \<le> jw_Exp c" unfolding split_three by blast
  then show ?l by (simp add: ValidateJWT_def signature_error_def)
qed

section \<open>Session cookies\<close>

definition computeMAC :: "token_codec \<Rightarrow> string \<Rightarrow> string \<Rightarrow> int \<Rightarrow> string" where
  "computeMAC tk secret userID expiry = b64_encode (tk_hmac tk secret (userID @ ''|'' @ itoa expiry))"

definition sign :: "token_codec \<Rightarrow> string \<Rightarrow> string \<Rightarrow> int \<Rightarrow> string" where
  "sign tk secret userID expiry = userID @ ''|'' @ itoa expiry @ ''|'' @ computeMAC tk secret userID expiry"

definition SessionTTL :: int where "SessionTTL = 24 * 60 * 60"

definition Issue :: "token_codec \<Rightarrow> string \<Rightarrow> string \<Rightarrow> int \<Rightarrow> string" where
  "Issue tk secret userID now = sign tk secret userID (now + SessionTTL)"

text \<open>\<open>strconv.ParseInt\<close> in base ten and 64 bits: an optional sign and decimal digits.\<close>

definition ParseInt64 :: "string \<Rightarrow> int option" where
  "ParseInt64 s =
     (let (neg, ds) = (case s of c # r \<Rightarrow> (if c = CHR ''-'' then (True, r) else if c = CHR ''+'' then (False, r) else (False, s))
                                | [] \<Rightarrow> (False, [])) in
      if ds = [] \<or> list_ex (\<lambda>c. \<not> is_digit c) ds then None
      else let n = (if neg then - int (digits_value ds) else int (digits_value ds)) in
        if - (2 ^ 63) \<le> n \<and> n < 2 ^ 63 then Some n else None)"

text \<open>The cookie, if the request has one; \<^const>\<open>None\<close> is \<open>ErrInvalidSession\<close>.\<close>

definition UserID :: "token_codec \<Rightarrow> string \<Rightarrow> int \<Rightarrow> string option \<Rightarrow> string option" where
  "UserID tk secret now cookie =
     (case cookie of
        None \<Rightarrow> None
      | Some v \<Rightarrow>
          (case split_at_char (CHR ''|'') v of
             [uid, expStr, mac] \<Rightarrow>
               (case ParseInt64 expStr of
                  None \<Rightarrow> None
                | Some e \<Rightarrow> if e \<le> now then None else if mac \<noteq> computeMAC tk secret uid e then None else Some uid)
           | _ \<Rightarrow> None))"

lemma ParseInt64_itoa: "- (2 ^ 63) \<le> n \<Longrightarrow> n < 2 ^ 63 \<Longrightarrow> ParseInt64 (itoa n) = Some n"
proof -
  have d: "\<not> list_ex (\<lambda>c. \<not> is_digit c) (dec_nat m)" "digits_value (dec_nat m) = m" for m
    using dec_nat_digits [of m] dec_nat_value [of m] by (auto simp: list_ex_iff)
  have h: "\<exists>c r. dec_nat m = c # r \<and> c \<noteq> CHR ''-'' \<and> c \<noteq> CHR ''+''" for m
  proof -
    obtain c r where c: "dec_nat m = c # r" by (cases "dec_nat m") auto
    then have "is_digit c" using dec_nat_digits [of m] by simp
    then show ?thesis using c by (auto simp: is_digit_def)
  qed
  assume n: "- (2 ^ 63) \<le> n" "n < 2 ^ 63"
  show ?thesis
  proof (cases "n < 0")
    case True
    then show ?thesis using n d by (simp add: ParseInt64_def itoa_def Let_def)
  next
    case False
    obtain c r where c: "dec_nat (nat n) = c # r" "c \<noteq> CHR ''-''" "c \<noteq> CHR ''+''" using h by blast
    have "ParseInt64 (itoa n) = (if - (2 ^ 63) \<le> int (digits_value (c # r)) \<and> int (digits_value (c # r)) < 2 ^ 63 then Some (int (digits_value (c # r))) else None)"
      using False c d(1) [of "nat n"] by (simp add: ParseInt64_def itoa_def Let_def)
    then show ?thesis using n False d(2) [of "nat n"] unfolding c(1) by simp
  qed
qed

lemma itoa_no_bar: "CHR ''|'' \<notin> set (itoa n)"
proof -
  have "CHR ''|'' \<notin> set (dec_nat m)" for m using dec_nat_digits [of m] by (auto simp: is_digit_def)
  then show ?thesis by (simp add: itoa_def)
qed

text \<open>
  Session cookies. A cookie is accepted for a user exactly when it is the user, an expiry in the future and the MAC of the two,
  separated by bars; so what \<open>Issue\<close> writes is accepted for its user, as long as the id has no bar, for one day and not longer,
  and a cookie accepted for another user or until another second carries the MAC of another text.
\<close>

theorem session_exact:
  "(UserID tk secret now (Some v) = Some u \<longleftrightarrow>
     (\<exists>t e. v = u @ CHR ''|'' # t @ CHR ''|'' # computeMAC tk secret u e \<and> CHR ''|'' \<notin> set u \<and> CHR ''|'' \<notin> set t \<and>
       ParseInt64 t = Some e \<and> now < e)) \<and>
   (CHR ''|'' \<notin> set u \<and> 0 \<le> issued \<and> issued + SessionTTL < 2 ^ 63 \<longrightarrow>
     UserID tk secret now (Some (Issue tk secret u issued)) = (if now < issued + SessionTTL then Some u else None)) \<and>
   (CHR ''|'' \<notin> set u \<and> CHR ''|'' \<notin> set u' \<and> u @ ''|'' @ itoa e = u' @ ''|'' @ itoa e' \<longrightarrow> u = u' \<and> e = e')"
proof (intro conjI impI)
  have bar: "CHR ''|'' \<notin> set (computeMAC tk secret u e)" for u e using b64_plain unfolding computeMAC_def by blast
  show exact: "UserID tk secret now (Some v) = Some u \<longleftrightarrow>
     (\<exists>t e. v = u @ CHR ''|'' # t @ CHR ''|'' # computeMAC tk secret u e \<and> CHR ''|'' \<notin> set u \<and> CHR ''|'' \<notin> set t \<and>
       ParseInt64 t = Some e \<and> now < e)" (is "?l \<longleftrightarrow> ?r") for v
  proof
    assume ?l
    then obtain x t m where s: "split_at_char (CHR ''|'') v = [x, t, m]" by (auto simp: UserID_def split: list.splits)
    obtain e where "ParseInt64 t = Some e" "now < e" "m = computeMAC tk secret x e" "x = u"
      using \<open>?l\<close> by (auto simp: UserID_def s not_le split: option.splits if_splits)
    then show ?r using s unfolding split_three by blast
  next
    assume ?r
    then obtain t e where "split_at_char (CHR ''|'') v = [u, t, computeMAC tk secret u e]" "ParseInt64 t = Some e" "now < e"
      unfolding split_three using bar by blast
    then show ?l by (simp add: UserID_def)
  qed
  assume a: "CHR ''|'' \<notin> set u \<and> 0 \<le> issued \<and> issued + SessionTTL < 2 ^ 63"
  have "split_at_char (CHR ''|'') (Issue tk secret u issued) = [u, itoa (issued + SessionTTL), computeMAC tk secret u (issued + SessionTTL)]"
    unfolding split_three using a bar itoa_no_bar by (simp add: Issue_def sign_def)
  moreover have "ParseInt64 (itoa (issued + SessionTTL)) = Some (issued + SessionTTL)"
    using a by (intro ParseInt64_itoa) (simp_all add: SessionTTL_def)
  ultimately show "UserID tk secret now (Some (Issue tk secret u issued)) = (if now < issued + SessionTTL then Some u else None)"
    by (simp add: UserID_def)
next
  assume "CHR ''|'' \<notin> set u \<and> CHR ''|'' \<notin> set u' \<and> u @ ''|'' @ itoa e = u' @ ''|'' @ itoa e'"
  then show "u = u'" "e = e'" using append_sep_inj [of "CHR ''|''" u u' "itoa e" "itoa e'"] by auto
qed

text \<open>A codec whose MAC is readable.\<close>

definition demo_codec :: token_codec where
  "demo_codec = \<lparr>tk_hmac = (\<lambda>k m. k @ m), tk_sha256 = rev, tk_marshal = (\<lambda>c. jw_Sub c),
     tk_unmarshal = (\<lambda>s. Some \<lparr>jw_Sub = s, jw_Email = [], jw_Name = [], jw_Provider = [], jw_Scope = [], jw_ClientID = [], jw_Iss = [], jw_Iat = 0, jw_Exp = 100\<rparr>)\<rparr>"

theorem session_exact_witness:
  "UserID demo_codec ''key'' 99 (Some (Issue demo_codec ''key'' ''u1'' 10)) = Some ''u1'' \<and>
   UserID demo_codec ''key'' 86410 (Some (Issue demo_codec ''key'' ''u1'' 10)) = None"
proof -
  have "CHR ''|'' \<notin> set ''u1'' \<and> 0 \<le> (10 :: int) \<and> 10 + SessionTTL < 2 ^ 63" by (simp add: SessionTTL_def)
  then have "UserID demo_codec ''key'' now (Some (Issue demo_codec ''key'' ''u1'' 10)) = (if now < 10 + SessionTTL then Some ''u1'' else None)" for now
    using session_exact [of demo_codec "''key''" now v "''u1''" 10 "''u1''" 0 0 for v] by blast
  then show ?thesis by (simp add: SessionTTL_def)
qed

section \<open>Proof keys\<close>

definition VerifyPKCE :: "token_codec \<Rightarrow> string \<Rightarrow> string \<Rightarrow> bool" where
  "VerifyPKCE tk verifier challenge =
     (if verifier = [] \<or> challenge = [] then False else b64_encode (tk_sha256 tk verifier) = challenge)"

end
