(* ===== verification/OAuth.thy ===== *)
theory OAuth
  imports Tokens Tables
begin

text \<open>
  The OAuth authorization server of \<^verbatim>\<open>internal/auth\<close>: its tables (\<^verbatim>\<open>oauth_types.go\<close>, \<^verbatim>\<open>oauth_store_postgres.go\<close>,
  \<^verbatim>\<open>oauth_state_store_postgres.go\<close>), the endpoints (\<^verbatim>\<open>oauth_server.go\<close>) and the discovery documents
  (\<^verbatim>\<open>oauth_discovery.go\<close>). The bytes of the random generator are arguments (\<^const>\<open>None\<close> when it fails), as is the host
  \<open>url.Parse\<close> reads; a response is a value that carries what the handler writes. A failure of the database other than a
  violated key is not modelled. Times are nanoseconds.
\<close>

section \<open>The tables\<close>

record OAuthClient =
  oc_ClientID :: string
  oc_ClientSecret :: string
  oc_ClientName :: string
  oc_RedirectURIs :: "string list"
  oc_GrantTypes :: "string list"
  oc_ResponseTypes :: "string list"
  oc_TokenEndpointAuthMethod :: string
  oc_CreatedAt :: int

record OAuthSession =
  os_SessionID :: string
  os_ClientID :: string
  os_RedirectURI :: string
  os_State :: string
  os_CodeChallenge :: string
  os_CodeMethod :: string
  os_Scope :: string
  os_CreatedAt :: int

record OAuthCode =
  ac_Code :: string
  ac_ClientID :: string
  ac_UserID :: string
  ac_RedirectURI :: string
  ac_CodeChallenge :: string
  ac_Scope :: string
  ac_ExpiresAt :: int
  ac_Used :: bool

record OAuthRefreshToken =
  rf_Token :: string
  rf_UserID :: string
  rf_ClientID :: string
  rf_Scope :: string
  rf_ExpiresAt :: int

record oauth_db =
  ob_Clients :: "OAuthClient list"
  ob_Sessions :: "OAuthSession list"
  ob_Codes :: "OAuthCode list"
  ob_Refresh :: "OAuthRefreshToken list"
  ob_States :: "(string \<times> int) list"

definition second_ns :: int where "second_ns = 1000000000"

text \<open>An insert fails on a taken key, that of a session also without its client.\<close>

definition SaveClient :: "OAuthClient \<Rightarrow> oauth_db \<Rightarrow> oauth_db" where
  "SaveClient c db = db\<lparr>ob_Clients := upsert_row oc_ClientID (\<lambda>x. c\<lparr>oc_CreatedAt := oc_CreatedAt x\<rparr>) c (ob_Clients db)\<rparr>"

definition GetClient :: "oauth_db \<Rightarrow> string \<Rightarrow> OAuthClient option" where
  "GetClient db i = row_at oc_ClientID i (ob_Clients db)"

definition SaveSession :: "OAuthSession \<Rightarrow> oauth_db \<Rightarrow> oauth_db option" where
  "SaveSession s db =
     (if row_at os_SessionID (os_SessionID s) (ob_Sessions db) \<noteq> None \<or> GetClient db (os_ClientID s) = None then None
      else Some (db\<lparr>ob_Sessions := ob_Sessions db @ [s]\<rparr>))"

definition GetSession :: "oauth_db \<Rightarrow> string \<Rightarrow> OAuthSession option" where
  "GetSession db i = row_at os_SessionID i (ob_Sessions db)"

text \<open>The newest session of a client; among equally old ones the first row.\<close>

definition GetSessionByClientID :: "oauth_db \<Rightarrow> string \<Rightarrow> OAuthSession option" where
  "GetSessionByClientID db clientID =
     (case filter (\<lambda>s. os_ClientID s = clientID) (ob_Sessions db) of
        [] \<Rightarrow> None
      | s # ss \<Rightarrow> Some (foldl (\<lambda>b x. if os_CreatedAt x > os_CreatedAt b then x else b) s ss))"

definition DeleteSession :: "string \<Rightarrow> oauth_db \<Rightarrow> oauth_db" where
  "DeleteSession i db = db\<lparr>ob_Sessions := fst (delete_rows (\<lambda>s. os_SessionID s = i) (ob_Sessions db))\<rparr>"

definition SaveCode :: "OAuthCode \<Rightarrow> oauth_db \<Rightarrow> oauth_db option" where
  "SaveCode c db = (if row_at ac_Code (ac_Code c) (ob_Codes db) \<noteq> None then None else Some (db\<lparr>ob_Codes := ob_Codes db @ [c]\<rparr>))"

definition GetCode :: "oauth_db \<Rightarrow> int \<Rightarrow> string \<Rightarrow> OAuthCode option" where
  "GetCode db now code =
     (case row_at ac_Code code (ob_Codes db) of
        None \<Rightarrow> None
      | Some c \<Rightarrow> if ac_Used c then None else if ac_ExpiresAt c < now then None else Some c)"

definition MarkCodeUsed :: "string \<Rightarrow> oauth_db \<Rightarrow> oauth_db option" where
  "MarkCodeUsed code db =
     (let (rows, n) = update_rows (\<lambda>c. ac_Code c = code \<and> \<not> ac_Used c) (\<lambda>c. c\<lparr>ac_Used := True\<rparr>) (ob_Codes db) in
      if n = 0 then None else Some (db\<lparr>ob_Codes := rows\<rparr>))"

definition SaveRefreshToken :: "OAuthRefreshToken \<Rightarrow> oauth_db \<Rightarrow> oauth_db option" where
  "SaveRefreshToken t db =
     (if row_at rf_Token (rf_Token t) (ob_Refresh db) \<noteq> None then None else Some (db\<lparr>ob_Refresh := ob_Refresh db @ [t]\<rparr>))"

definition GetRefreshToken :: "oauth_db \<Rightarrow> int \<Rightarrow> string \<Rightarrow> OAuthRefreshToken option" where
  "GetRefreshToken db now token =
     (case row_at rf_Token token (ob_Refresh db) of
        None \<Rightarrow> None
      | Some t \<Rightarrow> if rf_ExpiresAt t < now then None else Some t)"

definition DeleteRefreshToken :: "string \<Rightarrow> oauth_db \<Rightarrow> oauth_db" where
  "DeleteRefreshToken token db = db\<lparr>ob_Refresh := fst (delete_rows (\<lambda>t. rf_Token t = token) (ob_Refresh db))\<rparr>"

section \<open>The state registry of a sign-in\<close>

datatype consume_error = EmptyState | UnknownState | ExpiredState

definition state_ttl :: "int \<Rightarrow> int" where
  "state_ttl ttl = (if ttl \<le> 0 then 10 * 60 * second_ns else ttl)"

definition MintState :: "int \<Rightarrow> int \<Rightarrow> string option \<Rightarrow> oauth_db \<Rightarrow> (string \<times> oauth_db) option" where
  "MintState ttl now rng db =
     (case rng of
        None \<Rightarrow> None
      | Some buf \<Rightarrow>
          (let i = b64_encode buf in
           if row_at fst i (ob_States db) \<noteq> None then None
           else Some (i, db\<lparr>ob_States := ob_States db @ [(i, now + state_ttl ttl)]\<rparr>)))"

definition ConsumeState :: "int \<Rightarrow> string \<Rightarrow> oauth_db \<Rightarrow> consume_error option \<times> oauth_db" where
  "ConsumeState now i db =
     (if i = [] then (Some EmptyState, db)
      else case row_at fst i (ob_States db) of
        None \<Rightarrow> (Some UnknownState, db)
      | Some (_, expiresAt) \<Rightarrow>
          (if now > expiresAt then Some ExpiredState else None,
           db\<lparr>ob_States := fst (delete_rows (\<lambda>s. fst s = i) (ob_States db))\<rparr>))"

section \<open>Random identifiers\<close>

definition hex_digit :: "nat \<Rightarrow> char" where
  "hex_digit n = char_of (if n < 10 then n + 48 else n + 87)"

definition hex :: "string \<Rightarrow> string" where
  "hex b = concat (map (\<lambda>c. [hex_digit (of_char c div 16), hex_digit (of_char c mod 16)]) b)"

lemma hex_digits:
  "hex_digit 0 = CHR ''0''"
  "hex_digit (Suc 0) = CHR ''1''"
  "hex_digit 2 = CHR ''2''"
  "hex_digit 3 = CHR ''3''"
  "hex_digit 4 = CHR ''4''"
  "hex_digit 5 = CHR ''5''"
  "hex_digit 6 = CHR ''6''"
  "hex_digit 7 = CHR ''7''"
  "hex_digit 8 = CHR ''8''"
  "hex_digit 9 = CHR ''9''"
  "hex_digit 10 = CHR ''a''"
  "hex_digit 11 = CHR ''b''"
  "hex_digit 12 = CHR ''c''"
  "hex_digit 13 = CHR ''d''"
  "hex_digit 14 = CHR ''e''"
  "hex_digit 15 = CHR ''f''"
  by code_simp+

definition generateRandomHex :: "string option \<Rightarrow> string option" where
  "generateRandomHex rng = map_option hex rng"

definition uuid_bits :: "string \<Rightarrow> string" where
  "uuid_bits b = (let b1 = b[6 := char_of (64 + of_char (b ! 6) mod (16 :: nat))] in
     b1[8 := char_of (128 + of_char (b1 ! 8) mod (64 :: nat))])"

definition generateUUID :: "string option \<Rightarrow> string option" where
  "generateUUID rng = map_option (\<lambda>b0. let b = uuid_bits b0 in
     Join [hex (take 4 b), hex (take 2 (drop 4 b)), hex (take 2 (drop 6 b)), hex (take 2 (drop 8 b)), hex (take 6 (drop 10 b))] ''-'') rng"

section \<open>Configuration and responses\<close>

record oauth_config =
  cf_JWTSecret :: string
  cf_Issuer :: string
  cf_AccessTokenTTL :: int
  cf_RefreshTokenTTL :: int
  cf_CodeTTL :: int
  cf_HasStore :: bool
  cf_DevMode :: bool
  cf_UserByID :: "(string \<Rightarrow> (string \<times> string) option) option"
  cf_Codec :: token_codec
  cf_Host :: "string \<Rightarrow> string option"

definition TrimRightChar :: "char \<Rightarrow> string \<Rightarrow> string" where
  "TrimRightChar c s = rev (dropWhile (\<lambda>d. d = c) (rev s))"

text \<open>\<^const>\<open>None\<close> is the panic of a server without secret or store.\<close>

definition NewOAuthServer :: "oauth_config \<Rightarrow> oauth_config option" where
  "NewOAuthServer cf =
     (if cf_JWTSecret cf = [] \<or> \<not> cf_HasStore cf then None
      else Some (cf\<lparr>cf_AccessTokenTTL := (if cf_AccessTokenTTL cf \<le> 0 then 3600 * second_ns else cf_AccessTokenTTL cf),
        cf_RefreshTokenTTL := (if cf_RefreshTokenTTL cf \<le> 0 then 7 * 24 * 3600 * second_ns else cf_RefreshTokenTTL cf),
        cf_CodeTTL := (if cf_CodeTTL cf \<le> 0 then 600 * second_ns else cf_CodeTTL cf),
        cf_Issuer := TrimRightChar (CHR ''/'') (TrimSpace (cf_Issuer cf))\<rparr>))"

datatype response =
    MethodNotAllowed
  | OAuthError int string string
  | PlainError int string
  | ClientCreated OAuthClient
  | ErrorRedirect string string string string
  | CodeRedirect string string string
  | LoginRedirect string bool
  | TokensIssued string string string int

record http_base =
  hb_TLS :: bool
  hb_ForwardedProto :: string
  hb_HostName :: string

definition SchemeAndHost :: "http_base \<Rightarrow> string" where
  "SchemeAndHost r = (if hb_TLS r \<or> EqualFold (hb_ForwardedProto r) ''https'' then ''https'' else ''http'') @ ''://'' @ hb_HostName r"

definition DefaultOAuthScope :: string where "DefaultOAuthScope = ''satellites''"

definition issuerForRequest :: "oauth_config \<Rightarrow> http_base \<Rightarrow> string" where
  "issuerForRequest cf r = (if cf_Issuer cf \<noteq> [] then cf_Issuer cf else SchemeAndHost r)"

definition authorization_server_metadata :: "http_base \<Rightarrow> (string \<times> string list) list" where
  "authorization_server_metadata r = (let base = SchemeAndHost r in
     [(''issuer'', [base]), (''authorization_endpoint'', [base @ ''/oauth/authorize'']), (''token_endpoint'', [base @ ''/oauth/token'']),
      (''registration_endpoint'', [base @ ''/oauth/register'']), (''response_types_supported'', [''code'']),
      (''grant_types_supported'', [''authorization_code'', ''refresh_token'']), (''code_challenge_methods_supported'', [''S256'']),
      (''token_endpoint_auth_methods_supported'', [''none'']), (''scopes_supported'', [DefaultOAuthScope])])"

definition protected_resource_metadata :: "http_base \<Rightarrow> (string \<times> string list) list" where
  "protected_resource_metadata r = (let base = SchemeAndHost r in
     [(''resource'', [base @ ''/mcp'']), (''authorization_servers'', [base]), (''scopes_supported'', [DefaultOAuthScope]),
      (''bearer_methods_supported'', [''header'']), (''resource_documentation_uri'', [base @ ''/mcp''])])"

section \<open>Registration\<close>

record dcrRequest =
  dr_ClientName :: string
  dr_RedirectURIs :: "string list"
  dr_GrantTypes :: "string list"
  dr_ResponseTypes :: "string list"
  dr_TokenEndpointAuthMethod :: string

definition default_list :: "string list \<Rightarrow> string list \<Rightarrow> string list" where
  "default_list d xs = (if xs = [] then d else xs)"

definition HandleRegister :: "bool \<Rightarrow> dcrRequest option \<Rightarrow> int \<Rightarrow> string option \<Rightarrow> string option \<Rightarrow> oauth_db \<Rightarrow> response \<times> oauth_db" where
  "HandleRegister isPost body now rng1 rng2 db =
     (if \<not> isPost then (MethodNotAllowed, db)
      else case body of
        None \<Rightarrow> (OAuthError 400 ''invalid_request'' ''invalid JSON body'', db)
      | Some req \<Rightarrow>
          if dr_RedirectURIs req = [] then (OAuthError 400 ''invalid_request'' ''redirect_uris is required'', db)
          else case generateUUID rng1 of
            None \<Rightarrow> (OAuthError 500 ''server_error'' ''failed to generate client_id'', db)
          | Some clientID \<Rightarrow>
              (case generateRandomHex rng2 of
                 None \<Rightarrow> (OAuthError 500 ''server_error'' ''failed to generate client_secret'', db)
               | Some clientSecret \<Rightarrow>
                   (let client = \<lparr>oc_ClientID = clientID, oc_ClientSecret = clientSecret, oc_ClientName = dr_ClientName req,
                          oc_RedirectURIs = dr_RedirectURIs req,
                          oc_GrantTypes = default_list [''authorization_code'', ''refresh_token''] (dr_GrantTypes req),
                          oc_ResponseTypes = default_list [''code''] (dr_ResponseTypes req),
                          oc_TokenEndpointAuthMethod = (if dr_TokenEndpointAuthMethod req = [] then ''none'' else dr_TokenEndpointAuthMethod req),
                          oc_CreatedAt = now div second_ns\<rparr>
                    in (ClientCreated client, SaveClient client db))))"

section \<open>Authorization\<close>

record authorize_query =
  aq_ClientID :: string
  aq_RedirectURI :: string
  aq_ResponseType :: string
  aq_CodeChallenge :: string
  aq_CodeChallengeMethod :: string
  aq_State :: string
  aq_Scope :: string

definition auto_client :: "string \<Rightarrow> string \<Rightarrow> int \<Rightarrow> OAuthClient" where
  "auto_client clientID redirectURI now = \<lparr>oc_ClientID = clientID, oc_ClientSecret = [], oc_ClientName = ''auto-registered'',
     oc_RedirectURIs = [redirectURI], oc_GrantTypes = [''authorization_code'', ''refresh_token''], oc_ResponseTypes = [''code''],
     oc_TokenEndpointAuthMethod = ''none'', oc_CreatedAt = now div second_ns\<rparr>"

definition createAuthSession :: "authorize_query \<Rightarrow> int \<Rightarrow> string option \<Rightarrow> oauth_db \<Rightarrow> (string + string) \<times> oauth_db" where
  "createAuthSession q now rng db =
     (let (client, db1) = (case GetClient db (aq_ClientID q) of
            Some c \<Rightarrow> (c, db)
          | None \<Rightarrow> (let c = auto_client (aq_ClientID q) (aq_RedirectURI q) now in (c, SaveClient c db)))
      in if aq_RedirectURI q \<notin> set (oc_RedirectURIs client) then (Inl ''redirect_uri does not match registered URI'', db1)
         else case generateRandomHex rng of
           None \<Rightarrow> (Inl ''generate session id'', db1)
         | Some sessionID \<Rightarrow>
             (case SaveSession \<lparr>os_SessionID = sessionID, os_ClientID = aq_ClientID q, os_RedirectURI = aq_RedirectURI q, os_State = aq_State q,
                  os_CodeChallenge = aq_CodeChallenge q, os_CodeMethod = aq_CodeChallengeMethod q,
                  os_Scope = (if aq_Scope q = [] then DefaultOAuthScope else aq_Scope q), os_CreatedAt = now\<rparr> db1 of
                None \<Rightarrow> (Inl ''save oauth session'', db1)
              | Some db2 \<Rightarrow> (Inr sessionID, db2)))"

text \<open>The redirect carries the code and the state of the session.\<close>

definition CompleteAuthorization :: "oauth_config \<Rightarrow> string \<Rightarrow> string \<Rightarrow> int \<Rightarrow> string option \<Rightarrow> oauth_db \<Rightarrow> response option \<times> oauth_db" where
  "CompleteAuthorization cf sessionID userID now rng db =
     (case GetSession db sessionID of
        None \<Rightarrow> (None, db)
      | Some sess \<Rightarrow>
          (case generateRandomHex rng of
             None \<Rightarrow> (None, db)
           | Some code \<Rightarrow>
               (case SaveCode \<lparr>ac_Code = code, ac_ClientID = os_ClientID sess, ac_UserID = userID, ac_RedirectURI = os_RedirectURI sess,
                    ac_CodeChallenge = os_CodeChallenge sess, ac_Scope = os_Scope sess, ac_ExpiresAt = now + cf_CodeTTL cf, ac_Used = False\<rparr> db of
                  None \<Rightarrow> (None, db)
                | Some db1 \<Rightarrow>
                    (if cf_Host cf (os_RedirectURI sess) = None then None else Some (CodeRedirect (os_RedirectURI sess) code (os_State sess)),
                     DeleteSession sessionID db1))))"

text \<open>\<open>user\<close> is what \<open>ResolveSessionUser\<close> returns, empty without a signed-in user.\<close>

definition setSessionCookieAndRedirect ::
  "oauth_config \<Rightarrow> string \<Rightarrow> string \<Rightarrow> int \<Rightarrow> string option \<Rightarrow> oauth_db \<Rightarrow> response \<times> oauth_db" where
  "setSessionCookieAndRedirect cf user sessionID now rng db =
     (if user \<noteq> [] then
        (case CompleteAuthorization cf sessionID user now rng db of
           (Some r, db1) \<Rightarrow> (r, db1)
         | (None, db1) \<Rightarrow> (LoginRedirect sessionID (\<not> cf_DevMode cf), db1))
      else (LoginRedirect sessionID (\<not> cf_DevMode cf), db))"

definition HandleAuthorize ::
  "oauth_config \<Rightarrow> bool \<Rightarrow> string \<Rightarrow> authorize_query \<Rightarrow> int \<Rightarrow> string option \<Rightarrow> string option \<Rightarrow> oauth_db \<Rightarrow> response \<times> oauth_db" where
  "HandleAuthorize cf isGet user q now rng1 rng2 db =
     (if \<not> isGet then (MethodNotAllowed, db)
      else if aq_RedirectURI q = [] \<and> aq_ClientID q \<noteq> [] then
        (case GetSessionByClientID db (aq_ClientID q) of
           Some sess \<Rightarrow> setSessionCookieAndRedirect cf user (os_SessionID sess) now rng2 db
         | None \<Rightarrow> (PlainError 400 ''missing redirect_uri'', db))
      else case cf_Host cf (aq_RedirectURI q) of
        None \<Rightarrow> (PlainError 400 ''invalid redirect_uri'', db)
      | Some host \<Rightarrow>
          if host = [] then (PlainError 400 ''invalid redirect_uri'', db)
          else if aq_ClientID q = [] \<or> aq_ResponseType q = [] \<or> aq_CodeChallenge q = [] \<or> aq_CodeChallengeMethod q = [] \<or> aq_State q = [] then
            (ErrorRedirect (aq_RedirectURI q) ''invalid_request'' ''missing required parameters'' (aq_State q), db)
          else if aq_ResponseType q \<noteq> ''code'' then
            (ErrorRedirect (aq_RedirectURI q) ''unsupported_response_type'' ''only code is supported'' (aq_State q), db)
          else if aq_CodeChallengeMethod q \<noteq> ''S256'' then
            (ErrorRedirect (aq_RedirectURI q) ''invalid_request'' ''only S256 code_challenge_method is supported'' (aq_State q), db)
          else (case createAuthSession q now rng1 db of
                  (Inl e, db1) \<Rightarrow> (PlainError 400 e, db1)
                | (Inr sessionID, db1) \<Rightarrow> setSessionCookieAndRedirect cf user sessionID now rng2 db1))"

section \<open>The token endpoint\<close>

record token_form =
  tf_GrantType :: string
  tf_Code :: string
  tf_ClientID :: string
  tf_RedirectURI :: string
  tf_CodeVerifier :: string
  tf_RefreshToken :: string

definition mintAccessToken :: "oauth_config \<Rightarrow> string \<Rightarrow> string \<Rightarrow> string \<Rightarrow> string \<Rightarrow> int \<Rightarrow> string" where
  "mintAccessToken cf userID scope clientID issuer now =
     (let (email, name) = (case cf_UserByID cf of None \<Rightarrow> ([], []) | Some f \<Rightarrow> (case f userID of None \<Rightarrow> ([], []) | Some u \<Rightarrow> u)) in
      CreateJWT (cf_Codec cf) \<lparr>jw_Sub = userID, jw_Email = email, jw_Name = name, jw_Provider = [], jw_Scope = scope, jw_ClientID = clientID,
        jw_Iss = issuer, jw_Iat = now div second_ns, jw_Exp = (now + cf_AccessTokenTTL cf) div second_ns\<rparr> (cf_JWTSecret cf))"

text \<open>The tokens of a user: the access token is minted, a refresh token is saved; its error is ignored.\<close>

definition issue_tokens :: "oauth_config \<Rightarrow> http_base \<Rightarrow> string \<Rightarrow> string \<Rightarrow> string \<Rightarrow> int \<Rightarrow> string option \<Rightarrow> oauth_db \<Rightarrow> response \<times> oauth_db" where
  "issue_tokens cf base userID clientID scope now rng db =
     (case generateUUID rng of
        None \<Rightarrow> (OAuthError 500 ''server_error'' ''failed to generate refresh token'', db)
      | Some refresh \<Rightarrow>
          (TokensIssued (mintAccessToken cf userID scope clientID (issuerForRequest cf base) now) refresh scope (cf_AccessTokenTTL cf div second_ns),
           case SaveRefreshToken \<lparr>rf_Token = refresh, rf_UserID = userID, rf_ClientID = clientID, rf_Scope = scope,
               rf_ExpiresAt = now + cf_RefreshTokenTTL cf\<rparr> db of None \<Rightarrow> db | Some db1 \<Rightarrow> db1))"

text \<open>A grant reads and checks first, then writes: other requests may run in between.\<close>

definition code_checked :: "oauth_config \<Rightarrow> oauth_db \<Rightarrow> int \<Rightarrow> token_form \<Rightarrow> response + OAuthCode" where
  "code_checked cf db now f =
     (if tf_Code f = [] \<or> tf_ClientID f = [] \<or> tf_RedirectURI f = [] \<or> tf_CodeVerifier f = [] then
        Inl (OAuthError 400 ''invalid_request'' ''missing required parameters'')
      else case GetCode db now (tf_Code f) of
        None \<Rightarrow> Inl (OAuthError 400 ''invalid_grant'' ''authorization code not found, expired, or already used'')
      | Some c \<Rightarrow>
          if ac_ClientID c \<noteq> tf_ClientID f then Inl (OAuthError 400 ''invalid_grant'' ''client_id mismatch'')
          else if ac_RedirectURI c \<noteq> tf_RedirectURI f then Inl (OAuthError 400 ''invalid_grant'' ''redirect_uri mismatch'')
          else if \<not> VerifyPKCE (cf_Codec cf) (tf_CodeVerifier f) (ac_CodeChallenge c) then
            Inl (OAuthError 400 ''invalid_grant'' ''PKCE verification failed'')
          else Inr c)"

definition code_granted :: "oauth_config \<Rightarrow> http_base \<Rightarrow> OAuthCode \<Rightarrow> int \<Rightarrow> string option \<Rightarrow> oauth_db \<Rightarrow> response \<times> oauth_db" where
  "code_granted cf base c now rng db =
     (case MarkCodeUsed (ac_Code c) db of
        None \<Rightarrow> (OAuthError 500 ''server_error'' ''failed to consume authorization code'', db)
      | Some db1 \<Rightarrow> issue_tokens cf base (ac_UserID c) (ac_ClientID c) (ac_Scope c) now rng db1)"

definition handleAuthCodeGrant :: "oauth_config \<Rightarrow> http_base \<Rightarrow> token_form \<Rightarrow> int \<Rightarrow> string option \<Rightarrow> oauth_db \<Rightarrow> response \<times> oauth_db" where
  "handleAuthCodeGrant cf base f now rng db =
     (case code_checked cf db now f of Inl e \<Rightarrow> (e, db) | Inr c \<Rightarrow> code_granted cf base c now rng db)"

definition refresh_checked :: "oauth_db \<Rightarrow> int \<Rightarrow> token_form \<Rightarrow> response + OAuthRefreshToken" where
  "refresh_checked db now f =
     (if tf_RefreshToken f = [] \<or> tf_ClientID f = [] then Inl (OAuthError 400 ''invalid_request'' ''missing required parameters'')
      else case GetRefreshToken db now (tf_RefreshToken f) of
        None \<Rightarrow> Inl (OAuthError 400 ''invalid_grant'' ''refresh token not found or expired'')
      | Some t \<Rightarrow>
          if rf_ClientID t \<noteq> tf_ClientID f then Inl (OAuthError 400 ''invalid_grant'' ''client_id mismatch'') else Inr t)"

definition refresh_granted :: "oauth_config \<Rightarrow> http_base \<Rightarrow> OAuthRefreshToken \<Rightarrow> int \<Rightarrow> string option \<Rightarrow> oauth_db \<Rightarrow> response \<times> oauth_db" where
  "refresh_granted cf base t now rng db =
     issue_tokens cf base (rf_UserID t) (rf_ClientID t) (rf_Scope t) now rng (DeleteRefreshToken (rf_Token t) db)"

definition handleRefreshTokenGrant :: "oauth_config \<Rightarrow> http_base \<Rightarrow> token_form \<Rightarrow> int \<Rightarrow> string option \<Rightarrow> oauth_db \<Rightarrow> response \<times> oauth_db" where
  "handleRefreshTokenGrant cf base f now rng db =
     (case refresh_checked db now f of Inl e \<Rightarrow> (e, db) | Inr t \<Rightarrow> refresh_granted cf base t now rng db)"

text \<open>\<open>form\<close> is \<^const>\<open>None\<close> when it does not parse.\<close>

definition HandleToken :: "oauth_config \<Rightarrow> bool \<Rightarrow> http_base \<Rightarrow> token_form option \<Rightarrow> int \<Rightarrow> string option \<Rightarrow> oauth_db \<Rightarrow> response \<times> oauth_db" where
  "HandleToken cf isPost base form now rng db =
     (if \<not> isPost then (MethodNotAllowed, db)
      else case form of
        None \<Rightarrow> (OAuthError 400 ''invalid_request'' ''invalid form body'', db)
      | Some f \<Rightarrow>
          if tf_GrantType f = ''authorization_code'' then handleAuthCodeGrant cf base f now rng db
          else if tf_GrantType f = ''refresh_token'' then handleRefreshTokenGrant cf base f now rng db
          else (OAuthError 400 ''unsupported_grant_type'' ''grant_type must be authorization_code or refresh_token'', db))"

end
