(* ===== verification/Accounts.thy ===== *)
theory Accounts
  imports OAuth Authz
begin

text \<open>
  Accounts and API keys: the tables \<open>users\<close> and \<open>api_keys\<close> with their unique indexes (\<^verbatim>\<open>internal/auth/store.go\<close>, \<^verbatim>\<open>password.go\<close>),
  the middleware that turns a credential into the caller (\<^verbatim>\<open>middleware.go\<close>) and the key verbs (\<^verbatim>\<open>internal/verb/apikey.go\<close>).
  SHA-256 and bcrypt are parameters, random bytes and the clock arguments; times are nanoseconds. A read returns the row;
  the columns that \<open>User\<close> leaves out are not told apart. A failure of the database other than a violated constraint is
  not modelled.
\<close>

section \<open>The tables\<close>

record Account =
  am_ID :: string
  am_Email :: string
  am_DisplayName :: string
  am_Role :: string
  am_Identity :: "(string \<times> string) option"
  am_PasswordHash :: string
  am_CreatedAt :: int
  am_LastSeenAt :: "int option"

record APIKey =
  ak_ID :: string
  ak_UserID :: string
  ak_ProjectID :: string
  ak_AgentName :: string
  ak_Role :: string
  ak_KeyHash :: string
  ak_CreatedAt :: int
  ak_ExpiresAt :: "int option"
  ak_RevokedAt :: "int option"

record accounts =
  au_Users :: "Account list"
  au_Keys :: "APIKey list"

datatype auth_error = EmailRequired | UserInsert | NeedsProviderSub | NeedsEmail | OAuthUpdate | AlreadyLinked string | OAuthInsert
  | KeyInsert | KeyRandom | KeyNotYours string | KeyNotFound string | EmptyPassword | BcryptFailed | InvalidPassword

definition RoleUser :: string where [go_defs]: "RoleUser = ''user''"
definition APIKeyRoleExecutor :: string where [go_defs]: "APIKeyRoleExecutor = ''executor''"
definition APIKeyRoleRunner :: string where [go_defs]: "APIKeyRoleRunner = ''runner''"

definition canonical_email :: "string \<Rightarrow> string" where
  "canonical_email e = ToLower (TrimSpace e)"

section \<open>Users\<close>

definition GetUserByID :: "accounts \<Rightarrow> string \<Rightarrow> Account option" where
  "GetUserByID db i = row_at am_ID i (au_Users db)"

definition GetUserByEmail :: "accounts \<Rightarrow> string \<Rightarrow> Account option" where
  "GetUserByEmail db e = row_at am_Email (canonical_email e) (au_Users db)"

text \<open>An existing email wins over a taken id: the insert then does nothing.\<close>

definition CreateUser :: "string \<Rightarrow> string \<Rightarrow> string \<Rightarrow> string \<Rightarrow> int \<Rightarrow> accounts \<Rightarrow> auth_error + Account \<times> accounts" where
  "CreateUser i email0 name role0 now db =
     (let email = canonical_email email0; role = (if role0 = [] then RoleUser else role0) in
      if email = [] then Inl EmailRequired
      else case row_at am_Email email (au_Users db) of
        Some u \<Rightarrow> Inr (u, db)
      | None \<Rightarrow>
          (if GetUserByID db i \<noteq> None then Inl UserInsert
           else let u = \<lparr>am_ID = i, am_Email = email, am_DisplayName = name, am_Role = role, am_Identity = None,
                  am_PasswordHash = [], am_CreatedAt = now, am_LastSeenAt = None\<rparr>
             in Inr (u, db\<lparr>au_Users := au_Users db @ [u]\<rparr>)))"

definition wants_admin :: "string \<Rightarrow> string list \<Rightarrow> bool" where
  "wants_admin email adminEmails = list_ex (\<lambda>a. canonical_email a = canonical_email email) adminEmails"

definition by_identity :: "string \<Rightarrow> string \<Rightarrow> accounts \<Rightarrow> Account option" where
  "by_identity provider sub db = find (\<lambda>u. am_Identity u = Some (provider, sub)) (au_Users db)"

definition promoted :: "bool \<Rightarrow> string \<Rightarrow> Account \<Rightarrow> Account" where
  "promoted wantAdmin name u = u\<lparr>am_DisplayName := (if name = [] then am_DisplayName u else name),
     am_Role := (if wantAdmin then UserRoleAdmin else am_Role u)\<rparr>"

definition set_user :: "Account \<Rightarrow> accounts \<Rightarrow> accounts" where
  "set_user u db = db\<lparr>au_Users := map (\<lambda>x. if am_ID x = am_ID u then u else x) (au_Users db)\<rparr>"

text \<open>The update of an identity fails when another row has the new email.\<close>

definition UpsertOAuthUser ::
  "string \<Rightarrow> string \<Rightarrow> string \<Rightarrow> string \<Rightarrow> string list \<Rightarrow> int \<Rightarrow> accounts \<Rightarrow> auth_error + Account \<times> accounts" where
  "UpsertOAuthUser provider sub email0 name adminEmails now db =
     (if provider = [] \<or> sub = [] then Inl NeedsProviderSub
      else if email0 = [] then Inl NeedsEmail
      else let wantAdmin = wants_admin email0 adminEmails; email = canonical_email email0 in
      case by_identity provider sub db of
        Some u \<Rightarrow>
          (if list_ex (\<lambda>x. am_Email x = email \<and> am_ID x \<noteq> am_ID u) (au_Users db) then Inl OAuthUpdate
           else let u' = promoted wantAdmin name (u\<lparr>am_Email := email\<rparr>) in Inr (u', set_user u' db))
      | None \<Rightarrow>
          (case row_at am_Email email (au_Users db) of
             Some u \<Rightarrow>
               (if am_Identity u = None then
                  (let u' = promoted wantAdmin name (u\<lparr>am_Identity := Some (provider, sub)\<rparr>) in Inr (u', set_user u' db))
                else Inl (AlreadyLinked email))
           | None \<Rightarrow>
               (let i = ''usr_oauth_'' @ provider @ ''_'' @ sub in
                if GetUserByID db i \<noteq> None then Inl OAuthInsert
                else let u = \<lparr>am_ID = i, am_Email = email, am_DisplayName = name, am_Role = (if wantAdmin then UserRoleAdmin else RoleUser),
                       am_Identity = Some (provider, sub), am_PasswordHash = [], am_CreatedAt = now, am_LastSeenAt = None\<rparr>
                  in Inr (u, db\<lparr>au_Users := au_Users db @ [u]\<rparr>))))"

definition ParseAdminEmails :: "string \<Rightarrow> string list" where
  "ParseAdminEmails raw = (if raw = [] then [] else filter (\<lambda>p. p \<noteq> []) (map canonical_email (split_comma [] raw)))"

definition TouchLastSeen :: "string \<Rightarrow> int \<Rightarrow> accounts \<Rightarrow> accounts" where
  "TouchLastSeen userID now db =
     (if userID = [] then db
      else db\<lparr>au_Users := fst (update_rows
        (\<lambda>u. am_ID u = userID \<and> (case am_LastSeenAt u of None \<Rightarrow> True | Some t \<Rightarrow> t < now - 60 * second_ns))
        (\<lambda>u. u\<lparr>am_LastSeenAt := Some now\<rparr>) (au_Users db))\<rparr>)"

definition split_at_sign :: "string \<Rightarrow> string" where
  "split_at_sign e = takeWhile (\<lambda>c. c \<noteq> CHR ''@'') e"

definition DisplayName :: "Account option \<Rightarrow> string \<Rightarrow> string" where
  "DisplayName u userID =
     (case u of
        None \<Rightarrow> userID
      | Some a \<Rightarrow>
          (if TrimSpace (am_DisplayName a) \<noteq> [] then TrimSpace (am_DisplayName a)
           else let email = TrimSpace (am_Email a); local = split_at_sign email in
             if email \<noteq> [] \<and> local \<noteq> [] then local else userID))"

section \<open>Passwords\<close>

text \<open>\<open>bcrypt\<close> hashes or fails, \<open>matches\<close> compares a hash with a password.\<close>

definition SetPassword :: "(string \<Rightarrow> string option) \<Rightarrow> string \<Rightarrow> string \<Rightarrow> accounts \<Rightarrow> auth_error + accounts" where
  "SetPassword bcrypt userID raw db =
     (if raw = [] then Inl EmptyPassword
      else case bcrypt raw of
        None \<Rightarrow> Inl BcryptFailed
      | Some h \<Rightarrow> Inr (db\<lparr>au_Users := fst (update_rows (\<lambda>u. am_ID u = userID) (\<lambda>u. u\<lparr>am_PasswordHash := h\<rparr>) (au_Users db))\<rparr>))"

definition VerifyPassword :: "(string \<Rightarrow> string \<Rightarrow> bool) \<Rightarrow> accounts \<Rightarrow> string \<Rightarrow> string \<Rightarrow> auth_error + Account" where
  "VerifyPassword matches db email raw =
     (case row_at am_Email email (au_Users db) of
        None \<Rightarrow> Inl InvalidPassword
      | Some u \<Rightarrow>
          (if am_PasswordHash u = [] then Inl InvalidPassword
           else if \<not> matches (am_PasswordHash u) raw then Inl InvalidPassword else Inr u))"

section \<open>API keys\<close>

definition HashKey :: "(string \<Rightarrow> string) \<Rightarrow> string \<Rightarrow> string" where
  "HashKey sha raw = hex (sha raw)"

definition generateRawKey :: "string option \<Rightarrow> string option" where
  "generateRawKey rng = map_option (\<lambda>b. ''sk_'' @ hex b) rng"

definition ListAPIKeysForUser :: "accounts \<Rightarrow> string \<Rightarrow> APIKey list" where
  "ListAPIKeysForUser db userID =
     sort_key (\<lambda>k. - ak_CreatedAt k) (filter (\<lambda>k. ak_UserID k = userID \<and> ak_RevokedAt k = None) (au_Keys db))"

definition RevokeKeyForUser :: "string \<Rightarrow> string \<Rightarrow> int \<Rightarrow> accounts \<Rightarrow> auth_error + accounts" where
  "RevokeKeyForUser userID i now db =
     (let (rows, n) = update_rows (\<lambda>k. ak_ID k = i \<and> ak_UserID k = userID \<and> ak_RevokedAt k = None)
            (\<lambda>k. k\<lparr>ak_RevokedAt := Some now\<rparr>) (au_Keys db) in
      if n = 0 then Inl (KeyNotYours i) else Inr (db\<lparr>au_Keys := rows\<rparr>))"

definition RevokeKey :: "string \<Rightarrow> int \<Rightarrow> accounts \<Rightarrow> auth_error + accounts" where
  "RevokeKey i now db =
     (let (rows, n) = update_rows (\<lambda>k. ak_ID k = i \<and> ak_RevokedAt k = None) (\<lambda>k. k\<lparr>ak_RevokedAt := Some now\<rparr>) (au_Keys db) in
      if n = 0 then Inl (KeyNotFound i) else Inr (db\<lparr>au_Keys := rows\<rparr>))"

definition in_slot :: "string \<Rightarrow> string \<Rightarrow> string \<Rightarrow> APIKey \<Rightarrow> bool" where
  "in_slot userID projectID agent k \<longleftrightarrow> ak_UserID k = userID \<and> ak_ProjectID k = projectID \<and> ak_AgentName k = agent"

text \<open>
  The insert asks for the user and the known roles. With a project the row of the slot is overwritten, and the statement fails when the id or
  the hash is that of another row; without one it does nothing on a known hash and fails on a taken id.
\<close>

definition insert_key :: "APIKey \<Rightarrow> accounts \<Rightarrow> accounts option" where
  "insert_key k db =
     (if ak_Role k \<notin> {''executor'', ''reviewer'', ''runner''} then None
      else if ak_ProjectID k = [] \<and> row_at ak_KeyHash (ak_KeyHash k) (au_Keys db) \<noteq> None then Some db
      else if GetUserByID db (ak_UserID k) = None then None
      else if ak_ProjectID k \<noteq> [] then
        (let mine = in_slot (ak_UserID k) (ak_ProjectID k) (ak_AgentName k) in
         if list_ex (\<lambda>x. \<not> mine x \<and> (ak_ID x = ak_ID k \<or> ak_KeyHash x = ak_KeyHash k)) (au_Keys db) then None
         else Some (db\<lparr>au_Keys := (if list_ex mine (au_Keys db) then map (\<lambda>x. if mine x then k else x) (au_Keys db) else au_Keys db @ [k])\<rparr>))
      else if row_at ak_ID (ak_ID k) (au_Keys db) \<noteq> None then None
      else Some (db\<lparr>au_Keys := au_Keys db @ [k]\<rparr>))"

definition issueWithRaw ::
  "(string \<Rightarrow> string) \<Rightarrow> string \<Rightarrow> string \<Rightarrow> string \<Rightarrow> string \<Rightarrow> string \<Rightarrow> string \<Rightarrow> int option \<Rightarrow> int \<Rightarrow> accounts \<Rightarrow>
   auth_error + (string \<times> APIKey) \<times> accounts" where
  "issueWithRaw sha i userID projectID agent raw role expiresAt now db =
     (let h = HashKey sha raw in
      case insert_key \<lparr>ak_ID = i, ak_UserID = userID, ak_ProjectID = projectID, ak_AgentName = agent, ak_Role = role, ak_KeyHash = h,
             ak_CreatedAt = now, ak_ExpiresAt = expiresAt, ak_RevokedAt = None\<rparr> db of
        None \<Rightarrow> Inl KeyInsert
      | Some db1 \<Rightarrow>
          (case row_at ak_KeyHash h (au_Keys db1) of
             None \<Rightarrow> Inl KeyInsert
           | Some k \<Rightarrow> Inr ((raw, k), db1)))"

definition IssueAPIKey ::
  "(string \<Rightarrow> string) \<Rightarrow> string \<Rightarrow> string \<Rightarrow> string \<Rightarrow> string \<Rightarrow> string option \<Rightarrow> int \<Rightarrow> accounts \<Rightarrow>
   auth_error + (string \<times> APIKey) \<times> accounts" where
  "IssueAPIKey sha i userID projectID agent rng now db =
     (case generateRawKey rng of
        None \<Rightarrow> Inl KeyRandom
      | Some raw \<Rightarrow> issueWithRaw sha i userID projectID agent raw APIKeyRoleExecutor None now db)"

definition IssueAPIKeyWithRaw ::
  "(string \<Rightarrow> string) \<Rightarrow> string \<Rightarrow> string \<Rightarrow> string \<Rightarrow> string \<Rightarrow> string \<Rightarrow> int \<Rightarrow> accounts \<Rightarrow> auth_error + (string \<times> APIKey) \<times> accounts" where
  "IssueAPIKeyWithRaw sha i userID projectID agent raw now db = issueWithRaw sha i userID projectID agent raw APIKeyRoleExecutor None now db"

definition live_key :: "int \<Rightarrow> APIKey \<Rightarrow> bool" where
  "live_key now k \<longleftrightarrow> ak_RevokedAt k = None \<and> (case ak_ExpiresAt k of None \<Rightarrow> True | Some t \<Rightarrow> t > now)"

definition ValidateKeyWithRole :: "(string \<Rightarrow> string) \<Rightarrow> int \<Rightarrow> string \<Rightarrow> accounts \<Rightarrow> (Account \<times> string \<times> string) option" where
  "ValidateKeyWithRole sha now raw db =
     (case row_at ak_KeyHash (HashKey sha raw) (au_Keys db) of
        None \<Rightarrow> None
      | Some k \<Rightarrow>
          (if \<not> live_key now k then None
           else map_option (\<lambda>u. (u, ak_Role k, ak_ProjectID k)) (GetUserByID db (ak_UserID k))))"

definition ValidateKey :: "(string \<Rightarrow> string) \<Rightarrow> int \<Rightarrow> string \<Rightarrow> accounts \<Rightarrow> Account option" where
  "ValidateKey sha now raw db = map_option fst (ValidateKeyWithRole sha now raw db)"

section \<open>The middleware\<close>

record http_request =
  hq_Path :: string
  hq_Authorization :: string
  hq_AgentRole :: string
  hq_AgentProjects :: string

datatype admission = Skipped | Unauthorized string | Admitted Ctx

definition plain_ctx :: "string \<Rightarrow> string \<Rightarrow> Ctx" where
  "plain_ctx userID role = \<lparr>cx_User = Some \<lparr>us_ID = userID, us_Role = role\<rparr>, cx_APIKeyProject = [], cx_APIKeyRole = [], cx_AgentRole = None\<rparr>"

text \<open>A subject without an account passes with the identity of its claims.\<close>

definition jwt_user :: "accounts \<Rightarrow> JWTClaims \<Rightarrow> User" where
  "jwt_user db claims = (case GetUserByID db (jw_Sub claims) of
     Some u \<Rightarrow> \<lparr>us_ID = am_ID u, us_Role = am_Role u\<rparr> | None \<Rightarrow> \<lparr>us_ID = jw_Sub claims, us_Role = []\<rparr>)"

definition credential :: "token_codec \<Rightarrow> string \<Rightarrow> int \<Rightarrow> string \<Rightarrow> accounts \<Rightarrow> Ctx option" where
  "credential tk secret now token db =
     (if secret \<noteq> [] \<and> LooksLikeJWT token then
        (case ValidateJWT tk (now div second_ns) token secret of
           Inl e \<Rightarrow> None
         | Inr claims \<Rightarrow> (let u = jwt_user db claims in Some (plain_ctx (us_ID u) (us_Role u))))
      else
        (case ValidateKeyWithRole (tk_sha256 tk) now token db of
           None \<Rightarrow> None
         | Some (u, role, projectID) \<Rightarrow>
             Some ((plain_ctx (am_ID u) (am_Role u))\<lparr>cx_APIKeyRole := role, cx_APIKeyProject := projectID\<rparr>)))"

text \<open>The write of the last access runs behind the request.\<close>

definition Middleware :: "token_codec \<Rightarrow> string \<Rightarrow> int \<Rightarrow> http_request \<Rightarrow> accounts \<Rightarrow> admission \<times> accounts" where
  "Middleware tk secret now req db =
     (if HasPrefix (hq_Path req) ''/oauth/'' then (Skipped, db)
      else if \<not> HasPrefix (hq_Authorization req) ''Bearer '' then (Unauthorized ''missing bearer credential'', db)
      else case credential tk secret now (drop 7 (hq_Authorization req)) db of
        None \<Rightarrow> (Unauthorized ''invalid credential'', db)
      | Some ctx \<Rightarrow>
          (Admitted (agentRoleFromHeader ctx (hq_AgentRole req) (hq_AgentProjects req)), TouchLastSeen (caller_id ctx) now db))"

section \<open>The key verbs\<close>

record APIKeyCreateRequest =
  kq_WorkspaceID :: string
  kq_ProjectID :: string
  kq_AgentName :: string
  kq_Role :: string

record APIKeyCreateResponse =
  kp_APIKey :: string
  kp_KeyID :: string
  kp_WorkspaceID :: string
  kp_ProjectID :: string
  kp_AgentName :: string
  kp_Role :: string
  kp_CreatedAt :: int

record APIKeyRow =
  kr_KeyID :: string
  kr_WorkspaceID :: string
  kr_ProjectID :: string
  kr_AgentName :: string
  kr_Role :: string
  kr_CreatedAt :: int
  kr_ExpiresAt :: "int option"

datatype key_error = NoAuthStore | KeyUnauthenticated | NoWorkspaceStore | NoPersonalWorkspace | NoProjectStore | KeyProjectNotFound
  | KeyProjectElsewhere string string string | KeyForbidden string | ReviewerKeys | UnknownKeyRole string | KeyIssue auth_error
  | KeyIDRequired | KeyRevoke auth_error

definition normalizeAPIKeyRole :: "string \<Rightarrow> key_error + string" where
  "normalizeAPIKeyRole requested =
     (let r = ToLower (TrimSpace requested) in
      if r = [] \<or> r = APIKeyRoleExecutor then Inr APIKeyRoleExecutor
      else if r = ''reviewer'' then Inl ReviewerKeys else Inl (UnknownKeyRole requested))"

text \<open>The workspace a key is minted for: that of the project, the one named, or the caller's own.\<close>

definition key_workspace :: "Tenancy \<Rightarrow> string \<Rightarrow> string \<Rightarrow> string \<Rightarrow> key_error + string" where
  "key_workspace tn callerID projectID workspaceID =
     (if projectID = [] \<and> workspaceID = [] then
        (if \<not> tn_WorkspaceStore tn then Inl NoWorkspaceStore
         else case GetPersonalForUser (tn_Workspaces tn) callerID of None \<Rightarrow> Inl NoPersonalWorkspace | Some w \<Rightarrow> Inr (wk_ID w))
      else if projectID \<noteq> [] then
        (if \<not> tn_ProjectStore tn then Inl NoProjectStore
         else case pjGetByID (tn_Projects tn) projectID of
           None \<Rightarrow> Inl KeyProjectNotFound
         | Some p \<Rightarrow>
             (if workspaceID \<noteq> [] \<and> workspaceID \<noteq> pj_WorkspaceID p then Inl (KeyProjectElsewhere projectID (pj_WorkspaceID p) workspaceID)
              else Inr (pj_WorkspaceID p)))
      else Inr workspaceID)"

definition randomKeyIDSuffix :: "string \<Rightarrow> string" where
  "randomKeyIDSuffix b = hex b"

definition invokeAPIKeyCreate ::
  "(string \<Rightarrow> string) \<Rightarrow> Tenancy \<Rightarrow> Ctx \<Rightarrow> APIKeyCreateRequest \<Rightarrow> string \<Rightarrow> string option \<Rightarrow> int \<Rightarrow> accounts \<Rightarrow>
   key_error + APIKeyCreateResponse \<times> accounts" where
  "invokeAPIKeyCreate sha tn ctx req sfx rng now db =
     (if \<not> tn_AuthStore tn then Inl NoAuthStore
      else case cx_User ctx of
        None \<Rightarrow> Inl KeyUnauthenticated
      | Some caller \<Rightarrow>
          (let projectID = TrimSpace (kq_ProjectID req); workspaceID0 = TrimSpace (kq_WorkspaceID req); agent = TrimSpace (kq_AgentName req) in
           case key_workspace tn (us_ID caller) projectID workspaceID0 of
             Inl e \<Rightarrow> Inl e
           | Inr workspaceID \<Rightarrow>
               (if \<not> tn_WorkspaceStore tn then Inl NoWorkspaceStore
                else if wsGetRole (tn_Members tn) workspaceID (us_ID caller) = None then Inl (KeyForbidden workspaceID)
                else case normalizeAPIKeyRole (kq_Role req) of
                  Inl e \<Rightarrow> Inl e
                | Inr _ \<Rightarrow>
                    (case IssueAPIKey sha (''apk_mcp_'' @ randomKeyIDSuffix sfx) (us_ID caller) projectID agent rng now db of
                       Inl e \<Rightarrow> Inl (KeyIssue e)
                     | Inr ((raw, k), db1) \<Rightarrow>
                         Inr (\<lparr>kp_APIKey = raw, kp_KeyID = ak_ID k, kp_WorkspaceID = workspaceID, kp_ProjectID = ak_ProjectID k,
                           kp_AgentName = ak_AgentName k, kp_Role = ak_Role k, kp_CreatedAt = ak_CreatedAt k\<rparr>, db1)))))"

definition workspaceIDForProject :: "Tenancy \<Rightarrow> string \<Rightarrow> string" where
  "workspaceIDForProject tn projectID =
     (if projectID = [] \<or> \<not> tn_ProjectStore tn then []
      else case pjGetByID (tn_Projects tn) projectID of None \<Rightarrow> [] | Some p \<Rightarrow> pj_WorkspaceID p)"

definition key_row :: "Tenancy \<Rightarrow> string \<Rightarrow> APIKey \<Rightarrow> APIKeyRow option" where
  "key_row tn workspaceFilter k =
     (let asks = (workspaceFilter \<noteq> [] \<or> ak_ProjectID k \<noteq> []);
          ws = (if asks then workspaceIDForProject tn (ak_ProjectID k) else []) in
      if asks \<and> workspaceFilter \<noteq> [] \<and> ws \<noteq> workspaceFilter then None
      else Some \<lparr>kr_KeyID = ak_ID k, kr_WorkspaceID = ws, kr_ProjectID = ak_ProjectID k, kr_AgentName = ak_AgentName k, kr_Role = ak_Role k,
        kr_CreatedAt = ak_CreatedAt k, kr_ExpiresAt = ak_ExpiresAt k\<rparr>)"

definition invokeAPIKeyList :: "Tenancy \<Rightarrow> Ctx \<Rightarrow> string \<Rightarrow> string \<Rightarrow> string \<Rightarrow> accounts \<Rightarrow> key_error + APIKeyRow list" where
  "invokeAPIKeyList tn ctx workspaceID projectID agentName db =
     (if \<not> tn_AuthStore tn then Inl NoAuthStore
      else case cx_User ctx of
        None \<Rightarrow> Inl KeyUnauthenticated
      | Some caller \<Rightarrow>
          (let wf = TrimSpace workspaceID; pf = TrimSpace projectID; af = TrimSpace agentName in
           Inr (List.map_filter (key_row tn wf)
             (filter (\<lambda>k. (pf \<noteq> [] \<longrightarrow> ak_ProjectID k = pf) \<and> (af \<noteq> [] \<longrightarrow> ak_AgentName k = af)) (ListAPIKeysForUser db (us_ID caller))))))"

definition invokeAPIKeyRevoke :: "Tenancy \<Rightarrow> Ctx \<Rightarrow> string \<Rightarrow> int \<Rightarrow> accounts \<Rightarrow> key_error + string \<times> accounts" where
  "invokeAPIKeyRevoke tn ctx keyID0 now db =
     (if \<not> tn_AuthStore tn then Inl NoAuthStore
      else case cx_User ctx of
        None \<Rightarrow> Inl KeyUnauthenticated
      | Some caller \<Rightarrow>
          (let keyID = TrimSpace keyID0 in
           if keyID = [] then Inl KeyIDRequired
           else case RevokeKeyForUser (us_ID caller) keyID now db of
             Inl e \<Rightarrow> Inl (KeyRevoke e)
           | Inr db1 \<Rightarrow> Inr (keyID, db1)))"

end
