(* ===== verification/AccountProps.thy ===== *)
theory AccountProps
  imports Accounts
begin

text \<open>
  The accounts over every run of their operations: the invariant of both tables, keys that are refused for good, identities that stay
  with their account, administrators that come from the list, and what the keys of the verbs are worth on a project.
\<close>

datatype account_op =
    OpCreateUser string string string string int
  | OpSignIn string string string string "string list" int
  | OpTouch string int
  | OpPassword "string \<Rightarrow> string option" string string
  | OpIssue string string string string string string "int option" int
  | OpRevokeForUser string string int
  | OpRevoke string int

definition after_op :: "auth_error + accounts \<Rightarrow> accounts \<Rightarrow> accounts" where
  "after_op r db = (case r of Inl e \<Rightarrow> db | Inr db' \<Rightarrow> db')"

fun acc_exec :: "(string \<Rightarrow> string) \<Rightarrow> account_op \<Rightarrow> accounts \<Rightarrow> accounts" where
  "acc_exec sha (OpCreateUser i e n r now) db = after_op (map_sum id snd (CreateUser i e n r now db)) db"
| "acc_exec sha (OpSignIn p s e n as now) db = after_op (map_sum id snd (UpsertOAuthUser p s e n as now db)) db"
| "acc_exec sha (OpTouch u now) db = TouchLastSeen u now db"
| "acc_exec sha (OpPassword bcrypt u raw) db = after_op (SetPassword bcrypt u raw db) db"
| "acc_exec sha (OpIssue i u p a raw r ex now) db = after_op (map_sum id snd (issueWithRaw sha i u p a raw r ex now db)) db"
| "acc_exec sha (OpRevokeForUser u i now) db = after_op (RevokeKeyForUser u i now db) db"
| "acc_exec sha (OpRevoke i now) db = after_op (RevokeKey i now db) db"

definition no_accounts :: accounts where
  "no_accounts = \<lparr>au_Users = [], au_Keys = []\<rparr>"

section \<open>The invariant\<close>

definition one_identity :: "Account list \<Rightarrow> bool" where
  "one_identity us \<longleftrightarrow> (\<forall>u \<in> set us. \<forall>v \<in> set us. \<forall>p. am_Identity u = Some p \<longrightarrow> am_Identity v = Some p \<longrightarrow> am_ID u = am_ID v)"

definition users_ok :: "Account list \<Rightarrow> bool" where
  "users_ok us \<longleftrightarrow> unique_key am_ID us \<and> unique_key am_Email us \<and> (\<forall>u \<in> set us. canonical_email (am_Email u) = am_Email u) \<and> one_identity us"

definition keys_ok :: "APIKey list \<Rightarrow> bool" where
  "keys_ok ks \<longleftrightarrow> unique_key ak_ID ks \<and> unique_key ak_KeyHash ks \<and>
     (\<forall>k \<in> set ks. \<forall>k' \<in> set ks. ak_ProjectID k \<noteq> [] \<longrightarrow> in_slot (ak_UserID k) (ak_ProjectID k) (ak_AgentName k) k' \<longrightarrow> k = k')"

definition accounts_ok :: "accounts \<Rightarrow> bool" where
  "accounts_ok db \<longleftrightarrow> users_ok (au_Users db) \<and> keys_ok (au_Keys db) \<and> (\<forall>k \<in> set (au_Keys db). GetUserByID db (ak_UserID k) \<noteq> None)"

lemma canonical_idem [simp]: "canonical_email (canonical_email e) = canonical_email e"
  by (simp add: canonical_email_def TrimSpace_ToLower)

lemma users_okD:
  assumes "users_ok us"
  shows "unique_key am_ID us" "unique_key am_Email us" "one_identity us"
  using assms by (simp_all add: users_ok_def)

lemma unique_key_add: "unique_key key (xs @ [x]) \<longleftrightarrow> unique_key key xs \<and> row_at key (key x) xs = None"
  by (simp add: unique_key_def row_at_None image_iff) metis

lemma one_identityD: "one_identity us \<Longrightarrow> u \<in> set us \<Longrightarrow> v \<in> set us \<Longrightarrow> am_Identity u = Some p \<Longrightarrow> am_Identity v = Some p \<Longrightarrow> am_ID u = am_ID v"
  unfolding one_identity_def by blast

lemma users_ok_add:
  assumes "users_ok us" and "row_at am_ID (am_ID u) us = None" and "row_at am_Email (am_Email u) us = None"
    and "canonical_email (am_Email u) = am_Email u" and "\<And>v p. v \<in> set us \<Longrightarrow> am_Identity u = Some p \<Longrightarrow> am_Identity v \<noteq> Some p"
  shows "users_ok (us @ [u])"
proof -
  have "one_identity (us @ [u])" unfolding one_identity_def
  proof (intro ballI allI impI)
    fix x y p assume m: "x \<in> set (us @ [u])" "y \<in> set (us @ [u])" and i: "am_Identity x = Some p" "am_Identity y = Some p"
    show "am_ID x = am_ID y" using m i assms(5) [of x p] assms(5) [of y p] one_identityD [OF users_okD(3) [OF assms(1)], of x y p] by auto
  qed
  then show ?thesis using assms(1-4) by (auto simp: users_ok_def unique_key_add)
qed

text \<open>A row replaced by one with its id and a value of the key that no other row has.\<close>

lemma unique_key_set:
  assumes i: "unique_key idk rows" and k: "unique_key key rows" and u: "u \<in> set rows" "idk u' = idk u"
    and other: "\<And>v. v \<in> set rows \<Longrightarrow> key v = key u' \<Longrightarrow> idk v = idk u"
  shows "unique_key key (map (\<lambda>x. if idk x = idk u' then u' else x) rows)" (is "unique_key key (map ?f rows)")
proof -
  have "x = y" if "x \<in> set rows" "y \<in> set rows" "key (?f x) = key (?f y)" for x y
  proof -
    have "idk x = idk y \<or> key x = key y" using that other u(2) by (auto split: if_splits)
    then show ?thesis using that(1,2) i k by (auto simp: unique_key_def distinct_map dest: inj_onD)
  qed
  then have "inj_on (key \<circ> ?f) (set rows)" by (simp add: inj_on_def)
  then show ?thesis using i by (simp add: unique_key_def distinct_map)
qed

lemma users_ok_set:
  assumes ok: "users_ok us" and u: "u \<in> set us" "am_ID u' = am_ID u"
    and e: "canonical_email (am_Email u') = am_Email u'" "\<And>v. v \<in> set us \<Longrightarrow> am_Email v = am_Email u' \<Longrightarrow> am_ID v = am_ID u"
    and i: "\<And>v p. v \<in> set us \<Longrightarrow> am_Identity u' = Some p \<Longrightarrow> am_Identity v = Some p \<Longrightarrow> am_ID v = am_ID u"
  shows "users_ok (map (\<lambda>x. if am_ID x = am_ID u' then u' else x) us)" (is "users_ok (map ?f us)")
proof -
  have "unique_key am_ID (map ?f us)" using unique_key_set [OF users_okD(1,1) [OF ok] u] u by simp
  moreover have "unique_key am_Email (map ?f us)" by (rule unique_key_set [OF users_okD(1,2) [OF ok] u e(2)])
  moreover have "one_identity (map ?f us)" unfolding one_identity_def
  proof (intro ballI allI impI)
    fix x y p assume m: "x \<in> set (map ?f us)" "y \<in> set (map ?f us)" and j: "am_Identity x = Some p" "am_Identity y = Some p"
    then obtain a b where "a \<in> set us" "b \<in> set us" "x = ?f a" "y = ?f b" by auto
    then show "am_ID x = am_ID y" using j i u(2) one_identityD [OF users_okD(3) [OF ok], of a b p] by (auto split: if_splits)
  qed
  ultimately show ?thesis using ok e(1) by (auto simp: users_ok_def)
qed

lemma CreateUser_ok:
  assumes "users_ok (au_Users db)" and "CreateUser i e n r now db = Inr (u, db')"
  shows "users_ok (au_Users db')"
  using assms by (auto simp: CreateUser_def Let_def GetUserByID_def split: if_splits option.splits intro!: users_ok_add)

lemma by_identity_Some: "by_identity p s db = Some u \<Longrightarrow> u \<in> set (au_Users db) \<and> am_Identity u = Some (p, s)"
  by (auto simp: by_identity_def find_Some_iff)

lemma by_identity_None: "by_identity p s db = None \<Longrightarrow> v \<in> set (au_Users db) \<Longrightarrow> am_Identity v \<noteq> Some (p, s)"
  by (simp add: by_identity_def find_None_iff)

lemma promoted_fields [simp]: "am_ID (promoted w n u) = am_ID u" "am_Email (promoted w n u) = am_Email u" "am_Identity (promoted w n u) = am_Identity u"
  by (simp_all add: promoted_def)

text \<open>The cases of a successful sign-in: the account of the identity, an account of the email without one, a new account.\<close>

lemma SignIn_cases:
  assumes "UpsertOAuthUser p s e n as now db = Inr (v, db')"
  obtains (known) u where "by_identity p s db = Some u" "v = promoted (wants_admin e as) n (u\<lparr>am_Email := canonical_email e\<rparr>)" "db' = set_user v db"
      "\<And>x. x \<in> set (au_Users db) \<Longrightarrow> am_Email x = canonical_email e \<Longrightarrow> am_ID x = am_ID u"
  | (link) u where "by_identity p s db = None" "row_at am_Email (canonical_email e) (au_Users db) = Some u" "am_Identity u = None"
      "v = promoted (wants_admin e as) n (u\<lparr>am_Identity := Some (p, s)\<rparr>)" "db' = set_user v db"
  | (fresh) "by_identity p s db = None" "row_at am_Email (canonical_email e) (au_Users db) = None" "row_at am_ID (am_ID v) (au_Users db) = None"
      "am_Email v = canonical_email e" "am_Identity v = Some (p, s)" "am_Role v = (if wants_admin e as then UserRoleAdmin else RoleUser)"
      "db' = db\<lparr>au_Users := au_Users db @ [v]\<rparr>"
  using assms by (auto simp: UpsertOAuthUser_def Let_def GetUserByID_def list_ex_iff split: if_splits option.splits)

lemma SignIn_ok:
  assumes ok: "users_ok (au_Users db)" and r: "UpsertOAuthUser p s e n as now db = Inr (v, db')"
  shows "users_ok (au_Users db')"
  using r
proof (cases rule: SignIn_cases)
  case (known u)
  note u = by_identity_Some [OF known(1)]
  have "am_ID x = am_ID u" if "x \<in> set (au_Users db)" "am_Identity v = Some q" "am_Identity x = Some q" for x q
    using that u known(2) one_identityD [OF users_okD(3) [OF ok], of x u q] by simp
  moreover have "am_ID v = am_ID u" "am_Email v = canonical_email e" by (simp_all add: known(2))
  ultimately have "users_ok (map (\<lambda>x. if am_ID x = am_ID v then v else x) (au_Users db))"
    using u known(4) by (intro users_ok_set [OF ok]) simp_all
  then show ?thesis by (simp add: known(3) set_user_def)
next
  case (link u)
  note u = row_at_Some [OF link(2)]
  have e: "am_Email u = canonical_email e" using u by simp
  have "am_ID x = am_ID u" if "x \<in> set (au_Users db)" "am_Email x = am_Email v" for x
    using that u users_okD(2) [OF ok] inj_onD [of am_Email "set (au_Users db)" x u] by (simp add: link(4) unique_key_def distinct_map)
  moreover have "am_Identity x \<noteq> Some q" if "x \<in> set (au_Users db)" "am_Identity v = Some q" for x q
    using that by_identity_None [OF link(1) that(1)] by (simp add: link(4))
  moreover have "am_ID v = am_ID u" "canonical_email (am_Email v) = am_Email v" by (simp_all add: link(4) e)
  ultimately have "users_ok (map (\<lambda>x. if am_ID x = am_ID v then v else x) (au_Users db))"
    using u by (intro users_ok_set [OF ok]) simp_all
  then show ?thesis by (simp add: link(5) set_user_def)
next
  case fresh
  then show ?thesis using ok by_identity_None [OF fresh(1)] by (auto intro!: users_ok_add)
qed

lemma users_ok_update:
  assumes ok: "users_ok us" and f: "\<And>u. am_ID (f u) = am_ID u" "\<And>u. am_Email (f u) = am_Email u" "\<And>u. am_Identity (f u) = am_Identity u"
  shows "users_ok (fst (update_rows P f us))"
proof -
  have "one_identity (fst (update_rows P f us))" unfolding one_identity_def
  proof (intro ballI allI impI)
    fix x y p assume m: "x \<in> set (fst (update_rows P f us))" "y \<in> set (fst (update_rows P f us))"
      and j: "am_Identity x = Some p" "am_Identity y = Some p"
    from m obtain a b where "a \<in> set us" "b \<in> set us" "x = (if P a then f a else a)" "y = (if P b then f b else b)"
      by (auto simp: update_rows_def)
    then show "am_ID x = am_ID y" using j f one_identityD [OF users_okD(3) [OF ok], of a b p] by (simp split: if_splits)
  qed
  moreover have "unique_key am_ID (fst (update_rows P f us))" "unique_key am_Email (fst (update_rows P f us))"
    using f users_okD [OF ok] by (simp_all add: unique_key_update)
  moreover have "\<forall>u \<in> set (fst (update_rows P f us)). canonical_email (am_Email u) = am_Email u"
    using ok f by (auto simp: users_ok_def update_rows_def)
  ultimately show ?thesis by (simp add: users_ok_def)
qed

section \<open>The keys\<close>

lemma keys_okD:
  assumes "keys_ok ks"
  shows "unique_key ak_ID ks" "unique_key ak_KeyHash ks"
    "\<And>k k'. k \<in> set ks \<Longrightarrow> k' \<in> set ks \<Longrightarrow> ak_ProjectID k \<noteq> [] \<Longrightarrow> in_slot (ak_UserID k) (ak_ProjectID k) (ak_AgentName k) k' \<Longrightarrow> k = k'"
  using assms unfolding keys_ok_def by blast+

lemma keys_ok_add:
  assumes "keys_ok ks" and "row_at ak_ID (ak_ID k) ks = None" and "row_at ak_KeyHash (ak_KeyHash k) ks = None"
    and "ak_ProjectID k \<noteq> [] \<Longrightarrow> \<not> list_ex (in_slot (ak_UserID k) (ak_ProjectID k) (ak_AgentName k)) ks"
  shows "keys_ok (ks @ [k])"
proof -
  have "x = y" if "x \<in> set (ks @ [k])" "y \<in> set (ks @ [k])" "ak_ProjectID x \<noteq> []" "in_slot (ak_UserID x) (ak_ProjectID x) (ak_AgentName x) y" for x y
    using that assms(4) keys_okD(3) [OF assms(1), of x y] by (auto simp: list_ex_iff in_slot_def)
  then show ?thesis using assms(1-3) by (simp add: keys_ok_def unique_key_add)
qed

text \<open>The slot has one row; it is replaced.\<close>

lemma keys_ok_rotate:
  assumes ok: "keys_ok ks" and p: "ak_ProjectID k \<noteq> []"
    and other: "\<And>x. x \<in> set ks \<Longrightarrow> ak_ID x = ak_ID k \<or> ak_KeyHash x = ak_KeyHash k \<Longrightarrow> in_slot (ak_UserID k) (ak_ProjectID k) (ak_AgentName k) x"
  shows "keys_ok (map (\<lambda>x. if in_slot (ak_UserID k) (ak_ProjectID k) (ak_AgentName k) x then k else x) ks)" (is "keys_ok (map ?f ks)")
proof -
  let ?mine = "in_slot (ak_UserID k) (ak_ProjectID k) (ak_AgentName k)"
  have one: "x = y" if "x \<in> set ks" "y \<in> set ks" "?mine x" "?mine y" for x y
    using that keys_okD(3) [OF ok, of x y] p by (simp add: in_slot_def)
  have u: "unique_key key (map ?f ks)" if key: "unique_key key ks" and "\<And>x. x \<in> set ks \<Longrightarrow> key x = key k \<Longrightarrow> ?mine x" for key :: "APIKey \<Rightarrow> string"
  proof -
    have "inj_on (key \<circ> ?f) (set ks)"
    proof (rule inj_onI)
      fix x y assume "x \<in> set ks" "y \<in> set ks" "(key \<circ> ?f) x = (key \<circ> ?f) y"
      then show "x = y" using one that key by (auto simp: unique_key_def distinct_map split: if_splits dest: inj_onD)
    qed
    then show ?thesis using key by (simp add: unique_key_def distinct_map)
  qed
  have s: "x = y" if "x \<in> set (map ?f ks)" "y \<in> set (map ?f ks)" "ak_ProjectID x \<noteq> []" "in_slot (ak_UserID x) (ak_ProjectID x) (ak_AgentName x) y" for x y
  proof -
    have "x = k \<or> (x \<in> set ks \<and> \<not> ?mine x)" "y = k \<or> (y \<in> set ks \<and> \<not> ?mine y)" using that(1,2) by auto
    then show ?thesis using that(3,4) keys_okD(3) [OF ok, of x y] unfolding in_slot_def by metis
  qed
  have "unique_key ak_ID (map ?f ks)" by (rule u [OF keys_okD(1) [OF ok]]) (simp add: other)
  moreover have "unique_key ak_KeyHash (map ?f ks)" by (rule u [OF keys_okD(2) [OF ok]]) (simp add: other)
  moreover have "\<forall>x \<in> set (map ?f ks). \<forall>y \<in> set (map ?f ks). ak_ProjectID x \<noteq> [] \<longrightarrow> in_slot (ak_UserID x) (ak_ProjectID x) (ak_AgentName x) y \<longrightarrow> x = y"
    by (intro ballI impI) (rule s)
  ultimately show ?thesis unfolding keys_ok_def by (intro conjI)
qed

lemma key_rows_ok_update:
  assumes ok: "keys_ok ks" and f: "\<And>k. ak_ID (f k) = ak_ID k" "\<And>k. ak_KeyHash (f k) = ak_KeyHash k" "\<And>k. ak_UserID (f k) = ak_UserID k"
    "\<And>k. ak_ProjectID (f k) = ak_ProjectID k" "\<And>k. ak_AgentName (f k) = ak_AgentName k"
  shows "keys_ok (fst (update_rows P f ks))"
proof -
  have "x = y" if m: "x \<in> set (fst (update_rows P f ks))" "y \<in> set (fst (update_rows P f ks))"
    and p: "ak_ProjectID x \<noteq> []" "in_slot (ak_UserID x) (ak_ProjectID x) (ak_AgentName x) y" for x y
  proof -
    from m obtain a b where ab: "a \<in> set ks" "b \<in> set ks" "x = (if P a then f a else a)" "y = (if P b then f b else b)"
      by (auto simp: update_rows_def)
    then have "a = b" using p f keys_okD(3) [OF ok, of a b] by (simp add: in_slot_def split: if_splits)
    then show ?thesis using ab by simp
  qed
  then show ?thesis using f keys_okD [OF ok] unfolding keys_ok_def by (simp add: unique_key_update)
qed

text \<open>What an accepted insert leaves.\<close>

lemma insert_key_cases:
  assumes "insert_key k db = Some db'"
  obtains (known) "ak_ProjectID k = []" "row_at ak_KeyHash (ak_KeyHash k) (au_Keys db) \<noteq> None" "db' = db"
  | (rotate) "ak_ProjectID k \<noteq> []" "GetUserByID db (ak_UserID k) \<noteq> None" "list_ex (in_slot (ak_UserID k) (ak_ProjectID k) (ak_AgentName k)) (au_Keys db)"
      "\<And>x. x \<in> set (au_Keys db) \<Longrightarrow> ak_ID x = ak_ID k \<or> ak_KeyHash x = ak_KeyHash k \<Longrightarrow> in_slot (ak_UserID k) (ak_ProjectID k) (ak_AgentName k) x"
      "db' = db\<lparr>au_Keys := map (\<lambda>x. if in_slot (ak_UserID k) (ak_ProjectID k) (ak_AgentName k) x then k else x) (au_Keys db)\<rparr>"
  | (fresh) "GetUserByID db (ak_UserID k) \<noteq> None" "row_at ak_ID (ak_ID k) (au_Keys db) = None" "row_at ak_KeyHash (ak_KeyHash k) (au_Keys db) = None"
      "ak_ProjectID k = [] \<or> \<not> list_ex (in_slot (ak_UserID k) (ak_ProjectID k) (ak_AgentName k)) (au_Keys db)"
      "db' = db\<lparr>au_Keys := au_Keys db @ [k]\<rparr>"
proof (cases "ak_ProjectID k = []")
  case True
  then show ?thesis using assms that(1,3) by (auto simp: insert_key_def split: if_splits)
next
  case False
  let ?mine = "in_slot (ak_UserID k) (ak_ProjectID k) (ak_AgentName k)"
  have a: "GetUserByID db (ak_UserID k) \<noteq> None" "\<And>x. x \<in> set (au_Keys db) \<Longrightarrow> ak_ID x = ak_ID k \<or> ak_KeyHash x = ak_KeyHash k \<Longrightarrow> ?mine x"
    "db' = db\<lparr>au_Keys := (if list_ex ?mine (au_Keys db) then map (\<lambda>x. if ?mine x then k else x) (au_Keys db) else au_Keys db @ [k])\<rparr>"
    using assms False by (auto simp: insert_key_def Let_def list_ex_iff split: if_splits)
  show ?thesis
  proof (cases "list_ex ?mine (au_Keys db)")
    case True
    then show ?thesis using that(2) False a by simp
  next
    case none: False
    then have "row_at ak_ID (ak_ID k) (au_Keys db) = None" "row_at ak_KeyHash (ak_KeyHash k) (au_Keys db) = None"
      using a(2) by (auto simp: row_at_None list_ex_iff)
    then show ?thesis using that(3) none a by simp
  qed
qed

lemma insert_key_ok:
  assumes "keys_ok (au_Keys db)" and "insert_key k db = Some db'"
  shows "keys_ok (au_Keys db') \<and> au_Users db' = au_Users db \<and>
    (\<forall>x \<in> set (au_Keys db'). x \<in> set (au_Keys db) \<or> (x = k \<and> GetUserByID db (ak_UserID k) \<noteq> None))"
  using assms(2)
proof (cases rule: insert_key_cases)
  case rotate
  then show ?thesis using keys_ok_rotate [OF assms(1) rotate(1,4)] by auto
next
  case fresh
  then show ?thesis using keys_ok_add [OF assms(1) fresh(2,3)] by auto
qed (use assms(1) in simp)

section \<open>Every run\<close>

lemma issue_cases:
  assumes "issueWithRaw sha i u p a raw r ex now db = Inr (x, db')"
  shows "insert_key \<lparr>ak_ID = i, ak_UserID = u, ak_ProjectID = p, ak_AgentName = a, ak_Role = r, ak_KeyHash = HashKey sha raw,
      ak_CreatedAt = now, ak_ExpiresAt = ex, ak_RevokedAt = None\<rparr> db = Some db' \<and> fst x = raw \<and>
    row_at ak_KeyHash (HashKey sha raw) (au_Keys db') = Some (snd x)"
  using assms by (auto simp: issueWithRaw_def Let_def split: option.splits)

text \<open>What one operation does to the rows: accounts keep their ids, keys are kept, revoked or minted.\<close>

definition same_ids :: "Account list \<Rightarrow> Account list \<Rightarrow> bool" where
  "same_ids us us' \<longleftrightarrow> (\<forall>i. row_at am_ID i us \<noteq> None \<longrightarrow> row_at am_ID i us' \<noteq> None)"

lemma same_ids_map: "(\<And>u. am_ID (f u) = am_ID u) \<Longrightarrow> same_ids us (map f us)"
  by (auto simp: same_ids_def row_at_None)

lemma same_ids_simps [simp]: "same_ids us us" "same_ids us (us @ vs)"
  by (auto simp: same_ids_def split: option.splits)

lemma set_user_ids [simp]: "same_ids (au_Users db) (au_Users (set_user u db))" "au_Keys (set_user u db) = au_Keys db"
  by (auto simp: set_user_def intro!: same_ids_map)

lemma user_ops_keys:
  "CreateUser i e n r now db = Inr (u, db') \<Longrightarrow> au_Keys db' = au_Keys db \<and> same_ids (au_Users db) (au_Users db')"
  "UpsertOAuthUser p s e n as now db = Inr (u, db') \<Longrightarrow> au_Keys db' = au_Keys db \<and> same_ids (au_Users db) (au_Users db')"
  "SetPassword bcrypt v raw db = Inr db' \<Longrightarrow> au_Keys db' = au_Keys db \<and> same_ids (au_Users db) (au_Users db')"
  "au_Keys (TouchLastSeen v now db) = au_Keys db \<and> same_ids (au_Users db) (au_Users (TouchLastSeen v now db))"
proof -
  show "CreateUser i e n r now db = Inr (u, db') \<Longrightarrow> au_Keys db' = au_Keys db \<and> same_ids (au_Users db) (au_Users db')"
    by (auto simp: CreateUser_def Let_def split: if_splits option.splits)
  show "UpsertOAuthUser p s e n as now db = Inr (u, db') \<Longrightarrow> au_Keys db' = au_Keys db \<and> same_ids (au_Users db) (au_Users db')"
    by (erule SignIn_cases) simp_all
  show "SetPassword bcrypt v raw db = Inr db' \<Longrightarrow> au_Keys db' = au_Keys db \<and> same_ids (au_Users db) (au_Users db')"
    by (auto simp: SetPassword_def update_rows_def intro!: same_ids_map split: if_splits option.splits)
  show "au_Keys (TouchLastSeen v now db) = au_Keys db \<and> same_ids (au_Users db) (au_Users (TouchLastSeen v now db))"
    by (auto simp: TouchLastSeen_def update_rows_def intro!: same_ids_map)
qed

lemma revoke_rows:
  "RevokeKeyForUser u i now db = Inr db' \<Longrightarrow> au_Users db' = au_Users db \<and>
     au_Keys db' = fst (update_rows (\<lambda>k. ak_ID k = i \<and> ak_UserID k = u \<and> ak_RevokedAt k = None) (\<lambda>k. k\<lparr>ak_RevokedAt := Some now\<rparr>) (au_Keys db))"
  "RevokeKey i now db = Inr db' \<Longrightarrow> au_Users db' = au_Users db \<and>
     au_Keys db' = fst (update_rows (\<lambda>k. ak_ID k = i \<and> ak_RevokedAt k = None) (\<lambda>k. k\<lparr>ak_RevokedAt := Some now\<rparr>) (au_Keys db))"
  by (auto simp: RevokeKeyForUser_def RevokeKey_def split: prod.splits if_splits)

fun mints :: "(string \<Rightarrow> string) \<Rightarrow> string \<Rightarrow> account_op \<Rightarrow> bool" where
  "mints sha h (OpIssue i u p a raw r ex now) \<longleftrightarrow> HashKey sha raw = h"
| "mints sha h op \<longleftrightarrow> False"

fun minted_key :: "(string \<Rightarrow> string) \<Rightarrow> account_op \<Rightarrow> APIKey option" where
  "minted_key sha (OpIssue i u p a raw r ex now) = Some \<lparr>ak_ID = i, ak_UserID = u, ak_ProjectID = p, ak_AgentName = a, ak_Role = r,
     ak_KeyHash = HashKey sha raw, ak_CreatedAt = now, ak_ExpiresAt = ex, ak_RevokedAt = None\<rparr>"
| "minted_key sha op = None"

definition key_step :: "APIKey list \<Rightarrow> APIKey option \<Rightarrow> APIKey \<Rightarrow> bool" where
  "key_step ks new x \<longleftrightarrow> x \<in> set ks \<or> new = Some x \<or> (\<exists>y \<in> set ks. \<exists>t. x = y\<lparr>ak_RevokedAt := Some t\<rparr>)"

lemma key_step_update: "x \<in> set (fst (update_rows P (\<lambda>k. k\<lparr>ak_RevokedAt := Some t\<rparr>) ks)) \<Longrightarrow> key_step ks n x"
  by (auto simp: update_rows_def key_step_def)

lemma acc_exec_step:
  assumes "keys_ok (au_Keys db)"
  shows "keys_ok (au_Keys (acc_exec sha op db)) \<and> same_ids (au_Users db) (au_Users (acc_exec sha op db)) \<and>
    (\<forall>x \<in> set (au_Keys (acc_exec sha op db)). key_step (au_Keys db) (minted_key sha op) x \<and>
       (x \<in> set (au_Keys db) \<or> (\<exists>y \<in> set (au_Keys db). ak_UserID y = ak_UserID x) \<or> GetUserByID db (ak_UserID x) \<noteq> None))"
proof -
  have stay: ?thesis if "au_Keys (acc_exec sha op db) = au_Keys db" "same_ids (au_Users db) (au_Users (acc_exec sha op db))"
    using assms that by (simp add: key_step_def)
  have revoke: ?thesis if "au_Users (acc_exec sha op db) = au_Users db"
    "au_Keys (acc_exec sha op db) = fst (update_rows P (\<lambda>k. k\<lparr>ak_RevokedAt := Some t\<rparr>) (au_Keys db))" for P t
  proof -
    have "keys_ok (fst (update_rows P (\<lambda>k. k\<lparr>ak_RevokedAt := Some t\<rparr>) (au_Keys db)))" using assms by (intro key_rows_ok_update) simp_all
    moreover have "\<exists>y \<in> set (au_Keys db). ak_UserID y = ak_UserID x"
      if "x \<in> set (fst (update_rows P (\<lambda>k. k\<lparr>ak_RevokedAt := Some t\<rparr>) (au_Keys db)))" for x using that by (auto simp: update_rows_def)
    ultimately show ?thesis using key_step_update [of _ P t] unfolding that by simp
  qed
  show ?thesis
  proof (cases op)
    case (OpIssue i u p a raw r ex now)
    show ?thesis
    proof (cases "issueWithRaw sha i u p a raw r ex now db")
      case (Inr x)
      then obtain y db' where x: "issueWithRaw sha i u p a raw r ex now db = Inr (y, db')" by (cases x) simp
      note k = insert_key_ok [OF assms issue_cases [OF x, THEN conjunct1]]
      have "acc_exec sha op db = db'" by (simp add: OpIssue x after_op_def)
      then show ?thesis using k by (auto simp: OpIssue key_step_def)
    qed (use stay in \<open>simp add: OpIssue after_op_def\<close>)
  next
    case (OpRevokeForUser u i now)
    show ?thesis
    proof (cases "RevokeKeyForUser u i now db")
      case (Inr db')
      then have "acc_exec sha op db = db'" by (simp add: OpRevokeForUser after_op_def)
      then show ?thesis using revoke revoke_rows(1) [OF Inr] by blast
    qed (use stay in \<open>simp add: OpRevokeForUser after_op_def\<close>)
  next
    case (OpRevoke i now)
    show ?thesis
    proof (cases "RevokeKey i now db")
      case (Inr db')
      then have "acc_exec sha op db = db'" by (simp add: OpRevoke after_op_def)
      then show ?thesis using revoke revoke_rows(2) [OF Inr] by blast
    qed (use stay in \<open>simp add: OpRevoke after_op_def\<close>)
  next
    case (OpCreateUser i e n r now)
    then show ?thesis using stay user_ops_keys(1) [of i e n r now db] by (cases "CreateUser i e n r now db") (auto simp: after_op_def)
  next
    case (OpSignIn p s e n as now)
    then show ?thesis using stay user_ops_keys(2) [of p s e n as now db] by (cases "UpsertOAuthUser p s e n as now db") (auto simp: after_op_def)
  next
    case (OpPassword b u raw)
    then show ?thesis using stay user_ops_keys(3) [of b u raw db] by (cases "SetPassword b u raw db") (auto simp: after_op_def)
  next
    case (OpTouch u now)
    then show ?thesis using stay user_ops_keys(4) by simp
  qed
qed

lemma issue_users: "issueWithRaw sha i u p a raw r ex now db = Inr (x, db') \<Longrightarrow> au_Users db' = au_Users db"
  by (drule issue_cases, elim conjE, erule insert_key_cases) simp_all

lemma issue_exec_users: "au_Users (acc_exec sha (OpIssue i u p a raw r ex now) db) = au_Users db"
proof (cases "issueWithRaw sha i u p a raw r ex now db")
  case (Inr y)
  then have "issueWithRaw sha i u p a raw r ex now db = Inr (fst y, snd y)" by simp
  then have "au_Users (snd y) = au_Users db" by (rule issue_users)
  then show ?thesis by (simp add: after_op_def Inr)
qed (simp add: after_op_def)

lemma revoke_users:
  "au_Users (after_op (RevokeKeyForUser u i now db) db) = au_Users db" "au_Users (after_op (RevokeKey i now db) db) = au_Users db"
  using revoke_rows by (auto simp: after_op_def split: sum.split)

lemma acc_exec_users:
  assumes "users_ok (au_Users db)"
  shows "users_ok (au_Users (acc_exec sha op db))"
proof (cases op)
  case (OpCreateUser i e n r now)
  then show ?thesis using assms CreateUser_ok [of db i e n r now] by (cases "CreateUser i e n r now db") (auto simp: after_op_def)
next
  case (OpSignIn p s e n as now)
  then show ?thesis using assms SignIn_ok [of db p s e n as now] by (cases "UpsertOAuthUser p s e n as now db") (auto simp: after_op_def)
next
  case (OpTouch u now)
  then show ?thesis using assms by (simp add: TouchLastSeen_def users_ok_update)
next
  case (OpPassword b u raw)
  then show ?thesis using assms by (auto simp: SetPassword_def after_op_def users_ok_update split: option.splits)
next
  case (OpIssue i u p a raw r ex now)
  then show ?thesis using assms issue_exec_users by simp
next
  case (OpRevokeForUser u i now)
  then show ?thesis using assms revoke_users by simp
next
  case (OpRevoke i now)
  then show ?thesis using assms revoke_users by simp
qed

lemma accounts_okD:
  assumes "accounts_ok db"
  shows "users_ok (au_Users db)" "keys_ok (au_Keys db)" "\<And>k. k \<in> set (au_Keys db) \<Longrightarrow> GetUserByID db (ak_UserID k) \<noteq> None"
  using assms by (simp_all add: accounts_ok_def)

lemma acc_exec_ok:
  assumes ok: "accounts_ok db"
  shows "accounts_ok (acc_exec sha op db)"
proof -
  note s = acc_exec_step [OF accounts_okD(2) [OF ok], of sha op]
  have "GetUserByID (acc_exec sha op db) (ak_UserID x) \<noteq> None" if "x \<in> set (au_Keys (acc_exec sha op db))" for x
  proof -
    have "GetUserByID db (ak_UserID x) \<noteq> None" using s that accounts_okD(3) [OF ok] by metis
    then show ?thesis using s by (simp add: same_ids_def GetUserByID_def)
  qed
  then show ?thesis using s acc_exec_users [OF accounts_okD(1) [OF ok]] by (simp add: accounts_ok_def)
qed

lemma runs_ok: "accounts_ok db \<Longrightarrow> accounts_ok (fold (acc_exec sha) ops db)"
  by (induction ops arbitrary: db) (simp_all add: acc_exec_ok)

lemma no_accounts_ok: "accounts_ok no_accounts"
  by (simp add: accounts_ok_def no_accounts_def users_ok_def keys_ok_def one_identity_def unique_key_def)

text \<open>
  The account tables. After every sequence of operations ids, emails and sign-in identities of users are unique and emails in canonical
  form, ids and hashes of keys are unique, a project has at most one key per user and agent name, and every key has its user.
\<close>

theorem accounts_invariant:
  "accounts_ok (fold (acc_exec sha) ops no_accounts)"
  by (rule runs_ok [OF no_accounts_ok])

section \<open>Keys\<close>

lemma key_step_fields:
  assumes "key_step ks new x"
  shows "new = Some x \<or> (\<exists>y \<in> set ks. ak_KeyHash y = ak_KeyHash x \<and> ak_UserID y = ak_UserID x \<and> ak_Role y = ak_Role x \<and>
    ak_ProjectID y = ak_ProjectID x \<and> (ak_RevokedAt y \<noteq> None \<longrightarrow> ak_RevokedAt x \<noteq> None))"
  using assms by (auto simp: key_step_def)

definition spent :: "string \<Rightarrow> APIKey list \<Rightarrow> bool" where
  "spent h ks \<longleftrightarrow> (\<forall>k \<in> set ks. ak_KeyHash k = h \<longrightarrow> ak_RevokedAt k \<noteq> None)"

lemma minted_hash: "minted_key sha op = Some k \<Longrightarrow> mints sha (ak_KeyHash k) op"
  by (cases op) auto

lemma spent_stays:
  assumes "keys_ok (au_Keys db)" and "spent h (au_Keys db)" and "\<not> mints sha h op"
  shows "spent h (au_Keys (acc_exec sha op db))"
  unfolding spent_def
proof (intro ballI impI)
  fix x assume x: "x \<in> set (au_Keys (acc_exec sha op db))" "ak_KeyHash x = h"
  then have "key_step (au_Keys db) (minted_key sha op) x" using acc_exec_step [OF assms(1)] by blast
  from key_step_fields [OF this] show "ak_RevokedAt x \<noteq> None"
    using assms(2,3) x(2) minted_hash [of sha op x] unfolding spent_def by metis
qed

lemma spent_run:
  "accounts_ok db \<Longrightarrow> spent h (au_Keys db) \<Longrightarrow> (\<And>op. op \<in> set ops \<Longrightarrow> \<not> mints sha h op) \<Longrightarrow> spent h (au_Keys (fold (acc_exec sha) ops db))"
proof (induction ops arbitrary: db)
  case (Cons op ops)
  then show ?case using spent_stays [OF accounts_okD(2)] acc_exec_ok by simp
qed simp

lemma spent_refused: "spent (HashKey sha raw) (au_Keys db) \<Longrightarrow> ValidateKeyWithRole sha t raw db = None"
  by (auto simp: ValidateKeyWithRole_def spent_def live_key_def dest!: row_at_Some split: option.split)

lemma same_hash:
  assumes "keys_ok ks" and "k \<in> set ks" and "x \<in> set ks" and "ak_KeyHash x = ak_KeyHash k"
  shows "x = k"
  using assms keys_okD(2) [OF assms(1)] by (auto simp: unique_key_def distinct_map dest: inj_onD)

text \<open>
  C12: A key is refused for good. Once the owner has revoked it, or a key has been minted for its project and agent name, a key is refused at every later
  time, after every sequence of operations in which this very key is not minted again.
\<close>

theorem key_refused_for_good:
  assumes ok: "accounts_ok db" and k: "k \<in> set (au_Keys db)" "ak_KeyHash k = HashKey sha raw"
    and gone: "RevokeKeyForUser (ak_UserID k) (ak_ID k) now db = Inr db' \<or>
      (ak_ProjectID k \<noteq> [] \<and> HashKey sha other \<noteq> HashKey sha raw \<and>
       issueWithRaw sha i (ak_UserID k) (ak_ProjectID k) (ak_AgentName k) other r ex now db = Inr (x, db'))"
    and ops: "\<forall>op \<in> set ops. \<not> mints sha (HashKey sha raw) op"
  shows "ValidateKeyWithRole sha t raw (fold (acc_exec sha) ops db') = None"
proof -
  note ks = accounts_okD(2) [OF ok]
  have only: "y = k" if "y \<in> set (au_Keys db)" "ak_KeyHash y = HashKey sha raw" for y using same_hash [OF ks k(1) that(1)] that(2) k(2) by simp
  from gone have "accounts_ok db' \<and> spent (HashKey sha raw) (au_Keys db')"
  proof
    assume r: "RevokeKeyForUser (ak_UserID k) (ak_ID k) now db = Inr db'"
    have "db' = acc_exec sha (OpRevokeForUser (ak_UserID k) (ak_ID k) now) db" using r by (simp add: after_op_def)
    moreover have "spent (HashKey sha raw) (au_Keys db')"
      using revoke_rows(1) [OF r] only by (auto simp: spent_def update_rows_def split: if_splits)
    ultimately show ?thesis using acc_exec_ok [OF ok] by metis
  next
    assume m: "ak_ProjectID k \<noteq> [] \<and> HashKey sha other \<noteq> HashKey sha raw \<and>
       issueWithRaw sha i (ak_UserID k) (ak_ProjectID k) (ak_AgentName k) other r ex now db = Inr (x, db')"
    then have "db' = acc_exec sha (OpIssue i (ak_UserID k) (ak_ProjectID k) (ak_AgentName k) other r ex now) db" by (simp add: after_op_def)
    moreover have "spent (HashKey sha raw) (au_Keys db')"
      using m by (auto dest!: issue_cases elim!: insert_key_cases) (auto simp: spent_def in_slot_def list_ex_iff k(1) split: if_splits dest: only)
    ultimately show ?thesis using acc_exec_ok [OF ok] by metis
  qed
  then show ?thesis using spent_run [of db' _ ops] ops by (blast intro: spent_refused)
qed

text \<open>A key row that a mint or an earlier row accounts for.\<close>

definition stands_for :: "APIKey \<Rightarrow> APIKey \<Rightarrow> bool" where
  "stands_for y x \<longleftrightarrow> ak_KeyHash y = ak_KeyHash x \<and> ak_UserID y = ak_UserID x \<and> ak_Role y = ak_Role x \<and> ak_ProjectID y = ak_ProjectID x"

lemma stands_for_simps [simp]: "stands_for x x"
  by (simp add: stands_for_def)

lemma stands_for_trans: "stands_for z y \<Longrightarrow> stands_for y x \<Longrightarrow> stands_for z x"
  by (simp add: stands_for_def)

lemma key_origin:
  "accounts_ok db \<Longrightarrow> x \<in> set (au_Keys (fold (acc_exec sha) ops db)) \<Longrightarrow>
     (\<exists>y \<in> set (au_Keys db). stands_for y x) \<or> (\<exists>op \<in> set ops. \<exists>k. minted_key sha op = Some k \<and> stands_for k x)"
proof (induction ops arbitrary: db)
  case (Cons op ops)
  have "x \<in> set (au_Keys (fold (acc_exec sha) ops (acc_exec sha op db)))" using Cons.prems(2) by simp
  from Cons.IH [OF acc_exec_ok [OF Cons.prems(1)] this]
  consider y where "y \<in> set (au_Keys (acc_exec sha op db))" "stands_for y x" | "\<exists>op \<in> set ops. \<exists>k. minted_key sha op = Some k \<and> stands_for k x" by blast
  then show ?case
  proof cases
    case 1
    then have "key_step (au_Keys db) (minted_key sha op) y" using acc_exec_step [OF accounts_okD(2) [OF Cons.prems(1)], of sha op] by blast
    from key_step_fields [OF this] have "minted_key sha op = Some y \<or> (\<exists>z \<in> set (au_Keys db). stands_for z y)" unfolding stands_for_def by blast
    then show ?thesis using 1(2) stands_for_trans by (metis list.set_intros(1))
  qed auto
qed (auto intro: bexI [of _ x])

text \<open>
  A key acts for who minted it. In every run a credential that is accepted as a key is one that was minted, and it
  carries the user, the role and the project it was minted for.
\<close>

theorem accepted_was_minted:
  assumes "ValidateKeyWithRole sha t raw (fold (acc_exec sha) ops no_accounts) = Some (u, role, p)"
  shows "\<exists>op \<in> set ops. \<exists>k. minted_key sha op = Some k \<and> ak_KeyHash k = HashKey sha raw \<and> ak_UserID k = am_ID u \<and> ak_Role k = role \<and> ak_ProjectID k = p"
proof -
  obtain x where "x \<in> set (au_Keys (fold (acc_exec sha) ops no_accounts))" "ak_KeyHash x = HashKey sha raw" "ak_UserID x = am_ID u" "ak_Role x = role" "ak_ProjectID x = p"
    using assms by (auto simp: ValidateKeyWithRole_def GetUserByID_def split: option.splits if_splits dest!: row_at_Some)
  then show ?thesis using key_origin [OF no_accounts_ok, of x sha ops] by (auto simp: no_accounts_def stands_for_def)
qed

section \<open>Sign-in\<close>

lemma find_map_keep:
  assumes "find P xs = Some u" and "\<And>x. x \<in> set xs \<Longrightarrow> P (f x) = P x"
  shows "find P (map f xs) = Some (f u)"
  using assms by (induction xs) (auto split: if_splits)

lemma by_identity_update:
  assumes "by_identity p s db = Some u" and "au_Users db' = fst (update_rows Q f (au_Users db))"
    and "\<And>x. am_Identity (f x) = am_Identity x" and "\<And>x. am_ID (f x) = am_ID x"
  shows "\<exists>v. by_identity p s db' = Some v \<and> am_ID v = am_ID u"
proof -
  have "by_identity p s db' = Some (if Q u then f u else u)"
    using find_map_keep [of "\<lambda>u. am_Identity u = Some (p, s)" "au_Users db" u "\<lambda>x. if Q x then f x else x"] assms
    by (simp add: by_identity_def update_rows_def)
  then show ?thesis using assms(4) by simp
qed

lemma by_identity_add:
  "by_identity p s db = Some u \<Longrightarrow> au_Users db' = au_Users db @ vs \<Longrightarrow> by_identity p s db' = Some u"
  unfolding by_identity_def by (simp add: find_append)

text \<open>A row that a sign-in writes keeps the identity it has.\<close>

lemma by_identity_set:
  assumes ok: "users_ok (au_Users db)" and u: "by_identity p s db = Some u" and v: "x \<in> set (au_Users db)" "am_ID v = am_ID x"
    and i: "\<And>q. am_Identity x = Some q \<Longrightarrow> am_Identity v = Some q" "am_Identity x = None \<Longrightarrow> am_Identity v \<noteq> Some (p, s)"
  shows "\<exists>w. by_identity p s (set_user v db) = Some w \<and> am_ID w = am_ID u"
proof -
  let ?f = "\<lambda>y. if am_ID y = am_ID v then v else y"
  have "(am_Identity (?f y) = Some (p, s)) = (am_Identity y = Some (p, s))" if "y \<in> set (au_Users db)" for y
  proof (cases "am_ID y = am_ID v")
    case True
    then have "y = x" using that v users_okD(1) [OF ok] by (auto simp: unique_key_def distinct_map dest: inj_onD)
    then show ?thesis using True i by (cases "am_Identity x") auto
  qed simp
  then have "by_identity p s (set_user v db) = Some (?f u)"
    using find_map_keep [of "\<lambda>u. am_Identity u = Some (p, s)" "au_Users db" u ?f] u by (simp add: by_identity_def set_user_def)
  then show ?thesis by simp
qed

lemma create_users:
  "\<exists>vs. au_Users (acc_exec sha (OpCreateUser i e n r now) db) = au_Users db @ vs \<and> (\<forall>v \<in> set vs. am_Role v = (if r = [] then RoleUser else r))"
proof (cases "canonical_email e = [] \<or> row_at am_Email (canonical_email e) (au_Users db) \<noteq> None \<or> GetUserByID db i \<noteq> None")
  case True
  then have "acc_exec sha (OpCreateUser i e n r now) db = db" by (auto simp: CreateUser_def after_op_def Let_def split: option.split)
  then show ?thesis by (intro exI [of _ "[]"]) simp
next
  case False
  then show ?thesis by (simp add: CreateUser_def after_op_def Let_def)
qed

lemma identity_step:
  assumes ok: "accounts_ok db" and u: "by_identity p s db = Some u"
  shows "\<exists>v. by_identity p s (acc_exec sha op db) = Some v \<and> am_ID v = am_ID u"
proof -
  have same: ?thesis if "au_Users (acc_exec sha op db) = au_Users db" using u that by (simp add: by_identity_def)
  have add: ?thesis if "au_Users (acc_exec sha op db) = au_Users db @ vs" for vs using by_identity_add [OF u that] by simp
  have upd: ?thesis if "au_Users (acc_exec sha op db) = fst (update_rows Q f (au_Users db))"
    "\<And>x. am_Identity (f x) = am_Identity x" "\<And>x. am_ID (f x) = am_ID x" for Q f using by_identity_update [OF u that] .
  show ?thesis
  proof (cases op)
    case (OpCreateUser i e n r now)
    show ?thesis using add create_users [of sha i e n r now db] by (auto simp: OpCreateUser)
  next
    case (OpSignIn p' s' e n as now)
    show ?thesis
    proof (cases "UpsertOAuthUser p' s' e n as now db")
      case (Inl e)
      then show ?thesis using same by (simp add: OpSignIn after_op_def)
    next
      case (Inr y)
      then obtain v db' where r: "UpsertOAuthUser p' s' e n as now db = Inr (v, db')" by (cases y) simp
      have x: "acc_exec sha op db = db'" by (simp add: OpSignIn r after_op_def)
      note users = accounts_okD(1) [OF ok]
      from r show ?thesis
      proof (cases rule: SignIn_cases)
        case (known w)
        note w = by_identity_Some [OF known(1)]
        show ?thesis unfolding x known(3) by (rule by_identity_set [OF users u w [THEN conjunct1]]) (use w known(2) in simp_all)
      next
        case (link w)
        note w = row_at_Some [OF link(2)]
        have "(p', s') \<noteq> (p, s)" using link(1) u by auto
        then show ?thesis unfolding x link(5) by (intro by_identity_set [OF users u w [THEN conjunct1]]) (use link(3,4) in simp_all)
      next
        case fresh
        then show ?thesis using by_identity_add [OF u, of db' "[v]"] by (simp add: x)
      qed
    qed
  next
    case (OpTouch t now)
    show ?thesis
    proof (cases "t = []")
      case True
      then show ?thesis using same by (simp add: OpTouch TouchLastSeen_def)
    next
      case False
      then have "au_Users (acc_exec sha op db) = fst (update_rows (\<lambda>u. am_ID u = t \<and> (case am_LastSeenAt u of None \<Rightarrow> True | Some t \<Rightarrow> t < now - 60 * second_ns))
        (\<lambda>u. u\<lparr>am_LastSeenAt := Some now\<rparr>) (au_Users db))" by (simp add: OpTouch TouchLastSeen_def)
      then show ?thesis by (rule upd) simp_all
    qed
  next
    case (OpPassword b t raw)
    show ?thesis
    proof (cases "SetPassword b t raw db")
      case (Inl e)
      then show ?thesis using same by (simp add: OpPassword after_op_def)
    next
      case (Inr db')
      then obtain h where "au_Users db' = fst (update_rows (\<lambda>u. am_ID u = t) (\<lambda>u. u\<lparr>am_PasswordHash := h\<rparr>) (au_Users db))"
        by (auto simp: SetPassword_def split: option.splits if_splits)
      then have "au_Users (acc_exec sha op db) = fst (update_rows (\<lambda>u. am_ID u = t) (\<lambda>u. u\<lparr>am_PasswordHash := h\<rparr>) (au_Users db))"
        by (simp add: OpPassword Inr after_op_def)
      then show ?thesis by (rule upd) simp_all
    qed
  next
    case (OpIssue i v q a raw r ex now)
    have "au_Users (acc_exec sha op db) = au_Users db" unfolding OpIssue by (rule issue_exec_users)
    then show ?thesis by (rule same)
  qed (use same revoke_users in simp_all)
qed


text \<open>
  C13: A sign-in identity is one account. An identity that belongs to an account belongs to it after every sequence of operations, and every later
  sign-in with the identity, under whatever email and name, that succeeds is of that account.
\<close>

theorem identity_sticks:
  assumes ok: "accounts_ok db" and u: "by_identity p s db = Some u"
  shows "\<exists>v. by_identity p s (fold (acc_exec sha) ops db) = Some v \<and> am_ID v = am_ID u \<and>
    (\<forall>e n as now w db'. UpsertOAuthUser p s e n as now (fold (acc_exec sha) ops db) = Inr (w, db') \<longrightarrow> am_ID w = am_ID u)"
proof -
  have "\<exists>v. by_identity p s (fold (acc_exec sha) ops db) = Some v \<and> am_ID v = am_ID u" using ok u
  proof (induction ops arbitrary: db u)
    case (Cons op ops)
    obtain v where v: "by_identity p s (acc_exec sha op db) = Some v" "am_ID v = am_ID u" using identity_step [OF Cons.prems] by blast
    then show ?case using Cons.IH [OF acc_exec_ok [OF Cons.prems(1)] v(1)] by auto
  qed simp
  then obtain v where v: "by_identity p s (fold (acc_exec sha) ops db) = Some v" "am_ID v = am_ID u" by blast
  have "am_ID w = am_ID u" if "UpsertOAuthUser p s e n as now (fold (acc_exec sha) ops db) = Inr (w, db')" for e n as now w db'
    using that v by (cases rule: SignIn_cases) auto
  then show ?thesis using v by blast
qed

fun grants_admin :: "account_op \<Rightarrow> bool" where
  "grants_admin (OpCreateUser i e n r now) \<longleftrightarrow> r = UserRoleAdmin"
| "grants_admin (OpSignIn p s e n as now) \<longleftrightarrow> wants_admin e as"
| "grants_admin op \<longleftrightarrow> False"

lemma promoted_role: "am_Role (promoted w n u) = (if w then UserRoleAdmin else am_Role u)"
  by (simp add: promoted_def)

lemma role_step:
  assumes "u \<in> set (au_Users (acc_exec sha op db))" and "am_Role u = UserRoleAdmin" and g: "\<not> grants_admin op"
  shows "\<exists>v \<in> set (au_Users db). am_Role v = UserRoleAdmin"
proof -
  have old: ?thesis if "u \<in> set (au_Users db)" using that assms(2) by blast
  have ne: "UserRoleAdmin \<noteq> RoleUser" by (simp add: UserRoleAdmin_def RoleUser_def)
  have upd: ?thesis if "u \<in> set (fst (update_rows P f (au_Users db)))" "\<And>x. am_Role (f x) = am_Role x" for P f
    using that assms(2) by (auto simp: update_rows_def split: if_splits)
  show ?thesis
  proof (cases op)
    case (OpCreateUser i e n r now)
    obtain vs where "au_Users (acc_exec sha op db) = au_Users db @ vs" "\<forall>v \<in> set vs. am_Role v = (if r = [] then RoleUser else r)"
      using create_users [of sha i e n r now db] by (auto simp: OpCreateUser)
    then show ?thesis using assms old ne by (auto simp: OpCreateUser split: if_splits)
  next
    case (OpSignIn p s e n as now)
    show ?thesis
    proof (cases "UpsertOAuthUser p s e n as now db")
      case (Inl x)
      then show ?thesis using assms(1) old by (simp add: OpSignIn after_op_def)
    next
      case (Inr y)
      then obtain v db' where r: "UpsertOAuthUser p s e n as now db = Inr (v, db')" by (cases y) simp
      have x: "u \<in> set (au_Users db')" using assms(1) by (simp add: OpSignIn r after_op_def)
      have w: "\<not> wants_admin e as" using g by (simp add: OpSignIn)
      from r show ?thesis
      proof (cases rule: SignIn_cases)
        case (known a)
        then show ?thesis using x old w assms(2) by_identity_Some [OF known(1)] by (auto simp: set_user_def promoted_role split: if_splits)
      next
        case (link a)
        then show ?thesis using x old w assms(2) row_at_Some [OF link(2)] by (auto simp: set_user_def promoted_role split: if_splits)
      next
        case fresh
        then show ?thesis using x old w assms(2) ne by auto
      qed
    qed
  next
    case (OpTouch t now)
    then show ?thesis using assms(1) old upd by (auto simp: TouchLastSeen_def split: if_splits)
  next
    case (OpPassword b t raw)
    then show ?thesis using assms(1) old upd by (auto simp: SetPassword_def after_op_def split: if_splits option.splits)
  next
    case (OpIssue i v q a raw r ex now)
    have "au_Users (acc_exec sha op db) = au_Users db" unfolding OpIssue by (rule issue_exec_users)
    then show ?thesis using assms(1) old by simp
  qed (use assms(1) old revoke_users in simp_all)
qed

lemma no_admins:
  "(\<And>op. op \<in> set ops \<Longrightarrow> \<not> grants_admin op) \<Longrightarrow> (\<And>v. v \<in> set (au_Users db) \<Longrightarrow> am_Role v \<noteq> UserRoleAdmin) \<Longrightarrow>
     u \<in> set (au_Users (fold (acc_exec sha) ops db)) \<Longrightarrow> am_Role u \<noteq> UserRoleAdmin"
proof (induction ops arbitrary: db)
  case (Cons op ops)
  have "am_Role v \<noteq> UserRoleAdmin" if "v \<in> set (au_Users (acc_exec sha op db))" for v
    using role_step [OF that] Cons.prems(1) [of op] Cons.prems(2) by auto
  then show ?case using Cons.IH [of "acc_exec sha op db"] Cons.prems by simp
qed simp

text \<open>
  C14: Administrators are appointed. In every run in which no administrator is created and no listed email signs in, no request with a token or a
  key is admitted as a global administrator.
\<close>

theorem admins_appointed:
  assumes "fst (Middleware tk secret t req (fold (acc_exec sha) ops no_accounts)) = Admitted ctx" and "callerIsGlobalAdmin ctx"
  shows "\<exists>op \<in> set ops. grants_admin op"
proof (rule ccontr)
  assume "\<not> (\<exists>op \<in> set ops. grants_admin op)"
  then have n: "u \<in> set (au_Users (fold (acc_exec sha) ops no_accounts)) \<Longrightarrow> am_Role u \<noteq> UserRoleAdmin" for u
    using no_admins [where ops = ops and db = no_accounts and sha = sha and u = u] by (auto simp: no_accounts_def)
  obtain c where c: "credential tk secret t (drop 7 (hq_Authorization req)) (fold (acc_exec sha) ops no_accounts) = Some c" "callerIsGlobalAdmin c"
    using assms by (auto simp: Middleware_def agentRoleFromHeader_def callerIsGlobalAdmin_def Let_def split: if_splits option.splits)
  have "UserRoleAdmin \<noteq> []" by (simp add: UserRoleAdmin_def)
  with c n show False
    by (auto simp: credential_def jwt_user_def plain_ctx_def callerIsGlobalAdmin_def ValidateKeyWithRole_def GetUserByID_def
        split: if_splits option.splits sum.splits dest!: row_at_Some)
qed

section \<open>What a key is worth\<close>

lemma fresh_row:
  assumes "insert_key k db = Some db'" and "ak_ProjectID k \<noteq> []" and "row_at ak_KeyHash (ak_KeyHash k) (au_Keys db') = Some x"
  shows "x = k \<and> GetUserByID db' (ak_UserID k) \<noteq> None"
  using assms(1)
proof (cases rule: insert_key_cases)
  case known
  then show ?thesis using assms(2) by simp
next
  case rotate
  have "x \<in> set (au_Keys db')" "ak_KeyHash x = ak_KeyHash k" using row_at_Some [OF assms(3)] by simp_all
  then show ?thesis using rotate(2,4,5) by (auto simp: GetUserByID_def split: if_splits)
next
  case fresh
  then show ?thesis using assms(3) by (simp add: GetUserByID_def)
qed

lemma issue_of_create:
  assumes "invokeAPIKeyCreate sha tn ctx req sfx rng now db = Inr (resp, db')"
  shows "\<exists>uid raw k. issueWithRaw sha (''apk_mcp_'' @ randomKeyIDSuffix sfx) uid (TrimSpace (kq_ProjectID req)) (TrimSpace (kq_AgentName req)) raw
      APIKeyRoleExecutor None now db = Inr ((raw, k), db') \<and> kp_APIKey resp = raw \<and> generateRawKey rng = Some raw"
proof -
  have "\<exists>uid raw k. IssueAPIKey sha (''apk_mcp_'' @ randomKeyIDSuffix sfx) uid (TrimSpace (kq_ProjectID req)) (TrimSpace (kq_AgentName req)) rng now db =
      Inr ((raw, k), db') \<and> kp_APIKey resp = raw"
    using assms unfolding invokeAPIKeyCreate_def Let_def
    by (simp only: split: if_splits option.splits sum.splits prod.splits) (force simp del: append_Cons append.simps)+
  then obtain uid raw k where i: "IssueAPIKey sha (''apk_mcp_'' @ randomKeyIDSuffix sfx) uid (TrimSpace (kq_ProjectID req)) (TrimSpace (kq_AgentName req)) rng now db =
      Inr ((raw, k), db')" "kp_APIKey resp = raw" by blast
  then obtain raw' where "generateRawKey rng = Some raw'" "issueWithRaw sha (''apk_mcp_'' @ randomKeyIDSuffix sfx) uid (TrimSpace (kq_ProjectID req))
      (TrimSpace (kq_AgentName req)) raw' APIKeyRoleExecutor None now db = Inr ((raw, k), db')"
    by (auto simp: IssueAPIKey_def split: option.splits)
  then show ?thesis using i(2) issue_cases by fastforce
qed

lemma key_floor:
  assumes "projectID \<noteq> []" and "apikey_grant ctx projectID = projectRoleRank PjRoleWrite"
  shows "projectRoleRank PjRoleWrite \<le> projectRoleRank (actualProjectRoleWS tn ctx ws projectID)"
proof -
  have r: "2 \<le> projectRoleRank (rankToProjectRole n)" if "2 \<le> n" for n
    using that by (simp add: projectRoleRank_def rankToProjectRole_def PjRoleAdmin_def PjRoleWrite_def)
  have ranks: "projectRoleRank PjRoleWrite = 2" "projectRoleRank PjRoleRead = 1" "projectRoleRank PjRoleAdmin = 3" by (simp_all add: projectRoleRank_def)
  have "2 \<le> raise_to 2 n" "\<not> raise_to 2 n < 1" for n by (simp_all add: raise_to_def)
  then have keep: "2 \<le> (if P \<and> Q \<and> raise_to 2 n < 1 \<and> R then 1 else raise_to 2 n)" for P Q R n by simp
  show ?thesis unfolding actualProjectRoleWS_def Let_def assms(2) ranks
    using assms(1) by (simp only: if_False if_True ranks refl r [OF keep] split: if_split) (simp add: ranks)
qed

lemma key_prefix: "HasPrefix (''Bearer '' @ raw) ''Bearer ''" "drop 7 (''Bearer '' @ raw) = raw"
  by simp_all

text \<open>
  C15: A member makes himself a writer. \<open>apikey_create\<close> asks for membership of the project's workspace only, in whatever role; the key it returns
  admits its holder to the role write of that project from then on, whatever becomes of the membership, unless the holder asks for less.
\<close>

theorem key_gives_write:
  assumes create: "invokeAPIKeyCreate (tk_sha256 tk) tn ctx req sfx rng now db = Inr (resp, db')"
    and project: "TrimSpace (kq_ProjectID req) \<noteq> []" and path: "\<not> HasPrefix path ''/oauth/''"
  shows "\<exists>ctx'. fst (Middleware tk secret t \<lparr>hq_Path = path, hq_Authorization = ''Bearer '' @ kp_APIKey resp, hq_AgentRole = [], hq_AgentProjects = []\<rparr> db') =
      Admitted ctx' \<and> (\<forall>tn' ws. projectRoleRank PjRoleWrite \<le> projectRoleRank (effectiveProjectRoleWS tn' ctx' ws (TrimSpace (kq_ProjectID req))))"
proof -
  let ?p = "TrimSpace (kq_ProjectID req)"
  obtain uid raw k where r: "issueWithRaw (tk_sha256 tk) (''apk_mcp_'' @ randomKeyIDSuffix sfx) uid ?p (TrimSpace (kq_AgentName req)) raw
      APIKeyRoleExecutor None now db = Inr ((raw, k), db')" and raw: "kp_APIKey resp = raw" "generateRawKey rng = Some raw"
    using issue_of_create [OF create] by blast
  note i = issue_cases [OF r]
  have k: "k = \<lparr>ak_ID = ''apk_mcp_'' @ randomKeyIDSuffix sfx, ak_UserID = uid, ak_ProjectID = ?p, ak_AgentName = TrimSpace (kq_AgentName req),
      ak_Role = APIKeyRoleExecutor, ak_KeyHash = HashKey (tk_sha256 tk) raw, ak_CreatedAt = now, ak_ExpiresAt = None, ak_RevokedAt = None\<rparr> \<and>
      GetUserByID db' uid \<noteq> None"
    using fresh_row [OF i [THEN conjunct1]] i project by simp
  obtain u where u: "GetUserByID db' uid = Some u" using k by blast
  have "\<not> LooksLikeJWT raw" using raw(2) by (auto simp: LooksLikeJWT_def generateRawKey_def)
  then have c: "credential tk secret t raw db' = Some ((plain_ctx (am_ID u) (am_Role u))\<lparr>cx_APIKeyRole := APIKeyRoleExecutor, cx_APIKeyProject := ?p\<rparr>)"
    using i k u by (simp add: credential_def ValidateKeyWithRole_def live_key_def)
  let ?ctx = "(plain_ctx (am_ID u) (am_Role u))\<lparr>cx_APIKeyRole := APIKeyRoleExecutor, cx_APIKeyProject := ?p\<rparr>"
  have "fst (Middleware tk secret t \<lparr>hq_Path = path, hq_Authorization = ''Bearer '' @ kp_APIKey resp, hq_AgentRole = [], hq_AgentProjects = []\<rparr> db') = Admitted ?ctx"
    using path c raw(1) key_prefix by (simp add: Middleware_def agentRoleFromHeader_def ToLower_def Let_def)
  moreover have "projectRoleRank PjRoleWrite \<le> projectRoleRank (effectiveProjectRoleWS tn' ?ctx ws ?p)" for tn' ws
  proof -
    have g: "apikey_grant ?ctx ?p = projectRoleRank PjRoleWrite" by (simp add: apikey_grant_def APIKeyRoleExecutor_def)
    have "cx_AgentRole ?ctx = None" by (simp add: plain_ctx_def)
    then show ?thesis using key_floor [OF project g] by (simp add: effectiveProjectRoleWS_def)
  qed
  ultimately show ?thesis by blast
qed

section \<open>A run\<close>

definition demo_ops :: "account_op list" where
  "demo_ops = [OpSignIn ''gh'' ''7'' ''a@b'' ''Ann'' [''a@b''] 0, OpIssue ''k1'' ''usr_oauth_gh_7'' ''p'' ''ci'' ''a'' ''executor'' None 5]"

definition demo_user :: Account where
  "demo_user = \<lparr>am_ID = ''usr_oauth_gh_7'', am_Email = ''a@b'', am_DisplayName = ''Ann'', am_Role = UserRoleAdmin, am_Identity = Some (''gh'', ''7''),
     am_PasswordHash = [], am_CreatedAt = 0, am_LastSeenAt = None\<rparr>"

definition demo_key :: APIKey where
  "demo_key = \<lparr>ak_ID = ''k1'', ak_UserID = ''usr_oauth_gh_7'', ak_ProjectID = ''p'', ak_AgentName = ''ci'', ak_Role = ''executor'', ak_KeyHash = ''61'',
     ak_CreatedAt = 5, ak_ExpiresAt = None, ak_RevokedAt = None\<rparr>"

lemma demo_facts: "canonical_email ''a@b'' = ''a@b''" "HashKey rev ''a'' = ''61''"
  by (code_simp, simp add: HashKey_def hex_def hex_digits)

lemma demo_accounts: "fold (acc_exec rev) demo_ops no_accounts = \<lparr>au_Users = [demo_user], au_Keys = [demo_key]\<rparr>"
  by (simp add: demo_ops_def demo_user_def demo_key_def no_accounts_def after_op_def UpsertOAuthUser_def by_identity_def GetUserByID_def
      wants_admin_def demo_facts issueWithRaw_def insert_key_def Let_def)

lemma demo_validates: "ValidateKeyWithRole rev 9 ''a'' (fold (acc_exec rev) demo_ops no_accounts) = Some (demo_user, ''executor'', ''p'')"
  unfolding demo_accounts by (simp add: ValidateKeyWithRole_def demo_facts live_key_def GetUserByID_def) (simp add: demo_key_def demo_user_def)

theorem key_refused_for_good_witness:
  "ValidateKeyWithRole rev 9 ''a'' \<lparr>au_Users = [demo_user], au_Keys = [demo_key\<lparr>ak_RevokedAt := Some 6\<rparr>]\<rparr> = None"
proof -
  let ?db = "fold (acc_exec rev) demo_ops no_accounts"
  have r: "RevokeKeyForUser (ak_UserID demo_key) (ak_ID demo_key) 6 ?db = Inr \<lparr>au_Users = [demo_user], au_Keys = [demo_key\<lparr>ak_RevokedAt := Some 6\<rparr>]\<rparr>"
    unfolding demo_accounts by (simp add: RevokeKeyForUser_def update_rows_def demo_key_def)
  have "accounts_ok ?db" by (rule runs_ok [OF no_accounts_ok])
  moreover have "demo_key \<in> set (au_Keys ?db)" "ak_KeyHash demo_key = HashKey rev ''a''" by (simp_all add: demo_accounts demo_facts demo_key_def)
  ultimately show ?thesis using key_refused_for_good [of ?db demo_key rev "''a''" 6 _ "[]" "[]" "[]" None "([], demo_key)" "[]" 9] r by force
qed

theorem accepted_was_minted_witness:
  "\<exists>op \<in> set demo_ops. \<exists>k. minted_key rev op = Some k \<and> ak_KeyHash k = ''61'' \<and> ak_UserID k = ''usr_oauth_gh_7'' \<and> ak_ProjectID k = ''p''"
  using accepted_was_minted [OF demo_validates] unfolding demo_facts by (force simp: demo_user_def)

theorem identity_sticks_witness:
  "by_identity ''gh'' ''7'' \<lparr>au_Users = [demo_user], au_Keys = [demo_key]\<rparr> \<noteq> None"
proof -
  have "by_identity ''gh'' ''7'' (fold (acc_exec rev) demo_ops no_accounts) = Some demo_user"
    by (simp add: demo_accounts by_identity_def demo_user_def)
  from identity_sticks [OF runs_ok [OF no_accounts_ok] this, of rev "[]"] show ?thesis unfolding demo_accounts by auto
qed

definition demo_request :: http_request where
  "demo_request = \<lparr>hq_Path = ''/mcp'', hq_Authorization = ''Bearer a'', hq_AgentRole = [], hq_AgentProjects = []\<rparr>"

theorem admins_appointed_witness:
  "\<exists>op \<in> set demo_ops. grants_admin op"
proof (rule admins_appointed)
  let ?tk = "demo_codec"
  have "credential ?tk [] 9 ''a'' (fold (acc_exec rev) demo_ops no_accounts) =
      Some ((plain_ctx ''usr_oauth_gh_7'' UserRoleAdmin)\<lparr>cx_APIKeyRole := ''executor'', cx_APIKeyProject := ''p''\<rparr>)"
    using demo_validates by (simp add: credential_def demo_codec_def demo_user_def)
  then show "fst (Middleware ?tk [] 9 demo_request (fold (acc_exec rev) demo_ops no_accounts)) =
      Admitted ((plain_ctx ''usr_oauth_gh_7'' UserRoleAdmin)\<lparr>cx_APIKeyRole := ''executor'', cx_APIKeyProject := ''p''\<rparr>)"
    by (simp add: Middleware_def demo_request_def agentRoleFromHeader_def ToLower_def Let_def)
qed (simp add: callerIsGlobalAdmin_def plain_ctx_def)

definition member_tenancy :: Tenancy where
  "member_tenancy = \<lparr>tn_AuthStore = True, tn_WorkspaceStore = True, tn_ProjectStore = True, tn_Workspaces = [],
     tn_Members = [\<lparr>wm_WorkspaceID = ''w'', wm_UserID = ''usr_oauth_gh_7'', wm_Role = ''member'', wm_AddedAt = 0, wm_AddedBy = []\<rparr>], tn_Mounts = [],
     tn_Projects = [\<lparr>pj_ID = ''q'', pj_WorkspaceID = ''w'', pj_Name = ''q'', pj_Description = [], pj_Type = [], pj_GitURLCanonical = [], pj_Tags = [],
       pj_Phase = [], pj_OwnerUserID = [], pj_Status = [], pj_CreatedAt = 0, pj_UpdatedAt = 0, pj_SeedMD = [], pj_SeedUpdatedAt = None, pj_NonRepo = True\<rparr>],
     tn_ProjectMembers = []\<rparr>"

definition member_request :: APIKeyCreateRequest where
  "member_request = \<lparr>kq_WorkspaceID = [], kq_ProjectID = ''q'', kq_AgentName = [], kq_Role = []\<rparr>"

text \<open>The member reads the project, and after one call and without any membership he writes it.\<close>

theorem key_gives_write_witness:
  "effectiveProjectRole member_tenancy (plain_ctx ''usr_oauth_gh_7'' ''user'') ''q'' = ''read'' \<and>
   (\<exists>resp db' ctx'. invokeAPIKeyCreate rev member_tenancy (plain_ctx ''usr_oauth_gh_7'' ''user'') member_request ''s'' (Some ''r'') 7
        \<lparr>au_Users = [demo_user\<lparr>am_Role := ''user''\<rparr>], au_Keys = []\<rparr> = Inr (resp, db') \<and>
      fst (Middleware demo_codec [] 9 \<lparr>hq_Path = ''/mcp'', hq_Authorization = ''Bearer '' @ kp_APIKey resp, hq_AgentRole = [], hq_AgentProjects = []\<rparr> db') = Admitted ctx' \<and>
      2 \<le> projectRoleRank (effectiveProjectRoleWS (member_tenancy\<lparr>tn_Members := []\<rparr>) ctx' [] ''q''))"
proof (intro conjI)
  show "effectiveProjectRole member_tenancy (plain_ctx ''usr_oauth_gh_7'' ''user'') ''q'' = ''read''" by code_simp
  let ?db = "\<lparr>au_Users = [demo_user\<lparr>am_Role := ''user''\<rparr>], au_Keys = []\<rparr>"
  have t: "TrimSpace ''q'' = ''q''" by code_simp
  have n: "normalizeAPIKeyRole [] = Inr APIKeyRoleExecutor" by code_simp
  have "\<exists>resp db'. invokeAPIKeyCreate rev member_tenancy (plain_ctx ''usr_oauth_gh_7'' ''user'') member_request ''s'' (Some ''r'') 7 ?db = Inr (resp, db')"
    by (simp add: invokeAPIKeyCreate_def member_request_def plain_ctx_def t n key_workspace_def IssueAPIKey_def generateRawKey_def issueWithRaw_def insert_key_def
        GetUserByID_def demo_user_def pjGetByID_def scanProject_def wsGetRole_def wm_key_def APIKeyRoleExecutor_def Let_def member_tenancy_def)
  then obtain resp db' where c: "invokeAPIKeyCreate (tk_sha256 demo_codec) member_tenancy (plain_ctx ''usr_oauth_gh_7'' ''user'') member_request ''s'' (Some ''r'') 7 ?db = Inr (resp, db')"
    by (auto simp: demo_codec_def)
  have p: "TrimSpace (kq_ProjectID member_request) = ''q''" by (simp add: member_request_def t)
  have "projectRoleRank PjRoleWrite = 2" by (simp add: projectRoleRank_def)
  then obtain ctx' where "fst (Middleware demo_codec [] 9 \<lparr>hq_Path = ''/mcp'', hq_Authorization = ''Bearer '' @ kp_APIKey resp, hq_AgentRole = [], hq_AgentProjects = []\<rparr> db') = Admitted ctx'"
    "2 \<le> projectRoleRank (effectiveProjectRoleWS (member_tenancy\<lparr>tn_Members := []\<rparr>) ctx' [] ''q'')"
    using key_gives_write [OF c, where path = "''/mcp''" and secret = "[]" and t = 9] unfolding p by auto
  then show "\<exists>resp db' ctx'. invokeAPIKeyCreate rev member_tenancy (plain_ctx ''usr_oauth_gh_7'' ''user'') member_request ''s'' (Some ''r'') 7 ?db = Inr (resp, db') \<and>
      fst (Middleware demo_codec [] 9 \<lparr>hq_Path = ''/mcp'', hq_Authorization = ''Bearer '' @ kp_APIKey resp, hq_AgentRole = [], hq_AgentProjects = []\<rparr> db') = Admitted ctx' \<and>
      2 \<le> projectRoleRank (effectiveProjectRoleWS (member_tenancy\<lparr>tn_Members := []\<rparr>) ctx' [] ''q'')"
    using c by (auto simp: demo_codec_def)
qed

end
