(* ===== verification/Login.thy ===== *)
theory Login
  imports AccountProps
begin

text \<open>
  Signing in (\<^verbatim>\<open>internal/server/login.go\<close>, \<^verbatim>\<open>oauth.go\<close>, \<^verbatim>\<open>redirect.go\<close>): the password form, the two ends of the trip to a provider, the
  session cookie they set and the pending authorization they complete. What the provider answers to the exchange and to
  the profile request is an argument, as are the comparison of a password with a hash, \<open>url.Parse\<close> and the random bytes.
  The provisioning hook is best effort and touches neither table here. Times are nanoseconds; the expiry of a cookie is in seconds.
\<close>

record login_env =
  le_cf :: oauth_config
  le_key :: string
  le_matches :: "string \<Rightarrow> string \<Rightarrow> bool"
  le_AdminEmails :: "string list"
  le_HasOAuthServer :: bool
  le_url :: "string \<Rightarrow> (string \<times> string) option"

datatype http_method = HttpGet | HttpPost | HttpOther

datatype login_response =
    LoginMethodNotAllowed
  | LoginForm "string option" string
  | LoginError int string
  | ToProvider string
  | ToClient response
  | SeeOther string

definition safeNext :: "login_env \<Rightarrow> string \<Rightarrow> string" where
  "safeNext env raw =
     (if raw = [] then ''/''
      else if \<not> HasPrefix raw ''/'' \<or> HasPrefix raw ''//'' then ''/''
      else if CHR 0x5C \<in> set raw then ''/''
      else case le_url env raw of
        None \<Rightarrow> ''/''
      | Some (scheme, host) \<Rightarrow> if scheme \<noteq> [] \<or> host \<noteq> [] then ''/'' else raw)"

text \<open>The cookie a response sets for a user.\<close>

definition session_cookie :: "login_env \<Rightarrow> string \<Rightarrow> int \<Rightarrow> string" where
  "session_cookie env userID now = Issue (cf_Codec (le_cf env)) (le_key env) userID (now div second_ns)"

text \<open>The user of a request, empty without a valid cookie (\<open>ResolveSessionUser\<close> in \<^verbatim>\<open>cmd/satellites-server/main.go\<close>).\<close>

definition resolveSessionUser :: "login_env \<Rightarrow> int \<Rightarrow> string option \<Rightarrow> string" where
  "resolveSessionUser env now cookie =
     (case UserID (cf_Codec (le_cf env)) (le_key env) (now div second_ns) cookie of None \<Rightarrow> [] | Some u \<Rightarrow> u)"

definition completeMCPSessionIfPresent ::
  "login_env \<Rightarrow> string option \<Rightarrow> string \<Rightarrow> int \<Rightarrow> string option \<Rightarrow> oauth_db \<Rightarrow> response option \<times> oauth_db" where
  "completeMCPSessionIfPresent env mcp userID now rng db =
     (case mcp of
        None \<Rightarrow> (None, db)
      | Some sessionID \<Rightarrow>
          (if sessionID = [] then (None, db)
           else if \<not> le_HasOAuthServer env then (None, db)
           else CompleteAuthorization (le_cf env) sessionID userID now rng db))"

text \<open>The end of both handlers: the cookie is set, a pending authorization completed.\<close>

definition signed_in_response ::
  "login_env \<Rightarrow> string option \<Rightarrow> string \<Rightarrow> string \<Rightarrow> int \<Rightarrow> string option \<Rightarrow> oauth_db \<Rightarrow> login_response \<times> string option \<times> oauth_db" where
  "signed_in_response env mcp userID dest now rng db =
     (case completeMCPSessionIfPresent env mcp userID now rng db of
        (Some r, db1) \<Rightarrow> (ToClient r, Some (session_cookie env userID now), db1)
      | (None, db1) \<Rightarrow> (SeeOther dest, Some (session_cookie env userID now), db1))"

section \<open>The password form\<close>

record login_form =
  lf_Email :: string
  lf_Password :: string
  lf_Next :: string

definition handleLoginPost ::
  "login_env \<Rightarrow> login_form option \<Rightarrow> string option \<Rightarrow> int \<Rightarrow> string option \<Rightarrow> accounts \<Rightarrow> oauth_db \<Rightarrow> login_response \<times> string option \<times> oauth_db" where
  "handleLoginPost env form mcp now rng acc db =
     (case form of
        None \<Rightarrow> (LoginError 400 ''bad form'', None, db)
      | Some f \<Rightarrow>
          (case VerifyPassword (le_matches env) acc (lf_Email f) (lf_Password f) of
             Inl InvalidPassword \<Rightarrow> (LoginForm (Some ''Invalid email or password.'') (safeNext env (lf_Next f)), None, db)
           | Inl e \<Rightarrow> (LoginError 500 ''login error'', None, db)
           | Inr u \<Rightarrow> signed_in_response env mcp (am_ID u) (safeNext env (lf_Next f)) now rng db))"

definition loginHandler ::
  "login_env \<Rightarrow> http_method \<Rightarrow> login_form option \<Rightarrow> string \<Rightarrow> string option \<Rightarrow> int \<Rightarrow> string option \<Rightarrow> accounts \<Rightarrow> oauth_db \<Rightarrow>
   login_response \<times> string option \<times> oauth_db" where
  "loginHandler env m form queryNext mcp now rng acc db =
     (case m of
        HttpGet \<Rightarrow> (LoginForm None (safeNext env queryNext), None, db)
      | HttpPost \<Rightarrow> handleLoginPost env form mcp now rng acc db
      | HttpOther \<Rightarrow> (LoginMethodNotAllowed, None, db))"

section \<open>The provider\<close>

record provider_info =
  pu_Sub :: string
  pu_Email :: string
  pu_DisplayName :: string

record callback_query =
  cq_Error :: string
  cq_State :: string
  cq_Code :: string

definition oauthStartHandler :: "bool \<Rightarrow> int \<Rightarrow> int \<Rightarrow> string option \<Rightarrow> oauth_db \<Rightarrow> login_response \<times> oauth_db" where
  "oauthStartHandler isGet ttl now rng db =
     (if \<not> isGet then (LoginMethodNotAllowed, db)
      else case MintState ttl now rng db of
        None \<Rightarrow> (LoginError 500 ''state mint failed'', db)
      | Some (state, db1) \<Rightarrow> (ToProvider state, db1))"

text \<open>
  \<open>exchange\<close> says whether the provider took the code, \<open>info\<close> is the profile it returned; \<open>dest\<close> is the cookie with the
  return target.
\<close>

definition oauthCallbackHandler ::
  "login_env \<Rightarrow> string \<Rightarrow> bool \<Rightarrow> callback_query \<Rightarrow> bool \<Rightarrow> provider_info option \<Rightarrow> string option \<Rightarrow> string option \<Rightarrow> int \<Rightarrow> string option \<Rightarrow>
   accounts \<Rightarrow> oauth_db \<Rightarrow> login_response \<times> string option \<times> accounts \<times> oauth_db" where
  "oauthCallbackHandler env provider isGet q exchange info dest mcp now rng acc db =
     (if \<not> isGet then (LoginMethodNotAllowed, None, acc, db)
      else if cq_Error q \<noteq> [] then (LoginError 400 (''oauth provider error: '' @ cq_Error q), None, acc, db)
      else case ConsumeState now (cq_State q) db of
        (Some e, db1) \<Rightarrow> (LoginError 400 ''invalid state'', None, acc, db1)
      | (None, db1) \<Rightarrow>
          if cq_Code q = [] then (LoginError 400 ''missing code'', None, acc, db1)
          else if \<not> exchange then (LoginError 502 ''token exchange failed'', None, acc, db1)
          else case info of
            None \<Rightarrow> (LoginError 502 ''userinfo fetch failed'', None, acc, db1)
          | Some p \<Rightarrow>
              if TrimSpace (pu_Email p) = [] \<or> TrimSpace (pu_Sub p) = [] then (LoginError 400 ''incomplete userinfo'', None, acc, db1)
              else case UpsertOAuthUser provider (pu_Sub p) (pu_Email p) (pu_DisplayName p) (le_AdminEmails env) now acc of
                Inl e \<Rightarrow> (LoginError 500 ''could not link account'', None, acc, db1)
              | Inr (u, acc1) \<Rightarrow>
                  (case signed_in_response env mcp (am_ID u) (case dest of None \<Rightarrow> ''/'' | Some d \<Rightarrow> safeNext env d) now rng db1 of
                     (r, cookie, db2) \<Rightarrow> (r, cookie, acc1, db2)))"

section \<open>What a cookie proves\<close>

text \<open>
  A request that arrived, as the two handlers see it, and what it takes to prove to be a user: the password of an account with one,
  or a live state the server minted and a profile whose identity is linked to the account.
\<close>

datatype login_event =
    ByPassword http_method "login_form option"
  | ByProvider string callback_query bool "provider_info option" int

fun proves_user :: "login_env \<Rightarrow> login_event \<Rightarrow> accounts \<Rightarrow> oauth_db \<Rightarrow> string \<Rightarrow> bool" where
  "proves_user env (ByPassword m form) acc db u \<longleftrightarrow> m = HttpPost \<and>
     (\<exists>f a. form = Some f \<and> a \<in> set (au_Users acc) \<and> am_ID a = u \<and> am_Email a = lf_Email f \<and> am_PasswordHash a \<noteq> [] \<and>
       le_matches env (am_PasswordHash a) (lf_Password f))"
| "proves_user env (ByProvider provider q exchange info now) acc db u \<longleftrightarrow> exchange \<and>
     (\<exists>e. (cq_State q, e) \<in> set (ob_States db) \<and> now \<le> e) \<and>
     (\<exists>p a. info = Some p \<and> TrimSpace (pu_Sub p) \<noteq> [] \<and> a \<in> set (au_Users acc) \<and> am_ID a = u \<and> am_Identity a = Some (provider, pu_Sub p))"

lemma password_proves: "VerifyPassword matches acc e raw = Inr u \<Longrightarrow>
    u \<in> set (au_Users acc) \<and> am_Email u = e \<and> am_PasswordHash u \<noteq> [] \<and> matches (am_PasswordHash u) raw"
  by (auto simp: VerifyPassword_def split: option.splits if_splits dest!: row_at_Some)

lemma signin_links:
  assumes "UpsertOAuthUser p s e n as now acc = Inr (u, acc')"
  shows "u \<in> set (au_Users acc') \<and> am_Identity u = Some (p, s)"
  using assms
proof (cases rule: SignIn_cases)
  case (known x)
  note x = by_identity_Some [OF known(1)]
  have "am_ID u = am_ID x" by (simp add: known(2))
  then have "u \<in> set (au_Users (set_user u acc))" using x by (auto simp: set_user_def image_iff intro!: bexI [of _ x])
  then show ?thesis using x by (simp add: known(2,3))
next
  case (link x)
  note x = row_at_Some [OF link(2)]
  have "am_ID u = am_ID x" by (simp add: link(4))
  then have "u \<in> set (au_Users (set_user u acc))" using x by (auto simp: set_user_def image_iff intro!: bexI [of _ x])
  then show ?thesis by (simp add: link(4,5))
next
  case fresh
  then show ?thesis by simp
qed

lemma consumed_live: "ConsumeState now i db = (None, db') \<Longrightarrow> \<exists>e. (i, e) \<in> set (ob_States db) \<and> now \<le> e"
  by (auto simp: ConsumeState_def split: if_splits option.splits dest!: row_at_Some)

text \<open>The only cookies the server sets are for users who proved to be them.\<close>

lemma login_sets_proven:
  assumes "loginHandler env m form next0 mcp now rng acc db = (r, Some cookie, db')"
  shows "\<exists>u. cookie = session_cookie env u now \<and> proves_user env (ByPassword m form) acc db u \<and>
    (\<exists>x. completeMCPSessionIfPresent env mcp u now rng db = (x, db'))"
proof -
  obtain f u where f: "m = HttpPost" "form = Some f" "VerifyPassword (le_matches env) acc (lf_Email f) (lf_Password f) = Inr u"
    and s: "signed_in_response env mcp (am_ID u) (safeNext env (lf_Next f)) now rng db = (r, Some cookie, db')"
    using assms by (auto simp: loginHandler_def handleLoginPost_def split: http_method.splits option.splits sum.splits auth_error.splits)
  have "cookie = session_cookie env (am_ID u) now" "\<exists>x. completeMCPSessionIfPresent env mcp (am_ID u) now rng db = (x, db')"
    using s by (auto simp: signed_in_response_def split: prod.splits option.splits)
  moreover have "proves_user env (ByPassword m form) acc db (am_ID u)" using password_proves [OF f(3)] f by auto
  ultimately show ?thesis by blast
qed

lemma login_quiet: "loginHandler env m form next0 mcp now rng acc db = (r, None, db') \<Longrightarrow> db' = db"
  by (auto simp: loginHandler_def handleLoginPost_def signed_in_response_def
      split: http_method.splits option.splits sum.splits auth_error.splits prod.splits)

lemma callback_cases:
  assumes "oauthCallbackHandler env provider g q x info dest mcp now rng acc db = (r, ck, acc', db')"
  obtains (refused) "ck = None" "acc' = acc" "db' = db \<or> db' = snd (ConsumeState now (cq_State q) db)"
  | (accepted) p u where "x" "info = Some p" "TrimSpace (pu_Sub p) \<noteq> []"
      "ConsumeState now (cq_State q) db = (None, snd (ConsumeState now (cq_State q) db))"
      "UpsertOAuthUser provider (pu_Sub p) (pu_Email p) (pu_DisplayName p) (le_AdminEmails env) now acc = Inr (u, acc')"
      "ck = Some (session_cookie env (am_ID u) now)"
      "\<exists>y. completeMCPSessionIfPresent env mcp (am_ID u) now rng (snd (ConsumeState now (cq_State q) db)) = (y, db')"
  using assms by (auto simp: oauthCallbackHandler_def signed_in_response_def split: if_splits prod.splits option.splits sum.splits)

lemma callback_sets_proven:
  assumes "oauthCallbackHandler env provider g q x info dest mcp now rng acc db = (r, Some cookie, acc', db')"
  shows "\<exists>u. cookie = session_cookie env u now \<and> proves_user env (ByProvider provider q x info now) acc' db u \<and>
    (\<exists>y. completeMCPSessionIfPresent env mcp u now rng (snd (ConsumeState now (cq_State q) db)) = (y, db'))"
  using assms
proof (cases rule: callback_cases)
  case (accepted p u)
  then show ?thesis using signin_links [OF accepted(5)] consumed_live [OF accepted(4)] by fastforce
qed simp

end
