(* ===== verification/OAuthProps.thy ===== *)
theory OAuthProps
  imports Login
begin

text \<open>
  The sign-in endpoints, the authorization endpoint and the token endpoint under interleaving. A grant reads a row, checks it and writes later,
  and any other requests may come between; the runs of the server are a step relation whose reachable states satisfy an invariant.
  Of the fields of the state that no table holds, \<open>wo_cookies\<close> are the session cookies the responses set, \<open>wo_log\<close> is every request that
  arrived at a sign-in handler, accepted or not, with the tables it met, and the last two are what was granted.
\<close>

record world =
  wo_acc :: accounts
  wo_db :: oauth_db
  wo_cookies :: "string list"
  wo_log :: "(login_event \<times> accounts \<times> oauth_db) list"
  wo_codes :: "(token_form \<times> OAuthCode) list"
  wo_refreshes :: "(token_form \<times> OAuthRefreshToken) list"
  wo_code_grants :: "(token_form \<times> OAuthCode) list"
  wo_refresh_grants :: "(token_form \<times> OAuthRefreshToken) list"

definition start :: world where
  "start = \<lparr>wo_acc = no_accounts, wo_db = \<lparr>ob_Clients = [], ob_Sessions = [], ob_Codes = [], ob_Refresh = [], ob_States = []\<rparr>,
     wo_cookies = [], wo_log = [], wo_codes = [], wo_refreshes = [], wo_code_grants = [], wo_refresh_grants = []\<rparr>"

fun issued :: "response \<Rightarrow> bool" where
  "issued (TokensIssued a r s n) = True"
| "issued r = False"

text \<open>
  A browser presents any text as its cookie, but the MAC of a user and an expiry only when the server has signed the two: without the
  key HMAC-SHA256 is not forged.
\<close>

definition unforged :: "login_env \<Rightarrow> string list \<Rightarrow> string option \<Rightarrow> bool" where
  "unforged env cookies cookie =
     (case cookie of
        None \<Rightarrow> True
      | Some v \<Rightarrow>
          (case split_at_char (CHR ''|'') v of
             [u, t, mac] \<Rightarrow>
               (case ParseInt64 t of
                  None \<Rightarrow> True
                | Some e \<Rightarrow> mac = computeMAC (cf_Codec (le_cf env)) (le_key env) u e \<longrightarrow>
                    sign (cf_Codec (le_cf env)) (le_key env) u e \<in> set cookies)
           | _ \<Rightarrow> True))"

inductive step :: "login_env \<Rightarrow> world \<Rightarrow> world \<Rightarrow> bool" for env where
  account: "step env w (w\<lparr>wo_acc := acc_exec sha op (wo_acc w)\<rparr>)"
| login: "loginHandler env m form next0 mcp now r1 (wo_acc w) (wo_db w) = (r, ck, db) \<Longrightarrow>
    step env w (w\<lparr>wo_db := db, wo_cookies := (case ck of None \<Rightarrow> [] | Some v \<Rightarrow> [v]) @ wo_cookies w,
      wo_log := (ByPassword m form, wo_acc w, wo_db w) # wo_log w\<rparr>)"
| leave: "oauthStartHandler g ttl now r1 (wo_db w) = (r, db) \<Longrightarrow> step env w (w\<lparr>wo_db := db\<rparr>)"
| callback: "oauthCallbackHandler env provider g cq x info dest mcp now r1 (wo_acc w) (wo_db w) = (r, ck, acc, db) \<Longrightarrow>
    step env w (w\<lparr>wo_acc := acc, wo_db := db, wo_cookies := (case ck of None \<Rightarrow> [] | Some v \<Rightarrow> [v]) @ wo_cookies w,
      wo_log := (ByProvider provider cq x info now, acc, wo_db w) # wo_log w\<rparr>)"
| register: "HandleRegister p body now r1 r2 (wo_db w) = (r, db) \<Longrightarrow> step env w (w\<lparr>wo_db := db\<rparr>)"
| authorize: "unforged env (wo_cookies w) cookie \<Longrightarrow>
    HandleAuthorize (le_cf env) g (resolveSessionUser env now cookie) q now r1 r2 (wo_db w) = (r, db) \<Longrightarrow> step env w (w\<lparr>wo_db := db\<rparr>)"
| code_read: "code_checked (le_cf env) (wo_db w) now f = Inr c \<Longrightarrow> step env w (w\<lparr>wo_codes := (f, c) # wo_codes w\<rparr>)"
| code_write: "(f, c) \<in> set (wo_codes w) \<Longrightarrow> code_granted (le_cf env) base c now r1 (wo_db w) = (r, db) \<Longrightarrow>
    step env w (w\<lparr>wo_db := db, wo_codes := remove1 (f, c) (wo_codes w),
      wo_code_grants := (if issued r then (f, c) # wo_code_grants w else wo_code_grants w)\<rparr>)"
| refresh_read: "refresh_checked (wo_db w) now f = Inr t \<Longrightarrow> step env w (w\<lparr>wo_refreshes := (f, t) # wo_refreshes w\<rparr>)"
| refresh_write: "(f, t) \<in> set (wo_refreshes w) \<Longrightarrow> refresh_granted (le_cf env) base t now r1 (wo_db w) = (r, db) \<Longrightarrow>
    step env w (w\<lparr>wo_db := db, wo_refreshes := remove1 (f, t) (wo_refreshes w),
      wo_refresh_grants := (if issued r then (f, t) # wo_refresh_grants w else wo_refresh_grants w)\<rparr>)"

inductive reachable :: "login_env \<Rightarrow> world \<Rightarrow> bool" for env where
  init: "reachable env start"
| run: "reachable env w \<Longrightarrow> step env w w' \<Longrightarrow> reachable env w'"

section \<open>What the operations do to the codes\<close>

lemma db_frames [simp]:
  "ob_Codes (SaveClient c db) = ob_Codes db" "ob_Refresh (SaveClient c db) = ob_Refresh db"
  "ob_Codes (DeleteSession i db) = ob_Codes db" "ob_Refresh (DeleteSession i db) = ob_Refresh db"
  "ob_Codes (DeleteRefreshToken t db) = ob_Codes db"
  "ob_Refresh (DeleteRefreshToken t db) = filter (\<lambda>r. rf_Token r \<noteq> t) (ob_Refresh db)"
  by (simp_all add: SaveClient_def DeleteSession_def DeleteRefreshToken_def delete_rows_def)

lemma mint_frames: "MintState ttl now r db = Some (s, db') \<Longrightarrow> ob_Codes db' = ob_Codes db \<and> ob_Refresh db' = ob_Refresh db"
  by (auto simp: MintState_def Let_def split: option.splits if_splits)

lemma consume_frames:
  "ob_Codes (snd (ConsumeState now i db)) = ob_Codes db" "ob_Refresh (snd (ConsumeState now i db)) = ob_Refresh db"
  by (auto simp: ConsumeState_def split: option.splits)

text \<open>\<open>adds_code user db db'\<close>: at most one fresh, unused code for the user is added, and no refresh token.\<close>

definition adds_code :: "string \<Rightarrow> oauth_db \<Rightarrow> oauth_db \<Rightarrow> bool" where
  "adds_code user db db' \<longleftrightarrow> ob_Refresh db' = ob_Refresh db \<and> (ob_Codes db' = ob_Codes db \<or>
     (\<exists>c. ob_Codes db' = ob_Codes db @ [c] \<and> row_at ac_Code (ac_Code c) (ob_Codes db) = None \<and> \<not> ac_Used c \<and> ac_UserID c = user))"

lemma adds_no_code: "ob_Codes db' = ob_Codes db \<Longrightarrow> ob_Refresh db' = ob_Refresh db \<Longrightarrow> adds_code user db db'"
  by (simp add: adds_code_def)

lemma adds_rows: "adds_code user db db' \<Longrightarrow> c \<in> set (ob_Codes db') \<Longrightarrow> c \<in> set (ob_Codes db) \<or> ac_UserID c = user"
  by (auto simp: adds_code_def)

lemma complete_adds: "CompleteAuthorization cf sid user now r db = (x, db') \<Longrightarrow> adds_code user db db'"
  by (auto simp: CompleteAuthorization_def SaveCode_def adds_code_def split: option.splits if_splits)

lemma session_adds: "completeMCPSessionIfPresent env mcp user now r db = (x, db') \<Longrightarrow> adds_code user db db'"
  by (auto simp: completeMCPSessionIfPresent_def adds_no_code split: option.splits if_splits dest: complete_adds)

text \<open>The authorization endpoint writes a code for the user of the request, and none without one.\<close>

definition authorizes :: "string \<Rightarrow> oauth_db \<Rightarrow> oauth_db \<Rightarrow> bool" where
  "authorizes user db db' \<longleftrightarrow> adds_code user db db' \<and> (user = [] \<longrightarrow> ob_Codes db' = ob_Codes db)"

lemma authorizes_frame: "ob_Codes db' = ob_Codes db \<Longrightarrow> ob_Refresh db' = ob_Refresh db \<Longrightarrow> authorizes user db db'"
  by (simp add: authorizes_def adds_no_code)

lemma authorizes_after: "ob_Codes db1 = ob_Codes db \<and> ob_Refresh db1 = ob_Refresh db \<Longrightarrow> authorizes user db1 db' \<Longrightarrow> authorizes user db db'"
  by (simp add: authorizes_def adds_code_def)

lemma cookie_adds: "setSessionCookieAndRedirect cf user sid now r db = (x, db') \<Longrightarrow> authorizes user db db'"
  by (auto simp: setSessionCookieAndRedirect_def authorizes_def adds_no_code split: if_splits prod.splits option.splits dest: complete_adds)

lemma session_frames: "createAuthSession q now r db = (x, db') \<Longrightarrow> ob_Codes db' = ob_Codes db \<and> ob_Refresh db' = ob_Refresh db"
  by (auto simp: createAuthSession_def SaveSession_def Let_def split: option.splits if_splits)

lemma authorize_adds: "HandleAuthorize cf g user q now r1 r2 db = (x, db') \<Longrightarrow> authorizes user db db'"
  unfolding HandleAuthorize_def
  by (auto split: if_splits option.splits prod.splits sum.splits intro: authorizes_frame authorizes_after
      dest: cookie_adds dest!: session_frames)

lemma register_frames: "HandleRegister p b now r1 r2 db = (x, db') \<Longrightarrow> ob_Codes db' = ob_Codes db \<and> ob_Refresh db' = ob_Refresh db"
  by (auto simp: HandleRegister_def Let_def split: if_splits option.splits)

lemma leave_frames: "oauthStartHandler g ttl now r db = (x, db') \<Longrightarrow> ob_Codes db' = ob_Codes db \<and> ob_Refresh db' = ob_Refresh db"
  by (auto simp: oauthStartHandler_def split: if_splits option.splits dest: mint_frames)

lemma issue_frames:
  assumes "issue_tokens cf base user client scope now r db = (x, db')"
  shows "ob_Codes db' = ob_Codes db \<and> (ob_Refresh db' = ob_Refresh db \<or>
    (\<exists>t. ob_Refresh db' = ob_Refresh db @ [t] \<and> rf_UserID t = user \<and> rf_ClientID t = client \<and> rf_Scope t = scope))"
  using assms by (auto simp: issue_tokens_def SaveRefreshToken_def split: option.splits if_splits)

section \<open>The invariant of the grants\<close>

text \<open>Two states of one code differ in the mark only.\<close>

definition same_code :: "OAuthCode \<Rightarrow> OAuthCode \<Rightarrow> bool" where
  "same_code a b \<longleftrightarrow> a\<lparr>ac_Used := False\<rparr> = b\<lparr>ac_Used := False\<rparr>"

lemma same_code_fields:
  "same_code a b \<Longrightarrow> ac_Code a = ac_Code b \<and> ac_ClientID a = ac_ClientID b \<and> ac_UserID a = ac_UserID b \<and>
     ac_RedirectURI a = ac_RedirectURI b \<and> ac_CodeChallenge a = ac_CodeChallenge b \<and> ac_Scope a = ac_Scope b"
  unfolding same_code_def by (cases a; cases b) simp

lemma same_code_simps [simp]: "same_code a a" "same_code (a\<lparr>ac_Used := u\<rparr>) b = same_code a b" "same_code b (a\<lparr>ac_Used := u\<rparr>) = same_code b a"
  by (simp_all add: same_code_def)

lemma same_code_trans: "same_code a b \<Longrightarrow> same_code b c \<Longrightarrow> same_code a c"
  by (simp add: same_code_def)

text \<open>What a passed check says of form and code.\<close>

definition proves :: "oauth_config \<Rightarrow> token_form \<Rightarrow> OAuthCode \<Rightarrow> bool" where
  "proves cf f c \<longleftrightarrow> tf_Code f = ac_Code c \<and> tf_ClientID f = ac_ClientID c \<and> tf_RedirectURI f = ac_RedirectURI c \<and>
     VerifyPKCE (cf_Codec cf) (tf_CodeVerifier f) (ac_CodeChallenge c)"

text \<open>The code a refresh token goes back to.\<close>

definition for_grant :: "OAuthCode list \<Rightarrow> OAuthRefreshToken \<Rightarrow> bool" where
  "for_grant codes t \<longleftrightarrow> (\<exists>c \<in> set codes. ac_Used c \<and> ac_UserID c = rf_UserID t \<and> ac_ClientID c = rf_ClientID t \<and> ac_Scope c = rf_Scope t)"

definition inv :: "oauth_config \<Rightarrow> world \<Rightarrow> bool" where
  "inv cf w \<longleftrightarrow>
     unique_key ac_Code (ob_Codes (wo_db w)) \<and>
     (\<forall>f c. (f, c) \<in> set (wo_codes w @ wo_code_grants w) \<longrightarrow> proves cf f c \<and> (\<exists>row \<in> set (ob_Codes (wo_db w)). same_code row c)) \<and>
     (\<forall>f c row. (f, c) \<in> set (wo_code_grants w) \<longrightarrow> row \<in> set (ob_Codes (wo_db w)) \<longrightarrow> ac_Code row = ac_Code c \<longrightarrow> ac_Used row) \<and>
     distinct (map (ac_Code \<circ> snd) (wo_code_grants w)) \<and>
     (\<forall>t \<in> set (ob_Refresh (wo_db w)) \<union> snd ` set (wo_refreshes w @ wo_refresh_grants w). for_grant (ob_Codes (wo_db w)) t)"

lemma inv_start: "inv cf start"
  by (simp add: inv_def start_def unique_key_def)

lemma invI:
  assumes "unique_key ac_Code (ob_Codes (wo_db w))"
    and "\<And>f c. (f, c) \<in> set (wo_codes w @ wo_code_grants w) \<Longrightarrow> proves cf f c \<and> (\<exists>row \<in> set (ob_Codes (wo_db w)). same_code row c)"
    and "\<And>f c row. (f, c) \<in> set (wo_code_grants w) \<Longrightarrow> row \<in> set (ob_Codes (wo_db w)) \<Longrightarrow> ac_Code row = ac_Code c \<Longrightarrow> ac_Used row"
    and "distinct (map (ac_Code \<circ> snd) (wo_code_grants w))"
    and "\<And>t. t \<in> set (ob_Refresh (wo_db w)) \<union> snd ` set (wo_refreshes w @ wo_refresh_grants w) \<Longrightarrow> for_grant (ob_Codes (wo_db w)) t"
  shows "inv cf w"
  using assms unfolding inv_def by blast

lemma inv_key: "inv cf w \<Longrightarrow> unique_key ac_Code (ob_Codes (wo_db w))"
  unfolding inv_def by (elim conjE)

lemma inv_proof: "inv cf w \<Longrightarrow> (f, c) \<in> set (wo_codes w @ wo_code_grants w) \<Longrightarrow>
    proves cf f c \<and> (\<exists>row \<in> set (ob_Codes (wo_db w)). same_code row c)"
  unfolding inv_def by (elim conjE, drule spec, drule spec, drule (1) mp, assumption)

lemma inv_used: "inv cf w \<Longrightarrow> (f, c) \<in> set (wo_code_grants w) \<Longrightarrow> row \<in> set (ob_Codes (wo_db w)) \<Longrightarrow> ac_Code row = ac_Code c \<Longrightarrow> ac_Used row"
  unfolding inv_def by metis

lemma inv_distinct: "inv cf w \<Longrightarrow> distinct (map (ac_Code \<circ> snd) (wo_code_grants w))"
  unfolding inv_def by (elim conjE)

lemma inv_refresh: "inv cf w \<Longrightarrow> t \<in> set (ob_Refresh (wo_db w)) \<union> snd ` set (wo_refreshes w @ wo_refresh_grants w) \<Longrightarrow>
    for_grant (ob_Codes (wo_db w)) t"
  unfolding inv_def by (elim conjE, drule (1) bspec, assumption)

lemmas invD = inv_key inv_proof inv_used inv_distinct inv_refresh

lemma inv_saved: "inv cf w \<Longrightarrow> t \<in> set (ob_Refresh (wo_db w)) \<Longrightarrow> for_grant (ob_Codes (wo_db w)) t"
  by (rule inv_refresh [where cf = cf]) simp_all

lemma for_grant_more: "for_grant codes t \<Longrightarrow> for_grant (codes @ ys) t"
  by (auto simp: for_grant_def)

lemma for_grant_map:
  assumes "for_grant codes t" and "\<And>x. same_code (m x) x" "\<And>x. ac_Used x \<Longrightarrow> ac_Used (m x)"
  shows "for_grant (map m codes) t"
proof -
  obtain c where c: "c \<in> set codes" "ac_Used c" "ac_UserID c = rf_UserID t" "ac_ClientID c = rf_ClientID t" "ac_Scope c = rf_Scope t"
    using assms(1) by (auto simp: for_grant_def)
  then show ?thesis using assms(3) [OF c(2)] same_code_fields [OF assms(2) [of c]] by (auto simp: for_grant_def)
qed

text \<open>A step outside the token endpoint keeps the grants and writes at most a code.\<close>

definition same_grants :: "world \<Rightarrow> world \<Rightarrow> bool" where
  "same_grants w w' \<longleftrightarrow> wo_codes w' = wo_codes w \<and> wo_refreshes w' = wo_refreshes w \<and> wo_code_grants w' = wo_code_grants w \<and>
     wo_refresh_grants w' = wo_refresh_grants w"

lemma inv_adds:
  assumes i: "inv cf w" and a: "adds_code user (wo_db w) (wo_db w')" and s: "same_grants w w'"
  shows "inv cf w'"
proof (cases "ob_Codes (wo_db w') = ob_Codes (wo_db w)")
  case True
  then have "ob_Refresh (wo_db w') = ob_Refresh (wo_db w)" using a by (simp add: adds_code_def)
  then show ?thesis using i s True by (simp add: inv_def same_grants_def)
next
  case False
  then obtain c where c: "ob_Codes (wo_db w') = ob_Codes (wo_db w) @ [c]" "\<forall>row \<in> set (ob_Codes (wo_db w)). ac_Code row \<noteq> ac_Code c"
    and r: "ob_Refresh (wo_db w') = ob_Refresh (wo_db w)" using a by (auto simp: adds_code_def row_at_None)
  note d = invD [where cf = cf and w = w, OF i]
  have s': "wo_codes w' = wo_codes w" "wo_refreshes w' = wo_refreshes w" "wo_code_grants w' = wo_code_grants w"
    "wo_refresh_grants w' = wo_refresh_grants w" using s by (simp_all add: same_grants_def)
  have free: "ac_Code c \<noteq> ac_Code c'" if "(f, c') \<in> set (wo_code_grants w)" for f c'
  proof -
    have "(f, c') \<in> set (wo_codes w @ wo_code_grants w)" using that by simp
    then obtain row where "row \<in> set (ob_Codes (wo_db w))" "same_code row c'" using d(2) by blast
    then show ?thesis using c(2) same_code_fields by metis
  qed
  show ?thesis
  proof (rule invI)
    show "unique_key ac_Code (ob_Codes (wo_db w'))" using d(1) c(2) by (auto simp: c(1) unique_key_def)
  next
    fix f x assume "(f, x) \<in> set (wo_codes w' @ wo_code_grants w')"
    then show "proves cf f x \<and> (\<exists>row \<in> set (ob_Codes (wo_db w')). same_code row x)" using d(2) [of f x] by (auto simp: c(1) s')
  next
    fix f x row assume x: "(f, x) \<in> set (wo_code_grants w')" "row \<in> set (ob_Codes (wo_db w'))" "ac_Code row = ac_Code x"
    then have "row \<in> set (ob_Codes (wo_db w))" using free [of f x] by (auto simp: c(1) s')
    then show "ac_Used row" using x d(3) [of f x row] by (simp add: s')
  qed (use d(4,5) for_grant_more in \<open>auto simp: c(1) r s'\<close>)
qed

lemma mark_codes:
  assumes "MarkCodeUsed code db = Some db'"
  shows "(\<exists>row \<in> set (ob_Codes db). ac_Code row = code \<and> \<not> ac_Used row) \<and> ob_Refresh db' = ob_Refresh db \<and>
    ob_Codes db' = map (\<lambda>c. if ac_Code c = code \<and> \<not> ac_Used c then c\<lparr>ac_Used := True\<rparr> else c) (ob_Codes db)"
proof -
  have "0 < snd (update_rows (\<lambda>c. ac_Code c = code \<and> \<not> ac_Used c) (\<lambda>c. c\<lparr>ac_Used := True\<rparr>) (ob_Codes db))"
    using assms by (auto simp: MarkCodeUsed_def split: prod.splits if_splits)
  then show ?thesis using assms unfolding update_rows_count by (auto simp: MarkCodeUsed_def update_rows_def split: if_splits)
qed

text \<open>The codes are changed in their mark only, and a new grant is of a code without one.\<close>

lemma inv_change:
  assumes i: "inv cf w"
    and codes: "ob_Codes (wo_db w') = map m (ob_Codes (wo_db w))" "\<And>x. same_code (m x) x" "\<And>x. ac_Used x \<Longrightarrow> ac_Used (m x)"
    and read: "\<And>f c. (f, c) \<in> set (wo_codes w') \<Longrightarrow> (f, c) \<in> set (wo_codes w) \<or> (proves cf f c \<and> c \<in> set (ob_Codes (wo_db w)))"
    and grants: "wo_code_grants w' = wo_code_grants w \<or> (\<exists>p \<in> set (wo_codes w). wo_code_grants w' = p # wo_code_grants w \<and>
      (\<exists>row \<in> set (ob_Codes (wo_db w)). ac_Code row = ac_Code (snd p) \<and> \<not> ac_Used row) \<and>
      (\<forall>row. ac_Code row = ac_Code (snd p) \<longrightarrow> ac_Used (m row)))"
    and saved: "\<And>t. t \<in> set (ob_Refresh (wo_db w')) \<Longrightarrow> for_grant (ob_Codes (wo_db w')) t"
    and refresh: "\<And>f t. (f, t) \<in> set (wo_refreshes w' @ wo_refresh_grants w') \<Longrightarrow>
      (f, t) \<in> set (wo_refreshes w @ wo_refresh_grants w) \<or> t \<in> set (ob_Refresh (wo_db w))"
  shows "inv cf w'"
proof -
  note d = invD [where cf = cf and w = w, OF i]
  have k: "ac_Code (m x) = ac_Code x" for x using same_code_fields [OF codes(2)] by simp
  have rd: "proves cf f c \<and> (\<exists>row \<in> set (ob_Codes (wo_db w)). same_code row c)" if "(f, c) \<in> set (wo_codes w' @ wo_code_grants w')" for f c
    using that read [of f c] grants d(2) [of f c] by (cases "(f, c) \<in> set (wo_codes w @ wo_code_grants w)") (auto intro: bexI [of _ c])
  show ?thesis
  proof (rule invI)
    show "unique_key ac_Code (ob_Codes (wo_db w'))" using d(1) k by (simp add: unique_key_def codes(1) comp_def)
  next
    fix f c assume "(f, c) \<in> set (wo_codes w' @ wo_code_grants w')"
    then show "proves cf f c \<and> (\<exists>row \<in> set (ob_Codes (wo_db w')). same_code row c)"
      using rd [of f c] same_code_trans [OF codes(2)] unfolding codes(1) by auto
  next
    fix f c row assume a: "(f, c) \<in> set (wo_code_grants w')" "row \<in> set (ob_Codes (wo_db w'))" "ac_Code row = ac_Code c"
    then obtain x where x: "x \<in> set (ob_Codes (wo_db w))" "row = m x" "ac_Code x = ac_Code c" using k unfolding codes(1) by auto
    show "ac_Used row"
    proof (cases "(f, c) \<in> set (wo_code_grants w)")
      case True
      then show ?thesis using d(3) x codes(3) by blast
    next
      case False
      then show ?thesis using grants a(1) x by auto
    qed
  next
    show "distinct (map (ac_Code \<circ> snd) (wo_code_grants w'))"
    proof (cases "wo_code_grants w' = wo_code_grants w")
      case False
      then obtain p where p: "wo_code_grants w' = p # wo_code_grants w" "\<exists>row \<in> set (ob_Codes (wo_db w)). ac_Code row = ac_Code (snd p) \<and> \<not> ac_Used row"
        using grants by blast
      then have "ac_Code (snd p) \<noteq> ac_Code (snd q)" if "q \<in> set (wo_code_grants w)" for q
        using d(3) [of "fst q" "snd q"] that by auto
      then show ?thesis using d(4) p(1) by auto
    qed (use d(4) in simp)
  next
    fix t assume "t \<in> set (ob_Refresh (wo_db w')) \<union> snd ` set (wo_refreshes w' @ wo_refresh_grants w')"
    then have "t \<in> set (ob_Refresh (wo_db w')) \<or> t \<in> set (ob_Refresh (wo_db w)) \<union> snd ` set (wo_refreshes w @ wo_refresh_grants w)"
      using refresh by fastforce
    then show "for_grant (ob_Codes (wo_db w')) t" using saved for_grant_map [OF d(5) codes(2,3)] unfolding codes(1) by blast
  qed
qed

lemma issue_refresh:
  assumes "issue_tokens cf base user client scope now r db = (x, db')" and "t \<in> set (ob_Refresh db')"
  shows "t \<in> set (ob_Refresh db) \<or> (rf_UserID t = user \<and> rf_ClientID t = client \<and> rf_Scope t = scope)"
  using issue_frames [OF assms(1)] assms(2) by auto

lemma same_rows [simp]: "map (\<lambda>x. x) xs = xs"
  by simp

lemma in_remove1: "x \<in> set (remove1 y xs) \<Longrightarrow> x \<in> set xs"
  by (rule set_remove1_subset [THEN subsetD])

text \<open>The write of a code grant.\<close>

lemma inv_code_write:
  assumes i: "inv cf w" and m: "(f, c) \<in> set (wo_codes w)" and g: "code_granted cf base c now r1 (wo_db w) = (r, db)"
  shows "inv cf (w\<lparr>wo_db := db, wo_codes := remove1 (f, c) (wo_codes w),
      wo_code_grants := (if issued r then (f, c) # wo_code_grants w else wo_code_grants w)\<rparr>)" (is "inv cf ?w")
proof (cases "MarkCodeUsed (ac_Code c) (wo_db w)")
  case None
  then have "db = wo_db w" "\<not> issued r" using g by (auto simp: code_granted_def)
  then show ?thesis using inv_saved [OF i] by (intro inv_change [where w = w and m = "\<lambda>x. x", OF i]) (auto dest: in_remove1)
next
  case (Some db1)
  note k = mark_codes [OF Some]
  let ?m = "\<lambda>x. if ac_Code x = ac_Code c \<and> \<not> ac_Used x then x\<lparr>ac_Used := True\<rparr> else x"
  have t: "issue_tokens cf base (ac_UserID c) (ac_ClientID c) (ac_Scope c) now r1 db1 = (r, db)" using g Some by (simp add: code_granted_def)
  have o: "ob_Codes db = map ?m (ob_Codes (wo_db w))" using issue_frames [OF t] k by simp
  obtain row where row: "row \<in> set (ob_Codes (wo_db w))" "same_code row c" using invD(2) [OF i, of f c] m by auto
  have mem: "?m row \<in> set (ob_Codes db)" using row(1) unfolding o by simp
  have new: "for_grant (ob_Codes db) x" if x: "rf_UserID x = ac_UserID c" "rf_ClientID x = ac_ClientID c" "rf_Scope x = ac_Scope c" for x
    unfolding for_grant_def by (rule bexI [OF _ mem]) (simp add: x same_code_fields [OF row(2)])
  have old: "for_grant (ob_Codes db) x" if "x \<in> set (ob_Refresh (wo_db w))" for x
    unfolding o by (rule for_grant_map [OF inv_saved [OF i that]]) simp_all
  have n: "for_grant (ob_Codes db) x" if "x \<in> set (ob_Refresh db)" for x
    using issue_refresh [OF t that] k new old by auto
  show ?thesis
  proof (rule inv_change [where w = w and m = ?m, OF i])
    show "ob_Codes (wo_db ?w) = map ?m (ob_Codes (wo_db w))" using o by simp
    show "wo_code_grants ?w = wo_code_grants w \<or> (\<exists>p \<in> set (wo_codes w). wo_code_grants ?w = p # wo_code_grants w \<and>
      (\<exists>row \<in> set (ob_Codes (wo_db w)). ac_Code row = ac_Code (snd p) \<and> \<not> ac_Used row) \<and>
      (\<forall>row. ac_Code row = ac_Code (snd p) \<longrightarrow> ac_Used (?m row)))"
      using m k by (cases "issued r") (auto intro!: bexI [of _ "(f, c)"])
  qed (use n in \<open>auto dest: in_remove1\<close>)
qed

lemma inv_refresh_write:
  assumes i: "inv cf w" and m: "(f, t) \<in> set (wo_refreshes w)" and g: "refresh_granted cf base t now r1 (wo_db w) = (r, db)"
  shows "inv cf (w\<lparr>wo_db := db, wo_refreshes := remove1 (f, t) (wo_refreshes w),
      wo_refresh_grants := (if issued r then (f, t) # wo_refresh_grants w else wo_refresh_grants w)\<rparr>)" (is "inv cf ?w")
proof -
  have it: "issue_tokens cf base (rf_UserID t) (rf_ClientID t) (rf_Scope t) now r1 (DeleteRefreshToken (rf_Token t) (wo_db w)) = (r, db)"
    using g by (simp add: refresh_granted_def)
  have o: "ob_Codes db = ob_Codes (wo_db w)" using issue_frames [OF it] by simp
  have ft: "for_grant (ob_Codes (wo_db w)) t" using invD(5) [OF i, of t] m by force
  have n: "for_grant (ob_Codes (wo_db w)) x" if "x \<in> set (ob_Refresh db)" for x
    using issue_refresh [OF it that] inv_saved [OF i, of x] ft by (auto simp: for_grant_def)
  show ?thesis
  proof (rule inv_change [where w = w and m = "\<lambda>x. x", OF i])
    show "ob_Codes (wo_db ?w) = map (\<lambda>x. x) (ob_Codes (wo_db w))" using o by simp
  qed (use n m o in \<open>auto dest: in_remove1 split: if_splits\<close>)
qed

lemma checked_proves: "code_checked cf db now f = Inr c \<Longrightarrow> proves cf f c \<and> c \<in> set (ob_Codes db)"
  by (auto simp: code_checked_def GetCode_def proves_def split: if_splits option.splits dest!: row_at_Some)

lemma checked_refresh: "refresh_checked db now f = Inr t \<Longrightarrow> t \<in> set (ob_Refresh db)"
  by (auto simp: refresh_checked_def GetRefreshToken_def split: if_splits option.splits dest!: row_at_Some)

section \<open>The invariant of the sign-ins\<close>

text \<open>A user is signed in when some request that arrived proved to be the user, who has an account.\<close>

definition signed_in :: "login_env \<Rightarrow> world \<Rightarrow> string \<Rightarrow> bool" where
  "signed_in env w u \<longleftrightarrow> GetUserByID (wo_acc w) u \<noteq> None \<and> (\<exists>(l, acc, db) \<in> set (wo_log w). proves_user env l acc db u)"

definition login_inv :: "login_env \<Rightarrow> world \<Rightarrow> bool" where
  "login_inv env w \<longleftrightarrow> accounts_ok (wo_acc w) \<and> (\<forall>v \<in> set (wo_cookies w). \<exists>u t. v = session_cookie env u t \<and> signed_in env w u) \<and>
     (\<forall>c \<in> set (ob_Codes (wo_db w)). signed_in env w (ac_UserID c))"

lemma signed_in_later:
  assumes "signed_in env w u" and "same_ids (au_Users (wo_acc w)) (au_Users (wo_acc w'))" and "set (wo_log w) \<subseteq> set (wo_log w')"
  shows "signed_in env w' u"
  using assms unfolding signed_in_def same_ids_def GetUserByID_def by blast

text \<open>New cookies and new codes are of users who are signed in.\<close>

lemma login_inv_step:
  assumes i: "login_inv env w" and ok: "accounts_ok (wo_acc w')" and ids: "same_ids (au_Users (wo_acc w)) (au_Users (wo_acc w'))"
    and log: "set (wo_log w) \<subseteq> set (wo_log w')"
    and cookies: "\<And>v. v \<in> set (wo_cookies w') \<Longrightarrow> v \<in> set (wo_cookies w) \<or> (\<exists>u t. v = session_cookie env u t \<and> signed_in env w' u)"
    and codes: "\<And>c. c \<in> set (ob_Codes (wo_db w')) \<Longrightarrow>
      (\<exists>x \<in> set (ob_Codes (wo_db w)). ac_UserID x = ac_UserID c) \<or> signed_in env w' (ac_UserID c)"
  shows "login_inv env w'"
proof -
  note later = signed_in_later [OF _ ids log]
  have "\<exists>u t. v = session_cookie env u t \<and> signed_in env w' u" if "v \<in> set (wo_cookies w')" for v
    using cookies [OF that] i later unfolding login_inv_def by blast
  moreover have "signed_in env w' (ac_UserID c)" if "c \<in> set (ob_Codes (wo_db w'))" for c
    using codes [OF that] i later unfolding login_inv_def by metis
  ultimately show ?thesis using ok by (simp add: login_inv_def)
qed

lemma sign_inj:
  assumes "sign tk k u e = sign tk k u' e'"
  shows "u = u'"
proof -
  have bar: "CHR ''|'' \<notin> set (computeMAC tk k x n)" for x n using b64_plain unfolding computeMAC_def by blast
  have "rev (computeMAC tk k u e) @ CHR ''|'' # rev (u @ CHR ''|'' # itoa e) = rev (computeMAC tk k u' e') @ CHR ''|'' # rev (u' @ CHR ''|'' # itoa e')"
    using arg_cong [OF assms, of rev] by (simp add: sign_def)
  then have "rev (itoa e) @ CHR ''|'' # rev u = rev (itoa e') @ CHR ''|'' # rev u'"
    using append_sep_inj [of "CHR ''|''" "rev (computeMAC tk k u e)" "rev (computeMAC tk k u' e')"] bar by simp
  then show ?thesis using append_sep_inj [of "CHR ''|''" "rev (itoa e)" "rev (itoa e')" "rev u" "rev u'"] itoa_no_bar by simp
qed

text \<open>The user of an accepted cookie is signed in.\<close>

lemma resolved_signed_in:
  assumes i: "login_inv env w" and f: "unforged env (wo_cookies w) cookie" and u: "resolveSessionUser env now cookie \<noteq> []"
  shows "signed_in env w (resolveSessionUser env now cookie)"
proof -
  let ?tk = "cf_Codec (le_cf env)" and ?k = "le_key env"
  obtain x where x: "UserID ?tk ?k (now div second_ns) cookie = Some x" "resolveSessionUser env now cookie = x"
    using u by (auto simp: resolveSessionUser_def split: option.splits)
  then obtain v t m e where v: "cookie = Some v" "split_at_char (CHR ''|'') v = [x, t, m]" "ParseInt64 t = Some e" "m = computeMAC ?tk ?k x e"
    by (auto simp: UserID_def split: option.splits list.splits if_splits)
  then have "sign ?tk ?k x e \<in> set (wo_cookies w)" using f by (simp add: unforged_def)
  then obtain u' t' where "sign ?tk ?k x e = session_cookie env u' t'" "signed_in env w u'" using i unfolding login_inv_def by blast
  then show ?thesis using x(2) sign_inj unfolding session_cookie_def Issue_def by metis
qed

lemma login_inv_start: "login_inv env start"
  by (simp add: login_inv_def start_def no_accounts_ok)

lemma account_exists: "a \<in> set (au_Users acc) \<Longrightarrow> am_ID a = u \<Longrightarrow> GetUserByID acc u \<noteq> None"
  by (auto simp: GetUserByID_def row_at_None)

lemma proves_exists: "proves_user env l acc db u \<Longrightarrow> GetUserByID acc u \<noteq> None"
  by (cases l) (auto dest: account_exists)

text \<open>A sign-in handler signed a user in, or set no cookie and wrote no code.\<close>

lemma login_inv_signin:
  assumes i: "login_inv env w" and ok: "accounts_ok acc" and ids: "same_ids (au_Users (wo_acc w)) (au_Users acc)"
    and ck: "(ck = None \<and> ob_Codes db = ob_Codes (wo_db w)) \<or>
      (\<exists>u. ck = Some (session_cookie env u now) \<and> proves_user env l acc (wo_db w) u \<and> adds_code u (wo_db w) db)"
  shows "login_inv env (w\<lparr>wo_acc := acc, wo_db := db, wo_cookies := (case ck of None \<Rightarrow> [] | Some v \<Rightarrow> [v]) @ wo_cookies w,
      wo_log := (l, acc, wo_db w) # wo_log w\<rparr>)" (is "login_inv env ?w")
  using ck
proof (elim disjE exE conjE)
  assume "ck = None" "ob_Codes db = ob_Codes (wo_db w)"
  then show ?thesis using ok ids by (intro login_inv_step [OF i]) auto
next
  fix u assume u: "ck = Some (session_cookie env u now)" "proves_user env l acc (wo_db w) u" "adds_code u (wo_db w) db"
  have s: "signed_in env ?w u" using u(2) proves_exists [OF u(2)] by (simp add: signed_in_def)
  show ?thesis
  proof (rule login_inv_step [OF i])
    fix v assume "v \<in> set (wo_cookies ?w)"
    then show "v \<in> set (wo_cookies w) \<or> (\<exists>u t. v = session_cookie env u t \<and> signed_in env ?w u)" using s u(1) by auto
  next
    fix c assume "c \<in> set (ob_Codes (wo_db ?w))"
    then show "(\<exists>x \<in> set (ob_Codes (wo_db w)). ac_UserID x = ac_UserID c) \<or> signed_in env ?w (ac_UserID c)" using adds_rows [OF u(3)] s by auto
  qed (use ok ids in auto)
qed

lemma login_step:
  assumes "loginHandler env m form next0 mcp now r1 acc db = (r, ck, db')"
  shows "(ck = None \<and> db' = db) \<or>
      (\<exists>u. ck = Some (session_cookie env u now) \<and> proves_user env (ByPassword m form) acc db u \<and> adds_code u db db')"
proof (cases ck)
  case None
  then show ?thesis using login_quiet assms by blast
next
  case (Some v)
  then show ?thesis using login_sets_proven [of env m form next0 mcp now r1 acc db r v db'] assms session_adds by blast
qed

lemma callback_step:
  assumes "oauthCallbackHandler env provider g cq x info dest mcp now r1 acc db = (r, ck, acc', db')"
  shows "(acc' = acc \<or> (\<exists>e s n. acc' = acc_exec sha (OpSignIn provider s e n (le_AdminEmails env) now) acc)) \<and>
     ((ck = None \<and> ob_Codes db' = ob_Codes db \<and> ob_Refresh db' = ob_Refresh db) \<or>
      (\<exists>u. ck = Some (session_cookie env u now) \<and> proves_user env (ByProvider provider cq x info now) acc' db u \<and> adds_code u db db'))"
  using assms
proof (cases rule: callback_cases)
  case refused
  then show ?thesis using consume_frames by auto
next
  case (accepted p u)
  have "acc' = acc_exec sha (OpSignIn provider (pu_Sub p) (pu_Email p) (pu_DisplayName p) (le_AdminEmails env) now) acc"
    using accepted(5) by (simp add: after_op_def)
  moreover obtain y where y: "completeMCPSessionIfPresent env mcp (am_ID u) now r1 (snd (ConsumeState now (cq_State cq) db)) = (y, db')"
    using accepted(7) by blast
  have "adds_code (am_ID u) db db'" using session_adds [OF y] by (simp add: adds_code_def consume_frames)
  moreover have "proves_user env (ByProvider provider cq x info now) acc' db (am_ID u)"
    using accepted(1-3) signin_links [OF accepted(5)] consumed_live [OF accepted(4)] by auto
  ultimately show ?thesis using accepted(6) by blast
qed

lemma callback_accounts:
  assumes "oauthCallbackHandler env provider g cq x info dest mcp now r1 acc db = (r, ck, acc', db')" and ok: "accounts_ok acc"
  shows "accounts_ok acc' \<and> same_ids (au_Users acc) (au_Users acc')"
proof -
  have a: "accounts_ok (acc_exec id op acc) \<and> same_ids (au_Users acc) (au_Users (acc_exec id op acc))" for op
    using acc_exec_ok [OF ok] acc_exec_step [OF accounts_okD(2) [OF ok]] by blast
  have "accounts_ok acc \<and> same_ids (au_Users acc) (au_Users acc)" using ok by simp
  then show ?thesis using callback_step [OF assms(1), of id] a by blast
qed

section \<open>Every reachable state\<close>

lemma login_inv_run:
  assumes "step env w w'" and i: "login_inv env w" and g: "inv (le_cf env) w"
  shows "login_inv env w'"
proof -
  have ok: "accounts_ok (wo_acc w)" using i by (simp add: login_inv_def)
  have frame: ?thesis if "wo_acc w' = wo_acc w" "wo_cookies w' = wo_cookies w" "wo_log w' = wo_log w"
    "\<And>c. c \<in> set (ob_Codes (wo_db w')) \<Longrightarrow> (\<exists>x \<in> set (ob_Codes (wo_db w)). ac_UserID x = ac_UserID c) \<or> signed_in env w' (ac_UserID c)"
    using that ok by (intro login_inv_step [OF i]) auto
  show ?thesis
    using assms(1)
  proof (cases rule: step.cases)
    case (account sha op)
    then show ?thesis using acc_exec_ok [OF ok, of sha op] acc_exec_step [OF accounts_okD(2) [OF ok], of sha op]
      by (intro login_inv_step [OF i]) auto
  next
    case (login m form next0 mcp now r1 r ck db)
    have "w' = w\<lparr>wo_acc := wo_acc w, wo_db := db, wo_cookies := (case ck of None \<Rightarrow> [] | Some v \<Rightarrow> [v]) @ wo_cookies w,
      wo_log := (ByPassword m form, wo_acc w, wo_db w) # wo_log w\<rparr>" using login(1) by simp
    then show ?thesis using login_inv_signin [OF i ok same_ids_simps(1)] login_step [OF login(2)] by metis
  next
    case (callback provider ga cq x info dest mcp now r1 r ck acc db)
    note a = callback_accounts [OF callback(2) ok]
    show ?thesis unfolding callback(1)
      by (rule login_inv_signin [OF i a [THEN conjunct1] a [THEN conjunct2], where now = now]) (use callback_step [OF callback(2)] in blast)
  next
    case (authorize cookie ga now q r1 r2 r db)
    note a = authorize_adds [OF authorize(3)]
    have "(\<exists>x \<in> set (ob_Codes (wo_db w)). ac_UserID x = ac_UserID c) \<or> signed_in env w (ac_UserID c)" if "c \<in> set (ob_Codes db)" for c
    proof (cases "resolveSessionUser env now cookie = []")
      case True
      then show ?thesis using a that by (auto simp: authorizes_def)
    next
      case False
      then show ?thesis using a that adds_rows resolved_signed_in [OF i authorize(2) False] unfolding authorizes_def by metis
    qed
    then show ?thesis using authorize(1) by (intro frame) (auto simp: signed_in_def)
  next
    case (code_write f c base now r1 r db)
    have "\<exists>y \<in> set (ob_Codes (wo_db w)). ac_UserID y = ac_UserID x" if "x \<in> set (ob_Codes db)" for x
    proof (cases "MarkCodeUsed (ac_Code c) (wo_db w)")
      case None
      then show ?thesis using that code_write(3) by (auto simp: code_granted_def)
    next
      case (Some db1)
      then have "issue_tokens (le_cf env) base (ac_UserID c) (ac_ClientID c) (ac_Scope c) now r1 db1 = (r, db)"
        using code_write(3) by (simp add: code_granted_def)
      then show ?thesis using that issue_frames mark_codes [OF Some] by (fastforce split: if_splits)
    qed
    then show ?thesis using code_write(1) by (intro frame) auto
  next
    case (refresh_write f t base now r1 r db)
    then have "ob_Codes db = ob_Codes (wo_db w)" using issue_frames unfolding refresh_granted_def by fastforce
    then show ?thesis using refresh_write(1) by (intro frame) auto
  next
    case (leave g ttl now r1 r db)
    then show ?thesis using leave_frames [OF leave(2)] by (intro frame) auto
  next
    case (register p body now r1 r2 r db)
    then show ?thesis using register_frames [OF register(2)] by (intro frame) auto
  next
    case (code_read now f c)
    then show ?thesis by (intro frame) auto
  next
    case (refresh_read now f t)
    then show ?thesis by (intro frame) auto
  qed
qed

lemma inv_step:
  assumes "step env w w'" and i: "inv (le_cf env) w"
  shows "inv (le_cf env) w'"
proof -
  have adds: ?thesis if "adds_code u (wo_db w) (wo_db w')" "same_grants w w'" for u by (rule inv_adds [OF i that])
  show ?thesis
    using assms(1)
  proof (cases rule: step.cases)
    case (account sha op)
    then show ?thesis by (intro adds [of "[]"]) (simp_all add: adds_no_code same_grants_def)
  next
    case (login m form next0 mcp now r1 r ck db)
    then have "\<exists>u. adds_code u (wo_db w) db" using login_step [OF login(2)] adds_no_code by blast
    then show ?thesis using login(1) adds by (auto simp: same_grants_def)
  next
    case (leave g ttl now r1 r db)
    then show ?thesis using leave_frames [OF leave(2)] by (intro adds [of "[]"]) (simp_all add: adds_no_code same_grants_def)
  next
    case (callback provider ga cq x info dest mcp now r1 r ck acc db)
    then have "\<exists>u. adds_code u (wo_db w) db" using callback_step [OF callback(2)] adds_no_code by blast
    then show ?thesis using callback(1) adds by (auto simp: same_grants_def)
  next
    case (register p body now r1 r2 r db)
    then show ?thesis using register_frames [OF register(2)] by (intro adds [of "[]"]) (simp_all add: adds_no_code same_grants_def)
  next
    case (authorize cookie ga now q r1 r2 r db)
    then show ?thesis using authorize_adds [OF authorize(3)] by (intro adds) (auto simp: authorizes_def same_grants_def)
  next
    case (code_read now f c)
    then show ?thesis using checked_proves [OF code_read(2)] inv_saved [OF i]
      by (intro inv_change [where w = w and m = "\<lambda>x. x", OF i]) auto
  next
    case (code_write f c base now r1 r db)
    then show ?thesis using inv_code_write [OF i code_write(2,3)] by simp
  next
    case (refresh_read now f t)
    then show ?thesis using checked_refresh [OF refresh_read(2)] inv_saved [OF i]
      by (intro inv_change [where w = w and m = "\<lambda>x. x", OF i]) auto
  next
    case (refresh_write f t base now r1 r db)
    then show ?thesis using inv_refresh_write [OF i refresh_write(2,3)] by simp
  qed
qed

lemma inv_reachable: "reachable env w \<Longrightarrow> inv (le_cf env) w \<and> login_inv env w"
  by (induction rule: reachable.induct) (auto intro: inv_start inv_step login_inv_start login_inv_run)

section \<open>What a grant means\<close>

text \<open>
  C9: Authorization codes are used once. In every run of the server, however the two halves of concurrent grants interleave with sign-ins and
  with each other, no two token responses are for the same code; and each of them was to a request with the code's client, its redirect and
  the verifier of its challenge, for a user who has an account and proved to be its owner at one of the sign-in handlers, by its password
  or by the linked identity.
\<close>

theorem code_single_use:
  assumes "reachable env w"
  shows "distinct (map (ac_Code \<circ> snd) (wo_code_grants w)) \<and>
    (\<forall>(f, c) \<in> set (wo_code_grants w). tf_Code f = ac_Code c \<and> tf_ClientID f = ac_ClientID c \<and> tf_RedirectURI f = ac_RedirectURI c \<and>
       VerifyPKCE (cf_Codec (le_cf env)) (tf_CodeVerifier f) (ac_CodeChallenge c) \<and> GetUserByID (wo_acc w) (ac_UserID c) \<noteq> None \<and>
       (\<exists>(l, acc, db) \<in> set (wo_log w). proves_user env l acc db (ac_UserID c)))"
proof (intro conjI ballI)
  note i = inv_reachable [OF assms]
  show "distinct (map (ac_Code \<circ> snd) (wo_code_grants w))" by (rule inv_distinct [OF i [THEN conjunct1]])
  fix p assume "p \<in> set (wo_code_grants w)"
  then obtain f c where p: "p = (f, c)" "(f, c) \<in> set (wo_codes w @ wo_code_grants w)" by (metis UnCI prod.collapse set_append)
  note g = inv_proof [OF i [THEN conjunct1] p(2)]
  then obtain row where row: "row \<in> set (ob_Codes (wo_db w))" "same_code row c" by blast
  have "signed_in env w (ac_UserID c)" using i row(1) same_code_fields [OF row(2)] unfolding login_inv_def by metis
  then show "case p of (f, c) \<Rightarrow> tf_Code f = ac_Code c \<and> tf_ClientID f = ac_ClientID c \<and> tf_RedirectURI f = ac_RedirectURI c \<and>
       VerifyPKCE (cf_Codec (le_cf env)) (tf_CodeVerifier f) (ac_CodeChallenge c) \<and> GetUserByID (wo_acc w) (ac_UserID c) \<noteq> None \<and>
       (\<exists>(l, acc, db) \<in> set (wo_log w). proves_user env l acc db (ac_UserID c))"
    using g by (simp add: p(1) proves_def signed_in_def)
qed

text \<open>
  C10: Refresh tokens are grounded. In every run, every refresh token of the table, and every one a token was granted on, goes back to a used code
  of the table for its user, its client and its scope; and that user has an account and proved to be its owner at one of the sign-in handlers, by
  its password or by an identity of a provider under a state the server minted. A browser without a session gets no such token.
\<close>

theorem refresh_grounded:
  assumes "reachable env w" and "t \<in> set (ob_Refresh (wo_db w)) \<or> (f, t) \<in> set (wo_refresh_grants w)"
  shows "(\<exists>c \<in> set (ob_Codes (wo_db w)). ac_Used c \<and> ac_UserID c = rf_UserID t \<and> ac_ClientID c = rf_ClientID t \<and> ac_Scope c = rf_Scope t) \<and>
    GetUserByID (wo_acc w) (rf_UserID t) \<noteq> None \<and> (\<exists>(l, acc, db) \<in> set (wo_log w). proves_user env l acc db (rf_UserID t))"
proof -
  note i = inv_reachable [OF assms(1)]
  have "t \<in> set (ob_Refresh (wo_db w)) \<union> snd ` set (wo_refreshes w @ wo_refresh_grants w)" using assms(2) by force
  then have g: "for_grant (ob_Codes (wo_db w)) t" using inv_refresh i by blast
  then have "signed_in env w (rf_UserID t)" using i unfolding for_grant_def login_inv_def by metis
  then show ?thesis using g unfolding for_grant_def signed_in_def by blast
qed

section \<open>A run\<close>


definition demo_cf :: oauth_config where
  "demo_cf = \<lparr>cf_JWTSecret = ''k'', cf_Issuer = [], cf_AccessTokenTTL = 3600 * second_ns, cf_RefreshTokenTTL = 3600 * second_ns, cf_CodeTTL = 600 * second_ns,
     cf_HasStore = True, cf_DevMode = False, cf_UserByID = None, cf_Codec = demo_codec, cf_Host = Some\<rparr>"

definition demo_query :: authorize_query where
  "demo_query = \<lparr>aq_ClientID = ''app'', aq_RedirectURI = ''cb'', aq_ResponseType = ''code'', aq_CodeChallenge = b64_encode (rev ''ver''),
     aq_CodeChallengeMethod = ''S256'', aq_State = ''st'', aq_Scope = []\<rparr>"

definition demo_form :: token_form where
  "demo_form = \<lparr>tf_GrantType = ''authorization_code'', tf_Code = ''63'', tf_ClientID = ''app'', tf_RedirectURI = ''cb'', tf_CodeVerifier = ''ver'',
     tf_RefreshToken = ''61616161-6161-4161-a161-616161616161''\<rparr>"

definition demo_base :: http_base where
  "demo_base = \<lparr>hb_TLS = True, hb_ForwardedProto = [], hb_HostName = ''h''\<rparr>"

lemma sixteen: "replicate 16 x = [x, x, x, x, x, x, x, x, x, x, x, x, x, x, x, x]"
  by (simp add: numeral_eq_Suc)

lemma uuid_sixteen: "uuid_bits (replicate 16 x) = [x, x, x, x, x, x, char_of (64 + of_char x mod (16 :: nat)), x,
    char_of (128 + of_char x mod (64 :: nat)), x, x, x, x, x, x, x]"
  by (simp add: uuid_bits_def Let_def sixteen)

lemma demo_bits:
  "char_of (64 + of_char CHR ''a'' mod (16 :: nat)) = CHR ''A''" "char_of (128 + of_char CHR ''a'' mod (64 :: nat)) = CHR 0xA1"
  "char_of (64 + of_char CHR ''b'' mod (16 :: nat)) = CHR ''B''" "char_of (128 + of_char CHR ''b'' mod (64 :: nat)) = CHR 0xA2"
  "char_of (64 + of_char CHR ''c'' mod (16 :: nat)) = CHR ''C''" "char_of (128 + of_char CHR ''c'' mod (64 :: nat)) = CHR 0xA3"
  by code_simp+

lemma demo_random:
  "generateRandomHex (Some ''s'') = Some ''73''" "generateRandomHex (Some ''c'') = Some ''63''"
  "generateUUID (Some (replicate 16 (CHR ''a''))) = Some ''61616161-6161-4161-a161-616161616161''"
  "generateUUID (Some (replicate 16 (CHR ''b''))) = Some ''62626262-6262-4262-a262-626262626262''"
  "generateUUID (Some (replicate 16 (CHR ''c''))) = Some ''63636363-6363-4363-a363-636363636363''"
  unfolding generateUUID_def generateRandomHex_def Let_def option.map uuid_sixteen demo_bits by (simp_all add: hex_def hex_digits)

definition demo_code :: OAuthCode where
  "demo_code = \<lparr>ac_Code = ''63'', ac_ClientID = ''app'', ac_UserID = ''u1'', ac_RedirectURI = ''cb'', ac_CodeChallenge = b64_encode (rev ''ver''),
     ac_Scope = DefaultOAuthScope, ac_ExpiresAt = 600 * second_ns, ac_Used = False\<rparr>"

definition demo_token :: OAuthRefreshToken where
  "demo_token = \<lparr>rf_Token = ''61616161-6161-4161-a161-616161616161'', rf_UserID = ''u1'', rf_ClientID = ''app'', rf_Scope = DefaultOAuthScope,
     rf_ExpiresAt = 3600 * second_ns\<rparr>"

definition demo_oauth_db :: "OAuthCode list \<Rightarrow> OAuthRefreshToken list \<Rightarrow> oauth_db" where
  "demo_oauth_db codes refresh = \<lparr>ob_Clients = [auto_client ''app'' ''cb'' 0], ob_Sessions = [], ob_Codes = codes, ob_Refresh = refresh, ob_States = []\<rparr>"

definition demo_env :: login_env where
  "demo_env = \<lparr>le_cf = demo_cf, le_key = ''key'', le_matches = (\<lambda>h raw. h = raw), le_AdminEmails = [], le_HasOAuthServer = True, le_url = (\<lambda>s. None)\<rparr>"

definition demo_acc :: accounts where
  "demo_acc = \<lparr>au_Users = [\<lparr>am_ID = ''u1'', am_Email = ''a@b'', am_DisplayName = ''Ann'', am_Role = RoleUser, am_Identity = None, am_PasswordHash = ''pw'',
     am_CreatedAt = 0, am_LastSeenAt = None\<rparr>], au_Keys = []\<rparr>"

definition demo_login :: login_form where
  "demo_login = \<lparr>lf_Email = ''a@b'', lf_Password = ''pw'', lf_Next = []\<rparr>"

definition demo_pending :: oauth_db where
  "demo_pending = (demo_oauth_db [] [])\<lparr>ob_Sessions := [\<lparr>os_SessionID = ''73'', os_ClientID = ''app'', os_RedirectURI = ''cb'', os_State = ''st'',
     os_CodeChallenge = b64_encode (rev ''ver''), os_CodeMethod = ''S256'', os_Scope = DefaultOAuthScope, os_CreatedAt = 0\<rparr>]\<rparr>"

definition demo_authorized :: world where
  "demo_authorized = start\<lparr>wo_acc := demo_acc, wo_db := demo_oauth_db [demo_code] [], wo_cookies := [session_cookie demo_env ''u1'' 0],
     wo_log := [(ByPassword HttpPost (Some demo_login), demo_acc, demo_pending)]\<rparr>"

definition demo_granted :: world where
  "demo_granted = demo_authorized\<lparr>wo_db := demo_oauth_db [demo_code\<lparr>ac_Used := True\<rparr>] [demo_token], wo_code_grants := [(demo_form, demo_code)]\<rparr>"

definition demo_twice :: world where
  "demo_twice = demo_granted\<lparr>wo_db := demo_oauth_db [demo_code\<lparr>ac_Used := True\<rparr>]
       [demo_token\<lparr>rf_Token := ''62626262-6262-4262-a262-626262626262''\<rparr>, demo_token\<lparr>rf_Token := ''63636363-6363-4363-a363-636363636363''\<rparr>],
     wo_refresh_grants := [(demo_form, demo_token), (demo_form, demo_token)]\<rparr>"

lemmas demo_defs = demo_cf_def demo_form_def demo_code_def demo_token_def demo_oauth_db_def second_ns_def

text \<open>A browser without a session asks for a code and is sent to the login form, which completes the request.\<close>

lemma demo_hash: "b64_encode ''rev'' \<noteq> []"
  by code_simp

lemma demo_authorize:
  "HandleAuthorize demo_cf True (resolveSessionUser demo_env 0 None) demo_query 0 (Some ''s'') None (wo_db start) = (LoginRedirect ''73'' True, demo_pending)"
  by (simp add: HandleAuthorize_def createAuthSession_def GetClient_def SaveClient_def upsert_row_def SaveSession_def setSessionCookieAndRedirect_def
      resolveSessionUser_def UserID_def demo_hash demo_random start_def demo_query_def demo_defs demo_pending_def auto_client_def Let_def)

lemma demo_signs_in:
  "loginHandler demo_env HttpPost (Some demo_login) [] (Some ''73'') 0 (Some ''c'') demo_acc demo_pending =
     (ToClient (CodeRedirect ''cb'' ''63'' ''st''), Some (session_cookie demo_env ''u1'' 0), demo_oauth_db [demo_code] [])"
  by (simp add: loginHandler_def handleLoginPost_def demo_login_def VerifyPassword_def demo_acc_def demo_env_def signed_in_response_def
      completeMCPSessionIfPresent_def CompleteAuthorization_def GetSession_def SaveCode_def DeleteSession_def delete_rows_def demo_random demo_pending_def demo_defs)

lemma demo_account:
  "acc_exec id (OpPassword Some ''u1'' ''pw'') (acc_exec id (OpCreateUser ''u1'' ''a@b'' ''Ann'' [] 0) no_accounts) = demo_acc"
  by (simp add: CreateUser_def SetPassword_def demo_facts GetUserByID_def no_accounts_def after_op_def update_rows_def demo_acc_def Let_def)

lemma demo_challenge: "VerifyPKCE demo_codec ''ver'' (b64_encode (rev ''ver''))"
  by code_simp

lemma demo_reads:
  "code_checked demo_cf (wo_db demo_authorized) 0 demo_form = Inr demo_code"
  "refresh_checked (wo_db demo_granted) 0 demo_form = Inr demo_token"
  using demo_challenge
  by (simp_all add: code_checked_def GetCode_def refresh_checked_def GetRefreshToken_def demo_authorized_def demo_granted_def demo_defs start_def)

definition demo_response :: "string \<Rightarrow> response" where
  "demo_response r = TokensIssued (mintAccessToken demo_cf ''u1'' DefaultOAuthScope ''app'' (issuerForRequest demo_cf demo_base) 0) r DefaultOAuthScope 3600"

lemma demo_writes:
  "code_granted demo_cf demo_base demo_code 0 (Some (replicate 16 (CHR ''a''))) (demo_oauth_db [demo_code] []) =
     (demo_response (rf_Token demo_token), demo_oauth_db [demo_code\<lparr>ac_Used := True\<rparr>] [demo_token])"
  "refresh_granted demo_cf demo_base demo_token 0 (Some (replicate 16 (CHR ''b''))) (demo_oauth_db cs [demo_token]) =
     (demo_response ''62626262-6262-4262-a262-626262626262'', demo_oauth_db cs [demo_token\<lparr>rf_Token := ''62626262-6262-4262-a262-626262626262''\<rparr>])"
  "refresh_granted demo_cf demo_base demo_token 0 (Some (replicate 16 (CHR ''c''))) (demo_oauth_db cs [demo_token\<lparr>rf_Token := ''62626262-6262-4262-a262-626262626262''\<rparr>]) =
     (demo_response ''63636363-6363-4363-a363-636363636363'',
      demo_oauth_db cs [demo_token\<lparr>rf_Token := ''62626262-6262-4262-a262-626262626262''\<rparr>, demo_token\<lparr>rf_Token := ''63636363-6363-4363-a363-636363636363''\<rparr>])"
  by (simp_all add: code_granted_def refresh_granted_def issue_tokens_def MarkCodeUsed_def update_rows_def SaveRefreshToken_def DeleteRefreshToken_def
      delete_rows_def demo_random demo_response_def demo_code_def demo_token_def demo_oauth_db_def) (simp_all add: demo_cf_def second_ns_def)

lemma demo_reachable: "reachable demo_env demo_granted" "reachable demo_env demo_twice"
proof -
  have u: "reachable demo_env (start\<lparr>wo_acc := demo_acc\<rparr>)"
    using reachable.run [OF reachable.run [OF reachable.init step.account [of _ _ id "OpCreateUser ''u1'' ''a@b'' ''Ann'' [] 0"]]
      step.account [of _ _ id "OpPassword Some ''u1'' ''pw''"]] demo_account by (simp add: start_def)
  have p: "reachable demo_env (start\<lparr>wo_acc := demo_acc, wo_db := demo_pending\<rparr>)" (is "reachable _ ?p")
    using reachable.run [OF u step.authorize [of demo_env _ None True 0 demo_query "Some ''s''" None "LoginRedirect ''73'' True" demo_pending]] demo_authorize
    by (simp add: unforged_def demo_env_def)
  have "loginHandler demo_env HttpPost (Some demo_login) [] (Some ''73'') 0 (Some ''c'') (wo_acc ?p) (wo_db ?p) =
     (ToClient (CodeRedirect ''cb'' ''63'' ''st''), Some (session_cookie demo_env ''u1'' 0), demo_oauth_db [demo_code] [])" using demo_signs_in by simp
  from reachable.run [OF p step.login [OF this]] have a: "reachable demo_env demo_authorized"
    by (simp add: demo_authorized_def start_def)
  have cf: "le_cf demo_env = demo_cf" by (simp add: demo_env_def)
  have r: "reachable demo_env (demo_authorized\<lparr>wo_codes := [(demo_form, demo_code)]\<rparr>)" (is "reachable _ ?r")
    using reachable.run [OF a step.code_read [of demo_env, unfolded cf, OF demo_reads(1)]] by (simp add: demo_authorized_def start_def)
  have "code_granted demo_cf demo_base demo_code 0 (Some (replicate 16 (CHR ''a''))) (wo_db ?r) =
     (demo_response (rf_Token demo_token), demo_oauth_db [demo_code\<lparr>ac_Used := True\<rparr>] [demo_token])" using demo_writes(1) by (simp add: demo_authorized_def)
  from reachable.run [OF r step.code_write [of demo_form demo_code _ demo_env, unfolded cf, OF _ this]] show g: "reachable demo_env demo_granted"
    by (simp add: demo_granted_def demo_authorized_def start_def demo_response_def)
  have one: "reachable demo_env (demo_granted\<lparr>wo_refreshes := [(demo_form, demo_token)]\<rparr>)" (is "reachable _ ?one")
    using reachable.run [OF g step.refresh_read [OF demo_reads(2)]] by (simp add: demo_granted_def demo_authorized_def start_def)
  have "refresh_checked (wo_db ?one) 0 demo_form = Inr demo_token" using demo_reads(2) by simp
  from reachable.run [OF one step.refresh_read [OF this]]
  have two: "reachable demo_env (demo_granted\<lparr>wo_refreshes := [(demo_form, demo_token), (demo_form, demo_token)]\<rparr>)" (is "reachable _ ?two") by simp
  have "refresh_granted demo_cf demo_base demo_token 0 (Some (replicate 16 (CHR ''b''))) (wo_db ?two) =
     (demo_response ''62626262-6262-4262-a262-626262626262'',
      demo_oauth_db [demo_code\<lparr>ac_Used := True\<rparr>] [demo_token\<lparr>rf_Token := ''62626262-6262-4262-a262-626262626262''\<rparr>])"
    using demo_writes(2) by (simp add: demo_granted_def)
  from reachable.run [OF two step.refresh_write [of demo_form demo_token _ demo_env, unfolded cf, OF _ this]]
  have three: "reachable demo_env (demo_granted\<lparr>wo_refreshes := [(demo_form, demo_token)], wo_refresh_grants := [(demo_form, demo_token)],
      wo_db := demo_oauth_db [demo_code\<lparr>ac_Used := True\<rparr>] [demo_token\<lparr>rf_Token := ''62626262-6262-4262-a262-626262626262''\<rparr>]\<rparr>)" (is "reachable _ ?three")
    by (simp add: demo_granted_def demo_authorized_def start_def demo_response_def)
  have "refresh_granted demo_cf demo_base demo_token 0 (Some (replicate 16 (CHR ''c''))) (wo_db ?three) =
     (demo_response ''63636363-6363-4363-a363-636363636363'', wo_db demo_twice)"
    using demo_writes(3) by (simp add: demo_twice_def)
  from reachable.run [OF three step.refresh_write [of demo_form demo_token _ demo_env, unfolded cf, OF _ this]] show "reachable demo_env demo_twice"
    by (simp add: demo_twice_def demo_granted_def demo_authorized_def start_def demo_response_def)
qed

theorem code_single_use_witness:
  "wo_code_grants demo_granted = [(demo_form, demo_code)] \<and> VerifyPKCE demo_codec (tf_CodeVerifier demo_form) (ac_CodeChallenge demo_code) \<and>
   (\<exists>(l, acc, db) \<in> set (wo_log demo_granted). proves_user demo_env l acc db ''u1'')"
proof -
  have g: "wo_code_grants demo_granted = [(demo_form, demo_code)]" by (simp add: demo_granted_def)
  have c: "cf_Codec (le_cf demo_env) = demo_codec" "ac_UserID demo_code = ''u1''" by (simp_all add: demo_env_def demo_cf_def demo_code_def)
  show ?thesis using code_single_use [OF demo_reachable(1)] unfolding g c by (simp add: c)
qed

theorem refresh_grounded_witness:
  "\<exists>(l, acc, db) \<in> set (wo_log demo_granted). proves_user demo_env l acc db (rf_UserID demo_token)"
proof -
  have "demo_token \<in> set (ob_Refresh (wo_db demo_granted))" by (rule checked_refresh [OF demo_reads(2)])
  then show ?thesis using refresh_grounded [OF demo_reachable(1), of demo_token] by blast
qed

text \<open>
  A refresh token is not used once. The rotation deletes the presented token without looking whether it was still there: there is
  a run in which two requests that read one refresh token are both granted, and both leave a new refresh token.
\<close>

theorem refresh_race:
  "\<exists>w f t. reachable demo_env w \<and> wo_refresh_grants w = [(f, t), (f, t)] \<and> length (ob_Refresh (wo_db w)) = 2"
proof (intro exI conjI)
  show "reachable demo_env demo_twice" by (rule demo_reachable)
  show "wo_refresh_grants demo_twice = [(demo_form, demo_token), (demo_form, demo_token)]" by (simp add: demo_twice_def)
  show "length (ob_Refresh (wo_db demo_twice)) = 2" by (simp add: demo_twice_def demo_oauth_db_def)
qed

end
