(* ===== verification/DevLogin.thy ===== *)
theory DevLogin
  imports AccountProps VariableProps
begin

text \<open>
  The accounts the server provides at boot: the predictable ones of dev mode (\<^verbatim>\<open>internal/auth/devseed.go\<close>) and the login of an agent whose
  credentials are secret system variables (\<^verbatim>\<open>devlogin.go\<close>). Both return the stores also when they stop with an error.
\<close>

definition DevLoginUserID :: string where "DevLoginUserID = ''usr_devlogin''"
definition DevLoginEmail :: string where "DevLoginEmail = ''agent@dogfood.satellites.local''"

datatype boot_error = BootVariable var_error | BootRandom | BootUser auth_error | BootKey auth_error | BootPassword auth_error | BootWorkspace wk_error

definition system_key :: "string \<Rightarrow> VarKey" where
  "system_key name = \<lparr>vk_Scope = ScopeSystem, vk_WorkspaceID = [], vk_ProjectID = [], vk_UserID = [], vk_Name = name\<rparr>"

definition randomPassword :: "string option \<Rightarrow> string option" where
  "randomPassword rng = map_option hex rng"

definition ensureSecretSystemVar :: "string \<Rightarrow> string option \<Rightarrow> string \<Rightarrow> int \<Rightarrow> Variable list \<Rightarrow> (boot_error + string) \<times> Variable list" where
  "ensureSecretSystemVar name gen varID now vars =
     (case VarGet vars (system_key name) of
        Inr v \<Rightarrow> (Inr (va_Value v), vars)
      | Inl VarNotFound \<Rightarrow>
          (case gen of
             None \<Rightarrow> (Inl BootRandom, vars)
           | Some val \<Rightarrow>
               (case VarSet varID (system_key name) val True now vars of
                  Inl e \<Rightarrow> (Inl (BootVariable e), vars)
                | Inr (v, vars') \<Rightarrow> (Inr val, vars')))
      | Inl e \<Rightarrow> (Inl (BootVariable e), vars))"

definition ReconcileDevLogin ::
  "(string \<Rightarrow> string option) \<Rightarrow> string option \<Rightarrow> string \<Rightarrow> string \<Rightarrow> int \<Rightarrow> accounts \<Rightarrow> Variable list \<Rightarrow> boot_error option \<times> accounts \<times> Variable list" where
  "ReconcileDevLogin bcrypt rng emailID passwordID now db vars =
     (case ensureSecretSystemVar ''dev_login.email'' (Some DevLoginEmail) emailID now vars of
        (Inl e, vars1) \<Rightarrow> (Some e, db, vars1)
      | (Inr email, vars1) \<Rightarrow>
          (case ensureSecretSystemVar ''dev_login.password'' (randomPassword rng) passwordID now vars1 of
             (Inl e, vars2) \<Rightarrow> (Some e, db, vars2)
           | (Inr password, vars2) \<Rightarrow>
               (case CreateUser DevLoginUserID email ''Agent (dogfood)'' RoleUser now db of
                  Inl e \<Rightarrow> (Some (BootUser e), db, vars2)
                | Inr (u, db1) \<Rightarrow>
                    (case SetPassword bcrypt (am_ID u) password db1 of
                       Inl e \<Rightarrow> (Some (BootPassword e), db1, vars2)
                     | Inr db2 \<Rightarrow> (None, db2, vars2)))))"

definition dev_account ::
  "(string \<Rightarrow> string) \<Rightarrow> (string \<Rightarrow> string option) \<Rightarrow> string \<Rightarrow> string \<Rightarrow> string \<Rightarrow> string \<Rightarrow> string \<Rightarrow> string \<Rightarrow> string \<Rightarrow> int \<Rightarrow> accounts \<Rightarrow>
   (boot_error + string) \<times> accounts" where
  "dev_account sha bcrypt i email name role keyID raw password now db =
     (case CreateUser i email name role now db of
        Inl e \<Rightarrow> (Inl (BootUser e), db)
      | Inr (u, db1) \<Rightarrow>
          (case IssueAPIKeyWithRaw sha keyID (am_ID u) [] [] raw now db1 of
             Inl e \<Rightarrow> (Inl (BootKey e), db1)
           | Inr (k, db2) \<Rightarrow>
               (case SetPassword bcrypt (am_ID u) password db2 of
                  Inl e \<Rightarrow> (Inl (BootPassword e), db2)
                | Inr db3 \<Rightarrow> (Inr (am_ID u), db3))))"

definition DevSeed ::
  "(string \<Rightarrow> string) \<Rightarrow> (string \<Rightarrow> string option) \<Rightarrow> string \<Rightarrow> string \<Rightarrow> int \<Rightarrow> accounts \<Rightarrow> Workspace list \<Rightarrow> WsMember list \<Rightarrow>
   boot_error option \<times> accounts \<times> Workspace list \<times> WsMember list" where
  "DevSeed sha bcrypt wsid1 wsid2 now db ws ms =
     (case dev_account sha bcrypt ''usr_dev_admin'' ''admin@dev.satellites.local'' ''Dev Admin'' UserRoleAdmin ''apk_dev_admin'' ''sk_dev_admin'' ''admin'' now db of
        (Inl e, db1) \<Rightarrow> (Some e, db1, ws, ms)
      | (Inr admin, db1) \<Rightarrow>
          (case dev_account sha bcrypt ''usr_dev_user'' ''user@dev.satellites.local'' ''Dev User'' RoleUser ''apk_dev_user'' ''sk_dev_user'' ''user'' now db1 of
             (Inl e, db2) \<Rightarrow> (Some e, db2, ws, ms)
           | (Inr user, db2) \<Rightarrow>
               (case EnsurePersonalWorkspace ws ms wsid1 admin ''Dev Admin'' now of
                  Inl e \<Rightarrow> (Some (BootWorkspace e), db2, ws, ms)
                | Inr (ws1, ms1, w) \<Rightarrow>
                    (case EnsurePersonalWorkspace ws1 ms1 wsid2 user ''Dev User'' now of
                       Inl e \<Rightarrow> (Some (BootWorkspace e), db2, ws1, ms1)
                     | Inr (ws2, ms2, w2) \<Rightarrow> (None, db2, ws2, ms2)))))"

section \<open>The agent's login\<close>

lemma system_key_valid: "name \<noteq> [] \<Longrightarrow> VarKeyValidate (system_key name) = None"
  by (simp add: VarKeyValidate_def system_key_def Let_def)

text \<open>The variable holds the value afterwards, and other variables what they held.\<close>

lemma ensure_holds:
  assumes "ensureSecretSystemVar name gen varID now vars = (Inr val, vars')" and "name \<noteq> []"
  shows "map_sum id va_Value (VarGet vars' (system_key name)) = Inr val \<and> (\<forall>k v. VarGet vars k = Inr v \<longrightarrow> VarGet vars' k = Inr v)"
proof (cases "VarGet vars (system_key name)")
  case (Inr v)
  then show ?thesis using assms by (auto simp: ensureSecretSystemVar_def)
next
  case (Inl e)
  then have e: "e = VarNotFound" using system_key_valid [OF assms(2)] by (auto simp: VarGet_def split: option.splits)
  let ?v = "new_variable varID (system_key name) val True now"
  have n: "row_at var_key (system_key name) vars = None" using Inl e system_key_valid [OF assms(2)] by (auto simp: VarGet_def split: option.splits)
  have v: "vars' = vars @ [?v]" using assms Inl e system_key_valid [OF assms(2)]
    by (auto simp: ensureSecretSystemVar_def VarSet_def Let_def split: option.splits)
  have k: "var_key ?v = system_key name" by (simp add: var_key_def new_variable_def)
  have "va_Value ?v = val" by (simp add: new_variable_def)
  then show ?thesis using n k system_key_valid [OF assms(2)] unfolding v by (auto simp: VarGet_def split: option.splits)
qed

text \<open>
  The agent's login. After a successful boot both secrets have a value, and the password opens the account of the email's canonical form: the one
  that existed before the boot, with its id and its role, else a new one without privileges. The stored email itself opens it exactly when it is
  canonical.
\<close>

theorem devlogin_door:
  assumes run: "ReconcileDevLogin bcrypt rng i j now db vars = (None, db', vars')" and ok: "accounts_ok db"
    and crypt: "\<And>raw h. bcrypt raw = Some h \<Longrightarrow> h \<noteq> [] \<and> matches h raw"
  shows "\<exists>email password u. map_sum id va_Value (VarGet vars' (system_key ''dev_login.email'')) = Inr email \<and>
      map_sum id va_Value (VarGet vars' (system_key ''dev_login.password'')) = Inr password \<and>
      VerifyPassword matches db' (canonical_email email) password = Inr u \<and>
      (am_ID u, am_Role u) = (case GetUserByEmail db email of Some v \<Rightarrow> (am_ID v, am_Role v) | None \<Rightarrow> (DevLoginUserID, RoleUser)) \<and>
      (VerifyPassword matches db' email password = Inr u \<longleftrightarrow> canonical_email email = email)"
proof -
  obtain email vars1 password u db1 where e: "ensureSecretSystemVar ''dev_login.email'' (Some DevLoginEmail) i now vars = (Inr email, vars1)"
    and p: "ensureSecretSystemVar ''dev_login.password'' (randomPassword rng) j now vars1 = (Inr password, vars')"
    and c: "CreateUser DevLoginUserID email ''Agent (dogfood)'' RoleUser now db = Inr (u, db1)" and s: "SetPassword bcrypt (am_ID u) password db1 = Inr db'"
    using run by (auto simp: ReconcileDevLogin_def split: prod.splits sum.splits)
  obtain h where h: "bcrypt password = Some h"
    and d: "au_Users db' = map (\<lambda>x. if am_ID x = am_ID u then x\<lparr>am_PasswordHash := h\<rparr> else x) (au_Users db1)"
    using s by (auto simp: SetPassword_def update_rows_def split: option.splits if_splits)
  have u: "u \<in> set (au_Users db1)" "am_Email u = canonical_email email"
    "(am_ID u, am_Role u) = (case GetUserByEmail db email of Some v \<Rightarrow> (am_ID v, am_Role v) | None \<Rightarrow> (DevLoginUserID, RoleUser))"
    using c by (auto simp: CreateUser_def GetUserByEmail_def Let_def RoleUser_def split: option.splits if_splits dest: row_at_Some)
  note users = CreateUser_ok [OF accounts_okD(1) [OF ok] c]
  let ?u = "u\<lparr>am_PasswordHash := h\<rparr>"
  have "row_at am_Email (am_Email u) (au_Users db') = Some ?u"
    using row_at_map_keep [of am_Email "\<lambda>x. x\<lparr>am_PasswordHash := h\<rparr>" "am_Email u" "\<lambda>x. am_ID x = am_ID u" "au_Users db1"]
      row_at_unique [OF users_okD(2) [OF users] u(1)] unfolding d by simp
  then have v: "VerifyPassword matches db' (canonical_email email) password = Inr ?u" using crypt [OF h] u(2) by (simp add: VerifyPassword_def)
  have "VerifyPassword matches db' email password = Inr ?u \<longleftrightarrow> canonical_email email = email"
    using v u(2) by (auto simp: VerifyPassword_def split: option.splits if_splits dest: row_at_Some)
  moreover have "map_sum id va_Value (VarGet vars' (system_key ''dev_login.email'')) = Inr email"
    using ensure_holds [OF e] ensure_holds [OF p] by (cases "VarGet vars1 (system_key ''dev_login.email'')") auto
  moreover have "map_sum id va_Value (VarGet vars' (system_key ''dev_login.password'')) = Inr password" using ensure_holds [OF p] by simp
  ultimately show ?thesis using v u(3) by (intro exI [of _ email] exI [of _ password] exI [of _ ?u]) simp
qed

text \<open>A first boot on empty stores, with a hash that is the password.\<close>

definition first_boot :: "boot_error option \<times> accounts \<times> Variable list" where
  "first_boot = ReconcileDevLogin (\<lambda>raw. Some (CHR ''h'' # raw)) (Some ''k'') ''v1'' ''v2'' 0 no_accounts []"

theorem devlogin_door_witness:
  "\<exists>email password u. map_sum id va_Value (VarGet (snd (snd first_boot)) (system_key ''dev_login.email'')) = Inr email \<and>
      VerifyPassword (\<lambda>h raw. h = CHR ''h'' # raw) (fst (snd first_boot)) (canonical_email email) password = Inr u \<and> am_ID u = DevLoginUserID"
proof -
  have c: "canonical_email DevLoginEmail = DevLoginEmail" "DevLoginEmail \<noteq> []" by code_simp+
  have "fst first_boot = None"
    by (simp add: first_boot_def ReconcileDevLogin_def ensureSecretSystemVar_def VarGet_def VarSet_def system_key_valid randomPassword_def hex_def hex_digits
        new_variable_def var_key_def system_key_def CreateUser_def c GetUserByID_def no_accounts_def SetPassword_def Let_def VarKeyValidate_def)
  then have "ReconcileDevLogin (\<lambda>raw. Some (CHR ''h'' # raw)) (Some ''k'') ''v1'' ''v2'' 0 no_accounts [] = (None, fst (snd first_boot), snd (snd first_boot))"
    unfolding first_boot_def by (metis prod.collapse)
  from devlogin_door [OF this no_accounts_ok, of "\<lambda>h raw. h = CHR ''h'' # raw"] show ?thesis
    by (fastforce simp: GetUserByEmail_def no_accounts_def)
qed

end
