(* ===== verification/Invitations.thy ===== *)
theory Invitations
  imports Accounts MemberVerbs
begin

text \<open>
  Invitations to workspaces and projects: the table (\<^verbatim>\<open>internal/invitation\<close>) and its verbs (\<^verbatim>\<open>internal/verb/invitation.go\<close>). An
  invitation is bound to an email or carried by a secret link; claiming or redeeming it writes a membership. A nullable column holds the
  empty string for NULL. Redeeming is a read and a transaction, claiming a read and one transaction per invitation, and each is a definition
  of its own. The clock, ids and random bytes are arguments; times are nanoseconds; foreign keys are not modelled, so a
  redemption for a workspace or by a user without a row goes through here and is refused by the database.
\<close>

section \<open>The table\<close>

record Invitation =
  nv_ID :: string
  nv_Email :: string
  nv_Scope :: string
  nv_WorkspaceID :: string
  nv_ProjectID :: string
  nv_Role :: string
  nv_InvitedBy :: string
  nv_Status :: string
  nv_Token :: string
  nv_ExpiresAt :: "int option"
  nv_AcceptedBy :: string
  nv_CreatedAt :: int
  nv_AcceptedAt :: "int option"

definition InvPending :: string where [go_defs]: "InvPending = ''pending''"
definition InvAccepted :: string where [go_defs]: "InvAccepted = ''accepted''"
definition InvRevoked :: string where [go_defs]: "InvRevoked = ''revoked''"
definition InvWorkspace :: string where [go_defs]: "InvWorkspace = ''workspace''"
definition InvProject :: string where [go_defs]: "InvProject = ''project''"
definition DefaultLinkTTL :: int where "DefaultLinkTTL = 14 * 24 * 3600 * second_ns"

datatype inv_error = InvEmailRequired | InvInvalidScope | InvInvalidRole | InvWorkspaceRequired | InvProjectRequired | InvDuplicate
  | InvTokenRandom | InvInsertLink | InvNotFound | InvNotPending | InvExpired

definition NewToken :: "string option \<Rightarrow> string option" where
  "NewToken rng = map_option hex rng"

definition IsValidScope :: "string \<Rightarrow> bool" where
  "IsValidScope s = (s = InvWorkspace \<or> s = InvProject)"

definition validRoleForScope :: "string \<Rightarrow> string \<Rightarrow> bool" where
  "validRoleForScope scope role =
     (if scope = InvWorkspace then IsValidRole role else if scope = InvProject then IsValidProjectRole role else False)"

record InviteInput =
  ni_Email :: string
  ni_Scope :: string
  ni_WorkspaceID :: string
  ni_ProjectID :: string
  ni_Role :: string
  ni_InvitedBy :: string

definition target_error :: "InviteInput \<Rightarrow> inv_error option" where
  "target_error inp =
     (if \<not> IsValidScope (ni_Scope inp) then Some InvInvalidScope
      else if \<not> validRoleForScope (ni_Scope inp) (ni_Role inp) then Some InvInvalidRole
      else if ni_Scope inp = InvWorkspace \<and> ni_WorkspaceID inp = [] then Some InvWorkspaceRequired
      else if ni_Scope inp = InvProject \<and> ni_ProjectID inp = [] then Some InvProjectRequired else None)"

definition pendingExists :: "Invitation list \<Rightarrow> string \<Rightarrow> string \<Rightarrow> string \<Rightarrow> string \<Rightarrow> bool" where
  "pendingExists invs email scope wsID pjID =
     (if scope = InvWorkspace then
        list_ex (\<lambda>v. nv_Status v = InvPending \<and> nv_Scope v = InvWorkspace \<and> nv_Email v = email \<and> nv_WorkspaceID v = wsID) invs
      else list_ex (\<lambda>v. nv_Status v = InvPending \<and> nv_Scope v = InvProject \<and> nv_Email v = email \<and> nv_ProjectID v = pjID) invs)"

definition invCreate :: "string \<Rightarrow> int \<Rightarrow> InviteInput \<Rightarrow> Invitation list \<Rightarrow> inv_error + Invitation \<times> Invitation list" where
  "invCreate newid now inp invs =
     (let email = canonical_email (ni_Email inp) in
      if email = [] then Inl InvEmailRequired
      else case target_error inp of
        Some e \<Rightarrow> Inl e
      | None \<Rightarrow>
          (if pendingExists invs email (ni_Scope inp) (ni_WorkspaceID inp) (ni_ProjectID inp) then Inl InvDuplicate
           else if row_at nv_ID newid invs \<noteq> None then Inl InvDuplicate
           else let v = \<lparr>nv_ID = newid, nv_Email = email, nv_Scope = ni_Scope inp, nv_WorkspaceID = ni_WorkspaceID inp, nv_ProjectID = ni_ProjectID inp,
                  nv_Role = ni_Role inp, nv_InvitedBy = ni_InvitedBy inp, nv_Status = InvPending, nv_Token = [], nv_ExpiresAt = None, nv_AcceptedBy = [],
                  nv_CreatedAt = now, nv_AcceptedAt = None\<rparr> in Inr (v, invs @ [v])))"

definition CreateLink :: "string \<Rightarrow> string option \<Rightarrow> int \<Rightarrow> int \<Rightarrow> InviteInput \<Rightarrow> Invitation list \<Rightarrow> inv_error + Invitation \<times> Invitation list" where
  "CreateLink newid rng ttl now inp invs =
     (case target_error inp of
        Some e \<Rightarrow> Inl e
      | None \<Rightarrow>
          (case NewToken rng of
             None \<Rightarrow> Inl InvTokenRandom
           | Some token \<Rightarrow>
               (if row_at nv_ID newid invs \<noteq> None \<or> row_at nv_Token token invs \<noteq> None then Inl InvInsertLink
                else let v = \<lparr>nv_ID = newid, nv_Email = [], nv_Scope = ni_Scope inp, nv_WorkspaceID = ni_WorkspaceID inp, nv_ProjectID = ni_ProjectID inp,
                       nv_Role = ni_Role inp, nv_InvitedBy = ni_InvitedBy inp, nv_Status = InvPending, nv_Token = token,
                       nv_ExpiresAt = Some (now + (if ttl \<le> 0 then DefaultLinkTTL else ttl)), nv_AcceptedBy = [], nv_CreatedAt = now, nv_AcceptedAt = None\<rparr>
                  in Inr (v, invs @ [v]))))"

definition GetByToken :: "Invitation list \<Rightarrow> string \<Rightarrow> Invitation option" where
  "GetByToken invs token0 = (let token = TrimSpace token0 in if token = [] then None else row_at nv_Token token invs)"

definition invGetByID :: "Invitation list \<Rightarrow> string \<Rightarrow> Invitation option" where
  "invGetByID invs i = row_at nv_ID i invs"

text \<open>The write of a membership at the role of the invitation; on conflict the role is replaced.\<close>

definition grant_membership :: "Invitation \<Rightarrow> string \<Rightarrow> int \<Rightarrow> Tenancy \<Rightarrow> Tenancy option" where
  "grant_membership v userID now tn =
     (if nv_Scope v = InvWorkspace then
        Some (tn\<lparr>tn_Members := upsert_row wm_key (\<lambda>m. m\<lparr>wm_Role := nv_Role v\<rparr>)
          \<lparr>wm_WorkspaceID = nv_WorkspaceID v, wm_UserID = userID, wm_Role = nv_Role v, wm_AddedAt = now, wm_AddedBy = nv_InvitedBy v\<rparr> (tn_Members tn)\<rparr>)
      else if nv_Scope v = InvProject then
        Some (tn\<lparr>tn_ProjectMembers := upsert_row pm_key (\<lambda>m. m\<lparr>pm_Role := nv_Role v\<rparr>)
          \<lparr>pm_ProjectID = nv_ProjectID v, pm_UserID = userID, pm_Role = nv_Role v, pm_AddedAt = now, pm_AddedBy = nv_InvitedBy v, pm_Source = []\<rparr>
          (tn_ProjectMembers tn)\<rparr>)
      else None)"

definition redeem_checked :: "string \<Rightarrow> string \<Rightarrow> int \<Rightarrow> Invitation list \<Rightarrow> inv_error + Invitation" where
  "redeem_checked token userID now invs =
     (if TrimSpace token = [] \<or> userID = [] then Inl InvNotFound
      else case GetByToken invs token of
        None \<Rightarrow> Inl InvNotFound
      | Some v \<Rightarrow>
          (if nv_Status v \<noteq> InvPending then Inl InvNotPending
           else if (case nv_ExpiresAt v of None \<Rightarrow> False | Some t \<Rightarrow> now > t) then Inl InvExpired else Inr v))"

definition redeemOne :: "Invitation \<Rightarrow> string \<Rightarrow> int \<Rightarrow> Tenancy \<times> Invitation list \<Rightarrow> inv_error + Tenancy \<times> Invitation list" where
  "redeemOne v userID now db =
     (case grant_membership v userID now (fst db) of
        None \<Rightarrow> Inl InvInvalidScope
      | Some tn \<Rightarrow>
          (let (rows, n) = update_rows (\<lambda>x. nv_ID x = nv_ID v \<and> nv_Status x = InvPending)
                 (\<lambda>x. x\<lparr>nv_Status := InvAccepted, nv_AcceptedAt := Some now, nv_AcceptedBy := userID\<rparr>) (snd db) in
           if n = 0 then Inl InvNotPending else Inr (tn, rows)))"

definition RedeemToken ::
  "string \<Rightarrow> string \<Rightarrow> int \<Rightarrow> Tenancy \<times> Invitation list \<Rightarrow> inv_error + Invitation \<times> (Tenancy \<times> Invitation list)" where
  "RedeemToken token userID now db =
     (case redeem_checked token userID now (snd db) of
        Inl e \<Rightarrow> Inl e
      | Inr v \<Rightarrow>
          (case redeemOne v userID now db of
             Inl e \<Rightarrow> Inl e
           | Inr db' \<Rightarrow> Inr (v\<lparr>nv_Status := InvAccepted, nv_AcceptedAt := Some now, nv_AcceptedBy := userID\<rparr>, db')))"

definition invList :: "Invitation list \<Rightarrow> string \<Rightarrow> string \<Rightarrow> string \<Rightarrow> Invitation list" where
  "invList invs workspaceID projectID status =
     sort_key (\<lambda>v. - nv_CreatedAt v) (sort_key nv_ID (filter (\<lambda>v. (workspaceID \<noteq> [] \<longrightarrow> nv_WorkspaceID v = workspaceID) \<and>
       (projectID \<noteq> [] \<longrightarrow> nv_ProjectID v = projectID) \<and> (status \<noteq> [] \<longrightarrow> nv_Status v = status)) invs))"

definition invRevoke :: "string \<Rightarrow> Invitation list \<Rightarrow> inv_error + Invitation list" where
  "invRevoke i invs =
     (case invGetByID invs i of
        None \<Rightarrow> Inl InvNotFound
      | Some v \<Rightarrow>
          (if nv_Status v \<noteq> InvPending then Inl InvNotPending
           else Inr (fst (update_rows (\<lambda>x. nv_ID x = i \<and> nv_Status x = InvPending) (\<lambda>x. x\<lparr>nv_Status := InvRevoked\<rparr>) invs))))"

definition pending_for :: "string \<Rightarrow> Invitation list \<Rightarrow> Invitation list" where
  "pending_for email invs = sort_key nv_CreatedAt (sort_key nv_ID (filter (\<lambda>v. nv_Email v = email \<and> nv_Status v = InvPending) invs))"

text \<open>The rows affected are not looked at.\<close>

definition claimOne :: "Invitation \<Rightarrow> string \<Rightarrow> int \<Rightarrow> Tenancy \<times> Invitation list \<Rightarrow> inv_error + Tenancy \<times> Invitation list" where
  "claimOne v userID now db =
     (case grant_membership v userID now (fst db) of
        None \<Rightarrow> Inl InvInvalidScope
      | Some tn \<Rightarrow> Inr (tn, fst (update_rows (\<lambda>x. nv_ID x = nv_ID v \<and> nv_Status x = InvPending)
            (\<lambda>x. x\<lparr>nv_Status := InvAccepted, nv_AcceptedAt := Some now\<rparr>) (snd db))))"

fun claim_all ::
  "Invitation list \<Rightarrow> string \<Rightarrow> int \<Rightarrow> Tenancy \<times> Invitation list \<Rightarrow> (Invitation list \<times> inv_error option) \<times> (Tenancy \<times> Invitation list)" where
  "claim_all [] userID now db = (([], None), db)"
| "claim_all (v # vs) userID now db =
     (case claimOne v userID now db of
        Inl e \<Rightarrow> (([], Some e), db)
      | Inr db' \<Rightarrow>
          (let ((claimed, e), db'') = claim_all vs userID now db' in
           ((v\<lparr>nv_Status := InvAccepted, nv_AcceptedAt := Some now\<rparr> # claimed, e), db'')))"

definition ClaimForEmail ::
  "string \<Rightarrow> string \<Rightarrow> int \<Rightarrow> Tenancy \<times> Invitation list \<Rightarrow> (Invitation list \<times> inv_error option) \<times> (Tenancy \<times> Invitation list)" where
  "ClaimForEmail email0 userID now db =
     (let email = canonical_email email0 in
      if email = [] \<or> userID = [] then (([], None), db) else claim_all (pending_for email (snd db)) userID now db)"

section \<open>The verbs\<close>

definition ws_admin :: "Tenancy \<Rightarrow> string \<Rightarrow> string \<Rightarrow> bool" where
  "ws_admin tn caller wsID = (if wsID = [] then False else case wsGetRole (tn_Members tn) wsID caller of None \<Rightarrow> False | Some r \<Rightarrow> admin_role r)"

definition canInvite :: "Tenancy \<Rightarrow> accounts \<Rightarrow> Ctx \<Rightarrow> string \<Rightarrow> string \<Rightarrow> string \<Rightarrow> bool" where
  "canInvite tn acc ctx scope workspaceID projectID =
     (let caller = caller_id ctx in
      if caller = [] then False
      else if tn_AuthStore tn \<and> (case GetUserByID acc caller of None \<Rightarrow> False | Some u \<Rightarrow> am_Role u = UserRoleAdmin) then True
      else if \<not> tn_WorkspaceStore tn then False
      else if scope = InvWorkspace then ws_admin tn caller workspaceID
      else if scope = InvProject then
        (if tn_ProjectStore tn \<and> projectID \<noteq> [] then
           (case pjGetByID (tn_Projects tn) projectID of None \<Rightarrow> False | Some p \<Rightarrow> ws_admin tn caller (pj_WorkspaceID p)) \<or>
           pjGetRole (tn_ProjectMembers tn) projectID caller = Some PjRoleAdmin
         else False)
      else False)"

definition alreadyMember :: "Tenancy \<Rightarrow> string \<Rightarrow> string \<Rightarrow> string \<Rightarrow> string \<Rightarrow> bool" where
  "alreadyMember tn scope wsID pjID userID =
     (if userID = [] then False
      else if scope = InvWorkspace then tn_WorkspaceStore tn \<and> wsID \<noteq> [] \<and> wsGetRole (tn_Members tn) wsID userID \<noteq> None
      else if scope = InvProject then
        (tn_ProjectStore tn \<and> pjID \<noteq> [] \<and> pjGetRole (tn_ProjectMembers tn) pjID userID \<noteq> None) \<or> (tn_WorkspaceStore tn \<and> ws_admin tn userID wsID)
      else False)"

datatype invite_error = InviteNoStore | InviteInvalidScope | InviteProjectRequired | InviteForbidden | InviteInvalidRole string | InviteDuplicate
  | InviteStore inv_error | InviteClaim inv_error | InviteTargetRequired | InviteIDRequired | InviteNotFound | InviteNotPending
  | InviteTokenRequired | InviteSignIn | InviteAlreadyRedeemed | InviteExpired

datatype create_reply = LinkCreated Invitation string | AlreadyMember string | InviteCreated Invitation

definition redeemPath :: "string \<Rightarrow> string" where "redeemPath token = ''/invite/'' @ token"

definition create_error :: "string \<Rightarrow> inv_error \<Rightarrow> invite_error" where
  "create_error scope e = (case e of InvDuplicate \<Rightarrow> InviteDuplicate | InvInvalidRole \<Rightarrow> InviteInvalidRole scope | InvInvalidScope \<Rightarrow> InviteInvalidScope | _ \<Rightarrow> InviteStore e)"

definition invited :: "Tenancy \<Rightarrow> accounts \<Rightarrow> string \<Rightarrow> Account option" where
  "invited tn acc email = (if tn_AuthStore tn then GetUserByEmail acc email else None)"

definition invite_by_email ::
  "Tenancy \<Rightarrow> accounts \<Rightarrow> InviteInput \<Rightarrow> string \<Rightarrow> int \<Rightarrow> Invitation list \<Rightarrow> (invite_error + create_reply) \<times> (Tenancy \<times> Invitation list)" where
  "invite_by_email tn acc inp newid now invs =
     (let invitee = invited tn acc (ni_Email inp) in
      if (case invitee of None \<Rightarrow> False | Some u \<Rightarrow> alreadyMember tn (ni_Scope inp) (ni_WorkspaceID inp) (ni_ProjectID inp) (am_ID u)) then
        (Inr (AlreadyMember (am_Email (the invitee))), (tn, invs))
      else case invCreate newid now inp invs of
        Inl e \<Rightarrow> (Inl (create_error (ni_Scope inp) e), (tn, invs))
      | Inr (v, invs1) \<Rightarrow>
          (case invitee of
             None \<Rightarrow> (Inr (InviteCreated v), (tn, invs1))
           | Some u \<Rightarrow>
               (case ClaimForEmail (nv_Email v) (am_ID u) now (tn, invs1) of
                  ((claimed, Some e), db) \<Rightarrow> (Inl (InviteClaim e), db)
                | ((claimed, None), db) \<Rightarrow> (Inr (InviteCreated (v\<lparr>nv_Status := InvAccepted\<rparr>)), db))))"

text \<open>The workspace of a project invitation is that of the project, when it is found.\<close>

definition invite_workspace :: "Tenancy \<Rightarrow> InviteInput \<Rightarrow> string" where
  "invite_workspace tn req =
     (if ni_Scope req = InvProject \<and> tn_ProjectStore tn then
        (case pjGetByID (tn_Projects tn) (TrimSpace (ni_ProjectID req)) of Some p \<Rightarrow> pj_WorkspaceID p | None \<Rightarrow> TrimSpace (ni_WorkspaceID req))
      else TrimSpace (ni_WorkspaceID req))"

text \<open>The request is the input without an inviter.\<close>

definition invokeInvitationCreate ::
  "bool \<Rightarrow> accounts \<Rightarrow> Ctx \<Rightarrow> InviteInput \<Rightarrow> string \<Rightarrow> string option \<Rightarrow> int \<Rightarrow> Tenancy \<times> Invitation list \<Rightarrow>
   (invite_error + create_reply) \<times> (Tenancy \<times> Invitation list)" where
  "invokeInvitationCreate wired acc ctx req newid rng now db =
     (let tn = fst db; invs = snd db; wsID = invite_workspace tn req; pjID = TrimSpace (ni_ProjectID req);
          inp = req\<lparr>ni_WorkspaceID := wsID, ni_ProjectID := pjID, ni_InvitedBy := caller_id ctx\<rparr> in
      if \<not> wired then (Inl InviteNoStore, db)
      else if \<not> IsValidScope (ni_Scope req) then (Inl InviteInvalidScope, db)
      else if ni_Scope req = InvProject \<and> pjID = [] then (Inl InviteProjectRequired, db)
      else if \<not> canInvite tn acc ctx (ni_Scope req) wsID pjID then (Inl InviteForbidden, db)
      else if TrimSpace (ni_Email req) = [] then
        (case CreateLink newid rng 0 now inp invs of
           Inl e \<Rightarrow> (Inl (if e = InvInvalidRole then InviteInvalidRole (ni_Scope req) else InviteStore e), db)
         | Inr (v, invs1) \<Rightarrow> (Inr (LinkCreated v (redeemPath (nv_Token v))), (tn, invs1)))
      else invite_by_email tn acc inp newid now invs)"

definition invokeInvitationList :: "bool \<Rightarrow> accounts \<Rightarrow> Ctx \<Rightarrow> string \<Rightarrow> string \<Rightarrow> string \<Rightarrow> Tenancy \<times> Invitation list \<Rightarrow> invite_error + Invitation list" where
  "invokeInvitationList wired acc ctx workspaceID projectID status db =
     (let wsID = TrimSpace workspaceID; pjID = TrimSpace projectID in
      if \<not> wired then Inl InviteNoStore
      else if wsID = [] \<and> pjID = [] then Inl InviteTargetRequired
      else if \<not> canInvite (fst db) acc ctx (if pjID \<noteq> [] then InvProject else InvWorkspace) wsID pjID then Inl InviteForbidden
      else Inr (invList (snd db) wsID pjID (TrimSpace status)))"

definition invokeInvitationRevoke :: "bool \<Rightarrow> accounts \<Rightarrow> Ctx \<Rightarrow> string \<Rightarrow> Tenancy \<times> Invitation list \<Rightarrow> invite_error + string \<times> (Tenancy \<times> Invitation list)" where
  "invokeInvitationRevoke wired acc ctx i db =
     (if \<not> wired then Inl InviteNoStore
      else if TrimSpace i = [] then Inl InviteIDRequired
      else case invGetByID (snd db) i of
        None \<Rightarrow> Inl InviteNotFound
      | Some v \<Rightarrow>
          (if \<not> canInvite (fst db) acc ctx (nv_Scope v) (nv_WorkspaceID v) (nv_ProjectID v) then Inl InviteForbidden
           else case invRevoke i (snd db) of
             Inl e \<Rightarrow> Inl (if e = InvNotPending then InviteNotPending else InviteStore e)
           | Inr invs \<Rightarrow> Inr (i, (fst db, invs))))"

definition invokeInvitationRedeem :: "bool \<Rightarrow> Ctx \<Rightarrow> string \<Rightarrow> int \<Rightarrow> Tenancy \<times> Invitation list \<Rightarrow> invite_error + Invitation \<times> (Tenancy \<times> Invitation list)" where
  "invokeInvitationRedeem wired ctx token now db =
     (if \<not> wired then Inl InviteNoStore
      else if TrimSpace token = [] then Inl InviteTokenRequired
      else if caller_id ctx = [] then Inl InviteSignIn
      else case RedeemToken token (caller_id ctx) now db of
        Inl e \<Rightarrow> Inl (case e of InvNotFound \<Rightarrow> InviteNotFound | InvNotPending \<Rightarrow> InviteAlreadyRedeemed | InvExpired \<Rightarrow> InviteExpired | _ \<Rightarrow> InviteStore e)
      | Inr x \<Rightarrow> Inr x)"

end
