(* ===== verification/InvitationProps.thy ===== *)
theory InvitationProps
  imports Invitations
begin

text \<open>
  Invitations under interleaving: any number of redemptions and claims may stand between their read and their write while invitations are made and revoked and
  other verbs change the memberships. The last field records who redeemed what.
\<close>

record invite_world =
  iw_tn :: Tenancy
  iw_invs :: "Invitation list"
  iw_reads :: "(Invitation \<times> string) list"
  iw_claims :: "(Invitation \<times> string) list"
  iw_redeemed :: "(Invitation \<times> string) list"

inductive invite_step :: "invite_world \<Rightarrow> invite_world \<Rightarrow> bool" where
  make: "invCreate newid now inp (iw_invs w) = Inr (v, invs) \<Longrightarrow> invite_step w (w\<lparr>iw_invs := invs\<rparr>)"
| link: "CreateLink newid rng ttl now inp (iw_invs w) = Inr (v, invs) \<Longrightarrow> invite_step w (w\<lparr>iw_invs := invs\<rparr>)"
| revoke: "invRevoke i (iw_invs w) = Inr invs \<Longrightarrow> invite_step w (w\<lparr>iw_invs := invs\<rparr>)"
| redeem_read: "redeem_checked token user now (iw_invs w) = Inr v \<Longrightarrow> invite_step w (w\<lparr>iw_reads := (v, user) # iw_reads w\<rparr>)"
| redeem_write: "(v, user) \<in> set (iw_reads w) \<Longrightarrow> redeemOne v user now (iw_tn w, iw_invs w) = Inr (tn, invs) \<Longrightarrow>
    invite_step w (w\<lparr>iw_tn := tn, iw_invs := invs, iw_reads := remove1 (v, user) (iw_reads w), iw_redeemed := (v, user) # iw_redeemed w\<rparr>)"
| claim_read: "v \<in> set (pending_for email (iw_invs w)) \<Longrightarrow> invite_step w (w\<lparr>iw_claims := (v, user) # iw_claims w\<rparr>)"
| claim_write: "(v, user) \<in> set (iw_claims w) \<Longrightarrow> claimOne v user now (iw_tn w, iw_invs w) = Inr (tn, invs) \<Longrightarrow>
    invite_step w (w\<lparr>iw_tn := tn, iw_invs := invs, iw_claims := remove1 (v, user) (iw_claims w)\<rparr>)"
| members: "invite_step w (w\<lparr>iw_tn := tn\<rparr>)"

definition no_invites :: "Tenancy \<Rightarrow> invite_world" where
  "no_invites tn = \<lparr>iw_tn = tn, iw_invs = [], iw_reads = [], iw_claims = [], iw_redeemed = []\<rparr>"

inductive invite_run :: "invite_world \<Rightarrow> bool" where
  begin_run: "invite_run (no_invites tn)"
| step_run: "invite_run w \<Longrightarrow> invite_step w w' \<Longrightarrow> invite_run w'"

section \<open>What an operation does to the table\<close>

text \<open>An invitation keeps its target, its role and its token; one that is no longer pending does not change at all.\<close>

definition same_invite :: "Invitation \<Rightarrow> Invitation \<Rightarrow> bool" where
  "same_invite a b \<longleftrightarrow> nv_ID a = nv_ID b \<and> nv_Scope a = nv_Scope b \<and> nv_WorkspaceID a = nv_WorkspaceID b \<and> nv_ProjectID a = nv_ProjectID b \<and>
     nv_Role a = nv_Role b \<and> nv_Token a = nv_Token b"

definition evolves :: "Invitation list \<Rightarrow> Invitation list \<Rightarrow> bool" where
  "evolves invs invs' \<longleftrightarrow> (unique_key nv_ID invs \<longrightarrow> unique_key nv_ID invs') \<and>
     (\<forall>v \<in> set invs. \<exists>v' \<in> set invs'. same_invite v' v \<and> (nv_Status v \<noteq> InvPending \<longrightarrow> v' = v))"

lemma same_invite_simps [simp]: "same_invite v v"
  "same_invite (v\<lparr>nv_Status := s\<rparr>) w = same_invite v w" "same_invite (v\<lparr>nv_AcceptedAt := t\<rparr>) w = same_invite v w"
  "same_invite (v\<lparr>nv_AcceptedBy := u\<rparr>) w = same_invite v w"
  by (simp_all add: same_invite_def)

lemma same_invite_trans: "same_invite a b \<Longrightarrow> same_invite b c \<Longrightarrow> same_invite a c"
  by (simp add: same_invite_def)

lemma evolves_add: "row_at nv_ID (nv_ID v) invs = None \<Longrightarrow> evolves invs (invs @ [v])"
  unfolding evolves_def
proof (intro conjI impI ballI)
  assume "row_at nv_ID (nv_ID v) invs = None" and "unique_key nv_ID invs"
  then show "unique_key nv_ID (invs @ [v])" by (auto simp: unique_key_def row_at_None)
next
  fix x assume "x \<in> set invs"
  then show "\<exists>y \<in> set (invs @ [v]). same_invite y x \<and> (nv_Status x \<noteq> InvPending \<longrightarrow> y = x)" by (intro bexI [of _ x]) simp_all
qed

lemma evolves_update:
  assumes "\<And>x. same_invite (f x) x" and "\<And>x. P x \<Longrightarrow> nv_Status x = InvPending"
  shows "evolves invs (fst (update_rows P f invs))"
proof -
  have "nv_ID (f x) = nv_ID x" for x using assms(1) [of x] by (simp add: same_invite_def)
  then have "unique_key nv_ID invs \<longrightarrow> unique_key nv_ID (fst (update_rows P f invs))" by (simp add: unique_key_update)
  moreover have "\<exists>v' \<in> set (fst (update_rows P f invs)). same_invite v' v \<and> (nv_Status v \<noteq> InvPending \<longrightarrow> v' = v)" if "v \<in> set invs" for v
    using assms that by (intro bexI [of _ "if P v then f v else v"]) (auto simp: update_rows_def)
  ultimately show ?thesis by (simp add: evolves_def)
qed

lemma create_evolves:
  "invCreate newid now inp invs = Inr (v, invs') \<Longrightarrow> evolves invs invs'"
  "CreateLink newid rng ttl now inp invs = Inr (v, invs') \<Longrightarrow> evolves invs invs'"
  "invRevoke i invs = Inr invs' \<Longrightarrow> evolves invs invs'"
  by (auto simp: invCreate_def CreateLink_def invRevoke_def Let_def split: if_splits option.splits intro!: evolves_add evolves_update)

lemma claim_evolves: "claimOne v u now (tn, invs) = Inr (tn', invs') \<Longrightarrow> evolves invs invs'"
  by (auto simp: claimOne_def split: option.splits intro!: evolves_update)

lemma redeem_rows:
  assumes "redeemOne v u now (tn, invs) = Inr (tn', invs')"
  shows "evolves invs invs' \<and> grant_membership v u now tn = Some tn' \<and> (\<exists>x \<in> set invs. nv_ID x = nv_ID v \<and> nv_Status x = InvPending \<and>
    x\<lparr>nv_Status := InvAccepted, nv_AcceptedAt := Some now, nv_AcceptedBy := u\<rparr> \<in> set invs')"
proof -
  let ?P = "\<lambda>x. nv_ID x = nv_ID v \<and> nv_Status x = InvPending" and ?f = "\<lambda>x. x\<lparr>nv_Status := InvAccepted, nv_AcceptedAt := Some now, nv_AcceptedBy := u\<rparr>"
  have r: "invs' = fst (update_rows ?P ?f invs)" "0 < snd (update_rows ?P ?f invs)" "grant_membership v u now tn = Some tn'"
    using assms by (auto simp: redeemOne_def split: option.splits prod.splits if_splits)
  obtain x where x: "x \<in> set invs" "?P x" using r(2) unfolding update_rows_count by blast
  have "?f x \<in> set invs'" using x unfolding r(1) update_rows_def by (auto intro!: image_eqI [of _ _ x])
  moreover have "evolves invs invs'" unfolding r(1) by (rule evolves_update) simp_all
  ultimately show ?thesis using x r(3) by blast
qed

section \<open>The invariant\<close>

definition redeemed_ok :: "Invitation list \<Rightarrow> (Invitation \<times> string) list \<Rightarrow> bool" where
  "redeemed_ok invs log \<longleftrightarrow> distinct (map (nv_ID \<circ> fst) log) \<and>
     (\<forall>p \<in> set log. \<exists>x \<in> set invs. same_invite x (fst p) \<and> nv_Status x = InvAccepted \<and> nv_AcceptedBy x = snd p)"

definition invite_inv :: "invite_world \<Rightarrow> bool" where
  "invite_inv w \<longleftrightarrow> unique_key nv_ID (iw_invs w) \<and> redeemed_ok (iw_invs w) (iw_redeemed w) \<and>
     (\<forall>p \<in> set (iw_reads w). \<exists>x \<in> set (iw_invs w). same_invite x (fst p))"

lemma redeemed_row:
  "invite_inv w \<Longrightarrow> p \<in> set (iw_redeemed w) \<Longrightarrow> \<exists>x \<in> set (iw_invs w). same_invite x (fst p) \<and> nv_Status x = InvAccepted \<and> nv_AcceptedBy x = snd p"
  by (simp add: invite_inv_def redeemed_ok_def)

lemma read_row: "invite_inv w \<Longrightarrow> p \<in> set (iw_reads w) \<Longrightarrow> \<exists>x \<in> set (iw_invs w). same_invite x (fst p)"
  by (simp add: invite_inv_def)

lemma status_names [simp]: "InvAccepted \<noteq> InvPending" "InvPending \<noteq> InvAccepted" "InvRevoked \<noteq> InvPending" "InvAccepted \<noteq> InvRevoked"
  by (simp_all add: InvAccepted_def InvPending_def InvRevoked_def)

lemma invite_inv_evolves:
  assumes "invite_inv w" and e: "evolves (iw_invs w) invs" and "set rs \<subseteq> set (iw_reads w)"
  shows "invite_inv (w\<lparr>iw_invs := invs, iw_reads := rs, iw_tn := tn, iw_claims := cs\<rparr>)"
proof -
  have keep: "\<exists>y \<in> set invs. same_invite y x \<and> (nv_Status x \<noteq> InvPending \<longrightarrow> y = x)" if "x \<in> set (iw_invs w)" for x using e that by (simp add: evolves_def)
  have kept: "\<exists>x \<in> set invs. same_invite x v \<and> nv_Status x = InvAccepted \<and> nv_AcceptedBy x = u"
    if "x \<in> set (iw_invs w)" "same_invite x v" "nv_Status x = InvAccepted" "nv_AcceptedBy x = u" for x v u
  proof -
    have "x \<in> set invs" using keep [OF that(1)] that(3) by auto
    then show ?thesis using that by (intro bexI [of _ x]) simp_all
  qed
  have "redeemed_ok invs (iw_redeemed w)" unfolding redeemed_ok_def
  proof (intro conjI ballI)
    show "distinct (map (nv_ID \<circ> fst) (iw_redeemed w))" using assms(1) by (simp add: invite_inv_def redeemed_ok_def)
    fix p assume "p \<in> set (iw_redeemed w)"
    then obtain x where "x \<in> set (iw_invs w)" "same_invite x (fst p)" "nv_Status x = InvAccepted" "nv_AcceptedBy x = snd p"
      using redeemed_row [OF assms(1)] by blast
    then show "\<exists>x \<in> set invs. same_invite x (fst p) \<and> nv_Status x = InvAccepted \<and> nv_AcceptedBy x = snd p"
      by (rule kept)
  qed
  moreover have "\<exists>x \<in> set invs. same_invite x (fst p)" if "p \<in> set rs" for p
  proof -
    have "p \<in> set (iw_reads w)" using assms(3) that by blast
    then obtain x where x: "x \<in> set (iw_invs w)" "same_invite x (fst p)" using read_row [OF assms(1)] by blast
    obtain y where y: "y \<in> set invs" "same_invite y x" using keep [OF x(1)] by blast
    show ?thesis using y(1) same_invite_trans [OF y(2) x(2)] by blast
  qed
  ultimately show ?thesis using assms(1) e by (simp add: invite_inv_def evolves_def)
qed

lemma invite_inv_redeem:
  assumes i: "invite_inv w" and m: "(v, u) \<in> set (iw_reads w)" and r: "redeemOne v u now (iw_tn w, iw_invs w) = Inr (tn, invs)"
  shows "invite_inv (w\<lparr>iw_tn := tn, iw_invs := invs, iw_reads := remove1 (v, u) (iw_reads w), iw_redeemed := (v, u) # iw_redeemed w\<rparr>)"
proof -
  note rows = redeem_rows [OF r]
  have "invite_inv (w\<lparr>iw_invs := invs, iw_reads := remove1 (v, u) (iw_reads w), iw_tn := tn, iw_claims := iw_claims w\<rparr>)"
    using rows by (intro invite_inv_evolves [OF i] set_remove1_subset) simp
  moreover obtain x where x: "x \<in> set (iw_invs w)" "nv_ID x = nv_ID v" "nv_Status x = InvPending"
    "x\<lparr>nv_Status := InvAccepted, nv_AcceptedAt := Some now, nv_AcceptedBy := u\<rparr> \<in> set invs" using rows by blast
  have uk: "unique_key nv_ID (iw_invs w)" using i by (simp add: invite_inv_def)
  have one: "y = x" if "y \<in> set (iw_invs w)" "nv_ID y = nv_ID v" for y
    using that x(1,2) uk by (metis unique_key_def distinct_map inj_on_def)
  have sx: "same_invite x v"
  proof -
    obtain y where y: "y \<in> set (iw_invs w)" "same_invite y v" using read_row [OF i m] by auto
    then show ?thesis using one [of y] by (simp add: same_invite_def)
  qed
  have "nv_ID (fst p) \<noteq> nv_ID v" if m': "p \<in> set (iw_redeemed w)" for p
  proof
    assume n: "nv_ID (fst p) = nv_ID v"
    obtain y where "y \<in> set (iw_invs w)" "same_invite y (fst p)" "nv_Status y = InvAccepted" using redeemed_row [OF i m'] by blast
    then show False using one [of y] n x(3) by (simp add: same_invite_def)
  qed
  then have "nv_ID v \<notin> set (map (nv_ID \<circ> fst) (iw_redeemed w))" by (metis (no_types, lifting) comp_apply imageE set_map)
  moreover have "\<exists>y \<in> set invs. same_invite y v \<and> nv_Status y = InvAccepted \<and> nv_AcceptedBy y = u" using x(4) sx by (intro bexI [OF _ x(4)]) simp
  ultimately show ?thesis by (simp add: invite_inv_def redeemed_ok_def)
qed

lemma invite_inv_step:
  assumes "invite_step w w'" and i: "invite_inv w"
  shows "invite_inv w'"
  using assms(1)
proof (cases rule: invite_step.cases)
  case (make newid now inp v invs)
  then show ?thesis using invite_inv_evolves [OF i create_evolves(1) [OF make(2)], where rs = "iw_reads w" and tn = "iw_tn w" and cs = "iw_claims w"] by simp
next
  case (link newid rng ttl now inp v invs)
  then show ?thesis using invite_inv_evolves [OF i create_evolves(2) [OF link(2)], where rs = "iw_reads w" and tn = "iw_tn w" and cs = "iw_claims w"] by simp
next
  case (revoke j invs)
  then show ?thesis using invite_inv_evolves [OF i create_evolves(3) [OF revoke(2)], where rs = "iw_reads w" and tn = "iw_tn w" and cs = "iw_claims w"] by simp
next
  case (redeem_read token user now v)
  have "v \<in> set (iw_invs w)" using redeem_read(2)
    by (auto simp: redeem_checked_def GetByToken_def Let_def split: if_splits option.splits dest!: row_at_Some)
  then have "\<exists>x \<in> set (iw_invs w). same_invite x v" using same_invite_simps(1) by blast
  then show ?thesis using i redeem_read(1) by (simp add: invite_inv_def)
next
  case (redeem_write v user now tn invs)
  then show ?thesis using invite_inv_redeem [OF i redeem_write(2,3)] by simp
next
  case (claim_write v user now tn invs)
  then show ?thesis using invite_inv_evolves [OF i claim_evolves [OF claim_write(3)], where rs = "iw_reads w" and tn = tn and cs = "remove1 (v, user) (iw_claims w)"] by (simp add: invite_inv_def)
qed (use i in \<open>simp_all add: invite_inv_def\<close>)

lemma invite_inv_run: "invite_run w \<Longrightarrow> invite_inv w"
proof (induction rule: invite_run.induct)
  case (begin_run tn)
  then show ?case by (simp add: invite_inv_def no_invites_def redeemed_ok_def unique_key_def)
qed (rule invite_inv_step)

section \<open>Links\<close>

lemma high_bytes:
  "space2 a b \<Longrightarrow> (128 :: nat) \<le> of_char a \<and> (128 :: nat) \<le> of_char b"
  "space3 a b c \<Longrightarrow> (128 :: nat) \<le> of_char a \<and> (128 :: nat) \<le> of_char c"
  by (auto simp: space2_def space3_def)

lemma space_len_low: "of_char c < (128 :: nat) \<Longrightarrow> \<not> ascii_space c \<Longrightarrow> space_len (c # s) = 0 \<and> space_len_rev (c # s) = 0"
  using high_bytes by (cases "c # s" rule: space_len.cases) fastforce+

lemma hex_digit_low: "n < 16 \<Longrightarrow> of_char (hex_digit n) < (128 :: nat) \<and> \<not> ascii_space (hex_digit n)"
proof -
  assume n: "n < 16"
  then have c: "of_char (hex_digit n) = (if n < 10 then n + 48 else n + 87)" by (simp add: hex_digit_def)
  have "\<not> ascii_space d" if "(48 :: nat) \<le> of_char d" for d using that by (auto simp: ascii_space_def)
  then show ?thesis using n c by simp
qed

lemma space_len_hex: "n < 16 \<Longrightarrow> space_len (hex_digit n # s) = 0 \<and> space_len_rev (hex_digit n # s) = 0"
  using hex_digit_low space_len_low by blast

lemma trim_hex: "b \<noteq> [] \<Longrightarrow> TrimSpace (hex b) = hex b \<and> hex b \<noteq> []"
proof -
  assume "b \<noteq> []"
  then obtain c x where l: "hex b = hex_digit (of_char c div 16) # x" by (cases b) (simp_all add: hex_def)
  obtain d y where "b = y @ [d]" using \<open>b \<noteq> []\<close> by (cases b rule: rev_cases) simp_all
  then obtain z where r: "rev (hex b) = hex_digit (of_char d mod 16) # z" by (simp add: hex_def)
  have "of_char c div 16 < (16 :: nat)" using nat_of_char_less_256 [of c] by presburger
  then have "trim_with space_len (hex b) = hex b" using space_len_hex unfolding l by (intro trim_with_id) blast
  moreover have "of_char d mod 16 < (16 :: nat)" by simp
  then have "trim_with space_len_rev (rev (hex b)) = rev (hex b)" using space_len_hex unfolding r by (intro trim_with_id) blast
  ultimately show ?thesis using l by (simp add: TrimSpace_def)
qed

lemma granted_role:
  assumes "nv_Scope v = InvWorkspace"
  shows "\<exists>tn'. grant_membership v u now tn = Some tn' \<and> wsGetRole (tn_Members tn') (nv_WorkspaceID v) u = Some (nv_Role v)"
proof -
  let ?m = "\<lparr>wm_WorkspaceID = nv_WorkspaceID v, wm_UserID = u, wm_Role = nv_Role v, wm_AddedAt = now, wm_AddedBy = nv_InvitedBy v\<rparr>"
  have "wm_key ?m = (nv_WorkspaceID v, u)" by (simp add: wm_key_def)
  then have "row_at wm_key (nv_WorkspaceID v, u) (upsert_row wm_key (\<lambda>m. m\<lparr>wm_Role := nv_Role v\<rparr>) ?m (tn_Members tn)) =
    Some (case row_at wm_key (nv_WorkspaceID v, u) (tn_Members tn) of None \<Rightarrow> ?m | Some x \<Rightarrow> x\<lparr>wm_Role := nv_Role v\<rparr>)"
    by (subst row_at_upsert) (simp_all add: wm_key_def)
  then show ?thesis using assms by (simp add: grant_membership_def wsGetRole_def split: option.split)
qed

lemma redeem_grants:
  assumes "v \<in> set invs" and "row_at nv_Token (nv_Token v) invs = Some v" and "TrimSpace (nv_Token v) = nv_Token v" "nv_Token v \<noteq> []"
    and "nv_Status v = InvPending" and "\<forall>t. nv_ExpiresAt v = Some t \<longrightarrow> now \<le> t" and "nv_Scope v = InvWorkspace" and "u \<noteq> []"
  shows "\<exists>v' tn' invs'. RedeemToken (nv_Token v) u now (tn, invs) = Inr (v', (tn', invs')) \<and>
    wsGetRole (tn_Members tn') (nv_WorkspaceID v) u = Some (nv_Role v)"
proof -
  have "redeem_checked (nv_Token v) u now invs = Inr v"
    using assms by (auto simp: redeem_checked_def GetByToken_def Let_def split: option.splits)
  moreover obtain tn' where g: "grant_membership v u now tn = Some tn'" "wsGetRole (tn_Members tn') (nv_WorkspaceID v) u = Some (nv_Role v)"
    using granted_role [OF assms(7)] by blast
  moreover have "snd (update_rows (\<lambda>x. nv_ID x = nv_ID v \<and> nv_Status x = InvPending) f invs) \<noteq> 0" for f
    using assms(1,5) unfolding update_rows_def by (auto simp: filter_empty_conv)
  ultimately show ?thesis by (simp add: RedeemToken_def redeemOne_def split_beta)
qed

section \<open>Theorems\<close>

text \<open>
  C11: an invitation is redeemed at most once, in every interleaving of redemptions with claims, revocations, new invitations and changes of the memberships:
  the ids of the redemptions that went through are distinct, and the row of each is still accepted by the user who redeemed it, at the target and the role
  it was made for.
\<close>
theorem invitation_redeemed_once:
  assumes "invite_run w"
  shows "distinct (map (nv_ID \<circ> fst) (iw_redeemed w)) \<and>
    (\<forall>v u. (v, u) \<in> set (iw_redeemed w) \<longrightarrow> (\<exists>x \<in> set (iw_invs w). nv_ID x = nv_ID v \<and> nv_Status x = InvAccepted \<and> nv_AcceptedBy x = u \<and>
      nv_Scope x = nv_Scope v \<and> nv_WorkspaceID x = nv_WorkspaceID v \<and> nv_ProjectID x = nv_ProjectID v \<and> nv_Role x = nv_Role v))"
proof (intro conjI allI impI)
  note i = invite_inv_run [OF assms]
  show "distinct (map (nv_ID \<circ> fst) (iw_redeemed w))" using i by (simp add: invite_inv_def redeemed_ok_def)
  fix v u assume "(v, u) \<in> set (iw_redeemed w)"
  then obtain x where "x \<in> set (iw_invs w)" "same_invite x v" "nv_Status x = InvAccepted" "nv_AcceptedBy x = u" using redeemed_row [OF i] by fastforce
  then show "\<exists>x \<in> set (iw_invs w). nv_ID x = nv_ID v \<and> nv_Status x = InvAccepted \<and> nv_AcceptedBy x = u \<and>
      nv_Scope x = nv_Scope v \<and> nv_WorkspaceID x = nv_WorkspaceID v \<and> nv_ProjectID x = nv_ProjectID v \<and> nv_Role x = nv_Role v"
    by (intro bexI [of _ x]) (simp_all add: same_invite_def)
qed

definition link_request :: "string \<Rightarrow> string \<Rightarrow> InviteInput" where
  "link_request ws role = \<lparr>ni_Email = [], ni_Scope = InvWorkspace, ni_WorkspaceID = ws, ni_ProjectID = [], ni_Role = role, ni_InvitedBy = []\<rparr>"

text \<open>
  C16: making an invitation has no ceiling: whoever may invite to a workspace makes a link for any valid role, redeems it, and has that role. Adding or updating a
  member refuses a role above that of the caller; in the witness an administrator to whom that check denies the owner role becomes an owner.
\<close>
theorem invitation_lifts_ceiling:
  assumes "canInvite tn acc ctx InvWorkspace ws []" and "ws \<noteq> []" "TrimSpace ws = ws" and "IsValidRole role" and "b \<noteq> []"
    and "row_at nv_ID newid invs = None" "row_at nv_Token (hex b) invs = None" and "later \<le> now + DefaultLinkTTL"
  shows "\<exists>v tn' invs'. invokeInvitationCreate True acc ctx (link_request ws role) newid (Some b) now (tn, invs) =
      (Inr (LinkCreated v (redeemPath (hex b))), (tn, invs @ [v])) \<and>
    (\<exists>v'. invokeInvitationRedeem True ctx (hex b) later (tn, invs @ [v]) = Inr (v', (tn', invs'))) \<and>
    wsGetRole (tn_Members tn') ws (caller_id ctx) = Some role"
proof -
  let ?v = "\<lparr>nv_ID = newid, nv_Email = [], nv_Scope = InvWorkspace, nv_WorkspaceID = ws, nv_ProjectID = [], nv_Role = role, nv_InvitedBy = caller_id ctx,
    nv_Status = InvPending, nv_Token = hex b, nv_ExpiresAt = Some (now + DefaultLinkTTL), nv_AcceptedBy = [], nv_CreatedAt = now, nv_AcceptedAt = None\<rparr>"
  have scope: "IsValidScope InvWorkspace" "InvWorkspace \<noteq> InvProject" by (simp_all add: IsValidScope_def InvWorkspace_def InvProject_def)
  have c: "caller_id ctx \<noteq> []" using assms(1) by (auto simp: canInvite_def Let_def)
  have "target_error \<lparr>ni_Email = [], ni_Scope = InvWorkspace, ni_WorkspaceID = ws, ni_ProjectID = [], ni_Role = role, ni_InvitedBy = caller_id ctx\<rparr> = None"
    using assms(2,4) scope by (simp add: target_error_def validRoleForScope_def)
  then have "invokeInvitationCreate True acc ctx (link_request ws role) newid (Some b) now (tn, invs) = (Inr (LinkCreated ?v (redeemPath (hex b))), (tn, invs @ [?v]))"
    using assms(1,3,6,7) scope by (simp add: invokeInvitationCreate_def link_request_def invite_workspace_def CreateLink_def NewToken_def Let_def)
  moreover have "\<exists>v' tn' invs'. RedeemToken (nv_Token ?v) (caller_id ctx) later (tn, invs @ [?v]) = Inr (v', (tn', invs')) \<and>
    wsGetRole (tn_Members tn') (nv_WorkspaceID ?v) (caller_id ctx) = Some (nv_Role ?v)"
    by (rule redeem_grants) (use assms(5,7,8) trim_hex [of b] c in simp_all)
  ultimately show ?thesis using trim_hex [OF assms(5)] c by (fastforce simp: invokeInvitationRedeem_def)
qed

text \<open>
  A claim does not look at the rows its update affects: an invitation revoked between the read of the pending ones and the transaction of the claim is
  claimed all the same and stays revoked, while a redemption at that point is refused and writes no membership.
\<close>
theorem revoked_still_claimed:
  assumes "v \<in> set (pending_for email invs)" and "unique_key nv_ID invs" and "nv_Scope v = InvWorkspace"
  shows "\<exists>revoked tn'. invRevoke (nv_ID v) invs = Inr revoked \<and> v\<lparr>nv_Status := InvRevoked\<rparr> \<in> set revoked \<and>
    claimOne v u now (tn, revoked) = Inr (tn', revoked) \<and> wsGetRole (tn_Members tn') (nv_WorkspaceID v) u = Some (nv_Role v) \<and>
    redeemOne v u now (tn, revoked) = Inl InvNotPending"
proof -
  have v: "v \<in> set invs" "nv_Status v = InvPending" using assms(1) by (simp_all add: pending_for_def)
  then have g: "invGetByID invs (nv_ID v) = Some v" using assms(2) by (simp add: invGetByID_def row_at_unique)
  let ?P = "\<lambda>x. nv_ID x = nv_ID v \<and> nv_Status x = InvPending"
  define revoked where "revoked = fst (update_rows ?P (\<lambda>x. x\<lparr>nv_Status := InvRevoked\<rparr>) invs)"
  have none: "\<not> ?P x" if "x \<in> set revoked" for x using that by (auto simp: revoked_def update_rows_def)
  then have keep: "update_rows ?P f revoked = (revoked, 0)" for f
    using none by (auto simp: update_rows_def filter_empty_conv intro!: map_idI)
  obtain tn' where t: "grant_membership v u now tn = Some tn'" "wsGetRole (tn_Members tn') (nv_WorkspaceID v) u = Some (nv_Role v)"
    using granted_role [OF assms(3)] by blast
  have "invRevoke (nv_ID v) invs = Inr revoked" using g v by (simp add: invRevoke_def revoked_def)
  moreover have "v\<lparr>nv_Status := InvRevoked\<rparr> \<in> set revoked" using v by (auto simp: revoked_def update_rows_def intro: image_eqI [of _ _ v])
  moreover have "claimOne v u now (tn, revoked) = Inr (tn', revoked)" using t(1) by (simp add: claimOne_def keep)
  moreover have "redeemOne v u now (tn, revoked) = Inl InvNotPending" using t(1) by (simp add: redeemOne_def keep)
  ultimately show ?thesis using t(2) by blast
qed

section \<open>Witnesses\<close>

definition invite_tenancy :: Tenancy where
  "invite_tenancy = \<lparr>tn_AuthStore = True, tn_WorkspaceStore = True, tn_ProjectStore = True, tn_Workspaces = [],
     tn_Members = [\<lparr>wm_WorkspaceID = ''w'', wm_UserID = ''a'', wm_Role = ''admin'', wm_AddedAt = 0, wm_AddedBy = []\<rparr>], tn_Mounts = [],
     tn_Projects = [], tn_ProjectMembers = []\<rparr>"

definition inviter :: Ctx where
  "inviter = \<lparr>cx_User = Some \<lparr>us_ID = ''a'', us_Role = ''user''\<rparr>, cx_APIKeyProject = [], cx_APIKeyRole = [], cx_AgentRole = None\<rparr>"

lemma inviter_may: "canInvite invite_tenancy \<lparr>au_Users = [], au_Keys = []\<rparr> inviter InvWorkspace ''w'' []"
  by code_simp

lemma invitation_lifts_ceiling_witness:
  "\<not> callerWorkspaceRoleCeilingOK invite_tenancy inviter ''w'' ''owner'' \<and>
   (\<exists>v tn' invs'. invokeInvitationCreate True \<lparr>au_Users = [], au_Keys = []\<rparr> inviter (link_request ''w'' ''owner'') ''i'' (Some ''x'') 0 (invite_tenancy, []) =
      (Inr (LinkCreated v (redeemPath (hex ''x''))), (invite_tenancy, [] @ [v])) \<and>
    (\<exists>v'. invokeInvitationRedeem True inviter (hex ''x'') 1 (invite_tenancy, [] @ [v]) = Inr (v', (tn', invs'))) \<and>
    wsGetRole (tn_Members tn') ''w'' (caller_id inviter) = Some ''owner'')"
proof
  show "\<not> callerWorkspaceRoleCeilingOK invite_tenancy inviter ''w'' ''owner''" by code_simp
  have "IsValidRole ''owner''" "TrimSpace ''w'' = ''w''" "(1 :: int) \<le> 0 + DefaultLinkTTL" by code_simp+
  then show "\<exists>v tn' invs'. invokeInvitationCreate True \<lparr>au_Users = [], au_Keys = []\<rparr> inviter (link_request ''w'' ''owner'') ''i'' (Some ''x'') 0 (invite_tenancy, []) =
      (Inr (LinkCreated v (redeemPath (hex ''x''))), (invite_tenancy, [] @ [v])) \<and>
    (\<exists>v'. invokeInvitationRedeem True inviter (hex ''x'') 1 (invite_tenancy, [] @ [v]) = Inr (v', (tn', invs'))) \<and>
    wsGetRole (tn_Members tn') ''w'' (caller_id inviter) = Some ''owner''"
    by (intro invitation_lifts_ceiling [OF inviter_may]) simp_all
qed

definition demo_invite :: Invitation where
  "demo_invite = \<lparr>nv_ID = ''i'', nv_Email = ''e'', nv_Scope = InvWorkspace, nv_WorkspaceID = ''w'', nv_ProjectID = [], nv_Role = ''member'', nv_InvitedBy = ''a'',
     nv_Status = InvPending, nv_Token = hex ''x'', nv_ExpiresAt = Some DefaultLinkTTL, nv_AcceptedBy = [], nv_CreatedAt = 0, nv_AcceptedAt = None\<rparr>"

lemma revoked_still_claimed_witness:
  "\<exists>revoked tn'. invRevoke ''i'' [demo_invite] = Inr revoked \<and> demo_invite\<lparr>nv_Status := InvRevoked\<rparr> \<in> set revoked \<and>
    claimOne demo_invite ''b'' 1 (invite_tenancy, revoked) = Inr (tn', revoked) \<and> wsGetRole (tn_Members tn') ''w'' ''b'' = Some ''member'' \<and>
    redeemOne demo_invite ''b'' 1 (invite_tenancy, revoked) = Inl InvNotPending"
  using revoked_still_claimed [of demo_invite "''e''" "[demo_invite]" "''b''" 1 invite_tenancy]
  by (simp add: demo_invite_def pending_for_def unique_key_def)

lemma invitation_redeemed_once_witness:
  "\<exists>w. invite_run w \<and> length (iw_redeemed w) = 1 \<and> distinct (map (nv_ID \<circ> fst) (iw_redeemed w)) \<and>
     (\<exists>x. x \<in> set (iw_invs w) \<and> nv_Status x = InvAccepted \<and> nv_AcceptedBy x = ''b'')"
proof -
  define start where "start = no_invites invite_tenancy"
  have m: "TrimSpace (hex ''x'') = hex ''x''" "hex ''x'' \<noteq> []" using trim_hex [of "''x''"] by simp_all
  obtain v where c: "CreateLink ''i'' (Some ''x'') 0 0 (link_request ''w'' ''member'') [] = Inr (v, [v])" and
    v: "nv_ID v = ''i''" "nv_Status v = InvPending" "nv_Scope v = InvWorkspace" "nv_Token v = hex ''x''" "nv_ExpiresAt v = Some DefaultLinkTTL"
    by (simp add: CreateLink_def NewToken_def target_error_def link_request_def IsValidScope_def validRoleForScope_def IsValidRole_def go_defs Let_def)
  have s1: "invite_run (start\<lparr>iw_invs := [v]\<rparr>)" (is "invite_run ?w1")
    using step_run [OF begin_run [of invite_tenancy] invite_step.link] c by (simp add: start_def no_invites_def)
  have "redeem_checked (hex ''x'') ''b'' 1 [v] = Inr v"
    using v m by (simp add: redeem_checked_def GetByToken_def DefaultLinkTTL_def second_ns_def)
  then have s2: "invite_run (?w1\<lparr>iw_reads := [(v, ''b'')]\<rparr>)" (is "invite_run ?w2")
    using step_run [OF s1 invite_step.redeem_read] by (simp add: start_def no_invites_def)
  obtain tn' where "grant_membership v ''b'' 1 invite_tenancy = Some tn'" using granted_role [OF v(3)] by blast
  then have r: "redeemOne v ''b'' 1 (iw_tn ?w2, iw_invs ?w2) = Inr (tn', [v\<lparr>nv_Status := InvAccepted, nv_AcceptedAt := Some 1, nv_AcceptedBy := ''b''\<rparr>])"
    using v by (simp add: redeemOne_def update_rows_def start_def no_invites_def)
  have s3: "invite_run (?w2\<lparr>iw_tn := tn', iw_invs := [v\<lparr>nv_Status := InvAccepted, nv_AcceptedAt := Some 1, nv_AcceptedBy := ''b''\<rparr>], iw_reads := [], iw_redeemed := [(v, ''b'')]\<rparr>)" (is "invite_run ?w3")
    using step_run [OF s2 invite_step.redeem_write [OF _ r]] by (simp add: start_def no_invites_def)
  show ?thesis using s3 invitation_redeemed_once [OF s3] by (intro exI [of _ ?w3]) simp
qed

end
