(* ===== verification/Spec2Isabelle.thy ===== *)
theory Spec2Isabelle
  imports WorkflowResolve GateOutput Engagement DocSeeds DocWrites StoryReviewCases WorkflowCheckGoverns OAuthProps DevLogin InvitationProps
begin

text \<open>
  Satellites is a server and a command line client with which people and coding agents run stories through
  workflows. The server keeps documents (stories, tasks, skills, workflows, principles, changelogs), a ledger of what
  happened, variables, projects, workspaces and their members, and offers verbs over them through HTTP and MCP. The
  client works in a repository: it keeps a local store of who works on which story, opens and closes the door to edits,
  resolves the workflow that governs a story, runs the gates of its states and appends the rows that move the story.
  This library models the logic of both sides and proves what it guarantees.

  \<^bold>\<open>How the parts interact.\<close> A story is a document whose tags carry its category, its selected workflow and its status.
  \<open>status_transition\<close> of the client (StoryReview) reads it from the server, resolves its governing workflow (WorkflowResolve)
  from the files the client knows (Embedding), takes the claim of the story in the local store (Workstate), dispatches
  the gate of the edge (GateOutput), plans the rows of the decision (V2Edges) and appends them to the ledger
  (Ledger), whose append projects a transition onto the status of the story (Documents). A hook of the client lets
  an agent edit only while the local store holds a live engagement (Engagement), whose events are flushed to the
  ledger. Every verb of the server asks the role resolver (Authz) over the membership tables (Membership, Workspaces, Projects);
  who the caller is follows from a key, an access token or the cookie of a sign-in (Accounts, Login, Tokens, OAuth). \<open>workflow check\<close> (WorkflowCheck) examines the files
  the resolver reads, before it reads them.

  \<^bold>\<open>Modelling.\<close> A Go string is a list of 8-bit characters, a struct a record whose fields have a prefix of two letters, an
  enumeration or an error a datatype; wording of messages is kept only where code reads it. A table is the list of its rows
  and an SQL statement one of the operations of Tables; a transaction is one function, so it is atomic. The clock, fresh ids
  and random bytes are arguments. What is not in the repository is a parameter: the YAML and JSON decoders, the hashes and the
  MAC, the file system, subprocesses and, for the client, the server. Handlers are functions that return the new
  state with an error or a response; where operations of several callers interleave, the runs are folds over a datatype of
  operations (Documents, Variables, Workstate) or an inductive step relation (Engagement, OAuthProps, LedgerProps). A handler of several SQL
  statements without a transaction is one step where a run says so: the verbs of members, documents and variables; the ledger append, the token
  grants and the redemption of invitations are split where the statements race. Case is folded in ASCII only. Go maps whose order
  matters are association lists visited in an order that is a parameter.

  \<^bold>\<open>Theories.\<close>
  \<^item> Prelude: the functions of the packages strings, strconv, unicode and slices that the code calls; the collections of facts;
    lemmas on lists. Tables: select, upsert, update, delete on lists of rows, unique keys, the locale \<open>append_only_log\<close>.
    Paging: the locale \<open>keyset_pages\<close>, whose pages visit a listing once.
  \<^item> Kvtag (\<^verbatim>\<open>internal/kvtag\<close>): key:value tags. Frontmatter (\<^verbatim>\<open>internal/frontmatter\<close>): the split of a file into frontmatter
    and body, and the stamp of a materialised file.
  \<^item> Workflow, Lifecycle, WorkflowParse (\<^verbatim>\<open>internal/workflow/workflow.go\<close>): states and transitions, \<open>validate\<close> with its
    declarative condition \<open>wf_ok\<close> and its depth-first search, the queries, the comparison that detects drift, reading a file.
  \<^item> V2Edges (\<^verbatim>\<open>internal/verb/v2_edges.go\<close>): edges of a review state, the plan of a decision, the count of rejects.
    WorkflowResolve (\<^verbatim>\<open>internal/verb/workflow_resolve.go\<close>): which workflow governs a story, the edges it offers, the dry run.
  \<^item> Membership (\<^verbatim>\<open>internal/workspace/member.go\<close>, \<^verbatim>\<open>mount.go\<close>, \<^verbatim>\<open>internal/project/member.go\<close>): both membership stores as
    interpretations of the locale \<open>member_store\<close>, and mounts. Workspaces (\<^verbatim>\<open>internal/workspace/store.go\<close>), Projects
    (\<^verbatim>\<open>internal/project\<close>): the tables with their unique indexes, the canonical form of a git remote.
  \<^item> Authz (\<^verbatim>\<open>internal/verb/authz.go\<close>): the role of a caller on a project, refined from a linear order of roles.
    MemberVerbs (\<^verbatim>\<open>workspace_member.go\<close>, \<^verbatim>\<open>project_member.go\<close>, \<^verbatim>\<open>workspace_mount.go\<close> and part of \<^verbatim>\<open>project.go\<close> in
    \<^verbatim>\<open>internal/verb\<close>): the verbs over members and mounts.
  \<^item> GateOutput (\<^verbatim>\<open>request_review_dispatcher.go\<close>): finding and running a gate skill, reading its verdict.
  \<^item> Workstate (\<^verbatim>\<open>internal/workstate\<close>): the local store: event log and projection, claims, inbox, evidence, budget. Engagement
    (\<^verbatim>\<open>cmd_work.go\<close>, \<^verbatim>\<open>cmd_hook.go\<close>, \<^verbatim>\<open>cmd_hook_access.go\<close>, \<^verbatim>\<open>cmd_hook_stopcheck.go\<close>, \<^verbatim>\<open>worktick.go\<close>, \<^verbatim>\<open>cmd_work_sync.go\<close>,
    \<^verbatim>\<open>worklocal.go\<close> of \<^verbatim>\<open>internal/cli\<close>): engaging, closing, the heartbeat, the edit door, the flush.
  \<^item> Documents, DocFacts, DocProps (\<^verbatim>\<open>internal/document/store.go\<close>, \<^verbatim>\<open>document.go\<close>): the document store, its invariant over every run and
    its promises. Template (\<^verbatim>\<open>template.go\<close>): placeholders. DocSeeds (\<^verbatim>\<open>system_seed.go\<close>, \<^verbatim>\<open>seed.go\<close>): the boot reconciliation.
  \<^item> Variables, VariableProps (\<^verbatim>\<open>internal/variable\<close>, \<^verbatim>\<open>internal/verb/variable.go\<close>, \<^verbatim>\<open>internal/llmcfg\<close>): variables and their verbs,
    with the proof that secrets do not reach callers who are no administrators.
  \<^item> DocVerbs, DocReads, DocGuards, DocWrites (\<^verbatim>\<open>internal/verb/document.go\<close>, \<^verbatim>\<open>story.go\<close>, \<^verbatim>\<open>task.go\<close>): the document verbs, what
    their guards let through and what they keep.
  \<^item> Ledger, LedgerProps (\<^verbatim>\<open>internal/ledger\<close>, \<^verbatim>\<open>internal/verb/ledger.go\<close>): appends, listing, the projection of a transition; the server as
    a machine of appends and document operations.
  \<^item> Embedding (\<^verbatim>\<open>clientworkflows.go\<close>, \<^verbatim>\<open>cmd_workflow_design.go\<close>, \<^verbatim>\<open>cmd_workflow_embed.go\<close>): the sources of workflows and the copy
    stamped into a story. StoryReview, StoryReviewProps, StoryReviewCases (\<^verbatim>\<open>cmd_story_review.go\<close>, \<^verbatim>\<open>internal/verb/summariser.go\<close>):
    \<open>status_transition\<close> against every server, gate and command. WorkflowCheck, WorkflowCheckProps, WorkflowCheckGoverns
    (\<^verbatim>\<open>cmd_workflow_check.go\<close>): the drift checks, their exact meaning, and what a clean check is worth to the resolver.
  \<^item> Tokens (\<^verbatim>\<open>jwt.go\<close>, \<^verbatim>\<open>session.go\<close>, \<^verbatim>\<open>pkce.go\<close> of \<^verbatim>\<open>internal/auth\<close>): base64, access tokens, session cookies, proof keys. OAuth,
    OAuthProps (\<^verbatim>\<open>oauth_server.go\<close>, \<^verbatim>\<open>oauth_types.go\<close>, \<^verbatim>\<open>oauth_store_postgres.go\<close>, \<^verbatim>\<open>oauth_state_store_postgres.go\<close>,
    \<^verbatim>\<open>oauth_discovery.go\<close>): the authorization server, and its runs with sign-ins and interleaved grants. Login (\<^verbatim>\<open>login.go\<close>,
    \<^verbatim>\<open>oauth.go\<close>, \<^verbatim>\<open>redirect.go\<close> of \<^verbatim>\<open>internal/server\<close>): the password form, the trip to a provider, the session cookie.
  \<^item> Accounts, AccountProps (\<^verbatim>\<open>internal/auth/store.go\<close>, \<^verbatim>\<open>password.go\<close>, \<^verbatim>\<open>middleware.go\<close>, \<^verbatim>\<open>internal/verb/apikey.go\<close>): users and API keys,
    the credential of a request, the key verbs, and their runs. DevLogin (\<^verbatim>\<open>devlogin.go\<close>, \<^verbatim>\<open>devseed.go\<close>): the accounts made at boot.
  \<^item> Invitations, InvitationProps (\<^verbatim>\<open>internal/invitation\<close>, \<^verbatim>\<open>internal/verb/invitation.go\<close>): invitations by email and by link, and
    redemptions and claims that interleave with the rest.

  \<^bold>\<open>What the lemmas show.\<close> Each store has an invariant that every operation keeps (unique keys, versions without gaps, one
  projection row per pair), the functional behaviour of its operations on every branch, and round trips. On top of them: an accepted
  workflow never strands a decision and bounds its loops; a run of \<open>status_transition\<close> moves a story by at most one declared edge, respects
  claims and leaves the store well formed; over appends handled one after the other the status of a story is its last transition row; the ledger is read
  completely, a flush loses no event, and two rows of one event come from overlapping requests only; the role resolver is the capped maximum of the grants; a workspace keeps an administrator; secrets are
  not observable; system rows are read only and skills reviewed; an authorization code is granted once, and every refresh token
  goes back to a user who proved to own an account. Several properties state where the
  code falls short of what it means to do: a claimed workspace opens projects, rendering reveals variables, the review of a workflow can be split
  in two, an embedded copy is not honoured, a refresh token is granted twice.

  \<^bold>\<open>Bounds and fuel.\<close> Recursions that are not structural (the search for a cycle, the balanced objects of a gate's output, the delimiter of a
  frontmatter, the placeholders of a template) have a termination proof. The reject counter reads pages until the
  server sends no cursor, which it may send for ever: \<open>full_views_loop\<close> has fuel, and LedgerProps shows that fuel for more pages of 200
  rows than the ledger has is enough and yields every row once; \<open>re_fuel\<close> of StoryReview hands it on. Integers that overflow in the code are compared
  against their 64-bit range where text is parsed into them; sequence numbers and versions count up by one and are unbounded.

  \<^bold>\<open>Not modelled.\<close> Rendering of pages and command output (\<^verbatim>\<open>internal/server\<close>, the printing commands of \<^verbatim>\<open>internal/cli\<close>),
  configuration, HTTP and MCP transport, the live hub, the wiring of the binaries; wrappers of services outside the repository
  (embeddings, text extraction, language models, blobs, OAuth providers, migrations), which would be parameters with nothing to
  prove; the code graph, the commit hook and the synchronisation of skills, which are not part of what decides how work moves. A failure of the database is modelled only where a constraint refuses a row.
\<close>

end
